(* ===== verification/GoBase.thy ===== *)
theory GoBase
  imports Main "HOL-Library.Word" "HOL-Library.List_Lexorder" "HOL-Library.Char_ord"
begin

text \<open>
  The prelude: the parts of Go and of its standard library that every component uses.
  Buffers (\<open>[]byte\<close>) are lists of 8-bit words, Go strings are lists of characters (bytes),
  \<open>uint32\<close> and \<open>uint64\<close> are 32- and 64-bit words, and a fallible operation returns
  \<open>error + 'a\<close> with \<open>Inl\<close> for the error.  The theory gives slicing and \<open>copy\<close> on buffers,
  big-endian integers (\<open>encoding/binary\<close>), hexadecimal (\<open>encoding/hex\<close>), the binary search
  of \<open>sort.Search\<close>, the string helpers of package \<open>strings\<close>, and the facts about them
  that the component theories share, collected in \<open>buf_simps\<close> and \<open>res_simps\<close>.
\<close>

unbundle bit_operations_syntax

named_theorems buf_simps "reading back a buffer after a write"
named_theorems res_simps "evaluating chains of fallible steps"

type_synonym byte = "8 word"
type_synonym bytes = "8 word list"
type_synonym u32 = "32 word"
type_synonym u64 = "64 word"

section \<open>Fallible steps\<close>

text \<open>\<open>x, err := f(); if err != nil { return err }; \<dots>\<close>\<close>

definition andThen :: "'e + 'a \<Rightarrow> ('a \<Rightarrow> 'e + 'b) \<Rightarrow> 'e + 'b" where
  "andThen r k = (case r of Inl e \<Rightarrow> Inl e | Inr x \<Rightarrow> k x)"

lemma andThen_simps [simp, res_simps]:
  "andThen (Inl e) k = Inl e"
  "andThen (Inr x) k = k x"
  by (simp_all add: andThen_def)

lemma andThen_eq_Inr [res_simps]:
  "andThen r k = Inr y \<longleftrightarrow> (\<exists>x. r = Inr x \<and> k x = Inr y)"
  by (cases r) auto

text \<open>\<open>if bad { return err }\<close>\<close>

definition failIf :: "bool \<Rightarrow> 'e \<Rightarrow> 'e + 'a \<Rightarrow> 'e + 'a" where
  "failIf b e k = (if b then Inl e else k)"

lemma failIf_simps [simp, res_simps]:
  "failIf True e k = Inl e"
  "failIf False e k = k"
  by (simp_all add: failIf_def)

lemma failIf_eq_Inr [res_simps]:
  "failIf b e k = Inr y \<longleftrightarrow> \<not> b \<and> k = Inr y"
  by (simp add: failIf_def)

section \<open>Slices and copy\<close>

definition slice :: "nat \<Rightarrow> nat \<Rightarrow> 'a list \<Rightarrow> 'a list" where
  "slice i j xs = take (j - i) (drop i xs)"

text \<open>\<open>copy(dst[i:j], src)\<close>: the common prefix of the window and the source is overwritten.\<close>

definition copySlice :: "nat \<Rightarrow> nat \<Rightarrow> 'a list \<Rightarrow> 'a list \<Rightarrow> 'a list" where
  "copySlice i j src dst =
     (let n = min (min j (length dst) - i) (length src)
      in take i dst @ take n src @ drop (i + n) dst)"

lemma length_slice [simp]: "length (slice i j xs) = min (j - i) (length xs - i)"
  by (simp add: slice_def min.commute)

lemma length_copySlice [simp]: "i \<le> length dst \<Longrightarrow> length (copySlice i j src dst) = length dst"
  by (auto simp: copySlice_def Let_def min_def)

lemma copySlice_exact:
  assumes "j \<le> length dst" and "length src = j - i" and "i \<le> j"
  shows "copySlice i j src dst = take i dst @ src @ drop j dst"
  using assms by (simp add: copySlice_def Let_def)

lemma slice_copySlice_same [buf_simps]:
  assumes "j \<le> length dst" and "length src = j - i" and "i \<le> j"
  shows "slice i j (copySlice i j src dst) = src"
  using assms by (simp add: copySlice_exact slice_def)

lemma slice_drop_take: "slice a b xs = drop a (take b xs)"
  by (simp add: slice_def drop_take)

lemma take_copySlice_before:
  assumes "b \<le> i" and "i \<le> length dst"
  shows "take b (copySlice i j src dst) = take b dst"
  using assms by (simp add: copySlice_def Let_def min_absorb1)

lemma slice_copySlice_before [buf_simps]:
  assumes "b \<le> i" and "i \<le> length dst"
  shows "slice a b (copySlice i j src dst) = slice a b dst"
  using assms by (simp add: slice_drop_take take_copySlice_before)

lemma drop_copySlice_after:
  assumes "j \<le> a" and "i \<le> j" and "j \<le> length dst"
  shows "drop a (copySlice i j src dst) = drop a dst"
proof -
  let ?n = "min (min j (length dst) - i) (length src)"
  have "length (take i dst @ take ?n src) = i + ?n" and "i + ?n \<le> a"
    using assms by auto
  then show ?thesis
    by (simp add: copySlice_def Let_def flip: append_assoc)
qed

lemma slice_copySlice_after [buf_simps]:
  assumes "j \<le> a" and "i \<le> j" and "j \<le> length dst"
  shows "slice a b (copySlice i j src dst) = slice a b dst"
  using assms by (simp add: slice_def drop_copySlice_after)

lemma slice_0 [simp]: "slice 0 n xs = take n xs"
  by (simp add: slice_def)

section \<open>Big-endian integers\<close>

fun putBE :: "nat \<Rightarrow> 'a::len word \<Rightarrow> bytes" where
  "putBE 0 v = []"
| "putBE (Suc k) v = putBE k (drop_bit 8 v) @ [ucast v]"

definition getBE :: "bytes \<Rightarrow> 'a::len word" where
  "getBE bs = foldl (\<lambda>a b. push_bit 8 a OR ucast b) 0 bs"

lemma length_putBE [simp]: "length (putBE k v) = k"
  by (induction k arbitrary: v) auto

lemma getBE_Nil [simp]: "getBE [] = 0"
  by (simp add: getBE_def)

lemma getBE_snoc: "getBE (bs @ [b]) = push_bit 8 (getBE bs) OR ucast b"
  by (simp add: getBE_def)

lemma getBE_putBE: "getBE (putBE k v) = take_bit (8 * k) v"
proof (induction k arbitrary: v)
  case 0
  then show ?case by simp
next
  case (Suc k)
  have "push_bit 8 (take_bit (8 * k) (drop_bit 8 v)) OR ucast (ucast v :: byte) = take_bit (8 + 8 * k) v"
    by (rule bit_word_eqI) (auto simp: bit_simps)
  then show ?case by (simp add: getBE_snoc Suc.IH)
qed

lemma getBE_putBE_u64 [simp]: "getBE (putBE 8 (v :: u64)) = v"
  by (simp add: getBE_putBE take_bit_word_eq_self)

lemma getBE_putBE_u32 [simp]: "getBE (putBE 4 (v :: u32)) = v"
  by (simp add: getBE_putBE take_bit_word_eq_self)

lemma bit_getBE: "bit (getBE bs :: 'a::len word) n \<Longrightarrow> n < 8 * length bs"
proof (induction bs arbitrary: n rule: rev_induct)
  case Nil
  then show ?case by simp
next
  case (snoc b bs)
  then show ?case
    by (auto simp: getBE_snoc bit_simps dest!: snoc.IH) (use bit_imp_le_length in fastforce)
qed

lemma putBE_getBE:
  assumes "8 * length bs \<le> LENGTH('a::len)"
  shows "putBE (length bs) (getBE bs :: 'a word) = bs"
  using assms
proof (induction bs rule: rev_induct)
  case Nil
  then show ?case by simp
next
  case (snoc b bs)
  let ?g = "getBE bs :: 'a word"
  have "drop_bit 8 (push_bit 8 ?g OR ucast b) = ?g"
  proof (rule bit_word_eqI)
    fix n assume "n < LENGTH('a)"
    have "bit ?g n \<Longrightarrow> n + 8 < LENGTH('a)"
      using bit_getBE [where 'a = 'a and bs = bs and n = n] snoc.prems by simp
    moreover have "\<not> bit (b :: byte) (n + 8)"
      using bit_imp_le_length [of b "n + 8"] by auto
    ultimately show "bit (drop_bit 8 (push_bit 8 ?g OR ucast b)) n = bit ?g n"
      by (auto simp: bit_simps add.commute)
  qed
  moreover have "ucast (push_bit 8 ?g OR ucast b) = b"
    using snoc.prems by (intro bit_word_eqI) (auto simp: bit_simps)
  ultimately show ?case using snoc by (simp add: getBE_snoc)
qed

lemma putBE_getBE_u64: "length bs = 8 \<Longrightarrow> putBE 8 (getBE bs :: u64) = bs"
  using putBE_getBE [where 'a = 64, of bs] by simp

lemma putBE_inj_u64: "putBE 8 (v :: u64) = putBE 8 w \<Longrightarrow> v = w"
  by (metis getBE_putBE_u64)

section \<open>Strings as bytes, and hexadecimal\<close>

definition bytesOf :: "string \<Rightarrow> bytes" where
  "bytesOf s = map of_char s"

definition strOf :: "bytes \<Rightarrow> string" where
  "strOf bs = map (\<lambda>b. char_of (unat b)) bs"

lemma length_bytesOf [simp]: "length (bytesOf s) = length s"
  by (simp add: bytesOf_def)

lemma length_strOf [simp]: "length (strOf bs) = length bs"
  by (simp add: strOf_def)

lemma of_char_word: "(of_char c :: byte) = word_of_nat (of_char c)"
  by (metis of_nat_of_char)

lemma bytesOf_strOf [simp]: "bytesOf (strOf bs) = bs"
proof -
  have "(of_char (char_of (unat b) :: char) :: byte) = b" for b :: byte
    using unsigned_less [of b, where ?'a = nat] by (simp add: of_char_word)
  then show ?thesis by (simp add: bytesOf_def strOf_def comp_def map_idI)
qed

lemma strOf_bytesOf [simp]: "strOf (bytesOf s) = s"
proof -
  have "char_of (unat (of_char c :: byte)) = c" for c :: char
  proof -
    have "(of_char c :: nat) < 256" by (rule nat_of_char_less_256)
    then have "unat (of_char c :: byte) = of_char c"
      by (simp add: of_char_word unat_of_nat)
    then show ?thesis by simp
  qed
  then show ?thesis by (simp add: bytesOf_def strOf_def comp_def map_idI)
qed

text \<open>The nibble tables of \<open>encoding/hex\<close>.\<close>

definition hexDigit :: "byte \<Rightarrow> byte" where
  "hexDigit n = (if n < 10 then 0x30 + n else 0x57 + n)"

definition fromHex :: "byte \<Rightarrow> byte option" where
  "fromHex c =
     (if 0x30 \<le> c \<and> c \<le> 0x39 then Some (c - 0x30)
      else if 0x61 \<le> c \<and> c \<le> 0x66 then Some (c - 0x57)
      else if 0x41 \<le> c \<and> c \<le> 0x46 then Some (c - 0x37)
      else None)"

fun hexEncode :: "bytes \<Rightarrow> bytes" where
  "hexEncode [] = []"
| "hexEncode (b # bs) = hexDigit (drop_bit 4 b) # hexDigit (take_bit 4 b) # hexEncode bs"

text \<open>
  \<open>hex.Decode\<close> returns the bytes decoded before the first bad digit, and whether the whole
  input was well formed (an odd length is not).
\<close>

fun hexDecode :: "bytes \<Rightarrow> bytes \<times> bool" where
  "hexDecode [] = ([], True)"
| "hexDecode [c] = ([], False)"
| "hexDecode (p # q # rest) =
     (case fromHex p of None \<Rightarrow> ([], False)
      | Some a \<Rightarrow> (case fromHex q of None \<Rightarrow> ([], False)
          | Some b \<Rightarrow> (let (bs, ok) = hexDecode rest in ((push_bit 4 a OR b) # bs, ok))))"

definition encodeToString :: "bytes \<Rightarrow> string" where
  "encodeToString bs = strOf (hexEncode bs)"

definition decodeString :: "string \<Rightarrow> bytes \<times> bool" where
  "decodeString s = hexDecode (bytesOf s)"

lemma length_hexEncode [simp]: "length (hexEncode bs) = 2 * length bs"
  by (induction bs) auto

lemma length_encodeToString [simp]: "length (encodeToString bs) = 2 * length bs"
  by (simp add: encodeToString_def)

lemma fromHex_hexDigit: "n < 16 \<Longrightarrow> fromHex (hexDigit n) = Some n"
proof -
  assume "n < 16"
  then have n: "unat n < 16" by (simp add: word_less_nat_alt)
  then have sum: "unat (0x30 + n) = 48 + unat n" "unat (0x57 + n) = 87 + unat n"
    by (simp_all add: unat_word_ariths)
  with n show ?thesis
    by (simp add: fromHex_def hexDigit_def word_less_nat_alt word_le_nat_alt)
qed

lemma nibbles_lt: "drop_bit 4 (b :: byte) < 16" "take_bit 4 (b :: byte) < 16"
proof -
  have "unat (drop_bit 4 b) = drop_bit 4 (unat b)" by (rule unat_drop_bit_eq)
  then have "unat (drop_bit 4 b) = unat b div 16" by (simp only: drop_bit_eq_div) simp
  moreover have "unat b < 256" using unsigned_less [of b, where ?'a = nat] by simp
  ultimately have "unat (drop_bit 4 b) < unat (16 :: byte)" by simp
  then show "drop_bit 4 b < 16" by (simp only: word_less_nat_alt)
  have "unat (take_bit 4 b) = take_bit 4 (unat b)" by (rule unsigned_take_bit_eq)
  then have "unat (take_bit 4 b) = unat b mod 16" by (simp only: take_bit_eq_mod) simp
  then have "unat (take_bit 4 b) < unat (16 :: byte)" by simp
  then show "take_bit 4 b < 16" by (simp only: word_less_nat_alt)
qed

lemma nibbles_join: "push_bit 4 (drop_bit 4 b) OR take_bit 4 (b :: byte) = b"
  by (rule bit_word_eqI) (auto simp: bit_simps)

lemma hexEncode_digits: "c \<in> set (hexEncode bs) \<Longrightarrow> fromHex c \<noteq> None"
  by (induction bs) (auto simp: fromHex_hexDigit nibbles_lt)

lemma hexEncode_nibbles: "b \<in> set (hexEncode bs) \<Longrightarrow> \<exists>n < 16. b = hexDigit n"
  by (induction bs) (auto intro: nibbles_lt)

lemma hexDecode_hexEncode [simp]: "hexDecode (hexEncode bs) = (bs, True)"
  by (induction bs) (simp_all add: fromHex_hexDigit nibbles_lt nibbles_join)

lemma decodeString_encodeToString [simp]: "decodeString (encodeToString bs) = (bs, True)"
  by (simp add: decodeString_def encodeToString_def)

lemma encodeToString_inj: "encodeToString a = encodeToString b \<longleftrightarrow> a = b"
  by (metis decodeString_encodeToString fst_conv)

section \<open>Binary search\<close>

text \<open>\<open>sort.Search(n, f)\<close> is \<open>sortSearch f 0 n\<close>.\<close>

function sortSearch :: "(nat \<Rightarrow> bool) \<Rightarrow> nat \<Rightarrow> nat \<Rightarrow> nat" where
  "sortSearch f i j =
     (if i < j then
        let h = (i + j) div 2
        in if \<not> f h then sortSearch f (h + 1) j else sortSearch f i h
      else i)"
  by pat_completeness auto
termination
  by (relation "measure (\<lambda>(f, i, j). j - i)") auto

declare sortSearch.simps [simp del]

text \<open>
  For a predicate that never goes back to false the search returns the first index at which
  it holds, or the length.
\<close>

lemma sortSearch_first:
  assumes mono: "\<And>a b. a \<le> b \<Longrightarrow> b < n \<Longrightarrow> f a \<Longrightarrow> f b"
    and "i \<le> j" and "j \<le> n"
    and "\<And>a. a < i \<Longrightarrow> \<not> f a" and "\<And>a. j \<le> a \<Longrightarrow> a < n \<Longrightarrow> f a"
  shows "sortSearch f i j \<le> n \<and> (\<forall>a < sortSearch f i j. \<not> f a)
    \<and> (\<forall>a. sortSearch f i j \<le> a \<longrightarrow> a < n \<longrightarrow> f a)"
  using assms
proof (induction f i j rule: sortSearch.induct)
  case (1 f i j)
  show ?case
  proof (cases "i < j")
    case False
    then have "sortSearch f i j = i" by (simp add: sortSearch.simps)
    with False 1(4-) show ?thesis by force
  next
    case True
    define h where "h = (i + j) div 2"
    have h: "i \<le> h" "h < j" "h < n" using True 1(5) by (auto simp: h_def)
    show ?thesis
    proof (cases "f h")
      case fh: True
      have eq: "sortSearch f i j = sortSearch f i h"
        using fh \<open>i < j\<close> by (simp add: sortSearch.simps [of f i j] h_def)
      show ?thesis unfolding eq
        by (rule 1(2) [OF \<open>i < j\<close> h_def]) (use fh h 1(3-) in auto)
    next
      case fh: False
      have eq: "sortSearch f i j = sortSearch f (h + 1) j"
        using fh \<open>i < j\<close> by (simp add: sortSearch.simps [of f i j] h_def)
      show ?thesis unfolding eq
      proof (rule 1(1) [OF \<open>i < j\<close> h_def fh])
        show "\<not> f a" if "a < h + 1" for a
          using that fh 1(3) [of a h] h by auto
      qed (use h 1(3-) in auto)
    qed
  qed
qed

end
