(* ===== verification/Sha256.thy ===== *)
theory Sha256
  imports GoBase
begin

text \<open>
  SHA-256 (Go's \<open>crypto/sha256\<close>, FIPS 180-4) as an executable function on buffers.  The
  components use it for content digests and file identities.  What the other theories need to
  know of it is that it is a function of its input with 32-byte results
  (\<open>length_sha256\<close>).
\<close>

definition K256 :: "u32 list" where
  "K256 = [1116352408, 1899447441, 3049323471, 3921009573, 961987163, 1508970993, 2453635748, 2870763221,
   3624381080, 310598401, 607225278, 1426881987, 1925078388, 2162078206, 2614888103, 3248222580,
   3835390401, 4022224774, 264347078, 604807628, 770255983, 1249150122, 1555081692, 1996064986,
   2554220882, 2821834349, 2952996808, 3210313671, 3336571891, 3584528711, 113926993, 338241895,
   666307205, 773529912, 1294757372, 1396182291, 1695183700, 1986661051, 2177026350, 2456956037,
   2730485921, 2820302411, 3259730800, 3345764771, 3516065817, 3600352804, 4094571909, 275423344,
   430227734, 506948616, 659060556, 883997877, 958139571, 1322822218, 1537002063, 1747873779,
   1955562222, 2024104815, 2227730452, 2361852424, 2428436474, 2756734187, 3204031479, 3329325298]"

definition bigSigma0 :: "u32 \<Rightarrow> u32" where
  "bigSigma0 x = word_rotr 2 x XOR word_rotr 13 x XOR word_rotr 22 x"
definition bigSigma1 :: "u32 \<Rightarrow> u32" where
  "bigSigma1 x = word_rotr 6 x XOR word_rotr 11 x XOR word_rotr 25 x"
definition smallSigma0 :: "u32 \<Rightarrow> u32" where
  "smallSigma0 x = word_rotr 7 x XOR word_rotr 18 x XOR drop_bit 3 x"
definition smallSigma1 :: "u32 \<Rightarrow> u32" where
  "smallSigma1 x = word_rotr 17 x XOR word_rotr 19 x XOR drop_bit 10 x"
definition chooseBits :: "u32 \<Rightarrow> u32 \<Rightarrow> u32 \<Rightarrow> u32" where
  "chooseBits x y z = (x AND y) XOR (NOT x AND z)"
definition majorityBits :: "u32 \<Rightarrow> u32 \<Rightarrow> u32 \<Rightarrow> u32" where
  "majorityBits x y z = (x AND y) XOR (x AND z) XOR (y AND z)"

type_synonym sha_state = "u32 \<times> u32 \<times> u32 \<times> u32 \<times> u32 \<times> u32 \<times> u32 \<times> u32"

definition sha256Init :: sha_state where
  "sha256Init = (1779033703, 3144134277, 1013904242, 2773480762, 1359893119, 2600822924, 528734635, 1541459225)"

text \<open>Consecutive blocks of \<open>n\<close> elements.\<close>

fun blocks :: "nat \<Rightarrow> nat \<Rightarrow> 'a list \<Rightarrow> 'a list list" where
  "blocks 0 n xs = []"
| "blocks (Suc m) n xs = take n xs # blocks m n (drop n xs)"

text \<open>The message schedule, newest word first.\<close>

fun extendSchedule :: "nat \<Rightarrow> u32 list \<Rightarrow> u32 list" where
  "extendSchedule 0 w = w"
| "extendSchedule (Suc k) w =
     extendSchedule k ((smallSigma1 (w ! 1) + w ! 6 + smallSigma0 (w ! 14) + w ! 15) # w)"

fun sha256Round :: "u32 \<times> u32 \<Rightarrow> sha_state \<Rightarrow> sha_state" where
  "sha256Round (k, w) (a, b, c, d, e, f, g, h) =
     (let t1 = h + bigSigma1 e + chooseBits e f g + k + w; t2 = bigSigma0 a + majorityBits a b c
      in (t1 + t2, a, b, c, d + t1, e, f, g))"

fun addState :: "sha_state \<Rightarrow> sha_state \<Rightarrow> sha_state" where
  "addState (a, b, c, d, e, f, g, h) (a', b', c', d', e', f', g', h') =
     (a + a', b + b', c + c', d + d', e + e', f + f', g + g', h + h')"

definition sha256Block :: "bytes \<Rightarrow> sha_state \<Rightarrow> sha_state" where
  "sha256Block blk s =
     (let w0 = map getBE (blocks 16 4 blk); w = rev (extendSchedule 48 (rev w0))
      in addState s (fold sha256Round (zip K256 w) s))"

definition sha256Pad :: "bytes \<Rightarrow> bytes" where
  "sha256Pad m = m @ [0x80] @ replicate ((119 - length m mod 64) mod 64) 0
     @ putBE 8 (word_of_nat (8 * length m) :: u64)"

definition sha256 :: "bytes \<Rightarrow> bytes" where
  "sha256 m =
     (let p = sha256Pad m in
      case fold sha256Block (blocks (length p div 64) 64 p) sha256Init of
        (a, b, c, d, e, f, g, h) \<Rightarrow> concat (map (putBE 4) [a, b, c, d, e, f, g, h]))"

lemma length_sha256 [simp]: "length (sha256 m) = 32"
  by (simp add: sha256_def Let_def split: prod.split)

text \<open>The padded message is a whole number of 64-byte blocks.\<close>

lemma sha256Pad_blocks: "64 dvd length (sha256Pad m)"
proof -
  define q r where "q = length m div 64" and "r = length m mod 64"
  have m: "length m = 64 * q + r" and r: "r < 64" by (simp_all add: q_def r_def)
  have "(119 - r) mod 64 = (if r \<le> 55 then 55 - r else 119 - r)"
    using r by (auto simp: mod_if)
  then have "length (sha256Pad m) = 64 * (if r \<le> 55 then q + 1 else q + 2)"
    using m r by (simp add: sha256Pad_def)
  then show ?thesis by simp
qed

end
