(* ===== verification/PwFormat.thy ===== *)
theory PwFormat
  imports Sha256
begin

text \<open>
  The on-disk format of the offline password database
  (\<open>src/internal/passworddb/format.go\<close>, \<open>errors.go\<close>, the manifest record of
  \<open>manifest.go\<close>): the 128-byte headers, the 28-byte records and the prefix index, which holds
  one offset per 20-bit key prefix and one SHA-256 digest per range.  \<open>putOffset\<close> and the digest
  write mutate the index buffer in the code; here they return the new buffer.
\<close>

section \<open>Errors\<close>

text \<open>
  The values of Go's \<open>error\<close> that reach this package: its own \<open>*Error\<close> (a fixed kind and an
  optional wrapped context error), the two context errors, and what \<open>os\<close> reports.
\<close>

datatype ctx_err = Canceled | DeadlineExceeded

datatype go_err =
    OwnError string "ctx_err option"
  | CtxError ctx_err
  | ErrNotExist
  | ErrPermission
  | ErrExist
  | ErrOther string

definition problem :: "string \<Rightarrow> go_err" where
  "problem kind = OwnError kind None"

fun SafeError :: "go_err \<Rightarrow> go_err" where
  "SafeError (OwnError kind cause) = OwnError kind cause"
| "SafeError (CtxError Canceled) = OwnError ''cancelled'' (Some Canceled)"
| "SafeError (CtxError DeadlineExceeded) = OwnError ''timeout'' (Some DeadlineExceeded)"
| "SafeError ErrNotExist = problem ''missing''"
| "SafeError ErrPermission = problem ''permission_denied''"
| "SafeError _ = problem ''io_failure''"

fun ErrorKind :: "go_err option \<Rightarrow> string" where
  "ErrorKind None = []"
| "ErrorKind (Some e) = (case SafeError e of OwnError kind cause \<Rightarrow> kind | _ \<Rightarrow> [])"

lemma problem_eq [simp]: "problem a = problem b \<longleftrightarrow> a = b"
  by (simp add: problem_def)

lemma SafeError_own: "\<exists>kind cause. SafeError e = OwnError kind cause"
  by (cases e rule: SafeError.cases) (auto simp: problem_def)

lemma SafeError_idem: "SafeError (SafeError e) = SafeError e"
  using SafeError_own [of e] by auto

section \<open>Sizes\<close>

definition HeaderSize :: nat where "HeaderSize = 128"
definition RecordSize :: nat where "RecordSize = 28"
definition PrefixBits :: nat where "PrefixBits = 20"
definition PrefixCount :: nat where "PrefixCount = 2 ^ PrefixBits"
definition MaxRangeBytes :: nat where "MaxRangeBytes = 2 * 2 ^ 20"
definition IndexSize :: nat where
  "IndexSize = HeaderSize + 8 * (PrefixCount + 1) + 32 * PrefixCount"
definition formatVersion :: u32 where "formatVersion = 1"
definition dataMagic :: string where "dataMagic = ''ASPWNDAT''"
definition indexMagic :: string where "indexMagic = ''ASPWNIDX''"
definition emptyDigest :: bytes where "emptyDigest = sha256 []"

lemmas size_defs = HeaderSize_def RecordSize_def PrefixBits_def PrefixCount_def
  MaxRangeBytes_def IndexSize_def

text \<open>The most records a database can hold: every range at its 2 MiB cap.\<close>

definition maxRecords :: nat where
  "maxRecords = PrefixCount * (MaxRangeBytes div RecordSize)"

definition dataSize :: "u64 \<Rightarrow> go_err + int" where
  "dataSize n =
     (if n > word_of_nat maxRecords then Inl (problem ''capacity_exceeded'')
      else Inr (int HeaderSize + int (unat n) * int RecordSize))"

lemma maxRecords_val: "maxRecords = 78536245248"
  by (simp add: maxRecords_def size_defs)

lemma unat_maxRecords: "unat (word_of_nat maxRecords :: u64) = maxRecords"
  by (simp add: maxRecords_val unat_of_nat)

lemma dataSize_Inr: "dataSize n = Inr s \<longleftrightarrow> unat n \<le> maxRecords \<and> s = int (HeaderSize + unat n * RecordSize)"
  by (auto simp: dataSize_def word_less_nat_alt unat_maxRecords)

section \<open>Records, identifiers and headers\<close>

text \<open>\<open>int(key[0])<<12 | int(key[1])<<4 | int(key[2])>>4\<close>: the top 20 bits of a key.\<close>

definition keyPrefix :: "bytes \<Rightarrow> nat" where
  "keyPrefix key = push_bit 12 (unat (key ! 0)) OR push_bit 4 (unat (key ! 1)) OR drop_bit 4 (unat (key ! 2))"

definition validID :: "string \<Rightarrow> bool" where
  "validID ident = (case decodeString ident of (b, ok) \<Rightarrow> ok \<and> length b = 16 \<and> encodeToString b = ident)"

definition validDigest :: "string \<Rightarrow> bool" where
  "validDigest s = (case decodeString s of (b, ok) \<Rightarrow> ok \<and> length b = 32 \<and> encodeToString b = s)"

definition header :: "string \<Rightarrow> string \<Rightarrow> u64 \<Rightarrow> bytes" where
  "header magic ident n =
     (let b = replicate HeaderSize 0;
          b = copySlice 0 HeaderSize (bytesOf magic) b;
          b = copySlice 8 12 (putBE 4 formatVersion) b;
          b = b[12 := 1];
          b = b[13 := word_of_nat PrefixBits];
          b = copySlice 14 16 (putBE 2 (word_of_nat RecordSize :: u64)) b;
          raw = fst (decodeString ident);
          b = copySlice 16 32 raw b
      in copySlice 32 40 (putBE 8 n) b)"

definition checkHeader :: "bytes \<Rightarrow> string \<Rightarrow> string \<Rightarrow> u64 \<Rightarrow> go_err option" where
  "checkHeader b magic ident n =
     (if length b \<noteq> HeaderSize \<or> b \<noteq> header magic ident n then Some (problem ''invalid_header'') else None)"

lemma length_header [simp]: "length (header magic ident n) = HeaderSize"
  by (simp add: header_def Let_def HeaderSize_def)

lemma checkHeader_header [simp]: "checkHeader (header magic ident n) magic ident n = None"
  by (simp add: checkHeader_def)

lemma validID_encode [simp]: "validID (encodeToString b) \<longleftrightarrow> length b = 16"
  by (simp add: validID_def)

lemma validDigest_encode [simp]: "validDigest (encodeToString b) \<longleftrightarrow> length b = 32"
  by (simp add: validDigest_def)

lemma validID_obtain: "validID ident \<Longrightarrow> \<exists>b. length b = 16 \<and> ident = encodeToString b"
  by (auto simp: validID_def split: prod.splits)

lemma prefix_bound: "keyPrefix key < PrefixCount"
proof -
  have b: "unat (k :: byte) < 256" for k using unsigned_less [of k, where ?'a = nat] by simp
  have 1: "take_bit 20 (push_bit 12 (unat (k :: byte))) = push_bit 12 (unat k)" for k
    using b [of k] by (simp add: take_bit_nat_eq_self_iff push_bit_eq_mult)
  have 2: "take_bit 20 (push_bit 4 (unat (k :: byte))) = push_bit 4 (unat k)" for k
    using b [of k] by (simp add: take_bit_nat_eq_self_iff push_bit_eq_mult)
  have 3: "take_bit 20 (drop_bit 4 (unat (k :: byte))) = drop_bit 4 (unat k)" for k
    using b [of k] by (simp add: take_bit_nat_eq_self_iff drop_bit_eq_div)
  have "take_bit 20 (keyPrefix key) = keyPrefix key"
    by (simp only: keyPrefix_def take_bit_or 1 2 3)
  then show ?thesis
    by (simp add: take_bit_nat_eq_self_iff PrefixCount_def PrefixBits_def)
qed

section \<open>The index buffer\<close>

definition offset :: "bytes \<Rightarrow> nat \<Rightarrow> u64" where
  "offset idx p = getBE (slice (HeaderSize + 8 * p) (HeaderSize + 8 * (p + 1)) idx)"

definition putOffset :: "bytes \<Rightarrow> nat \<Rightarrow> u64 \<Rightarrow> bytes" where
  "putOffset idx p n = copySlice (HeaderSize + 8 * p) (HeaderSize + 8 * (p + 1)) (putBE 8 n) idx"

text \<open>The window of \<open>rangeDigest\<close> starts at \<open>digestAt p\<close>; \<open>copy\<close> into it is \<open>setDigest\<close>.\<close>

definition digestAt :: "nat \<Rightarrow> nat" where
  "digestAt p = HeaderSize + 8 * (PrefixCount + 1) + 32 * p"

definition rangeDigest :: "bytes \<Rightarrow> nat \<Rightarrow> bytes" where
  "rangeDigest idx p = slice (digestAt p) (digestAt p + 32) idx"

definition setDigest :: "bytes \<Rightarrow> nat \<Rightarrow> bytes \<Rightarrow> bytes" where
  "setDigest idx p d = copySlice (digestAt p) (digestAt p + 32) d idx"

definition makeIndex :: "string \<Rightarrow> u64 \<Rightarrow> bytes" where
  "makeIndex ident n =
     (let b = copySlice 0 IndexSize (header indexMagic ident n) (replicate IndexSize 0)
      in fold (\<lambda>p b. setDigest b p emptyDigest) [0..<PrefixCount] b)"

text \<open>Layout facts: the offsets, the digests and the header never overlap.\<close>

lemma index_layout:
  "p \<le> PrefixCount \<Longrightarrow> HeaderSize + 8 * (p + 1) \<le> IndexSize"
  "p < PrefixCount \<Longrightarrow> digestAt p + 32 \<le> IndexSize"
  "p \<le> PrefixCount \<Longrightarrow> HeaderSize + 8 * (p + 1) \<le> digestAt q"
  "HeaderSize \<le> digestAt q"
  by (simp_all add: IndexSize_def digestAt_def)

lemma length_putOffset [simp]:
  "length idx = IndexSize \<Longrightarrow> p \<le> PrefixCount \<Longrightarrow> length (putOffset idx p n) = IndexSize"
  using index_layout(1) [of p] by (simp add: putOffset_def)

lemma length_setDigest [simp]:
  "length idx = IndexSize \<Longrightarrow> p < PrefixCount \<Longrightarrow> length (setDigest idx p d) = IndexSize"
  using index_layout(2) [of p] by (simp add: setDigest_def)

lemma offset_putOffset [buf_simps]:
  assumes "length idx = IndexSize" "p \<le> PrefixCount" "q \<le> PrefixCount"
  shows "offset (putOffset idx p n) q = (if q = p then n else offset idx q)"
proof -
  consider "q = p" | "q < p" | "p < q" by linarith
  then show ?thesis
    using index_layout(1) [OF assms(2)] index_layout(1) [OF assms(3)] assms(1)
    by cases (simp_all add: offset_def putOffset_def buf_simps)
qed

lemma rangeDigest_putOffset [buf_simps]:
  "length idx = IndexSize \<Longrightarrow> p \<le> PrefixCount \<Longrightarrow> rangeDigest (putOffset idx p n) q = rangeDigest idx q"
  using index_layout(1) [of p] index_layout(3) [of p q]
  by (simp add: rangeDigest_def putOffset_def buf_simps)

lemma offset_setDigest [buf_simps]:
  "length idx = IndexSize \<Longrightarrow> p < PrefixCount \<Longrightarrow> q \<le> PrefixCount \<Longrightarrow>
    offset (setDigest idx p d) q = offset idx q"
  using index_layout(2) [of p] index_layout(3) [of q p]
  by (simp add: offset_def setDigest_def buf_simps)

lemma rangeDigest_setDigest [buf_simps]:
  assumes "length idx = IndexSize" "p < PrefixCount" "q < PrefixCount" "length d = 32"
  shows "rangeDigest (setDigest idx p d) q = (if q = p then d else rangeDigest idx q)"
proof -
  consider "q = p" | "q < p" | "p < q" by linarith
  then show ?thesis
    using index_layout(2) [OF assms(2)] index_layout(2) [OF assms(3)] assms(1,4)
    by cases (simp_all add: rangeDigest_def setDigest_def buf_simps digestAt_def)
qed

lemma take_putOffset [buf_simps]:
  "length idx = IndexSize \<Longrightarrow> take HeaderSize (putOffset idx p n) = take HeaderSize idx" if "p \<le> PrefixCount"
  using index_layout(1) [OF that] by (simp add: putOffset_def take_copySlice_before)

lemma take_setDigest [buf_simps]:
  "length idx = IndexSize \<Longrightarrow> take HeaderSize (setDigest idx p d) = take HeaderSize idx" if "p < PrefixCount"
  using index_layout(2) [OF that] index_layout(4) [of p]
  by (simp add: setDigest_def take_copySlice_before)

lemma copySlice_front:
  assumes "length src \<le> length dst"
  shows "copySlice 0 (length dst) src dst = src @ drop (length src) dst"
  using assms by (simp add: copySlice_def Let_def min_absorb2)

definition setHeader :: "bytes \<Rightarrow> bytes \<Rightarrow> bytes" where
  "setHeader idx h = copySlice 0 (length idx) h idx"

lemma setHeader_facts [buf_simps]:
  assumes "length idx = IndexSize" and "length h = HeaderSize"
  shows "length (setHeader idx h) = IndexSize" and "take HeaderSize (setHeader idx h) = h"
    and "offset (setHeader idx h) p = offset idx p" and "rangeDigest (setHeader idx h) p = rangeDigest idx p"
proof -
  have le: "HeaderSize \<le> IndexSize" by (simp add: IndexSize_def)
  then have eq: "setHeader idx h = h @ drop HeaderSize idx"
    using copySlice_front [of h idx] assms by (simp add: setHeader_def)
  show "length (setHeader idx h) = IndexSize" "take HeaderSize (setHeader idx h) = h"
    using assms le by (simp_all add: eq)
  show "offset (setHeader idx h) p = offset idx p" "rangeDigest (setHeader idx h) p = rangeDigest idx p"
    using assms by (simp_all add: eq offset_def rangeDigest_def slice_def digestAt_def ac_simps)
qed

lemma makeIndex_eq:
  "makeIndex ident n = fold (\<lambda>p b. setDigest b p emptyDigest) [0..<PrefixCount]
     (setHeader (replicate IndexSize 0) (header indexMagic ident n))"
  by (simp add: makeIndex_def setHeader_def)

lemma getBE_zeros [simp]: "getBE (replicate k 0) = 0"
proof (induction k)
  case 0
  then show ?case by simp
next
  case (Suc k)
  then show ?case
    by (metis append_Nil2 getBE_snoc or.left_neutral push_bit_of_0 replicate_append_same unsigned_0 replicate_Suc)
qed

lemma offset_zeros: "p \<le> PrefixCount \<Longrightarrow> offset (replicate IndexSize 0) p = 0"
  using index_layout(1) [of p] by (simp add: offset_def slice_def)

lemma makeIndex_fold:
  assumes "length b = IndexSize" and "n \<le> PrefixCount"
  shows "length (fold (\<lambda>p b. setDigest b p emptyDigest) [0..<n] b) = IndexSize
    \<and> (\<forall>q \<le> PrefixCount. offset (fold (\<lambda>p b. setDigest b p emptyDigest) [0..<n] b) q = offset b q)
    \<and> (\<forall>q < n. rangeDigest (fold (\<lambda>p b. setDigest b p emptyDigest) [0..<n] b) q = emptyDigest)
    \<and> take HeaderSize (fold (\<lambda>p b. setDigest b p emptyDigest) [0..<n] b) = take HeaderSize b"
  using assms(2)
proof (induction n)
  case 0
  then show ?case using assms(1) by simp
next
  case (Suc n)
  then show ?case by (auto simp: buf_simps emptyDigest_def less_Suc_eq)
qed

lemma makeIndex_facts:
  shows "length (makeIndex ident n) = IndexSize"
    and "p \<le> PrefixCount \<Longrightarrow> offset (makeIndex ident n) p = 0"
    and "p < PrefixCount \<Longrightarrow> rangeDigest (makeIndex ident n) p = emptyDigest"
    and "take HeaderSize (makeIndex ident n) = header indexMagic ident n"
  using makeIndex_fold [of "setHeader (replicate IndexSize 0) (header indexMagic ident n)" PrefixCount]
  by (simp_all add: makeIndex_eq setHeader_facts offset_zeros)

section \<open>The manifest record and the index check\<close>

record Manifest =
  mVersion :: int
  mBuilder :: string
  mDatasetID :: string
  mRecordCount :: u64
  mDataSize :: int
  mIndexSize :: int
  mDataSHA256 :: string
  mIndexSHA256 :: string
  mMaxRangeBytes :: u64
  mBuiltAt :: string
  mAcquiredAt :: string
  mInputSHA256 :: string
  mProfile :: string
  mComplete :: bool

text \<open>The loop of \<open>checkIndex\<close> over the prefixes, returning \<open>largest\<close>.\<close>

fun checkRanges :: "bytes \<Rightarrow> u64 \<Rightarrow> nat list \<Rightarrow> u64 \<Rightarrow> go_err + u64" where
  "checkRanges idx count [] largest = Inr largest"
| "checkRanges idx count (p # ps) largest =
     (let a = offset idx p; b = offset idx (p + 1) in
      failIf (b < a \<or> b > count) (problem ''invalid_index'')
      (let size = (b - a) * word_of_nat RecordSize in
       failIf (size > word_of_nat MaxRangeBytes) (problem ''capacity_exceeded'')
       (let largest' = (if size > largest then size else largest) in
        failIf (size = 0 \<and> rangeDigest idx p \<noteq> emptyDigest) (problem ''invalid_index'')
        (checkRanges idx count ps largest'))))"

definition checkIndex :: "bytes \<Rightarrow> Manifest \<Rightarrow> go_err option" where
  "checkIndex idx m =
     (if length idx \<noteq> IndexSize then Some (problem ''invalid_index'')
      else case checkHeader (take HeaderSize idx) indexMagic (mDatasetID m) (mRecordCount m) of
        Some e \<Rightarrow> Some e
      | None \<Rightarrow>
          if offset idx 0 \<noteq> 0 \<or> offset idx PrefixCount \<noteq> mRecordCount m
          then Some (problem ''invalid_index'')
          else case checkRanges idx (mRecordCount m) [0..<PrefixCount] 0 of
            Inl e \<Rightarrow> Some e
          | Inr largest \<Rightarrow>
              if largest \<noteq> mMaxRangeBytes m then Some (problem ''manifest_mismatch'') else None)"

lemma checkRanges_sound:
  assumes "checkRanges idx count ps largest = Inr l" and "p \<in> set ps"
  shows "offset idx p \<le> offset idx (p + 1)" and "offset idx (p + 1) \<le> count"
    and "(offset idx (p + 1) - offset idx p) * word_of_nat RecordSize \<le> word_of_nat MaxRangeBytes"
    and "(offset idx (p + 1) - offset idx p) * word_of_nat RecordSize = 0 \<Longrightarrow> rangeDigest idx p = emptyDigest"
  using assms
  by (induction ps arbitrary: largest)
     (auto simp: res_simps Let_def not_less split: if_splits)

lemma checkIndex_None:
  assumes "checkIndex idx m = None"
  shows "length idx = IndexSize" and "offset idx 0 = 0" and "offset idx PrefixCount = mRecordCount m"
    and "take HeaderSize idx = header indexMagic (mDatasetID m) (mRecordCount m)"
    and "checkRanges idx (mRecordCount m) [0..<PrefixCount] 0 = Inr (mMaxRangeBytes m)"
  using assms
  by (auto simp: checkIndex_def checkHeader_def HeaderSize_def IndexSize_def split: if_splits option.splits sum.splits)

text \<open>
  With a record count that passes \<open>dataSize\<close>, a range accepted by the loop has its true size
  (the 64-bit product does not wrap) and that size is at most 2 MiB.
\<close>

lemma range_no_wrap:
  fixes a b :: u64
  assumes "a \<le> b" and "unat b \<le> maxRecords"
  shows "unat ((b - a) * word_of_nat RecordSize) = (unat b - unat a) * RecordSize"
proof -
  have sub: "unat (b - a) = unat b - unat a"
    using assms(1) by (rule unat_sub)
  have rs: "unat (word_of_nat RecordSize :: u64) = RecordSize"
    by (simp add: RecordSize_def unat_of_nat)
  have "unat (b - a) * unat (word_of_nat RecordSize :: u64) < 2 ^ LENGTH(64)"
    using assms(2) by (simp add: sub rs) (simp add: maxRecords_val RecordSize_def)
  then show ?thesis
    by (simp only: unat_mult_lem) (simp add: sub rs)
qed

lemma checkIndex_range:
  assumes "checkIndex idx m = None" and "unat (mRecordCount m) \<le> maxRecords" and "p < PrefixCount"
  shows "unat (offset idx p) \<le> unat (offset idx (p + 1))"
    and "unat (offset idx (p + 1)) \<le> unat (mRecordCount m)"
    and "(unat (offset idx (p + 1)) - unat (offset idx p)) * RecordSize \<le> MaxRangeBytes"
proof -
  obtain l where l: "checkRanges idx (mRecordCount m) [0..<PrefixCount] 0 = Inr l"
    using checkIndex_None(5) [OF assms(1)] by blast
  note r = checkRanges_sound [OF l, of p]
  have le: "offset idx p \<le> offset idx (p + 1)" and cap: "offset idx (p + 1) \<le> mRecordCount m"
    and size: "(offset idx (p + 1) - offset idx p) * word_of_nat RecordSize \<le> word_of_nat MaxRangeBytes"
    using r assms(3) by simp_all
  from le show "unat (offset idx p) \<le> unat (offset idx (p + 1))" by (simp add: word_le_nat_alt)
  from cap show c: "unat (offset idx (p + 1)) \<le> unat (mRecordCount m)" by (simp add: word_le_nat_alt)
  have "unat (word_of_nat MaxRangeBytes :: u64) = MaxRangeBytes"
    by (simp add: MaxRangeBytes_def unat_of_nat)
  with size range_no_wrap [OF le] c assms(2)
  show "(unat (offset idx (p + 1)) - unat (offset idx p)) * RecordSize \<le> MaxRangeBytes"
    by (simp add: word_le_nat_alt)
qed

text \<open>Conversely, the loop accepts every index whose offsets rise to the count within the cap.\<close>

lemma checkRanges_complete:
  assumes "\<And>p. p \<in> set ps \<Longrightarrow> offset idx p \<le> offset idx (p + 1) \<and> offset idx (p + 1) \<le> count
      \<and> (offset idx (p + 1) - offset idx p) * word_of_nat RecordSize \<le> word_of_nat MaxRangeBytes
      \<and> ((offset idx (p + 1) - offset idx p) * word_of_nat RecordSize = 0 \<longrightarrow> rangeDigest idx p = emptyDigest)"
  shows "checkRanges idx count ps largest =
    Inr (fold (\<lambda>p l. max l ((offset idx (p + 1) - offset idx p) * word_of_nat RecordSize)) ps largest)"
  using assms
proof (induction ps arbitrary: largest)
  case Nil
  then show ?case by simp
next
  case (Cons p ps)
  have "max largest x = (if x > largest then x else largest)" for x :: u64
    by (auto simp: max_def)
  moreover have "checkRanges idx count ps l =
      Inr (fold (\<lambda>p l. max l ((offset idx (p + 1) - offset idx p) * word_of_nat RecordSize)) ps l)" for l
    using Cons by simp
  ultimately show ?case
    using Cons.prems [of p] by (auto simp: Let_def failIf_def not_less)
qed

end
