(* ===== verification/PwReader.thy ===== *)
theory PwReader
  imports PwFormat
begin

text \<open>
  Reading an offline password database (\<open>src/internal/passworddb/reader.go\<close>): loading the
  index and data files of a generation, looking one SHA-1 key up, and the full scrub of
  \<open>verifyContents\<close>.  A file is its contents; \<open>ReadAt\<close> past the end fails.  A context is the
  sequence of answers that the successive calls of \<open>ctx.Err()\<close> give.
\<close>

type_synonym ctx = "nat \<Rightarrow> ctx_err option"

definition background :: ctx where "background = (\<lambda>_. None)"

definition checkCtx :: "ctx \<Rightarrow> nat \<Rightarrow> go_err + 'a \<Rightarrow> go_err + 'a" where
  "checkCtx ctx k cont = (case ctx k of Some e \<Rightarrow> Inl (CtxError e) | None \<Rightarrow> cont)"

lemma checkCtx_background [simp]: "checkCtx background k cont = cont"
  by (simp add: checkCtx_def background_def)

lemma checkCtx_eq_Inr [res_simps]: "checkCtx ctx k cont = Inr y \<longleftrightarrow> ctx k = None \<and> cont = Inr y"
  by (simp add: checkCtx_def split: option.split)

definition sanitize :: "go_err + 'a \<Rightarrow> go_err + 'a" where
  "sanitize r = (case r of Inl e \<Rightarrow> Inl (SafeError e) | Inr x \<Rightarrow> Inr x)"

lemma sanitize_simps [simp, res_simps]:
  "sanitize (Inl e) = Inl (SafeError e)" "sanitize (Inr x) = Inr x"
  by (simp_all add: sanitize_def)

lemma sanitize_eq_Inr [simp, res_simps]: "sanitize r = Inr x \<longleftrightarrow> r = Inr x"
  by (cases r) simp_all

definition readAt :: "bytes \<Rightarrow> nat \<Rightarrow> nat \<Rightarrow> go_err + bytes" where
  "readAt f off n = (if off + n \<le> length f then Inr (slice off (off + n) f) else Inl (ErrOther ''EOF''))"

lemma length_readAt: "readAt f off n = Inr b \<Longrightarrow> length b = n"
  by (auto simp: readAt_def split: if_splits)

record snapshot =
  sClosed :: bool
  sData :: bytes
  sIndex :: bytes
  sManifest :: Manifest

section \<open>Lookup\<close>

definition recKey :: "bytes \<Rightarrow> nat \<Rightarrow> bytes" where
  "recKey buf i = slice (i * RecordSize) (i * RecordSize + 20) buf"

definition recCount :: "bytes \<Rightarrow> nat \<Rightarrow> u64" where
  "recCount buf i = getBE (slice (i * RecordSize + 20) ((i + 1) * RecordSize) buf)"

text \<open>The search in one range buffer (the last lines of \<open>Lookup\<close>).\<close>

definition searchRange :: "bytes \<Rightarrow> bytes \<Rightarrow> go_err + u64" where
  "searchRange buf key =
     (let n = length buf div RecordSize;
          i = sortSearch (\<lambda>i. recKey buf i \<ge> key) 0 n
      in if i < n \<and> recKey buf i = key
         then failIf (recCount buf i = 0) (problem ''corrupt_range'') (Inr (recCount buf i))
         else Inr 0)"

definition Lookup :: "snapshot \<Rightarrow> ctx \<Rightarrow> bytes \<Rightarrow> go_err + u64" where
  "Lookup s ctx key = sanitize
     (failIf (sClosed s) (problem ''closed'')
     (checkCtx ctx 0
     (failIf (int (length (sData s)) \<noteq> mDataSize (sManifest s)) (problem ''truncated_data'')
     (let p = keyPrefix key; a = offset (sIndex s) p; b = offset (sIndex s) (p + 1);
          n = unat ((b - a) * word_of_nat RecordSize) in
      andThen (if n > 0 then readAt (sData s) (HeaderSize + unat a * RecordSize) n else Inr [])
      (\<lambda>buf.
       failIf (sha256 buf \<noteq> rangeDigest (sIndex s) p) (problem ''corrupt_range'')
       (checkCtx ctx 1 (searchRange buf key)))))))"

section \<open>Loading a generation and the full scrub\<close>

text \<open>
  The part of \<open>loadVersion\<close> after the manifest has been decoded: the index file against its
  digest and its own structure, the size and the header of the data file.
\<close>

definition loadFiles :: "ctx \<Rightarrow> string \<Rightarrow> Manifest \<Rightarrow> bytes \<Rightarrow> bytes \<Rightarrow> go_err + snapshot" where
  "loadFiles ctx ident m idx data =
     failIf (encodeToString (sha256 idx) \<noteq> mIndexSHA256 m) (problem ''invalid_index'')
     (case checkIndex idx m of Some e \<Rightarrow> Inl e
      | None \<Rightarrow>
        failIf (int (length data) \<noteq> mDataSize m) (problem ''truncated_data'')
        (andThen (readAt data 0 HeaderSize) (\<lambda>hdr.
          case checkHeader hdr dataMagic ident (mRecordCount m) of Some e \<Rightarrow> Inl e
          | None \<Rightarrow> checkCtx ctx 0
              (Inr \<lparr>sClosed = False, sData = data, sIndex = idx, sManifest = m\<rparr>))))"

text \<open>The test of one record of a range: its prefix, its count and the strict order of the keys.\<close>

definition badRecord :: "nat \<Rightarrow> bytes \<Rightarrow> nat \<Rightarrow> bool" where
  "badRecord p chunk i \<longleftrightarrow>
     keyPrefix (recKey chunk i) \<noteq> p \<or> recCount chunk i = 0 \<or> i > 0 \<and> recKey chunk (i - 1) \<ge> recKey chunk i"

text \<open>
  The loop over the prefixes; \<open>acc\<close> is what has been written to the hash.  The slice
  \<open>buf[:n]\<close> of the 2 MiB buffer panics when \<open>n\<close> exceeds it.
\<close>

fun verifyRanges :: "snapshot \<Rightarrow> ctx \<Rightarrow> nat list \<Rightarrow> bytes \<Rightarrow> go_err + bytes" where
  "verifyRanges s ctx [] acc = Inr acc"
| "verifyRanges s ctx (p # ps) acc =
     checkCtx ctx p
     (let a = offset (sIndex s) p; b = offset (sIndex s) (p + 1);
          n = unat ((b - a) * word_of_nat RecordSize) in
      failIf (n > MaxRangeBytes) (ErrOther ''panic: slice bounds out of range'')
      (if n = 0 then verifyRanges s ctx ps acc
       else andThen (readAt (sData s) (HeaderSize + unat a * RecordSize) n) (\<lambda>chunk.
         failIf (sha256 chunk \<noteq> rangeDigest (sIndex s) p) (problem ''corrupt_range'')
         (failIf (\<exists>i \<in> set [0..<length chunk div RecordSize]. badRecord p chunk i) (problem ''invalid_records'')
          (verifyRanges s ctx ps (acc @ chunk))))))"

definition verifyContents :: "snapshot \<Rightarrow> ctx \<Rightarrow> go_err + unit" where
  "verifyContents s ctx =
     andThen (verifyRanges s ctx [0..<PrefixCount]
       (header dataMagic (mDatasetID (sManifest s)) (mRecordCount (sManifest s)))) (\<lambda>acc.
     failIf (encodeToString (sha256 acc) \<noteq> mDataSHA256 (sManifest s)) (problem ''data_checksum_mismatch'')
     (failIf (int (length (sData s)) \<noteq> mDataSize (sManifest s)) (problem ''truncated_data'')
     (checkCtx ctx PrefixCount (Inr ()))))"

section \<open>Records in a buffer\<close>

text \<open>A buffer that is the concatenation of 28-byte records.\<close>

definition wfRec :: "bytes \<Rightarrow> bool" where
  "wfRec r \<longleftrightarrow> length r = RecordSize"

abbreviation keyOf :: "bytes \<Rightarrow> bytes" where "keyOf r \<equiv> take 20 r"
abbreviation countOf :: "bytes \<Rightarrow> u64" where "countOf r \<equiv> getBE (drop 20 r)"

lemma length_concat_recs: "\<forall>r \<in> set rs. wfRec r \<Longrightarrow> length (concat rs) = length rs * RecordSize"
  by (induction rs) (auto simp: wfRec_def)

lemma drop_concat_recs:
  "\<forall>r \<in> set rs. wfRec r \<Longrightarrow> drop (i * RecordSize) (concat rs) = concat (drop i rs)"
proof (induction rs arbitrary: i)
  case Nil
  then show ?case by simp
next
  case (Cons r rs)
  then show ?case
    by (cases i) (auto simp: wfRec_def)
qed

lemma take_concat_recs:
  "\<forall>r \<in> set rs. wfRec r \<Longrightarrow> take (i * RecordSize) (concat rs) = concat (take i rs)"
proof (induction rs arbitrary: i)
  case Nil
  then show ?case by simp
next
  case (Cons r rs)
  then show ?case
    by (cases i) (auto simp: wfRec_def)
qed

lemma slice_concat_recs:
  assumes "\<forall>r \<in> set rs. wfRec r"
  shows "slice (i * RecordSize) (j * RecordSize) (concat rs) = concat (slice i j rs)"
proof -
  have "\<forall>r \<in> set (drop i rs). wfRec r" using assms by (auto dest: in_set_dropD)
  then show ?thesis
    using take_concat_recs [of "drop i rs" "j - i"] assms
    by (simp add: slice_def drop_concat_recs diff_mult_distrib)
qed

lemma rec_at:
  assumes "\<forall>r \<in> set rs. wfRec r" and "i < length rs"
  shows "recKey (concat rs) i = keyOf (rs ! i)" and "recCount (concat rs) i = countOf (rs ! i)"
proof -
  have wf: "length (rs ! i) = RecordSize" using assms by (simp add: wfRec_def)
  have d: "drop (i * RecordSize) (concat rs) = rs ! i @ concat (drop (Suc i) rs)"
    using assms by (simp add: drop_concat_recs Cons_nth_drop_Suc [symmetric])
  show "recKey (concat rs) i = keyOf (rs ! i)"
    using wf by (simp add: recKey_def slice_def d) (simp add: RecordSize_def)
  have "drop (i * RecordSize + 20) (concat rs) = drop 20 (rs ! i @ concat (drop (Suc i) rs))"
    by (simp flip: d add: add.commute)
  moreover have "(i + 1) * RecordSize - (i * RecordSize + 20) = 8"
    by (simp add: RecordSize_def)
  ultimately show "recCount (concat rs) i = countOf (rs ! i)"
    using wf by (simp only: recCount_def slice_def) (simp add: RecordSize_def)
qed

text \<open>
  Binary search over a sorted buffer is the association-list lookup of the key.
\<close>

lemma searchRange_map_of:
  assumes wf: "\<forall>r \<in> set rs. wfRec r \<and> countOf r \<noteq> 0"
    and sorted: "sorted_wrt (<) (map keyOf rs)"
  shows "searchRange (concat rs) key =
    Inr (case map_of (map (\<lambda>r. (keyOf r, countOf r)) rs) key of None \<Rightarrow> 0 | Some n \<Rightarrow> n)"
proof -
  let ?f = "\<lambda>i. recKey (concat rs) i \<ge> key"
  let ?i = "sortSearch ?f 0 (length rs)"
  let ?m = "map_of (map (\<lambda>r. (keyOf r, countOf r)) rs)"
  have wf': "\<forall>r \<in> set rs. wfRec r" using wf by simp
  have n: "length (concat rs) div RecordSize = length rs"
    using wf' by (simp add: length_concat_recs RecordSize_def)
  have nth_less: "keyOf (rs ! a) < keyOf (rs ! b)" if "a < b" "b < length rs" for a b
    using sorted that by (auto simp: sorted_wrt_iff_nth_less)
  have mono: "?f b" if "a \<le> b" "b < length rs" "?f a" for a b
    using that nth_less [of a b] by (cases "a = b") (auto simp: rec_at [OF wf'])
  have "?i \<le> length rs \<and> (\<forall>a < ?i. \<not> ?f a) \<and> (\<forall>a. ?i \<le> a \<longrightarrow> a < length rs \<longrightarrow> ?f a)"
    by (rule sortSearch_first) (use mono in auto)
  then have i: "?i \<le> length rs" "\<And>a. a < ?i \<Longrightarrow> \<not> ?f a" "\<And>a. ?i \<le> a \<Longrightarrow> a < length rs \<Longrightarrow> ?f a"
    by blast+
  have distinct: "distinct (map keyOf rs)" using sorted by (simp add: strict_sorted_iff)
  show ?thesis
  proof (cases "?i < length rs \<and> recKey (concat rs) ?i = key")
    case True
    then have r: "rs ! ?i \<in> set rs" and k: "keyOf (rs ! ?i) = key"
      by (auto simp: rec_at [OF wf'])
    have "?m key = Some (countOf (rs ! ?i))"
      using distinct r k by (intro map_of_is_SomeI) (auto simp: comp_def intro: rev_image_eqI)
    with True r wf show ?thesis
      by (simp add: searchRange_def Let_def n rec_at [OF wf'])
  next
    case False
    have ne: "keyOf (rs ! a) \<noteq> key" if a: "a < length rs" for a
    proof (cases "a < ?i")
      case True
      then show ?thesis using i(2) [OF True] a by (auto simp: rec_at [OF wf'])
    next
      case ge: False
      then have lt: "?i < length rs" using a by simp
      have "key \<noteq> keyOf (rs ! ?i)" using False lt by (auto simp: rec_at [OF wf'])
      moreover have "key \<le> keyOf (rs ! ?i)" using i(3) [of ?i] lt by (simp add: rec_at [OF wf'])
      moreover have "keyOf (rs ! ?i) \<le> keyOf (rs ! a)"
        using nth_less [of ?i a] ge a by (cases "a = ?i") auto
      ultimately show ?thesis by auto
    qed
    have "key \<notin> keyOf ` set rs"
    proof
      assume "key \<in> keyOf ` set rs"
      then obtain a where "a < length rs" "key = keyOf (rs ! a)" by (auto simp: in_set_conv_nth)
      with ne [of a] show False by simp
    qed
    then have "?m key = None" by (simp add: map_of_eq_None_iff image_image)
    with False show ?thesis by (auto simp: searchRange_def Let_def n)
  qed
qed

end
