(* ===== verification/PwImport.thy ===== *)
theory PwImport
  imports PwReader
begin

text \<open>
  Building a generation from an acquired corpus (\<open>src/internal/passworddb/import.go\<close>): the line
  parser, the grouping of the records by prefix with a flush per group, and the encoded index,
  data file and manifest.  The builder record holds the local variables of \<open>Import\<close>.
\<close>

section \<open>One line\<close>

text \<open>The digit loop of \<open>parseLine\<close>, with its overflow guard on 64-bit words.\<close>

fun parseCount :: "u64 \<Rightarrow> bytes \<Rightarrow> go_err + u64" where
  "parseCount n [] = Inr n"
| "parseCount n (c # cs) =
     failIf (c < 0x30 \<or> c > 0x39 \<or> n > (- 1 - ucast (c - 0x30)) div 10) (problem ''invalid_count'')
     (parseCount (n * 10 + ucast (c - 0x30)) cs)"

text \<open>The line without its terminator and BOM, and whether it had a BOM.\<close>

definition trimLine :: "bytes \<Rightarrow> bytes \<times> bool" where
  "trimLine line0 =
     (let line1 = butlast line0;
          line2 = (if line1 \<noteq> [] \<and> last line1 = 13 then butlast line1 else line1)
      in if take 3 line2 = [0xef, 0xbb, 0xbf] then (drop 3 line2, True) else (line2, False))"

definition parseLine :: "bytes \<Rightarrow> int \<Rightarrow> go_err + (bytes \<times> nat)" where
  "parseLine line0 previous =
     failIf (length line0 > 128 \<or> line0 = [] \<or> last line0 \<noteq> 10) (problem ''invalid_input'')
     (case trimLine line0 of (line, bom) \<Rightarrow>
      failIf (length line < 42 \<or> length line > 61 \<or> line ! 40 \<noteq> 0x3a) (problem ''invalid_input'')
      (case hexDecode (take 40 line) of (key, ok) \<Rightarrow>
       failIf (\<not> ok) (problem ''invalid_input'')
       (andThen (parseCount 0 (drop 41 line)) (\<lambda>n.
        failIf (n = 0) (problem ''invalid_count'')
        (let r = key @ putBE 8 n; p = keyPrefix key in
         failIf (int p < previous \<or> bom \<and> int p = previous) (problem ''invalid_prefix_order'')
         (Inr (r, p)))))))"

section \<open>Reading lines\<close>

text \<open>
  \<open>bufio.Reader.ReadSlice\<close> with its 1 MiB buffer.  \<open>RdErr\<close> is an unterminated last line or a
  line that does not fit the buffer.
\<close>

datatype read_result = RdEOF | RdErr | RdLine bytes bytes

definition readSlice :: "bytes \<Rightarrow> read_result" where
  "readSlice inp =
     (if inp = [] then RdEOF
      else let l = takeWhile (\<lambda>c. c \<noteq> 10) inp in
        if length l = length inp \<or> length l + 1 > 2 ^ 20 then RdErr
        else RdLine (l @ [10]) (drop (length l + 1) inp))"

lemma readSlice_shorter: "readSlice inp = RdLine line rest \<Longrightarrow> length rest < length inp"
  by (auto simp: readSlice_def Let_def split: if_splits)

lemma readSlice_RdLine: "readSlice inp = RdLine line rest \<Longrightarrow> inp = line @ rest \<and> line \<noteq> []"
proof -
  assume a: "readSlice inp = RdLine line rest"
  let ?l = "takeWhile (\<lambda>c. c \<noteq> 10) inp"
  have ne: "length ?l < length inp" and eq: "line = ?l @ [10]" "rest = drop (length ?l + 1) inp"
    using a length_takeWhile_le [of "\<lambda>c. c \<noteq> 10" inp]
    by (auto simp: readSlice_def Let_def le_less split: if_splits)
  have "inp ! length ?l = 10" using nth_length_takeWhile [OF ne] by simp
  then have "inp = take (length ?l) inp @ 10 # drop (Suc (length ?l)) inp"
    using id_take_nth_drop [OF ne] by simp
  moreover have "take (length ?l) inp = ?l" by (simp flip: takeWhile_eq_take)
  ultimately show ?thesis using eq by simp
qed

section \<open>The builder\<close>

record builder =
  bIdx :: bytes
  bGroup :: "bytes list"
  bCurrent :: int
  bNext :: nat
  bTotal :: u64
  bLargest :: u64
  bWritten :: bytes

definition newBuilder :: "string \<Rightarrow> builder" where
  "newBuilder ident = \<lparr>bIdx = makeIndex ident 0, bGroup = [], bCurrent = - 1, bNext = 0,
     bTotal = 0, bLargest = 0, bWritten = []\<rparr>"

fun adjacentDup :: "bytes list \<Rightarrow> bool" where
  "adjacentDup (a # b # rs) \<longleftrightarrow> take 20 a = take 20 b \<or> adjacentDup (b # rs)"
| "adjacentDup _ \<longleftrightarrow> False"

text \<open>\<open>for next < stop { putOffset(idx, next, tot); next++ }\<close>\<close>

definition putOffsets :: "nat \<Rightarrow> nat \<Rightarrow> u64 \<Rightarrow> bytes \<Rightarrow> bytes" where
  "putOffsets next stop tot idx = fold (\<lambda>p b. putOffset b p tot) [next..<stop] idx"

definition flush :: "builder \<Rightarrow> go_err + builder" where
  "flush b =
     (if bGroup b = [] then Inr b
      else let g = sort_key (take 20) (bGroup b) in
        failIf (adjacentDup g) (problem ''duplicate_record'')
        (let stop = nat (bCurrent b + 1);
             out = concat g;
             idx = setDigest (putOffsets (bNext b) stop (bTotal b) (bIdx b)) (nat (bCurrent b)) (sha256 out);
             bytes_n = word_of_nat (length g) * word_of_nat RecordSize
         in Inr (b\<lparr>bIdx := idx, bNext := max (bNext b) stop,
              bLargest := (if bytes_n > bLargest b then bytes_n else bLargest b),
              bTotal := bTotal b + word_of_nat (length g), bGroup := [], bWritten := bWritten b @ out\<rparr>)))"

text \<open>One accepted line: flush when the prefix changes, bound the group, append.\<close>

definition addRecord :: "bytes \<times> nat \<Rightarrow> builder \<Rightarrow> go_err + builder" where
  "addRecord rp b =
     (case rp of (r, p) \<Rightarrow>
      andThen (if int p \<noteq> bCurrent b
               then andThen (flush b) (\<lambda>b'. Inr (b'\<lparr>bCurrent := int p\<rparr>)) else Inr b) (\<lambda>b'.
      failIf (length (bGroup b') = MaxRangeBytes div RecordSize) (problem ''capacity_exceeded'')
      (Inr (b'\<lparr>bGroup := bGroup b' @ [r]\<rparr>))))"

text \<open>The read loop; \<open>k\<close> counts the calls of \<open>ctx.Err()\<close>.\<close>

function importLoop :: "ctx \<Rightarrow> nat \<Rightarrow> builder \<Rightarrow> bytes \<Rightarrow> go_err + builder" where
  "importLoop ctx k b inp =
     checkCtx ctx k
     (case readSlice inp of
        RdEOF \<Rightarrow> Inr b
      | RdErr \<Rightarrow> checkCtx ctx (k + 1) (Inl (problem ''invalid_or_incomplete_input''))
      | RdLine line rest \<Rightarrow>
          andThen (parseLine line (bCurrent b)) (\<lambda>rp.
          andThen (addRecord rp b) (\<lambda>b'. importLoop ctx (k + 1) b' rest)))"
  by pat_completeness auto
termination
  by (relation "measure (\<lambda>(ctx, k, b, inp). length inp)") (auto dest: readSlice_shorter)

declare importLoop.simps [simp del]

section \<open>The whole build\<close>

record ImportOptions =
  optExpectedSHA256 :: string
  optAcquiredAt :: "string option"
  optComplete :: bool

record generation =
  gData :: bytes
  gIndex :: bytes
  gManifest :: Manifest

definition maxManifest :: nat where "maxManifest = 64 * 2 ^ 10"

text \<open>
  Everything of \<open>Import\<close> before the builder: the operator's evidence, the input size, the
  conservative space bound.  \<open>free\<close> is what \<open>availableSpace\<close> reports.
\<close>

definition importChecks :: "ImportOptions \<Rightarrow> bytes \<Rightarrow> u64 \<Rightarrow> go_err + unit" where
  "importChecks opt inp free =
     failIf (\<not> validDigest (optExpectedSHA256 opt) \<or> \<not> optComplete opt \<or> optAcquiredAt opt = None)
       (problem ''acquisition_evidence_required'')
     (failIf (length inp < 43) (problem ''invalid_input'')
     (andThen (dataSize (word_of_nat (length inp div 43))) (\<lambda>estimated.
      failIf (free < word_of_int estimated + word_of_nat IndexSize + word_of_nat maxManifest + word_of_nat (64 * 2 ^ 20))
        (problem ''insufficient_space'') (Inr ()))))"

definition hashFile :: "bytes \<Rightarrow> int \<Rightarrow> go_err + string" where
  "hashFile f n =
     (let content = take (nat n) f in
      failIf (int (length content) \<noteq> n) (problem ''truncated_data'') (Inr (encodeToString (sha256 content))))"

text \<open>
  What follows the loop: the last flush, the remaining offsets, the two headers, the digests and
  the manifest.  \<open>now\<close> is the formatted build time.
\<close>

definition finishBuild :: "ImportOptions \<Rightarrow> bytes \<Rightarrow> string \<Rightarrow> string \<Rightarrow> builder \<Rightarrow> go_err + generation" where
  "finishBuild opt inp ident now b0 =
     failIf (bTotal b0 = 0 \<and> bGroup b0 = []) (problem ''invalid_input'')
     (failIf (encodeToString (sha256 inp) \<noteq> optExpectedSHA256 opt) (problem ''input_checksum_mismatch'')
     (andThen (flush b0) (\<lambda>b.
      let tot = bTotal b;
          idx = setHeader (putOffsets (bNext b) (PrefixCount + 1) tot (bIdx b)) (header indexMagic ident tot);
          data = copySlice 0 HeaderSize (header dataMagic ident tot) (replicate HeaderSize 0 @ bWritten b)
      in andThen (dataSize tot) (\<lambda>dsize.
         andThen (hashFile data dsize) (\<lambda>dataHash.
         Inr \<lparr>gData = data, gIndex = idx,
           gManifest = \<lparr>mVersion = 1, mBuilder = ''agentsearch-stage4-v1'', mDatasetID = ident,
             mRecordCount = tot, mDataSize = dsize, mIndexSize = int IndexSize, mDataSHA256 = dataHash,
             mIndexSHA256 = encodeToString (sha256 idx), mMaxRangeBytes = bLargest b, mBuiltAt = now,
             mAcquiredAt = (case optAcquiredAt opt of Some t \<Rightarrow> t | None \<Rightarrow> []),
             mInputSHA256 = optExpectedSHA256 opt, mProfile = ''hibp-sha1-ordered-v1'', mComplete = True\<rparr>\<rparr>)))))"

text \<open>
  \<open>Import\<close>: build, then reload and scrub the encoded files before they are sealed.  The three
  context arguments are what the one context answers during the loop, the reload and the scrub.
\<close>

definition Import :: "ctx \<Rightarrow> ctx \<Rightarrow> ctx \<Rightarrow> ImportOptions \<Rightarrow> bytes \<Rightarrow> u64 \<Rightarrow> bytes \<Rightarrow> string \<Rightarrow> go_err + generation" where
  "Import ctx ctxLoad ctxScrub opt inp free random now = sanitize
     (andThen (importChecks opt inp free) (\<lambda>_.
      let ident = encodeToString random in
      andThen (importLoop ctx 0 (newBuilder ident) inp) (\<lambda>b.
      andThen (finishBuild opt inp ident now b) (\<lambda>g.
      andThen (loadFiles ctxLoad ident (gManifest g) (gIndex g) (gData g)) (\<lambda>s.
      andThen (verifyContents s ctxScrub) (\<lambda>_. Inr g))))))"

end
