(* ===== verification/PwImportInv.thy ===== *)
theory PwImportInv
  imports PwImport "HOL-Library.Multiset"
begin

text \<open>
  The invariant of the import loop: what the builder's index, digests and output say about the
  list \<open>F\<close> of records flushed so far, and that a flush, an accepted line and the whole loop keep
  it.  \<open>inputRecords\<close> is the specification of what a corpus file contains: the records of its
  lines, each parsed on its own.
\<close>

abbreviation pre :: "bytes \<Rightarrow> nat" where "pre r \<equiv> keyPrefix (keyOf r)"

definition below :: "bytes list \<Rightarrow> nat \<Rightarrow> bytes list" where
  "below F p = filter (\<lambda>r. pre r < p) F"

definition recsAt :: "bytes list \<Rightarrow> nat \<Rightarrow> bytes list" where
  "recsAt F p = filter (\<lambda>r. pre r = p) F"

definition rangeCap :: nat where "rangeCap = MaxRangeBytes div RecordSize"

function inputRecords :: "bytes \<Rightarrow> bytes list" where
  "inputRecords inp =
     (case readSlice inp of
        RdLine line rest \<Rightarrow>
          (case parseLine line (- 1) of Inr (r, p) \<Rightarrow> [r] | Inl _ \<Rightarrow> []) @ inputRecords rest
      | _ \<Rightarrow> [])"
  by pat_completeness auto
termination
  by (relation "measure length") (auto dest: readSlice_shorter)

declare inputRecords.simps [simp del]

section \<open>What an accepted line gives\<close>

lemma hexDecode_length: "hexDecode cs = (bs, True) \<Longrightarrow> length cs = 2 * length bs"
  by (induction cs arbitrary: bs rule: hexDecode.induct) (auto split: option.splits prod.splits)

lemma parseLine_Inr:
  assumes "parseLine line previous = Inr (r, p)"
  shows "wfRec r" and "countOf r \<noteq> 0" and "p = pre r" and "previous \<le> int p"
    and "previous \<ge> - 1 \<Longrightarrow> parseLine line (- 1) = Inr (r, p)"
proof -
  obtain l bom where t: "trimLine line = (l, bom)" by fastforce
  obtain key ok where h: "hexDecode (take 40 l) = (key, ok)" by fastforce
  from assms obtain n :: u64 where l: "length l \<ge> 42" "hexDecode (take 40 l) = (key, True)"
    and n: "n \<noteq> 0" and r: "r = key @ putBE 8 n" and p: "p = keyPrefix key"
    and prev: "previous \<le> int p" "\<not> (bom \<and> int p = previous)"
    by (auto simp: parseLine_def t h Let_def res_simps not_less)
  have key: "length key = 20" using hexDecode_length [OF l(2)] l(1) by simp
  show "wfRec r" "p = pre r" "previous \<le> int p" using key prev
    by (simp_all add: wfRec_def r p RecordSize_def)
  show "countOf r \<noteq> 0" using key n by (simp add: r)
  show "parseLine line (- 1) = Inr (r, p)" if "previous \<ge> - 1"
    using assms that
    by (auto simp: parseLine_def t h Let_def res_simps)
qed

section \<open>Sorting and counting by prefix\<close>

lemma sorted_by_parts:
  fixes f :: "'a \<Rightarrow> nat"
  assumes "sorted (map f xs)"
  shows "xs = filter (\<lambda>x. f x < p) xs @ filter (\<lambda>x. f x = p) xs @ filter (\<lambda>x. p < f x) xs"
  using assms
proof (induction xs)
  case Nil
  then show ?case by simp
next
  case (Cons x xs)
  have le: "\<forall>y \<in> set xs. f x \<le> f y" using Cons.prems by simp
  consider "f x < p" | "f x = p" | "p < f x" by linarith
  then show ?case
  proof cases
    case 1
    then show ?thesis using Cons by simp
  next
    case 2
    then have "filter (\<lambda>x. f x < p) xs = []" using le by (auto simp: filter_empty_conv not_less)
    with 2 Cons show ?thesis by simp
  next
    case 3
    then have "filter (\<lambda>x. f x < p) xs = []" "filter (\<lambda>x. f x = p) xs = []"
      using le by (force simp: filter_empty_conv)+
    with 3 Cons show ?thesis by simp
  qed
qed

lemma below_recsAt:
  assumes "sorted (map pre F)"
  shows "slice (length (below F p)) (length (below F (p + 1))) F = recsAt F p"
    and "below F (p + 1) = below F p @ recsAt F p"
proof -
  have split: "F = below F p @ recsAt F p @ filter (\<lambda>r. p < pre r) F"
    unfolding below_def recsAt_def by (rule sorted_by_parts) (use assms in \<open>simp add: comp_def\<close>)
  have "filter (\<lambda>r. pre r < p + 1) (below F p) = below F p"
    by (rule filter_True) (auto simp: below_def)
  moreover have "filter (\<lambda>r. pre r < p + 1) (recsAt F p) = recsAt F p"
    by (rule filter_True) (auto simp: recsAt_def)
  moreover have "filter (\<lambda>r. pre r < p + 1) (filter (\<lambda>r. p < pre r) F) = []"
    by (rule filter_False) auto
  ultimately have "filter (\<lambda>r. pre r < p + 1) (below F p @ recsAt F p @ filter (\<lambda>r. p < pre r) F)
    = below F p @ recsAt F p"
    by (simp only: filter_append append_Nil2)
  then show eq: "below F (p + 1) = below F p @ recsAt F p"
    using split by (simp only: below_def [of F "p + 1"])
  have "drop (length (below F p)) F = recsAt F p @ filter (\<lambda>r. p < pre r) F"
    by (subst (2) split) simp
  then show "slice (length (below F p)) (length (below F (p + 1))) F = recsAt F p"
    by (simp only: slice_def eq) simp
qed

lemma length_below_sum: "length (below F p) = (\<Sum>q < p. length (recsAt F q))"
proof (induction p)
  case 0
  then show ?case by (simp add: below_def)
next
  case (Suc p)
  have "length (below F (Suc p)) = length (below F p) + length (recsAt F p)"
    unfolding below_def recsAt_def by (induction F) (auto simp: less_Suc_eq)
  with Suc show ?case by simp
qed

lemma below_all: "\<forall>r \<in> set F. pre r < p \<Longrightarrow> below F p = F"
  by (simp add: below_def)

lemma below_append: "below (F @ G) p = below F p @ below G p"
  by (simp add: below_def)

lemma recsAt_append: "recsAt (F @ G) p = recsAt F p @ recsAt G p"
  by (simp add: recsAt_def)

lemma adjacentDup_strict:
  "sorted (map keyOf g) \<Longrightarrow> \<not> adjacentDup g \<Longrightarrow> sorted_wrt (<) (map keyOf g)"
proof (induction g rule: adjacentDup.induct)
  case (1 a b rs)
  then have "keyOf a < keyOf b" by auto
  with 1 show ?case by fastforce
qed auto

lemma distinct_by_class:
  "(\<And>p. distinct (map f (filter (\<lambda>r. g (f r) = p) xs))) \<Longrightarrow> distinct (map f xs)"
proof (induction xs)
  case Nil
  then show ?case by simp
next
  case (Cons x xs)
  have "distinct (map f (filter (\<lambda>r. g (f r) = p) xs))" for p
    using Cons.prems [of p] by (auto split: if_splits)
  then have "distinct (map f xs)" by (rule Cons.IH)
  moreover have "f x \<notin> f ` set xs"
    using Cons.prems [of "g (f x)"] by auto
  ultimately show ?case by simp
qed


section \<open>The invariant\<close>

text \<open>What holds of the records flushed so far, on their own.\<close>

definition flushedOK :: "bytes list \<Rightarrow> bool" where
  "flushedOK F \<longleftrightarrow> (\<forall>r \<in> set F. wfRec r \<and> countOf r \<noteq> 0) \<and> sorted (map pre F)
     \<and> (\<forall>p. sorted_wrt (<) (map keyOf (recsAt F p)) \<and> length (recsAt F p) \<le> rangeCap)"

definition rangeBytes :: "bytes list \<Rightarrow> nat \<Rightarrow> nat" where
  "rangeBytes F p = length (recsAt F p) * RecordSize"

definition builderInv :: "bytes list \<Rightarrow> builder \<Rightarrow> bool" where
  "builderInv F b \<longleftrightarrow>
     flushedOK F \<and> length (bIdx b) = IndexSize
     \<and> - 1 \<le> bCurrent b \<and> bCurrent b < int PrefixCount
     \<and> int (bNext b) \<le> bCurrent b + 1 \<and> (bGroup b \<noteq> [] \<longrightarrow> int (bNext b) \<le> bCurrent b)
     \<and> (\<forall>r \<in> set (bGroup b). wfRec r \<and> countOf r \<noteq> 0 \<and> int (pre r) = bCurrent b)
     \<and> length (bGroup b) \<le> rangeCap \<and> (\<forall>r \<in> set F. pre r < bNext b)
     \<and> (\<forall>p < bNext b. offset (bIdx b) p = word_of_nat (length (below F p)))
     \<and> (\<forall>p < PrefixCount. rangeDigest (bIdx b) p = sha256 (concat (recsAt F p)))
     \<and> bWritten b = concat F \<and> bTotal b = word_of_nat (length F)
     \<and> unat (bLargest b) = Max (insert 0 (rangeBytes F ` {..<PrefixCount}))"

lemma PrefixCount_pos [simp]: "0 < PrefixCount"
  by (simp add: PrefixCount_def)

lemma builderInv_start: "builderInv [] (newBuilder ident)"
proof -
  have "rangeBytes [] ` {..<PrefixCount} = {0}"
    by (auto simp: rangeBytes_def recsAt_def image_iff intro!: bexI [of _ 0] exI [of _ 0])
  then show ?thesis
    by (simp add: builderInv_def newBuilder_def flushedOK_def recsAt_def makeIndex_facts emptyDigest_def)
qed

lemma putOffsets_facts:
  assumes "length idx = IndexSize" and "stop \<le> PrefixCount + 1"
  shows "length (putOffsets nx stop tot idx) = IndexSize"
    and "p \<le> PrefixCount \<Longrightarrow> offset (putOffsets nx stop tot idx) p =
      (if nx \<le> p \<and> p < stop then tot else offset idx p)"
    and "rangeDigest (putOffsets nx stop tot idx) q = rangeDigest idx q"
proof -
  have "length (putOffsets nx stop tot idx) = IndexSize
    \<and> (\<forall>p \<le> PrefixCount. offset (putOffsets nx stop tot idx) p =
      (if nx \<le> p \<and> p < stop then tot else offset idx p))
    \<and> (\<forall>q. rangeDigest (putOffsets nx stop tot idx) q = rangeDigest idx q)"
    using assms(2)
  proof (induction stop)
    case 0
    then show ?case using assms(1) by (simp add: putOffsets_def)
  next
    case (Suc stop)
    show ?case
    proof (cases "nx \<le> stop")
      case True
      then have "putOffsets nx (Suc stop) tot idx = putOffset (putOffsets nx stop tot idx) stop tot"
        by (simp add: putOffsets_def)
      with Suc True show ?thesis by (auto simp: buf_simps less_Suc_eq)
    next
      case False
      with assms(1) show ?thesis by (auto simp: putOffsets_def)
    qed
  qed
  then show "length (putOffsets nx stop tot idx) = IndexSize"
    and "p \<le> PrefixCount \<Longrightarrow> offset (putOffsets nx stop tot idx) p =
      (if nx \<le> p \<and> p < stop then tot else offset idx p)"
    and "rangeDigest (putOffsets nx stop tot idx) q = rangeDigest idx q"
    by blast+
qed

lemma rangeCap_bytes: "n \<le> rangeCap \<Longrightarrow> n * RecordSize \<le> MaxRangeBytes"
  by (simp add: rangeCap_def size_defs)

lemma unat_rangeBytes:
  assumes "n \<le> rangeCap"
  shows "unat (word_of_nat n * word_of_nat RecordSize :: u64) = n * RecordSize"
proof -
  have "word_of_nat n * word_of_nat RecordSize = (word_of_nat (n * RecordSize) :: u64)" by simp
  moreover have "n * RecordSize < 2 ^ 64"
    using rangeCap_bytes [OF assms] by (simp add: MaxRangeBytes_def)
  ultimately show ?thesis by (simp only: unat_of_nat) simp
qed

text \<open>Appending a group of one new prefix to the flushed records.\<close>

lemma recsAt_group:
  "\<forall>r \<in> set g. pre r = c \<Longrightarrow> recsAt g p = (if p = c then g else [])"
  unfolding recsAt_def by (auto simp: filter_empty_conv)

lemma recsAt_new: "\<forall>r \<in> set F. pre r < c \<Longrightarrow> recsAt F c = []"
  unfolding recsAt_def by (auto simp: filter_empty_conv)

lemma flushedOK_append:
  assumes "flushedOK F" and "\<forall>r \<in> set F. pre r < c"
    and "\<forall>r \<in> set g. wfRec r \<and> countOf r \<noteq> 0 \<and> pre r = c"
    and "sorted_wrt (<) (map keyOf g)" and "length g \<le> rangeCap"
  shows "flushedOK (F @ g)"
proof -
  have "sorted (map pre g)"
    using assms(3) by (simp add: sorted_wrt_map sorted_wrt_iff_nth_less)
  moreover have "recsAt (F @ g) p = (if p = c then g else recsAt F p)" for p
    using assms(2) recsAt_group [of g c p] assms(3) by (simp add: recsAt_append recsAt_new)
  ultimately show ?thesis
    using assms by (auto simp: flushedOK_def sorted_append less_imp_le)
qed


lemma sorted_group:
  assumes "\<not> adjacentDup (sort_key keyOf g)"
  shows "sorted_wrt (<) (map keyOf (sort_key keyOf g))"
  using adjacentDup_strict [OF _ assms] by simp

lemma Max_insert_update:
  fixes f g :: "nat \<Rightarrow> nat"
  assumes "c < n" and "\<And>p. p \<noteq> c \<Longrightarrow> g p = f p" and "f c = 0"
  shows "Max (insert 0 (g ` {..<n})) = max (Max (insert 0 (f ` {..<n}))) (g c)"
proof (rule antisym)
  have fin: "finite (insert 0 (g ` {..<n}))" "finite (insert 0 (f ` {..<n}))" by simp_all
  have "g p \<le> max (Max (insert 0 (f ` {..<n}))) (g c)" if "p < n" for p
    using Max_ge [OF fin(2), of "f p"] assms(2) [of p] that by (cases "p = c") (auto simp: le_max_iff_disj)
  then show "Max (insert 0 (g ` {..<n})) \<le> max (Max (insert 0 (f ` {..<n}))) (g c)"
    by (subst Max_le_iff) auto
  have "f p \<le> Max (insert 0 (g ` {..<n}))" if "p < n" for p
  proof (cases "p = c")
    case False
    then have "f p = g p" using assms(2) by simp
    then show ?thesis using Max_ge [OF fin(1), of "g p"] that by simp
  qed (simp add: assms(3))
  then have "Max (insert 0 (f ` {..<n})) \<le> Max (insert 0 (g ` {..<n}))"
    by (subst Max_le_iff) auto
  moreover have "g c \<le> Max (insert 0 (g ` {..<n}))"
    using Max_ge [OF fin(1), of "g c"] assms(1) by auto
  ultimately show "max (Max (insert 0 (f ` {..<n}))) (g c) \<le> Max (insert 0 (g ` {..<n}))" by simp
qed

lemma flush_inv:
  assumes inv: "builderInv F b" and "flush b = Inr b'"
  shows "\<exists>F'. builderInv F' b' \<and> bGroup b' = [] \<and> bCurrent b' = bCurrent b
    \<and> mset F' = mset F + mset (bGroup b)"
proof (cases "bGroup b = []")
  case True
  with assms show ?thesis by (auto simp: flush_def)
next
  case False
  define g where "g = sort_key keyOf (bGroup b)"
  define c where "c = nat (bCurrent b)"
  define stop where "stop = nat (bCurrent b + 1)"
  define idx where "idx = putOffsets (bNext b) stop (bTotal b) (bIdx b)"
  note i = inv [unfolded builderInv_def]
  have c: "int c = bCurrent b" "c < PrefixCount" "bNext b \<le> c" "stop = c + 1"
    using i False by (auto simp: c_def stop_def)
  have dup: "\<not> adjacentDup g" and b': "b' = b\<lparr>bIdx := setDigest idx c (sha256 (concat g)),
      bNext := max (bNext b) stop,
      bLargest := (if word_of_nat (length g) * word_of_nat RecordSize > bLargest b
        then word_of_nat (length g) * word_of_nat RecordSize else bLargest b),
      bTotal := bTotal b + word_of_nat (length g), bGroup := [], bWritten := bWritten b @ concat g\<rparr>"
    using assms(2) False by (auto simp: flush_def Let_def g_def c_def stop_def idx_def failIf_def split: if_splits)
  have set: "set g = set (bGroup b)" "length g = length (bGroup b)" by (simp_all add: g_def)
  have g: "\<forall>r \<in> set g. wfRec r \<and> countOf r \<noteq> 0 \<and> pre r = c" "length g \<le> rangeCap"
    using i c(1) unfolding set by auto
  have F: "\<forall>r \<in> set F. pre r < c" using i c(3) by auto
  have strict: "sorted_wrt (<) (map keyOf g)" using sorted_group dup by (simp add: g_def)
  have ok: "flushedOK (F @ g)"
    using flushedOK_append [OF _ F g(1) strict g(2)] i by blast
  have rec: "recsAt (F @ g) p = (if p = c then g else recsAt F p)" for p
    using F recsAt_group [of g c p] g(1) by (simp add: recsAt_append recsAt_new)
  have idx: "length idx = IndexSize" "p \<le> PrefixCount \<Longrightarrow> offset idx p =
      (if bNext b \<le> p \<and> p < stop then bTotal b else offset (bIdx b) p)"
      "rangeDigest idx p = rangeDigest (bIdx b) p" for p
    using putOffsets_facts [where idx = "bIdx b" and stop = stop and nx = "bNext b" and tot = "bTotal b"] i c by (simp_all add: idx_def)
  have next': "bNext b' = c + 1" using c by (simp add: b')
  have below: "below (F @ g) p = below F p" if "p \<le> c" for p
    using g(1) that by (auto simp: below_def filter_empty_conv)
  have off: "offset (bIdx b') p = word_of_nat (length (below (F @ g) p))" if "p < bNext b'" for p
  proof -
    have p: "p \<le> c" "p \<le> PrefixCount" using that c(2) by (simp_all add: next')
    have eq: "offset (bIdx b') p = offset idx p" using idx(1) c(2) p(2) by (simp add: b' buf_simps)
    show ?thesis
    proof (cases "bNext b \<le> p")
      case True
      then have "below F p = F" using i by (intro below_all) auto
      then show ?thesis using True p c(4) idx(2) [OF p(2)] i by (simp add: eq below)
    next
      case False
      then show ?thesis using p c(4) idx(2) [OF p(2)] i by (simp add: eq below)
    qed
  qed
  have dig: "rangeDigest (bIdx b') p = sha256 (concat (recsAt (F @ g) p))" if "p < PrefixCount" for p
    using that idx(1,3) c(2) i by (simp add: b' buf_simps rec)
  have "rangeBytes (F @ g) p = (if p = c then length g * RecordSize else rangeBytes F p)" for p
    by (simp add: rangeBytes_def rec)
  moreover have "rangeBytes F c = 0" using recsAt_new [OF F] by (simp add: rangeBytes_def)
  ultimately have max: "Max (insert 0 (rangeBytes (F @ g) ` {..<PrefixCount}))
      = max (Max (insert 0 (rangeBytes F ` {..<PrefixCount}))) (length g * RecordSize)"
    using Max_insert_update [of c PrefixCount "rangeBytes (F @ g)" "rangeBytes F"] c(2) by simp
  let ?w = "word_of_nat (length g) * word_of_nat RecordSize :: u64"
  have "bLargest b' = max (bLargest b) ?w" by (auto simp: b' max_def)
  then have "unat (bLargest b') = max (unat (bLargest b)) (unat ?w)"
    by (simp only: max_def word_le_nat_alt if_distrib [of unat])
  then have large: "unat (bLargest b') = Max (insert 0 (rangeBytes (F @ g) ` {..<PrefixCount}))"
    using i by (simp only: max unat_rangeBytes [OF g(2)])
  have "length (bIdx b') = IndexSize" using idx(1) c(2) by (simp add: b')
  then have "builderInv (F @ g) b'"
    using ok off dig large next' i c g(1) F unfolding builderInv_def
    by (auto simp: b' less_Suc_eq)
  moreover have "mset (F @ g) = mset F + mset (bGroup b)" by (simp add: g_def)
  ultimately show ?thesis by (auto simp: b')
qed


text \<open>Between two lines the open group is empty only before the first line.\<close>

definition loopInv :: "bytes list \<Rightarrow> builder \<Rightarrow> bool" where
  "loopInv F b \<longleftrightarrow> builderInv F b \<and> (bCurrent b \<noteq> - 1 \<longrightarrow> bGroup b \<noteq> [])"

lemma addRecord_inv:
  assumes inv: "loopInv F b" and "addRecord (r, pre r) b = Inr b'"
    and r: "wfRec r" "countOf r \<noteq> 0" "bCurrent b \<le> int (pre r)"
  shows "\<exists>F'. loopInv F' b' \<and> mset F' + mset (bGroup b') = mset F + mset (bGroup b) + {#r#}"
proof (cases "int (pre r) = bCurrent b")
  case True
  then have "bGroup b \<noteq> []" using inv by (auto simp: loopInv_def)
  moreover have "b' = b\<lparr>bGroup := bGroup b @ [r]\<rparr>" "length (bGroup b) \<noteq> rangeCap"
    using assms(2) True by (auto simp: addRecord_def res_simps rangeCap_def)
  ultimately have "loopInv F b'"
    using inv r True by (auto simp: loopInv_def builderInv_def)
  then show ?thesis using \<open>b' = _\<close> by auto
next
  case False
  obtain b1 where b1: "flush b = Inr b1" and b': "b' = b1\<lparr>bCurrent := int (pre r), bGroup := bGroup b1 @ [r]\<rparr>"
    using assms(2) False by (auto simp: addRecord_def res_simps)
  obtain F' where F': "builderInv F' b1" "bGroup b1 = []" "bCurrent b1 = bCurrent b"
      "mset F' = mset F + mset (bGroup b)"
    using flush_inv [OF _ b1] inv by (auto simp: loopInv_def)
  have "pre r < PrefixCount" by (rule prefix_bound)
  moreover have "0 < rangeCap" by (simp add: rangeCap_def size_defs)
  ultimately have "loopInv F' b'"
    using F'(1-3) r False by (auto simp: loopInv_def builderInv_def b')
  then show ?thesis using F'(2,4) by (auto simp: b')
qed

lemma importLoop_inv:
  assumes "loopInv F b" and "importLoop ctx k b inp = Inr b'"
  shows "\<exists>F'. loopInv F' b'
    \<and> mset F' + mset (bGroup b') = mset F + mset (bGroup b) + mset (inputRecords inp)"
  using assms
proof (induction ctx k b inp arbitrary: F rule: importLoop.induct)
  case (1 ctx k b inp)
  show ?case
  proof (cases "readSlice inp")
    case RdEOF
    then show ?thesis using 1(2,3)
      by (auto simp: importLoop.simps [of ctx k b inp] inputRecords.simps [of inp] res_simps)
  next
    case RdErr
    then show ?thesis using 1(3)
      by (auto simp: importLoop.simps [of ctx k b inp] res_simps)
  next
    case (RdLine line rest)
    obtain r p b1 where pl: "parseLine line (bCurrent b) = Inr (r, p)" and b1: "addRecord (r, p) b = Inr b1"
      and tail: "importLoop ctx (k + 1) b1 rest = Inr b'"
      using 1(3) RdLine by (auto simp: importLoop.simps [of ctx k b inp] res_simps)
    note P = parseLine_Inr [OF pl]
    have "bCurrent b \<ge> - 1" using 1(2) by (simp add: loopInv_def builderInv_def)
    then have recs: "inputRecords inp = r # inputRecords rest"
      using P(5) RdLine by (simp add: inputRecords.simps [of inp])
    obtain F1 where F1: "loopInv F1 b1" "mset F1 + mset (bGroup b1) = mset F + mset (bGroup b) + {#r#}"
      using addRecord_inv [OF 1(2) _ P(1,2)] b1 P(3,4) by auto
    obtain F' where "loopInv F' b'"
        "mset F' + mset (bGroup b') = mset F1 + mset (bGroup b1) + mset (inputRecords rest)"
      using 1(1) [OF RdLine F1(1) tail] by blast
    then show ?thesis using F1(2) recs by (auto simp: union_assoc)
  qed
qed


section \<open>The finished generation\<close>

text \<open>
  The abstraction relation: a generation holds the record list \<open>F\<close>.
\<close>

definition represents :: "bytes list \<Rightarrow> generation \<Rightarrow> bool" where
  "represents F g \<longleftrightarrow>
     (let m = gManifest g; ident = mDatasetID m; n = word_of_nat (length F) in
      flushedOK F \<and> length (gIndex g) = IndexSize
      \<and> take HeaderSize (gIndex g) = header indexMagic ident n
      \<and> (\<forall>p \<le> PrefixCount. offset (gIndex g) p = word_of_nat (length (below F p)))
      \<and> (\<forall>p < PrefixCount. rangeDigest (gIndex g) p = sha256 (concat (recsAt F p)))
      \<and> gData g = header dataMagic ident n @ concat F
      \<and> mRecordCount m = n \<and> mDataSize m = int (length (gData g))
      \<and> mDataSHA256 m = encodeToString (sha256 (gData g))
      \<and> mIndexSHA256 m = encodeToString (sha256 (gIndex g))
      \<and> unat (mMaxRangeBytes m) = Max (insert 0 (rangeBytes F ` {..<PrefixCount})))"

lemma flushedOK_length:
  assumes "flushedOK F"
  shows "length (below F p) \<le> length F" and "length F \<le> maxRecords" and "length F < 2 ^ 64"
    and "below F PrefixCount = F"
proof -
  show all: "below F PrefixCount = F" by (rule below_all) (simp add: prefix_bound)
  show "length (below F p) \<le> length F" by (simp add: below_def)
  have "length F = (\<Sum>q < PrefixCount. length (recsAt F q))"
    using length_below_sum [of F PrefixCount] all by simp
  also have "\<dots> \<le> (\<Sum>q < PrefixCount. rangeCap)"
    using assms by (intro sum_mono) (simp add: flushedOK_def)
  finally show le: "length F \<le> maxRecords" by (simp add: maxRecords_def rangeCap_def)
  then show "length F < 2 ^ 64" by (simp add: maxRecords_val)
qed

lemma unat_of_length:
  assumes "flushedOK F" and "n \<le> length F"
  shows "unat (word_of_nat n :: u64) = n"
  using flushedOK_length(3) [OF assms(1)] assms(2) by (simp add: unat_of_nat)

lemma length_flushed: "flushedOK F \<Longrightarrow> length (concat F) = length F * RecordSize"
  by (rule length_concat_recs) (simp add: flushedOK_def)

lemma finishBuild_represents:
  assumes inv: "loopInv F b0" and "finishBuild opt inp ident now b0 = Inr g"
  shows "\<exists>F'. represents F' g \<and> mset F' = mset F + mset (bGroup b0) \<and> mDatasetID (gManifest g) = ident"
proof -
  obtain b ds dh where b: "flush b0 = Inr b" and ds: "dataSize (bTotal b) = Inr ds"
    and dh: "hashFile (copySlice 0 HeaderSize (header dataMagic ident (bTotal b)) (replicate HeaderSize 0 @ bWritten b)) ds = Inr dh"
    and g: "gData g = copySlice 0 HeaderSize (header dataMagic ident (bTotal b)) (replicate HeaderSize 0 @ bWritten b)"
      "gIndex g = setHeader (putOffsets (bNext b) (PrefixCount + 1) (bTotal b) (bIdx b)) (header indexMagic ident (bTotal b))"
    and m: "mDatasetID (gManifest g) = ident" "mRecordCount (gManifest g) = bTotal b" "mDataSize (gManifest g) = ds"
      "mDataSHA256 (gManifest g) = dh" "mIndexSHA256 (gManifest g) = encodeToString (sha256 (gIndex g))"
      "mMaxRangeBytes (gManifest g) = bLargest b"
    using assms(2) by (auto simp: finishBuild_def Let_def res_simps)
  obtain F' where F': "builderInv F' b" "bGroup b = []" "mset F' = mset F + mset (bGroup b0)"
    using flush_inv [OF _ b] inv by (auto simp: loopInv_def)
  note i = F'(1) [unfolded builderInv_def]
  have ok: "flushedOK F'" and tot: "bTotal b = word_of_nat (length F')" using i by simp_all
  have next_le: "bNext b \<le> PrefixCount" using i by simp
  let ?idx = "putOffsets (bNext b) (PrefixCount + 1) (bTotal b) (bIdx b)"
  have idx: "length ?idx = IndexSize" "p \<le> PrefixCount \<Longrightarrow> offset ?idx p =
      (if bNext b \<le> p \<and> p < PrefixCount + 1 then bTotal b else offset (bIdx b) p)"
      "rangeDigest ?idx p = rangeDigest (bIdx b) p" for p
    using putOffsets_facts [where idx = "bIdx b" and stop = "PrefixCount + 1" and nx = "bNext b" and tot = "bTotal b"] i
    by simp_all
  have data: "gData g = header dataMagic ident (word_of_nat (length F')) @ concat F'"
    using i by (simp add: g(1) tot copySlice_def Let_def)
  have len: "length (gData g) = HeaderSize + length F' * RecordSize"
    by (simp add: data length_flushed [OF ok])
  have "ds = int (length (gData g))"
    using ds unat_of_length [OF ok, of "length F'"] by (simp add: dataSize_Inr tot len)
  moreover from this have "dh = encodeToString (sha256 (gData g))"
    using dh by (simp add: hashFile_def res_simps g(1))
  moreover have "offset ?idx p = word_of_nat (length (below F' p))" if "p \<le> PrefixCount" for p
  proof (cases "bNext b \<le> p")
    case True
    then have "below F' p = F'" using i by (intro below_all) auto
    then show ?thesis using True that idx(2) [OF that] by (simp add: tot)
  next
    case False
    then show ?thesis using that idx(2) [OF that] i by simp
  qed
  ultimately have "represents F' g"
    using ok idx(1,3) i unfolding represents_def Let_def
    by (simp add: data m g(2) setHeader_facts tot)
  then show ?thesis using F'(3) m(1) by blast
qed

end
