(* ===== verification/PwStore.thy ===== *)
theory PwStore
  imports PwImportInv
begin

text \<open>
  What a generation that represents a record list promises to its readers: \<open>Lookup\<close> is the
  association-list lookup, the reload accepts the files, and the full scrub passes.
\<close>

definition snapshotOf :: "generation \<Rightarrow> snapshot" where
  "snapshotOf g = \<lparr>sClosed = False, sData = gData g, sIndex = gIndex g, sManifest = gManifest g\<rparr>"

text \<open>The specification of a lookup: the count stored with the key, or zero.\<close>

definition countIn :: "bytes list \<Rightarrow> bytes \<Rightarrow> u64" where
  "countIn F key = (case map_of (map (\<lambda>r. (keyOf r, countOf r)) F) key of None \<Rightarrow> 0 | Some n \<Rightarrow> n)"

lemma map_of_filter_key:
  assumes "\<And>r. r \<in> set F \<Longrightarrow> k r = key \<Longrightarrow> P r"
  shows "map_of (map (\<lambda>r. (k r, v r)) (filter P F)) key = map_of (map (\<lambda>r. (k r, v r)) F) key"
  using assms by (induction F) auto

lemma countIn_recsAt: "countIn (recsAt F (keyPrefix key)) key = countIn F key"
  unfolding countIn_def recsAt_def by (subst map_of_filter_key) auto

section \<open>One range of a represented generation\<close>

lemma unat_below:
  assumes "represents F g" and "p \<le> PrefixCount"
  shows "unat (offset (gIndex g) p) = length (below F p)"
proof -
  have ok: "flushedOK F" using assms(1) by (simp add: represents_def Let_def)
  show ?thesis using assms unat_of_length [OF ok flushedOK_length(1) [OF ok, of p]]
    by (simp add: represents_def Let_def)
qed

lemma range_of:
  assumes rep: "represents F g" and p: "p < PrefixCount"
  shows "offset (gIndex g) p \<le> offset (gIndex g) (p + 1)"
    and "offset (gIndex g) (p + 1) \<le> mRecordCount (gManifest g)"
    and "unat ((offset (gIndex g) (p + 1) - offset (gIndex g) p) * word_of_nat RecordSize) = rangeBytes F p"
    and "readAt (gData g) (HeaderSize + unat (offset (gIndex g) p) * RecordSize) (rangeBytes F p)
      = Inr (concat (recsAt F p))"
    and "rangeDigest (gIndex g) p = sha256 (concat (recsAt F p))"
    and "rangeBytes F p \<le> MaxRangeBytes"
    and "length (concat (recsAt F p)) = rangeBytes F p"
proof -
  note r = rep [unfolded represents_def Let_def]
  have ok: "flushedOK F" and wf: "\<forall>r \<in> set F. wfRec r" using r by (auto simp: flushedOK_def)
  have a: "unat (offset (gIndex g) p) = length (below F p)"
    and b: "unat (offset (gIndex g) (p + 1)) = length (below F (p + 1))"
    using unat_below [OF rep] p by simp_all
  have sorted: "sorted (map pre F)" using ok by (simp add: flushedOK_def)
  note parts = below_recsAt [OF sorted, of p]
  show le: "offset (gIndex g) p \<le> offset (gIndex g) (p + 1)"
    by (simp only: word_le_nat_alt a b parts(2) length_append le_add1)
  show "offset (gIndex g) (p + 1) \<le> mRecordCount (gManifest g)"
    using r unat_of_length [OF ok, of "length F"] flushedOK_length(1) [OF ok, of "p + 1"]
    by (simp only: word_le_nat_alt b le_refl)
  have "length (below F (p + 1)) \<le> maxRecords"
    using flushedOK_length(1,2) [OF ok] by (meson le_trans)
  then show size: "unat ((offset (gIndex g) (p + 1) - offset (gIndex g) p) * word_of_nat RecordSize) = rangeBytes F p"
    using range_no_wrap [OF le] by (simp only: b a parts(2) rangeBytes_def length_append add_diff_cancel_left')
  show "rangeDigest (gIndex g) p = sha256 (concat (recsAt F p))" using r p by simp
  have "length (recsAt F p) \<le> rangeCap" using ok by (simp add: flushedOK_def)
  then show "rangeBytes F p \<le> MaxRangeBytes" unfolding rangeBytes_def by (rule rangeCap_bytes)
  show len: "length (concat (recsAt F p)) = rangeBytes F p"
    unfolding rangeBytes_def by (rule length_concat_recs) (use wf in \<open>simp add: recsAt_def\<close>)
  let ?i = "length (below F p)" and ?j = "length (below F (p + 1))"
  have data: "gData g = header dataMagic (mDatasetID (gManifest g)) (word_of_nat (length F)) @ concat F"
    using r by simp
  have end': "?i * RecordSize + rangeBytes F p = ?j * RecordSize"
    by (simp only: parts(2) rangeBytes_def) (simp add: algebra_simps)
  have "slice (HeaderSize + ?i * RecordSize) (HeaderSize + ?i * RecordSize + rangeBytes F p) (gData g)
      = slice (?i * RecordSize) (?j * RecordSize) (concat F)"
    by (simp add: data slice_def flip: end' del: One_nat_def)
  also have "\<dots> = concat (slice ?i ?j F)" by (rule slice_concat_recs [OF wf])
  also have "\<dots> = concat (recsAt F p)" by (simp only: parts(1))
  finally have sl: "slice (HeaderSize + ?i * RecordSize) (HeaderSize + ?i * RecordSize + rangeBytes F p) (gData g)
      = concat (recsAt F p)" .
  have "HeaderSize + ?i * RecordSize + rangeBytes F p \<le> length (gData g)"
    using end' flushedOK_length(1) [OF ok, of "p + 1"] length_flushed [OF ok] by (simp add: data)
  then show "readAt (gData g) (HeaderSize + unat (offset (gIndex g) p) * RecordSize) (rangeBytes F p)
      = Inr (concat (recsAt F p))"
    using sl by (simp only: readAt_def a if_True)
qed

section \<open>Lookup\<close>

lemma represents_wf:
  assumes "represents F g"
  shows "\<forall>r \<in> set (recsAt F p). wfRec r \<and> countOf r \<noteq> 0" and "sorted_wrt (<) (map keyOf (recsAt F p))"
  using assms by (auto simp: represents_def Let_def flushedOK_def recsAt_def)

lemma Lookup_represents:
  assumes rep: "represents F g" and ctx: "ctx 0 = None" "ctx 1 = None"
  shows "Lookup (snapshotOf g) ctx key = Inr (countIn F key)"
proof -
  let ?p = "keyPrefix key"
  note R = range_of [OF rep prefix_bound [of key]]
  have size: "int (length (gData g)) = mDataSize (gManifest g)"
    using rep by (simp add: represents_def Let_def)
  have buf: "(if rangeBytes F ?p > 0
      then readAt (gData g) (HeaderSize + unat (offset (gIndex g) ?p) * RecordSize) (rangeBytes F ?p)
      else Inr []) = Inr (concat (recsAt F ?p))"
    using R(4,7) by auto
  have "searchRange (concat (recsAt F ?p)) key = Inr (countIn F key)"
    using searchRange_map_of [OF represents_wf [OF rep]] countIn_recsAt [of F key]
    by (simp add: countIn_def)
  then show ?thesis
    using ctx size buf R(3,5)
    by (simp only: Lookup_def Let_def snapshotOf_def snapshot.simps checkCtx_def option.case
        failIf_simps not_not simp_thms andThen_simps sanitize_simps)
qed

section \<open>Reload and scrub\<close>

lemma fold_max_eq:
  fixes f :: "nat \<Rightarrow> u64"
  shows "unat (fold (\<lambda>p l. max l (f p)) ps a) = Max (insert (unat a) ((\<lambda>p. unat (f p)) ` set ps))"
proof (induction ps arbitrary: a)
  case Nil
  then show ?case by simp
next
  case (Cons p ps)
  have "unat (max a (f p)) = max (unat a) (unat (f p))"
    by (simp add: max_def word_le_nat_alt)
  moreover have "Max (insert (max x y) S) = Max (insert x (insert y S))" if "finite S" for x y :: nat and S
    using that by (cases "S = {}") (simp_all add: max.assoc)
  ultimately show ?case using Cons.IH [of "max a (f p)"] by simp
qed

lemma checkIndex_represents:
  assumes rep: "represents F g"
  shows "checkIndex (gIndex g) (gManifest g) = None"
proof -
  let ?m = "gManifest g" and ?idx = "gIndex g"
  let ?f = "\<lambda>p. (offset ?idx (p + 1) - offset ?idx p) * word_of_nat RecordSize"
  note r = rep [unfolded represents_def Let_def]
  have ok: "flushedOK F" using r by simp
  have ends: "offset ?idx 0 = 0" "offset ?idx PrefixCount = mRecordCount ?m"
    using r flushedOK_length(4) [OF ok] by (simp_all add: below_def)
  have size: "unat (?f p) = rangeBytes F p" if "p < PrefixCount" for p
    using range_of(3) [OF rep that] .
  have max: "unat (word_of_nat MaxRangeBytes :: u64) = MaxRangeBytes"
    by (simp add: MaxRangeBytes_def unat_of_nat)
  have good: "offset ?idx p \<le> offset ?idx (p + 1) \<and> offset ?idx (p + 1) \<le> mRecordCount ?m
      \<and> ?f p \<le> word_of_nat MaxRangeBytes \<and> (?f p = 0 \<longrightarrow> rangeDigest ?idx p = emptyDigest)"
    if "p \<in> set [0..<PrefixCount]" for p
  proof -
    have p: "p < PrefixCount" using that by simp
    note R = range_of [OF rep p]
    have "?f p = 0 \<Longrightarrow> concat (recsAt F p) = []"
      using R(3,7) by simp
    moreover have "?f p \<le> word_of_nat MaxRangeBytes"
      by (simp only: word_le_nat_alt size [OF p] max R(6))
    ultimately show ?thesis using R(1,2,5) by (auto simp only: emptyDigest_def)
  qed
  let ?l = "fold (\<lambda>p l. max l (?f p)) [0..<PrefixCount] 0"
  have ranges: "checkRanges ?idx (mRecordCount ?m) [0..<PrefixCount] 0 = Inr ?l"
    by (rule checkRanges_complete) (rule good)
  have "(\<lambda>p. unat (?f p)) ` set [0..<PrefixCount] = rangeBytes F ` {..<PrefixCount}"
    using size by (intro image_cong) auto
  then have "unat ?l = unat (mMaxRangeBytes ?m)"
    using r fold_max_eq [of ?f "[0..<PrefixCount]" 0] by simp
  then have "?l = mMaxRangeBytes ?m" by (simp only: word_unat_eq_iff)
  moreover have "checkHeader (take HeaderSize ?idx) indexMagic (mDatasetID ?m) (mRecordCount ?m) = None"
    using r by simp
  ultimately show ?thesis using r ends ranges by (simp add: checkIndex_def)
qed

lemma loadFiles_represents:
  assumes rep: "represents F g" and ctx: "ctx 0 = None"
  shows "loadFiles ctx (mDatasetID (gManifest g)) (gManifest g) (gIndex g) (gData g) = Inr (snapshotOf g)"
proof -
  note r = rep [unfolded represents_def Let_def]
  have "readAt (gData g) 0 HeaderSize
      = Inr (header dataMagic (mDatasetID (gManifest g)) (mRecordCount (gManifest g)))"
    using r by (simp add: readAt_def)
  then show ?thesis
    using r ctx checkIndex_represents [OF rep]
    by (simp add: loadFiles_def snapshotOf_def checkCtx_def)
qed


lemma records_by_prefix: "sorted (map pre F) \<Longrightarrow> below F p = concat (map (recsAt F) [0..<p])"
proof (induction p)
  case 0
  then show ?case by (simp add: below_def)
next
  case (Suc p)
  then show ?case using below_recsAt(2) [of F p] by simp
qed

lemma no_badRecord:
  assumes "\<forall>r \<in> set rs. wfRec r \<and> countOf r \<noteq> 0 \<and> pre r = p" and "sorted_wrt (<) (map keyOf rs)"
    and "i < length rs"
  shows "\<not> badRecord p (concat rs) i"
proof -
  have wf: "\<forall>r \<in> set rs. wfRec r" using assms(1) by simp
  have "keyOf (rs ! (i - 1)) < keyOf (rs ! i)" if "i > 0"
    using assms(2,3) that by (auto simp: sorted_wrt_iff_nth_less)
  then show ?thesis
    using assms(1,3) rec_at [OF wf, of i] rec_at [OF wf, of "i - 1"]
    by (auto simp: badRecord_def)
qed

lemma verifyRanges_represents:
  assumes rep: "represents F g" and "\<forall>p \<in> set ps. p < PrefixCount \<and> ctx p = None"
  shows "verifyRanges (snapshotOf g) ctx ps acc = Inr (acc @ concat (concat (map (recsAt F) ps)))"
  using assms(2)
proof (induction ps arbitrary: acc)
  case Nil
  then show ?case by simp
next
  case (Cons p ps)
  note R = range_of [OF rep, of p]
  let ?rs = "recsAt F p"
  have p: "p < PrefixCount" "ctx p = None" using Cons.prems by auto
  have s: "sData (snapshotOf g) = gData g" "sIndex (snapshotOf g) = gIndex g"
    by (simp_all add: snapshotOf_def)
  have "length (concat ?rs) div RecordSize = length ?rs"
    using R(7) [OF p(1)] by (simp add: rangeBytes_def RecordSize_def)
  then have bad: "(\<exists>i \<in> set [0..<length (concat ?rs) div RecordSize]. badRecord p (concat ?rs) i) = False"
    using no_badRecord [of ?rs p] represents_wf [OF rep, of p] by (auto simp: recsAt_def)
  have zero: "rangeBytes F p = 0 \<longleftrightarrow> ?rs = []" by (simp add: rangeBytes_def RecordSize_def)
  have cap: "(rangeBytes F p > MaxRangeBytes) = False" using R(6) [OF p(1)] by simp
  show ?case
  proof (cases "?rs = []")
    case True
    then have z: "(rangeBytes F p = 0) = True" using zero by simp
    have "verifyRanges (snapshotOf g) ctx (p # ps) acc = verifyRanges (snapshotOf g) ctx ps acc"
      by (simp only: verifyRanges.simps checkCtx_def p option.case s Let_def R(3) [OF p(1)] cap z
          failIf_simps if_True)
    then show ?thesis using Cons True by simp
  next
    case False
    then have nz: "(rangeBytes F p = 0) = False" using zero by simp
    have "verifyRanges (snapshotOf g) ctx (p # ps) acc = verifyRanges (snapshotOf g) ctx ps (acc @ concat ?rs)"
      by (simp only: verifyRanges.simps checkCtx_def p option.case s Let_def R(3) [OF p(1)] cap nz
          failIf_simps if_False R(4) [OF p(1)] R(5) [OF p(1)] andThen_simps bad not_True_eq_False simp_thms)
    then show ?thesis using Cons by simp
  qed
qed

lemma verifyContents_represents:
  assumes rep: "represents F g" and ctx: "\<forall>k \<le> PrefixCount. ctx k = None"
  shows "verifyContents (snapshotOf g) ctx = Inr ()"
proof -
  note r = rep [unfolded represents_def Let_def]
  have ok: "flushedOK F" using r by simp
  have "concat (map (recsAt F) [0..<PrefixCount]) = F"
    using records_by_prefix [of F PrefixCount] ok flushedOK_length(4) [OF ok] by (simp add: flushedOK_def)
  then have "verifyRanges (snapshotOf g) ctx [0..<PrefixCount] acc = Inr (acc @ concat F)" for acc
    using verifyRanges_represents [OF rep, of "[0..<PrefixCount]" ctx acc] ctx by simp
  then show ?thesis
    using r ctx unfolding verifyContents_def snapshotOf_def checkCtx_def
    by (simp add: failIf_def)
qed

lemma countIn_cong:
  assumes "mset F = mset G" and "distinct (map keyOf F)"
  shows "countIn F key = countIn G key"
proof -
  let ?f = "\<lambda>r. (keyOf r, countOf r)"
  have "mset (map keyOf F) = mset (map keyOf G)" using assms(1) by simp
  then have "distinct (map keyOf G)" using assms(2) mset_eq_imp_distinct_iff by blast
  moreover have "set (map ?f F) = set (map ?f G)" using mset_eq_setD [OF assms(1)] by simp
  ultimately have "map_of (map ?f F) = map_of (map ?f G)"
    using assms(2) by (intro map_of_inject_set [THEN iffD2]) (simp_all add: comp_def)
  then show ?thesis by (simp add: countIn_def)
qed

lemma represents_distinct:
  assumes "represents F g"
  shows "distinct (map keyOf F)"
proof (rule distinct_by_class [where g = keyPrefix])
  fix p
  have "sorted_wrt (<) (map keyOf (recsAt F p))" by (rule represents_wf(2) [OF assms])
  then show "distinct (map keyOf (filter (\<lambda>r. keyPrefix (keyOf r) = p) F))"
    by (simp add: recsAt_def strict_sorted_iff)
qed

section \<open>Import\<close>

lemma Import_represents:
  assumes "Import ctx ctxLoad ctxScrub opt inp free random now = Inr g"
  shows "\<exists>F. represents F g \<and> mset F = mset (inputRecords inp) \<and> mDatasetID (gManifest g) = encodeToString random"
proof -
  let ?ident = "encodeToString random"
  obtain b where loop: "importLoop ctx 0 (newBuilder ?ident) inp = Inr b"
    and fin: "finishBuild opt inp ?ident now b = Inr g"
    using assms by (auto simp: Import_def Let_def res_simps)
  have "loopInv [] (newBuilder ?ident)"
    using builderInv_start by (simp add: loopInv_def newBuilder_def)
  then obtain F' where F': "loopInv F' b"
      "mset F' + mset (bGroup b) = mset (bGroup (newBuilder ?ident)) + mset (inputRecords inp)"
    using importLoop_inv [OF _ loop] by fastforce
  then show ?thesis
    using finishBuild_represents [OF F'(1) fin] by (auto simp: newBuilder_def)
qed


lemma Import_complete:
  assumes "importChecks opt inp free = Inr ()"
    and "importLoop ctx 0 (newBuilder (encodeToString random)) inp = Inr b"
    and "finishBuild opt inp (encodeToString random) now b = Inr g"
    and "ctxLoad 0 = None" and "\<forall>k \<le> PrefixCount. ctxScrub k = None"
  shows "Import ctx ctxLoad ctxScrub opt inp free random now = Inr g"
proof -
  let ?ident = "encodeToString random"
  have "loopInv [] (newBuilder ?ident)"
    using builderInv_start by (simp add: loopInv_def newBuilder_def)
  from importLoop_inv [OF this assms(2)] obtain F where "loopInv F b" by blast
  from finishBuild_represents [OF this assms(3)] obtain F'
    where rep: "represents F' g" and ident: "mDatasetID (gManifest g) = ?ident" by blast
  show ?thesis
    using loadFiles_represents [OF rep, of ctxLoad] verifyContents_represents [OF rep assms(5)] assms(4) assms(1-3) ident
    by (simp add: Import_def)
qed

section \<open>The decimal count of a line\<close>

definition isDigit :: "byte \<Rightarrow> bool" where
  "isDigit c \<longleftrightarrow> 0x30 \<le> c \<and> c \<le> 0x39"

definition decVal :: "nat \<Rightarrow> bytes \<Rightarrow> nat" where
  "decVal a cs = foldl (\<lambda>a c. 10 * a + (unat c - 48)) a cs"

lemma decVal_ge: "a \<le> decVal a cs"
proof (induction cs arbitrary: a)
  case Nil
  then show ?case by (simp add: decVal_def)
next
  case (Cons c cs)
  have "a \<le> 10 * a + (unat c - 48)" by simp
  also have "\<dots> \<le> decVal (10 * a + (unat c - 48)) cs" by (rule Cons.IH)
  finally show ?case by (simp add: decVal_def)
qed

text \<open>The guard of the digit loop is exactly the overflow of the next step.\<close>

lemma count_guard:
  fixes n :: u64 and c :: byte
  assumes "isDigit c"
  shows "n > (- 1 - ucast (c - 0x30)) div 10 \<longleftrightarrow> 2 ^ 64 \<le> 10 * unat n + (unat c - 48)"
    and "10 * unat n + (unat c - 48) < 2 ^ 64 \<Longrightarrow> unat (n * 10 + ucast (c - 0x30)) = 10 * unat n + (unat c - 48)"
proof -
  have c: "48 \<le> unat c" "unat c \<le> 57" using assms by (simp_all add: isDigit_def word_le_nat_alt)
  have d: "unat (ucast (c - 0x30) :: u64) = unat c - 48"
    using c by (simp add: unsigned_ucast_eq unat_sub word_le_nat_alt take_bit_nat_eq_self)
  have m: "unat (- 1 :: u64) = 2 ^ 64 - 1" by (simp add: unsigned_minus_1_eq_mask mask_eq_exp_minus_1)
  have "unat (- 1 - ucast (c - 0x30) :: u64) = 2 ^ 64 - 1 - (unat c - 48)"
    using c by (subst unat_sub) (simp_all add: d m word_le_nat_alt)
  then have q: "unat ((- 1 - ucast (c - 0x30)) div 10 :: u64) = (2 ^ 64 - 1 - (unat c - 48)) div 10"
    by (simp add: unat_div)
  have "(2 ^ 64 - 1 - (unat c - 48)) div 10 < unat n \<longleftrightarrow> 2 ^ 64 \<le> 10 * unat n + (unat c - 48)"
  proof -
    define d where "d = unat c - 48"
    define M :: nat where "M = 2 ^ 64 - 1"
    have "d \<le> M" using c by (simp add: d_def M_def)
    then have "(M - d) div 10 < unat n \<longleftrightarrow> M < 10 * unat n + d"
      by (simp only: div_less_iff_less_mult zero_less_numeral) linarith
    moreover have "M < 10 * unat n + d \<longleftrightarrow> 2 ^ 64 \<le> 10 * unat n + d" by (simp add: M_def) linarith
    ultimately show ?thesis by (simp only: M_def d_def)
  qed
  then show "n > (- 1 - ucast (c - 0x30)) div 10 \<longleftrightarrow> 2 ^ 64 \<le> 10 * unat n + (unat c - 48)"
    by (simp only: word_less_nat_alt q)
  show "unat (n * 10 + ucast (c - 0x30)) = 10 * unat n + (unat c - 48)"
    if "10 * unat n + (unat c - 48) < 2 ^ 64"
  proof -
    have "n * 10 + ucast (c - 0x30) = word_of_nat (10 * unat n + (unat c - 48))"
      by (simp add: mult.commute flip: d)
    then show ?thesis using that unat_of_nat [where 'a = 64, of "10 * unat n + (unat c - 48)"] by (simp add: mult.commute)
  qed
qed

lemma parseCount_from:
  "parseCount n cs = (if (\<forall>c \<in> set cs. isDigit c) \<and> decVal (unat n) cs < 2 ^ 64
     then Inr (word_of_nat (decVal (unat n) cs)) else Inl (problem ''invalid_count''))"
proof (induction n cs rule: parseCount.induct)
  case (1 n)
  show ?case using unsigned_less [of n, where ?'a = nat] by (simp add: decVal_def)
next
  case (2 n c cs)
  let ?v = "10 * unat n + (unat c - 48)"
  have dig: "(c < 0x30 \<or> c > 0x39) = (\<not> isDigit c)" by (auto simp: isDigit_def)
  have step: "decVal (unat n) (c # cs) = decVal ?v cs" by (simp add: decVal_def)
  show ?case
  proof (cases "isDigit c \<and> ?v < 2 ^ 64")
    case True
    then have "\<not> n > (- 1 - ucast (c - 0x30)) div 10" using count_guard(1) [of c n] by linarith
    then have "parseCount n (c # cs) = parseCount (n * 10 + ucast (c - 0x30)) cs"
      using True dig by (simp only: parseCount.simps) simp
    with 2 True dig show ?thesis
      by (simp only: step count_guard(2)) simp
  next
    case False
    have "n > (- 1 - ucast (c - 0x30)) div 10" if "isDigit c"
      using count_guard(1) [OF that, of n] False that by linarith
    then have "parseCount n (c # cs) = Inl (problem ''invalid_count'')"
      using dig by (simp only: parseCount.simps failIf_def) auto
    moreover have "2 ^ 64 \<le> decVal ?v cs" if "isDigit c"
      using decVal_ge [of ?v cs] False that by linarith
    ultimately show ?thesis by (auto simp: step)
  qed
qed


lemma trimLine_canonical:
  assumes "length key = 20" and "ds \<noteq> []" and "\<forall>c \<in> set ds. isDigit c"
  shows "trimLine (hexEncode key @ 0x3a # ds @ [10]) = (hexEncode key @ 0x3a # ds, False)"
proof -
  let ?l = "hexEncode key @ 0x3a # ds"
  obtain b key' where key: "key = b # key'" using assms(1) by (cases key) auto
  have "fromHex (hexDigit (drop_bit 4 b)) \<noteq> None" by (rule hexEncode_digits [of _ key]) (simp add: key)
  moreover have "fromHex 0xef = None" by (simp add: fromHex_def)
  ultimately have "hexDigit (drop_bit 4 b) \<noteq> 0xef" by auto
  then have bom: "take 3 ?l \<noteq> [0xef, 0xbb, 0xbf]" by (simp add: key numeral_3_eq_3)
  have "last ds \<noteq> 13" using assms(2,3) by (auto simp: isDigit_def word_le_nat_alt dest!: last_in_set)
  then have "butlast (?l @ [10]) = ?l" "last ?l \<noteq> 13" using assms(2) by (simp_all only: butlast_snoc) simp
  then have "trimLine (?l @ [10]) = (?l, False)"
    using bom by (simp only: trimLine_def Let_def if_False simp_thms)
  then show ?thesis by simp
qed

lemma parseLine_decimal:
  assumes "length key = 20" and "\<forall>c \<in> set ds. isDigit c" and "1 \<le> length ds" and "length ds \<le> 20"
    and "0 < decVal 0 ds" and "decVal 0 ds < 2 ^ 64" and "previous \<le> int (keyPrefix key)"
  shows "parseLine (hexEncode key @ 0x3a # ds @ [10]) previous
    = Inr (key @ putBE 8 (word_of_nat (decVal 0 ds) :: u64), keyPrefix key)"
proof -
  let ?line = "hexEncode key @ 0x3a # ds @ [10]"
  have trim: "trimLine ?line = (hexEncode key @ 0x3a # ds, False)"
    using assms(1-3) by (intro trimLine_canonical) auto
  have n: "word_of_nat (decVal 0 ds) \<noteq> (0 :: u64)"
    using assms(5,6) unat_of_nat [where 'a = 64, of "decVal 0 ds"] by (auto simp del: word_of_nat_eq_0_iff)
  have parts: "take 40 (hexEncode key @ 0x3a # ds) = hexEncode key" "drop 41 (hexEncode key @ 0x3a # ds) = ds"
    "(hexEncode key @ 0x3a # ds) ! 40 = 0x3a"
    using assms(1) by (simp_all add: nth_append)
  show ?thesis
    using assms n parts parseCount_from [of 0 ds]
    by (cases "ds = []") (simp_all add: parseLine_def trim Let_def)
qed

section \<open>A corpus of one line\<close>

text \<open>The concrete input of the witnesses: the key of twenty bytes \<open>AA\<close> with count 5.\<close>

definition demoKey :: bytes where "demoKey = replicate 20 0xaa"

definition demoLine :: bytes where
  "demoLine = hexEncode demoKey @ 0x3a # [0x35] @ [10]"

definition demoOpt :: ImportOptions where
  "demoOpt = \<lparr>optExpectedSHA256 = encodeToString (sha256 demoLine),
     optAcquiredAt = Some ''2024-01-01T00:00:00Z'', optComplete = True\<rparr>"

definition demoRandom :: bytes where "demoRandom = replicate 16 7"

definition demoRec :: bytes where "demoRec = demoKey @ putBE 8 (5 :: u64)"

lemma demo_parse: "parseLine demoLine (- 1) = Inr (demoRec, keyPrefix demoKey)"
proof -
  have "decVal 0 [0x35] = 5" by (simp add: decVal_def)
  then show ?thesis
    using parseLine_decimal [of demoKey "[0x35]" "- 1"]
    by (simp add: demoLine_def demoRec_def demoKey_def isDigit_def)
qed

lemma takeWhile_demo: "takeWhile (\<lambda>c. c \<noteq> 10) demoLine = hexEncode demoKey @ [0x3a, 0x35]"
proof -
  have "fromHex 10 = None" by (simp add: fromHex_def)
  then have "c \<noteq> 10" if "c \<in> set (hexEncode demoKey)" for c
    using hexEncode_digits [OF that] by auto
  then show ?thesis by (simp add: demoLine_def takeWhile_append2)
qed

lemma demo_read: "readSlice demoLine = RdLine demoLine []" "readSlice [] = RdEOF"
proof -
  have "length demoLine = 43" by (simp add: demoLine_def demoKey_def)
  then show "readSlice demoLine = RdLine demoLine []"
    by (auto simp: readSlice_def takeWhile_demo Let_def) (simp_all add: demoLine_def demoKey_def)
  show "readSlice [] = RdEOF" by (simp add: readSlice_def)
qed

lemma demo_records: "inputRecords demoLine = [demoRec]"
  by (simp add: inputRecords.simps [of demoLine] inputRecords.simps [of "[]"] demo_read demo_parse)

lemma demo_checks: "importChecks demoOpt demoLine (2 ^ 40) = Inr ()"
proof -
  have "length demoLine = 43" by (simp add: demoLine_def demoKey_def)
  moreover have "dataSize 1 = Inr 156" by (simp add: dataSize_Inr maxRecords_val size_defs)
  ultimately show ?thesis
    by (simp add: importChecks_def demoOpt_def maxManifest_def size_defs res_simps)
qed

lemma demo_build: "\<exists>b g. importLoop background 0 (newBuilder ident) demoLine = Inr b
  \<and> finishBuild demoOpt demoLine ident now b = Inr g"
proof -
  let ?b = "(newBuilder ident)\<lparr>bCurrent := int (keyPrefix demoKey), bGroup := [demoRec]\<rparr>"
  have new: "bGroup (newBuilder ident) = []" "bCurrent (newBuilder ident) = - 1" "bTotal (newBuilder ident) = 0"
    "bWritten (newBuilder ident) = []" by (simp_all add: newBuilder_def)
  have loop: "importLoop background 0 (newBuilder ident) demoLine = Inr ?b"
    by (simp add: importLoop.simps [of background 0] importLoop.simps [of background "Suc 0"]
        demo_read demo_parse addRecord_def flush_def new size_defs)
  have "flush ?b = Inr c \<Longrightarrow> bTotal c = 1 \<and> length (bWritten c) = 28" for c
    by (auto simp: flush_def Let_def new demoRec_def demoKey_def)
  moreover have "\<exists>c. flush ?b = Inr c" by (simp add: flush_def Let_def)
  ultimately obtain c where c: "flush ?b = Inr c" "bTotal c = 1" "length (bWritten c) = 28" by blast
  moreover have "dataSize 1 = Inr 156" by (simp add: dataSize_Inr maxRecords_val size_defs)
  ultimately have "\<exists>g. finishBuild demoOpt demoLine ident now ?b = Inr g"
    by (simp add: finishBuild_def Let_def hashFile_def demoOpt_def HeaderSize_def)
  with loop show ?thesis by blast
qed

lemma demo_Import: "\<exists>g. Import background background background demoOpt demoLine (2 ^ 40) demoRandom now = Inr g"
  using demo_build [of "encodeToString demoRandom" now] Import_complete [OF demo_checks, of background demoRandom]
  by (auto simp: background_def)

section \<open>From the files back to the records\<close>

lemma slice_append_slice: "a \<le> b \<Longrightarrow> b \<le> c \<Longrightarrow> slice a b xs @ slice b c xs = slice a c xs"
proof -
  assume "a \<le> b" "b \<le> c"
  then have "c - a = (b - a) + (c - b)" "drop (b - a) (drop a xs) = drop b xs" by simp_all
  then show ?thesis unfolding slice_def by (simp only: take_add)
qed

lemma slice_tiling:
  assumes "\<And>i. i < n \<Longrightarrow> f i \<le> f (i + 1)"
  shows "concat (map (\<lambda>i. slice (f i) (f (i + 1)) xs) [0..<n]) = slice (f 0) (f n) xs \<and> f 0 \<le> f n"
  using assms
proof (induction n)
  case 0
  then show ?case by (simp add: slice_def)
next
  case (Suc n)
  have IH: "concat (map (\<lambda>i. slice (f i) (f (i + 1)) xs) [0..<n]) = slice (f 0) (f n) xs" "f 0 \<le> f n"
    using Suc by auto
  moreover have "f n \<le> f (Suc n)" using Suc.prems [of n] by simp
  ultimately show ?case using slice_append_slice [of "f 0" "f n" "f (Suc n)" xs] by auto
qed

definition recordsOf :: "bytes \<Rightarrow> bytes list" where
  "recordsOf buf = map (\<lambda>i. slice (i * RecordSize) ((i + 1) * RecordSize) buf) [0..<length buf div RecordSize]"

lemma recordsOf_facts:
  assumes "length buf = n * RecordSize"
  shows "concat (recordsOf buf) = buf" and "length (recordsOf buf) = n" and "\<forall>r \<in> set (recordsOf buf). wfRec r"
proof -
  have n: "length buf div RecordSize = n" using assms by (simp add: RecordSize_def)
  show "length (recordsOf buf) = n" by (simp add: recordsOf_def n)
  have "concat (recordsOf buf) = slice (0 * RecordSize) (n * RecordSize) buf"
    unfolding recordsOf_def n using slice_tiling [of n "\<lambda>i. i * RecordSize" buf] by (simp only: add_le_mono1 mult_le_mono1 le_add1 simp_thms)
  then show "concat (recordsOf buf) = buf" using assms by simp
  have "length (slice (i * RecordSize) ((i + 1) * RecordSize) buf) = RecordSize" if "i < n" for i
  proof -
    have "(i + 1) * RecordSize \<le> n * RecordSize" using that by (intro mult_le_mono1) simp
    then show ?thesis using assms by simp
  qed
  then show "\<forall>r \<in> set (recordsOf buf). wfRec r" by (simp add: recordsOf_def n wfRec_def)
qed

lemma chunk_records:
  assumes "length buf = n * RecordSize" and "\<forall>i \<in> set [0..<length buf div RecordSize]. \<not> badRecord p buf i"
  shows "\<forall>r \<in> set (recordsOf buf). wfRec r \<and> countOf r \<noteq> 0 \<and> pre r = p"
    and "sorted_wrt (<) (map keyOf (recordsOf buf))"
proof -
  let ?rs = "recordsOf buf"
  note R = recordsOf_facts [OF assms(1)]
  have n: "length buf div RecordSize = n" using assms(1) by (simp add: RecordSize_def)
  have at: "recKey buf i = keyOf (?rs ! i)" "recCount buf i = countOf (?rs ! i)" if "i < n" for i
    using rec_at [OF R(3)] that R(1,2) by simp_all
  have good: "pre (?rs ! i) = p \<and> countOf (?rs ! i) \<noteq> 0 \<and> (i > 0 \<longrightarrow> keyOf (?rs ! (i - 1)) < keyOf (?rs ! i))"
    if "i < n" for i
  proof -
    have "\<not> badRecord p buf i" using assms(2) that n by simp
    moreover have "recKey buf (i - 1) = keyOf (?rs ! (i - 1))" using that by (intro at) simp
    ultimately show ?thesis by (simp only: badRecord_def at [OF that] not_le de_Morgan_disj de_Morgan_conj) auto
  qed
  then show "\<forall>r \<in> set ?rs. wfRec r \<and> countOf r \<noteq> 0 \<and> pre r = p"
    using R(2,3) by (auto simp: in_set_conv_nth)
  have "successively (<) (map keyOf ?rs)"
    using good R(2) by (fastforce simp: successively_conv_nth)
  then show "sorted_wrt (<) (map keyOf ?rs)" by (simp add: successively_conv_sorted_wrt)
qed

lemma verifyRanges_Inr:
  assumes "verifyRanges s ctx ps acc = Inr out"
    and "\<And>p. chunk p = slice (HeaderSize + unat (offset (sIndex s) p) * RecordSize)
      (HeaderSize + unat (offset (sIndex s) p) * RecordSize + sz p) (sData s)"
    and "\<And>p. sz p = unat ((offset (sIndex s) (p + 1) - offset (sIndex s) p) * word_of_nat RecordSize)"
  shows "out = acc @ concat (map chunk ps) \<and> (\<forall>p \<in> set ps. length (chunk p) = sz p
    \<and> (sz p > 0 \<longrightarrow> sha256 (chunk p) = rangeDigest (sIndex s) p)
    \<and> (\<forall>i \<in> set [0..<length (chunk p) div RecordSize]. \<not> badRecord p (chunk p) i))"
  using assms(1)
proof (induction ps arbitrary: acc)
  case Nil
  then show ?case by simp
next
  case (Cons p ps)
  show ?case
  proof (cases "sz p = 0")
    case True
    then have "chunk p = []" by (simp add: assms(2) slice_def)
    moreover have "verifyRanges s ctx ps acc = Inr out"
      using Cons.prems True by (auto simp: res_simps Let_def assms(3))
    ultimately show ?thesis using Cons.IH True by simp
  next
    case False
    have read: "readAt (sData s) (HeaderSize + unat (offset (sIndex s) p) * RecordSize) (sz p) = Inr (chunk p)"
      and rest: "sha256 (chunk p) = rangeDigest (sIndex s) p" "verifyRanges s ctx ps (acc @ chunk p) = Inr out"
        "\<forall>i \<in> set [0..<length (chunk p) div RecordSize]. \<not> badRecord p (chunk p) i"
      using Cons.prems False
      by (auto simp: res_simps Let_def readAt_def assms(2,3) split: if_splits)
    have "length (chunk p) = sz p" by (rule length_readAt [OF read])
    then show ?thesis using Cons.IH [OF rest(2)] rest by simp
  qed
qed

lemma classes:
  assumes "\<And>p r. p < n \<Longrightarrow> r \<in> set (rs p) \<Longrightarrow> pre r = p"
  shows "recsAt (concat (map rs [0..<n])) q = (if q < n then rs q else [])"
    and "q \<le> n \<Longrightarrow> below (concat (map rs [0..<n])) q = concat (map rs [0..<q])"
    and "sorted (map pre (concat (map rs [0..<n])))"
proof -
  have 1: "(\<forall>q. recsAt (concat (map rs [0..<n])) q = (if q < n then rs q else []))
    \<and> sorted (map pre (concat (map rs [0..<n]))) \<and> (\<forall>r \<in> set (concat (map rs [0..<n])). pre r < n)"
    using assms
  proof (induction n)
    case 0
    then show ?case by (simp add: recsAt_def)
  next
    case (Suc n)
    have n: "\<forall>r \<in> set (rs n). pre r = n" using Suc.prems by auto
    then have "sorted (map pre (rs n))" by (simp add: sorted_wrt_map sorted_wrt_iff_nth_less)
    moreover define xs where "xs = concat (map rs [0..<n])"
    moreover have "\<forall>q. recsAt xs q = (if q < n then rs q else [])" "sorted (map pre xs)" "\<forall>r \<in> set xs. pre r < n"
      using Suc unfolding xs_def by auto
    moreover have "concat (map rs [0..<Suc n]) = xs @ rs n" by (simp add: xs_def)
    ultimately show ?case
      using n by (auto simp del: set_concat simp: recsAt_append recsAt_group [OF n] sorted_append less_Suc_eq less_imp_le)
  qed
  then show "recsAt (concat (map rs [0..<n])) q = (if q < n then rs q else [])"
    and sorted: "sorted (map pre (concat (map rs [0..<n])))" by blast+
  show "below (concat (map rs [0..<n])) q = concat (map rs [0..<q])" if "q \<le> n"
  proof -
    have "map (recsAt (concat (map rs [0..<n]))) [0..<q] = map rs [0..<q]"
      using 1 that by (intro map_cong) auto
    then show ?thesis using records_by_prefix [OF sorted, of q] by (simp only:)
  qed
qed

lemma checkRanges_max:
  assumes "checkRanges idx n ps 0 = Inr l"
  shows "unat l = Max (insert 0 ((\<lambda>p. unat ((offset idx (p + 1) - offset idx p) * word_of_nat RecordSize)) ` set ps))"
proof -
  have "l = fold (\<lambda>p l. max l ((offset idx (p + 1) - offset idx p) * word_of_nat RecordSize)) ps 0"
    using checkRanges_complete [of ps idx n 0] checkRanges_sound [OF assms] assms by simp
  then show ?thesis using fold_max_eq [of _ ps 0] by simp
qed

lemma concat_concat: "concat (concat xss) = concat (map concat xss)"
  by (induction xss) simp_all

text \<open>What a successful load says of the files.\<close>

lemma loadFiles_Inr:
  assumes "loadFiles ctx ident m idx data = Inr s"
  shows "s = \<lparr>sClosed = False, sData = data, sIndex = idx, sManifest = m\<rparr>" and "checkIndex idx m = None"
    and "int (length data) = mDataSize m" and "take HeaderSize data = header dataMagic ident (mRecordCount m)"
    and "encodeToString (sha256 idx) = mIndexSHA256 m" and "HeaderSize \<le> length data"
  using assms
  by (auto simp: loadFiles_def res_simps checkHeader_def readAt_def split: option.splits if_splits)

text \<open>The abstraction function: the records of the ranges that the index describes.\<close>

definition rangeStart :: "bytes \<Rightarrow> nat \<Rightarrow> nat" where
  "rangeStart idx p = HeaderSize + unat (offset idx p) * RecordSize"

definition rangeSize :: "bytes \<Rightarrow> nat \<Rightarrow> nat" where
  "rangeSize idx p = unat ((offset idx (p + 1) - offset idx p) * word_of_nat RecordSize)"

definition chunkAt :: "bytes \<Rightarrow> bytes \<Rightarrow> nat \<Rightarrow> bytes" where
  "chunkAt idx data p = slice (rangeStart idx p) (rangeStart idx p + rangeSize idx p) data"

definition storedRecords :: "bytes \<Rightarrow> bytes \<Rightarrow> bytes list" where
  "storedRecords idx data = concat (map (\<lambda>p. recordsOf (chunkAt idx data p)) [0..<PrefixCount])"

lemma range_geometry:
  assumes "checkIndex idx m = None" and cap: "unat (mRecordCount m) \<le> maxRecords" and "p < PrefixCount"
  shows "unat (offset idx p) \<le> unat (offset idx (p + 1))"
    and "rangeSize idx p = (unat (offset idx (p + 1)) - unat (offset idx p)) * RecordSize"
    and "unat (offset idx (p + 1)) - unat (offset idx p) \<le> rangeCap"
    and "rangeStart idx p + rangeSize idx p = rangeStart idx (p + 1)"
    and "rangeStart idx (p + 1) \<le> HeaderSize + unat (mRecordCount m) * RecordSize"
proof -
  note R = checkIndex_range [OF assms]
  show le: "unat (offset idx p) \<le> unat (offset idx (p + 1))" by (rule R(1))
  then show size: "rangeSize idx p = (unat (offset idx (p + 1)) - unat (offset idx p)) * RecordSize"
    unfolding rangeSize_def using R(2) cap by (intro range_no_wrap) (simp_all only: word_le_nat_alt)
  show "unat (offset idx (p + 1)) - unat (offset idx p) \<le> rangeCap"
    using R(3) unfolding rangeCap_def by (simp add: RecordSize_def less_eq_div_iff_mult_less_eq)
  show "rangeStart idx p + rangeSize idx p = rangeStart idx (p + 1)"
    using le by (simp only: rangeStart_def size add.assoc flip: add_mult_distrib)
      (simp only: le_add_diff_inverse)
  show "rangeStart idx (p + 1) \<le> HeaderSize + unat (mRecordCount m) * RecordSize"
    using R(2) unfolding rangeStart_def by (intro add_left_mono mult_le_mono1)
qed

lemma range_tiles:
  assumes idx: "checkIndex idx m = None" and cap: "unat (mRecordCount m) \<le> maxRecords"
    and len: "length data = HeaderSize + unat (mRecordCount m) * RecordSize"
  shows "concat (map (chunkAt idx data) [0..<PrefixCount]) = drop HeaderSize data"
proof -
  note C = checkIndex_None [OF idx]
  have ends: "rangeStart idx 0 = HeaderSize" "rangeStart idx PrefixCount = length data"
    using C(2,3) len by (simp_all add: rangeStart_def)
  have step: "rangeStart idx p \<le> rangeStart idx (p + 1)" if "p < PrefixCount" for p
    using range_geometry(4) [OF idx cap that] by (metis le_add1)
  have "map (chunkAt idx data) [0..<PrefixCount]
      = map (\<lambda>p. slice (rangeStart idx p) (rangeStart idx (p + 1)) data) [0..<PrefixCount]"
    using range_geometry(4) [OF idx cap]
    by (intro map_cong) (simp_all only: chunkAt_def set_upt atLeastLessThan_iff)
  then show ?thesis
    using slice_tiling [of PrefixCount "rangeStart idx" data] step by (simp only: ends) (simp add: slice_def)
qed

text \<open>One range that the scrub has accepted.\<close>

definition acceptedChunk :: "bytes \<Rightarrow> bytes \<Rightarrow> nat \<Rightarrow> bool" where
  "acceptedChunk idx data p \<longleftrightarrow>
     length (chunkAt idx data p) = rangeSize idx p
     \<and> (rangeSize idx p > 0 \<longrightarrow> sha256 (chunkAt idx data p) = rangeDigest idx p)
     \<and> (\<forall>i \<in> set [0..<length (chunkAt idx data p) div RecordSize]. \<not> badRecord p (chunkAt idx data p) i)"

lemma accepted_range:
  assumes idx: "checkIndex idx m = None" and cap: "unat (mRecordCount m) \<le> maxRecords" and p: "p < PrefixCount"
    and accepted: "acceptedChunk idx data p"
  shows "\<forall>r \<in> set (recordsOf (chunkAt idx data p)). wfRec r \<and> countOf r \<noteq> 0 \<and> pre r = p"
    and "sorted_wrt (<) (map keyOf (recordsOf (chunkAt idx data p)))"
    and "concat (recordsOf (chunkAt idx data p)) = chunkAt idx data p"
    and "length (recordsOf (chunkAt idx data p)) = unat (offset idx (p + 1)) - unat (offset idx p)"
    and "rangeDigest idx p = sha256 (chunkAt idx data p)"
proof -
  have ok: "length (chunkAt idx data p) = rangeSize idx p"
    "rangeSize idx p > 0 \<longrightarrow> sha256 (chunkAt idx data p) = rangeDigest idx p"
    "\<forall>i \<in> set [0..<length (chunkAt idx data p) div RecordSize]. \<not> badRecord p (chunkAt idx data p) i"
    using accepted unfolding acceptedChunk_def by blast+
  note len = ok(1) [unfolded range_geometry(2) [OF idx cap p]]
  show "\<forall>r \<in> set (recordsOf (chunkAt idx data p)). wfRec r \<and> countOf r \<noteq> 0 \<and> pre r = p"
    "sorted_wrt (<) (map keyOf (recordsOf (chunkAt idx data p)))"
    by (rule chunk_records [OF len ok(3)])+
  show "concat (recordsOf (chunkAt idx data p)) = chunkAt idx data p"
    "length (recordsOf (chunkAt idx data p)) = unat (offset idx (p + 1)) - unat (offset idx p)"
    by (rule recordsOf_facts [OF len])+
  show "rangeDigest idx p = sha256 (chunkAt idx data p)"
  proof (cases "rangeSize idx p = 0")
    case True
    then have "chunkAt idx data p = []" by (simp add: chunkAt_def slice_def)
    moreover have "(offset idx (p + 1) - offset idx p) * word_of_nat RecordSize = 0"
      using True by (simp only: rangeSize_def unat_eq_0)
    then have "rangeDigest idx p = emptyDigest"
      using p by (intro checkRanges_sound(4) [OF checkIndex_None(5) [OF idx]]) simp_all
    ultimately show ?thesis by (simp only: emptyDigest_def)
  next
    case False
    then show ?thesis using ok(2) by simp
  qed
qed

lemma scrub_ranges:
  assumes "verifyContents s ctx = Inr ()"
  shows "encodeToString (sha256 (header dataMagic (mDatasetID (sManifest s)) (mRecordCount (sManifest s))
      @ concat (map (chunkAt (sIndex s) (sData s)) [0..<PrefixCount]))) = mDataSHA256 (sManifest s)"
    and "\<forall>p < PrefixCount. acceptedChunk (sIndex s) (sData s) p"
proof -
  obtain out where out: "verifyRanges s ctx [0..<PrefixCount]
      (header dataMagic (mDatasetID (sManifest s)) (mRecordCount (sManifest s))) = Inr out"
    and sha: "encodeToString (sha256 out) = mDataSHA256 (sManifest s)"
    using assms by (auto simp: verifyContents_def res_simps)
  note V = verifyRanges_Inr [OF out, of "chunkAt (sIndex s) (sData s)" "rangeSize (sIndex s)",
      unfolded chunkAt_def rangeStart_def rangeSize_def, OF refl refl,
      folded rangeStart_def rangeSize_def, folded chunkAt_def]
  show "encodeToString (sha256 (header dataMagic (mDatasetID (sManifest s)) (mRecordCount (sManifest s))
      @ concat (map (chunkAt (sIndex s) (sData s)) [0..<PrefixCount]))) = mDataSHA256 (sManifest s)"
    using V sha by (simp only: simp_thms)
  show "\<forall>p < PrefixCount. acceptedChunk (sIndex s) (sData s) p"
  proof (intro allI impI)
    fix p assume "p < PrefixCount"
    then show "acceptedChunk (sIndex s) (sData s) p"
      using V [THEN conjunct2, THEN bspec, of p] by (simp only: acceptedChunk_def) simp
  qed
qed

text \<open>The records of an accepted database, range by range.\<close>

lemma stored_ranges:
  assumes idx: "checkIndex idx m = None" and cap: "unat (mRecordCount m) \<le> maxRecords"
    and ok: "\<forall>p < PrefixCount. acceptedChunk idx data p"
  defines "F \<equiv> storedRecords idx data"
  shows "flushedOK F" and "p < PrefixCount \<Longrightarrow> recsAt F p = recordsOf (chunkAt idx data p)"
    and "p \<le> PrefixCount \<Longrightarrow> length (below F p) = unat (offset idx p)"
    and "concat F = concat (map (chunkAt idx data) [0..<PrefixCount])"
proof -
  let ?rs = "\<lambda>p. recordsOf (chunkAt idx data p)"
  note A = accepted_range [OF idx cap _ ok [rule_format]]
  have "pre r = p" if "p < PrefixCount" "r \<in> set (?rs p)" for p r
    using A(1) [OF that(1) that(1)] that(2) by blast
  note K = classes [of PrefixCount ?rs, OF this, folded storedRecords_def, folded F_def]
  show recs: "recsAt F p = ?rs p" if "p < PrefixCount" for p using K(1) [of p] that by simp
  have "recsAt F p = []" if "\<not> p < PrefixCount" for p using K(1) [of p] that by simp
  then have "length (recsAt F p) \<le> rangeCap \<and> sorted_wrt (<) (map keyOf (recsAt F p))" for p
    using recs A(2,4) range_geometry(3) [OF idx cap] by (cases "p < PrefixCount") simp_all
  moreover have "\<forall>r \<in> set F. wfRec r \<and> countOf r \<noteq> 0"
    using A(1) by (auto simp: F_def storedRecords_def)
  ultimately show "flushedOK F" using K(3) by (simp add: flushedOK_def)
  show "length (below F p) = unat (offset idx p)" if "p \<le> PrefixCount" for p
    using that
  proof (induction p)
    case 0
    then show ?case using checkIndex_None(2) [OF idx] by (simp add: below_def)
  next
    case (Suc p)
    then have p: "p < PrefixCount" by simp
    then show ?case
      using Suc below_recsAt(2) [OF K(3), of p] recs [OF p] A(4) [OF p p] range_geometry(1) [OF idx cap p] by simp
  qed
  have "concat F = concat (map (\<lambda>p. concat (?rs p)) [0..<PrefixCount])"
    by (simp add: F_def storedRecords_def concat_concat comp_def)
  also have "map (\<lambda>p. concat (?rs p)) [0..<PrefixCount] = map (chunkAt idx data) [0..<PrefixCount]"
    using A(3) by (intro map_cong) auto
  finally show "concat F = concat (map (chunkAt idx data) [0..<PrefixCount])" .
qed

lemma verified_represents:
  assumes load: "loadFiles ctx ident m idx data = Inr s" and ident: "ident = mDatasetID m"
    and size: "dataSize (mRecordCount m) = Inr (mDataSize m)"
    and ok: "verifyContents s ctx' = Inr ()"
  shows "represents (storedRecords idx data) \<lparr>gData = data, gIndex = idx, gManifest = m\<rparr>"
proof -
  let ?F = "storedRecords idx data"
  note L = loadFiles_Inr [OF load]
  note C = checkIndex_None [OF L(2)]
  have s: "sData s = data" "sIndex s = idx" "sManifest s = m" by (simp_all add: L(1))
  have cap: "unat (mRecordCount m) \<le> maxRecords" and "mDataSize m = int (HeaderSize + unat (mRecordCount m) * RecordSize)"
    using size unfolding dataSize_Inr by blast+
  then have dsize: "length data = HeaderSize + unat (mRecordCount m) * RecordSize"
    using L(3) by (simp only: of_nat_eq_iff)
  note V = scrub_ranges [OF ok, unfolded s]
  note S = stored_ranges [OF L(2) cap V(2)]
  note G = range_geometry [OF L(2) cap]
  note tiles = range_tiles [OF L(2) cap dsize]
  note A = accepted_range [OF L(2) cap _ V(2) [rule_format]]
  have hdr: "header dataMagic ident (mRecordCount m) @ drop HeaderSize data = data"
    using L(4) append_take_drop_id [of HeaderSize data] by simp
  have "length ?F = unat (mRecordCount m)"
    using S(3) [of PrefixCount] flushedOK_length(4) [OF S(1)] C(3) by simp
  then have count: "word_of_nat (length ?F) = mRecordCount m" by simp
  have "rangeBytes ?F ` {..<PrefixCount} = rangeSize idx ` {..<PrefixCount}"
    using S(2) A(4) G(2) by (intro image_cong) (auto simp: rangeBytes_def)
  then have large: "unat (mMaxRangeBytes m) = Max (insert 0 (rangeBytes ?F ` {..<PrefixCount}))"
    using checkRanges_max [OF C(5)] by (simp add: rangeSize_def lessThan_atLeast0)
  have digests: "rangeDigest idx p = sha256 (concat (recsAt ?F p))" if "p < PrefixCount" for p
    using A(3,5) S(2) that by simp
  have "offset idx p = word_of_nat (length (below ?F p))" if "p \<le> PrefixCount" for p
    by (simp add: S(3) [OF that])
  moreover have "encodeToString (sha256 data) = mDataSHA256 m"
    using V(1) hdr by (simp only: tiles ident)
  moreover have "data = header dataMagic ident (mRecordCount m) @ concat ?F"
    using hdr by (simp only: S(4) tiles)
  ultimately show ?thesis
    using S(1) C(1,4) digests count large L(3,5) ident by (simp add: represents_def Let_def)
qed

lemma represents_size:
  assumes "represents F g"
  shows "dataSize (mRecordCount (gManifest g)) = Inr (mDataSize (gManifest g))"
proof -
  note r = assms [unfolded represents_def Let_def]
  have ok: "flushedOK F" using r by simp
  show ?thesis
    using r flushedOK_length(2) [OF ok] unat_of_length [OF ok, of "length F"] length_flushed [OF ok]
    by (simp only: dataSize_Inr) simp
qed

lemma searchRange_result: "(\<exists>n. searchRange buf key = Inr n) \<or> searchRange buf key = Inl (problem ''corrupt_range'')"
  by (simp add: searchRange_def Let_def failIf_def)

lemma Lookup_in_bounds:
  assumes s: "s = \<lparr>sClosed = False, sData = data, sIndex = idx, sManifest = m\<rparr>"
    and len: "int (length data) = mDataSize m"
    and fits: "rangeStart idx (keyPrefix key) + rangeSize idx (keyPrefix key) \<le> length data"
  shows "Lookup s background key =
    (let buf = chunkAt idx data (keyPrefix key) in
     sanitize (failIf (sha256 buf \<noteq> rangeDigest idx (keyPrefix key)) (problem ''corrupt_range'') (searchRange buf key)))"
proof -
  have "(if rangeSize idx (keyPrefix key) > 0
      then readAt data (rangeStart idx (keyPrefix key)) (rangeSize idx (keyPrefix key)) else Inr [])
      = Inr (chunkAt idx data (keyPrefix key))"
    using fits by (simp add: readAt_def chunkAt_def slice_def)
  then show ?thesis
    unfolding Lookup_def s Let_def
    by (cases "rangeSize idx (keyPrefix key) = 0")
       (simp_all add: len flip: rangeStart_def rangeSize_def [of idx "keyPrefix key", simplified])
qed

lemma demo_represents:
  "\<exists>F g. represents F g \<and> mset F = {#demoRec#} \<and> countIn F demoKey = 5"
proof -
  obtain g where "Import background background background demoOpt demoLine (2 ^ 40) demoRandom [] = Inr g"
    using demo_Import by blast
  from Import_represents [OF this] obtain F where F: "represents F g" "mset F = {#demoRec#}"
    by (auto simp: demo_records)
  then have "F = [demoRec]" by simp
  then have "countIn F demoKey = 5" by (simp add: countIn_def demoRec_def demoKey_def)
  with F show ?thesis by blast
qed

section \<open>Properties\<close>

text \<open>C1: the database built from a corpus answers every lookup with the count of the corpus: after
  an import succeeds, the stored files load, and looking any key up in the loaded snapshot returns
  the count that the accepted lines give that key, or 0 for a key that is in none of them.\<close>

theorem import_then_lookup:
  assumes "Import ctx ctxLoad ctxScrub opt inp free random now = Inr g"
    and "ctx' 0 = None" and "ctx' 1 = None"
  shows "\<exists>s. loadFiles background (encodeToString random) (gManifest g) (gIndex g) (gData g) = Inr s
    \<and> Lookup s ctx' key = Inr (countIn (inputRecords inp) key)"
proof -
  obtain F where F: "represents F g" "mset F = mset (inputRecords inp)"
    "mDatasetID (gManifest g) = encodeToString random"
    using Import_represents [OF assms(1)] by blast
  have "countIn F key = countIn (inputRecords inp) key"
    using countIn_cong [OF F(2)] represents_distinct [OF F(1)] by blast
  then show ?thesis
    using loadFiles_represents [OF F(1), of background] Lookup_represents [OF F(1) assms(2,3)] F(3)
    by (simp add: background_def)
qed

theorem import_then_lookup_witness:
  "\<exists>s. Lookup s background demoKey = Inr 5"
proof -
  obtain g where "Import background background background demoOpt demoLine (2 ^ 40) demoRandom [] = Inr g"
    using demo_Import by blast
  from import_then_lookup [OF this, of background demoKey]
  obtain s where "Lookup s background demoKey = Inr (countIn [demoRec] demoKey)"
    by (auto simp: background_def demo_records)
  moreover have "countIn [demoRec] demoKey = 5" by (simp add: countIn_def demoRec_def demoKey_def)
  ultimately show ?thesis by auto
qed


text \<open>The independent scrub of \<open>Import\<close> never rejects what the build wrote: when the evidence and
  the space check pass, every line is accepted and the build finishes, the reload and the full scrub
  of the encoded files succeed (on a context that is not cancelled), so the import returns that
  generation.\<close>

theorem import_scrub_passes:
  assumes "importChecks opt inp free = Inr ()"
    and "importLoop ctx 0 (newBuilder (encodeToString random)) inp = Inr b"
    and "finishBuild opt inp (encodeToString random) now b = Inr g"
    and "ctxLoad 0 = None" and "\<forall>k \<le> PrefixCount. ctxScrub k = None"
  shows "Import ctx ctxLoad ctxScrub opt inp free random now = Inr g"
  using assms by (rule Import_complete)

theorem import_scrub_passes_witness:
  "\<exists>g. Import background background background demoOpt demoLine (2 ^ 40) demoRandom [] = Inr g"
proof -
  obtain b g where "importLoop background 0 (newBuilder (encodeToString demoRandom)) demoLine = Inr b"
    "finishBuild demoOpt demoLine (encodeToString demoRandom) [] b = Inr g"
    using demo_build by blast
  from import_scrub_passes [OF demo_checks this, of background background] show ?thesis
    by (auto simp: background_def)
qed

text \<open>C4: a changed data file never changes an answer silently: when a lookup over a represented index
  and any other data file of any content returns a count, that count is the right one, or the
  range read from that file is a different text with the same SHA-256 digest as the original range.\<close>

theorem tampered_data_detected:
  assumes "represents F g"
    and "Lookup ((snapshotOf g)\<lparr>sData := data'\<rparr>) ctx key = Inr n"
  shows "n = countIn F key \<or> (\<exists>a b. slice a b data' \<noteq> concat (recsAt F (keyPrefix key))
    \<and> sha256 (slice a b data') = sha256 (concat (recsAt F (keyPrefix key))))"
proof -
  let ?p = "keyPrefix key"
  note R = range_of [OF assms(1) prefix_bound [of key]]
  let ?a = "HeaderSize + unat (offset (gIndex g) ?p) * RecordSize"
  have fields: "sData ((snapshotOf g)\<lparr>sData := data'\<rparr>) = data'"
    "sIndex ((snapshotOf g)\<lparr>sData := data'\<rparr>) = gIndex g" by (simp_all add: snapshotOf_def)
  obtain buf where buf: "(if rangeBytes F ?p > 0 then readAt data' ?a (rangeBytes F ?p) else Inr []) = Inr buf"
    and sha: "sha256 buf = sha256 (concat (recsAt F ?p))" and n: "searchRange buf key = Inr n"
    using assms(2) by (simp only: Lookup_def fields Let_def R(3,5) sanitize_eq_Inr res_simps) auto
  have sl: "\<exists>a b. buf = slice a b data'"
  proof (cases "rangeBytes F ?p > 0")
    case True
    then show ?thesis using buf by (auto simp: readAt_def split: if_splits)
  next
    case False
    then have "buf = slice 0 0 data'" using buf by simp
    then show ?thesis by blast
  qed
  show ?thesis
  proof (cases "buf = concat (recsAt F ?p)")
    case True
    then have "n = countIn F key"
      using n searchRange_map_of [OF represents_wf [OF assms(1)]] countIn_recsAt [of F key]
      by (simp add: countIn_def)
    then show ?thesis ..
  next
    case False
    then show ?thesis using sha sl by metis
  qed
qed

theorem tampered_data_detected_witness:
  "\<exists>F g n. Lookup ((snapshotOf g)\<lparr>sData := gData g\<rparr>) background demoKey = Inr n \<and>
    (n = countIn F demoKey \<or> (\<exists>a b. slice a b (gData g) \<noteq> concat (recsAt F (keyPrefix demoKey))
    \<and> sha256 (slice a b (gData g)) = sha256 (concat (recsAt F (keyPrefix demoKey)))))"
proof -
  obtain F g where rep: "represents F g" using demo_represents by blast
  have "(snapshotOf g)\<lparr>sData := gData g\<rparr> = snapshotOf g" by (simp add: snapshotOf_def)
  then have l: "Lookup ((snapshotOf g)\<lparr>sData := gData g\<rparr>) background demoKey = Inr (countIn F demoKey)"
    using Lookup_represents [OF rep, of background] by (simp add: background_def)
  with tampered_data_detected [OF rep l] show ?thesis by blast
qed

text \<open>Once a generation is loaded and its manifest states the size its record count needs, a lookup
  of any key stays inside the data file: it returns a count or reports \<open>corrupt_range\<close>, and never
  reads past the end of the file, whatever bytes the index and the data hold.\<close>

theorem loaded_lookup_in_bounds:
  assumes "loadFiles ctx ident m idx data = Inr s" and "dataSize (mRecordCount m) = Inr (mDataSize m)"
  shows "(\<exists>n. Lookup s background key = Inr n) \<or> Lookup s background key = Inl (problem ''corrupt_range'')"
proof -
  note L = loadFiles_Inr [OF assms(1)]
  have "int (length data) = int (HeaderSize + unat (mRecordCount m) * RecordSize)" and cap: "unat (mRecordCount m) \<le> maxRecords"
    using assms(2) L(3) unfolding dataSize_Inr by simp_all
  then have len: "length data = HeaderSize + unat (mRecordCount m) * RecordSize" by (simp only: of_nat_eq_iff)
  note G = range_geometry(4,5) [OF L(2) cap prefix_bound [of key]]
  have "rangeStart idx (keyPrefix key) + rangeSize idx (keyPrefix key) \<le> length data"
    using G by (simp only: len)
  note eq = Lookup_in_bounds [OF L(1,3) this]
  show ?thesis
    using searchRange_result [of "chunkAt idx data (keyPrefix key)" key]
    by (auto simp: eq Let_def failIf_def problem_def)
qed

theorem loaded_lookup_in_bounds_witness:
  "\<exists>s :: snapshot. (\<exists>n. Lookup s background demoKey = Inr n) \<or> Lookup s background demoKey = Inl (problem ''corrupt_range'')"
proof -
  obtain F g where "represents F g" using demo_represents by blast
  from loaded_lookup_in_bounds [OF loadFiles_represents [OF this, of background] represents_size [OF this], of demoKey]
  show ?thesis by (auto simp: background_def)
qed

text \<open>C2: a database that passes the full scrub is a correct store: when the files load and
  \<open>verifyContents\<close> accepts them, the records that the index delimits have strictly increasing keys
  in every range, and a lookup of any key returns the count stored for it, or 0.\<close>

theorem scrubbed_store_correct:
  assumes "loadFiles ctx (mDatasetID m) m idx data = Inr s"
    and "dataSize (mRecordCount m) = Inr (mDataSize m)" and "verifyContents s ctx' = Inr ()"
  shows "distinct (map keyOf (storedRecords idx data))
    \<and> data = header dataMagic (mDatasetID m) (mRecordCount m) @ concat (storedRecords idx data)
    \<and> Lookup s background key = Inr (countIn (storedRecords idx data) key)"
proof -
  let ?g = "\<lparr>gData = data, gIndex = idx, gManifest = m\<rparr>"
  have rep: "represents (storedRecords idx data) ?g"
    by (rule verified_represents [OF assms(1) refl assms(2,3)])
  have "s = snapshotOf ?g" using loadFiles_Inr(1) [OF assms(1)] by (simp add: snapshotOf_def)
  then show ?thesis
    using represents_distinct [OF rep] Lookup_represents [OF rep, of background key] rep
    by (simp add: background_def represents_def Let_def)
qed

theorem scrubbed_store_correct_witness:
  "\<exists>idx data. distinct (map keyOf (storedRecords idx data)) \<and> length data = 156"
proof -
  obtain F g where rep: "represents F g" and F: "mset F = {#demoRec#}" using demo_represents by blast
  have "length F = 1" using arg_cong [OF F, of size] by simp
  moreover have "gData g = header dataMagic (mDatasetID (gManifest g)) (word_of_nat (length F)) @ concat F"
    "flushedOK F" using rep by (simp_all add: represents_def Let_def)
  ultimately have "length (gData g) = 156" using length_flushed [of F] by (simp add: size_defs)
  moreover have "loadFiles background (mDatasetID (gManifest g)) (gManifest g) (gIndex g) (gData g) = Inr (snapshotOf g)"
    "verifyContents (snapshotOf g) background = Inr ()"
    using loadFiles_represents [OF rep] verifyContents_represents [OF rep] by (simp_all add: background_def)
  ultimately show ?thesis using scrubbed_store_correct [OF _ represents_size [OF rep]] by blast
qed

text \<open>The count of a line is its exact decimal value: the digit loop returns the value when every
  byte is a digit and the value fits 64 bits, and reports \<open>invalid_count\<close> otherwise, so no input
  wraps around.\<close>

theorem parse_count_exact:
  "parseCount 0 cs = (if (\<forall>c \<in> set cs. isDigit c) \<and> decVal 0 cs < 2 ^ 64
     then Inr (word_of_nat (decVal 0 cs)) else Inl (problem ''invalid_count''))"
  using parseCount_from [of 0 cs] by simp

theorem parse_count_exact_witness: "parseCount 0 [0x31, 0x32] = Inr 12"
  using parse_count_exact [of "[0x31, 0x32]"] by (simp add: isDigit_def decVal_def)

text \<open>A canonical corpus line is read back: twenty key bytes in hexadecimal, a colon, one to twenty
  digits of a positive 64-bit count and a newline give the record of that key and count, with the
  key's prefix, provided the prefix does not go backwards.\<close>

theorem parse_line_roundtrip:
  assumes "length key = 20" and "\<forall>c \<in> set ds. isDigit c" and "1 \<le> length ds" and "length ds \<le> 20"
    and "0 < decVal 0 ds" and "decVal 0 ds < 2 ^ 64" and "previous \<le> int (keyPrefix key)"
  shows "parseLine (hexEncode key @ 0x3a # ds @ [10]) previous
    = Inr (key @ putBE 8 (word_of_nat (decVal 0 ds) :: u64), keyPrefix key)"
  using assms by (rule parseLine_decimal)

theorem parse_line_roundtrip_witness:
  "parseLine (hexEncode (replicate 20 0) @ 0x3a # [0x37] @ [10]) (- 1)
    = Inr (replicate 20 0 @ putBE 8 (7 :: u64), keyPrefix (replicate 20 0))"
  using parse_line_roundtrip [of "replicate 20 0" "[0x37]" "- 1"] by (simp add: isDigit_def decVal_def)

end
