(* ===== verification/PwActivation.thy ===== *)
theory PwActivation
  imports PwStore
begin

text \<open>
  Publishing a generation (\<open>src/internal/passworddb/activation.go\<close>, \<open>locks.go\<close>): the two control
  slots \<open>active-a\<close> and \<open>active-b\<close>, the selection of the newest valid slot, \<open>Open\<close>, \<open>Activate\<close>
  and \<open>Prune\<close>.  The slots are 4096-byte files with a trailing digest; a crash may leave any mixture
  of the old and the new bytes in the slot that was being written.
\<close>

section \<open>Files and locks\<close>

text \<open>What a path holds: \<open>openRegular\<close> and \<open>readBounded\<close> fail differently on each.\<close>

datatype entry = Missing | Regular bytes | NotRegular | Unreadable go_err

definition openRegular :: "entry \<Rightarrow> go_err + bytes" where
  "openRegular e = (case e of Missing \<Rightarrow> Inl ErrNotExist | NotRegular \<Rightarrow> Inl (problem ''invalid_file'')
     | Unreadable err \<Rightarrow> Inl err | Regular b \<Rightarrow> Inr b)"

definition readBounded :: "ctx \<Rightarrow> nat \<Rightarrow> entry \<Rightarrow> nat \<Rightarrow> go_err + bytes" where
  "readBounded ctx k e limit = andThen (openRegular e) (\<lambda>b.
     failIf (length b > limit) (problem ''invalid_file_size'') (checkCtx ctx k (Inr b)))"

text \<open>An advisory lock: how many readers hold it, and whether a writer does.\<close>

record lockState =
  lkReaders :: nat
  lkWriter :: bool

definition tryLock :: "lockState \<Rightarrow> bool \<Rightarrow> lockState option" where
  "tryLock l exclusive =
     (if exclusive then (if lkReaders l = 0 \<and> \<not> lkWriter l then Some (l\<lparr>lkWriter := True\<rparr>) else None)
      else if \<not> lkWriter l then Some (l\<lparr>lkReaders := lkReaders l + 1\<rparr>) else None)"

text \<open>
  \<open>lock\<close>: the polling loop over the states the lock file is observed in.  The last observed state
  of an unbounded wait is followed by the context that ends it.
\<close>

fun lock :: "ctx \<Rightarrow> nat \<Rightarrow> lockState list \<Rightarrow> bool \<Rightarrow> bool \<Rightarrow> ctx_err \<Rightarrow> go_err + lockState" where
  "lock ctx k [] exclusive wait timeout = Inl (CtxError timeout)"
| "lock ctx k (l # ls) exclusive wait timeout = checkCtx ctx k
     (case tryLock l exclusive of Some l' \<Rightarrow> Inr l'
      | None \<Rightarrow> if wait then lock ctx (k + 1) ls exclusive wait timeout else Inl (problem ''busy''))"

section \<open>Slots\<close>

definition slotSize :: nat where "slotSize = 4096"
definition slotMagic :: string where "slotMagic = ''ASPWNACT''"

record activation =
  aSequence :: u64
  aId :: string
  aManifest :: bytes

definition encodeSlot :: "activation \<Rightarrow> bytes" where
  "encodeSlot a =
     (let b = replicate slotSize 0;
          b = copySlice 0 8 (bytesOf slotMagic) b;
          b = copySlice 8 12 (putBE 4 formatVersion) b;
          b = copySlice 16 24 (putBE 8 (aSequence a)) b;
          b = copySlice 24 40 (fst (decodeString (aId a))) b;
          b = copySlice 40 72 (aManifest a) b;
          sum = sha256 (take (slotSize - 32) b)
      in copySlice (slotSize - 32) slotSize sum b)"

text \<open>\<open>Inr None\<close> is the code's \<open>false\<close>: not a valid slot.\<close>

definition decodeSlot :: "bytes \<Rightarrow> go_err + activation option" where
  "decodeSlot b =
     (if length b \<noteq> slotSize then Inr None
      else if sha256 (take (slotSize - 32) b) \<noteq> drop (slotSize - 32) b \<or> strOf (take 8 b) \<noteq> slotMagic then Inr None
      else if (getBE (slice 8 12 b) :: u32) \<noteq> formatVersion then Inl (problem ''unsupported_activation'')
      else
        let a = \<lparr>aSequence = getBE (slice 16 24 b), aId = encodeToString (slice 24 40 b), aManifest = slice 40 72 b\<rparr>
        in if aSequence a = 0 \<or> b \<noteq> encodeSlot a then Inr None else Inr (Some a))"

text \<open>A value that \<open>Activate\<close> writes: its identifier and its manifest digest have their sizes.\<close>

definition validActivation :: "activation \<Rightarrow> bool" where
  "validActivation a \<longleftrightarrow> aSequence a \<noteq> 0 \<and> validID (aId a) \<and> length (aManifest a) = 32"

lemma length_encodeSlot [simp]: "length (encodeSlot a) = slotSize"
  by (simp add: encodeSlot_def Let_def slotSize_def)

text \<open>The fields of an encoded slot.\<close>

lemma encodeSlot_fields:
  assumes "validID (aId a)" and "length (aManifest a) = 32"
  shows "take 8 (encodeSlot a) = bytesOf slotMagic" and "slice 8 12 (encodeSlot a) = putBE 4 formatVersion"
    and "slice 16 24 (encodeSlot a) = putBE 8 (aSequence a)"
    and "encodeToString (slice 24 40 (encodeSlot a)) = aId a" and "slice 40 72 (encodeSlot a) = aManifest a"
    and "sha256 (take (slotSize - 32) (encodeSlot a)) = drop (slotSize - 32) (encodeSlot a)"
proof -
  obtain raw where raw: "length raw = 16" "aId a = encodeToString raw"
    using validID_obtain [OF assms(1)] by blast
  have magic: "length (bytesOf slotMagic) = 8" by (simp add: slotMagic_def)
  show "take 8 (encodeSlot a) = bytesOf slotMagic"
    using slice_0 [of 8 "encodeSlot a"] raw assms(2) magic
    by (simp add: encodeSlot_def Let_def slotSize_def buf_simps del: slice_0)
  show "slice 8 12 (encodeSlot a) = putBE 4 formatVersion"
    "slice 16 24 (encodeSlot a) = putBE 8 (aSequence a)" "slice 40 72 (encodeSlot a) = aManifest a"
    "encodeToString (slice 24 40 (encodeSlot a)) = aId a"
    using raw assms(2) magic by (simp_all add: encodeSlot_def Let_def slotSize_def buf_simps)
  show "sha256 (take (slotSize - 32) (encodeSlot a)) = drop (slotSize - 32) (encodeSlot a)"
    by (simp add: encodeSlot_def Let_def slotSize_def copySlice_exact [of 4096])
qed

lemma decodeSlot_encodeSlot:
  assumes "validActivation a"
  shows "decodeSlot (encodeSlot a) = Inr (Some a)"
proof -
  have a: "aSequence a \<noteq> 0" "validID (aId a)" "length (aManifest a) = 32"
    using assms by (simp_all add: validActivation_def)
  note F = encodeSlot_fields [OF a(2,3)]
  have "\<lparr>aSequence = getBE (slice 16 24 (encodeSlot a)), aId = encodeToString (slice 24 40 (encodeSlot a)),
      aManifest = slice 40 72 (encodeSlot a)\<rparr> = a" by (simp add: F)
  then show ?thesis using a(1) F(1,2,6) by (simp add: decodeSlot_def Let_def)
qed

lemma decodeSlot_Some:
  assumes "decodeSlot b = Inr (Some a)"
  shows "b = encodeSlot a" and "validActivation a" and "length b = slotSize"
proof -
  have eq: "a = \<lparr>aSequence = getBE (slice 16 24 b), aId = encodeToString (slice 24 40 b), aManifest = slice 40 72 b\<rparr>"
    and len: "length b = slotSize" and seq: "aSequence a \<noteq> 0" and b: "b = encodeSlot a"
    using assms by (auto simp only: decodeSlot_def Let_def sum.inject option.inject option.distinct sum.distinct split: if_splits)
  show "b = encodeSlot a" "length b = slotSize" using len b by simp_all
  have "validID (aId a)" "length (aManifest a) = 32" by (simp_all add: eq len slotSize_def)
  with seq show "validActivation a" by (simp add: validActivation_def)
qed

text \<open>What a slot file holds, or nothing, is settled by its digest.\<close>

lemma decodeSlot_bad_digest:
  "sha256 (take (slotSize - 32) b) \<noteq> drop (slotSize - 32) b \<Longrightarrow> decodeSlot b = Inr None"
  by (simp add: decodeSlot_def)

section \<open>Selection\<close>

text \<open>
  The slots by position; \<open>valid[i]\<close> is \<open>selSlots ! i \<noteq> None\<close>, and \<open>best = -1\<close> is \<open>None\<close>.
\<close>

record selection =
  selSlots :: "activation option list"
  selBest :: "nat option"
  selRecovered :: bool

definition noSelection :: selection where
  "noSelection = \<lparr>selSlots = [None, None], selBest = None, selRecovered = False\<rparr>"

definition seqAt :: "selection \<Rightarrow> nat \<Rightarrow> u64" where
  "seqAt sel i = (case selSlots sel ! i of Some a \<Rightarrow> aSequence a | None \<Rightarrow> 0)"

definition chooseBest :: "selection \<Rightarrow> nat \<Rightarrow> activation \<Rightarrow> nat option" where
  "chooseBest sel i a =
     (case selBest sel of None \<Rightarrow> Some i | Some b \<Rightarrow> if aSequence a > seqAt sel b then Some i else Some b)"

definition readSlot :: "ctx \<Rightarrow> nat \<Rightarrow> entry \<Rightarrow> selection \<Rightarrow> go_err + selection" where
  "readSlot ctx i e sel =
     (case readBounded ctx i e slotSize of
        Inl err \<Rightarrow>
          if err = ErrNotExist then Inr sel
          else (case err of OwnError kind cause \<Rightarrow>
              if kind = ''invalid_file_size'' then Inr (sel\<lparr>selRecovered := True\<rparr>) else Inl err
            | _ \<Rightarrow> Inl err)
      | Inr raw \<Rightarrow>
          andThen (decodeSlot raw) (\<lambda>r. case r of
            None \<Rightarrow> Inr (if length raw > 0 then sel\<lparr>selRecovered := True\<rparr> else sel)
          | Some a \<Rightarrow> Inr (sel\<lparr>selSlots := (selSlots sel)[i := Some a], selBest := chooseBest sel i a\<rparr>)))"

text \<open>The final check: two valid slots with one sequence number must be the same slot.\<close>

definition slotConflict :: "selection \<Rightarrow> bool" where
  "slotConflict sel = (case (selSlots sel ! 0, selSlots sel ! 1) of
     (Some a, Some b) \<Rightarrow> aSequence a = aSequence b \<and> a \<noteq> b | _ \<Rightarrow> False)"

definition readSelection :: "ctx \<Rightarrow> entry list \<Rightarrow> go_err + selection" where
  "readSelection ctx slots =
     andThen (readSlot ctx 0 (slots ! 0) noSelection) (\<lambda>sel.
     andThen (readSlot ctx 1 (slots ! 1) sel) (\<lambda>sel.
     failIf (slotConflict sel) (problem ''activation_conflict'') (Inr sel)))"

section \<open>A database root and its versions\<close>

record version =
  vDir :: bool
  vLease :: "lockState option"
  vFiles :: "(string \<times> entry) list"

record root =
  rSlots :: "entry list"
  rVersions :: "(string \<times> version) list"

definition fileOf :: "version \<Rightarrow> string \<Rightarrow> entry" where
  "fileOf v name = (case map_of (vFiles v) name of Some e \<Rightarrow> e | None \<Rightarrow> Missing)"

definition versionDir :: "root \<Rightarrow> string \<Rightarrow> go_err + version" where
  "versionDir r ident =
     failIf (\<not> validID ident) (problem ''invalid_dataset_id'')
     (case map_of (rVersions r) ident of None \<Rightarrow> Inl ErrNotExist
      | Some v \<Rightarrow> failIf (\<not> vDir v) (problem ''invalid_file'') (Inr v))"

text \<open>
  \<open>loadVersion\<close>: the manifest, its digest against the expected one, the index and the data.
  \<open>decode\<close> is \<open>decodeManifest\<close>.
\<close>

definition loadVersion ::
  "(bytes \<Rightarrow> string \<Rightarrow> go_err + Manifest) \<Rightarrow> ctx \<Rightarrow> version \<Rightarrow> string \<Rightarrow> bytes option \<Rightarrow> go_err + (snapshot \<times> bytes)" where
  "loadVersion decode ctx v ident expected = sanitize
     (andThen (readBounded ctx 0 (fileOf v ''manifest.json'') maxManifest) (\<lambda>raw.
      failIf (expected \<noteq> None \<and> expected \<noteq> Some (sha256 raw)) (problem ''manifest_mismatch'')
      (andThen (decode raw ident) (\<lambda>m.
      andThen (readBounded ctx 1 (fileOf v ''prefix.idx'') IndexSize) (\<lambda>idx.
      case openRegular (fileOf v ''hashes.bin'') of
        Inl e \<Rightarrow> failIf (encodeToString (sha256 idx) \<noteq> mIndexSHA256 m) (problem ''invalid_index'')
          (case checkIndex idx m of Some e' \<Rightarrow> Inl e' | None \<Rightarrow> Inl e)
      | Inr data \<Rightarrow> andThen (loadFiles (\<lambda>k. ctx (k + 2)) ident m idx data) (\<lambda>s. Inr (s, sha256 raw)))))))"

text \<open>
  What the calls of the one context answer, per phase of an operation, and the states the lock
  files are observed in.
\<close>

record environment =
  envCtx :: "nat \<Rightarrow> ctx"
  envUpdate :: "lockState list"
  envControl :: "lockState list"
  envLease :: "lockState list"
  envTimeout :: ctx_err

definition Open :: "(bytes \<Rightarrow> string \<Rightarrow> go_err + Manifest) \<Rightarrow> environment \<Rightarrow> root \<Rightarrow> go_err + (snapshot \<times> bool)" where
  "Open decode env r = sanitize
     (andThen (lock (envCtx env 0) 0 (envControl env) False True (envTimeout env)) (\<lambda>_.
      andThen (readSelection (envCtx env 1) (rSlots r)) (\<lambda>sel.
      case selBest sel of None \<Rightarrow> Inl (problem ''not_activated'')
      | Some b \<Rightarrow> (case selSlots sel ! b of None \<Rightarrow> Inl (problem ''not_activated'')
        | Some a \<Rightarrow>
          andThen (versionDir r (aId a)) (\<lambda>v.
          andThen (lock (envCtx env 2) 0 (envLease env) False True (envTimeout env)) (\<lambda>_.
          andThen (loadVersion decode (envCtx env 3) v (aId a) (Some (aManifest a))) (\<lambda>(s, _).
          Inr (s, selRecovered sel))))))))"

definition Verify :: "(bytes \<Rightarrow> string \<Rightarrow> go_err + Manifest) \<Rightarrow> environment \<Rightarrow> root \<Rightarrow> string \<Rightarrow> go_err + unit" where
  "Verify decode env r ident = sanitize
     (andThen (lock (envCtx env 0) 0 (envUpdate env) True False (envTimeout env)) (\<lambda>_.
      andThen (lock (envCtx env 1) 0 (envControl env) False True (envTimeout env)) (\<lambda>_.
      andThen (versionDir r ident) (\<lambda>v.
      andThen (lock (envCtx env 2) 0 (envLease env) False True (envTimeout env)) (\<lambda>_.
      andThen (loadVersion decode (envCtx env 3) v ident None) (\<lambda>(s, _).
      verifyContents s (envCtx env 4)))))))"

section \<open>Activate\<close>

text \<open>The slot to write and its bytes, from the current selection.\<close>

definition nextSlot :: "selection \<Rightarrow> string \<Rightarrow> bytes \<Rightarrow> go_err + (nat \<times> activation)" where
  "nextSlot sel ident mh =
     (let (sq, slot) = (case selBest sel of None \<Rightarrow> (1, 0) | Some b \<Rightarrow> (seqAt sel b + 1, 1 - b))
      in failIf (sq = 0) (problem ''sequence_exhausted'')
         (Inr (slot, \<lparr>aSequence = sq, aId = ident, aManifest = mh\<rparr>)))"

text \<open>
  Everything before the write.  The decision and the write are separate, as a crash may fall
  between them.
\<close>

definition prepareActivation ::
  "(bytes \<Rightarrow> string \<Rightarrow> go_err + Manifest) \<Rightarrow> environment \<Rightarrow> root \<Rightarrow> string \<Rightarrow> go_err + (nat \<times> activation)" where
  "prepareActivation decode env r ident =
     andThen (lock (envCtx env 0) 0 (envUpdate env) True False (envTimeout env)) (\<lambda>_.
     andThen (versionDir r ident) (\<lambda>v.
     andThen (loadVersion decode (envCtx env 1) v ident None) (\<lambda>(s, mh).
     andThen (verifyContents s (envCtx env 2)) (\<lambda>_.
     andThen (lock (envCtx env 3) 0 (envControl env) True True (envTimeout env)) (\<lambda>_.
     andThen (readSelection (envCtx env 4) (rSlots r)) (\<lambda>sel.
     andThen (nextSlot sel ident mh) (\<lambda>(slot, a).
     checkCtx (envCtx env 5) 0
     (case rSlots r ! slot of NotRegular \<Rightarrow> Inl (problem ''invalid_file'')
      | Unreadable e \<Rightarrow> Inl e
      | _ \<Rightarrow> Inr (slot, a)))))))))"

text \<open>
  The content a slot file has once \<open>k\<close> bytes of the new slot are on disk; \<open>Truncate\<close> cuts it
  to the slot size at the end.
\<close>

definition oldBytes :: "entry \<Rightarrow> bytes" where
  "oldBytes e = (case e of Regular b \<Rightarrow> b | _ \<Rightarrow> [])"

definition tornWrite :: "nat \<Rightarrow> bytes \<Rightarrow> bytes \<Rightarrow> bytes" where
  "tornWrite k new old = take k new @ drop k old"

definition writeSlot :: "bytes \<Rightarrow> bytes \<Rightarrow> bytes" where
  "writeSlot new old = take slotSize (tornWrite (length new) new old)"

text \<open>
  \<open>Activate\<close>: \<open>torn = None\<close> when the write, the truncation and the syncs all succeed, \<open>Some k\<close>
  when one of them fails with \<open>k\<close> bytes written.
\<close>

definition Activate ::
  "(bytes \<Rightarrow> string \<Rightarrow> go_err + Manifest) \<Rightarrow> environment \<Rightarrow> root \<Rightarrow> string \<Rightarrow> nat option \<Rightarrow> go_err option \<times> root" where
  "Activate decode env r ident torn =
     (case prepareActivation decode env r ident of Inl e \<Rightarrow> (Some (SafeError e), r)
      | Inr (slot, a) \<Rightarrow>
        let old = oldBytes (rSlots r ! slot) in
        (case torn of
           None \<Rightarrow> (None, r\<lparr>rSlots := (rSlots r)[slot := Regular (writeSlot (encodeSlot a) old)]\<rparr>)
         | Some k \<Rightarrow> (Some (problem ''activation_outcome_uncertain''),
             r\<lparr>rSlots := (rSlots r)[slot := Regular (tornWrite k (encodeSlot a) old)]\<rparr>)))"

section \<open>Prune\<close>

text \<open>The error of preparing one file of a version for removal.\<close>

fun chmodFiles :: "version \<Rightarrow> string list \<Rightarrow> go_err option" where
  "chmodFiles v [] = None"
| "chmodFiles v (name # names) =
     (case fileOf v name of Missing \<Rightarrow> chmodFiles v names
      | Unreadable e \<Rightarrow> Some e
      | NotRegular \<Rightarrow> Some (problem ''invalid_file'')
      | Regular _ \<Rightarrow> chmodFiles v names)"

definition keptBySlot :: "selection \<Rightarrow> string \<Rightarrow> bool" where
  "keptBySlot sel ident \<longleftrightarrow> (\<exists>a \<in> set (selSlots sel). case a of Some x \<Rightarrow> aId x = ident | None \<Rightarrow> False)"

text \<open>
  The loop over the entries of \<open>versions\<close>: what is removed, and the error that stops it.
  \<open>rmErr\<close> is the answer of \<open>os.RemoveAll\<close>.
\<close>

fun pruneLoop ::
  "ctx \<Rightarrow> nat \<Rightarrow> selection \<Rightarrow> (string \<Rightarrow> go_err option) \<Rightarrow> (string \<times> version) list \<Rightarrow> string list \<Rightarrow> string list \<times> go_err option" where
  "pruneLoop ctx k sel rmErr [] removed = (removed, None)"
| "pruneLoop ctx k sel rmErr ((ident, v) # vs) removed =
     (case ctx k of Some e \<Rightarrow> (removed, Some (CtxError e))
      | None \<Rightarrow>
        if \<not> validID ident \<or> \<not> vDir v \<or> keptBySlot sel ident then pruneLoop ctx (k + 1) sel rmErr vs removed
        else if (case vLease v of None \<Rightarrow> False | Some l \<Rightarrow> tryLock l True = None)
        then pruneLoop ctx (k + 1) sel rmErr vs removed
        else (case chmodFiles v [''hashes.bin'', ''prefix.idx'', ''manifest.json''] of
            Some e \<Rightarrow> (removed, Some e)
          | None \<Rightarrow> (case rmErr ident of Some e \<Rightarrow> (removed, Some e)
              | None \<Rightarrow> pruneLoop ctx (k + 1) sel rmErr vs (removed @ [ident]))))"

definition Prune :: "environment \<Rightarrow> (string \<Rightarrow> go_err option) \<Rightarrow> root \<Rightarrow> (go_err option \<times> string list) \<times> root" where
  "Prune env rmErr r =
     (case andThen (lock (envCtx env 0) 0 (envUpdate env) True False (envTimeout env)) (\<lambda>_.
           andThen (lock (envCtx env 1) 0 (envControl env) True True (envTimeout env)) (\<lambda>_.
           andThen (readSelection (envCtx env 2) (rSlots r)) (\<lambda>sel.
           failIf (selBest sel = None \<or> selRecovered sel) (problem ''recovery_required_before_prune'') (Inr sel)))) of
        Inl e \<Rightarrow> ((Some (SafeError e), []), r)
      | Inr sel \<Rightarrow>
          (case pruneLoop (envCtx env 3) 0 sel rmErr (rVersions r) [] of
             (removed, err) \<Rightarrow> ((map_option SafeError err, removed),
                r\<lparr>rVersions := filter (\<lambda>(ident, v). ident \<notin> set removed) (rVersions r)\<rparr>)))"

end
