(* ===== verification/PwActivationInv.thy ===== *)
theory PwActivationInv
  imports PwActivation
begin

text \<open>
  The proofs about activation: what a slot file is worth on its own (\<open>slotView\<close>), the selection
  as a function of the two views, the effect of a complete and of a torn slot write, and the
  invariant of every sequence of activations and crashes.
\<close>

section \<open>The selection from the views of the slots\<close>

text \<open>The slot's activation if it is valid, and whether the file is damaged.\<close>

definition slotView :: "entry \<Rightarrow> go_err + (activation option \<times> bool)" where
  "slotView e =
     (case readBounded background 0 e slotSize of
        Inl ErrNotExist \<Rightarrow> Inr (None, False)
      | Inl (OwnError kind cause) \<Rightarrow> if kind = ''invalid_file_size'' then Inr (None, True) else Inl (OwnError kind cause)
      | Inl err \<Rightarrow> Inl err
      | Inr raw \<Rightarrow> andThen (decodeSlot raw) (\<lambda>r. Inr (r, r = None \<and> raw \<noteq> [])))"

definition bestOf :: "activation option \<Rightarrow> activation option \<Rightarrow> nat option" where
  "bestOf a b = (case (a, b) of
     (None, None) \<Rightarrow> None | (Some x, None) \<Rightarrow> Some 0 | (None, Some y) \<Rightarrow> Some 1
   | (Some x, Some y) \<Rightarrow> if aSequence y > aSequence x then Some 1 else Some 0)"

definition viewSelection :: "entry list \<Rightarrow> go_err + selection" where
  "viewSelection slots =
     andThen (slotView (slots ! 0)) (\<lambda>(a, da).
     andThen (slotView (slots ! 1)) (\<lambda>(b, db).
     let sel = \<lparr>selSlots = [a, b], selBest = bestOf a b, selRecovered = da \<or> db\<rparr> in
     failIf (slotConflict sel) (problem ''activation_conflict'') (Inr sel)))"

definition applyView :: "nat \<Rightarrow> selection \<Rightarrow> activation option \<times> bool \<Rightarrow> selection" where
  "applyView i sel v =
     (case v of (None, d) \<Rightarrow> if d then sel\<lparr>selRecovered := True\<rparr> else sel
      | (Some a, d) \<Rightarrow> sel\<lparr>selSlots := (selSlots sel)[i := Some a], selBest := chooseBest sel i a\<rparr>)"

lemma readBounded_ctx:
  "readBounded ctx k e n = Inr b \<Longrightarrow> readBounded background k' e n = Inr b"
  "ctx k = None \<Longrightarrow> readBounded ctx k e n = readBounded background k' e n"
  by (auto simp: readBounded_def res_simps checkCtx_def background_def split: option.splits)

lemma slotView_Some: "slotView e = Inr (Some a, d) \<Longrightarrow> \<not> d \<and> e = Regular (encodeSlot a) \<and> validActivation a"
  by (auto simp: slotView_def readBounded_def openRegular_def res_simps failIf_def
      split: sum.splits go_err.splits if_splits entry.splits dest: decodeSlot_Some)

lemma readSlot_view:
  assumes "ctx i = None"
  shows "readSlot ctx i e sel = andThen (slotView e) (\<lambda>v. Inr (applyView i sel v))"
proof -
  have eq: "readBounded ctx i e slotSize = readBounded background 0 e slotSize"
    using readBounded_ctx(2) [of ctx i e slotSize 0] assms by simp
  show ?thesis
  proof (cases "readBounded background 0 e slotSize")
    case (Inl err)
    then show ?thesis
      by (cases err) (simp_all add: readSlot_def slotView_def eq applyView_def)
  next
    case (Inr raw)
    then show ?thesis
      by (cases "decodeSlot raw") (auto simp: readSlot_def slotView_def eq applyView_def split: option.splits)
  qed
qed

lemma readSlot_view_Inr:
  assumes "readSlot ctx i e sel = Inr s"
  shows "andThen (slotView e) (\<lambda>v. Inr (applyView i sel v)) = Inr s"
proof (cases "ctx i")
  case None
  then show ?thesis using assms readSlot_view by metis
next
  case (Some err)
  have "readBounded ctx i e slotSize = readBounded background 0 e slotSize"
  proof (cases "readBounded ctx i e slotSize")
    case (Inr b)
    then show ?thesis using readBounded_ctx(1) by metis
  next
    case (Inl x)
    with assms have "x \<noteq> CtxError err" by (auto simp: readSlot_def)
    then show ?thesis using Inl Some
      by (auto simp: readBounded_def andThen_def failIf_def checkCtx_def split: sum.splits if_splits)
  qed
  moreover have "readBounded background 0 e slotSize = readBounded background i e slotSize"
    by (rule readBounded_ctx(2)) (simp add: background_def)
  ultimately have "readSlot ctx i e sel = readSlot background i e sel"
    by (simp add: readSlot_def)
  then show ?thesis using assms readSlot_view [of background i e sel] by (simp add: background_def)
qed

lemma two_views:
  "applyView 1 (applyView 0 noSelection (a, da)) (b, db) = \<lparr>selSlots = [a, b], selBest = bestOf a b, selRecovered = da \<or> db\<rparr>"
  if "a = None \<or> \<not> da" "b = None \<or> \<not> db"
  using that
  by (auto simp: applyView_def noSelection_def bestOf_def chooseBest_def seqAt_def split: option.splits)

lemma slotView_damage: "slotView e = Inr (a, d) \<Longrightarrow> a = None \<or> \<not> d"
  using slotView_Some by (cases a) auto

lemma readSelection_view:
  assumes "ctx 0 = None" and "ctx 1 = None"
  shows "readSelection ctx slots = viewSelection slots"
  unfolding readSelection_def viewSelection_def readSlot_view [of ctx, OF assms(1)] readSlot_view [of ctx, OF assms(2)]
  using two_views slotView_damage
  by (cases "slotView (slots ! 0)"; cases "slotView (slots ! 1)")
     (auto simp: Let_def split: prod.splits)

lemma readSelection_view_Inr:
  assumes "readSelection ctx slots = Inr sel"
  shows "viewSelection slots = Inr sel"
proof -
  obtain s where s: "readSlot ctx 0 (slots ! 0) noSelection = Inr s" "readSlot ctx 1 (slots ! 1) s = Inr sel"
    and ok: "\<not> slotConflict sel" using assms by (auto simp: readSelection_def res_simps)
  obtain a da where a: "slotView (slots ! 0) = Inr (a, da)" "s = applyView 0 noSelection (a, da)"
    using readSlot_view_Inr [OF s(1)] by (auto simp: res_simps)
  obtain b db where b: "slotView (slots ! 1) = Inr (b, db)" "sel = applyView 1 s (b, db)"
    using readSlot_view_Inr [OF s(2)] by (auto simp: res_simps)
  have "sel = \<lparr>selSlots = [a, b], selBest = bestOf a b, selRecovered = da \<or> db\<rparr>"
    using two_views [of a da b db] slotView_damage a b by simp
  then show ?thesis using a(1) b(1) ok by (simp add: viewSelection_def Let_def)
qed

lemma viewSelection_Inr:
  assumes "viewSelection slots = Inr sel"
  obtains a da b db where "slotView (slots ! 0) = Inr (a, da)" "slotView (slots ! 1) = Inr (b, db)"
    "sel = \<lparr>selSlots = [a, b], selBest = bestOf a b, selRecovered = da \<or> db\<rparr>" "\<not> slotConflict sel"
  using assms by (auto simp: viewSelection_def Let_def res_simps split: prod.splits)

section \<open>Writing a slot\<close>

lemma writeSlot_new [simp]: "writeSlot (encodeSlot a) old = encodeSlot a"
  by (simp add: writeSlot_def tornWrite_def)

lemma slotView_encode: "validActivation a \<Longrightarrow> slotView (Regular (encodeSlot a)) = Inr (Some a, False)"
  by (simp add: slotView_def readBounded_def openRegular_def decodeSlot_encodeSlot)

text \<open>
  A torn write of a new slot over a valid or an absent one either carries no matching digest, or is
  the old or the new slot, or its bytes are a second preimage of the old slot's digest.
\<close>

definition digestOK :: "bytes \<Rightarrow> bool" where
  "digestOK b \<longleftrightarrow> length b = slotSize \<and> sha256 (take (slotSize - 32) b) = drop (slotSize - 32) b"

lemma decodeSlot_no_digest: "\<not> digestOK b \<Longrightarrow> decodeSlot b = Inr None"
  by (auto simp: decodeSlot_def digestOK_def)

lemma digestOK_encode: "validActivation a \<Longrightarrow> digestOK (encodeSlot a)"
  using encodeSlot_fields(6) by (simp add: digestOK_def validActivation_def)

lemma torn_slot:
  assumes "digestOK (tornWrite k (encodeSlot new) old)" and "validActivation new" and "k \<le> slotSize"
    and old: "digestOK old \<or> length old < slotSize"
  shows "tornWrite k (encodeSlot new) old = encodeSlot new \<or> tornWrite k (encodeSlot new) old = old
    \<or> (let x = take (slotSize - 32) (tornWrite k (encodeSlot new) old) in
        x \<noteq> take (slotSize - 32) old \<and> sha256 x = sha256 (take (slotSize - 32) old))"
proof -
  let ?x = "tornWrite k (encodeSlot new) old" and ?n = "slotSize - 32"
  have n: "?n \<le> slotSize" "0 < slotSize" by (simp_all add: slotSize_def)
  have sha: "sha256 (take ?n ?x) = drop ?n ?x" "length ?x = slotSize"
    using assms(1) by (simp_all add: digestOK_def)
  have new: "sha256 (take ?n (encodeSlot new)) = drop ?n (encodeSlot new)"
    using digestOK_encode [OF assms(2)] by (simp add: digestOK_def)
  show ?thesis
  proof (cases "?n \<le> k")
    case True
    then have "take ?n ?x = take ?n (encodeSlot new)"
      using assms(3) by (simp add: tornWrite_def min_absorb1)
    then have "?x = encodeSlot new" using sha(1) new by (metis append_take_drop_id)
    then show ?thesis ..
  next
    case False
    have "length ?x = max k (length old)" using assms(3) by (auto simp: tornWrite_def)
    then have "length old = slotSize" using sha(2) False n by (auto simp: max_def split: if_splits)
    then have "sha256 (take ?n old) = drop ?n old" using old by (simp add: digestOK_def)
    moreover have rest: "drop ?n ?x = drop ?n old" using False assms(3) by (simp add: tornWrite_def)
    ultimately have eq: "sha256 (take ?n ?x) = sha256 (take ?n old)" using sha(1) by simp
    show ?thesis
    proof (cases "take ?n ?x = take ?n old")
      case True
      then have "?x = old" using rest by (metis append_take_drop_id)
      then show ?thesis by simp
    next
      case False
      then show ?thesis using eq by (simp add: Let_def)
    qed
  qed
qed

section \<open>The selection after a write\<close>

definition selected :: "selection \<Rightarrow> activation option" where
  "selected sel = (case selBest sel of None \<Rightarrow> None | Some b \<Rightarrow> selSlots sel ! b)"

lemma word_inc: "x + 1 \<noteq> 0 \<Longrightarrow> x < x + (1 :: u64)"
  using unatSuc [of x] by (simp add: add.commute word_less_nat_alt)

lemma nextSlot_Inr:
  assumes "viewSelection [e0, e1] = Inr sel" and "nextSlot sel ident mh = Inr (slot, a)"
  shows "slot < 2" and "aSequence a \<noteq> 0" and "aId a = ident" and "aManifest a = mh"
    and "\<And>i x. i < 2 \<Longrightarrow> selSlots sel ! i = Some x \<Longrightarrow> aSequence x < aSequence a"
    and "selected sel = None \<longrightarrow> selSlots sel = [None, None] \<and> slot = 0"
    and "\<And>cur. selected sel = Some cur \<Longrightarrow> selSlots sel ! (1 - slot) = Some cur"
proof -
  obtain va da vb db where sel: "sel = \<lparr>selSlots = [va, vb], selBest = bestOf va vb, selRecovered = da \<or> db\<rparr>"
    using viewSelection_Inr [OF assms(1)] by metis
  have lt: "y \<le> x \<Longrightarrow> x + 1 \<noteq> 0 \<Longrightarrow> y < x + 1" for x y :: u64 using word_inc le_less_trans by blast
  have lt': "y < x \<Longrightarrow> x + 1 \<noteq> 0 \<Longrightarrow> y < x + 1" for x y :: u64 using lt [of y x] by simp
  show "slot < 2" "aSequence a \<noteq> 0" "aId a = ident" "aManifest a = mh"
    "selected sel = None \<longrightarrow> selSlots sel = [None, None] \<and> slot = 0"
    "\<And>cur. selected sel = Some cur \<Longrightarrow> selSlots sel ! (1 - slot) = Some cur"
    using assms(2) by (auto simp: sel nextSlot_def bestOf_def Let_def res_simps selected_def split: option.splits if_splits)
  show "aSequence x < aSequence a" if "i < 2" "selSlots sel ! i = Some x" for i x
    using assms(2) that
    by (auto simp: sel nextSlot_def bestOf_def Let_def res_simps seqAt_def less_2_cases_iff not_less
        intro: lt lt' word_inc split: option.splits if_splits)
qed

lemma bestOf_simps [simp]:
  "bestOf None None = None" "bestOf (Some x) None = Some 0" "bestOf None (Some y) = Some 1"
  "bestOf (Some x) (Some y) = (if aSequence y > aSequence x then Some 1 else Some 0)"
  by (simp_all add: bestOf_def)

lemma write_view:
  assumes view: "viewSelection [e0, e1] = Inr sel" and nxt: "nextSlot sel ident mh = Inr (slot, a)"
    and x: "slotView e = Inr (v, d)" and v: "v = None \<or> v = selSlots sel ! slot \<or> v = Some a"
  shows "\<exists>sel'. viewSelection ([e0, e1][slot := e]) = Inr sel'
    \<and> selSlots sel' = (selSlots sel)[slot := v] \<and> selected sel' = (if v = Some a then Some a else selected sel)"
proof -
  obtain va da vb db where sel: "slotView e0 = Inr (va, da)" "slotView e1 = Inr (vb, db)"
      "sel = \<lparr>selSlots = [va, vb], selBest = bestOf va vb, selRecovered = da \<or> db\<rparr>" "\<not> slotConflict sel"
    by (rule viewSelection_Inr [OF view]) (use that in simp)
  note N = nextSlot_Inr [OF view nxt]
  have va: "aSequence y < aSequence a" if "va = Some y" for y using N(5) [of 0 y] that sel(3) by simp
  have vb: "aSequence y < aSequence a" if "vb = Some y" for y using N(5) [of 1 y] that sel(3) by simp
  consider (first) "slot = 0" "va = None" "vb = None" | (zero) c where "slot = 0" "vb = Some c" "selected sel = Some c"
    | (one) c where "slot = 1" "va = Some c" "selected sel = Some c"
    using N(1,6,7) sel(3) by (cases "selected sel") (auto simp: less_2_cases_iff)
  then show ?thesis
  proof cases
    case first
    then have "v = None \<or> v = Some a" using v sel(3) by auto
    with first show ?thesis
      using sel(1,2) x by (auto simp: viewSelection_def sel(3) slotConflict_def selected_def)
  next
    case zero
    note c = vb [OF zero(2)] zero
    have best: "\<not> aSequence c < aSequence y \<and> (aSequence y = aSequence c \<longrightarrow> y = c)" if "va = Some y" for y
      using zero(2,3) sel(3,4) that by (auto simp: selected_def slotConflict_def split: if_splits)
    show ?thesis
      using v sel(1,2,3) x c va best
      by (cases va) (auto simp: viewSelection_def Let_def slotConflict_def selected_def failIf_def split: if_splits)
  next
    case one
    note c = va [OF one(2)] one
    have best: "\<not> aSequence c < aSequence y \<and> (aSequence y = aSequence c \<longrightarrow> y = c)" if "vb = Some y" for y
      using one(2,3) sel(3,4) that by (auto simp: selected_def slotConflict_def split: if_splits)
    show ?thesis
      using v sel(1,2,3) x c vb best
      by (cases vb) (auto simp: viewSelection_def Let_def slotConflict_def selected_def failIf_def split: if_splits)
  qed
qed


section \<open>Sequences of activations and crashes\<close>

text \<open>
  The slots reachable from an empty root, with the activations that completed.  A crash leaves a
  torn slot; the assumption on it is that a mixture that is neither the old nor the new slot does not
  carry its own SHA-256 digest.
\<close>

inductive reach :: "entry list \<Rightarrow> activation list \<Rightarrow> bool" where
  reach_init: "reach [Missing, Missing] []"
| reach_done: "reach slots hist \<Longrightarrow> viewSelection slots = Inr sel \<Longrightarrow> nextSlot sel ident mh = Inr (slot, a)
    \<Longrightarrow> validID ident \<Longrightarrow> length mh = 32
    \<Longrightarrow> reach (slots[slot := Regular (writeSlot (encodeSlot a) (oldBytes (slots ! slot)))]) (hist @ [a])"
| reach_crash: "reach slots hist \<Longrightarrow> viewSelection slots = Inr sel \<Longrightarrow> nextSlot sel ident mh = Inr (slot, a)
    \<Longrightarrow> validID ident \<Longrightarrow> length mh = 32
    \<Longrightarrow> x = tornWrite k (encodeSlot a) (oldBytes (slots ! slot))
    \<Longrightarrow> x = encodeSlot a \<or> x = oldBytes (slots ! slot) \<or> \<not> digestOK x
    \<Longrightarrow> reach (slots[slot := Regular x]) hist"

inductive_cases reach_elim: "reach slots hist"

text \<open>What is selected is at least as new as the last completed activation.\<close>

definition upToDate :: "selection \<Rightarrow> activation list \<Rightarrow> bool" where
  "upToDate sel hist \<longleftrightarrow>
     (hist \<noteq> [] \<longrightarrow> (\<exists>a. selected sel = Some a \<and> (a = last hist \<or> aSequence (last hist) < aSequence a)))"

lemma slotView_old:
  assumes "slotView e = Inr (v, d)" and "x = oldBytes e"
  shows "\<exists>d'. slotView (Regular x) = Inr (v, d')"
proof (cases e)
  case Missing
  then have "slotView (Regular x) = Inr (None, False)"
    using assms(2) by (simp add: oldBytes_def slotView_def readBounded_def openRegular_def decodeSlot_def slotSize_def)
  moreover have "v = None" using assms(1) Missing by (simp add: slotView_def readBounded_def openRegular_def)
  ultimately show ?thesis by blast
next
  case (Regular b)
  then show ?thesis using assms by (simp add: oldBytes_def)
next
  case NotRegular
  then show ?thesis using assms(1) by (simp add: slotView_def readBounded_def openRegular_def problem_def)
next
  case (Unreadable err)
  then have "slotView (Regular x) = Inr (None, False)"
    using assms(2) by (simp add: oldBytes_def slotView_def readBounded_def openRegular_def decodeSlot_def slotSize_def)
  moreover have "v = None" using assms(1) Unreadable
    by (cases err) (auto simp: slotView_def readBounded_def openRegular_def split: if_splits)
  ultimately show ?thesis by blast
qed

lemma slotView_bad: "\<not> digestOK b \<Longrightarrow> \<exists>d. slotView (Regular b) = Inr (None, d)"
  by (auto simp: slotView_def readBounded_def openRegular_def decodeSlot_no_digest failIf_def problem_def)

lemma viewSelection_slot:
  "viewSelection [e0, e1] = Inr sel \<Longrightarrow> i < 2 \<Longrightarrow> \<exists>d. slotView ([e0, e1] ! i) = Inr (selSlots sel ! i, d)"
  by (erule viewSelection_Inr) (auto simp: less_2_cases_iff)

lemma reach_ok:
  assumes "reach slots hist"
  shows "length slots = 2 \<and> (\<exists>sel. viewSelection slots = Inr sel \<and> upToDate sel hist)"
  using assms
proof (induction rule: reach.induct)
  case reach_init
  then show ?case
    by (simp add: viewSelection_def slotView_def readBounded_def openRegular_def slotConflict_def upToDate_def)
next
  case (reach_done slots hist sel ident mh slot a)
  obtain e0 e1 where s: "slots = [e0, e1]"
    using reach_done.IH by (auto simp: length_Suc_conv numeral_2_eq_2)
  note view = reach_done.hyps(2) [unfolded s] and nxt = reach_done.hyps(3)
  have a: "validActivation a"
    using nextSlot_Inr(2,3,4) [OF view nxt] reach_done.hyps(4,5) by (simp add: validActivation_def)
  show ?case
    using write_view [OF view nxt slotView_encode [OF a]] by (auto simp: s upToDate_def simp del: list_update.simps)
next
  case (reach_crash slots hist sel ident mh slot a x k)
  obtain e0 e1 where s: "slots = [e0, e1]"
    using reach_crash.IH by (auto simp: length_Suc_conv numeral_2_eq_2)
  note view = reach_crash.hyps(2) [unfolded s] and nxt = reach_crash.hyps(3)
  note N = nextSlot_Inr [OF view nxt]
  have a: "validActivation a" using N(2,3,4) reach_crash.hyps(4,5) by (simp add: validActivation_def)
  have up: "upToDate sel hist" using reach_crash.IH reach_crash.hyps(2) by auto
  have old: "\<exists>d. slotView ([e0, e1] ! slot) = Inr (selSlots sel ! slot, d)"
    by (rule viewSelection_slot [OF view N(1)])
  have "\<exists>v d. slotView (Regular x) = Inr (v, d) \<and> (v = None \<or> v = selSlots sel ! slot \<or> v = Some a)"
    using reach_crash.hyps(7) slotView_encode [OF a] slotView_old [of _ _ _ x] slotView_bad [of x] old
    by (auto simp: s) blast+
  then obtain v d where v: "slotView (Regular x) = Inr (v, d)" "v = None \<or> v = selSlots sel ! slot \<or> v = Some a" by blast
  have "upToDate sel' hist" if "selected sel' = (if v = Some a then Some a else selected sel)" for sel'
  proof (cases "v = Some a \<and> hist \<noteq> []")
    case True
    obtain c where c: "selected sel = Some c" "c = last hist \<or> aSequence (last hist) < aSequence c"
      using up True by (auto simp: upToDate_def)
    have "aSequence c < aSequence a" using N(5) [of "1 - slot" c] N(7) [OF c(1)] by auto
    then have "aSequence (last hist) < aSequence a" using c(2) by auto
    then show ?thesis using True that by (simp add: upToDate_def)
  next
    case False
    then show ?thesis using up that by (auto simp: upToDate_def)
  qed
  then show ?case using write_view [OF view nxt v] by (auto simp: s simp del: list_update.simps)
qed


section \<open>Success does not depend on when the context is asked\<close>

lemma checkCtx_Inr: "checkCtx ctx k c = Inr x \<Longrightarrow> c = Inr x"
  by (simp add: res_simps)

lemma loadFiles_ctx: "loadFiles ctx ident m idx data = Inr s \<Longrightarrow> loadFiles background ident m idx data = Inr s"
  by (auto simp: loadFiles_def res_simps background_def split: option.splits)

lemma verifyRanges_ctx: "verifyRanges s ctx ps acc = Inr out \<Longrightarrow> verifyRanges s background ps acc = Inr out"
proof (induction ps arbitrary: acc)
  case Nil
  then show ?case by simp
next
  case (Cons p ps)
  then show ?case by (auto simp: res_simps Let_def background_def [symmetric] split: if_splits)
qed

lemma verifyContents_ctx: "verifyContents s ctx = Inr () \<Longrightarrow> verifyContents s background = Inr ()"
  unfolding verifyContents_def andThen_eq_Inr failIf_eq_Inr checkCtx_eq_Inr
  using verifyRanges_ctx by (fastforce simp: background_def)

lemma loadVersion_ctx:
  assumes "loadVersion decode ctx v ident None = Inr (s, mh)"
  shows "loadVersion decode background v ident None = Inr (s, mh)"
    and "loadVersion decode background v ident (Some mh) = Inr (s, mh)"
    and "length mh = 32"
proof -
  obtain data where data: "openRegular (fileOf v ''hashes.bin'') = Inr data"
    using assms
    by (cases "openRegular (fileOf v ''hashes.bin'')")
       (auto simp: loadVersion_def res_simps split: option.splits)
  obtain raw m idx where
    "readBounded ctx 0 (fileOf v ''manifest.json'') maxManifest = Inr raw"
    "readBounded ctx 1 (fileOf v ''prefix.idx'') IndexSize = Inr idx"
    and "decode raw ident = Inr m"
    and "loadFiles (\<lambda>k. ctx (k + 2)) ident m idx data = Inr s" "mh = sha256 raw"
    using assms data by (auto simp: loadVersion_def res_simps)
  note this = this(1,2) [THEN readBounded_ctx(1)] this(3) this(4) [THEN loadFiles_ctx] this(5) data
  moreover have "(\<lambda>k. background (k + 2)) = background" by (simp add: background_def)
  ultimately show "loadVersion decode background v ident None = Inr (s, mh)"
    "loadVersion decode background v ident (Some mh) = Inr (s, mh)" "length mh = 32"
    by (simp_all add: loadVersion_def)
qed


section \<open>What a successful operation did\<close>

lemma prepareActivation_Inr:
  assumes "prepareActivation decode env r ident = Inr (slot, a)"
  obtains v s mh sel where "versionDir r ident = Inr v" "loadVersion decode (envCtx env 1) v ident None = Inr (s, mh)"
    "verifyContents s (envCtx env 2) = Inr ()" "viewSelection (rSlots r) = Inr sel"
    "nextSlot sel ident mh = Inr (slot, a)"
proof -
  have split: "(case e of NotRegular \<Rightarrow> Inl x | Unreadable y \<Rightarrow> Inl y | _ \<Rightarrow> Inr z) = Inr w \<Longrightarrow> z = w"
    for e x z and w :: "nat \<times> activation" by (cases e) auto
  obtain v s mh sel where *: "versionDir r ident = Inr v" "loadVersion decode (envCtx env 1) v ident None = Inr (s, mh)"
    "verifyContents s (envCtx env 2) = Inr ()" "readSelection (envCtx env 4) (rSlots r) = Inr sel"
    "nextSlot sel ident mh = Inr (slot, a)"
    using assms by (auto simp: prepareActivation_def res_simps dest!: split)
  show thesis by (rule that [OF *(1-3) readSelection_view_Inr [OF *(4)] *(5)])
qed

lemma versionDir_valid: "versionDir r ident = Inr v \<Longrightarrow> validID ident \<and> map_of (rVersions r) ident = Some v"
  by (auto simp: versionDir_def res_simps split: option.splits)

definition freeLock :: lockState where "freeLock = \<lparr>lkReaders = 0, lkWriter = False\<rparr>"

text \<open>An environment in which nothing is cancelled and every lock is free.\<close>

definition quiet :: environment where
  "quiet = \<lparr>envCtx = (\<lambda>_. background), envUpdate = [freeLock], envControl = [freeLock],
     envLease = [freeLock], envTimeout = Canceled\<rparr>"

lemma lock_quiet: "\<exists>l. lock background 0 [freeLock] exclusive wait timeout = Inr l"
  by (cases exclusive) (simp_all add: tryLock_def freeLock_def)

lemma Open_quiet:
  assumes "viewSelection (rSlots r) = Inr sel" and "selected sel = Some a"
    and "versionDir r (aId a) = Inr v" and "loadVersion decode background v (aId a) (Some (aManifest a)) = Inr (s, mh)"
  shows "Open decode quiet r = Inr (s, selRecovered sel)"
proof -
  obtain b where b: "selBest sel = Some b" "selSlots sel ! b = Some a"
    using assms(2) by (auto simp: selected_def split: option.splits)
  have "readSelection background (rSlots r) = Inr sel"
    using readSelection_view [of background] assms(1) by (simp add: background_def)
  moreover obtain l l' where "lock background 0 [freeLock] False True Canceled = Inr l"
    using lock_quiet by blast
  ultimately show ?thesis using assms(3,4) b by (simp add: Open_def quiet_def)
qed

lemma Activate_Open:
  assumes "length (rSlots r) = 2" and "Activate decode env r ident None = (None, r')"
  shows "\<exists>v s mh recovered. versionDir r ident = Inr v \<and> loadVersion decode background v ident None = Inr (s, mh)
    \<and> verifyContents s background = Inr () \<and> Open decode quiet r' = Inr (s, recovered)"
proof -
  obtain slot a where prep: "prepareActivation decode env r ident = Inr (slot, a)"
    and r': "r' = r\<lparr>rSlots := (rSlots r)[slot := Regular (encodeSlot a)]\<rparr>"
    using assms(2) by (auto simp: Activate_def Let_def split: sum.splits)
  obtain v s mh sel where P: "versionDir r ident = Inr v" "loadVersion decode (envCtx env 1) v ident None = Inr (s, mh)"
    "verifyContents s (envCtx env 2) = Inr ()" "viewSelection (rSlots r) = Inr sel" "nextSlot sel ident mh = Inr (slot, a)"
    using prepareActivation_Inr [OF prep] by metis
  obtain e0 e1 where sl: "rSlots r = [e0, e1]" using assms(1) by (auto simp: length_Suc_conv numeral_2_eq_2)
  note L = loadVersion_ctx [OF P(2)]
  note N = nextSlot_Inr [OF P(4) [unfolded sl] P(5)]
  have a: "validActivation a" "aId a = ident" "aManifest a = mh"
    using N(2,3,4) versionDir_valid [OF P(1)] L(3) by (simp_all add: validActivation_def)
  obtain sel' where sel': "viewSelection (rSlots r') = Inr sel'" "selected sel' = Some a"
    using write_view [OF P(4) [unfolded sl] P(5) slotView_encode [OF a(1)]] sl r' by auto
  have "versionDir r' (aId a) = Inr v" using P(1) r' a(2) by (simp add: versionDir_def)
  then have "Open decode quiet r' = Inr (s, selRecovered sel')"
    using Open_quiet [OF sel'] L(2) a by simp
  then show ?thesis using P(1) L(1) verifyContents_ctx [OF P(3)] by blast
qed

text \<open>Everything the prune loop removes had a valid name, no slot and no lease holder.\<close>

definition prunable :: "selection \<Rightarrow> string \<times> version \<Rightarrow> bool" where
  "prunable sel iv \<longleftrightarrow> validID (fst iv) \<and> vDir (snd iv) \<and> \<not> keptBySlot sel (fst iv)
     \<and> (\<forall>l. vLease (snd iv) = Some l \<longrightarrow> lkReaders l = 0 \<and> \<not> lkWriter l)"

lemma pruneLoop_removed:
  assumes "pruneLoop ctx k sel rmErr vs removed = (out, err)"
  shows "\<forall>ident \<in> set out. ident \<in> set removed \<or> (\<exists>v. (ident, v) \<in> set vs \<and> prunable sel (ident, v))"
  using assms
proof (induction vs arbitrary: k removed)
  case Nil
  then show ?case by simp
next
  case (Cons iv vs)
  obtain ident v where iv: "iv = (ident, v)" by fastforce
  let ?skip = "\<not> validID ident \<or> \<not> vDir v \<or> keptBySlot sel ident
    \<or> (case vLease v of None \<Rightarrow> False | Some l \<Rightarrow> tryLock l True = None)"
  consider (stop) "out = removed" | (skip) "pruneLoop ctx (k + 1) sel rmErr vs removed = (out, err)"
    | (take) "pruneLoop ctx (k + 1) sel rmErr vs (removed @ [ident]) = (out, err)" "\<not> ?skip"
    using Cons.prems by (auto simp: iv simp del: chmodFiles.simps split: option.splits if_splits)
  then show ?case
  proof cases
    case stop
    then show ?thesis by simp
  next
    case skip
    then show ?thesis using Cons.IH by fastforce
  next
    case take
    have "prunable sel (ident, v)"
      using take(2) by (auto simp: prunable_def tryLock_def split: option.splits if_splits)
    then show ?thesis using Cons.IH [OF take(1)] by (auto simp: iv)
  qed
qed

lemma Prune_keeps:
  assumes "Prune env rmErr r = ((err, removed), r')" and "viewSelection (rSlots r) = Inr sel"
  shows "rSlots r' = rSlots r" and "ident \<in> set removed \<Longrightarrow> \<exists>v. (ident, v) \<in> set (rVersions r) \<and> prunable sel (ident, v)"
    and "Some a \<in> set (selSlots sel) \<Longrightarrow> map_of (rVersions r') (aId a) = map_of (rVersions r) (aId a)"
proof -
  show "rSlots r' = rSlots r" using assms(1) by (auto simp: Prune_def split: sum.splits prod.splits)
  have cases: "(removed = [] \<and> r' = r) \<or> (\<exists>e. pruneLoop (envCtx env 3) 0 sel rmErr (rVersions r) [] = (removed, e)
      \<and> r' = r\<lparr>rVersions := filter (\<lambda>(ident, v). ident \<notin> set removed) (rVersions r)\<rparr>)"
    using assms readSelection_view_Inr [of "envCtx env 2" "rSlots r"]
    by (auto simp: Prune_def res_simps split: sum.splits prod.splits)
  show removed: "\<exists>v. (ident, v) \<in> set (rVersions r) \<and> prunable sel (ident, v)" if "ident \<in> set removed" for ident
    using cases pruneLoop_removed that by fastforce
  show "map_of (rVersions r') (aId a) = map_of (rVersions r) (aId a)" if "Some a \<in> set (selSlots sel)"
  proof -
    have kept: "aId a \<notin> set removed"
      using removed [of "aId a"] that by (force simp: prunable_def keptBySlot_def)
    have "map_of (filter (\<lambda>(ident, v). ident \<notin> set removed) vs) (aId a) = map_of vs (aId a)" for vs :: "(string \<times> version) list"
      using kept by (induction vs) auto
    then show ?thesis using cases by auto
  qed
qed


section \<open>A root with one generation\<close>

definition demoVersion :: "generation \<Rightarrow> version" where
  "demoVersion g = \<lparr>vDir = True, vLease = Some freeLock, vFiles = [(''manifest.json'', Regular [1]),
     (''prefix.idx'', Regular (gIndex g)), (''hashes.bin'', Regular (gData g))]\<rparr>"

definition demoRoot :: "generation \<Rightarrow> root" where
  "demoRoot g = \<lparr>rSlots = [Missing, Missing], rVersions = [(encodeToString demoRandom, demoVersion g)]\<rparr>"

definition demoActivation :: activation where
  "demoActivation = \<lparr>aSequence = 1, aId = encodeToString demoRandom, aManifest = sha256 [1]\<rparr>"

lemma demo_validActivation: "validActivation demoActivation"
  by (simp add: validActivation_def demoActivation_def demoRandom_def)

lemma demo_view: "viewSelection [Missing, Missing] = Inr noSelection"
  by (simp add: viewSelection_def slotView_def readBounded_def openRegular_def slotConflict_def noSelection_def)

lemma demo_next: "nextSlot noSelection (encodeToString demoRandom) (sha256 [1]) = Inr (0, demoActivation)"
  by (simp add: nextSlot_def noSelection_def demoActivation_def)

lemma demo_Activate:
  assumes rep: "represents F g" and ident: "mDatasetID (gManifest g) = encodeToString demoRandom"
  shows "Activate (\<lambda>_ _. Inr (gManifest g)) quiet (demoRoot g) (encodeToString demoRandom) None
    = (None, (demoRoot g)\<lparr>rSlots := [Regular (encodeSlot demoActivation), Missing]\<rparr>)"
proof -
  have idx: "length (gIndex g) = IndexSize" using rep by (simp add: represents_def Let_def)
  have bg: "(\<lambda>k. background (k + 2)) = background" "background k = None" for k by (simp_all add: background_def)
  have load: "loadVersion (\<lambda>_ _. Inr (gManifest g)) background (demoVersion g) (encodeToString demoRandom) None
      = Inr (snapshotOf g, sha256 [1])"
    using loadFiles_represents [OF rep, of "\<lambda>_. None"] ident idx
    by (simp add: loadVersion_def demoVersion_def fileOf_def readBounded_def openRegular_def maxManifest_def bg)
  have "verifyContents (snapshotOf g) background = Inr ()"
    by (rule verifyContents_represents [OF rep]) (simp add: background_def)
  moreover have "versionDir (demoRoot g) (encodeToString demoRandom) = Inr (demoVersion g)"
    by (simp add: versionDir_def demoRoot_def demoVersion_def demoRandom_def)
  moreover have "readSelection background [Missing, Missing] = Inr noSelection"
    using readSelection_view [of background "[Missing, Missing]"] demo_view by (simp add: bg)
  moreover obtain l l' where "lock background 0 [freeLock] True False Canceled = Inr l"
    "lock background 0 [freeLock] True True Canceled = Inr l'" using lock_quiet by meson
  ultimately have "prepareActivation (\<lambda>_ _. Inr (gManifest g)) quiet (demoRoot g) (encodeToString demoRandom)
      = Inr (0, demoActivation)"
    using load demo_next by (simp add: prepareActivation_def quiet_def bg) (simp add: demoRoot_def)
  then show ?thesis by (simp add: Activate_def demoRoot_def)
qed

section \<open>Properties\<close>

text \<open>A slot file is valid for exactly one value and one encoding: \<open>decodeSlot\<close> accepts a buffer as
  the activation \<open>a\<close> if and only if \<open>a\<close> is well formed (non-zero sequence, 128-bit identifier, 32-byte
  digest) and the buffer is \<open>encodeSlot a\<close>.\<close>

theorem slot_roundtrip:
  "decodeSlot b = Inr (Some a) \<longleftrightarrow> validActivation a \<and> b = encodeSlot a"
  using decodeSlot_encodeSlot decodeSlot_Some by auto

text \<open>An interrupted slot write is detected: after any prefix of a new slot has reached a file that
  held a slot with a matching digest or was shorter than a slot, the file either has no matching
  digest (and is then ignored), or is exactly the old or exactly the new slot, unless its body is a
  second preimage of the SHA-256 digest of the old body.\<close>

theorem torn_write_detected:
  assumes "validActivation new" and "k \<le> slotSize" and "digestOK old \<or> length old < slotSize"
  shows "let x = tornWrite k (encodeSlot new) old in
    decodeSlot x = Inr None \<or> x = encodeSlot new \<or> x = old
    \<or> take (slotSize - 32) x \<noteq> take (slotSize - 32) old
      \<and> sha256 (take (slotSize - 32) x) = sha256 (take (slotSize - 32) old)"
  using torn_slot [OF _ assms] decodeSlot_no_digest by (auto simp: Let_def)

theorem torn_write_detected_witness:
  "let x = tornWrite 100 (encodeSlot demoActivation) [] in
    decodeSlot x = Inr None \<or> x = encodeSlot demoActivation \<or> x = []
    \<or> take (slotSize - 32) x \<noteq> take (slotSize - 32) []
      \<and> sha256 (take (slotSize - 32) x) = sha256 (take (slotSize - 32) [])"
  using torn_write_detected [OF demo_validActivation, of 100 "[]"] by (simp add: slotSize_def)

text \<open>C3: activation is crash safe: after any sequence of completed activations and of crashes during a
  slot write, the selection is read without an error or a conflict, and once an activation has
  completed it selects that activation or one with a higher sequence number, never an older one.\<close>

theorem activation_crash_safe:
  assumes "reach slots hist"
  shows "\<exists>sel. readSelection background slots = Inr sel \<and>
    (hist \<noteq> [] \<longrightarrow> (\<exists>a. selected sel = Some a \<and> (a = last hist \<or> aSequence (last hist) < aSequence a)))"
  using reach_ok [OF assms] readSelection_view [of background slots]
  by (auto simp: upToDate_def background_def)

theorem activation_crash_safe_witness:
  "\<exists>sel. readSelection background [Regular (encodeSlot demoActivation), Missing] = Inr sel
    \<and> (\<exists>a. selected sel = Some a \<and> (a = demoActivation \<or> aSequence demoActivation < aSequence a))"
proof -
  have "reach ([Missing, Missing][0 := Regular (writeSlot (encodeSlot demoActivation) (oldBytes ([Missing, Missing] ! 0)))])
      ([] @ [demoActivation])"
    by (rule reach_done [OF reach_init demo_view demo_next]) (simp_all add: demoRandom_def)
  from activation_crash_safe [OF this] show ?thesis by simp
qed

text \<open>A completed activation takes effect: when \<open>Activate\<close> reports success, the generation it
  named loads and passes the full scrub, and the next \<open>Open\<close> of the database (nothing cancelled, no
  lock held) returns exactly the snapshot of that generation.\<close>

theorem activate_then_open:
  assumes "length (rSlots r) = 2" and "Activate decode env r ident None = (None, r')"
  shows "\<exists>v s mh recovered. versionDir r ident = Inr v \<and> loadVersion decode background v ident None = Inr (s, mh)
    \<and> verifyContents s background = Inr () \<and> Open decode quiet r' = Inr (s, recovered)"
  using assms by (rule Activate_Open)

theorem activate_then_open_witness:
  "\<exists>(g :: generation) r' s recovered. Open (\<lambda>_ _. Inr (gManifest g)) quiet r' = Inr (s, recovered) \<and> verifyContents s background = Inr ()"
proof -
  obtain g where "Import background background background demoOpt demoLine (2 ^ 40) demoRandom [] = Inr g"
    using demo_Import by blast
  from Import_represents [OF this] obtain F
    where "represents F g" "mDatasetID (gManifest g) = encodeToString demoRandom" by blast
  from activate_then_open [OF _ demo_Activate [OF this]] show ?thesis by (simp add: demoRoot_def) blast
qed

text \<open>Pruning never deletes what may still be read: \<open>Prune\<close> leaves the control slots alone, every
  version that a valid slot names survives unchanged, and a removed version was an unreferenced
  directory whose lease nobody held.\<close>

theorem prune_keeps_referenced:
  assumes "Prune env rmErr r = ((err, removed), r')" and "viewSelection (rSlots r) = Inr sel"
  shows "rSlots r' = rSlots r
    \<and> (\<forall>ident \<in> set removed. \<exists>v. (ident, v) \<in> set (rVersions r) \<and> prunable sel (ident, v))
    \<and> (\<forall>a. Some a \<in> set (selSlots sel) \<longrightarrow> map_of (rVersions r') (aId a) = map_of (rVersions r) (aId a))"
  using Prune_keeps [OF assms] by blast

theorem prune_keeps_referenced_witness:
  "\<exists>g. rSlots (snd (Prune quiet (\<lambda>_. None) (demoRoot g))) = [Missing, Missing]"
proof -
  obtain g :: generation where True by blast
  obtain err removed r' where p: "Prune quiet (\<lambda>_. None) (demoRoot g) = ((err, removed), r')"
    by (metis prod.exhaust)
  from prune_keeps_referenced [OF p, of noSelection] show ?thesis
    using p demo_view by (metis demoRoot_def root.select_convs(1) snd_conv)
qed

end
