(* ===== verification/GoStrings.thy ===== *)
theory GoStrings
  imports GoBase
begin

text \<open>
  The functions of Go's packages \<open>strings\<close>, \<open>strconv\<close> and \<open>net/textproto\<close> that the components
  use, on strings as byte sequences.  Letter case is exact on ASCII; for a string with other bytes
  the Unicode tables of the standard library are the argument \<open>uni\<close> of \<open>toLower\<close> and \<open>toUpper\<close>.
\<close>

section \<open>Substrings\<close>

fun hasPrefix :: "string \<Rightarrow> string \<Rightarrow> bool" where
  "hasPrefix s [] \<longleftrightarrow> True"
| "hasPrefix [] (p # ps) \<longleftrightarrow> False"
| "hasPrefix (c # s) (p # ps) \<longleftrightarrow> c = p \<and> hasPrefix s ps"

definition hasSuffix :: "string \<Rightarrow> string \<Rightarrow> bool" where
  "hasSuffix s t \<longleftrightarrow> hasPrefix (rev s) (rev t)"

fun containsStr :: "string \<Rightarrow> string \<Rightarrow> bool" where
  "containsStr [] sub \<longleftrightarrow> sub = []"
| "containsStr (c # s) sub \<longleftrightarrow> hasPrefix (c # s) sub \<or> containsStr s sub"

definition containsChar :: "string \<Rightarrow> char \<Rightarrow> bool" where
  "containsChar s c \<longleftrightarrow> c \<in> set s"

definition trimPrefix :: "string \<Rightarrow> string \<Rightarrow> string" where
  "trimPrefix s p = (if hasPrefix s p then drop (length p) s else s)"

definition trimSuffix :: "string \<Rightarrow> string \<Rightarrow> string" where
  "trimSuffix s p = (if hasSuffix s p then take (length s - length p) s else s)"

lemma hasPrefix_iff: "hasPrefix s p \<longleftrightarrow> (\<exists>t. s = p @ t)"
  by (induction s p rule: hasPrefix.induct) auto

lemma hasSuffix_iff: "hasSuffix s t \<longleftrightarrow> (\<exists>u. s = u @ t)"
  unfolding hasSuffix_def hasPrefix_iff by (metis rev_append rev_rev_ident)

lemma containsStr_iff: "containsStr s t \<longleftrightarrow> (\<exists>u v. s = u @ t @ v)"
proof (induction s)
  case Nil
  then show ?case by auto
next
  case (Cons c s)
  then show ?case by (auto simp: hasPrefix_iff Cons_eq_append_conv)
qed

text \<open>\<open>strings.Split\<close> on a one-byte separator, and \<open>strings.Join\<close>.\<close>

fun splitOn :: "char \<Rightarrow> string \<Rightarrow> string list" where
  "splitOn d [] = [[]]"
| "splitOn d (c # s) = (if c = d then [] # splitOn d s else (c # hd (splitOn d s)) # tl (splitOn d s))"

fun joinWith :: "string \<Rightarrow> string list \<Rightarrow> string" where
  "joinWith sep [] = []"
| "joinWith sep [x] = x"
| "joinWith sep (x # y # xs) = x @ sep @ joinWith sep (y # xs)"

lemma splitOn_ne [simp]: "splitOn d s \<noteq> []"
  by (cases s) auto

lemma joinWith_Cons_char: "joinWith sep ((c # x) # xs) = c # joinWith sep (x # xs)"
  by (cases xs) auto

lemma joinWith_splitOn [simp]: "joinWith [d] (splitOn d s) = s"
proof (induction s)
  case Nil
  then show ?case by simp
next
  case (Cons c s)
  obtain x xs where "splitOn d s = x # xs" by (cases "splitOn d s") auto
  then show ?case using Cons by (simp add: joinWith_Cons_char)
qed

lemma splitOn_snoc: "\<exists>ys. splitOn d (u @ [d]) = ys @ [[]] \<and> ys \<noteq> []"
proof (induction u)
  case Nil
  then show ?case by simp
next
  case (Cons c u)
  then obtain ys where ys: "splitOn d (u @ [d]) = ys @ [[]]" "ys \<noteq> []" by blast
  then have "splitOn d ((c # u) @ [d]) = (if c = d then [] # ys else (c # hd ys) # tl ys) @ [[]]"
    by (cases ys) auto
  then show ?case by auto
qed

lemma last_splitOn: "last (splitOn d (u @ [d])) = []"
  using splitOn_snoc [of d u] by auto

lemma set_splitOn: "c \<in> set s \<Longrightarrow> c = d \<or> (\<exists>x \<in> set (splitOn d s). c \<in> set x)"
proof (induction s)
  case Nil
  then show ?case by simp
next
  case (Cons b s)
  obtain x xs where "splitOn d s = x # xs" by (cases "splitOn d s") auto
  then show ?case using Cons by auto
qed

lemma splitOn_no_sep: "x \<in> set (splitOn d s) \<Longrightarrow> d \<notin> set x"
proof (induction s arbitrary: x)
  case Nil
  then show ?case by simp
next
  case (Cons c s)
  obtain y ys where ys: "splitOn d s = y # ys" by (cases "splitOn d s") auto
  have "d \<notin> set y" "\<And>z. z \<in> set ys \<Longrightarrow> d \<notin> set z" using Cons.IH ys by auto
  then show ?case using Cons.prems ys by (auto split: if_splits)
qed

text \<open>\<open>strings.ReplaceAll\<close> with a non-empty old string.\<close>

function replaceAll :: "string \<Rightarrow> string \<Rightarrow> string \<Rightarrow> string" where
  "replaceAll [] old new = []"
| "replaceAll (c # s) old new =
     (if old \<noteq> [] \<and> hasPrefix (c # s) old then new @ replaceAll (drop (length old) (c # s)) old new
      else c # replaceAll s old new)"
  by pat_completeness auto
termination
proof (relation "measure (\<lambda>(s, old, new). length s)", goal_cases)
  case (2 c s old new)
  then show ?case by (cases old) auto
qed auto

section \<open>Characters\<close>

definition byteVal :: "char \<Rightarrow> nat" where "byteVal c = of_char c"

definition isUpperC :: "char \<Rightarrow> bool" where "isUpperC c \<longleftrightarrow> 65 \<le> byteVal c \<and> byteVal c \<le> 90"
definition isLowerC :: "char \<Rightarrow> bool" where "isLowerC c \<longleftrightarrow> 97 \<le> byteVal c \<and> byteVal c \<le> 122"
definition isDigitC :: "char \<Rightarrow> bool" where "isDigitC c \<longleftrightarrow> 48 \<le> byteVal c \<and> byteVal c \<le> 57"
definition isAsciiC :: "char \<Rightarrow> bool" where "isAsciiC c \<longleftrightarrow> byteVal c < 128"

definition lowerC :: "char \<Rightarrow> char" where "lowerC c = (if isUpperC c then char_of (byteVal c + 32) else c)"
definition upperC :: "char \<Rightarrow> char" where "upperC c = (if isLowerC c then char_of (byteVal c - 32) else c)"

definition toLower :: "(string \<Rightarrow> string) \<Rightarrow> string \<Rightarrow> string" where
  "toLower uni s = (if \<forall>c \<in> set s. isAsciiC c then map lowerC s else uni s)"

definition toUpper :: "(string \<Rightarrow> string) \<Rightarrow> string \<Rightarrow> string" where
  "toUpper uni s = (if \<forall>c \<in> set s. isAsciiC c then map upperC s else uni s)"

lemma byteVal_char_of [simp]: "n < 256 \<Longrightarrow> byteVal (char_of n) = n"
  by (simp add: byteVal_def)

lemma byteVal_less: "byteVal c < 256"
  by (simp add: byteVal_def nat_of_char_less_256)

lemma byteVal_inj: "byteVal a = byteVal b \<longleftrightarrow> a = b"
  by (simp add: byteVal_def of_char_eq_iff)

lemma byteVal_lowerC: "byteVal (lowerC c) = (if isUpperC c then byteVal c + 32 else byteVal c)"
  by (auto simp: lowerC_def isUpperC_def)

lemma lowerC_not_upper: "\<not> isUpperC (lowerC c)"
  by (auto simp: lowerC_def isUpperC_def)

lemma lowerC_ascii [simp]: "isAsciiC (lowerC c) \<longleftrightarrow> isAsciiC c"
  by (auto simp: lowerC_def isUpperC_def isAsciiC_def)

lemma lowerC_id: "\<not> isUpperC c \<Longrightarrow> lowerC c = c"
  by (simp add: lowerC_def)

lemma lowerC_idem [simp]: "lowerC (lowerC c) = lowerC c"
  using lowerC_not_upper lowerC_id by blast

lemma toLower_ascii: "\<forall>c \<in> set s. isAsciiC c \<Longrightarrow> toLower uni s = map lowerC s"
  by (simp add: toLower_def)

section \<open>White space\<close>

text \<open>
  The encodings of the white space of \<open>unicode.IsSpace\<close>: six ASCII bytes and the multi-byte
  space characters.
\<close>

definition spaceEncodings :: "string list" where
  "spaceEncodings = map (map char_of) [[9::nat], [10], [11], [12], [13], [32], [194, 133], [194, 160],
     [225, 154, 128], [226, 128, 128], [226, 128, 129], [226, 128, 130], [226, 128, 131], [226, 128, 132],
     [226, 128, 133], [226, 128, 134], [226, 128, 135], [226, 128, 136], [226, 128, 137], [226, 128, 138],
     [226, 128, 168], [226, 128, 169], [226, 128, 175], [226, 129, 159], [227, 128, 128]]"

text \<open>\<open>strings.TrimSpace\<close>: \<open>stripAny\<close> removes any of the given prefixes, repeatedly.\<close>

function stripAny :: "string list \<Rightarrow> string \<Rightarrow> string" where
  "stripAny ps s =
     (case find (\<lambda>p. p \<noteq> [] \<and> hasPrefix s p) ps of None \<Rightarrow> s | Some p \<Rightarrow> stripAny ps (drop (length p) s))"
  by pat_completeness auto
termination
proof (relation "measure (\<lambda>(ps, s). length s)", goal_cases)
  case (2 ps s p)
  then have "p \<noteq> []" "hasPrefix s p" by (auto simp: find_Some_iff)
  then show ?case by (auto simp: hasPrefix_iff)
qed auto

declare stripAny.simps [simp del]

definition trimSpace :: "string \<Rightarrow> string" where
  "trimSpace s = rev (stripAny (map rev spaceEncodings) (rev (stripAny spaceEncodings s)))"

lemma stripAny_drop: "\<exists>n. stripAny ps s = drop n s"
proof (induction ps s rule: stripAny.induct)
  case (1 ps s)
  show ?case
  proof (cases "find (\<lambda>p. p \<noteq> [] \<and> hasPrefix s p) ps")
    case None
    then have "stripAny ps s = drop 0 s" by (simp add: stripAny.simps [of ps s])
    then show ?thesis ..
  next
    case (Some p)
    then obtain n where "stripAny ps (drop (length p) s) = drop n (drop (length p) s)" using 1 by blast
    then have "stripAny ps s = drop (n + length p) s" by (simp add: stripAny.simps [of ps s] Some)
    then show ?thesis ..
  qed
qed

text \<open>A string of visible ASCII characters has nothing to trim.\<close>

definition visibleC :: "char \<Rightarrow> bool" where "visibleC c \<longleftrightarrow> 32 < byteVal c \<and> byteVal c < 128"

lemma spaceEncodings_heads: "p \<in> set spaceEncodings \<Longrightarrow> p \<noteq> [] \<and> \<not> visibleC (hd p) \<and> \<not> visibleC (last p)"
  by (auto simp: spaceEncodings_def visibleC_def)

lemma stripAny_visible:
  assumes "\<forall>p \<in> set ps. \<not> visibleC (hd p)" and "\<forall>c \<in> set s. visibleC c"
  shows "stripAny ps s = s"
proof -
  have "find (\<lambda>p. p \<noteq> [] \<and> hasPrefix s p) ps = None"
    using assms by (auto simp: find_None_iff hasPrefix_iff neq_Nil_conv)
  then show ?thesis by (simp add: stripAny.simps [of ps s])
qed

lemma trimSpace_visible: "\<forall>c \<in> set s. visibleC c \<Longrightarrow> trimSpace s = s"
  using spaceEncodings_heads by (simp add: trimSpace_def stripAny_visible hd_rev)

lemma trimSpace_part: "\<exists>u v. s = u @ trimSpace s @ v"
proof -
  obtain n where n: "stripAny spaceEncodings s = drop n s" using stripAny_drop by blast
  obtain k where k: "stripAny (map rev spaceEncodings) (rev (drop n s)) = drop k (rev (drop n s))"
    using stripAny_drop by blast
  have "rev (drop k (rev t)) = take (length t - k) t" for t :: string by (simp add: rev_drop)
  then have "trimSpace s = take (length (drop n s) - k) (drop n s)"
    unfolding trimSpace_def n k by blast
  then have "drop n s = trimSpace s @ drop (length (drop n s) - k) (drop n s)" by (metis append_take_drop_id)
  then show ?thesis by (metis append_take_drop_id)
qed

lemma trimSpace_subset: "set (trimSpace s) \<subseteq> set s"
  using trimSpace_part [of s] by (metis Un_upper1 Un_upper2 le_sup_iff set_append subset_trans)

section \<open>Header names and decimal integers\<close>

text \<open>\<open>textproto.CanonicalMIMEHeaderKey\<close>, which \<open>http.Header.Get\<close> applies to its argument.\<close>

definition tokenChar :: "char \<Rightarrow> bool" where
  "tokenChar c \<longleftrightarrow> isUpperC c \<or> isLowerC c \<or> isDigitC c \<or> c \<in> set ''!#$%&*+-.^_|~'' \<or> byteVal c = 39 \<or> byteVal c = 96"

fun canonicalChars :: "bool \<Rightarrow> string \<Rightarrow> string" where
  "canonicalChars up [] = []"
| "canonicalChars up (c # s) = (if up then upperC c else lowerC c) # canonicalChars (c = CHR ''-'') s"

definition canonicalKey :: "string \<Rightarrow> string" where
  "canonicalKey k = (if \<forall>c \<in> set k. tokenChar c then canonicalChars True k else k)"

type_synonym headers = "(string \<times> string list) list"

text \<open>\<open>Header.Get\<close>: the first value of the canonical key, or the empty string.\<close>

definition headerGet :: "headers \<Rightarrow> string \<Rightarrow> string" where
  "headerGet h k = (case map_of h (canonicalKey k) of Some (v # vs) \<Rightarrow> v | _ \<Rightarrow> [])"

fun natDigits :: "nat \<Rightarrow> string" where
  "natDigits n = (if n < 10 then [char_of (48 + n)] else natDigits (n div 10) @ [char_of (48 + n mod 10)])"

declare natDigits.simps [simp del]

text \<open>\<open>strconv.Itoa\<close>\<close>

definition itoa :: "int \<Rightarrow> string" where
  "itoa i = (if i < 0 then CHR ''-'' # natDigits (nat (- i)) else natDigits (nat i))"

definition digitsVal :: "string \<Rightarrow> nat" where
  "digitsVal s = foldl (\<lambda>a c. 10 * a + (byteVal c - 48)) 0 s"

lemma digitsVal_snoc: "digitsVal (s @ [c]) = 10 * digitsVal s + (byteVal c - 48)"
  by (simp add: digitsVal_def)

lemma digitsVal_natDigits [simp]: "digitsVal (natDigits n) = n"
proof (induction n rule: natDigits.induct)
  case (1 n)
  show ?case
  proof (cases "n < 10")
    case True
    then show ?thesis by (simp add: natDigits.simps [of n] digitsVal_def)
  next
    case False
    then show ?thesis using 1 by (subst natDigits.simps) (simp add: digitsVal_snoc)
  qed
qed

lemma natDigits_digits: "c \<in> set (natDigits n) \<Longrightarrow> isDigitC c"
proof (induction n rule: natDigits.induct)
  case (1 n)
  then show ?case
    by (cases "n < 10") (auto simp: natDigits.simps [of n] isDigitC_def)
qed

lemma natDigits_ne [simp]: "natDigits n \<noteq> []"
  by (simp add: natDigits.simps [of n])

definition hexChar :: "char \<Rightarrow> bool" where
  "hexChar c \<longleftrightarrow> isDigitC c \<or> 65 \<le> byteVal c \<and> byteVal c \<le> 70 \<or> 97 \<le> byteVal c \<and> byteVal c \<le> 102"

text \<open>\<open>strconv.ParseUint\<close> in base ten, and \<open>Atoi\<close>, which is also \<open>ParseInt(s, 10, 64)\<close>.\<close>

definition parseUint32 :: "string \<Rightarrow> nat option" where
  "parseUint32 s = (if s \<noteq> [] \<and> list_all isDigitC s \<and> digitsVal s < 2 ^ 32 then Some (digitsVal s) else None)"

definition parseUint64 :: "string \<Rightarrow> nat option" where
  "parseUint64 s = (if s \<noteq> [] \<and> list_all isDigitC s \<and> digitsVal s < 2 ^ 64 then Some (digitsVal s) else None)"

definition atoi :: "string \<Rightarrow> int option" where
  "atoi s =
     (let neg = (s \<noteq> [] \<and> hd s = CHR ''-''); body = (if s \<noteq> [] \<and> hd s \<in> set ''+-'' then tl s else s)
      in if body = [] \<or> \<not> list_all isDigitC body then None
         else let n = digitsVal body in if neg then (if n \<le> 2 ^ 63 then Some (- int n) else None) else if n < 2 ^ 63 then Some (int n) else None)"

lemma encodeToString_chars: "c \<in> set (encodeToString bs) \<Longrightarrow> isDigitC c \<or> 97 \<le> byteVal c \<and> byteVal c \<le> 102"
proof -
  assume "c \<in> set (encodeToString bs)"
  then obtain b where b: "b \<in> set (hexEncode bs)" "c = char_of (unat b)" by (auto simp: encodeToString_def strOf_def)
  then obtain n where n: "n < 16" "b = hexDigit n" using hexEncode_nibbles by blast
  have lt: "unat n < 16" using n(1) by (simp add: word_less_nat_alt)
  then have "unat b = (if unat n < 10 then 48 + unat n else 87 + unat n)"
    by (simp add: n(2) hexDigit_def word_less_nat_alt unat_word_ariths)
  moreover have "byteVal c = unat b" using unsigned_less [of b, where ?'a = nat] by (simp add: b(2) byteVal_def)
  ultimately show ?thesis using lt by (auto simp: isDigitC_def)
qed

lemma splitOn_step: "d \<notin> set l \<Longrightarrow> splitOn d (l @ d # s) = l # splitOn d s"
  by (induction l) auto

lemma splitOn_lines: "\<forall>l \<in> set ls. d \<notin> set l \<Longrightarrow> splitOn d (concat (map (\<lambda>l. l @ [d]) ls)) = ls @ [[]]"
  by (induction ls) (simp_all add: splitOn_step)

lemma length_natDigits: "n < 10 ^ Suc k \<Longrightarrow> length (natDigits n) \<le> Suc k"
proof (induction k arbitrary: n)
  case 0
  then show ?case by (simp add: natDigits.simps [of n])
next
  case (Suc k)
  then have "n div 10 < 10 ^ Suc k" by (simp add: div_less_iff_less_mult mult.commute)
  from Suc.IH [OF this] show ?case by (simp add: natDigits.simps [of n])
qed

end
