(* ===== verification/Security.thy ===== *)
theory Security
  imports GoStrings "HOL-Library.AList" "HOL-Library.Code_Target_Nat"
begin

text \<open>
  Redaction and secret handles (\<open>src/internal/security/redact.go\<close>, \<open>secrets.go\<close>).  The three
  regular expressions are evaluated by a small backtracking matcher that lists the match lengths in
  Perl priority order, which is the order Go's leftmost-first \<open>regexp\<close> chooses by.
\<close>

section \<open>Regular expressions\<close>

datatype rx = Eps | Cls "char \<Rightarrow> bool" | Seq rx rx | Alt rx rx | Star rx

function rxEnds :: "rx \<Rightarrow> string \<Rightarrow> nat list" where
  "rxEnds Eps s = [0]"
| "rxEnds (Cls P) s = (case s of [] \<Rightarrow> [] | c # _ \<Rightarrow> if P c then [1] else [])"
| "rxEnds (Seq a b) s = concat (map (\<lambda>n. map (\<lambda>m. n + m) (rxEnds b (drop n s))) (rxEnds a s))"
| "rxEnds (Alt a b) s = rxEnds a s @ rxEnds b s"
| "rxEnds (Star r) s =
     concat (map (\<lambda>n. if 0 < n \<and> s \<noteq> [] then map (\<lambda>m. n + m) (rxEnds (Star r) (drop n s)) else []) (rxEnds r s)) @ [0]"
  by pat_completeness auto
termination
  by (relation "measures [\<lambda>(r, s). size r, \<lambda>(r, s). length s]") auto

declare rxEnds.simps [simp del]

definition Opt :: "rx \<Rightarrow> rx" where "Opt r = Alt r Eps"
definition Plus :: "rx \<Rightarrow> rx" where "Plus r = Seq r (Star r)"

text \<open>The first match of \<open>(g)t\<close> at this position: the lengths of the group and of the rest.\<close>

definition matchHere :: "rx \<Rightarrow> rx \<Rightarrow> string \<Rightarrow> (nat \<times> nat) option" where
  "matchHere g t s =
     (case concat (map (\<lambda>n. map (\<lambda>m. (n, m)) (rxEnds t (drop n s))) (rxEnds g s)) of
        [] \<Rightarrow> None | m # _ \<Rightarrow> Some m)"

text \<open>\<open>re.ReplaceAllString(s, "${1}" + r)\<close> for \<open>re = (g)t\<close>; the expressions never match the empty string.\<close>

function replaceRx :: "rx \<Rightarrow> rx \<Rightarrow> string \<Rightarrow> string \<Rightarrow> string" where
  "replaceRx g t r [] = []"
| "replaceRx g t r (c # s) =
     (case matchHere g t (c # s) of
        Some (n, m) \<Rightarrow>
          if n + m = 0 then c # replaceRx g t r s
          else take n (c # s) @ r @ replaceRx g t r (drop (n + m) (c # s))
      | None \<Rightarrow> c # replaceRx g t r s)"
  by pat_completeness auto
termination
  by (relation "measure (\<lambda>(g, t, r, s). length s)") auto

declare replaceRx.simps [simp del]

text \<open>Under \<open>(?i)\<close> the letters k and s also match the Kelvin sign and the long s.\<close>

definition bytesRx :: "nat list \<Rightarrow> rx" where
  "bytesRx bs = foldr (\<lambda>b r. Seq (Cls (\<lambda>c. byteVal c = b)) r) bs Eps"

definition foldChar :: "char \<Rightarrow> rx" where
  "foldChar x =
     (let plain = Cls (\<lambda>c. lowerC c = lowerC x) in
      if x = CHR ''k'' then Alt plain (bytesRx [226, 132, 170])
      else if x = CHR ''s'' then Alt plain (bytesRx [197, 191]) else plain)"

definition word :: "string \<Rightarrow> rx" where
  "word w = foldr (\<lambda>c r. Seq (foldChar c) r) w Eps"

definition foldLetter :: rx where
  "foldLetter = Alt (Cls (\<lambda>c. isLowerC (lowerC c))) (Alt (bytesRx [226, 132, 170]) (bytesRx [197, 191]))"

definition isSpaceC :: "char \<Rightarrow> bool" where
  "isSpaceC c \<longleftrightarrow> byteVal c \<in> {9, 10, 12, 13, 32}"

abbreviation "spacesRx \<equiv> Star (Cls isSpaceC)"

fun altWords :: "rx list \<Rightarrow> rx" where
  "altWords [] = Cls (\<lambda>_. False)"
| "altWords [r] = r"
| "altWords (r # rs) = Alt r (altWords rs)"

section \<open>Redaction\<close>

definition Redacted :: string where "Redacted = ''[REDACTED]''"

definition SensitiveKey :: "(string \<Rightarrow> string) \<Rightarrow> string \<Rightarrow> bool" where
  "SensitiveKey uni key \<longleftrightarrow>
     toLower uni (filter (\<lambda>c. c \<notin> {CHR ''-'', CHR ''_'', CHR '' ''}) key) \<in> set [''password'', ''passwd'',
       ''passwordhash'', ''apikey'', ''xapikey'', ''hibpapikey'', ''authorization'', ''proxyauthorization'',
       ''token'', ''accesstoken'', ''refreshtoken'', ''secret'', ''clientsecret'', ''cookie'', ''setcookie'']"

definition userinfoGroup :: rx where
  "userinfoGroup = Seq foldLetter (Seq (Star (Alt foldLetter (Cls (\<lambda>c. isDigitC c \<or> c \<in> set ''+.-'')))) (word ''://''))"
definition userinfoRest :: rx where
  "userinfoRest = Seq (Plus (Cls (\<lambda>c. \<not> isSpaceC c \<and> c \<noteq> CHR ''/'' \<and> c \<noteq> CHR ''@''))) (word ''@'')"

definition headersGroup :: rx where
  "headersGroup = Seq (Alt (Seq (Opt (word ''proxy-'')) (word ''authorization'')) (Seq (Opt (word ''set-'')) (word ''cookie'')))
     (Seq spacesRx (Seq (Cls (\<lambda>c. c = CHR '':'' \<or> c = CHR ''='')) spacesRx))"
definition headersRest :: rx where
  "headersRest = Plus (Cls (\<lambda>c. byteVal c \<noteq> 13 \<and> byteVal c \<noteq> 10))"

definition keyedGroup :: rx where
  "keyedGroup =
     (let sep = Opt (Cls (\<lambda>c. c = CHR ''_'' \<or> c = CHR ''-'')) in
      Seq (altWords [word ''password'', word ''passwd'', Seq (word ''api'') (Seq sep (word ''key'')),
             Seq (word ''access'') (Seq sep (word ''token'')), word ''token'', Seq (word ''client'') (Seq sep (word ''secret''))])
      (Seq spacesRx (Seq (Cls (\<lambda>c. c = CHR ''='' \<or> c = CHR '':'')) spacesRx)))"
definition keyedRest :: rx where
  "keyedRest = Plus (Cls (\<lambda>c. \<not> isSpaceC c \<and> c \<notin> set ''&,;''))"

text \<open>\<open>url.QueryEscape\<close> and \<open>url.PathEscape\<close>.\<close>

definition upperHex :: "nat \<Rightarrow> char" where
  "upperHex n = (if n < 10 then char_of (48 + n) else char_of (55 + n))"

definition unreservedC :: "char \<Rightarrow> bool" where
  "unreservedC c \<longleftrightarrow> isLowerC c \<or> isUpperC c \<or> isDigitC c \<or> c \<in> set ''-_.~''"

definition percentChar :: "char \<Rightarrow> string" where
  "percentChar c = [CHR ''%'', upperHex (byteVal c div 16), upperHex (byteVal c mod 16)]"

definition queryEscape :: "string \<Rightarrow> string" where
  "queryEscape s = concat (map (\<lambda>c. if c = CHR '' '' then ''+'' else if unreservedC c then [c] else percentChar c) s)"

definition pathEscape :: "string \<Rightarrow> string" where
  "pathEscape s = concat (map (\<lambda>c. if unreservedC c \<or> c \<in> set ''$&+=:@'' then [c] else percentChar c) s)"

definition redactSecret :: "string \<Rightarrow> string \<Rightarrow> string" where
  "redactSecret secret text =
     (if secret = [] \<or> secret = Redacted then text
      else fold (\<lambda>v t. replaceAll t v Redacted) [secret, queryEscape secret, pathEscape secret] text)"

definition Redact :: "string \<Rightarrow> string list \<Rightarrow> string" where
  "Redact text secrets =
     (let t = fold redactSecret secrets text;
          t = replaceRx userinfoGroup userinfoRest (Redacted @ ''@'') t;
          t = replaceRx headersGroup headersRest Redacted t
      in replaceRx keyedGroup keyedRest Redacted t)"

text \<open>
  \<open>Fields\<close> on the entries of a map in the order in which Go visits them; when two redacted keys
  coincide the last visited one wins.
\<close>

definition Fields :: "(string \<Rightarrow> string) \<Rightarrow> (string \<times> string) list \<Rightarrow> string list \<Rightarrow> (string \<times> string) list" where
  "Fields uni fields secrets =
     fold (\<lambda>(k, v) out. AList.update (Redact k secrets) (if SensitiveKey uni k then Redacted else Redact v secrets) out) fields []"

section \<open>Replacing parts of a text\<close>

text \<open>
  \<open>edited r s t\<close>: \<open>t\<close> is \<open>s\<close> with some parts replaced by \<open>r\<close>.  A text \<open>v\<close> that has no character
  of \<open>r\<close> and occurs in \<open>t\<close> already occurred in \<open>s\<close>.
\<close>

inductive edited :: "string \<Rightarrow> string \<Rightarrow> string \<Rightarrow> bool" for r where
  edited_Nil: "edited r [] []"
| edited_copy: "edited r s t \<Longrightarrow> edited r (c # s) (c # t)"
| edited_cut: "edited r s t \<Longrightarrow> edited r (u @ s) (r @ t)"

lemma edited_refl: "edited r s s"
  by (induction s) (auto intro: edited.intros)

lemma edited_copies: "edited r s t \<Longrightarrow> edited r (u @ s) (u @ t)"
  by (induction u) (auto intro: edited.intros)

lemma contains_append_disjoint:
  assumes "containsStr (r @ t) v" and "v \<noteq> []" and "hd v \<notin> set r"
  shows "containsStr t v"
  using assms by (induction r) (auto simp: neq_Nil_conv)

lemma edited_prefix:
  assumes "edited r s t" and "r \<noteq> []" and "set v \<inter> set r = {}" and "hasPrefix t v"
  shows "hasPrefix s v"
  using assms
proof (induction arbitrary: v)
  case edited_Nil
  then show ?case by simp
next
  case (edited_copy s t c)
  then show ?case by (cases v) auto
next
  case (edited_cut s t u)
  obtain y ys where r: "r = y # ys" using edited_cut.prems(1) by (auto simp: neq_Nil_conv)
  have "v = []" using edited_cut.prems(2,3) by (cases v) (auto simp: r)
  then show ?case by simp
qed

lemma edited_contains:
  assumes "edited r s t" and "r \<noteq> []" and "v \<noteq> []" and "set v \<inter> set r = {}" and "containsStr t v"
  shows "containsStr s v"
  using assms
proof induction
  case edited_Nil
  then show ?case by simp
next
  case (edited_copy s t c)
  then show ?case
    using edited_prefix [OF edited.edited_copy [OF edited_copy.hyps, of c], of v] by auto
next
  case (edited_cut s t u)
  have "hd v \<notin> set r" using edited_cut.prems by (cases v) auto
  then have "containsStr s v" using edited_cut contains_append_disjoint by blast
  then show ?case by (induction u) auto
qed

lemma replaceAll_edited: "edited new s (replaceAll s old new)"
proof (induction s old new rule: replaceAll.induct)
  case (1 old new)
  then show ?case by (simp add: edited_refl)
next
  case (2 c s old new)
  show ?case
  proof (cases "old \<noteq> [] \<and> hasPrefix (c # s) old")
    case True
    have "edited new (take (length old) (c # s) @ drop (length old) (c # s))
        (new @ replaceAll (drop (length old) (c # s)) old new)"
      by (rule edited_cut) (use 2(1) True in blast)
    then show ?thesis using True by (simp del: drop.simps take.simps append_take_drop_id add: append_take_drop_id)
  next
    case False
    then show ?thesis using 2(2) by (auto intro: edited_copy)
  qed
qed

lemma replaceAll_removes:
  assumes "old \<noteq> []" and "new \<noteq> []" and "set old \<inter> set new = {}"
  shows "\<not> containsStr (replaceAll s old new) old"
  using assms
proof (induction s old new rule: replaceAll.induct)
  case (1 old new)
  then show ?case by simp
next
  case (2 c s old new)
  have hd: "hd old \<notin> set new" using 2(3,5) by (cases old) auto
  show ?case
  proof (cases "hasPrefix (c # s) old")
    case True
    then have "\<not> containsStr (replaceAll (drop (length old) (c # s)) old new) old" using 2 by blast
    then show ?thesis using contains_append_disjoint [OF _ 2(3) hd] True 2(3) by auto
  next
    case False
    then have rest: "\<not> containsStr (replaceAll s old new) old" using 2 by blast
    have "edited new (c # s) (c # replaceAll s old new)" by (rule edited_copy) (rule replaceAll_edited)
    then have "\<not> hasPrefix (c # replaceAll s old new) old"
      using edited_prefix 2(4,5) False by blast
    then show ?thesis using rest False by simp
  qed
qed

lemma matchHere_ends:
  assumes "matchHere g t s = Some (n, m)"
  shows "n \<in> set (rxEnds g s)" and "m \<in> set (rxEnds t (drop n s))"
proof -
  let ?l = "concat (map (\<lambda>n. map (\<lambda>m. (n, m)) (rxEnds t (drop n s))) (rxEnds g s))"
  have "(n, m) \<in> set ?l" using assms by (cases ?l) (auto simp: matchHere_def simp del: set_concat)
  then show "n \<in> set (rxEnds g s)" "m \<in> set (rxEnds t (drop n s))" by auto
qed

lemma rxEnds_le: "n \<in> set (rxEnds r s) \<Longrightarrow> n \<le> length s"
proof (induction r s arbitrary: n rule: rxEnds.induct)
  case (3 a b s)
  then obtain k m where "k \<in> set (rxEnds a s)" "m \<in> set (rxEnds b (drop k s))" "n = k + m"
    by (auto simp: rxEnds.simps(3))
  moreover from this have "k \<le> length s" "m \<le> length (drop k s)" using 3 by blast+
  ultimately show ?case by simp
next
  case (5 r s)
  show ?case
  proof (cases "n = 0")
    case False
    then obtain k m where k: "k \<in> set (rxEnds r s)" "0 < k \<and> s \<noteq> []" "m \<in> set (rxEnds (Star r) (drop k s))" "n = k + m"
      using 5(3) by (auto simp: rxEnds.simps(5) [of r s] split: if_splits)
    then have "k \<le> length s" "m \<le> length (drop k s)" using 5(1,2) by blast+
    then show ?thesis using k(4) by simp
  qed simp
qed (auto simp: rxEnds.simps split: list.splits if_splits)

text \<open>A replacement whose fixed tail \<open>e\<close> is the end of every match keeps that tail in place.\<close>

lemma replaceRx_edited:
  assumes "\<And>s n m. matchHere g t s = Some (n, m) \<Longrightarrow> \<exists>u. take m (drop n s) = u @ e"
  shows "edited r s (replaceRx g t (r @ e) s)"
proof (induction "length s" arbitrary: s rule: less_induct)
  case less
  show ?case
  proof (cases s)
    case Nil
    then show ?thesis by (simp add: replaceRx.simps edited_refl)
  next
    case (Cons c s')
    have copy: "edited r s (c # replaceRx g t (r @ e) s')"
      using less [of s'] Cons by (auto intro: edited_copy)
    show ?thesis
    proof (cases "matchHere g t s")
      case None
      then show ?thesis using copy Cons by (simp add: replaceRx.simps)
    next
      case (Some nm)
      obtain n m where nm: "nm = (n, m)" by fastforce
      show ?thesis
      proof (cases "n + m = 0")
        case True
        then show ?thesis using copy Cons Some nm by (simp add: replaceRx.simps)
      next
        case False
        obtain u where u: "take m (drop n s) = u @ e" using assms Some nm by blast
        have "take n s @ (u @ e) @ drop (n + m) s = s"
          using append_take_drop_id [of m "drop n s"] append_take_drop_id [of n s]
          by (simp add: add.commute flip: u)
        moreover have "edited r (take n s @ u @ e @ drop (n + m) s)
            (take n s @ r @ e @ replaceRx g t (r @ e) (drop (n + m) s))"
          using less [of "drop (n + m) s"] False Cons
          by (intro edited_copies edited_cut) simp
        ultimately show ?thesis
          using Cons Some nm False by (auto simp: replaceRx.simps)
      qed
    qed
  qed
qed

lemma userinfo_tail: "matchHere userinfoGroup userinfoRest s = Some (n, m) \<Longrightarrow> \<exists>u. take m (drop n s) = u @ ''@''"
proof -
  assume "matchHere userinfoGroup userinfoRest s = Some (n, m)"
  then have "m \<in> set (rxEnds userinfoRest (drop n s))" by (rule matchHere_ends(2))
  then obtain k j where k: "j \<in> set (rxEnds (word ''@'') (drop k (drop n s)))" "m = k + j"
    unfolding userinfoRest_def by (auto simp: rxEnds.simps(3))
  obtain x xs where x: "drop k (drop n s) = x # xs" "lowerC x = CHR ''@''" "j = 1"
    using k(1) by (cases "drop k (drop n s)")
      (auto simp: word_def foldChar_def rxEnds.simps lowerC_def isUpperC_def byteVal_def split: if_splits)
  have "byteVal (lowerC x) = 64" using x(2) by (simp add: byteVal_def)
  then have "\<not> isUpperC x" by (auto simp: byteVal_lowerC isUpperC_def)
  then have "x = CHR ''@''" using x(2) by (simp add: lowerC_def)
  have "take m (drop n s) = take k (drop n s) @ take j (drop k (drop n s))" by (simp only: k(2) take_add)
  also have "take j (drop k (drop n s)) = ''@''" unfolding x(1) using x(3) \<open>x = _\<close> by simp
  finally have "take m (drop n s) = take k (drop n s) @ ''@''" .
  then show ?thesis ..
qed

lemma fold_replaceAll_edited:
  assumes "edited r s t"
  shows "v \<noteq> [] \<Longrightarrow> set v \<inter> set r = {} \<Longrightarrow> r \<noteq> [] \<Longrightarrow> \<not> containsStr s v
    \<Longrightarrow> \<not> containsStr (fold (\<lambda>x t. replaceAll t x r) xs t) v"
  using assms
proof (induction xs arbitrary: s t)
  case Nil
  then show ?case using edited_contains by auto
next
  case (Cons x xs)
  have "\<not> containsStr t v" using Cons.prems edited_contains by blast
  then show ?case using Cons.IH [of t "replaceAll t x r"] Cons.prems replaceAll_edited by simp
qed

lemma redactSecret_keeps:
  assumes "v \<noteq> []" and "set v \<inter> set Redacted = {}" and "\<not> containsStr t v"
  shows "\<not> containsStr (redactSecret x t) v"
proof (cases "x = [] \<or> x = Redacted")
  case False
  then show ?thesis
    using fold_replaceAll_edited [OF edited_refl assms(1,2) _ assms(3), of "[x, queryEscape x, pathEscape x]"]
    by (simp add: redactSecret_def Redacted_def)
qed (use assms(3) in \<open>auto simp: redactSecret_def\<close>)

lemma redactSecret_removes:
  assumes "v \<noteq> []" and "set v \<inter> set Redacted = {}"
  shows "\<not> containsStr (redactSecret v t) v"
proof -
  have "\<not> containsStr (replaceAll t v Redacted) v"
    using assms by (intro replaceAll_removes) (simp_all add: Redacted_def)
  from fold_replaceAll_edited [OF edited_refl assms(1,2) _ this, of "[queryEscape v, pathEscape v]"]
  have "\<not> containsStr (fold (\<lambda>x t. replaceAll t x Redacted) [v, queryEscape v, pathEscape v] t) v"
    by (simp add: Redacted_def)
  moreover have "v \<noteq> Redacted" using assms by (auto simp: Redacted_def)
  ultimately show ?thesis using assms(1) by (simp add: redactSecret_def)
qed

lemma fold_redactSecret_removes:
  assumes "v \<noteq> []" and "set v \<inter> set Redacted = {}"
  shows "v \<in> set secrets \<or> \<not> containsStr t v \<Longrightarrow> \<not> containsStr (fold redactSecret secrets t) v"
proof (induction secrets arbitrary: t)
  case Nil
  then show ?case by simp
next
  case (Cons x xs)
  have "v \<in> set xs \<or> \<not> containsStr (redactSecret x t) v"
    using Cons.prems redactSecret_keeps [OF assms] redactSecret_removes [OF assms] by auto
  then show ?case using Cons.IH by simp
qed

lemma Redact_edited:
  assumes "v \<noteq> []" and "set v \<inter> set Redacted = {}" and "\<not> containsStr (fold redactSecret secrets text) v"
  shows "\<not> containsStr (Redact text secrets) v"
proof -
  let ?t = "fold redactSecret secrets text"
  have R: "Redacted \<noteq> []" by (simp add: Redacted_def)
  let ?u = "replaceRx userinfoGroup userinfoRest (Redacted @ ''@'') ?t"
  have "edited Redacted ?t ?u" by (rule replaceRx_edited) (rule userinfo_tail)
  then have u: "\<not> containsStr ?u v" using edited_contains [OF _ R assms(1,2)] assms(3) by blast
  have any: "edited Redacted s (replaceRx g t Redacted s)" for g t s
    using replaceRx_edited [of g t "[]" Redacted s] by simp
  have "\<not> containsStr (replaceRx headersGroup headersRest Redacted ?u) v"
    using edited_contains [OF any R assms(1,2)] u by blast
  then have "\<not> containsStr (replaceRx keyedGroup keyedRest Redacted (replaceRx headersGroup headersRest Redacted ?u)) v"
    using edited_contains [OF any R assms(1,2)] by blast
  then show ?thesis by (simp add: Redact_def Let_def)
qed

section \<open>Secret handles\<close>

text \<open>
  The shared buffers behind the handles: a handle is a reference or nil, and every copy of it refers
  to the same buffer.
\<close>

type_synonym secretStore = "nat \<Rightarrow> string"
type_synonym secret = "nat option"

definition SecretEmpty :: "secretStore \<Rightarrow> secret \<Rightarrow> bool" where
  "SecretEmpty st s = (case s of None \<Rightarrow> True | Some r \<Rightarrow> st r = [])"

definition Reveal :: "secretStore \<Rightarrow> secret \<Rightarrow> string" where
  "Reveal st s = (case s of None \<Rightarrow> [] | Some r \<Rightarrow> st r)"

text \<open>\<open>Consume\<close>: the callback's result, and the cleared buffer even when it fails.\<close>

definition Consume :: "secretStore \<Rightarrow> secret \<Rightarrow> (string \<Rightarrow> string + 'a) \<Rightarrow> (string + 'a) \<times> secretStore" where
  "Consume st s use =
     (case s of None \<Rightarrow> (Inl ''secret input is empty or already consumed'', st)
      | Some r \<Rightarrow> (if st r = [] then Inl ''secret input is empty or already consumed'' else use (st r), st(r := [])))"

definition Destroy :: "secretStore \<Rightarrow> secret \<Rightarrow> secretStore" where
  "Destroy st s = (case s of None \<Rightarrow> st | Some r \<Rightarrow> st(r := []))"

datatype secretOp = OpConsume secret | OpDestroy secret

definition secretStep :: "secretOp \<Rightarrow> secretStore \<Rightarrow> secretStore" where
  "secretStep op st = (case op of OpConsume s \<Rightarrow> snd (Consume st s (\<lambda>_. Inr ())) | OpDestroy s \<Rightarrow> Destroy st s)"

lemma secretStep_cleared: "st r = [] \<Longrightarrow> secretStep op st r = []"
  by (auto simp: secretStep_def Consume_def Destroy_def split: secretOp.split option.split)

lemma secretSteps_cleared: "st r = [] \<Longrightarrow> fold secretStep ops st r = []"
  by (induction ops arbitrary: st) (simp_all add: secretStep_cleared)

section \<open>Properties\<close>

text \<open>C5: redaction removes a known secret: whatever the text and the other secrets, the redacted text
  does not contain a non-empty secret that shares no character with the marker \<open>[REDACTED]\<close>.\<close>

theorem redact_removes_secret:
  assumes "secret \<in> set secrets" and "secret \<noteq> []" and "set secret \<inter> set Redacted = {}"
  shows "\<not> containsStr (Redact text secrets) secret"
  using Redact_edited [OF assms(2,3)] fold_redactSecret_removes [OF assms(2,3)] assms(1) by blast

theorem redact_removes_secret_witness:
  "\<not> containsStr (Redact ''key hunter2 leaked'' [''x1'', ''hunter2'']) ''hunter2''"
  using redact_removes_secret [of "''hunter2''" "[''x1'', ''hunter2'']"] by (simp add: Redacted_def)

text \<open>A secret is used at most once: after \<open>Consume\<close> through any handle every later \<open>Consume\<close>,
  through this or any other copy of the handle and after any further operations, fails, and every
  copy reveals nothing.\<close>

theorem secret_consumed_once:
  assumes "Consume st s use = (out, st')"
  shows "Reveal (fold secretStep ops st') s = []
    \<and> fst (Consume (fold secretStep ops st') s use') = Inl ''secret input is empty or already consumed''"
proof (cases s)
  case None
  then show ?thesis by (simp add: Reveal_def Consume_def)
next
  case (Some r)
  then have "st' r = []" using assms by (auto simp: Consume_def)
  then have "fold secretStep ops st' r = []" by (rule secretSteps_cleared)
  then show ?thesis by (simp add: Some Reveal_def Consume_def)
qed

theorem secret_consumed_once_witness:
  "Reveal (snd (Consume (\<lambda>_. ''pw'') (Some 0) (\<lambda>x. Inr x))) (Some 0) = []"
  using secret_consumed_once [of "\<lambda>_. ''pw''" "Some 0" "\<lambda>x. Inr x" "Inr ''pw''" "(\<lambda>_. ''pw'')(0 := [])" "[]"]
  by (simp add: Consume_def)

text \<open>The condition on the marker is needed: a secret that can be completed by the end of the
  marker survives its own redaction, because the text after a replaced occurrence is not looked at
  again together with the marker.\<close>

theorem redact_residue:
  "containsStr (Redact '']xx'' ['']x'']) '']x''"
  by code_simp

end
