(* ===== verification/Models.thy ===== *)
theory Models
  imports Security
begin

text \<open>
  The data model shared by every component (\<open>src/internal/models\<close>): target types and their
  validating constructors, the normalized result, the interpretation of its evidence, and the site
  configuration.  Go's string enumerations stay strings, because a value outside the enumeration is
  possible and handled.  The argument \<open>uni\<close> stands for the Unicode case tables.
\<close>

section \<open>Target types and source types\<close>

definition TargetBitcoinTransaction :: string where "TargetBitcoinTransaction = ''bitcoin_tx''"
definition TargetBitcoin :: string where "TargetBitcoin = ''bitcoin''"
definition TargetIP :: string where "TargetIP = ''ip''"
definition TargetDomain :: string where "TargetDomain = ''domain''"
definition TargetUsername :: string where "TargetUsername = ''username''"
definition TargetEmail :: string where "TargetEmail = ''email''"
definition TargetPassword :: string where "TargetPassword = ''password''"
definition TargetPasswordHash :: string where "TargetPasswordHash = ''password_hash''"

lemmas target_type_defs = TargetBitcoinTransaction_def TargetBitcoin_def TargetIP_def TargetDomain_def
  TargetUsername_def TargetEmail_def TargetPassword_def TargetPasswordHash_def

definition kindValid :: "string \<Rightarrow> bool" where
  "kindValid t \<longleftrightarrow> t \<in> set [TargetUsername, TargetEmail, TargetPassword, TargetPasswordHash, TargetDomain,
     TargetIP, TargetBitcoin, TargetBitcoinTransaction]"

definition Sensitive :: "string \<Rightarrow> bool" where
  "Sensitive t \<longleftrightarrow> t = TargetPassword \<or> t = TargetPasswordHash"

definition SourceWebsite :: string where "SourceWebsite = ''website''"
definition SourceAPI :: string where "SourceAPI = ''api''"
definition SourceLocal :: string where "SourceLocal = ''local''"

lemmas source_type_defs = SourceWebsite_def SourceAPI_def SourceLocal_def

section \<open>Targets\<close>

record Target =
  tKind :: string
  tValue :: string
  tSecret :: secret

definition plainTarget :: "string \<Rightarrow> string \<Rightarrow> Target" where
  "plainTarget kind v = \<lparr>tKind = kind, tValue = v, tSecret = None\<rparr>"

definition NewBitcoinTransactionTarget :: "(string \<Rightarrow> string) \<Rightarrow> string \<Rightarrow> string + Target" where
  "NewBitcoinTransactionTarget uni value =
     (let err = ''invalid Bitcoin transaction ID'' in
      failIf (length value > 128) err
      (let v = trimSpace value in
       failIf (length v \<noteq> 64) err
       (failIf (\<not> snd (decodeString v)) err (Inr (plainTarget TargetBitcoinTransaction (toLower uni v))))))"

text \<open>The labels of \<open>NewDomainTarget\<close>; \<open>isAddr\<close> is \<open>netip.ParseAddr\<close> succeeding.\<close>

definition labelOK :: "string \<Rightarrow> bool" where
  "labelOK l \<longleftrightarrow> l \<noteq> [] \<and> length l \<le> 63 \<and> hd l \<noteq> CHR ''-'' \<and> last l \<noteq> CHR ''-''
     \<and> (\<forall>c \<in> set l. isLowerC c \<or> isDigitC c \<or> c = CHR ''-'')"

definition NewDomainTarget :: "(string \<Rightarrow> string) \<Rightarrow> (string \<Rightarrow> bool) \<Rightarrow> string \<Rightarrow> string + Target" where
  "NewDomainTarget uni isAddr value =
     (let err = ''invalid domain; use a bare ASCII/punycode hostname'' in
      failIf (length value > 255) err
      (let v = toLower uni (trimSuffix (trimSpace value) ''.'') in
       failIf (v = [] \<or> length v > 253) err
       (failIf (isAddr v) err
       (let labels = splitOn (CHR ''.'') v in
        failIf (length labels < 2) err
        (failIf (\<exists>l \<in> set labels. \<not> labelOK l) err
        (failIf (\<not> (\<exists>c \<in> set (last labels). isLowerC c)) err
        (Inr (plainTarget TargetDomain v))))))))"

text \<open>\<open>netip.ParseAddr\<close> and \<open>Unmap().String()\<close>: the zone and the canonical text of a literal.\<close>

definition NewIPTarget :: "(string \<Rightarrow> (string \<times> string) option) \<Rightarrow> string \<Rightarrow> string + Target" where
  "NewIPTarget parseAddr value =
     (let err = ''invalid IP; provide one IPv4 or IPv6 address'' in
      failIf (length value > 64) err
      (case parseAddr (trimSpace value) of
         None \<Rightarrow> Inl err
       | Some (zone, canonical) \<Rightarrow> failIf (zone \<noteq> []) err (Inr (plainTarget TargetIP canonical))))"

definition NewSensitiveTarget :: "secretStore \<Rightarrow> string \<Rightarrow> secret \<Rightarrow> string + Target" where
  "NewSensitiveTarget st kind s =
     failIf (\<not> Sensitive kind \<or> SecretEmpty st s) ''invalid sensitive target''
       (Inr \<lparr>tKind = kind, tValue = [], tSecret = s\<rparr>)"

definition TargetValue :: "secretStore \<Rightarrow> Target \<Rightarrow> string" where
  "TargetValue st t = (if Sensitive (tKind t) then Reveal st (tSecret t) else tValue t)"

definition TargetValid :: "secretStore \<Rightarrow> Target \<Rightarrow> bool" where
  "TargetValid st t \<longleftrightarrow>
     (if Sensitive (tKind t) then \<not> SecretEmpty st (tSecret t) else kindValid (tKind t) \<and> tValue t \<noteq> [])"

definition TargetString :: "Target \<Rightarrow> string" where
  "TargetString t = (if Sensitive (tKind t) then Redacted else tValue t)"

text \<open>\<open>LegacyTarget\<close> followed by \<open>Type\<close>, on a non-empty value.\<close>

definition legacyKind :: "string \<Rightarrow> string" where
  "legacyKind v = (if containsStr v ''@'' then TargetEmail else TargetUsername)"

section \<open>Results\<close>

definition StatusFound :: string where "StatusFound = ''found''"
definition StatusNotFound :: string where "StatusNotFound = ''not_found''"
definition StatusBlocked :: string where "StatusBlocked = ''blocked''"
definition StatusError :: string where "StatusError = ''error''"

lemmas status_defs = StatusFound_def StatusNotFound_def StatusBlocked_def StatusError_def

record Evidence =
  evKind :: string
  evValue :: string

record Result =
  rSource :: string
  rSourceType :: string
  rTargetType :: string
  rEvidence :: "Evidence list"
  rMetadata :: "(string \<times> string) list"
  rSiteName :: string
  rTarget :: string
  rURL :: string
  rFound :: bool
  rConfidence :: int
  rStatus :: string
  rDuration :: int
  rError :: string
  rFinalURL :: string

definition emptyResult :: Result where
  "emptyResult = \<lparr>rSource = [], rSourceType = [], rTargetType = [], rEvidence = [], rMetadata = [], rSiteName = [],
     rTarget = [], rURL = [], rFound = False, rConfidence = 0, rStatus = [], rDuration = 0, rError = [], rFinalURL = []\<rparr>"

definition NewResult :: "string \<Rightarrow> string \<Rightarrow> Target \<Rightarrow> Result" where
  "NewResult source sourceType t =
     emptyResult\<lparr>rSource := source, rSourceType := sourceType, rTarget := TargetString t, rTargetType := tKind t\<rparr>"

text \<open>The status a row without one gets, and the unexported \<open>normalized\<close>.\<close>

definition inferredStatus :: "Result \<Rightarrow> string" where
  "inferredStatus r =
     (if rStatus r \<noteq> [] then rStatus r
      else if rError r \<noteq> [] then StatusError else if rFound r then StatusFound else StatusNotFound)"

definition normalized :: "Result \<Rightarrow> Result" where
  "normalized r =
     (let r = (if rSource r = [] then r\<lparr>rSource := rSiteName r\<rparr> else r);
          r = (if rSiteName r = [] then r\<lparr>rSiteName := rSource r\<rparr> else r);
          r = (if rTargetType r = [] \<and> rTarget r \<noteq> [] then r\<lparr>rTargetType := legacyKind (rTarget r)\<rparr> else r);
          r = r\<lparr>rStatus := inferredStatus r\<rparr>
      in r\<lparr>rFound := (rStatus r = StatusFound)\<rparr>)"

definition cleanEvidence :: "(string \<Rightarrow> string) \<Rightarrow> string list \<Rightarrow> Evidence \<Rightarrow> Evidence" where
  "cleanEvidence uni secrets e =
     \<lparr>evKind = Redact (evKind e) secrets,
      evValue = (if SensitiveKey uni (evKind e) then Redacted else Redact (evValue e) secrets)\<rparr>"

definition RedactedResult :: "(string \<Rightarrow> string) \<Rightarrow> string list \<Rightarrow> Result \<Rightarrow> Result" where
  "RedactedResult uni secrets0 r0 =
     (let sensitive = Sensitive (rTargetType r0);
          secrets = (if sensitive then secrets0 @ [rTarget r0] else secrets0);
          r = (if sensitive then r0\<lparr>rTarget := Redacted\<rparr> else r0);
          clean = (\<lambda>s. Redact s secrets)
      in r\<lparr>rSource := clean (rSource r), rSiteName := clean (rSiteName r), rTarget := clean (rTarget r),
           rURL := clean (rURL r), rFinalURL := clean (rFinalURL r), rError := clean (rError r),
           rMetadata := Fields uni (rMetadata r) secrets,
           rEvidence := map (cleanEvidence uni secrets) (rEvidence r)\<rparr>)"

definition Normalized :: "(string \<Rightarrow> string) \<Rightarrow> Result \<Rightarrow> Result" where
  "Normalized uni r = normalized (RedactedResult uni [] r)"

definition OutcomeLabel :: "(string \<Rightarrow> string) \<Rightarrow> Result \<Rightarrow> string" where
  "OutcomeLabel uni r0 =
     (let r = Normalized uni r0 in
      if rTargetType r = TargetPassword
      then (if rStatus r = StatusFound then ''PWNED'' else if rStatus r = StatusNotFound then ''NOT PWNED'' else ''ERROR'')
      else rStatus r)"

text \<open>The evidence followed by the metadata in key order.\<close>

definition Details :: "(string \<Rightarrow> string) \<Rightarrow> Result \<Rightarrow> Evidence list" where
  "Details uni r0 =
     (let r = Normalized uni r0 in
      rEvidence r @ map (\<lambda>k. \<lparr>evKind = k, evValue = (case map_of (rMetadata r) k of Some v \<Rightarrow> v | None \<Rightarrow> [])\<rparr>)
        (sort (map fst (rMetadata r))))"

definition ProviderLabelObservation :: "Result \<Rightarrow> bool" where
  "ProviderLabelObservation r \<longleftrightarrow>
     rSource r = ''bitcoin-labels'' \<and> rSourceType r = SourceAPI \<and> rTargetType r = TargetBitcoin"

definition UnscoredObservation :: "Result \<Rightarrow> bool" where
  "UnscoredObservation r \<longleftrightarrow> ProviderLabelObservation r
     \<or> rSource r = ''bitcoin-tx'' \<and> rSourceType r = SourceAPI \<and> rTargetType r = TargetBitcoinTransaction"

definition ConfidenceLabel :: "Result \<Rightarrow> string" where
  "ConfidenceLabel r = (if UnscoredObservation r then ''not scored'' else itoa (rConfidence r) @ ''%'')"

section \<open>What the evidence of a result means\<close>

datatype ObservationKind = ObservationUnknown | ObservationWebsite | ObservationBreach | ObservationBitcoinLabels
  | ObservationBitcoinTransaction | ObservationBitcoin | ObservationIP | ObservationDomain | ObservationPassword

datatype EvidenceMeaning = MeaningObservation | MeaningAbsence | MeaningError | MeaningUnknown

definition observationKind :: "Result \<Rightarrow> ObservationKind" where
  "observationKind r =
     (let src = rSource r; st = rSourceType r; tt = rTargetType r in
      if src = ''bitcoin-tx'' \<and> st = SourceAPI \<and> tt = TargetBitcoinTransaction then ObservationBitcoinTransaction
      else if ProviderLabelObservation r then ObservationBitcoinLabels
      else if src = ''bitcoin'' \<and> st = SourceAPI \<and> tt = TargetBitcoin then ObservationBitcoin
      else if src = ''ipinfo'' \<and> st = SourceAPI \<and> tt = TargetIP then ObservationIP
      else if st = SourceWebsite \<and> (tt = TargetUsername \<or> tt = TargetEmail) then ObservationWebsite
      else if src = ''hibp'' \<and> st = SourceAPI \<and> tt = TargetEmail then ObservationBreach
      else if src = ''securitytrails'' \<and> st = SourceAPI \<and> tt = TargetDomain then ObservationDomain
      else if tt = TargetPassword \<and> (src = ''pwned-passwords'' \<and> st = SourceAPI
          \<or> src = ''pwned-passwords-local'' \<and> st = SourceLocal) then ObservationPassword
      else ObservationUnknown)"

definition evidenceMeaning :: "Result \<Rightarrow> ObservationKind \<Rightarrow> EvidenceMeaning" where
  "evidenceMeaning r kind =
     (if rStatus r = StatusError then MeaningError
      else if rStatus r = StatusFound then MeaningObservation
      else if rStatus r = StatusNotFound then
        (case kind of ObservationBreach \<Rightarrow> MeaningAbsence | ObservationPassword \<Rightarrow> MeaningAbsence
         | ObservationBitcoinTransaction \<Rightarrow> MeaningAbsence | ObservationBitcoinLabels \<Rightarrow> MeaningObservation
         | ObservationWebsite \<Rightarrow> MeaningObservation | _ \<Rightarrow> MeaningUnknown)
      else if rStatus r = [] then
        (if rError r \<noteq> [] then MeaningError else if rFound r then MeaningObservation else MeaningUnknown)
      else MeaningUnknown)"

definition EvidenceSemantics :: "Result \<Rightarrow> ObservationKind \<times> EvidenceMeaning" where
  "EvidenceSemantics r = (let k = observationKind r in (k, evidenceMeaning r k))"

section \<open>Site configuration\<close>

record WAFConfig =
  wafStatusCodes :: "int list"
  wafHeaderKeys :: "string list"
  wafBodySubstrings :: "string list"

record SiteConfig =
  scName :: string
  scURL :: string
  scURLProbe :: string
  scURLMain :: string
  scEngine :: string
  scRequestMethod :: string
  scRequestPayload :: string
  scRequestHeadOnly :: bool
  scHeaders :: "(string \<times> string) list"
  scCheckType :: string
  scAbsenceStrs :: "string list"
  scAbsenceRegexes :: "string list"
  scErrorCode :: int
  scErrorURL :: string
  scPresenceStrs :: "string list"
  scPresenceRegexes :: "string list"
  scFollowRedirects :: bool
  scRedirectFailurePatterns :: "string list"
  scRequiredHeaders :: "(string \<times> string) list"
  scWAFIndicators :: WAFConfig
  scProtection :: "string list"
  scDisabled :: bool
  scWeight :: "64 word"
  scTags :: "string list"
  scRegexCheck :: string
  scUsernameClaimed :: string
  scUsernameUnclaimed :: string
  scAlexaRank :: int
  scSource :: string

text \<open>The zero values.\<close>

definition zeroSite :: SiteConfig where
  "zeroSite = \<lparr>scName = [], scURL = [], scURLProbe = [], scURLMain = [], scEngine = [], scRequestMethod = [],
     scRequestPayload = [], scRequestHeadOnly = False, scHeaders = [], scCheckType = [], scAbsenceStrs = [],
     scAbsenceRegexes = [], scErrorCode = 0, scErrorURL = [], scPresenceStrs = [], scPresenceRegexes = [],
     scFollowRedirects = False, scRedirectFailurePatterns = [], scRequiredHeaders = [],
     scWAFIndicators = \<lparr>wafStatusCodes = [], wafHeaderKeys = [], wafBodySubstrings = []\<rparr>, scProtection = [],
     scDisabled = False, scWeight = 0, scTags = [], scRegexCheck = [], scUsernameClaimed = [],
     scUsernameUnclaimed = [], scAlexaRank = 0, scSource = []\<rparr>"

lemma evidenceMeaning_absence:
  "evidenceMeaning r k = MeaningAbsence \<longleftrightarrow> rStatus r = StatusNotFound
    \<and> (k = ObservationBreach \<or> k = ObservationPassword \<or> k = ObservationBitcoinTransaction)"
  by (cases k) (auto simp: evidenceMeaning_def status_defs)

section \<open>Canonical domains\<close>

lemma visible_ascii: "visibleC c \<Longrightarrow> isAsciiC c"
  by (simp add: visibleC_def isAsciiC_def)

lemma toLower_id:
  assumes "\<forall>c \<in> set s. visibleC c \<and> \<not> isUpperC c"
  shows "toLower uni s = s"
proof -
  have "toLower uni s = map lowerC s" using assms visible_ascii by (simp add: toLower_def)
  then show ?thesis using assms lowerC_id by (simp add: map_idI)
qed

lemma domain_char: "isLowerC c \<or> isDigitC c \<or> c = CHR ''-'' \<or> c = CHR ''.'' \<Longrightarrow> visibleC c \<and> \<not> isUpperC c"
  by (auto simp: isLowerC_def isDigitC_def visibleC_def isUpperC_def byteVal_def)

lemma NewDomainTarget_Inr:
  assumes "NewDomainTarget uni isAddr value = Inr t"
  obtains v where "t = plainTarget TargetDomain v" "v \<noteq> []" "length v \<le> 253" "\<not> isAddr v"
    "\<forall>l \<in> set (splitOn (CHR ''.'') v). labelOK l" "2 \<le> length (splitOn (CHR ''.'') v)"
    "\<exists>c \<in> set (last (splitOn (CHR ''.'') v)). isLowerC c"
proof -
  define v where "v = toLower uni (trimSuffix (trimSpace value) ''.'')"
  have "t = plainTarget TargetDomain v \<and> v \<noteq> [] \<and> length v \<le> 253 \<and> \<not> isAddr v
    \<and> (\<forall>l \<in> set (splitOn (CHR ''.'') v). labelOK l) \<and> 2 \<le> length (splitOn (CHR ''.'') v)
    \<and> (\<exists>c \<in> set (last (splitOn (CHR ''.'') v)). isLowerC c)"
    using assms unfolding NewDomainTarget_def Let_def v_def [symmetric] res_simps
    by (auto simp: not_less)
  then show thesis using that by blast
qed

lemma domain_fixed:
  assumes "\<forall>l \<in> set (splitOn (CHR ''.'') v). labelOK l"
  shows "trimSpace v = v" and "toLower uni v = v" and "trimSuffix v ''.'' = v"
proof -
  have "\<forall>c \<in> set v. isLowerC c \<or> isDigitC c \<or> c = CHR ''-'' \<or> c = CHR ''.''"
  proof
    fix c assume "c \<in> set v"
    from set_splitOn [OF this, of "CHR ''.''"]
    show "isLowerC c \<or> isDigitC c \<or> c = CHR ''-'' \<or> c = CHR ''.''"
      using assms unfolding labelOK_def by blast
  qed
  then have "\<forall>c \<in> set v. visibleC c \<and> \<not> isUpperC c" using domain_char by blast
  then show "trimSpace v = v" "toLower uni v = v" by (simp_all add: trimSpace_visible toLower_id)
  have "\<not> hasSuffix v ''.''"
  proof
    assume "hasSuffix v ''.''"
    then obtain u where "v = u @ [CHR ''.'']" by (auto simp: hasSuffix_iff)
    then have "last (splitOn (CHR ''.'') v) = []" using last_splitOn by blast
    then have "[] \<in> set (splitOn (CHR ''.'') v)" using last_in_set [OF splitOn_ne] by metis
    then show False using assms by (auto simp: labelOK_def)
  qed
  then show "trimSuffix v ''.'' = v" by (simp add: trimSuffix_def)
qed

section \<open>Fields of a normalized result\<close>

lemma normalized_sel:
  "rURL (normalized r) = rURL r" "rError (normalized r) = rError r" "rFinalURL (normalized r) = rFinalURL r"
  "rTarget (normalized r) = rTarget r" "rEvidence (normalized r) = rEvidence r"
  "rMetadata (normalized r) = rMetadata r" "rConfidence (normalized r) = rConfidence r"
  "rSource (normalized r) = rSource r \<or> rSource (normalized r) = rSiteName r"
  "rSiteName (normalized r) = rSiteName r \<or> rSiteName (normalized r) = rSource r"
  "rStatus (normalized r) = inferredStatus r"
  "rFound (normalized r) \<longleftrightarrow> rStatus (normalized r) = StatusFound"
  by (auto simp: normalized_def Let_def inferredStatus_def)

lemma Redacted_sel:
  "rSource (RedactedResult uni ss r) = Redact (rSource r) (if Sensitive (rTargetType r) then ss @ [rTarget r] else ss)"
  "rSiteName (RedactedResult uni ss r) = Redact (rSiteName r) (if Sensitive (rTargetType r) then ss @ [rTarget r] else ss)"
  "rURL (RedactedResult uni ss r) = Redact (rURL r) (if Sensitive (rTargetType r) then ss @ [rTarget r] else ss)"
  "rFinalURL (RedactedResult uni ss r) = Redact (rFinalURL r) (if Sensitive (rTargetType r) then ss @ [rTarget r] else ss)"
  "rError (RedactedResult uni ss r) = Redact (rError r) (if Sensitive (rTargetType r) then ss @ [rTarget r] else ss)"
  "rTarget (RedactedResult uni ss r) = Redact (if Sensitive (rTargetType r) then Redacted else rTarget r)
     (if Sensitive (rTargetType r) then ss @ [rTarget r] else ss)"
  "rStatus (RedactedResult uni ss r) = rStatus r" "rTargetType (RedactedResult uni ss r) = rTargetType r"
  "rFound (RedactedResult uni ss r) = rFound r" "rConfidence (RedactedResult uni ss r) = rConfidence r"
  by (simp_all add: RedactedResult_def Let_def)

lemma Normalized_status: "rStatus r \<noteq> [] \<Longrightarrow> rStatus (Normalized uni r) = rStatus r"
  by (simp add: Normalized_def normalized_sel inferredStatus_def Redacted_sel)

lemma Normalized_found: "rFound (Normalized uni r) \<longleftrightarrow> rStatus (Normalized uni r) = StatusFound"
  unfolding Normalized_def by (rule normalized_sel)

lemma Normalized_confidence [simp]: "rConfidence (Normalized uni r) = rConfidence r"
  by (simp add: Normalized_def normalized_sel Redacted_sel)

section \<open>Texts of a result\<close>

lemma Redact_keeps_out:
  assumes "v \<noteq> []" and "set v \<inter> set Redacted = {}" and "v \<in> set secrets \<or> \<not> containsStr text v"
  shows "\<not> containsStr (Redact text secrets) v"
  using Redact_edited [OF assms(1,2)] fold_redactSecret_removes [OF assms(1,2)] assms(3) by blast

text \<open>Everything that a result carries as text: its fields, metadata and evidence.\<close>

definition resultTexts :: "Result \<Rightarrow> string list" where
  "resultTexts r = [rSource r, rSiteName r, rTarget r, rURL r, rFinalURL r, rError r]
     @ map fst (rMetadata r) @ map snd (rMetadata r) @ map evKind (rEvidence r) @ map evValue (rEvidence r)"

lemma update_entries: "p \<in> set (AList.update k v al) \<Longrightarrow> p = (k, v) \<or> p \<in> set al"
  by (induction al) (auto split: if_splits)

lemma Fields_entries:
  "(k', v') \<in> set (Fields uni fs ss) \<Longrightarrow>
   \<exists>(k, v) \<in> set fs. k' = Redact k ss \<and> (v' = Redacted \<or> v' = Redact v ss)"
proof -
  have step: "(k', v') \<in> set (fold (\<lambda>(k, v) out. AList.update (Redact k ss) (if SensitiveKey uni k then Redacted else Redact v ss) out) fs al) \<Longrightarrow>
      (k', v') \<in> set al \<or> (\<exists>(k, v) \<in> set fs. k' = Redact k ss \<and> (v' = Redacted \<or> v' = Redact v ss))" for al
  proof (induction fs arbitrary: al)
    case (Cons f fs)
    obtain k v where f: "f = (k, v)" by (cases f)
    show ?case using Cons.IH [of "AList.update (Redact k ss) (if SensitiveKey uni k then Redacted else Redact v ss) al"] Cons.prems
      update_entries [of "(k', v')" "Redact k ss" "if SensitiveKey uni k then Redacted else Redact v ss" al]
      by (auto simp: f split: if_splits)
  qed simp
  assume "(k', v') \<in> set (Fields uni fs ss)"
  then show ?thesis using step [of "[]"] by (simp add: Fields_def)
qed

lemma Redacted_texts:
  assumes v: "v \<noteq> []" "set v \<inter> set Redacted = {}" and out: "v \<in> set ss \<or> (\<forall>t \<in> set (resultTexts r). \<not> containsStr t v)"
    and t: "t \<in> set (resultTexts (RedactedResult uni ss r))"
  shows "\<not> containsStr t v"
proof -
  let ?ss = "if Sensitive (rTargetType r) then ss @ [rTarget r] else ss"
  have red: "\<not> containsStr Redacted v"
  proof
    assume "containsStr Redacted v"
    then have "set v \<subseteq> set Redacted" unfolding containsStr_iff by (metis Un_iff set_append subsetI)
    then show False using v by (cases v) auto
  qed
  have keep: "\<not> containsStr (Redact x ?ss) v" if "v \<in> set ss \<or> \<not> containsStr x v" for x
    by (rule Redact_keeps_out [OF v]) (use that in auto)
  have metaR: "rMetadata (RedactedResult uni ss r) = Fields uni (rMetadata r) ?ss"
      and evidR: "rEvidence (RedactedResult uni ss r) = map (cleanEvidence uni ?ss) (rEvidence r)"
    by (simp_all add: RedactedResult_def Let_def)
  consider (field) "t \<in> set [rSource (RedactedResult uni ss r), rSiteName (RedactedResult uni ss r), rTarget (RedactedResult uni ss r),
        rURL (RedactedResult uni ss r), rFinalURL (RedactedResult uni ss r), rError (RedactedResult uni ss r)]"
    | (meta) k' v' where "(k', v') \<in> set (Fields uni (rMetadata r) ?ss)" "t = k' \<or> t = v'"
    | (evid) e where "e \<in> set (rEvidence r)" "t = evKind (cleanEvidence uni ?ss e) \<or> t = evValue (cleanEvidence uni ?ss e)"
    using t by (auto simp: resultTexts_def metaR evidR)
  then show ?thesis
  proof cases
    case field
    then show ?thesis using keep out red by (auto simp: resultTexts_def Redacted_sel split: if_splits)
  next
    case meta
    then obtain k x where "(k, x) \<in> set (rMetadata r)" "k' = Redact k ?ss" "v' = Redacted \<or> v' = Redact x ?ss"
      using Fields_entries by blast
    moreover have "k \<in> fst ` set (rMetadata r)" "x \<in> snd ` set (rMetadata r)" using calculation(1) by (force intro: rev_image_eqI)+
    then have "k \<in> set (resultTexts r)" "x \<in> set (resultTexts r)" by (simp_all add: resultTexts_def)
    then have "\<not> containsStr (Redact k ?ss) v" "\<not> containsStr (Redact x ?ss) v" using keep out by blast+
    ultimately show ?thesis using meta(2) red by auto
  next
    case evid
    then have "evKind e \<in> set (resultTexts r)" "evValue e \<in> set (resultTexts r)" by (simp_all add: resultTexts_def)
    then have "\<not> containsStr (Redact (evKind e) ?ss) v" "\<not> containsStr (Redact (evValue e) ?ss) v" using keep out by blast+
    then show ?thesis using evid(2) red by (auto simp: cleanEvidence_def split: if_splits)
  qed
qed

lemma normalized_texts:
  "t \<in> set (resultTexts (normalized r)) \<Longrightarrow> t \<in> set (resultTexts r)"
  using normalized_sel(8,9) [of r] by (auto simp: resultTexts_def normalized_sel(1-7))

lemma clean_texts:
  assumes v: "v \<noteq> []" "set v \<inter> set Redacted = {}" and s: "v \<in> set ss"
    and t: "t \<in> set (resultTexts (Normalized uni (RedactedResult uni ss r)))"
  shows "\<not> containsStr t v"
proof -
  have "\<forall>t \<in> set (resultTexts (RedactedResult uni ss r)). \<not> containsStr t v"
    using Redacted_texts [OF v] s by blast
  moreover have "t \<in> set (resultTexts (RedactedResult uni [] (RedactedResult uni ss r)))"
    using t normalized_texts by (simp add: Normalized_def)
  ultimately show ?thesis using Redacted_texts [OF v] by blast
qed

section \<open>Properties\<close>

text \<open>Absence is only ever claimed for a corpus lookup: the interpretation of a result is
  \<open>absence\<close> exactly when its explicit status is \<open>not_found\<close> and its declared provenance is the breach
  list, the password corpus or the transaction lookup; a missing status or a website detector never
  establishes absence.\<close>

theorem absence_only_from_corpora:
  "snd (EvidenceSemantics r) = MeaningAbsence \<longleftrightarrow> rStatus r = StatusNotFound
    \<and> fst (EvidenceSemantics r) \<in> {ObservationBreach, ObservationPassword, ObservationBitcoinTransaction}"
  using evidenceMeaning_absence [of r "observationKind r"] by (simp add: EvidenceSemantics_def Let_def)

text \<open>Domain targets are canonical: an accepted domain is accepted again unchanged, has at least two
  labels of lower-case letters, digits and inner hyphens, and is at most 253 bytes long.\<close>

theorem domain_canonical:
  assumes "NewDomainTarget uni isAddr value = Inr t"
  shows "NewDomainTarget uni isAddr (tValue t) = Inr t \<and> length (tValue t) \<le> 253
    \<and> 2 \<le> length (splitOn (CHR ''.'') (tValue t)) \<and> (\<forall>l \<in> set (splitOn (CHR ''.'') (tValue t)). labelOK l)"
proof -
  from NewDomainTarget_Inr [OF assms] obtain v where
    v: "t = plainTarget TargetDomain v" "v \<noteq> []" "length v \<le> 253" "\<not> isAddr v"
    "\<forall>l \<in> set (splitOn (CHR ''.'') v). labelOK l" "2 \<le> length (splitOn (CHR ''.'') v)"
    "\<exists>c \<in> set (last (splitOn (CHR ''.'') v)). isLowerC c" by metis
  then show ?thesis
    using domain_fixed [OF v(5)] by (auto simp: NewDomainTarget_def Let_def plainTarget_def failIf_def)
qed

theorem domain_canonical_witness:
  "NewDomainTarget (\<lambda>s. s) (\<lambda>_. False) ''example.com'' = Inr (plainTarget TargetDomain ''example.com'')"
proof -
  have "\<forall>c \<in> set ''example.com.''. visibleC c \<and> \<not> isUpperC c"
    by (simp add: visibleC_def isUpperC_def byteVal_def)
  then have "trimSpace ''example.com.'' = ''example.com.''" by (intro trimSpace_visible) blast
  moreover have "trimSuffix ''example.com.'' ''.'' = ''example.com''"
    by (simp add: trimSuffix_def hasSuffix_def)
  moreover have "toLower (\<lambda>s. s) ''example.com'' = ''example.com''"
    by (rule toLower_id) (simp add: visibleC_def isUpperC_def byteVal_def)
  ultimately have "NewDomainTarget (\<lambda>s. s) (\<lambda>_. False) ''example.com.'' = Inr (plainTarget TargetDomain ''example.com'')"
    by (simp add: NewDomainTarget_def Let_def labelOK_def isLowerC_def isDigitC_def byteVal_def)
  from domain_canonical [OF this] show ?thesis by (simp add: plainTarget_def)
qed

end
