(* ===== verification/BitcoinAddr.thy ===== *)
theory BitcoinAddr
  imports Models Sha256
begin

text \<open>
  Validation of Bitcoin addresses (\<open>src/internal/models/bitcoin.go\<close>): Base58Check with a double
  SHA-256 checksum, and the BIP173/BIP350 witness encodings with the 30-bit BCH checksum on 32-bit
  words; then the dispatching constructor \<open>NewTarget\<close>.
\<close>

datatype addr_err = ErrInvalidBitcoinAddress | ErrUnsupportedBitcoinAddress

section \<open>Witness addresses\<close>

definition bech32Charset :: string where "bech32Charset = ''qpzry9x8gf2tvdw0s3jn54khce6mua7l''"

text \<open>\<open>strings.IndexByte\<close>\<close>

fun indexOf :: "string \<Rightarrow> char \<Rightarrow> nat option" where
  "indexOf [] c = None"
| "indexOf (d # ds) c = (if d = c then Some 0 else map_option Suc (indexOf ds c))"

fun digitsOf :: "string \<Rightarrow> string \<Rightarrow> nat list option" where
  "digitsOf alphabet [] = Some []"
| "digitsOf alphabet (c # cs) =
     (case indexOf alphabet c of None \<Rightarrow> None | Some d \<Rightarrow> map_option (\<lambda>ds. d # ds) (digitsOf alphabet cs))"

definition generators :: "u32 list" where
  "generators = [0x3b6a57b2, 0x26508e6d, 0x1ea119fa, 0x3d4233dd, 0x2a1462b3]"

definition mixTop :: "u32 \<Rightarrow> u32" where
  "mixTop hi = fold (\<lambda>(i, g) chk. if bit hi i then chk XOR g else chk) (enumerate 0 generators) 0"

text \<open>One round of the loop; \<open>mixTop\<close> collects the generators selected by the top five bits.\<close>

definition polymodStep :: "u32 \<Rightarrow> u32 \<Rightarrow> u32" where
  "polymodStep chk v = (push_bit 5 (chk AND 0x1ffffff) XOR v) XOR mixTop (drop_bit 25 chk)"

definition bitcoinPolymod :: "u32 list \<Rightarrow> u32" where
  "bitcoinPolymod vs = foldl polymodStep 1 vs"

definition expandHrp :: "string \<Rightarrow> u32 list" where
  "expandHrp hrp = map (\<lambda>c. word_of_nat (byteVal c div 32)) hrp @ [0] @ map (\<lambda>c. word_of_nat (byteVal c mod 32)) hrp"

text \<open>The regrouping of five-bit symbols into bytes: accumulator, pending bits, bytes produced.\<close>

definition regroupStep :: "nat \<Rightarrow> u32 \<times> nat \<times> nat \<Rightarrow> u32 \<times> nat \<times> nat" where
  "regroupStep n s = (case s of (acc, bits, size') \<Rightarrow>
     let acc' = (push_bit 5 acc OR word_of_nat n) AND 0xfff; bits' = bits + 5
     in if bits' \<ge> 8 then (acc', bits' - 8, size' + 1) else (acc', bits', size'))"

definition witnessKind :: "nat \<Rightarrow> nat \<Rightarrow> string option" where
  "witnessKind version n =
     (if version = 0 \<and> n = 20 then Some ''p2wpkh'' else if version = 0 \<and> n = 32 then Some ''p2wsh''
      else if version = 1 \<and> n = 32 then Some ''p2tr'' else None)"

definition checksumConst :: "nat \<Rightarrow> u32" where
  "checksumConst version = (if version = 0 then 1 else 0x2bc830a3)"

definition witnessAddress :: "string \<Rightarrow> addr_err + (string \<times> string)" where
  "witnessAddress lower =
     (let tail = takeWhile (\<lambda>c. c \<noteq> CHR ''1'') (rev lower);
          hrp = take (length lower - length tail - 1) lower in
      case digitsOf bech32Charset (rev tail) of None \<Rightarrow> Inl ErrInvalidBitcoinAddress
      | Some data \<Rightarrow>
        failIf (length data < 7) ErrInvalidBitcoinAddress
        (let check = bitcoinPolymod (expandHrp hrp @ map word_of_nat data); version = hd data in
         failIf (version > 16 \<or> check \<noteq> checksumConst version) ErrInvalidBitcoinAddress
         (case fold regroupStep (drop 1 (take (length data - 6) data)) (0, 0, 0) of (acc, bits, n) \<Rightarrow>
          failIf (bits \<ge> 5 \<or> push_bit (8 - bits) acc AND 255 \<noteq> 0 \<or> n < 2 \<or> n > 40) ErrInvalidBitcoinAddress
          (failIf (version = 0 \<and> n \<noteq> 20 \<and> n \<noteq> 32) ErrInvalidBitcoinAddress
          (failIf (hrp \<noteq> ''bc'') ErrUnsupportedBitcoinAddress
          (case witnessKind version n of None \<Rightarrow> Inl ErrUnsupportedBitcoinAddress
           | Some kind \<Rightarrow> Inr (lower, kind)))))))"

section \<open>Base58Check\<close>

definition base58Charset :: string where
  "base58Charset = ''123456789ABCDEFGHJKLMNPQRSTUVWXYZabcdefghijkmnopqrstuvwxyz''"

text \<open>\<open>big.Int.Bytes\<close>: minimal big-endian bytes.\<close>

fun natBytes :: "nat \<Rightarrow> bytes" where
  "natBytes n = (if n = 0 then [] else natBytes (n div 256) @ [word_of_nat (n mod 256)])"

declare natBytes.simps [simp del]

definition base58Address :: "string \<Rightarrow> addr_err + (string \<times> string)" where
  "base58Address s =
     failIf (hd s \<notin> set ''123mn'') ErrUnsupportedBitcoinAddress
     (failIf (length s < 26 \<or> length s > 35) ErrInvalidBitcoinAddress
     (case digitsOf base58Charset s of None \<Rightarrow> Inl ErrInvalidBitcoinAddress
      | Some ds \<Rightarrow>
        (let n = foldl (\<lambda>a d. a * 58 + d) 0 ds;
             raw = replicate (length (takeWhile (\<lambda>c. c = CHR ''1'') s)) 0 @ natBytes n in
         failIf (length raw \<noteq> 25) ErrInvalidBitcoinAddress
         (failIf (drop 21 raw \<noteq> take 4 (sha256 (sha256 (take 21 raw)))) ErrInvalidBitcoinAddress
         (if hd raw = 0 then Inr (s, ''p2pkh'') else if hd raw = 5 then Inr (s, ''p2sh'')
          else Inl ErrUnsupportedBitcoinAddress)))))"

definition isWitness :: "string \<Rightarrow> bool" where
  "isWitness lower \<longleftrightarrow> hasPrefix lower ''bc1'' \<or> hasPrefix lower ''tb1'' \<or> hasPrefix lower ''bcrt1''"

definition BitcoinAddress :: "(string \<Rightarrow> string) \<Rightarrow> (string \<Rightarrow> string) \<Rightarrow> string \<Rightarrow> addr_err + (string \<times> string)" where
  "BitcoinAddress uniLower uniUpper value =
     failIf (length value > 100) ErrInvalidBitcoinAddress
     (let s = trimSpace value in
      failIf (length s < 8 \<or> length s > 90) ErrInvalidBitcoinAddress
      (let lower = toLower uniLower s in
       if isWitness lower
       then failIf (s \<noteq> lower \<and> s \<noteq> toUpper uniUpper s) ErrInvalidBitcoinAddress (witnessAddress lower)
       else base58Address s))"

definition NewBitcoinTarget :: "(string \<Rightarrow> string) \<Rightarrow> (string \<Rightarrow> string) \<Rightarrow> string \<Rightarrow> addr_err + Target" where
  "NewBitcoinTarget uniLower uniUpper value =
     andThen (BitcoinAddress uniLower uniUpper value) (\<lambda>(address, _). Inr (plainTarget TargetBitcoin address))"

definition addrMessage :: "addr_err \<Rightarrow> string" where
  "addrMessage e = (case e of ErrInvalidBitcoinAddress \<Rightarrow> ''invalid Bitcoin address''
     | ErrUnsupportedBitcoinAddress \<Rightarrow> ''unsupported Bitcoin address format or network'')"

text \<open>\<open>NewTarget\<close>; \<open>ref\<close> is the fresh buffer of \<open>security.NewSecret\<close>.\<close>

definition NewTarget ::
  "(string \<Rightarrow> string) \<Rightarrow> (string \<Rightarrow> string) \<Rightarrow> (string \<Rightarrow> bool) \<Rightarrow> (string \<Rightarrow> (string \<times> string) option)
    \<Rightarrow> secretStore \<Rightarrow> nat \<Rightarrow> string \<Rightarrow> string \<Rightarrow> (string + Target) \<times> secretStore" where
  "NewTarget uniLower uniUpper isAddr parseAddr st ref kind value =
     (if kind = TargetBitcoinTransaction then (NewBitcoinTransactionTarget uniLower value, st)
      else if kind = TargetBitcoin
      then ((case NewBitcoinTarget uniLower uniUpper value of Inl e \<Rightarrow> Inl (addrMessage e) | Inr t \<Rightarrow> Inr t), st)
      else if kind = TargetIP then (NewIPTarget parseAddr value, st)
      else if kind = TargetDomain then (NewDomainTarget uniLower isAddr value, st)
      else if \<not> kindValid kind then (Inl ''unsupported target type'', st)
      else if value = [] then (Inl ''empty target'', st)
      else if Sensitive kind then (let st' = st(ref := value) in (NewSensitiveTarget st' kind (Some ref), st'))
      else (Inr (plainTarget kind value), st))"

section \<open>The checksum is linear and injective\<close>

lemma mixTop_eq:
  "mixTop x = (if bit x 0 then 0x3b6a57b2 else 0) XOR (if bit x 1 then 0x26508e6d else 0)
     XOR (if bit x 2 then 0x1ea119fa else 0) XOR (if bit x 3 then 0x3d4233dd else 0) XOR (if bit x 4 then 0x2a1462b3 else 0)"
  by (simp add: mixTop_def generators_def numeral_2_eq_2 numeral_3_eq_3 eval_nat_numeral)

lemma if_xor: "(if p \<noteq> q then g else 0) = (if p then g else 0) XOR (if q then g else (0 :: u32))"
  by simp

lemma mixTop_xor: "mixTop (x XOR y) = mixTop x XOR mixTop y"
  unfolding mixTop_eq bit_xor_iff if_xor by (simp only: ac_simps)

lemma mixTop_0 [simp]: "mixTop 0 = 0"
  by (simp add: mixTop_eq)

lemma polymodStep_xor: "polymodStep (a XOR b) (v XOR w) = polymodStep a v XOR polymodStep b w"
proof -
  have "push_bit 5 ((a XOR b) AND 0x1ffffff) = push_bit 5 (a AND 0x1ffffff) XOR push_bit 5 (b AND 0x1ffffff)"
    by (rule bit_word_eqI) (auto simp: bit_simps)
  moreover have "drop_bit 25 (a XOR b) = drop_bit 25 a XOR drop_bit 25 b"
    by (rule bit_word_eqI) (auto simp: bit_simps)
  ultimately show ?thesis by (simp only: polymodStep_def mixTop_xor ac_simps)
qed

text \<open>The words with only their lowest \<open>k\<close> bits set.\<close>

definition lowBits :: "nat \<Rightarrow> u32 \<Rightarrow> bool" where
  "lowBits k x \<longleftrightarrow> (\<forall>n. bit x n \<longrightarrow> n < k)"

lemma lowBits_0 [simp]: "lowBits k 0"
  by (simp add: lowBits_def)

lemma lowBits_xor: "lowBits k x \<Longrightarrow> lowBits k y \<Longrightarrow> lowBits k (x XOR y)"
  by (auto simp: lowBits_def bit_xor_iff)

lemma lowBits_mono: "lowBits j x \<Longrightarrow> j \<le> k \<Longrightarrow> lowBits k x"
  by (auto simp: lowBits_def)

lemma lowBits_unat: "lowBits k x \<Longrightarrow> unat x < 2 ^ k"
proof -
  assume *: "lowBits k x"
  have "take_bit k x = x"
    using * by (intro bit_word_eqI) (auto simp: lowBits_def bit_take_bit_iff)
  then have "unat x = take_bit k (unat x)" by (metis unsigned_take_bit_eq)
  then show ?thesis using take_bit_nat_less_exp by metis
qed

lemma lowBits_of_nat: "v < 2 ^ k \<Longrightarrow> lowBits k (word_of_nat v)"
proof -
  assume "v < 2 ^ k"
  then have "take_bit k v = v" by (simp add: take_bit_nat_eq_self_iff)
  then have "take_bit k (word_of_nat v) = (word_of_nat v :: u32)" by (simp add: take_bit_of_nat)
  then show ?thesis unfolding lowBits_def by (metis bit_take_bit_iff)
qed

lemma lowBits_numerals [simp]:
  "lowBits 30 0x3b6a57b2" "lowBits 30 0x26508e6d" "lowBits 30 0x1ea119fa" "lowBits 30 0x3d4233dd" "lowBits 30 0x2a1462b3"
  using lowBits_of_nat [of "0x3b6a57b2" 30] lowBits_of_nat [of "0x26508e6d" 30] lowBits_of_nat [of "0x1ea119fa" 30]
    lowBits_of_nat [of "0x3d4233dd" 30] lowBits_of_nat [of "0x2a1462b3" 30] by simp_all

lemma lowBits_mixTop: "lowBits 30 (mixTop x)"
  unfolding mixTop_eq by (intro lowBits_xor) auto

lemma lowBits_polymodStep:
  assumes "lowBits 30 v"
  shows "lowBits 30 (polymodStep d v)"
proof -
  have "(0x1ffffff :: u32) = mask 25" by (simp add: mask_eq_exp_minus_1)
  moreover have "lowBits 30 (push_bit 5 (d AND mask 25))"
    by (auto simp: lowBits_def bit_push_bit_iff bit_and_iff bit_mask_iff simp del: push_bit_and)
  ultimately have "lowBits 30 (push_bit 5 (d AND 0x1ffffff))" by (simp only:)
  then show ?thesis unfolding polymodStep_def using assms by (intro lowBits_xor lowBits_mixTop)
qed

lemma mixTop_low:
  assumes "lowBits 5 x" and "\<forall>n < 5. \<not> bit (mixTop x) n"
  shows "x = 0"
proof -
  have "unat x < 32" using lowBits_unat [OF assms(1)] by simp
  then have "unat x \<in> set [0..<32]" by simp
  moreover have "x = word_of_nat (unat x)" by simp
  ultimately have "x \<in> set (map word_of_nat [0..<32])" unfolding list.set_map by (rule rev_image_eqI)
  moreover have "\<not> bit (mixTop x) 0" "\<not> bit (mixTop x) 1" "\<not> bit (mixTop x) 2" "\<not> bit (mixTop x) 3" "\<not> bit (mixTop x) 4"
    using assms(2) by simp_all
  ultimately show ?thesis by (auto simp: upt_rec mixTop_eq)
qed

lemma polymodStep_inj0:
  assumes "lowBits 30 d" and "polymodStep d 0 = 0"
  shows "d = 0"
proof -
  have m: "(0x1ffffff :: u32) = mask 25" by (simp add: mask_eq_exp_minus_1)
  have "push_bit 5 (d AND mask 25) XOR mixTop (drop_bit 25 d) = 0"
    using assms(2) unfolding polymodStep_def m by simp
  then have eq: "bit (push_bit 5 (d AND mask 25)) n = bit (mixTop (drop_bit 25 d)) n" for n
    by (metis bit_xor_iff bit_0_eq bot_apply bot_bool_def)
  have "lowBits 5 (drop_bit 25 d)"
    using assms(1) by (auto simp: lowBits_def bit_drop_bit_eq)
  moreover have "\<forall>n < 5. \<not> bit (mixTop (drop_bit 25 d)) n"
    by (simp flip: eq add: bit_push_bit_iff del: push_bit_and)
  ultimately have hi: "drop_bit 25 d = 0" by (rule mixTop_low)
  show ?thesis
  proof (rule bit_word_eqI)
    fix n assume n: "n < LENGTH(32)"
    show "bit d n = bit 0 n"
    proof (cases "n < 25")
      case True
      have "\<not> bit (push_bit 5 (d AND mask 25)) (n + 5)" unfolding eq hi by simp
      then show ?thesis using True by (simp add: bit_push_bit_iff bit_and_iff bit_mask_iff del: push_bit_and)
    next
      case False
      have "\<not> bit (drop_bit 25 d) (n - 25)" by (simp add: hi)
      then show ?thesis using False by (simp add: bit_drop_bit_eq)
    qed
  qed
qed

lemma foldl_polymod_xor:
  "length xs = length ys \<Longrightarrow> foldl polymodStep a xs XOR foldl polymodStep b ys
    = foldl polymodStep (a XOR b) (map2 (XOR) xs ys)"
proof (induction xs arbitrary: a b ys)
  case Nil
  then show ?case by simp
next
  case (Cons x xs)
  then show ?case by (cases ys) (simp_all add: polymodStep_xor)
qed

lemma foldl_zeros:
  assumes "lowBits 30 d" and "foldl polymodStep d (replicate k 0) = 0"
  shows "d = 0"
  using assms
proof (induction k arbitrary: d)
  case 0
  then show ?case by simp
next
  case (Suc k)
  have "polymodStep d 0 = 0"
    using Suc.IH [of "polymodStep d 0"] Suc.prems lowBits_polymodStep [of 0 d] by simp
  then show ?case using polymodStep_inj0 Suc.prems(1) by blast
qed

lemma polymod_substitution:
  assumes "lowBits 30 v" and "lowBits 30 w" and "v \<noteq> w"
  shows "bitcoinPolymod (xs @ v # ys) \<noteq> bitcoinPolymod (xs @ w # ys)"
proof
  assume eq: "bitcoinPolymod (xs @ v # ys) = bitcoinPolymod (xs @ w # ys)"
  let ?c = "foldl polymodStep 1 xs"
  have "map2 (XOR) ys ys = replicate (length ys) 0" by (induction ys) auto
  then have "foldl polymodStep (polymodStep ?c v XOR polymodStep ?c w) (replicate (length ys) 0) = 0"
    using eq foldl_polymod_xor [of ys ys "polymodStep ?c v" "polymodStep ?c w"] by (simp add: bitcoinPolymod_def)
  moreover have "polymodStep ?c v XOR polymodStep ?c w = v XOR w"
    unfolding polymodStep_xor [symmetric] by (simp add: polymodStep_def)
  ultimately have "v XOR w = 0" using foldl_zeros lowBits_xor [OF assms(1,2)] by metis
  then show False using assms(3) by (metis xor.assoc xor.left_neutral xor_self_eq)
qed

section \<open>The symbols of an address\<close>

lemma indexOf_Some: "indexOf al c = Some d \<Longrightarrow> d < length al \<and> al ! d = c"
  by (induction al arbitrary: d) (auto split: if_splits)

lemma digitsOf_Some: "digitsOf al s = Some ds \<Longrightarrow> length ds = length s \<and> (\<forall>i < length s. indexOf al (s ! i) = Some (ds ! i))"
proof (induction s arbitrary: ds)
  case Nil
  then show ?case by simp
next
  case (Cons c s)
  then obtain d ds' where "indexOf al c = Some d" "digitsOf al s = Some ds'" "ds = d # ds'"
    by (auto split: option.splits)
  then show ?case using Cons.IH [of ds'] by (auto simp: nth_Cons split: nat.splits)
qed

lemma digitsOf_alphabet: "digitsOf al s = Some ds \<Longrightarrow> set s \<subseteq> set al"
proof
  fix c assume "digitsOf al s = Some ds" "c \<in> set s"
  then obtain i where "i < length s" "s ! i = c" "indexOf al c = Some (ds ! i)"
    using digitsOf_Some by (auto simp: in_set_conv_nth)
  then show "c \<in> set al" using indexOf_Some nth_mem by metis
qed

lemma digitsOf_update:
  "digitsOf al s = Some ds \<Longrightarrow> i < length s \<Longrightarrow>
    digitsOf al (s[i := c]) = map_option (\<lambda>d. ds[i := d]) (indexOf al c)"
proof (induction s arbitrary: ds i)
  case Nil
  then show ?case by simp
next
  case (Cons x s)
  then obtain d ds' where d: "indexOf al x = Some d" "digitsOf al s = Some ds'" "ds = d # ds'"
    by (auto split: option.splits)
  show ?case
  proof (cases i)
    case 0
    then show ?thesis using d by (cases "indexOf al c") auto
  next
    case (Suc j)
    then show ?thesis using Cons.IH [OF d(2), of j] Cons.prems(2) d by (cases "indexOf al c") auto
  qed
qed

text \<open>The shape of an accepted witness address, and its checks.\<close>

lemma witnessAddress_Inr:
  assumes "witnessAddress l = Inr (a, k)"
  obtains D ds acc bits n where "a = l" "l = ''bc1'' @ D" "CHR ''1'' \<notin> set D" "digitsOf bech32Charset D = Some ds"
    "7 \<le> length ds" "hd ds \<le> 16" "bitcoinPolymod (expandHrp ''bc'' @ map word_of_nat ds) = checksumConst (hd ds)"
    "fold regroupStep (drop 1 (take (length ds - 6) ds)) (0, 0, 0) = (acc, bits, n)" "bits < 5" "witnessKind (hd ds) n = Some k"
proof -
  let ?tail = "takeWhile (\<lambda>c. c \<noteq> CHR ''1'') (rev l)"
  obtain ds acc bits n where *: "a = l" "take (length l - length ?tail - 1) l = ''bc''"
    "digitsOf bech32Charset (rev ?tail) = Some ds" "7 \<le> length ds" "hd ds \<le> 16"
    "bitcoinPolymod (expandHrp ''bc'' @ map word_of_nat ds) = checksumConst (hd ds)"
    "fold regroupStep (drop 1 (take (length ds - 6) ds)) (0, 0, 0) = (acc, bits, n)" "bits < 5" "witnessKind (hd ds) n = Some k"
    using assms unfolding witnessAddress_def Let_def
    by (auto simp: res_simps not_less not_le split: option.splits prod.splits)
  have le: "length ?tail \<le> length l" using length_takeWhile_le [of _ "rev l"] by simp
  have "length (take (length l - length ?tail - 1) l) = 2" using *(2) by simp
  then have len: "length l - length ?tail - 1 = 2" by simp
  then have lt: "length ?tail < length (rev l)" by simp
  have at: "rev l ! length ?tail = CHR ''1''" using nth_length_takeWhile [OF lt] by simp
  have "rev l = ?tail @ rev l ! length ?tail # drop (Suc (length ?tail)) (rev l)"
    using id_take_nth_drop [OF lt] by (simp flip: takeWhile_eq_take)
  then have "l = rev (drop (Suc (length ?tail)) (rev l)) @ CHR ''1'' # rev ?tail"
    using at by (metis append_Cons append_Nil append_assoc rev_append rev_rev_ident rev_singleton_conv rev.simps(2))
  moreover have "rev (drop (Suc (length ?tail)) (rev l)) = ''bc''"
    using *(2) by (simp add: rev_drop)
  ultimately have "l = ''bc1'' @ rev ?tail" by simp
  moreover have "CHR ''1'' \<notin> set (rev ?tail)" by (auto dest: set_takeWhileD)
  ultimately show thesis using that * by blast
qed

text \<open>A changed character after the version symbol is never accepted.\<close>

lemma witness_substitution:
  assumes ok: "witnessAddress l = Inr r" and i: "4 \<le> i" "i < length l" and c: "c \<noteq> l ! i"
  shows "\<exists>e. witnessAddress (l[i := c]) = Inl e"
proof (rule ccontr)
  assume "\<not> ?thesis"
  then obtain a' k' where bad: "witnessAddress (l[i := c]) = Inr (a', k')"
    by (cases "witnessAddress (l[i := c])") auto
  obtain a k where "r = (a, k)" by fastforce
  from witnessAddress_Inr [OF ok [unfolded this]] obtain D ds where
    D: "l = ''bc1'' @ D" "digitsOf bech32Charset D = Some ds" "7 \<le> length ds"
    "bitcoinPolymod (expandHrp ''bc'' @ map word_of_nat ds) = checksumConst (hd ds)" by metis
  from witnessAddress_Inr [OF bad] obtain D' ds' where
    D': "l[i := c] = ''bc1'' @ D'" "digitsOf bech32Charset D' = Some ds'"
    "bitcoinPolymod (expandHrp ''bc'' @ map word_of_nat ds') = checksumConst (hd ds')" by metis
  define j where "j = i - 3"
  have j: "i = Suc (Suc (Suc j))" "0 < j" "j < length D" using i D(1) by (auto simp: j_def)
  have upd: "D' = D[j := c]" using D'(1) by (simp add: D(1) j(1))
  then obtain d where d: "indexOf bech32Charset c = Some d" "ds' = ds[j := d]"
    using D'(2) digitsOf_update [OF D(2) j(3)] by (auto split: option.splits)
  have old: "indexOf bech32Charset (D ! j) = Some (ds ! j)" "length ds = length D"
    using digitsOf_Some [OF D(2)] j(3) by auto
  have "c \<noteq> D ! j" using c by (simp add: D(1) j(1))
  then have ne: "d \<noteq> ds ! j" using indexOf_Some [OF d(1)] indexOf_Some [OF old(1)] by auto
  have small: "d < 32" "ds ! j < 32"
    using indexOf_Some [OF d(1)] indexOf_Some [OF old(1)] by (simp_all add: bech32Charset_def)
  have low: "lowBits 30 (word_of_nat x)" if "x < 32" for x
    using lowBits_mono [OF lowBits_of_nat [of x 5]] that by simp
  have "unat (word_of_nat x :: u32) = x" if "x < 32" for x using that by (simp add: unat_of_nat)
  then have words: "word_of_nat (ds ! j) \<noteq> (word_of_nat d :: u32)" using ne small by metis
  have lt: "j < length ds" using j(3) old(2) by simp
  let ?w = "map word_of_nat :: nat list \<Rightarrow> u32 list"
  have split: "?w ds = ?w (take j ds) @ word_of_nat (ds ! j) # ?w (drop (Suc j) ds)"
    "?w ds' = ?w (take j ds) @ word_of_nat d # ?w (drop (Suc j) ds)"
    by (subst id_take_nth_drop [OF lt], simp) (simp add: d(2) upd_conv_take_nth_drop [OF lt])
  have "bitcoinPolymod (expandHrp ''bc'' @ ?w ds) \<noteq> bitcoinPolymod (expandHrp ''bc'' @ ?w ds')"
    using polymod_substitution [OF low [OF small(2)] low [OF small(1)] words, of "expandHrp ''bc'' @ ?w (take j ds)"]
    unfolding split by simp
  moreover have "hd ds' = hd ds" using d(2) j(2) lt by (cases ds; cases j) auto
  ultimately show False using D(4) D'(3) by simp
qed

section \<open>Canonical addresses\<close>

lemma regroup_total:
  assumes "fold regroupStep ds (acc, bits, n) = (acc', bits', n')" and "bits < 8"
  shows "bits' + 8 * n' = bits + 8 * n + 5 * length ds \<and> bits' < 8"
  using assms
proof (induction ds arbitrary: acc bits n)
  case Nil
  then show ?case by simp
next
  case (Cons d ds)
  obtain acc1 bits1 n1 where s: "regroupStep d (acc, bits, n) = (acc1, bits1, n1)" by (metis prod_cases3)
  then have "bits1 < 8" "bits1 + 8 * n1 = bits + 8 * n + 5"
    using Cons.prems(2) by (auto simp: regroupStep_def Let_def split: if_splits)
  then show ?case using Cons.IH [of acc1 bits1 n1] Cons.prems(1) s by simp
qed

lemma charset_facts:
  "c \<in> set bech32Charset \<Longrightarrow> visibleC c \<and> \<not> isUpperC c"
  "c \<in> set base58Charset \<Longrightarrow> visibleC c"
  by (auto simp: bech32Charset_def base58Charset_def visibleC_def isUpperC_def byteVal_def)

lemma witness_canonical:
  assumes "witnessAddress l = Inr (a, k)"
  shows "a = l" and "trimSpace l = l" and "toLower uni l = l" and "isWitness l" and "8 \<le> length l \<and> length l \<le> 90"
proof -
  from witnessAddress_Inr [OF assms] obtain D ds acc bits n where
    D: "a = l" "l = ''bc1'' @ D" "digitsOf bech32Charset D = Some ds" "7 \<le> length ds"
    "fold regroupStep (drop 1 (take (length ds - 6) ds)) (0, 0, 0) = (acc, bits, n)" "bits < 5" "witnessKind (hd ds) n = Some k"
    by metis
  show "a = l" by (rule D(1))
  have "\<forall>c \<in> set ''bc1''. visibleC c \<and> \<not> isUpperC c"
    by (simp add: visibleC_def isUpperC_def byteVal_def)
  then have vis: "\<forall>c \<in> set l. visibleC c \<and> \<not> isUpperC c"
    using digitsOf_alphabet [OF D(3)] charset_facts(1) by (auto simp: D(2))
  then show "trimSpace l = l" "toLower uni l = l" by (simp_all add: trimSpace_visible toLower_id)
  show "isWitness l" by (simp add: isWitness_def D(2))
  have "n \<le> 32" using D(7) by (auto simp: witnessKind_def split: if_splits)
  moreover have "bits + 8 * n = 5 * (length ds - 7)"
    using regroup_total [OF D(5)] D(4) by simp
  ultimately have "length ds \<le> 60" using D(6) by simp
  then show "8 \<le> length l \<and> length l \<le> 90" using digitsOf_Some [OF D(3)] D(2,4) by simp
qed

lemma base58_canonical:
  assumes "base58Address s = Inr (a, k)"
  shows "a = s" and "trimSpace s = s" and "26 \<le> length s \<and> length s \<le> 35"
    and "\<not> isWitness (toLower uni s)" and "\<forall>c \<in> set s. visibleC c"
proof -
  obtain ds where ds: "digitsOf base58Charset s = Some ds" "a = s" "\<not> (length s < 26 \<or> length s > 35)" "hd s \<in> set ''123mn''"
    using assms by (auto simp: base58Address_def res_simps Let_def split: option.splits if_splits)
  show "a = s" "26 \<le> length s \<and> length s \<le> 35" using ds by auto
  show vis: "\<forall>c \<in> set s. visibleC c" using digitsOf_alphabet [OF ds(1)] charset_facts(2) by blast
  then show "trimSpace s = s" by (rule trimSpace_visible)
  have "toLower uni s = map lowerC s" using vis visible_ascii by (simp add: toLower_def)
  moreover have "lowerC (hd s) = hd s" using ds(4) by (auto simp: lowerC_def isUpperC_def byteVal_def)
  ultimately show "\<not> isWitness (toLower uni s)" using ds(3,4) by (cases s) (auto simp: isWitness_def)
qed

section \<open>Properties\<close>

text \<open>C6: one wrong character of a witness address is always detected: when \<open>l\<close> is an accepted
  \<open>bc1\<close> address, replacing any single character after the version symbol by any other character
  gives an error.\<close>

theorem bech32_substitution_detected:
  assumes "witnessAddress l = Inr r" and "4 \<le> i" and "i < length l" and "c \<noteq> l ! i"
  shows "\<exists>e. witnessAddress (l[i := c]) = Inl e"
  using assms by (rule witness_substitution)

definition demoAddress :: string where
  "demoAddress = ''bc1qw508d6qejxtdg4y5r3zarvary0c5xw7kv8f3t4''"

definition demoDigits :: "nat list" where
  "demoDigits = [0, 14, 20, 15, 7, 13, 26, 0, 25, 18, 6, 11, 13, 8, 21, 4, 20, 3, 17, 2, 29, 3, 12, 29, 3, 4,
     15, 24, 20, 6, 14, 30, 22, 12, 7, 9, 17, 11, 21]"

lemma demo_digits: "digitsOf bech32Charset (drop 3 demoAddress) = Some demoDigits"
  by (simp add: demoAddress_def bech32Charset_def demoDigits_def)

lemma demo_polymod: "bitcoinPolymod (expandHrp ''bc'' @ map word_of_nat demoDigits) = 1"
  by (simp add: bitcoinPolymod_def polymodStep_def mixTop_eq expandHrp_def byteVal_def demoDigits_def)

lemma demo_regroup: "\<exists>acc. fold regroupStep (drop 1 (take (length demoDigits - 6) demoDigits)) (0, 0, 0) = (acc, 0, 20)"
  by (simp add: regroupStep_def demoDigits_def)

lemma demoAddress_ok: "witnessAddress demoAddress = Inr (demoAddress, ''p2wpkh'')"
proof -
  let ?tail = "takeWhile (\<lambda>c. c \<noteq> CHR ''1'') (rev demoAddress)"
  have tail: "rev ?tail = drop 3 demoAddress" "take (length demoAddress - length ?tail - 1) demoAddress = ''bc''"
    by (simp_all add: demoAddress_def)
  obtain acc where acc: "fold regroupStep (drop 1 (take (length demoDigits - 6) demoDigits)) (0, 0, 0) = (acc, 0, 20)"
    using demo_regroup by blast
  have "push_bit 8 acc AND 255 = (0 :: u32)"
  proof -
    have "push_bit 8 acc AND mask 8 = 0"
      by (rule bit_word_eqI) (simp add: bit_push_bit_iff bit_and_iff bit_mask_iff)
    then show ?thesis by (simp add: mask_eq_exp_minus_1)
  qed
  moreover have "hd demoDigits = 0" "\<not> length demoDigits < 7" by (simp_all add: demoDigits_def)
  ultimately show ?thesis
    unfolding witnessAddress_def Let_def tail demo_digits
    by (simp add: demo_polymod acc [unfolded One_nat_def] checksumConst_def witnessKind_def)
qed

theorem bech32_substitution_detected_witness:
  "\<exists>e. witnessAddress (demoAddress[20 := CHR ''q'']) = Inl e"
  using bech32_substitution_detected [OF demoAddress_ok, of 20 "CHR ''q''"] by (simp add: demoAddress_def)

text \<open>C7: address validation is canonical: the address it returns is accepted again, unchanged and with
  the same kind.\<close>

theorem address_canonical:
  assumes "BitcoinAddress uniLower uniUpper value = Inr (a, k)"
  shows "BitcoinAddress uniLower uniUpper a = Inr (a, k)"
proof -
  define s where "s = trimSpace value"
  define lower where "lower = toLower uniLower s"
  show ?thesis
  proof (cases "isWitness lower")
    case True
    then have w: "witnessAddress lower = Inr (a, k)"
      using assms by (simp add: BitcoinAddress_def Let_def res_simps lower_def s_def)
    note C = witness_canonical(1,2,4,5) [OF w] witness_canonical(3) [OF w, of uniLower]
    show ?thesis using w C by (simp add: BitcoinAddress_def Let_def)
  next
    case False
    then have b: "base58Address s = Inr (a, k)"
      using assms by (simp add: BitcoinAddress_def Let_def res_simps lower_def s_def)
    note C = base58_canonical(1,2,3) [OF b] base58_canonical(4) [OF b, of uniLower]
    show ?thesis using b C by (simp add: BitcoinAddress_def Let_def)
  qed
qed

theorem address_canonical_witness:
  "BitcoinAddress (\<lambda>s. s) (\<lambda>s. s) demoAddress = Inr (demoAddress, ''p2wpkh'')"
proof (rule address_canonical)
  have "trimSpace demoAddress = demoAddress" "toLower (\<lambda>s. s) demoAddress = demoAddress" "isWitness demoAddress"
    using witness_canonical [OF demoAddress_ok] by simp_all
  then show "BitcoinAddress (\<lambda>s. s) (\<lambda>s. s) demoAddress = Inr (demoAddress, ''p2wpkh'')"
    using demoAddress_ok by (simp add: BitcoinAddress_def Let_def) (simp add: demoAddress_def)
qed

end
