(* ===== verification/Detector.thy ===== *)
theory Detector
  imports Models
begin

text \<open>
  The website detector (\<open>src/internal/detector/detector.go\<close>): the interpretation of an HTTP
  response by the rules of a site.  A response carries the status code and the headers; the body and
  the final URL are arguments, as in the code.  The score is a 64-bit word, so that the additions of
  \<open>calculateBaseConfidence\<close> wrap as they do in Go.  Parameters: \<open>rx\<close> is
  \<open>regexp.MatchString\<close> (false for a pattern that does not compile), \<open>uni\<close> the Unicode case table.
\<close>

section \<open>Results and confidence\<close>

record DetectionResult =
  dFound :: bool
  dConfidence :: u64
  dStatus :: string

record Response =
  respStatus :: int
  respHeader :: headers

definition detected :: "u64 \<Rightarrow> DetectionResult" where
  "detected conf = \<lparr>dFound = True, dConfidence = conf, dStatus = StatusFound\<rparr>"

definition undetected :: "string \<Rightarrow> DetectionResult" where
  "undetected status = \<lparr>dFound = False, dConfidence = 0, dStatus = status\<rparr>"

definition calculateBaseConfidence :: "SiteConfig \<Rightarrow> Response option \<Rightarrow> string \<Rightarrow> u64" where
  "calculateBaseConfidence site resp body =
     (let score = (if scWeight site = 0 then 10 else scWeight site);
          score = (case resp of Some r \<Rightarrow> if respStatus r = 200 then score + 30 else score | None \<Rightarrow> score);
          score = (if length body > 200 then score + 10 else score)
      in if sint score > 100 then 100 else score)"

section \<open>Protection responses\<close>

definition isWAF :: "(string \<Rightarrow> string) \<Rightarrow> Response \<Rightarrow> string \<Rightarrow> WAFConfig \<Rightarrow> bool" where
  "isWAF uni resp body cfg \<longleftrightarrow>
     (let lowerBody = toLower uni body in
        headerGet (respHeader resp) ''CF-RAY'' \<noteq> []
      \<or> containsStr (toLower uni (headerGet (respHeader resp) ''Server'')) ''cloudflare''
      \<or> respStatus resp = 403 \<and> (containsStr lowerBody ''cloudflare'' \<or> containsStr lowerBody ''ray id'')
      \<or> respStatus resp = 429
      \<or> containsStr lowerBody ''ddos-guard'' \<or> containsStr lowerBody ''incapsula''
      \<or> containsStr lowerBody ''sucuri''
      \<or> list_ex (\<lambda>code. respStatus resp = code) (wafStatusCodes cfg)
      \<or> list_ex (\<lambda>key. headerGet (respHeader resp) key \<noteq> []) (wafHeaderKeys cfg)
      \<or> list_ex (\<lambda>sub. containsStr lowerBody (toLower uni sub)) (wafBodySubstrings cfg))"

definition protectedSite :: "SiteConfig \<Rightarrow> bool" where
  "protectedSite site \<longleftrightarrow>
     list_ex (\<lambda>p. p = ''cf_js_challenge'' \<or> p = ''custom_bot_protection'') (scProtection site)"

section \<open>The check types\<close>

definition checkStatusCode :: "SiteConfig \<Rightarrow> Response \<Rightarrow> DetectionResult" where
  "checkStatusCode site resp =
     (if scErrorCode site \<noteq> 0 \<and> respStatus resp = scErrorCode site then undetected StatusNotFound
      else if 200 \<le> respStatus resp \<and> respStatus resp < 400
      then detected (calculateBaseConfidence site (Some resp) [])
      else undetected StatusNotFound)"

text \<open>The indicators of the message check: literal strings, then regular expressions.\<close>

definition absenceMatch :: "(string \<Rightarrow> string \<Rightarrow> bool) \<Rightarrow> SiteConfig \<Rightarrow> string \<Rightarrow> bool" where
  "absenceMatch rx site body \<longleftrightarrow>
     list_ex (containsStr body) (scAbsenceStrs site) \<or> list_ex (\<lambda>re. rx re body) (scAbsenceRegexes site)"

definition presenceMatch :: "(string \<Rightarrow> string \<Rightarrow> bool) \<Rightarrow> SiteConfig \<Rightarrow> string \<Rightarrow> bool" where
  "presenceMatch rx site body \<longleftrightarrow>
     list_ex (containsStr body) (scPresenceStrs site) \<or> list_ex (\<lambda>re. rx re body) (scPresenceRegexes site)"

definition checkMessage :: "(string \<Rightarrow> string \<Rightarrow> bool) \<Rightarrow> SiteConfig \<Rightarrow> string \<Rightarrow> DetectionResult" where
  "checkMessage rx site body =
     (if absenceMatch rx site body then undetected StatusNotFound
      else if presenceMatch rx site body then detected (calculateBaseConfidence site None body)
      else let conf = calculateBaseConfidence site None body
           in detected (if sint conf < 30 then 30 else conf))"

definition checkResponseURL :: "SiteConfig \<Rightarrow> string \<Rightarrow> DetectionResult" where
  "checkResponseURL site finalURL =
     (if scErrorURL site \<noteq> [] \<and> containsStr finalURL (scErrorURL site) then undetected StatusNotFound
      else detected (calculateBaseConfidence site None []))"

definition checkHeaders :: "SiteConfig \<Rightarrow> Response \<Rightarrow> DetectionResult" where
  "checkHeaders site resp =
     (if list_ex (\<lambda>(k, v). headerGet (respHeader resp) k = v) (scRequiredHeaders site)
      then detected (calculateBaseConfidence site (Some resp) [])
      else undetected StatusNotFound)"

definition checkDefault :: "SiteConfig \<Rightarrow> Response \<Rightarrow> string \<Rightarrow> DetectionResult" where
  "checkDefault site resp body =
     (if scErrorCode site \<noteq> 0 \<and> respStatus resp = scErrorCode site then undetected StatusNotFound
      else if 200 \<le> respStatus resp \<and> respStatus resp < 400
      then detected (calculateBaseConfidence site (Some resp) body)
      else undetected StatusNotFound)"

section \<open>Analyze\<close>

definition Analyze :: "(string \<Rightarrow> string) \<Rightarrow> (string \<Rightarrow> string \<Rightarrow> bool) \<Rightarrow> SiteConfig \<Rightarrow> Response \<Rightarrow> string
    \<Rightarrow> string \<Rightarrow> DetectionResult" where
  "Analyze uni rx site resp body finalURL =
     (if isWAF uni resp body (scWAFIndicators site) then undetected StatusBlocked
      else if protectedSite site then undetected StatusBlocked
      else if list_ex (containsStr finalURL) (scRedirectFailurePatterns site) then undetected StatusNotFound
      else if scCheckType site = ''status_code'' then checkStatusCode site resp
      else if scCheckType site = ''message'' then checkMessage rx site body
      else if scCheckType site = ''response_url'' then checkResponseURL site finalURL
      else if scCheckType site = ''header'' then checkHeaders site resp
      else checkDefault site resp body)"

section \<open>Well-formed detections\<close>

text \<open>
  What the callers rely on: a detection is a find with a score of at most 100, or a non-find of one
  of the two other statuses with score zero.
\<close>

definition detectionOK :: "DetectionResult \<Rightarrow> bool" where
  "detectionOK d \<longleftrightarrow>
     (if dFound d then dStatus d = StatusFound \<and> sint (dConfidence d) \<le> 100
      else (dStatus d = StatusNotFound \<or> dStatus d = StatusBlocked) \<and> dConfidence d = 0)"

lemma detectionOK_undetected [simp]:
  "detectionOK (undetected StatusNotFound)" "detectionOK (undetected StatusBlocked)"
  by (simp_all add: detectionOK_def undetected_def)

lemma detectionOK_detected [simp]: "detectionOK (detected c) \<longleftrightarrow> sint c \<le> 100"
  by (simp add: detectionOK_def detected_def)

lemma sint_100 [simp]: "sint (100 :: u64) = 100" "sint (30 :: u64) = 30"
  by simp_all

lemma confidence_le: "sint (calculateBaseConfidence site resp body) \<le> 100"
  by (simp add: calculateBaseConfidence_def Let_def)

lemma checks_OK:
  "detectionOK (checkStatusCode site resp)" "detectionOK (checkMessage rx site body)"
  "detectionOK (checkResponseURL site url)" "detectionOK (checkHeaders site resp)"
  "detectionOK (checkDefault site resp body)"
  by (simp_all add: checkStatusCode_def checkMessage_def checkResponseURL_def checkHeaders_def checkDefault_def
      confidence_le Let_def)

lemma Analyze_OK: "detectionOK (Analyze uni rx site resp body url)"
  by (simp add: Analyze_def checks_OK)

lemma sint_add_exact:
  assumes "- (2 ^ 63) \<le> sint a + sint b" and "sint a + sint b < 2 ^ 63"
  shows "sint (a + b :: u64) = sint a + sint b"
  using assms by (simp add: sint_word_ariths signed_take_bit_int_eq_self)

lemma status_blocked:
  "dStatus (checkStatusCode site resp) \<noteq> StatusBlocked" "dStatus (checkMessage rx site body) \<noteq> StatusBlocked"
  "dStatus (checkResponseURL site url) \<noteq> StatusBlocked" "dStatus (checkHeaders site resp) \<noteq> StatusBlocked"
  "dStatus (checkDefault site resp body) \<noteq> StatusBlocked"
  by (simp_all add: checkStatusCode_def checkMessage_def checkResponseURL_def checkHeaders_def checkDefault_def
      detected_def undetected_def status_defs Let_def)

lemma Analyze_blocked:
  "dStatus (Analyze uni rx site resp body url) = StatusBlocked \<longleftrightarrow>
     isWAF uni resp body (scWAFIndicators site) \<or> protectedSite site"
  by (simp add: Analyze_def status_blocked) (simp add: undetected_def status_defs)

lemma weight_wraps:
  "sint (calculateBaseConfidence (site\<lparr>scWeight := 0x7FFFFFFFFFFFFFFF\<rparr>) (Some \<lparr>respStatus = 200, respHeader = []\<rparr>) [])
     = - 9223372036854775779"
  by (simp add: calculateBaseConfidence_def)

section \<open>Properties\<close>

text \<open>C8: every detection is well formed: it is a find whose score is at most 100, or a non-find with the
  status \<open>not_found\<close> or \<open>blocked\<close> and score zero; and it is \<open>blocked\<close> exactly when the response shows a
  protection layer or the site carries a protection marker, whatever the presence rules say.\<close>

theorem detection_wellformed:
  "detectionOK (Analyze uni rx site resp body url)
   \<and> (dStatus (Analyze uni rx site resp body url) = StatusBlocked
       \<longleftrightarrow> isWAF uni resp body (scWAFIndicators site) \<or> protectedSite site)"
  by (simp add: Analyze_OK Analyze_blocked)

text \<open>For every weight that leaves room for the two bonuses the score is the exact sum of the weight
  (10 when it is unset), 30 for status 200 and 10 for a body of more than 200 bytes, cut at 100.\<close>

theorem confidence_exact:
  assumes "- (2 ^ 63) \<le> sint (scWeight site)" and "sint (scWeight site) < 2 ^ 63 - 40"
  shows "sint (calculateBaseConfidence site resp body) =
    min 100 ((if scWeight site = 0 then 10 else sint (scWeight site))
      + (case resp of Some r \<Rightarrow> if respStatus r = 200 then 30 else 0 | None \<Rightarrow> 0)
      + (if length body > 200 then 10 else 0))"
proof -
  define w where "w = (if scWeight site = 0 then 10 else scWeight site)"
  define b where "b = (case resp of Some r \<Rightarrow> respStatus r = 200 | None \<Rightarrow> False)"
  define v where "v = (if b then w + 30 else w)"
  have w: "sint w = (if scWeight site = 0 then 10 else sint (scWeight site))" by (simp add: w_def)
  have "- (2 ^ 63) \<le> sint w" "sint w < 2 ^ 63 - 40" using assms by (simp_all add: w)
  then have v: "sint v = sint w + (if b then 30 else 0)" "- (2 ^ 63) \<le> sint v" "sint v < 2 ^ 63 - 10"
    by (auto simp: v_def sint_add_exact)
  then have "sint (if length body > 200 then v + 10 else v) = sint v + (if length body > 200 then 10 else 0)"
    by (auto simp: sint_add_exact)
  moreover have "calculateBaseConfidence site resp body =
      (let score = (if length body > 200 then v + 10 else v) in if sint score > 100 then 100 else score)"
    by (simp add: calculateBaseConfidence_def v_def b_def w_def Let_def split: option.split)
  ultimately have "sint (calculateBaseConfidence site resp body) =
      min 100 (sint w + (if b then 30 else 0) + (if length body > 200 then 10 else 0))"
    using v(1) by (auto simp: Let_def min_def)
  then show ?thesis by (cases resp) (simp_all add: w b_def)
qed

theorem confidence_exact_witness:
  "sint (calculateBaseConfidence (zeroSite\<lparr>scWeight := 20\<rparr>) (Some \<lparr>respStatus = 200, respHeader = []\<rparr>) ''x'') = 50"
  using confidence_exact [of "zeroSite\<lparr>scWeight := 20\<rparr>" "Some \<lparr>respStatus = 200, respHeader = []\<rparr>" "''x''"] by simp

end
