(* ===== verification/Machine.thy ===== *)
theory Machine
  imports Main "HOL-Library.Multiset"
begin

text \<open>
  Concurrent components as step relations: the reachable states of a machine, and three interfaces.
  \<open>machine\<close> is a step relation with an invariant; \<open>live_machine\<close> asks that a state that is not final has
  an internal step; \<open>terminating_machine\<close> adds a measure that every step decreases.  Their consequences are
  proved once here and used by every component through an interpretation.
\<close>

inductive reachable :: "('s \<Rightarrow> bool) \<Rightarrow> ('s \<Rightarrow> 's \<Rightarrow> bool) \<Rightarrow> 's \<Rightarrow> bool" for initial step where
  start: "initial s \<Longrightarrow> reachable initial step s"
| next_state: "reachable initial step s \<Longrightarrow> step s t \<Longrightarrow> reachable initial step t"

lemma reachable_steps: "step\<^sup>*\<^sup>* s t \<Longrightarrow> reachable initial step s \<Longrightarrow> reachable initial step t"
  by (induction rule: rtranclp_induct) (auto intro: reachable.next_state)

locale machine =
  fixes initial :: "'s \<Rightarrow> bool" and step :: "'s \<Rightarrow> 's \<Rightarrow> bool" and inv :: "'s \<Rightarrow> bool"
  assumes initial_inv: "initial s \<Longrightarrow> inv s"
    and step_inv: "inv s \<Longrightarrow> step s t \<Longrightarrow> inv t"
begin

lemma reachable_inv: "reachable initial step s \<Longrightarrow> inv s"
  by (induction rule: reachable.induct) (auto intro: initial_inv step_inv)

lemma steps_inv: "step\<^sup>*\<^sup>* s t \<Longrightarrow> inv s \<Longrightarrow> inv t"
  by (induction rule: rtranclp_induct) (auto intro: step_inv)

end

text \<open>
  \<open>internal\<close> holds the steps the program makes by itself, \<open>step\<close> also the events from outside.
\<close>

locale live_machine = machine initial step inv
  for initial :: "'s \<Rightarrow> bool" and step :: "'s \<Rightarrow> 's \<Rightarrow> bool" and inv :: "'s \<Rightarrow> bool" +
  fixes internal :: "'s \<Rightarrow> 's \<Rightarrow> bool" and final :: "'s \<Rightarrow> bool"
  assumes internal_step: "internal s t \<Longrightarrow> step s t"
    and progress: "inv s \<Longrightarrow> \<not> final s \<Longrightarrow> \<exists>t. internal s t"
begin

lemma stuck_final: "reachable initial step s \<Longrightarrow> \<forall>t. \<not> internal s t \<Longrightarrow> final s"
  using progress reachable_inv by blast

end

locale terminating_machine = live_machine initial step inv internal final
  for initial :: "'s \<Rightarrow> bool" and step :: "'s \<Rightarrow> 's \<Rightarrow> bool" and inv :: "'s \<Rightarrow> bool"
    and internal :: "'s \<Rightarrow> 's \<Rightarrow> bool" and final :: "'s \<Rightarrow> bool" +
  fixes size :: "'s \<Rightarrow> nat"
  assumes step_size: "inv s \<Longrightarrow> step s t \<Longrightarrow> size t < size s"
begin

lemma run_ends: "inv s \<Longrightarrow> \<exists>t. internal\<^sup>*\<^sup>* s t \<and> final t"
proof (induction "size s" arbitrary: s rule: less_induct)
  case less
  show ?case
  proof (cases "final s")
    case True
    then show ?thesis by blast
  next
    case False
    then obtain u where u: "internal s u" using progress less.prems by blast
    then have "step s u" by (rule internal_step)
    with less.prems have "inv u" "size u < size s" by (auto intro: step_inv step_size)
    then obtain t where "internal\<^sup>*\<^sup>* u t" "final t" using less.hyps by blast
    with u show ?thesis by (meson converse_rtranclp_into_rtranclp)
  qed
qed

lemma reachable_ends: "reachable initial step s \<Longrightarrow> \<exists>t. internal\<^sup>*\<^sup>* s t \<and> final t"
  by (intro run_ends reachable_inv)

lemma run_bound: "inv (f 0) \<Longrightarrow> \<forall>k < n. step (f k) (f (Suc k)) \<Longrightarrow> inv (f n) \<and> size (f n) + n \<le> size (f 0)"
proof (induction n)
  case 0
  then show ?case by simp
next
  case (Suc n)
  then have "inv (f n)" "size (f n) + n \<le> size (f 0)" "step (f n) (f (Suc n))" by auto
  then show ?case using step_size [of "f n" "f (Suc n)"] step_inv [of "f n" "f (Suc n)"] by linarith
qed

lemma no_infinite_run: "initial (f 0) \<Longrightarrow> \<not> (\<forall>k. step (f k) (f (Suc k)))"
  using run_bound [of f "Suc (size (f 0))"] initial_inv by force

end

section \<open>Lists of processes\<close>

lemma sum_list_map_update:
  fixes f :: "'a \<Rightarrow> 'b :: cancel_comm_monoid_add"
  assumes "i < length xs"
  shows "sum_list (map f (xs[i := y])) + f (xs ! i) = sum_list (map f xs) + f y"
  using assms
proof (induction xs arbitrary: i)
  case Nil
  then show ?case by simp
next
  case (Cons x xs)
  show ?case
  proof (cases i)
    case 0
    then show ?thesis by (simp add: ac_simps)
  next
    case (Suc k)
    then have "sum_list (map f (xs[k := y])) + f (xs ! k) = sum_list (map f xs) + f y"
      using Cons by simp
    then show ?thesis using Suc by (simp add: ac_simps)
  qed
qed

lemma set_update_cases: "x \<in> set (xs[i := y]) \<Longrightarrow> x = y \<or> x \<in> set xs"
  using set_update_subset_insert [of xs i y] by auto

end
