(* ===== verification/WorkerPool.thy ===== *)
theory WorkerPool
  imports GoBase Machine
begin

text \<open>
  The worker pool (\<open>src/internal/worker/pool.go\<close>) together with its only client, the search of the
  website source (\<open>search\<close> in \<open>src/internal/sources/websites/source.go\<close>): the submitting goroutine,
  the workers, the goroutine that closes the results, and the consumer loop, as one step relation over
  the unbuffered channels.  A rendezvous is one step.  \<open>proc j r\<close> says that processing job \<open>j\<close> can
  return \<open>r\<close>; \<open>emit\<close> is the caller's consumer, which may depend on what it was given before.
\<close>

section \<open>State\<close>

datatype ('j, 'r) worker = Idle | Busy 'j | Sending 'j 'r | Stopped

record ('j, 'r) search =
  sTodo :: "'j list"                     \<comment> \<open>jobs the submitter has not reached\<close>
  sOffer :: "'j option"                  \<comment> \<open>job the submitter offers on the channel\<close>
  sClosed :: bool                        \<comment> \<open>the jobs channel is closed\<close>
  sWorkers :: "('j, 'r) worker list"
  sResultsClosed :: bool
  sCancelled :: bool                     \<comment> \<open>the search context is done\<close>
  sEmitted :: "('j \<times> 'r) list"           \<comment> \<open>results given to \<open>emit\<close>, with their jobs\<close>
  sConsumerErr :: "string option"

text \<open>\<open>NewPool\<close> and \<open>Start\<close>: all workers wait for a job.\<close>

definition newSearch :: "nat \<Rightarrow> 'j list \<Rightarrow> ('j, 'r) search" where
  "newSearch workers jobs = \<lparr>sTodo = jobs, sOffer = None, sClosed = False, sWorkers = replicate workers Idle,
     sResultsClosed = False, sCancelled = False, sEmitted = [], sConsumerErr = None\<rparr>"

definition setWorker :: "nat \<Rightarrow> ('j, 'r) worker \<Rightarrow> ('j, 'r) search \<Rightarrow> ('j, 'r) search" where
  "setWorker i w s = s\<lparr>sWorkers := (sWorkers s)[i := w]\<rparr>"

text \<open>The consumer accepts a row and, when \<open>emit\<close> fails, cancels the search.\<close>

definition consume :: "(('j \<times> 'r) list \<Rightarrow> 'r \<Rightarrow> string option) \<Rightarrow> 'j \<Rightarrow> 'r \<Rightarrow> ('j, 'r) search \<Rightarrow> ('j, 'r) search" where
  "consume emit j r s =
     (let e = emit (sEmitted s) r
      in s\<lparr>sEmitted := sEmitted s @ [(j, r)], sConsumerErr := e, sCancelled := (sCancelled s \<or> e \<noteq> None)\<rparr>)"

section \<open>Steps\<close>

inductive poolStep :: "('j \<Rightarrow> 'r \<Rightarrow> bool) \<Rightarrow> (('j \<times> 'r) list \<Rightarrow> 'r \<Rightarrow> string option)
    \<Rightarrow> ('j, 'r) search \<Rightarrow> ('j, 'r) search \<Rightarrow> bool" for proc emit where
  submit_checks: "sTodo s = j # js \<Longrightarrow> sOffer s = None \<Longrightarrow> \<not> sClosed s \<Longrightarrow> \<not> sCancelled s \<Longrightarrow>
    poolStep proc emit s (s\<lparr>sTodo := js, sOffer := Some j\<rparr>)"
| submit_fails: "sTodo s = j # js \<Longrightarrow> sOffer s = None \<Longrightarrow> \<not> sClosed s \<Longrightarrow> sCancelled s \<Longrightarrow>
    poolStep proc emit s (s\<lparr>sClosed := True\<rparr>)"
| submit_cancelled: "sOffer s = Some j \<Longrightarrow> sCancelled s \<Longrightarrow>
    poolStep proc emit s (s\<lparr>sOffer := None, sClosed := True\<rparr>)"
| close_jobs: "sTodo s = [] \<Longrightarrow> sOffer s = None \<Longrightarrow> \<not> sClosed s \<Longrightarrow>
    poolStep proc emit s (s\<lparr>sClosed := True\<rparr>)"
| accept: "sOffer s = Some j \<Longrightarrow> i < length (sWorkers s) \<Longrightarrow> sWorkers s ! i = Idle \<Longrightarrow>
    poolStep proc emit s (setWorker i (Busy j) (s\<lparr>sOffer := None\<rparr>))"
| process: "i < length (sWorkers s) \<Longrightarrow> sWorkers s ! i = Busy j \<Longrightarrow> proc j r \<Longrightarrow>
    poolStep proc emit s (setWorker i (Sending j r) s)"
| deliver: "i < length (sWorkers s) \<Longrightarrow> sWorkers s ! i = Sending j r \<Longrightarrow> sConsumerErr s = None \<Longrightarrow>
    poolStep proc emit s (consume emit j r (setWorker i Idle s))"
| discard: "i < length (sWorkers s) \<Longrightarrow> sWorkers s ! i = Sending j r \<Longrightarrow> sConsumerErr s = Some e \<Longrightarrow>
    poolStep proc emit s (setWorker i Idle s)"
| drop_result: "i < length (sWorkers s) \<Longrightarrow> sWorkers s ! i = Sending j r \<Longrightarrow> sCancelled s \<Longrightarrow>
    poolStep proc emit s (setWorker i Stopped s)"
| jobs_closed: "i < length (sWorkers s) \<Longrightarrow> sWorkers s ! i = Idle \<Longrightarrow> sClosed s \<Longrightarrow>
    poolStep proc emit s (setWorker i Stopped s)"
| context_cancelled: "i < length (sWorkers s) \<Longrightarrow> sWorkers s ! i = Idle \<Longrightarrow> sCancelled s \<Longrightarrow>
    poolStep proc emit s (setWorker i Stopped s)"
| close_results: "\<forall>w \<in> set (sWorkers s). w = Stopped \<Longrightarrow> \<not> sResultsClosed s \<Longrightarrow>
    poolStep proc emit s (s\<lparr>sResultsClosed := True\<rparr>)"

text \<open>The caller's context may be done at any time.\<close>

inductive searchStep :: "('j \<Rightarrow> 'r \<Rightarrow> bool) \<Rightarrow> (('j \<times> 'r) list \<Rightarrow> 'r \<Rightarrow> string option)
    \<Rightarrow> ('j, 'r) search \<Rightarrow> ('j, 'r) search \<Rightarrow> bool" for proc emit where
  own: "poolStep proc emit s t \<Longrightarrow> searchStep proc emit s t"
| cancel: "\<not> sCancelled s \<Longrightarrow> searchStep proc emit s (s\<lparr>sCancelled := True\<rparr>)"

inductive_simps searchStep_iff: "searchStep proc emit s t"
inductive_cases poolStepE: "poolStep proc emit s t"

text \<open>
  \<open>search\<close> returns once the results are closed and the submitter is done, with the consumer's error
  or else the context's.
\<close>

definition finished :: "('j, 'r) search \<Rightarrow> bool" where
  "finished s \<longleftrightarrow> sResultsClosed s \<and> sClosed s"

definition searchError :: "string \<Rightarrow> ('j, 'r) search \<Rightarrow> string option" where
  "searchError ctxErr s = (case sConsumerErr s of Some e \<Rightarrow> Some e | None \<Rightarrow> if sCancelled s then Some ctxErr else None)"

section \<open>Invariant\<close>

fun heldJob :: "('j, 'r) worker \<Rightarrow> 'j multiset" where
  "heldJob Idle = {#}" | "heldJob Stopped = {#}" | "heldJob (Busy j) = {#j#}" | "heldJob (Sending j r) = {#j#}"

text \<open>The jobs that are queued, offered, held by a worker or emitted.\<close>

definition tracked :: "('j, 'r) search \<Rightarrow> 'j multiset" where
  "tracked s = mset (sTodo s) + (case sOffer s of None \<Rightarrow> {#} | Some j \<Rightarrow> {#j#})
     + sum_list (map heldJob (sWorkers s)) + mset (map fst (sEmitted s))"

definition searchInv :: "('j \<Rightarrow> 'r \<Rightarrow> bool) \<Rightarrow> nat \<Rightarrow> 'j list \<Rightarrow> ('j, 'r) search \<Rightarrow> bool" where
  "searchInv proc n jobs s \<longleftrightarrow>
     length (sWorkers s) = n
   \<and> tracked s \<subseteq># mset jobs
   \<and> (\<not> sCancelled s \<longrightarrow> tracked s = mset jobs)
   \<and> (\<forall>p \<in> set (sEmitted s). proc (fst p) (snd p))
   \<and> (\<forall>j r. Sending j r \<in> set (sWorkers s) \<longrightarrow> proc j r)
   \<and> (Stopped \<in> set (sWorkers s) \<longrightarrow> sClosed s \<or> sCancelled s)
   \<and> (sResultsClosed s \<longrightarrow> (\<forall>w \<in> set (sWorkers s). w = Stopped))
   \<and> (sClosed s \<longrightarrow> sOffer s = None)
   \<and> (sClosed s \<and> \<not> sCancelled s \<longrightarrow> sTodo s = [])
   \<and> (sConsumerErr s \<noteq> None \<longrightarrow> sCancelled s)"

lemma setWorker_sel [simp]:
  "sTodo (setWorker i w s) = sTodo s" "sOffer (setWorker i w s) = sOffer s" "sClosed (setWorker i w s) = sClosed s"
  "sWorkers (setWorker i w s) = (sWorkers s)[i := w]" "sResultsClosed (setWorker i w s) = sResultsClosed s"
  "sCancelled (setWorker i w s) = sCancelled s" "sEmitted (setWorker i w s) = sEmitted s"
  "sConsumerErr (setWorker i w s) = sConsumerErr s"
  by (simp_all add: setWorker_def)

lemma consume_sel [simp]:
  "sTodo (consume emit j r s) = sTodo s" "sOffer (consume emit j r s) = sOffer s"
  "sClosed (consume emit j r s) = sClosed s" "sWorkers (consume emit j r s) = sWorkers s"
  "sResultsClosed (consume emit j r s) = sResultsClosed s"
  "sCancelled (consume emit j r s) \<longleftrightarrow> sCancelled s \<or> emit (sEmitted s) r \<noteq> None"
  "sEmitted (consume emit j r s) = sEmitted s @ [(j, r)]"
  "sConsumerErr (consume emit j r s) = emit (sEmitted s) r"
  by (simp_all add: consume_def Let_def)

lemma tracked_setWorker:
  "i < length (sWorkers s) \<Longrightarrow> tracked (setWorker i w s) + heldJob (sWorkers s ! i) = tracked s + heldJob w"
  using sum_list_map_update [of i "sWorkers s" heldJob w] by (simp add: tracked_def ac_simps)

lemma tracked_consume: "tracked (consume emit j r s) = add_mset j (tracked s)"
  by (simp add: tracked_def)

lemma not_all_stopped: "i < length ws \<Longrightarrow> ws ! i \<noteq> Stopped \<Longrightarrow> \<not> (\<forall>w \<in> set ws. w = Stopped)"
  by (meson nth_mem)

text \<open>Replacing one worker by one that holds the same job, or by a free one.\<close>

lemma inv_setWorker:
  assumes inv: "searchInv proc n jobs s" and i: "i < length (sWorkers s)" and live: "sWorkers s ! i \<noteq> Stopped"
    and job: "heldJob w = heldJob (sWorkers s ! i) \<or> heldJob w = {#} \<and> sCancelled s"
    and sound: "\<And>j r. w = Sending j r \<Longrightarrow> proc j r"
    and stop: "w = Stopped \<Longrightarrow> sClosed s \<or> sCancelled s"
  shows "searchInv proc n jobs (setWorker i w s)"
proof -
  have tr: "tracked (setWorker i w s) + heldJob (sWorkers s ! i) = tracked s + heldJob w"
    using i by (rule tracked_setWorker)
  then have "tracked (setWorker i w s) \<subseteq># tracked s"
    using job by (metis add_right_cancel empty_neutral(2) mset_subset_eq_add_left subset_mset.order_refl)
  moreover have "tracked (setWorker i w s) = tracked s" if "\<not> sCancelled s"
    using tr job that by simp
  moreover have "\<not> sResultsClosed s" using inv not_all_stopped [OF i live] by (auto simp: searchInv_def)
  moreover have "Sending j r \<in> set ((sWorkers s)[i := w]) \<Longrightarrow> proc j r" for j r
    using inv sound by (auto simp: searchInv_def dest!: set_update_cases)
  moreover have "Stopped \<in> set ((sWorkers s)[i := w]) \<Longrightarrow> sClosed s \<or> sCancelled s"
    using inv stop by (auto simp: searchInv_def dest!: set_update_cases)
  ultimately show ?thesis using inv by (auto simp: searchInv_def intro: subset_mset.order_trans)
qed

lemma inv_accept:
  assumes inv: "searchInv proc n jobs s" and i: "i < length (sWorkers s)" "sWorkers s ! i = Idle"
    and j: "sOffer s = Some j"
  shows "searchInv proc n jobs (setWorker i (Busy j) (s\<lparr>sOffer := None\<rparr>))"
proof -
  let ?s = "s\<lparr>sOffer := None\<rparr>"
  have "tracked s = add_mset j (tracked ?s)" using j by (simp add: tracked_def)
  moreover have "tracked (setWorker i (Busy j) ?s) = add_mset j (tracked ?s)"
    using tracked_setWorker [of i ?s "Busy j"] i by simp
  ultimately have tr: "tracked (setWorker i (Busy j) ?s) = tracked s" by simp
  have rc: "\<not> sResultsClosed s" using inv not_all_stopped [OF i(1)] i(2) by (auto simp: searchInv_def)
  show ?thesis using inv tr rc by (auto simp: searchInv_def j dest!: set_update_cases)
qed

lemma inv_deliver:
  assumes inv: "searchInv proc n jobs s" and i: "i < length (sWorkers s)" "sWorkers s ! i = Sending j r"
    and e: "sConsumerErr s = None"
  shows "searchInv proc n jobs (consume emit j r (setWorker i Idle s))"
proof -
  let ?t = "consume emit j r (setWorker i Idle s)"
  have "tracked ?t = add_mset j (tracked (setWorker i Idle s))" by (rule tracked_consume)
  then have tr: "tracked ?t = tracked s" using tracked_setWorker [of i s Idle] i by simp
  have "proc j r" using inv i unfolding searchInv_def by (metis nth_mem)
  moreover have "\<not> sResultsClosed s" using inv not_all_stopped [OF i(1)] i(2) by (auto simp: searchInv_def)
  ultimately show ?thesis using inv tr e by (auto simp: searchInv_def dest!: set_update_cases)
qed

lemma inv_frame:
  assumes "searchInv proc n jobs s" and "sWorkers t = sWorkers s" and "sEmitted t = sEmitted s"
    and "sResultsClosed t = sResultsClosed s" and "sConsumerErr t = sConsumerErr s"
    and "tracked t \<subseteq># tracked s" and "\<not> sCancelled t \<longrightarrow> \<not> sCancelled s \<and> tracked t = tracked s"
    and "sClosed s \<longrightarrow> sClosed t" and "sClosed t \<longrightarrow> sOffer t = None"
    and "sClosed t \<and> \<not> sCancelled t \<longrightarrow> sTodo t = []" and "sCancelled s \<longrightarrow> sCancelled t"
  shows "searchInv proc n jobs t"
proof -
  have "tracked t \<subseteq># mset jobs"
    using assms(1,6) unfolding searchInv_def by (blast intro: subset_mset.order_trans)
  moreover have "\<not> sCancelled t \<longrightarrow> tracked t = mset jobs" using assms(1,7) by (simp add: searchInv_def)
  moreover have "sConsumerErr t \<noteq> None \<longrightarrow> sCancelled t" using assms(1,5,11) by (simp add: searchInv_def)
  moreover have "Stopped \<in> set (sWorkers t) \<longrightarrow> sClosed t \<or> sCancelled t"
    using assms(1,2,8,11) unfolding searchInv_def by metis
  ultimately show ?thesis
    using assms(1) unfolding searchInv_def assms(2,3,4) using assms(9,10) by blast
qed

lemma poolStep_inv:
  assumes "poolStep proc emit s t" and inv: "searchInv proc n jobs s"
  shows "searchInv proc n jobs t"
  using assms(1)
proof cases
  case (submit_checks j js)
  then have "tracked t = tracked s" by (simp add: tracked_def)
  then show ?thesis using submit_checks by (intro inv_frame [OF inv]) auto
next
  case (submit_fails j js)
  then have "tracked t = tracked s" by (simp add: tracked_def)
  then show ?thesis using submit_fails by (intro inv_frame [OF inv]) auto
next
  case (submit_cancelled j)
  then have "tracked t \<subseteq># tracked s" by (simp add: tracked_def)
  then show ?thesis using submit_cancelled by (intro inv_frame [OF inv]) auto
next
  case close_jobs
  then have "tracked t = tracked s" by (simp add: tracked_def)
  then show ?thesis using close_jobs by (intro inv_frame [OF inv]) auto
next
  case (accept j i)
  then show ?thesis using inv_accept [OF inv] by simp
next
  case (process i j r)
  then show ?thesis using inv_setWorker [OF inv, of i "Sending j r"] by simp
next
  case (deliver i j r)
  then show ?thesis using inv_deliver [OF inv] by simp
next
  case (discard i j r e)
  then have "sCancelled s" using inv by (auto simp: searchInv_def)
  then show ?thesis using discard inv_setWorker [OF inv, of i Idle] by simp
next
  case (drop_result i j r)
  then show ?thesis using inv_setWorker [OF inv, of i Stopped] by simp
next
  case (jobs_closed i)
  then show ?thesis using inv_setWorker [OF inv, of i Stopped] by simp
next
  case (context_cancelled i)
  then show ?thesis using inv_setWorker [OF inv, of i Stopped] by simp
next
  case close_results
  then have "tracked t = tracked s" by (simp add: tracked_def)
  then show ?thesis using close_results inv by (auto simp: searchInv_def)
qed

lemma searchInv_new: "searchInv proc n jobs (newSearch n jobs)"
  by (induction n) (simp_all add: searchInv_def newSearch_def tracked_def)

lemma searchInv_cancel: "searchInv proc n jobs s \<Longrightarrow> searchInv proc n jobs (s\<lparr>sCancelled := True\<rparr>)"
  by (rule inv_frame) (auto simp: tracked_def searchInv_def)

section \<open>Progress\<close>

fun workLeft :: "('j, 'r) worker \<Rightarrow> nat" where
  "workLeft Stopped = 0" | "workLeft Idle = 1" | "workLeft (Busy j) = 4" | "workLeft (Sending j r) = 3"

definition searchSize :: "('j, 'r) search \<Rightarrow> nat" where
  "searchSize s = 5 * length (sTodo s) + (if sOffer s = None then 0 else 4) + sum_list (map workLeft (sWorkers s))
     + (if sClosed s then 0 else 1) + (if sResultsClosed s then 0 else 1) + (if sCancelled s then 0 else 1)"

lemma size_setWorker:
  "i < length (sWorkers s) \<Longrightarrow>
     searchSize (setWorker i w s) + workLeft (sWorkers s ! i) = searchSize s + workLeft w"
  using sum_list_map_update [of i "sWorkers s" workLeft w] by (simp add: searchSize_def)

lemma size_consume: "searchSize (consume emit j r s) \<le> searchSize s"
  by (simp add: searchSize_def)

lemma poolStep_size: "poolStep proc emit s t \<Longrightarrow> searchSize t < searchSize s"
proof (induction rule: poolStep.induct)
  case (accept s j i)
  then show ?case using size_setWorker [of i "s\<lparr>sOffer := None\<rparr>" "Busy j"] by (simp add: searchSize_def)
next
  case (process i s j r)
  then show ?case using size_setWorker [of i s "Sending j r"] by simp
next
  case (deliver i s j r)
  then have "searchSize (setWorker i Idle s) < searchSize s" using size_setWorker [of i s Idle] by simp
  then show ?case using size_consume [of emit j r "setWorker i Idle s"] by linarith
next
  case (discard i s j r e)
  then show ?case using size_setWorker [of i s Idle] by simp
next
  case (drop_result i s j r)
  then show ?case using size_setWorker [of i s Stopped] by simp
next
  case (jobs_closed i s)
  then show ?case using size_setWorker [of i s Stopped] by simp
next
  case (context_cancelled i s)
  then show ?case using size_setWorker [of i s Stopped] by simp
qed (simp_all add: searchSize_def)

lemma some_stopped_or_active:
  assumes "ws \<noteq> []"
  obtains "\<forall>w \<in> set ws. w = Stopped" | i j where "i < length ws" "ws ! i = Busy j"
    | i j r where "i < length ws" "ws ! i = Sending j r" | i where "i < length ws" "ws ! i = Idle"
proof (cases "\<forall>w \<in> set ws. w = Stopped")
  case True
  then show ?thesis by (rule that(1))
next
  case False
  then obtain i where "i < length ws" "ws ! i \<noteq> Stopped" by (metis in_set_conv_nth)
  then show ?thesis by (cases "ws ! i") (blast intro: that)+
qed

lemma poolStep_progress:
  assumes n: "0 < n" and total: "\<forall>j. \<exists>r. proc j r" and inv: "searchInv proc n jobs s" and run: "\<not> finished s"
  shows "\<exists>t. poolStep proc emit s t"
proof -
  have "sWorkers s \<noteq> []" using n inv by (auto simp: searchInv_def)
  then show ?thesis
  proof (cases rule: some_stopped_or_active)
    case 1
    then have "sClosed s \<or> sCancelled s"
      using inv \<open>sWorkers s \<noteq> []\<close> unfolding searchInv_def by (metis list.set_intros(1) neq_Nil_conv)
    then show ?thesis
    proof (cases "sClosed s")
      case True
      then have "\<not> sResultsClosed s" using run by (simp add: finished_def)
      then show ?thesis using poolStep.close_results [OF 1] by blast
    next
      case False
      with \<open>sClosed s \<or> sCancelled s\<close> have c: "sCancelled s" by simp
      show ?thesis
      proof (cases "sOffer s")
        case None
        show ?thesis
        proof (cases "sTodo s")
          case Nil
          show ?thesis by (rule exI, rule poolStep.close_jobs [OF Nil None False])
        next
          case (Cons j js)
          show ?thesis by (rule exI, rule poolStep.submit_fails [OF Cons None False c])
        qed
      next
        case (Some j)
        show ?thesis by (rule exI, rule poolStep.submit_cancelled [OF Some c])
      qed
    qed
  next
    case (2 i j)
    moreover obtain r where "proc j r" using total by blast
    ultimately have "poolStep proc emit s (setWorker i (Sending j r) s)" by (rule poolStep.process)
    then show ?thesis ..
  next
    case (3 i j r)
    show ?thesis
    proof (cases "sConsumerErr s")
      case None
      show ?thesis by (rule exI, rule poolStep.deliver [OF 3 None])
    next
      case (Some e)
      show ?thesis by (rule exI, rule poolStep.discard [OF 3 Some])
    qed
  next
    case (4 i)
    show ?thesis
    proof (cases "sClosed s")
      case True
      show ?thesis by (rule exI, rule poolStep.jobs_closed [OF 4 True])
    next
      case False
      show ?thesis
      proof (cases "sOffer s")
        case None
        show ?thesis
        proof (cases "sTodo s")
          case Nil
          show ?thesis by (rule exI, rule poolStep.close_jobs [OF Nil None False])
        next
          case (Cons j js)
          show ?thesis
            using poolStep.submit_checks [OF Cons None False] poolStep.submit_fails [OF Cons None False] by blast
        qed
      next
        case (Some j)
        show ?thesis by (rule exI, rule poolStep.accept [OF Some 4])
      qed
    qed
  qed
qed

text \<open>The pool is a terminating machine for every positive number of workers and total processor.\<close>

definition started :: "('j \<Rightarrow> 'r \<Rightarrow> bool) \<Rightarrow> nat \<Rightarrow> 'j list \<Rightarrow> ('j, 'r) search \<Rightarrow> bool" where
  "started proc n jobs s \<longleftrightarrow> 0 < n \<and> (\<forall>j. \<exists>r. proc j r) \<and> s = newSearch n jobs"

interpretation pool: terminating_machine "started proc n jobs" "searchStep proc emit"
    "\<lambda>s. 0 < n \<and> (\<forall>j. \<exists>r. proc j r) \<and> searchInv proc n jobs s" "poolStep proc emit" finished searchSize
  for proc :: "'j \<Rightarrow> 'r \<Rightarrow> bool" and n jobs emit
proof (unfold_locales, goal_cases)
  case (1 s)
  then show ?case by (simp add: started_def searchInv_new)
next
  case (2 s t)
  then show ?case by (auto simp: searchStep_iff intro: poolStep_inv searchInv_cancel)
next
  case (3 s t)
  then show ?case by (rule searchStep.own)
next
  case (4 s)
  then show ?case using poolStep_progress by blast
next
  case (5 s t)
  then show ?case by (auto simp: searchStep_iff poolStep_size) (simp add: searchSize_def)
qed

lemma stopped_hold_nothing: "\<forall>w \<in> set ws. w = Stopped \<Longrightarrow> sum_list (map heldJob ws) = {#}"
  by (induction ws) auto

lemma finished_workers:
  assumes "searchInv proc n jobs s" and "finished s" and "\<not> sCancelled s"
  shows "mset (map fst (sEmitted s)) = mset jobs"
proof -
  have "tracked s = mset jobs" "sTodo s = []" "sOffer s = None" and w: "\<forall>w \<in> set (sWorkers s). w = Stopped"
    using assms by (auto simp: searchInv_def finished_def)
  moreover have "sum_list (map heldJob (sWorkers s)) = {#}" using w by (rule stopped_hold_nothing)
  ultimately show ?thesis by (simp add: tracked_def)
qed

section \<open>Properties\<close>

text \<open>C9: however workers, submitter, consumer and cancellation interleave, every emitted result
  comes from processing one of the jobs and no job gives two results; and a search that finishes without
  cancellation or consumer error has emitted exactly one result per job.\<close>

theorem search_delivers:
  assumes "reachable (\<lambda>s. 0 < n \<and> s = newSearch n jobs) (searchStep proc emit) s" and "\<forall>j. \<exists>r. proc j r"
  shows "mset (map fst (sEmitted s)) \<subseteq># mset jobs
    \<and> (\<forall>p \<in> set (sEmitted s). proc (fst p) (snd p))
    \<and> (finished s \<and> \<not> sCancelled s \<longrightarrow> mset (map fst (sEmitted s)) = mset jobs \<and> searchError c s = None)"
proof -
  have "(\<lambda>s. 0 < n \<and> s = newSearch n jobs) = started proc n jobs" using assms(2) by (simp add: started_def fun_eq_iff)
  then have inv: "searchInv proc n jobs s" using pool.reachable_inv assms(1) by metis
  have "mset (map fst (sEmitted s)) \<subseteq># tracked s" by (simp add: tracked_def)
  then have "mset (map fst (sEmitted s)) \<subseteq># mset jobs"
    using inv unfolding searchInv_def by (meson subset_mset.order_trans)
  moreover have "\<not> sCancelled s \<longrightarrow> searchError c s = None"
    using inv by (auto simp: searchInv_def searchError_def)
  ultimately show ?thesis using inv finished_workers [OF inv] by (auto simp: searchInv_def)
qed

text \<open>A complete run with one worker and one job.\<close>

definition demoEnd :: "(nat, nat) search" where
  "demoEnd = \<lparr>sTodo = [], sOffer = None, sClosed = True, sWorkers = [Stopped], sResultsClosed = True,
     sCancelled = False, sEmitted = [(7, 8)], sConsumerErr = None\<rparr>"

lemma demo_run: "reachable (\<lambda>s. 0 < (1::nat) \<and> s = newSearch 1 [7]) (searchStep (\<lambda>j r. r = Suc j) (\<lambda>_ _. None)) demoEnd"
proof -
  let ?step = "searchStep (\<lambda>j r. r = Suc j) (\<lambda>_ _. None)"
  let ?r = "reachable (\<lambda>s. 0 < (1::nat) \<and> s = newSearch 1 [7]) ?step"
  let ?st = "\<lambda>todo offer closed w rc out. \<lparr>sTodo = todo, sOffer = offer, sClosed = closed, sWorkers = [w], sResultsClosed = rc,
     sCancelled = False, sEmitted = out, sConsumerErr = None\<rparr>"
  have own: "?r s \<Longrightarrow> poolStep (\<lambda>j r. r = Suc j) (\<lambda>_ _. None) s t' \<Longrightarrow> t' = t \<Longrightarrow> ?r t" for s t' t
    by (drule searchStep.own, drule (1) reachable.next_state, hypsubst)
  have "?r (?st [7] None False Idle False [])" by (rule reachable.start) (simp add: newSearch_def)
  then have "?r (?st [] (Some 7) False Idle False [])" by (rule own) (rule poolStep.submit_checks, simp_all)
  then have "?r (?st [] None False (Busy 7) False [])"
    by (rule own) (rule poolStep.accept [where i = 0], simp_all add: setWorker_def)
  then have "?r (?st [] None False (Sending 7 8) False [])"
    by (rule own) (rule poolStep.process [where i = 0], simp_all add: setWorker_def)
  then have "?r (?st [] None False Idle False [(7, 8)])"
    by (rule own) (rule poolStep.deliver [where i = 0], simp_all add: setWorker_def consume_def)
  then have "?r (?st [] None True Idle False [(7, 8)])" by (rule own) (rule poolStep.close_jobs, simp_all)
  then have "?r (?st [] None True Stopped False [(7, 8)])"
    by (rule own) (rule poolStep.jobs_closed [where i = 0], simp_all add: setWorker_def)
  then have "?r (?st [] None True Stopped True [(7, 8)])" by (rule own) (rule poolStep.close_results, simp_all)
  then show ?thesis by (simp add: demoEnd_def)
qed

theorem search_delivers_witness: "mset (map fst (sEmitted demoEnd)) = mset [7] \<and> searchError ''canceled'' demoEnd = None"
proof -
  have "finished demoEnd \<and> \<not> sCancelled demoEnd" by (simp add: finished_def demoEnd_def)
  then show ?thesis using search_delivers [OF demo_run, of "''canceled''"] by simp
qed

text \<open>C10: the website search never deadlocks and always returns: from every reachable state the
  program's own steps lead to completion, a state without such a step is complete, and no run is infinite,
  whenever there is a worker and processing a job returns.\<close>

theorem search_terminates:
  assumes "0 < n" and "\<forall>j. \<exists>r. proc j r"
  shows "(reachable (\<lambda>s. s = newSearch n jobs) (searchStep proc emit) s \<longrightarrow>
      (\<exists>t. (poolStep proc emit)\<^sup>*\<^sup>* s t \<and> finished t) \<and> ((\<forall>t. \<not> poolStep proc emit s t) \<longrightarrow> finished s))
    \<and> \<not> (\<exists>f. f 0 = newSearch n jobs \<and> (\<forall>k. searchStep proc emit (f k) (f (Suc k))))"
proof -
  have eq: "(\<lambda>s. s = newSearch n jobs) = started proc n jobs" using assms by (simp add: started_def fun_eq_iff)
  then have "f 0 = newSearch n jobs \<Longrightarrow> \<not> (\<forall>k. searchStep proc emit (f k) (f (Suc k)))" for f
    using pool.no_infinite_run [of proc n jobs f emit] by metis
  moreover have "reachable (\<lambda>s. s = newSearch n jobs) (searchStep proc emit) s \<longrightarrow>
      (\<exists>t. (poolStep proc emit)\<^sup>*\<^sup>* s t \<and> finished t) \<and> ((\<forall>t. \<not> poolStep proc emit s t) \<longrightarrow> finished s)"
    unfolding eq using pool.reachable_ends [of proc n jobs emit s] pool.stuck_final [of proc n jobs emit s] by blast
  ultimately show ?thesis by blast
qed

theorem search_terminates_witness:
  "\<not> (\<exists>f. f 0 = newSearch 2 [1::nat, 2] \<and> (\<forall>k. searchStep (\<lambda>j r. r = Suc j) (\<lambda>_ _. None) (f k) (f (Suc k))))"
  using search_terminates [of 2 "\<lambda>j r. r = Suc j" "[1, 2]" "\<lambda>_ _. None"] by simp

end
