(* ===== verification/RateLimit.thy ===== *)
theory RateLimit
  imports GoBase Machine
begin

text \<open>
  The per-host limiter (\<open>src/internal/ratelimit/limiter.go\<close>).  Times and durations are nanoseconds as
  unbounded integers.  A host without an entry has Go's zero time, which lies further back than any
  duration, so it never waits.  \<open>hostOf\<close> stands for \<open>url.Parse\<close>: \<open>None\<close> when the URL does not parse,
  otherwise its host.  \<open>WaitContext\<close> is the loop of one goroutine; the other goroutines appear in it as
  an arbitrary change of the shared limiter before each round.  \<open>limiterStep\<close> is the system of all of
  them, one critical section at a time, with the log of what was granted and deferred.
\<close>

section \<open>The limiter\<close>

record limiter =
  lDelay :: int
  lLast :: "string \<rightharpoonup> int"

definition NewHostLimiter :: "int \<Rightarrow> limiter" where
  "NewHostLimiter delay = \<lparr>lDelay = delay, lLast = Map.empty\<rparr>"

text \<open>The critical section of a round: \<open>now\<close> is read by \<open>time.Until\<close>, \<open>stored\<close> by \<open>time.Now\<close>.\<close>

definition acquire :: "string \<Rightarrow> int \<Rightarrow> int \<Rightarrow> limiter \<Rightarrow> int option \<times> limiter" where
  "acquire host now stored rl =
     (let delay = (case lLast rl host of None \<Rightarrow> 0 | Some t \<Rightarrow> t + lDelay rl - now)
      in if delay \<le> 0 then (None, rl\<lparr>lLast := (lLast rl)(host \<mapsto> stored)\<rparr>) else (Some delay, rl))"

record round =
  rdCtx :: "string option"              \<comment> \<open>\<open>ctx.Err()\<close> at the top of the loop\<close>
  rdOthers :: "limiter \<Rightarrow> limiter"       \<comment> \<open>what other goroutines did meanwhile\<close>
  rdNow :: int
  rdStored :: int
  rdDone :: "string option"             \<comment> \<open>the context is done before the timer fires\<close>

text \<open>
  \<open>None\<close> is a loop that has not returned after the given rounds; otherwise the returned error, if any.
\<close>

fun waitLoop :: "string \<Rightarrow> round list \<Rightarrow> limiter \<Rightarrow> string option option \<times> limiter" where
  "waitLoop host [] rl = (None, rl)"
| "waitLoop host (r # rs) rl =
     (case rdCtx r of Some e \<Rightarrow> (Some (Some e), rl)
      | None \<Rightarrow>
        (case acquire host (rdNow r) (rdStored r) (rdOthers r rl) of
           (None, rl') \<Rightarrow> (Some None, rl')
         | (Some d, rl') \<Rightarrow> (case rdDone r of Some e \<Rightarrow> (Some (Some e), rl') | None \<Rightarrow> waitLoop host rs rl')))"

definition WaitContext :: "(string \<Rightarrow> string option) \<Rightarrow> string option \<Rightarrow> round list \<Rightarrow> string \<Rightarrow> limiter
    \<Rightarrow> string option option \<times> limiter" where
  "WaitContext hostOf ctxErr rounds rawURL rl =
     (if ctxErr \<noteq> None then (Some ctxErr, rl)
      else if lDelay rl \<le> 0 then (Some None, rl)
      else case hostOf rawURL of
             None \<Rightarrow> (Some None, rl)
           | Some host \<Rightarrow> if host = [] then (Some None, rl) else waitLoop host rounds rl)"

definition Defer :: "(string \<Rightarrow> string option) \<Rightarrow> int \<Rightarrow> string \<Rightarrow> int \<Rightarrow> limiter \<Rightarrow> limiter" where
  "Defer hostOf now rawURL delay rl =
     (if delay \<le> 0 then rl
      else case hostOf rawURL of
             None \<Rightarrow> rl
           | Some host \<Rightarrow>
               if host = [] then rl
               else let nxt = now + (delay - lDelay rl)
                    in if (case lLast rl host of None \<Rightarrow> True | Some t \<Rightarrow> t < nxt)
                       then rl\<lparr>lLast := (lLast rl)(host \<mapsto> nxt)\<rparr> else rl)"

text \<open>A wait that returns without an error for a limited host has passed the critical section.\<close>

lemma waitLoop_granted:
  "waitLoop host rs rl = (Some None, rl') \<Longrightarrow> \<exists>now stored rl0. acquire host now stored rl0 = (None, rl')"
  by (induction host rs rl rule: waitLoop.induct) (auto split: option.splits prod.splits)

text \<open>Only cancellation makes a wait fail.\<close>

lemma waitLoop_error:
  "waitLoop host rs rl = (Some (Some e), rl') \<Longrightarrow> \<exists>r \<in> set rs. rdCtx r = Some e \<or> rdDone r = Some e"
  by (induction host rs rl rule: waitLoop.induct) (auto split: option.splits prod.splits)

section \<open>All goroutines together\<close>

datatype event = Granted string int | Deferred string int int

record system =
  yLimiter :: limiter
  yClock :: int
  yLog :: "event list"

inductive limiterStep :: "(string \<Rightarrow> string option) \<Rightarrow> system \<Rightarrow> system \<Rightarrow> bool" for hostOf where
  time_passes: "yClock s < now \<Longrightarrow> limiterStep hostOf s (s\<lparr>yClock := now\<rparr>)"
| grant: "hostOf url = Some host \<Longrightarrow> host \<noteq> [] \<Longrightarrow> yClock s \<le> now \<Longrightarrow> now \<le> stored \<Longrightarrow>
    acquire host now stored (yLimiter s) = (None, rl) \<Longrightarrow>
    limiterStep hostOf s (s\<lparr>yLimiter := rl, yClock := stored, yLog := yLog s @ [Granted host stored]\<rparr>)"
| refuse: "hostOf url = Some host \<Longrightarrow> host \<noteq> [] \<Longrightarrow> yClock s \<le> now \<Longrightarrow>
    acquire host now stored (yLimiter s) = (Some d, rl) \<Longrightarrow>
    limiterStep hostOf s (s\<lparr>yLimiter := rl, yClock := now\<rparr>)"
| postpone: "hostOf url = Some host \<Longrightarrow> host \<noteq> [] \<Longrightarrow> 0 < d \<Longrightarrow> yClock s \<le> now \<Longrightarrow>
    limiterStep hostOf s (s\<lparr>yLimiter := Defer hostOf now url d (yLimiter s), yClock := now,
      yLog := yLog s @ [Deferred host now d]\<rparr>)"

definition freshSystem :: "int \<Rightarrow> int \<Rightarrow> system" where
  "freshSystem delay now = \<lparr>yLimiter = NewHostLimiter delay, yClock = now, yLog = []\<rparr>"

section \<open>The spacing invariant\<close>

text \<open>What an earlier event demands of a later grant to the same host.\<close>

fun obeys :: "int \<Rightarrow> event \<Rightarrow> event \<Rightarrow> bool" where
  "obeys delay (Granted h t) (Granted h' t') \<longleftrightarrow> (h = h' \<longrightarrow> t + delay \<le> t')"
| "obeys delay (Deferred h t d) (Granted h' t') \<longleftrightarrow> (h = h' \<longrightarrow> t + d \<le> t')"
| "obeys delay e (Deferred h' t' d') \<longleftrightarrow> True"

text \<open>What the entry of the host records of an event.\<close>

fun recorded :: "limiter \<Rightarrow> event \<Rightarrow> bool" where
  "recorded rl (Granted h t) \<longleftrightarrow> (\<exists>l. lLast rl h = Some l \<and> t \<le> l)"
| "recorded rl (Deferred h t d) \<longleftrightarrow> (\<exists>l. lLast rl h = Some l \<and> t + d \<le> l + lDelay rl)"

definition spacedInv :: "int \<Rightarrow> system \<Rightarrow> bool" where
  "spacedInv delay s \<longleftrightarrow> lDelay (yLimiter s) = delay
     \<and> (\<forall>e \<in> set (yLog s). recorded (yLimiter s) e) \<and> sorted_wrt (obeys delay) (yLog s)"

lemma acquire_granted:
  assumes "acquire host now stored rl = (None, rl')" and "now \<le> stored" and "0 < lDelay rl"
  shows "lDelay rl' = lDelay rl" and "recorded rl e \<Longrightarrow> recorded rl' e \<and> obeys (lDelay rl) e (Granted host stored)"
    and "recorded rl' (Granted host stored)"
  using assms by (cases e; auto simp: acquire_def Let_def split: if_splits option.splits)+

lemma acquire_refused: "acquire host now stored rl = (Some d, rl') \<Longrightarrow> rl' = rl"
  by (auto simp: acquire_def Let_def split: if_splits)

lemma Defer_records:
  assumes "hostOf url = Some host" and "host \<noteq> []" and "0 < d"
  shows "lDelay (Defer hostOf now url d rl) = lDelay rl"
    and "recorded rl e \<Longrightarrow> recorded (Defer hostOf now url d rl) e"
    and "recorded (Defer hostOf now url d rl) (Deferred host now d)"
  using assms by (cases e; auto simp: Defer_def Let_def split: option.splits)+

lemma limiterStep_inv:
  assumes "limiterStep hostOf s t" and "0 < delay" and inv: "spacedInv delay s"
  shows "spacedInv delay t"
  using assms(1)
proof cases
  case (time_passes now)
  then show ?thesis using inv by (simp add: spacedInv_def)
next
  case (grant url host now stored rl)
  have "0 < lDelay (yLimiter s)" using inv assms(2) by (simp add: spacedInv_def)
  note facts = acquire_granted [OF grant(6) grant(5) this]
  show ?thesis using inv facts by (simp add: grant(1) spacedInv_def sorted_wrt_append)
next
  case (refuse url host now stored d rl)
  then show ?thesis using inv acquire_refused [OF refuse(5)] by (simp add: spacedInv_def)
next
  case (postpone url host d now)
  note facts = Defer_records [where hostOf = hostOf and url = url and d = d, OF postpone(2,3,4)]
  have "obeys delay e (Deferred host now d)" for e by (cases e) auto
  moreover have "recorded (Defer hostOf now url d (yLimiter s)) (Deferred host now d)" by (rule facts(3))
  ultimately show ?thesis using inv facts(1,2)
    by (simp add: postpone(1) spacedInv_def sorted_wrt_append del: recorded.simps)
qed

interpretation limits: machine "\<lambda>s. 0 < delay \<and> (\<exists>now. s = freshSystem delay now)" "limiterStep hostOf"
    "\<lambda>s. 0 < delay \<and> spacedInv delay s" for delay hostOf
proof (unfold_locales, goal_cases)
  case (1 s)
  then show ?case by (auto simp: freshSystem_def spacedInv_def NewHostLimiter_def)
next
  case (2 s t)
  then show ?case using limiterStep_inv by blast
qed

section \<open>Properties\<close>

text \<open>C11: whatever the interleaving of waiting goroutines and of provider cooldowns, with a positive
  delay two grants to one host are at least the delay apart, and after a cooldown of \<open>d\<close> announced at time \<open>t\<close>
  no grant to that host happens before \<open>t + d\<close>.\<close>

theorem grants_spaced:
  assumes "0 < delay" and "reachable (\<lambda>s. \<exists>now. s = freshSystem delay now) (limiterStep hostOf) s"
    and "i < j" and "j < length (yLog s)" and "yLog s ! j = Granted host t"
  shows "(yLog s ! i = Granted host u \<longrightarrow> u + delay \<le> t) \<and> (yLog s ! i = Deferred host u d \<longrightarrow> u + d \<le> t)"
proof -
  have "(\<lambda>s. 0 < delay \<and> (\<exists>now. s = freshSystem delay now)) = (\<lambda>s. \<exists>now. s = freshSystem delay now)"
    using assms(1) by simp
  then have "spacedInv delay s" using limits.reachable_inv [of delay hostOf s] assms(2) by simp
  then have "obeys delay (yLog s ! i) (yLog s ! j)"
    using assms(3,4) by (simp add: spacedInv_def sorted_wrt_iff_nth_less)
  then show ?thesis using assms(5) by auto
qed

text \<open>A grant, a cooldown of 70 and a grant to one host, under a delay of 10.\<close>

definition demoSystem :: system where
  "demoSystem = \<lparr>yLimiter = \<lparr>lDelay = 10, lLast = [''h'' \<mapsto> 105]\<rparr>, yClock = 105,
     yLog = [Granted ''h'' 5, Deferred ''h'' 30 70, Granted ''h'' 105]\<rparr>"

lemma demo_limiter: "reachable (\<lambda>s. \<exists>now. s = freshSystem 10 now) (limiterStep Some) demoSystem"
proof -
  let ?r = "reachable (\<lambda>s. \<exists>now. s = freshSystem 10 now) (limiterStep Some)"
  let ?st = "\<lambda>rl c log. \<lparr>yLimiter = \<lparr>lDelay = 10, lLast = rl\<rparr>, yClock = c, yLog = log\<rparr>"
  have own: "?r s \<Longrightarrow> limiterStep Some s t' \<Longrightarrow> t' = t \<Longrightarrow> ?r t" for s t' t
    by (drule (1) reachable.next_state, hypsubst)
  have "?r (?st Map.empty 0 [])" by (rule reachable.start) (auto simp: freshSystem_def NewHostLimiter_def)
  then have "?r (?st [''h'' \<mapsto> 5] 5 [Granted ''h'' 5])"
    by (rule own)
      (rule limiterStep.grant [where host = "''h''" and now = 4 and stored = 5], simp_all add: acquire_def)
  then have "?r (?st [''h'' \<mapsto> 90] 30 [Granted ''h'' 5, Deferred ''h'' 30 70])"
    by (rule own) (rule limiterStep.postpone [where url = "''h''" and host = "''h''" and now = 30 and d = 70],
        simp_all add: Defer_def Let_def)
  then have "?r (?st [''h'' \<mapsto> 105] 105 [Granted ''h'' 5, Deferred ''h'' 30 70, Granted ''h'' 105])"
    by (rule own)
      (rule limiterStep.grant [where host = "''h''" and now = 101 and stored = 105], simp_all add: acquire_def)
  then show ?thesis by (simp add: demoSystem_def)
qed

theorem grants_spaced_witness: "(30 :: int) + 70 \<le> 105 \<and> yLog demoSystem ! 1 = Deferred ''h'' 30 70"
  using grants_spaced [OF _ demo_limiter, of 1 2 "''h''" 105 30 70] by (simp add: demoSystem_def)

end
