(* ===== verification/Websites.thy ===== *)
theory Websites
  imports Detector WorkerPool RateLimit
begin

text \<open>
  The website source (\<open>src/internal/sources/websites\<close>): one site check (\<open>Process\<close>), the constructor,
  and \<open>search\<close>, whose goroutines are the machine of \<open>WorkerPool\<close>.  The world a check meets is the record
  \<open>siteEnv\<close>: the limiter's answer, the rotated user agent, the request constructor and the HTTP client.
  A Go map is the list of its entries in the order in which the run visits them.
\<close>

section \<open>The request\<close>

record request =
  rqMethod :: string
  rqURL :: string
  rqBody :: "string option"
  rqHeader :: headers
  rqFollow :: bool

text \<open>\<open>Header.Set\<close>\<close>

definition headerSet :: "string \<Rightarrow> string \<Rightarrow> headers \<Rightarrow> headers" where
  "headerSet k v h = AList.update (canonicalKey k) [v] h"

definition substitute :: "string \<Rightarrow> string \<Rightarrow> string" where
  "substitute target template = replaceAll (replaceAll template ''{username}'' target) ''{target}'' target"

definition checkURL :: "SiteConfig \<Rightarrow> string \<Rightarrow> string" where
  "checkURL site target =
     (if scURLProbe site \<noteq> [] then substitute target (scURLProbe site) else substitute target (scURL site))"

definition requestMethod :: "SiteConfig \<Rightarrow> string" where
  "requestMethod site =
     (let m = (if scRequestMethod site \<noteq> [] then scRequestMethod site else ''GET'')
      in if scRequestHeadOnly site \<and> m = ''GET'' then ''HEAD'' else m)"

definition requestBody :: "SiteConfig \<Rightarrow> string \<Rightarrow> string option" where
  "requestBody site target =
     (if scRequestPayload site \<noteq> [] then Some (substitute target (scRequestPayload site)) else None)"

definition requestHeaders :: "SiteConfig \<Rightarrow> string \<Rightarrow> string \<Rightarrow> headers" where
  "requestHeaders site target ua =
     fold (\<lambda>(k, v). headerSet k (replaceAll v ''{username}'' target)) (scHeaders site)
       (fold (\<lambda>(k, v). headerSet k v)
          [(''User-Agent'', ua), (''Accept'', ''text/html,application/xhtml+xml,application/xml;q=0.9,*/*;q=0.8''),
           (''Accept-Language'', ''en-US,en;q=0.5''), (''Accept-Encoding'', ''gzip, deflate, br''), (''DNT'', ''1''),
           (''Connection'', ''keep-alive''), (''Upgrade-Insecure-Requests'', ''1'')] [])"

definition siteRequest :: "SiteConfig \<Rightarrow> string \<Rightarrow> string \<Rightarrow> request" where
  "siteRequest site target ua =
     \<lparr>rqMethod = requestMethod site, rqURL = checkURL site target, rqBody = requestBody site target,
      rqHeader = requestHeaders site target ua, rqFollow = scFollowRedirects site\<rparr>"

section \<open>One check\<close>

text \<open>A reply: the response, its final URL if known, and the bytes of the body with the error that ends them.\<close>

record reply =
  rpResponse :: Response
  rpURL :: "string option"
  rpBody :: string
  rpBodyErr :: "string option"

record siteEnv =
  envWait :: "string option"
  envUserAgent :: string
  envNewRequest :: "string \<Rightarrow> string \<Rightarrow> string option"
  envDo :: "request \<Rightarrow> string + reply"
  envDuration :: int

text \<open>\<open>io.ReadAll(io.LimitReader(body, n))\<close>: an error after the first \<open>n\<close> bytes is not seen.\<close>

definition readLimited :: "nat \<Rightarrow> string \<Rightarrow> string option \<Rightarrow> string + string" where
  "readLimited n body err = (if n \<le> length body then Inr (take n body)
     else case err of Some e \<Rightarrow> Inl e | None \<Rightarrow> Inr body)"

definition headerSecrets :: "(string \<Rightarrow> string) \<Rightarrow> SiteConfig \<Rightarrow> string list" where
  "headerSecrets uni site = map snd (filter (\<lambda>(k, v). SensitiveKey uni k) (scHeaders site))"

text \<open>From the rate limit to the body and its final URL, or the error of the stage that failed.\<close>

definition fetchSite :: "siteEnv \<Rightarrow> SiteConfig \<Rightarrow> string \<Rightarrow> string + Response \<times> string \<times> string" where
  "fetchSite env site target =
     (let url = checkURL site target in
      case envWait env of Some e \<Rightarrow> Inl e
      | None \<Rightarrow> (case envNewRequest env (requestMethod site) url of Some e \<Rightarrow> Inl e
        | None \<Rightarrow> andThen (envDo env (siteRequest site target (envUserAgent env))) (\<lambda>rp.
            andThen (readLimited 131072 (rpBody rp) (rpBodyErr rp)) (\<lambda>body.
              Inr (rpResponse rp, body, case rpURL rp of Some u \<Rightarrow> u | None \<Rightarrow> url)))))"

definition siteResult :: "SiteConfig \<Rightarrow> string \<Rightarrow> string \<Rightarrow> Result" where
  "siteResult site kind target = emptyResult\<lparr>rSource := scName site, rSourceType := SourceWebsite, rTargetType := kind,
     rSiteName := scName site, rTarget := target, rURL := checkURL site target, rStatus := StatusError\<rparr>"

definition applyDetection :: "DetectionResult \<Rightarrow> string \<Rightarrow> Result \<Rightarrow> Result" where
  "applyDetection d finalURL res =
     (let res = res\<lparr>rFound := dFound d, rConfidence := sint (dConfidence d), rStatus := dStatus d\<rparr>
      in if finalURL \<noteq> rURL res then res\<lparr>rFinalURL := finalURL\<rparr> else res)"

definition Process :: "(string \<Rightarrow> string) \<Rightarrow> (string \<Rightarrow> string \<Rightarrow> bool) \<Rightarrow> siteEnv \<Rightarrow> string \<Rightarrow> string \<Rightarrow> SiteConfig \<Rightarrow> Result" where
  "Process uni rx env kind target site =
     (let res = siteResult site kind target;
          res = (case fetchSite env site target of
                   Inl e \<Rightarrow> res\<lparr>rError := e\<rparr>
                 | Inr (resp, body, finalURL) \<Rightarrow> applyDetection (Analyze uni rx site resp body finalURL) finalURL res)
      in Normalized uni (RedactedResult uni (headerSecrets uni site) (res\<lparr>rDuration := envDuration env\<rparr>)))"

section \<open>The source\<close>

definition newWebsites :: "int \<Rightarrow> bool \<Rightarrow> bool \<Rightarrow> bool \<Rightarrow> string + unit" where
  "newWebsites workers client ua limiter =
     (if workers < 1 then Inl ''website workers must be positive''
      else if \<not> client \<or> \<not> ua \<or> \<not> limiter then Inl ''missing website dependency''
      else Inr ())"

definition websiteJobs :: "SiteConfig list \<Rightarrow> SiteConfig list" where
  "websiteJobs sites = filter (\<lambda>s. \<not> (scURL s = [] \<or> scDisabled s)) sites"

text \<open>A search starts the pool on the enabled sites; a worker may meet any world.\<close>

definition startWebsites :: "nat \<Rightarrow> SiteConfig list \<Rightarrow> (SiteConfig, Result) search" where
  "startWebsites workers sites = newSearch workers (websiteJobs sites)"

definition siteOutcome :: "(string \<Rightarrow> string) \<Rightarrow> (string \<Rightarrow> string \<Rightarrow> bool) \<Rightarrow> string \<Rightarrow> string \<Rightarrow> SiteConfig \<Rightarrow> Result \<Rightarrow> bool" where
  "siteOutcome uni rx kind target site r \<longleftrightarrow> (\<exists>env. r = Process uni rx env kind target site)"

section \<open>What a check reports\<close>

lemma secret_headers: "(k, v) \<in> set (scHeaders site) \<Longrightarrow> SensitiveKey uni k \<Longrightarrow> v \<in> set (headerSecrets uni site)"
  by (force simp: headerSecrets_def)

lemma detection_status: "detectionOK d \<Longrightarrow> dStatus d \<noteq> [] \<and> dStatus d \<noteq> StatusError"
  by (auto simp: detectionOK_def status_defs split: if_splits)

lemma applyDetection_sel:
  "rStatus (applyDetection d u r) = dStatus d" "rConfidence (applyDetection d u r) = sint (dConfidence d)"
  by (simp_all add: applyDetection_def Let_def)

section \<open>Properties\<close>

text \<open>C12: a configured credential never leaves a site check: no text of the result, its metadata and
  evidence included, on any return path and in any world (an error message of the client, a final URL of the server), contains the value of a
  header with a sensitive name, when that value shares no character with the redaction marker.\<close>

theorem check_hides_credentials:
  assumes "(k, v) \<in> set (scHeaders site)" and "SensitiveKey uni k" and "v \<noteq> []" and "set v \<inter> set Redacted = {}"
    and "t \<in> set (resultTexts (Process uni rx env kind target site))"
  shows "\<not> containsStr t v"
  using clean_texts [OF assms(3,4) secret_headers [OF assms(1,2)]] assms(5) by (auto simp: Process_def Let_def)

definition leakySite :: SiteConfig where
  "leakySite = zeroSite\<lparr>scName := ''s'', scURL := ''http://h/?k=hunter2'', scHeaders := [(''Token'', ''hunter2'')]\<rparr>"

definition leakyEnv :: siteEnv where
  "leakyEnv = \<lparr>envWait = Some ''no hunter2'', envUserAgent = [], envNewRequest = (\<lambda>_ _. None),
     envDo = (\<lambda>_. Inl ''hunter2''), envDuration = 0\<rparr>"

theorem check_hides_credentials_witness:
  "\<not> containsStr (rURL (Process (\<lambda>s. s) (\<lambda>_ _. False) leakyEnv TargetUsername ''bob'' leakySite)) ''hunter2''"
proof -
  have "SensitiveKey (\<lambda>s. s) ''Token''" by code_simp
  moreover have "(''Token'', ''hunter2'') \<in> set (scHeaders leakySite)" by (simp add: leakySite_def)
  ultimately show ?thesis
    by (intro check_hides_credentials [of "''Token''" "''hunter2''" leakySite "\<lambda>s. s" _ "\<lambda>_ _. False" leakyEnv
        TargetUsername "''bob''"])
      (simp_all add: Redacted_def resultTexts_def)
qed

text \<open>The outcome of a site check: it reports an error exactly when a stage before the detector
  failed, otherwise it has the detector's status and score; a row is a find exactly when its status says so,
  and it never claims a score above 100.\<close>

theorem check_outcome:
  "(rStatus (Process uni rx env kind target site) = StatusError \<longleftrightarrow> (\<exists>e. fetchSite env site target = Inl e))
   \<and> (rFound (Process uni rx env kind target site) \<longleftrightarrow> rStatus (Process uni rx env kind target site) = StatusFound)
   \<and> rConfidence (Process uni rx env kind target site) \<le> 100"
proof (cases "fetchSite env site target")
  case (Inl e)
  then show ?thesis
    by (simp add: Process_def Normalized_found Normalized_status Redacted_sel siteResult_def emptyResult_def status_defs)
next
  case (Inr f)
  obtain resp body url where f: "f = (resp, body, url)" by (cases f)
  define d where "d = Analyze uni rx site resp body url"
  have ok: "detectionOK d" by (simp add: d_def Analyze_OK)
  then have "sint (dConfidence d) \<le> 100" by (auto simp: detectionOK_def split: if_splits)
  with detection_status [OF ok] show ?thesis
    by (simp add: Process_def Inr f d_def [symmetric] Normalized_found Normalized_status Redacted_sel applyDetection_sel)
qed

end
