(* ===== verification/Diagnostics.thy ===== *)
theory Diagnostics
  imports Models "HOL-Library.Multiset"
begin

text \<open>
  The bounded projection of a search for the log (\<open>src/internal/diagnostics/search.go\<close>).  An error is
  its text with what \<open>errors.Is\<close> says about the two context errors.  A log line itself is not modelled,
  only the fields it is given.
\<close>

record goError =
  eText :: string
  eCanceled :: bool
  eDeadline :: bool

definition plainError :: "string \<Rightarrow> goError" where
  "plainError t = \<lparr>eText = t, eCanceled = False, eDeadline = False\<rparr>"

definition diagTarget :: "string \<Rightarrow> string" where
  "diagTarget kind = (if kind \<in> set [TargetBitcoinTransaction, TargetBitcoin, TargetIP, TargetUsername, TargetEmail,
     TargetDomain, TargetPassword, TargetPasswordHash] then kind else ''unknown'')"

definition diagSource :: "string \<Rightarrow> string" where
  "diagSource name = (if name \<in> set [''bitcoin-tx'', ''bitcoin-labels'', ''bitcoin'', ''ipinfo'', ''websites'', ''hibp'',
     ''pwned-passwords'', ''pwned-passwords-local'', ''securitytrails''] then name else ''other'')"

definition ErrorCategory :: "goError option \<Rightarrow> string \<Rightarrow> string" where
  "ErrorCategory err fallback =
     (case err of None \<Rightarrow> fallback
      | Some e \<Rightarrow> if eDeadline e then ''deadline_exceeded'' else if eCanceled e then ''canceled'' else fallback)"

definition Category :: "string \<Rightarrow> string" where
  "Category kind =
     (if kind \<in> set [''timeout'', ''request_timeout'', ''deadline_exceeded''] then ''deadline_exceeded''
      else if kind \<in> set [''cancelled'', ''canceled''] then ''canceled''
      else if kind \<in> set [''missing_api_key'', ''unauthorized'', ''forbidden''] then ''authentication''
      else if kind = ''rate_limited'' then ''rate_limited''
      else if kind \<in> set [''bad_request'', ''invalid_request''] then ''invalid_request''
      else ''provider_error'')"

definition priority :: "string \<Rightarrow> int" where
  "priority category =
     (if category = ''deadline_exceeded'' then 6 else if category = ''canceled'' then 5
      else if category = ''authentication'' then 4 else if category = ''rate_limited'' then 3
      else if category = ''invalid_request'' then 2 else if category = ''provider_error'' then 1 else 0)"

record Outcome =
  oOutcome :: string
  oCategory :: string

record Summary =
  smFound :: bool
  smAbsent :: bool
  smBlocked :: bool
  smUnclassified :: bool
  smCategory :: string

definition newSummary :: Summary where
  "newSummary = \<lparr>smFound = False, smAbsent = False, smBlocked = False, smUnclassified = False, smCategory = []\<rparr>"

text \<open>A missing key of a map reads as the empty string.\<close>

definition metadataGet :: "(string \<times> string) list \<Rightarrow> string \<Rightarrow> string" where
  "metadataGet m k = (case map_of m k of Some v \<Rightarrow> v | None \<Rightarrow> [])"

definition raiseCategory :: "string \<Rightarrow> Summary \<Rightarrow> Summary" where
  "raiseCategory category s = (if priority category > priority (smCategory s) then s\<lparr>smCategory := category\<rparr> else s)"

definition Observe :: "Result \<Rightarrow> Summary \<Rightarrow> Summary" where
  "Observe r s =
     (let status = inferredStatus r in
      if status = StatusFound then s\<lparr>smFound := True\<rparr>
      else if status = StatusNotFound then s\<lparr>smAbsent := True\<rparr>
      else if status = StatusBlocked then s\<lparr>smBlocked := True\<rparr>
      else if status = StatusError then raiseCategory (Category (metadataGet (rMetadata r) ''error_kind'')) s
      else s\<lparr>smUnclassified := True\<rparr>)"

definition Failure :: "string \<Rightarrow> Outcome" where
  "Failure category =
     \<lparr>oOutcome = (if category = ''canceled'' \<or> category = ''deadline_exceeded'' then category else ''error''),
      oCategory = category\<rparr>"

definition Finish :: "Summary \<Rightarrow> goError option \<Rightarrow> goError option \<Rightarrow> Outcome" where
  "Finish s ctxErr err =
     (let category = ErrorCategory ctxErr (ErrorCategory err (smCategory s)) in
      if category \<noteq> [] then Failure category
      else if err \<noteq> None then Failure ''provider_error''
      else if smFound s then \<lparr>oOutcome = ''success'', oCategory = ''none''\<rparr>
      else if smBlocked s then \<lparr>oOutcome = ''blocked'', oCategory = ''none''\<rparr>
      else if smAbsent s \<and> \<not> smUnclassified s then \<lparr>oOutcome = ''not_found'', oCategory = ''none''\<rparr>
      else \<lparr>oOutcome = ''success'', oCategory = ''none''\<rparr>)"

section \<open>The vocabulary of the log\<close>

definition categories :: "string set" where
  "categories = set [''deadline_exceeded'', ''canceled'', ''authentication'', ''rate_limited'', ''invalid_request'', ''provider_error'']"

lemma Category_in: "Category kind \<in> categories"
  by (simp add: Category_def categories_def)

lemma priority_inj: "a \<in> categories \<Longrightarrow> b \<in> categories \<Longrightarrow> priority a = priority b \<longleftrightarrow> a = b"
  by (auto simp: categories_def priority_def)

lemma raiseCategory_commute:
  "a \<in> categories \<Longrightarrow> b \<in> categories \<Longrightarrow> raiseCategory a (raiseCategory b s) = raiseCategory b (raiseCategory a s)"
  using priority_inj [of a b] by (auto simp: raiseCategory_def)

lemma raiseCategory_flags:
  "raiseCategory c (s\<lparr>smFound := x\<rparr>) = (raiseCategory c s)\<lparr>smFound := x\<rparr>"
  "raiseCategory c (s\<lparr>smAbsent := x\<rparr>) = (raiseCategory c s)\<lparr>smAbsent := x\<rparr>"
  "raiseCategory c (s\<lparr>smBlocked := x\<rparr>) = (raiseCategory c s)\<lparr>smBlocked := x\<rparr>"
  "raiseCategory c (s\<lparr>smUnclassified := x\<rparr>) = (raiseCategory c s)\<lparr>smUnclassified := x\<rparr>"
  by (simp_all add: raiseCategory_def)

text \<open>An observation is one of five updates, which commute.\<close>

lemma Observe_cases:
  obtains (found) "Observe r = (\<lambda>s. s\<lparr>smFound := True\<rparr>)" | (absent) "Observe r = (\<lambda>s. s\<lparr>smAbsent := True\<rparr>)"
    | (blocked) "Observe r = (\<lambda>s. s\<lparr>smBlocked := True\<rparr>)" | (unclassified) "Observe r = (\<lambda>s. s\<lparr>smUnclassified := True\<rparr>)"
    | (error) c where "c \<in> categories" "Observe r = raiseCategory c"
proof -
  consider "inferredStatus r = StatusFound" | "inferredStatus r = StatusNotFound" | "inferredStatus r = StatusBlocked"
    | "inferredStatus r = StatusError"
    | "inferredStatus r \<notin> {StatusFound, StatusNotFound, StatusBlocked, StatusError}" by blast
  then show thesis
  proof cases
    case 4
    then have "Observe r = raiseCategory (Category (metadataGet (rMetadata r) ''error_kind''))"
      by (simp add: Observe_def fun_eq_iff status_defs)
    then show thesis by (rule error [OF Category_in])
  qed (auto simp: Observe_def fun_eq_iff status_defs intro: that)
qed

lemma Observe_commute: "Observe a (Observe b s) = Observe b (Observe a s)"
  by (cases a rule: Observe_cases; cases b rule: Observe_cases)
    (simp_all add: raiseCategory_flags raiseCategory_commute)

lemma Observe_category: "smCategory s \<in> insert [] categories \<Longrightarrow> smCategory (Observe r s) \<in> insert [] categories"
  by (cases r rule: Observe_cases) (auto simp: raiseCategory_def)

lemma fold_category:
  "smCategory s \<in> insert [] categories \<Longrightarrow> smCategory (fold Observe rs s) \<in> insert [] categories"
  by (induction rs arbitrary: s) (simp, metis Observe_category fold_simps(2))

lemma ErrorCategory_in: "f \<in> insert [] categories \<Longrightarrow> ErrorCategory err f \<in> insert [] categories"
  by (auto simp: ErrorCategory_def categories_def split: option.split)

lemma Finish_category:
  "smCategory s \<in> insert [] categories \<Longrightarrow> oCategory (Finish s ctxErr err) \<in> insert ''none'' categories"
  using ErrorCategory_in [OF ErrorCategory_in, of "smCategory s" ctxErr err]
  by (auto simp: Finish_def Let_def Failure_def categories_def)

section \<open>Property\<close>

text \<open>The logged outcome of a search depends on its results as a bag: two runs that emit the same rows in
  different orders log the same outcome, whose category is always one of seven fixed words, whatever text the
  rows carry.\<close>

theorem outcome_order_independent:
  assumes "mset rs = mset rs'"
  shows "Finish (fold Observe rs newSummary) ctxErr err = Finish (fold Observe rs' newSummary) ctxErr err
    \<and> oCategory (Finish (fold Observe rs newSummary) ctxErr err) \<in> insert ''none'' categories"
proof -
  have "fold Observe rs newSummary = fold Observe rs' newSummary"
    by (rule arg_cong [where f = "\<lambda>f. f newSummary"], rule fold_multiset_equiv [OF _ assms])
      (simp add: fun_eq_iff Observe_commute)
  moreover have "smCategory (fold Observe rs newSummary) \<in> insert [] categories"
    by (rule fold_category) (simp add: newSummary_def)
  ultimately show ?thesis using Finish_category by metis
qed

theorem outcome_order_independent_witness:
  "Finish (fold Observe [emptyResult\<lparr>rError := ''x''\<rparr>, emptyResult] newSummary) None None
   = Finish (fold Observe [emptyResult, emptyResult\<lparr>rError := ''x''\<rparr>] newSummary) None None"
  by (rule outcome_order_independent [THEN conjunct1]) simp

end
