(* ===== verification/Sources.thy ===== *)
theory Sources
  imports Diagnostics Machine
begin

text \<open>
  The provider contract, the registry and the sequential dispatch
  (\<open>src/internal/sources/source.go\<close>, \<open>registry.go\<close>, \<open>manager.go\<close>).  A source is a value with a name, a
  type, the set of search interfaces it implements, and for every target type the script of its search: an
  interaction tree that emits rows, sees what \<open>Emit\<close> answers, may consume the secret it was handed, and
  returns an error or nil.  \<open>emit\<close> is the caller's consumer; it may depend on the rows it already has.
  The context is \<open>ctx n\<close>, its error at the \<open>n\<close>-th check (before a source, and after it for the log).  A source that panics is not modelled.
\<close>

section \<open>Sources\<close>

datatype script =
    Return "goError option"
  | EmitRow Result "goError option \<Rightarrow> script"
  | ConsumeSecret "string \<Rightarrow> script"

record source =
  srcName :: string
  srcType :: string
  srcImplements :: "string \<Rightarrow> bool"
  srcSearch :: "string \<Rightarrow> string \<Rightarrow> script"

definition Capabilities :: "source \<Rightarrow> string list" where
  "Capabilities s = filter (srcImplements s) [TargetBitcoinTransaction, TargetBitcoin, TargetIP, TargetDomain,
     TargetUsername, TargetEmail, TargetPassword, TargetPasswordHash]"

definition Supports :: "source \<Rightarrow> string \<Rightarrow> bool" where
  "Supports s kind \<longleftrightarrow> list_ex (\<lambda>c. c = kind) (Capabilities s)"

section \<open>Registry\<close>

record registry =
  regOrdered :: "source list"
  regByName :: "string \<rightharpoonup> source"

definition NewRegistry :: registry where
  "NewRegistry = \<lparr>regOrdered = [], regByName = Map.empty\<rparr>"

text \<open>\<open>None\<close> is a nil source, also as a typed nil pointer.\<close>

definition Register :: "source option \<Rightarrow> registry \<Rightarrow> string option \<times> registry" where
  "Register so r =
     (case so of None \<Rightarrow> (Some ''nil source'', r)
      | Some s \<Rightarrow>
         (let name = srcName s in
          if trimSpace name = [] \<or> trimSpace name \<noteq> name then (Some ''invalid source name'', r)
          else if srcType s = [] \<or> Capabilities s = [] then (Some ''source requires type and search capability'', r)
          else if regByName r name \<noteq> None then (Some (''duplicate source: '' @ name), r)
          else (None, r\<lparr>regByName := (regByName r)(name \<mapsto> s), regOrdered := regOrdered r @ [s]\<rparr>)))"

definition LookupSource :: "registry \<Rightarrow> string \<Rightarrow> source option" where
  "LookupSource r name = regByName r name"

definition AllSources :: "registry \<Rightarrow> source list" where
  "AllSources r = regOrdered r"

section \<open>Errors\<close>

text \<open>\<open>errors.Join\<close> of errors that are not nil.\<close>

definition joinErrors :: "goError list \<Rightarrow> goError option" where
  "joinErrors es = (if es = [] then None else Some
     \<lparr>eText = joinWith [CHR 0x0A] (map eText es), eCanceled = list_ex eCanceled es, eDeadline = list_ex eDeadline es\<rparr>)"

definition ErrUnsupportedTarget :: goError where
  "ErrUnsupportedTarget = plainError ''no source supports target type''"

section \<open>One source\<close>

text \<open>What \<open>deliver\<close> makes of a row: the dispatcher's provenance, and no secret.\<close>

definition stamp :: "(string \<Rightarrow> string) \<Rightarrow> secretStore \<Rightarrow> Target \<Rightarrow> source \<Rightarrow> Result \<Rightarrow> Result" where
  "stamp uni st target s r =
     (let r = (if rSource r = [] then r\<lparr>rSource := srcName s\<rparr> else r);
          r = r\<lparr>rSourceType := srcType s, rTarget := TargetString target, rTargetType := tKind target\<rparr>
      in if Sensitive (tKind target) then RedactedResult uni [TargetValue st target] r else r)"

record progress =
  pgStore :: secretStore
  pgRows :: "Result list"               \<comment> \<open>everything the caller's consumer was given\<close>
  pgConsumerErr :: "goError option"
  pgSummary :: Summary

definition deliver :: "(string \<Rightarrow> string) \<Rightarrow> (Result list \<Rightarrow> Result \<Rightarrow> goError option) \<Rightarrow> Target \<Rightarrow> source \<Rightarrow> Result
    \<Rightarrow> progress \<Rightarrow> goError option \<times> progress" where
  "deliver uni emit target s r p =
     (if pgConsumerErr p \<noteq> None then (pgConsumerErr p, p)
      else let r = stamp uni (pgStore p) target s r;
               row = Normalized uni r;
               e = emit (pgRows p) row
           in (e, p\<lparr>pgRows := pgRows p @ [row], pgConsumerErr := e, pgSummary := Observe r (pgSummary p)\<rparr>))"

primrec runScript :: "(string \<Rightarrow> string) \<Rightarrow> (Result list \<Rightarrow> Result \<Rightarrow> goError option) \<Rightarrow> Target \<Rightarrow> source \<Rightarrow> script
    \<Rightarrow> progress \<Rightarrow> goError option \<times> progress" where
  "runScript uni emit target s (Return e) p = (e, p)"
| "runScript uni emit target s (EmitRow r k) p =
     (let d = deliver uni emit target s r p in runScript uni emit target s (k (fst d)) (snd d))"
| "runScript uni emit target s (ConsumeSecret k) p =
     runScript uni emit target s (k (Reveal (pgStore p) (tSecret target)))
       (p\<lparr>pgStore := Destroy (pgStore p) (tSecret target)\<rparr>)"

text \<open>The failure kept of a provider error: a redacted text and the context errors only.\<close>

definition sourceFailure :: "secretStore \<Rightarrow> Target \<Rightarrow> source \<Rightarrow> goError \<Rightarrow> goError" where
  "sourceFailure st target s e =
     (let message = Redact (eText e) [];
          message = (if Sensitive (tKind target) then Redact message [TargetValue st target] else message)
      in e\<lparr>eText := ''source '' @ srcName s @ '': '' @ message\<rparr>)"

definition sourceScript :: "Target \<Rightarrow> source \<Rightarrow> script" where
  "sourceScript target s =
     srcSearch s (tKind target) (if Sensitive (tKind target) then [] else tValue target)"

text \<open>The failure, the consumer's error, the logged outcome, and the state after the source returned.\<close>

definition invoke :: "(string \<Rightarrow> string) \<Rightarrow> (Result list \<Rightarrow> Result \<Rightarrow> goError option) \<Rightarrow> goError option \<Rightarrow> Target \<Rightarrow> source
    \<Rightarrow> progress \<Rightarrow> goError option \<times> goError option \<times> Outcome \<times> progress" where
  "invoke uni emit ctxErr target s p0 =
     (let (err, p) = runScript uni emit target s (sourceScript target s) (p0\<lparr>pgConsumerErr := None, pgSummary := newSummary\<rparr>);
          outcome = (if pgConsumerErr p \<noteq> None then Failure (ErrorCategory (pgConsumerErr p) ''internal_error'')
                     else Finish (pgSummary p) ctxErr err)
      in if pgConsumerErr p \<noteq> None then (None, pgConsumerErr p, outcome, p)
         else (map_option (sourceFailure (pgStore p) target s) err, None, outcome, p))"

section \<open>The sequential dispatch\<close>

fun sequentialLoop :: "(string \<Rightarrow> string) \<Rightarrow> (Result list \<Rightarrow> Result \<Rightarrow> goError option) \<Rightarrow> (nat \<Rightarrow> goError option) \<Rightarrow> Target
    \<Rightarrow> source list \<Rightarrow> nat \<Rightarrow> goError list \<Rightarrow> bool \<Rightarrow> progress \<Rightarrow> goError option \<times> progress" where
  "sequentialLoop uni emit ctx target [] n failures supported p =
     (if \<not> supported then Some ErrUnsupportedTarget
      else joinErrors (failures @ (case ctx n of Some e \<Rightarrow> [e] | None \<Rightarrow> [])), p)"
| "sequentialLoop uni emit ctx target (s # ss) n failures supported p =
     (case ctx n of Some e \<Rightarrow> (joinErrors (failures @ [e]), p)
      | None \<Rightarrow>
         if \<not> Supports s (tKind target) then sequentialLoop uni emit ctx target ss (Suc n) failures supported p
         else (case invoke uni emit (ctx (Suc n)) target s p of (failure, consumerErr, outcome, p') \<Rightarrow>
                 if consumerErr \<noteq> None then (consumerErr, p')
                 else sequentialLoop uni emit ctx target ss (Suc (Suc n))
                        (failures @ (case failure of Some e \<Rightarrow> [e] | None \<Rightarrow> [])) True p'))"

definition newProgress :: "secretStore \<Rightarrow> progress" where
  "newProgress st = \<lparr>pgStore = st, pgRows = [], pgConsumerErr = None, pgSummary = newSummary\<rparr>"

definition searchSequential :: "(string \<Rightarrow> string) \<Rightarrow> (Result list \<Rightarrow> Result \<Rightarrow> goError option) \<Rightarrow> (nat \<Rightarrow> goError option)
    \<Rightarrow> Target \<Rightarrow> source list \<Rightarrow> progress \<Rightarrow> goError option \<times> progress" where
  "searchSequential uni emit ctx target snapshot p = sequentialLoop uni emit ctx target snapshot 0 [] False p"

text \<open>
  \<open>Search\<close>.  The overlapping search of several sources is a relation (theory \<open>ParallelSearch\<close>); here it is
  the argument \<open>parallel\<close>.  The loop that selects the sources checks the context before each of them.
\<close>

fun selectSources :: "(nat \<Rightarrow> goError option) \<Rightarrow> string \<Rightarrow> nat \<Rightarrow> source list \<Rightarrow> goError + source list" where
  "selectSources ctx kind n [] = Inr []"
| "selectSources ctx kind n (s # ss) =
     (case ctx n of Some e \<Rightarrow> Inl e
      | None \<Rightarrow> andThen (selectSources ctx kind (Suc n) ss) (\<lambda>sel. Inr (if Supports s kind then s # sel else sel)))"

definition Search :: "(string \<Rightarrow> string) \<Rightarrow> (Result list \<Rightarrow> Result \<Rightarrow> goError option) option \<Rightarrow> (nat \<Rightarrow> goError option)
    \<Rightarrow> (source list \<Rightarrow> progress \<Rightarrow> goError option \<times> progress) \<Rightarrow> registry option \<Rightarrow> Target \<Rightarrow> secretStore
    \<Rightarrow> goError option \<times> progress" where
  "Search uni emitter ctx parallel registry target st =
     (let p = newProgress st;
          destroy = (\<lambda>(e, p). (e, if Sensitive (tKind target) then p\<lparr>pgStore := Destroy (pgStore p) (tSecret target)\<rparr> else p))
      in if \<not> TargetValid st target then (Some (plainError ''invalid target''), p)
         else destroy
           (case emitter of None \<Rightarrow> (Some (plainError ''nil result consumer''), p)
            | Some emit \<Rightarrow>
               (case registry of None \<Rightarrow> (Some ErrUnsupportedTarget, p)
                | Some reg \<Rightarrow>
                   let snapshot = AllSources reg in
                   if Sensitive (tKind target) then searchSequential uni emit ctx target snapshot p
                   else (case selectSources ctx (tKind target) 0 snapshot of
                           Inl e \<Rightarrow> (Some e, p)
                         | Inr selected \<Rightarrow>
                             if length selected > 1 then parallel selected p
                             else searchSequential uni emit (\<lambda>n. ctx (length snapshot + n)) target snapshot p))))"

section \<open>The registry invariant\<close>

definition registryInv :: "registry \<Rightarrow> bool" where
  "registryInv r \<longleftrightarrow> distinct (map srcName (regOrdered r))
     \<and> regByName r = (\<lambda>name. find (\<lambda>s. srcName s = name) (regOrdered r))
     \<and> (\<forall>s \<in> set (regOrdered r). srcName s \<noteq> [] \<and> trimSpace (srcName s) = srcName s \<and> srcType s \<noteq> [] \<and> Capabilities s \<noteq> [])"

lemma find_append: "find P (xs @ ys) = (case find P xs of Some x \<Rightarrow> Some x | None \<Rightarrow> find P ys)"
  by (induction xs) auto

lemma Register_cases:
  obtains (refused) e where "Register so r = (Some e, r)"
  | (added) s where "so = Some s" "trimSpace (srcName s) = srcName s" "srcName s \<noteq> []" "srcType s \<noteq> []" "Capabilities s \<noteq> []"
      "regByName r (srcName s) = None"
      "Register so r = (None, r\<lparr>regByName := (regByName r)(srcName s \<mapsto> s), regOrdered := regOrdered r @ [s]\<rparr>)"
proof (cases so)
  case None
  then show ?thesis using refused by (simp add: Register_def)
next
  case (Some s)
  consider "trimSpace (srcName s) = [] \<or> trimSpace (srcName s) \<noteq> srcName s" | "srcType s = [] \<or> Capabilities s = []"
    | "regByName r (srcName s) \<noteq> None"
    | "trimSpace (srcName s) = srcName s \<and> srcName s \<noteq> [] \<and> srcType s \<noteq> [] \<and> Capabilities s \<noteq> []
         \<and> regByName r (srcName s) = None" by metis
  then show ?thesis
  proof cases
    case 1
    then show ?thesis by (intro refused) (simp add: Register_def Some)
  next
    case 2
    then show ?thesis
      by (intro refused [of "if trimSpace (srcName s) = [] \<or> trimSpace (srcName s) \<noteq> srcName s then ''invalid source name''
            else ''source requires type and search capability''"]) (simp add: Register_def Some Let_def)
  next
    case 3
    then show ?thesis
      by (intro refused [of "if trimSpace (srcName s) = [] \<or> trimSpace (srcName s) \<noteq> srcName s then ''invalid source name''
            else if srcType s = [] \<or> Capabilities s = [] then ''source requires type and search capability''
            else ''duplicate source: '' @ srcName s"]) (simp add: Register_def Some Let_def)
  next
    case 4
    then show ?thesis by (intro added [of s]) (auto simp: Register_def Some Let_def)
  qed
qed

lemma Register_inv:
  assumes inv: "registryInv r"
  shows "registryInv (snd (Register so r))"
proof (cases so r rule: Register_cases)
  case (refused e)
  then show ?thesis using inv by simp
next
  case (added s)
  have new: "srcName s \<notin> srcName ` set (regOrdered r)"
    using added(6) inv by (auto simp: registryInv_def find_None_iff)
  have "(regByName r)(srcName s \<mapsto> s) = (\<lambda>name. find (\<lambda>x. srcName x = name) (regOrdered r @ [s]))"
    using inv added(6) by (auto simp: registryInv_def find_append fun_eq_iff split: option.split)
  then show ?thesis using inv added new by (auto simp: registryInv_def)
qed

definition registerStep :: "registry \<Rightarrow> registry \<Rightarrow> bool" where
  "registerStep r r' \<longleftrightarrow> (\<exists>so. r' = snd (Register so r))"

interpretation registering: machine "\<lambda>r. r = NewRegistry" registerStep registryInv
proof (unfold_locales, goal_cases)
  case (1 r)
  then show ?case by (auto simp: registryInv_def NewRegistry_def)
next
  case (2 r r')
  then show ?case using Register_inv by (auto simp: registerStep_def)
qed

section \<open>Rows and secrets\<close>

lemma normalized_kind: "rSourceType (normalized r) = rSourceType r"
    "rTargetType r \<noteq> [] \<Longrightarrow> rTargetType (normalized r) = rTargetType r"
  by (simp_all add: normalized_def Let_def)

lemma Redacted_kind: "rSourceType (RedactedResult uni ss r) = rSourceType r" "rTargetType (RedactedResult uni ss r) = rTargetType r"
  by (simp_all add: RedactedResult_def Let_def)

lemma Normalized_kind: "rSourceType (Normalized uni r) = rSourceType r"
    "rTargetType r \<noteq> [] \<Longrightarrow> rTargetType (Normalized uni r) = rTargetType r"
  by (simp_all add: Normalized_def normalized_kind Redacted_kind)

lemma stamp_kind: "rSourceType (stamp uni st t s r) = srcType s" "rTargetType (stamp uni st t s r) = tKind t"
  by (simp_all add: stamp_def Let_def Redacted_kind)

definition attributed :: "source \<Rightarrow> Target \<Rightarrow> Result \<Rightarrow> bool" where
  "attributed s t r \<longleftrightarrow> rSourceType r = srcType s \<and> rTargetType r = tKind t"

lemma runScript_rows:
  assumes "tKind t \<noteq> []"
  shows "\<exists>rows. pgRows (snd (runScript uni emit t s sc p)) = pgRows p @ rows \<and> (\<forall>r \<in> set rows. attributed s t r)"
proof (induction sc arbitrary: p)
  case (Return e)
  then show ?case by simp
next
  case (EmitRow r k)
  define d where "d = deliver uni emit t s r p"
  have "\<exists>rows. pgRows (snd d) = pgRows p @ rows \<and> (\<forall>r \<in> set rows. attributed s t r)"
    using assms by (simp add: d_def deliver_def Let_def attributed_def Normalized_kind stamp_kind)
  moreover have "\<exists>rows. pgRows (snd (runScript uni emit t s (k (fst d)) (snd d))) = pgRows (snd d) @ rows
      \<and> (\<forall>r \<in> set rows. attributed s t r)" by (rule EmitRow) simp
  ultimately show ?case by (simp add: d_def [symmetric] Let_def) (metis Un_iff append_assoc set_append)
next
  case (ConsumeSecret k)
  show ?case
    using ConsumeSecret [OF rangeI, of "Reveal (pgStore p) (tSecret t)" "p\<lparr>pgStore := Destroy (pgStore p) (tSecret t)\<rparr>"]
    by simp
qed

lemma invoke_rows:
  assumes "tKind t \<noteq> []" and "invoke uni emit e t s p = (failure, cerr, outcome, p')"
  shows "\<exists>rows. pgRows p' = pgRows p @ rows \<and> (\<forall>r \<in> set rows. attributed s t r)"
  using runScript_rows [OF assms(1), of uni emit s "sourceScript t s" "p\<lparr>pgConsumerErr := None, pgSummary := newSummary\<rparr>"]
    assms(2) by (auto simp: invoke_def Let_def split: prod.splits if_splits)

lemma sequentialLoop_rows:
  assumes t: "tKind t \<noteq> []"
  shows "\<exists>rows. pgRows (snd (sequentialLoop uni emit ctx t ss n fs b p)) = pgRows p @ rows
    \<and> (\<forall>r \<in> set rows. \<exists>s \<in> set ss. Supports s (tKind t) \<and> attributed s t r)"
proof (induction ss arbitrary: n fs b p)
  case Nil
  then show ?case by simp
next
  case (Cons s ss)
  show ?case
  proof (cases "ctx n = None \<and> Supports s (tKind t)")
    case False
    then show ?thesis using Cons [of "Suc n" fs b p] by (cases "ctx n") auto
  next
    case True
    obtain f c out q where i: "invoke uni emit (ctx (Suc n)) t s p = (f, c, out, q)"
      by (cases "invoke uni emit (ctx (Suc n)) t s p") auto
    from invoke_rows [OF t i] obtain rows where rows: "pgRows q = pgRows p @ rows" "\<forall>r \<in> set rows. attributed s t r" by blast
    show ?thesis
    proof (cases c)
      case (Some e)
      then show ?thesis using True i rows by auto
    next
      case None
      obtain more where more: "pgRows (snd (sequentialLoop uni emit ctx t ss (Suc (Suc n))
            (fs @ (case f of Some e \<Rightarrow> [e] | None \<Rightarrow> [])) True q)) = pgRows q @ more"
          "\<forall>r \<in> set more. \<exists>s \<in> set ss. Supports s (tKind t) \<and> attributed s t r" using Cons by blast
      have "\<forall>r \<in> set (rows @ more). \<exists>x \<in> set (s # ss). Supports x (tKind t) \<and> attributed x t r"
        using True rows(2) more(2) by auto
      then show ?thesis using True i None rows(1) more(1) by (intro exI [of _ "rows @ more"]) simp
    qed
  qed
qed

text \<open>Nothing a source does gives a consumed secret back.\<close>

lemma Search_destroys:
  assumes "Sensitive (tKind t)"
  shows "Reveal (pgStore (snd (Search uni emitter ctx parallel reg t st))) (tSecret t) = []"
proof (cases "TargetValid st t")
  case False
  then have "SecretEmpty st (tSecret t)" using assms by (simp add: TargetValid_def)
  then show ?thesis using False
    by (auto simp: Search_def newProgress_def Reveal_def SecretEmpty_def split: option.splits)
next
  case True
  have "Reveal (Destroy s x) x = []" for s x by (auto simp: Reveal_def Destroy_def split: option.split)
  with True assms show ?thesis by (simp add: Search_def Let_def split: prod.split)
qed

section \<open>Properties\<close>

text \<open>The registry invariant: after any registrations, accepted or refused, names are distinct, trimmed
  and not empty, every source has a type and a capability, a lookup finds exactly the listed source of that
  name, and a refused registration changes nothing while an accepted one appends.\<close>

theorem registry_consistent:
  assumes "reachable (\<lambda>r. r = NewRegistry) registerStep r"
  shows "distinct (map srcName (AllSources r))
    \<and> LookupSource r name = find (\<lambda>s. srcName s = name) (AllSources r)
    \<and> (\<forall>s \<in> set (AllSources r). srcName s \<noteq> [] \<and> trimSpace (srcName s) = srcName s \<and> srcType s \<noteq> [] \<and> Capabilities s \<noteq> [])
    \<and> (case Register so r of (Some e, r') \<Rightarrow> r' = r
       | (None, r') \<Rightarrow> AllSources r' = AllSources r @ [the so] \<and> LookupSource r (srcName (the so)) = None)"
  using registering.reachable_inv [OF assms]
  by (cases so r rule: Register_cases) (simp_all add: registryInv_def AllSources_def LookupSource_def)

text \<open>C13: no source can impersonate another: every row that a sequential search adds carries the source type
  of a registered source that supports the target and the type of the target, whatever the script put there.\<close>

theorem rows_attributed:
  assumes "tKind t \<noteq> []"
  shows "\<exists>rows. pgRows (snd (searchSequential uni emit ctx t snapshot p)) = pgRows p @ rows
    \<and> (\<forall>r \<in> set rows. \<exists>s \<in> set snapshot. Supports s (tKind t) \<and> rSourceType r = srcType s \<and> rTargetType r = tKind t)"
  using sequentialLoop_rows [OF assms] by (simp add: searchSequential_def attributed_def)

text \<open>A search for a password or a hash destroys the secret on every return path: whatever the registry,
  the sources, the consumer and the context did, the handle reveals nothing afterwards.\<close>

theorem search_destroys_secret:
  assumes "Sensitive (tKind t)"
  shows "Reveal (pgStore (snd (Search uni emitter ctx parallel reg t st))) (tSecret t) = []"
  using Search_destroys [OF assms] .

definition demoSource :: source where
  "demoSource = \<lparr>srcName = ''a'', srcType = SourceAPI, srcImplements = (\<lambda>k. k = TargetUsername),
     srcSearch = (\<lambda>_ _. EmitRow (emptyResult\<lparr>rSourceType := ''fake''\<rparr>) Return)\<rparr>"

theorem registry_consistent_witness:
  "LookupSource (snd (Register (Some demoSource) NewRegistry)) ''a''
   = find (\<lambda>s. srcName s = ''a'') (AllSources (snd (Register (Some demoSource) NewRegistry)))"
proof -
  have "registerStep NewRegistry (snd (Register (Some demoSource) NewRegistry))" by (auto simp: registerStep_def)
  then have "reachable (\<lambda>r. r = NewRegistry) registerStep (snd (Register (Some demoSource) NewRegistry))"
    by (intro reachable.next_state [OF reachable.start]) simp_all
  then show ?thesis using registry_consistent [where so = None] by blast
qed

theorem rows_attributed_witness:
  "\<exists>rows. pgRows (snd (searchSequential (\<lambda>s. s) (\<lambda>_ _. None) (\<lambda>_. None) (plainTarget TargetUsername ''bob'') [demoSource]
      (newProgress (\<lambda>_. [])))) = rows \<and> (\<forall>r \<in> set rows. rSourceType r = SourceAPI)"
  using rows_attributed [of "plainTarget TargetUsername ''bob''" "\<lambda>s. s" "\<lambda>_ _. None" "\<lambda>_. None" "[demoSource]"
      "newProgress (\<lambda>_. [])"]
  by (auto simp: newProgress_def demoSource_def plainTarget_def TargetUsername_def)

theorem search_destroys_secret_witness:
  "Reveal (pgStore (snd (Search (\<lambda>s. s) None (\<lambda>_. None) (\<lambda>_ p. (None, p)) None
      \<lparr>tKind = TargetPassword, tValue = [], tSecret = Some 0\<rparr> (\<lambda>_. ''pw'')))) (Some 0) = []"
  using search_destroys_secret [of "\<lparr>tKind = TargetPassword, tValue = [], tSecret = Some 0\<rparr>" "\<lambda>s. s" None "\<lambda>_. None"
      "\<lambda>_ p. (None, p)" None "\<lambda>_. ''pw''"] by (simp add: Sensitive_def)

end
