(* ===== verification/ParallelSearch.thy ===== *)
theory ParallelSearch
  imports Sources "HOL-Library.Sublist"
begin

text \<open>
  The overlapping search of independent sources (\<open>src/internal/sources/orchestration.go\<close>).  A batch is a
  step relation: one producer per source, which runs the script of its source inside \<open>invoke\<close>, and the one
  goroutine that calls \<open>emit\<close>, which drains the streams in order over unbuffered channels with an
  acknowledgement per row.  A send or an acknowledgement is one step.  \<open>bCtx\<close> is the batch's own
  context, \<open>bParent\<close> the caller's.
\<close>

section \<open>State\<close>

datatype producer =
    PStart
  | PRunning script "goError option"            \<comment> \<open>with the consumer error \<open>deliver\<close> remembers\<close>
  | PSending Result "goError option \<Rightarrow> script"
  | PWaiting "goError option \<Rightarrow> script"          \<comment> \<open>for the acknowledgement\<close>
  | PDone "goError option"

datatype consumer = Draining | Holding Result | Acking | Returned

record batch =
  bProd :: "producer list"
  bCur :: nat
  bCons :: consumer
  bOut :: "Result list"
  bErr :: "goError option"
  bCtx :: "goError option"
  bParent :: "goError option"

definition contextCanceled :: goError where
  "contextCanceled = \<lparr>eText = ''context canceled'', eCanceled = True, eDeadline = False\<rparr>"

definition cancelWith :: "goError \<Rightarrow> batch \<Rightarrow> batch" where
  "cancelWith e s = s\<lparr>bCtx := (case bCtx s of None \<Rightarrow> Some e | c \<Rightarrow> c)\<rparr>"

definition newBatch :: "nat \<Rightarrow> Result list \<Rightarrow> batch" where
  "newBatch n out = \<lparr>bProd = replicate n PStart, bCur = 0, bCons = Draining, bOut = out, bErr = None, bCtx = None,
     bParent = None\<rparr>"

definition setProd :: "nat \<Rightarrow> producer \<Rightarrow> batch \<Rightarrow> batch" where
  "setProd i p s = s\<lparr>bProd := (bProd s)[i := p]\<rparr>"

text \<open>The fixed surroundings of a batch.\<close>

record scene =
  scnUni :: "string \<Rightarrow> string"
  scnStore :: secretStore
  scnTarget :: Target
  scnSources :: "source list"
  scnEmit :: "Result list \<Rightarrow> Result \<Rightarrow> goError option"

definition rowOf :: "scene \<Rightarrow> nat \<Rightarrow> Result \<Rightarrow> Result" where
  "rowOf c i r = Normalized (scnUni c) (stamp (scnUni c) (scnStore c) (scnTarget c) (scnSources c ! i) r)"

definition failureOf :: "scene \<Rightarrow> nat \<Rightarrow> goError option \<Rightarrow> goError option" where
  "failureOf c i e = map_option (sourceFailure (scnStore c) (scnTarget c) (scnSources c ! i)) e"

section \<open>Steps\<close>

text \<open>The steps of the producer of source \<open>i\<close>.\<close>

inductive prodStep :: "scene \<Rightarrow> nat \<Rightarrow> goError option \<Rightarrow> producer \<Rightarrow> producer \<Rightarrow> bool" for c i ctx where
  starts: "ctx = None \<Longrightarrow> prodStep c i ctx PStart (PRunning (sourceScript (scnTarget c) (scnSources c ! i)) None)"
| starts_cancelled: "ctx = Some e \<Longrightarrow> prodStep c i ctx PStart (PDone (Some e))"
| consumes: "prodStep c i ctx (PRunning (ConsumeSecret k) ce)
    (PRunning (k (Reveal (scnStore c) (tSecret (scnTarget c)))) ce)"
| offers: "prodStep c i ctx (PRunning (EmitRow r k) None) (PSending (rowOf c i r) k)"
| refused: "prodStep c i ctx (PRunning (EmitRow r k) (Some e)) (PRunning (k (Some e)) (Some e))"
| returns: "prodStep c i ctx (PRunning (Return e) None) (PDone (failureOf c i e))"
| returns_consumer: "prodStep c i ctx (PRunning (Return e) (Some ce)) (PDone (Some ce))"
| abort_send: "ctx = Some e \<Longrightarrow> prodStep c i ctx (PSending r k) (PRunning (k (Some e)) (Some e))"
| abort_wait: "ctx = Some e \<Longrightarrow> prodStep c i ctx (PWaiting k) (PRunning (k (Some e)) (Some e))"

inductive batchStep :: "scene \<Rightarrow> batch \<Rightarrow> batch \<Rightarrow> bool" for c where
  produce: "i < length (bProd s) \<Longrightarrow> prodStep c i (bCtx s) (bProd s ! i) p \<Longrightarrow> batchStep c s (setProd i p s)"
| receive: "bCons s = Draining \<Longrightarrow> bCur s < length (bProd s) \<Longrightarrow> bProd s ! bCur s = PSending r k \<Longrightarrow>
    batchStep c s ((setProd (bCur s) (PWaiting k) s)\<lparr>bCons := Holding r\<rparr>)"
| skip: "bCons s = Holding r \<Longrightarrow> bCtx s \<noteq> None \<Longrightarrow> batchStep c s (s\<lparr>bCons := Returned\<rparr>)"
| consume_row: "bCons s = Holding r \<Longrightarrow> bCtx s = None \<Longrightarrow>
    batchStep c s (s\<lparr>bOut := bOut s @ [r], bErr := scnEmit c (bOut s) r, bCons := Acking\<rparr>)"
| ack: "bCons s = Acking \<Longrightarrow> bProd s ! bCur s = PWaiting k \<Longrightarrow> bErr s = None \<Longrightarrow>
    batchStep c s ((setProd (bCur s) (PRunning (k None) None) s)\<lparr>bCons := Draining\<rparr>)"
| ack_error: "bCons s = Acking \<Longrightarrow> bProd s ! bCur s = PWaiting k \<Longrightarrow> bErr s = Some e \<Longrightarrow>
    batchStep c s (cancelWith contextCanceled
      ((setProd (bCur s) (PRunning (k (Some e)) (Some e)) s)\<lparr>bCons := Returned\<rparr>))"
| ack_cancelled: "bCons s = Acking \<Longrightarrow> bCtx s \<noteq> None \<Longrightarrow>
    batchStep c s (s\<lparr>bCons := (if bErr s = None then Draining else Returned)\<rparr>)"
| next_stream: "bCons s = Draining \<Longrightarrow> bCur s < length (bProd s) \<Longrightarrow> bProd s ! bCur s = PDone e \<Longrightarrow>
    batchStep c s (s\<lparr>bCur := Suc (bCur s)\<rparr>)"
| drained: "bCons s = Draining \<Longrightarrow> bCur s = length (bProd s) \<Longrightarrow>
    batchStep c s (cancelWith contextCanceled (s\<lparr>bCons := Returned\<rparr>))"
| stop: "bCons s = Draining \<Longrightarrow> bCur s < length (bProd s) \<Longrightarrow> bCtx s \<noteq> None \<Longrightarrow> batchStep c s (s\<lparr>bCons := Returned\<rparr>)"

text \<open>The caller's context may be done at any time, and the batch's with it.\<close>

inductive searchBatchStep :: "scene \<Rightarrow> batch \<Rightarrow> batch \<Rightarrow> bool" for c where
  own: "batchStep c s t \<Longrightarrow> searchBatchStep c s t"
| parent: "bParent s = None \<Longrightarrow> searchBatchStep c s ((cancelWith e s)\<lparr>bParent := Some e\<rparr>)"

text \<open>The deferred join: \<open>searchBatch\<close> returns once every producer is done.\<close>

definition joined :: "batch \<Rightarrow> bool" where
  "joined s \<longleftrightarrow> bCons s = Returned \<and> (\<forall>p \<in> set (bProd s). \<exists>e. p = PDone e)"

definition streamError :: "producer \<Rightarrow> goError list" where
  "streamError p = (case p of PDone (Some e) \<Rightarrow> [e] | _ \<Rightarrow> [])"

definition batchFailures :: "batch \<Rightarrow> goError list" where
  "batchFailures s = concat (map streamError (bProd s))"

section \<open>What the sources have to say\<close>

text \<open>The rows and the error of a script whose rows are all accepted.\<close>

primrec okRows :: "scene \<Rightarrow> nat \<Rightarrow> script \<Rightarrow> Result list" where
  "okRows c i (Return e) = []"
| "okRows c i (EmitRow r k) = rowOf c i r # okRows c i (k None)"
| "okRows c i (ConsumeSecret k) = okRows c i (k (Reveal (scnStore c) (tSecret (scnTarget c))))"

primrec okError :: "scene \<Rightarrow> nat \<Rightarrow> script \<Rightarrow> goError option" where
  "okError c i (Return e) = failureOf c i e"
| "okError c i (EmitRow r k) = okError c i (k None)"
| "okError c i (ConsumeSecret k) = okError c i (k (Reveal (scnStore c) (tSecret (scnTarget c))))"

definition allRows :: "scene \<Rightarrow> nat \<Rightarrow> Result list" where
  "allRows c i = okRows c i (sourceScript (scnTarget c) (scnSources c ! i))"

definition finalError :: "scene \<Rightarrow> nat \<Rightarrow> goError option" where
  "finalError c i = okError c i (sourceScript (scnTarget c) (scnSources c ! i))"

fun rowsLeft :: "scene \<Rightarrow> nat \<Rightarrow> producer \<Rightarrow> Result list" where
  "rowsLeft c i PStart = allRows c i"
| "rowsLeft c i (PRunning sc ce) = okRows c i sc"
| "rowsLeft c i (PSending r k) = r # okRows c i (k None)"
| "rowsLeft c i (PWaiting k) = okRows c i (k None)"
| "rowsLeft c i (PDone e) = []"

fun errorLeft :: "scene \<Rightarrow> nat \<Rightarrow> producer \<Rightarrow> goError option" where
  "errorLeft c i PStart = finalError c i"
| "errorLeft c i (PRunning sc ce) = okError c i sc"
| "errorLeft c i (PSending r k) = okError c i (k None)"
| "errorLeft c i (PWaiting k) = okError c i (k None)"
| "errorLeft c i (PDone e) = e"

section \<open>Invariant\<close>

definition heldRow :: "consumer \<Rightarrow> Result list" where
  "heldRow k = (case k of Holding r \<Rightarrow> [r] | _ \<Rightarrow> [])"

text \<open>While the batch is undisturbed: nothing is lost, nothing is out of order, nobody waits in vain.\<close>

definition prodOK :: "scene \<Rightarrow> nat \<Rightarrow> consumer \<Rightarrow> nat \<Rightarrow> producer \<Rightarrow> bool" where
  "prodOK c cur k i p \<longleftrightarrow> errorLeft c i p = finalError c i \<and> (i < cur \<longrightarrow> (\<exists>e. p = PDone e))
     \<and> (\<forall>sc e. p = PRunning sc e \<longrightarrow> e = None)
     \<and> (\<forall>f. p = PWaiting f \<longrightarrow> i = cur \<and> (k = Acking \<or> (\<exists>r. k = Holding r)))"

definition totalRows :: "scene \<Rightarrow> nat \<Rightarrow> Result list" where
  "totalRows c n = concat (map (allRows c) [0..<n])"

definition leftRows :: "scene \<Rightarrow> producer list \<Rightarrow> Result list" where
  "leftRows c ps = concat (map (\<lambda>i. rowsLeft c i (ps ! i)) [0..<length ps])"

definition smooth :: "scene \<Rightarrow> Result list \<Rightarrow> batch \<Rightarrow> bool" where
  "smooth c out0 s \<longleftrightarrow> bCur s \<le> length (bProd s)
     \<and> bOut s @ heldRow (bCons s) @ leftRows c (bProd s) = out0 @ totalRows c (length (bProd s))
     \<and> (\<forall>i < length (bProd s). prodOK c (bCur s) (bCons s) i (bProd s ! i))
     \<and> bCons s \<noteq> Returned
     \<and> (bCons s \<noteq> Draining \<longrightarrow> bCur s < length (bProd s) \<and> (\<exists>f. bProd s ! bCur s = PWaiting f))
     \<and> (bCons s \<noteq> Acking \<longrightarrow> bErr s = None)"

definition complete :: "scene \<Rightarrow> Result list \<Rightarrow> batch \<Rightarrow> bool" where
  "complete c out0 s \<longleftrightarrow> bCons s = Returned \<and> bOut s = out0 @ totalRows c (length (bProd s))
     \<and> (\<forall>i < length (bProd s). bProd s ! i = PDone (finalError c i))"

definition batchInv :: "scene \<Rightarrow> Result list \<Rightarrow> nat \<Rightarrow> batch \<Rightarrow> bool" where
  "batchInv c out0 n s \<longleftrightarrow> length (bProd s) = n \<and> bCur s \<le> n
     \<and> prefix (bOut s) (out0 @ totalRows c n)
     \<and> (bCtx s = None \<longrightarrow> smooth c out0 s)
     \<and> (bCtx s \<noteq> None \<and> bParent s = None \<and> bErr s = None \<longrightarrow> complete c out0 s)
     \<and> (bParent s \<noteq> None \<longrightarrow> bCtx s \<noteq> None)"

lemma leftRows_split:
  assumes "i < length ps"
  shows "leftRows c ps = concat (map (\<lambda>j. rowsLeft c j (ps ! j)) [0..<i]) @ rowsLeft c i (ps ! i)
    @ concat (map (\<lambda>j. rowsLeft c j (ps ! j)) [Suc i..<length ps])"
proof -
  have "[0..<length ps] = [0..<i] @ [i..<length ps]"
    using upt_add_eq_append [of 0 i "length ps - i"] assms by simp
  then have "[0..<length ps] = [0..<i] @ i # [Suc i..<length ps]" using assms by (simp add: upt_conv_Cons)
  then show ?thesis by (simp add: leftRows_def)
qed

lemma leftRows_update:
  assumes "i < length ps" and "rowsLeft c i p = rowsLeft c i (ps ! i)"
  shows "leftRows c (ps[i := p]) = leftRows c ps"
proof -
  have "rowsLeft c j (ps[i := p] ! j) = rowsLeft c j (ps ! j)" if "j < length ps" for j
    using assms that by (cases "j = i") auto
  then have "map (\<lambda>j. rowsLeft c j (ps[i := p] ! j)) [0..<length ps] = map (\<lambda>j. rowsLeft c j (ps ! j)) [0..<length ps]"
    by simp
  then show ?thesis unfolding leftRows_def length_list_update by (rule arg_cong)
qed

lemma leftRows_take:
  assumes "i < length ps" and "rowsLeft c i (ps ! i) = r # rowsLeft c i p"
    and "\<forall>j < i. rowsLeft c j (ps ! j) = []"
  shows "leftRows c ps = r # leftRows c (ps[i := p])"
proof -
  let ?f = "\<lambda>qs j. rowsLeft c j (qs ! j)"
  let ?q = "ps[i := p]"
  have "\<forall>j < i. ?f ?q j = []" using assms(3) by simp
  then have pre: "concat (map (?f ps) [0..<i]) = []" "concat (map (?f ?q) [0..<i]) = []"
    using assms(3) by (simp_all add: concat_eq_Nil_conv)
  have post: "map (?f ?q) [Suc i..<length ps] = map (?f ps) [Suc i..<length ps]" by simp
  have "leftRows c ps = ?f ps i @ concat (map (?f ps) [Suc i..<length ps])"
    unfolding leftRows_split [OF assms(1)] pre by simp
  moreover have "leftRows c ?q = rowsLeft c i p @ concat (map (?f ps) [Suc i..<length ps])"
    using leftRows_split [of i ?q c] assms(1) pre(2) post by simp
  ultimately show ?thesis using assms(2) by simp
qed

lemma prodStep_rows:
  assumes "prodStep c i None p q" and "\<forall>sc e. p = PRunning sc e \<longrightarrow> e = None"
  shows "rowsLeft c i q = rowsLeft c i p" and "errorLeft c i q = errorLeft c i p"
    and "\<forall>sc e. q = PRunning sc e \<longrightarrow> e = None" and "\<forall>f. q \<noteq> PWaiting f" and "\<forall>f. p \<noteq> PWaiting f" and "\<forall>e. p \<noteq> PDone e"
  using assms by (cases rule: prodStep.cases; force simp: allRows_def finalError_def)+

lemma setProd_sel [simp]:
  "bProd (setProd i p s) = (bProd s)[i := p]" "bCur (setProd i p s) = bCur s" "bCons (setProd i p s) = bCons s"
  "bOut (setProd i p s) = bOut s" "bErr (setProd i p s) = bErr s" "bCtx (setProd i p s) = bCtx s"
  "bParent (setProd i p s) = bParent s"
  by (simp_all add: setProd_def)

lemma cancelWith_sel [simp]:
  "bProd (cancelWith e s) = bProd s" "bCur (cancelWith e s) = bCur s" "bCons (cancelWith e s) = bCons s"
  "bOut (cancelWith e s) = bOut s" "bErr (cancelWith e s) = bErr s" "bCtx (cancelWith e s) \<noteq> None"
  "bParent (cancelWith e s) = bParent s"
  by (simp_all add: cancelWith_def split: option.split)

lemma smoothD:
  assumes "smooth c out0 s"
  shows "bCur s \<le> length (bProd s)" and "bOut s @ heldRow (bCons s) @ leftRows c (bProd s) = out0 @ totalRows c (length (bProd s))"
    and "i < length (bProd s) \<Longrightarrow> prodOK c (bCur s) (bCons s) i (bProd s ! i)"
    and "bCons s \<noteq> Returned" and "bCons s \<noteq> Draining \<Longrightarrow> bCur s < length (bProd s) \<and> (\<exists>f. bProd s ! bCur s = PWaiting f)"
    and "bCons s \<noteq> Acking \<Longrightarrow> bErr s = None"
  using assms unfolding smooth_def by blast+

lemma prodOK_D:
  assumes "prodOK c cur k i p"
  shows "errorLeft c i p = finalError c i" and "i < cur \<Longrightarrow> \<exists>e. p = PDone e" and "\<forall>sc e. p = PRunning sc e \<longrightarrow> e = None"
    and "p = PWaiting f \<Longrightarrow> i = cur \<and> (k = Acking \<or> (\<exists>r. k = Holding r))"
  using assms by (simp_all add: prodOK_def)

lemma prodOK_I:
  assumes "errorLeft c i p = finalError c i" and "i < cur \<Longrightarrow> \<exists>e. p = PDone e" and "\<forall>sc e. p = PRunning sc e \<longrightarrow> e = None"
    and "\<And>f. p = PWaiting f \<Longrightarrow> i = cur \<and> (k = Acking \<or> (\<exists>r. k = Holding r))"
  shows "prodOK c cur k i p"
  using assms by (simp add: prodOK_def)

lemma prodOK_step:
  assumes ok: "prodOK c cur k i p" and st: "prodStep c i None p q"
  shows "prodOK c cur k i q" and "rowsLeft c i q = rowsLeft c i p" and "\<forall>f. p \<noteq> PWaiting f"
proof -
  note q = prodStep_rows [OF st prodOK_D(3) [OF ok]]
  show "rowsLeft c i q = rowsLeft c i p" "\<forall>f. p \<noteq> PWaiting f" by (rule q)+
  show "prodOK c cur k i q"
  proof (rule prodOK_I)
    show "errorLeft c i q = finalError c i" using q(2) prodOK_D(1) [OF ok] by simp
    show "\<exists>e. q = PDone e" if "i < cur" using prodOK_D(2) [OF ok that] q(6) by blast
    show "\<forall>sc e. q = PRunning sc e \<longrightarrow> e = None" by (rule q)
    show "i = cur \<and> (k = Acking \<or> (\<exists>r. k = Holding r))" if "q = PWaiting f" for f using that q(4) by blast
  qed
qed

lemma smooth_produce:
  assumes s: "smooth c out0 s" and i: "i < length (bProd s)" and st: "prodStep c i None (bProd s ! i) p"
  shows "smooth c out0 (setProd i p s)"
proof -
  note ok = prodOK_step [OF smoothD(3) [OF s i] st]
  have "leftRows c ((bProd s)[i := p]) = leftRows c (bProd s)" by (rule leftRows_update [OF i ok(2)])
  moreover have "prodOK c (bCur s) (bCons s) j ((bProd s)[i := p] ! j)" if "j < length (bProd s)" for j
    using smoothD(3) [OF s that] ok(1) i by (cases "j = i") auto
  moreover have "\<exists>f. (bProd s)[i := p] ! bCur s = PWaiting f" if "bCons s \<noteq> Draining"
    using smoothD(5) [OF s that] ok(3) i by (cases "bCur s = i") auto
  ultimately show ?thesis using s by (simp add: smooth_def)
qed

lemma smooth_done:
  assumes s: "smooth c out0 s" and "j < bCur s"
  obtains e where "bProd s ! j = PDone e"
  using prodOK_D(2) [OF smoothD(3) [OF s, of j]] smoothD(1) [OF s] assms(2) by auto

lemma smooth_receive:
  assumes s: "smooth c out0 s" and d: "bCons s = Draining" and cur: "bCur s < length (bProd s)" "bProd s ! bCur s = PSending r k"
  shows "smooth c out0 ((setProd (bCur s) (PWaiting k) s)\<lparr>bCons := Holding r\<rparr>)"
proof -
  let ?q = "(bProd s)[bCur s := PWaiting k]"
  have "rowsLeft c j (bProd s ! j) = []" if "j < bCur s" for j
    by (rule smooth_done [OF s that]) simp
  then have left: "leftRows c (bProd s) = r # leftRows c ?q" using cur by (intro leftRows_take) simp_all
  have ok: "prodOK c (bCur s) (Holding r) j (?q ! j)" if j: "j < length (bProd s)" for j
  proof (cases "j = bCur s")
    case True
    then show ?thesis using prodOK_D(1) [OF smoothD(3) [OF s j]] cur by (intro prodOK_I) simp_all
  next
    case False
    note old = smoothD(3) [OF s j]
    show ?thesis
      using False prodOK_D(1,2,3) [OF old] prodOK_D(4) [OF old] d by (intro prodOK_I) simp_all
  qed
  show ?thesis
    using smoothD(2) [OF s] smoothD(6) [OF s] d cur ok left by (simp add: smooth_def heldRow_def)
qed

lemma smooth_consume:
  assumes s: "smooth c out0 s" and h: "bCons s = Holding r"
  shows "smooth c out0 (s\<lparr>bOut := bOut s @ [r], bErr := e, bCons := Acking\<rparr>)"
proof -
  have "prodOK c (bCur s) Acking j (bProd s ! j)" if j: "j < length (bProd s)" for j
    using prodOK_D [OF smoothD(3) [OF s j]] by (intro prodOK_I) simp_all
  then show ?thesis using smoothD(2) [OF s] smoothD(5) [OF s] h by (simp add: smooth_def heldRow_def)
qed

lemma smooth_ack:
  assumes s: "smooth c out0 s" and a: "bCons s = Acking" and e: "bErr s = None" and k: "bProd s ! bCur s = PWaiting k"
  shows "smooth c out0 ((setProd (bCur s) (PRunning (k None) None) s)\<lparr>bCons := Draining\<rparr>)"
proof -
  let ?q = "(bProd s)[bCur s := PRunning (k None) None]"
  have cur: "bCur s < length (bProd s)" using smoothD(5) [OF s] a by simp
  have left: "leftRows c ?q = leftRows c (bProd s)" using cur k by (intro leftRows_update) simp_all
  have ok: "prodOK c (bCur s) Draining j (?q ! j)" if j: "j < length (bProd s)" for j
  proof (cases "j = bCur s")
    case True
    then show ?thesis using prodOK_D(1) [OF smoothD(3) [OF s j]] cur k by (intro prodOK_I) simp_all
  next
    case False
    note old = smoothD(3) [OF s j]
    show ?thesis using False prodOK_D(1,2,3) [OF old] prodOK_D(4) [OF old] by (intro prodOK_I) auto
  qed
  show ?thesis using smoothD(2) [OF s] cur a e ok left by (simp add: smooth_def heldRow_def)
qed

lemma smooth_next:
  assumes s: "smooth c out0 s" and d: "bCons s = Draining" and cur: "bCur s < length (bProd s)" "bProd s ! bCur s = PDone e"
  shows "smooth c out0 (s\<lparr>bCur := Suc (bCur s)\<rparr>)"
proof -
  have ok: "prodOK c (Suc (bCur s)) Draining j (bProd s ! j)" if j: "j < length (bProd s)" for j
  proof (rule prodOK_I)
    note old = smoothD(3) [OF s j]
    show "errorLeft c j (bProd s ! j) = finalError c j" "\<forall>sc e. bProd s ! j = PRunning sc e \<longrightarrow> e = None"
      by (rule prodOK_D(1) [OF old], rule prodOK_D(3) [OF old])
    show "\<exists>e. bProd s ! j = PDone e" if "j < Suc (bCur s)"
      using that prodOK_D(2) [OF old] cur(2) by (cases "j = bCur s") auto
    show "j = Suc (bCur s) \<and> (Draining = Acking \<or> (\<exists>r. Draining = Holding r))" if "bProd s ! j = PWaiting f" for f
      using prodOK_D(4) [OF old that] d by simp
  qed
  then show ?thesis using smoothD(2) [OF s] smoothD(6) [OF s] d cur(1) by (simp add: smooth_def)
qed

lemma smooth_drained:
  assumes s: "smooth c out0 s" and d: "bCons s = Draining" and cur: "bCur s = length (bProd s)"
  shows "complete c out0 (cancelWith e (s\<lparr>bCons := Returned\<rparr>))"
proof -
  have ended: "bProd s ! i = PDone (finalError c i)" if "i < length (bProd s)" for i
    using smoothD(3) [OF s that] cur that by (auto simp: prodOK_def)
  then have "leftRows c (bProd s) = []" by (simp add: leftRows_def)
  then show ?thesis using smoothD(2) [OF s] d ended by (simp add: complete_def heldRow_def)
qed

lemma smooth_prefix: "smooth c out0 s \<Longrightarrow> prefix (bOut s) (out0 @ totalRows c (length (bProd s)))"
  using smoothD(2) unfolding prefix_def by metis

lemma complete_stable: "complete c out0 s \<Longrightarrow> i < length (bProd s) \<Longrightarrow> \<not> prodStep c i ctx (bProd s ! i) p"
  by (auto simp: complete_def elim: prodStep.cases)

lemma batchInvD:
  assumes "batchInv c out0 n s"
  shows "length (bProd s) = n" and "bCur s \<le> n" and "prefix (bOut s) (out0 @ totalRows c n)"
    and "bCtx s = None \<Longrightarrow> smooth c out0 s"
    and "bCtx s \<noteq> None \<Longrightarrow> bParent s = None \<Longrightarrow> bErr s = None \<Longrightarrow> complete c out0 s"
    and "bCtx s = None \<Longrightarrow> bParent s = None"
  using assms by (auto simp: batchInv_def)

lemma batchInv_smooth:
  assumes "smooth c out0 s" and "length (bProd s) = n" and "bCtx s = None" and "bParent s = None"
  shows "batchInv c out0 n s"
  using assms smoothD(1) [OF assms(1)] smooth_prefix [OF assms(1)] by (simp add: batchInv_def)

lemma batchInv_disturbed:
  assumes "length (bProd s) = n" and "bCur s \<le> n" and "prefix (bOut s) (out0 @ totalRows c n)"
    and "bCtx s \<noteq> None" and "bParent s \<noteq> None \<or> bErr s \<noteq> None \<or> complete c out0 s"
  shows "batchInv c out0 n s"
  using assms by (auto simp: batchInv_def)

text \<open>A step in a disturbed batch keeps the rows and the cause of the disturbance.\<close>

lemma disturbed_step:
  assumes inv: "batchInv c out0 n s" and ctx: "bCtx s \<noteq> None"
    and same: "length (bProd t) = n" "bCur t \<le> n" "bOut t = bOut s" "bCtx t \<noteq> None" "bParent t = bParent s" "bErr t = bErr s"
    and stable: "complete c out0 s \<Longrightarrow> False"
  shows "batchInv c out0 n t"
proof -
  have "bParent s \<noteq> None \<or> bErr s \<noteq> None" using batchInvD(5) [OF inv ctx] stable by blast
  then show ?thesis using same batchInvD(3) [OF inv] by (intro batchInv_disturbed) auto
qed

lemma batchStep_inv:
  assumes "batchStep c s t" and inv: "batchInv c out0 n s"
  shows "batchInv c out0 n t"
  using assms(1)
proof cases
  case (produce i p)
  show ?thesis
  proof (cases "bCtx s")
    case None
    then show ?thesis using produce smooth_produce [OF batchInvD(4) [OF inv None]] batchInvD(1,6) [OF inv]
      by (intro batchInv_smooth) auto
  next
    case (Some e)
    then have "complete c out0 s \<Longrightarrow> False" using produce complete_stable by blast
    then show ?thesis using produce Some batchInvD(1,2) [OF inv] by (intro disturbed_step [OF inv]) auto
  qed
next
  case (receive r k)
  show ?thesis
  proof (cases "bCtx s")
    case None
    then show ?thesis using receive smooth_receive [OF batchInvD(4) [OF inv None]] batchInvD(1,6) [OF inv]
      by (intro batchInv_smooth) auto
  next
    case (Some e)
    then show ?thesis using receive batchInvD(1,2) [OF inv] by (intro disturbed_step [OF inv]) (auto simp: complete_def)
  qed
next
  case (skip r)
  then show ?thesis using batchInvD(1,2) [OF inv] by (intro disturbed_step [OF inv]) (auto simp: complete_def)
next
  case (consume_row r)
  then show ?thesis using smooth_consume [OF batchInvD(4) [OF inv]] batchInvD(1,6) [OF inv]
    by (intro batchInv_smooth) auto
next
  case (ack k)
  show ?thesis
  proof (cases "bCtx s")
    case None
    then show ?thesis using ack smooth_ack [OF batchInvD(4) [OF inv None]] batchInvD(1,6) [OF inv]
      by (intro batchInv_smooth) auto
  next
    case (Some e)
    then show ?thesis using ack batchInvD(1,2) [OF inv] by (intro disturbed_step [OF inv]) (auto simp: complete_def)
  qed
next
  case (ack_error k e)
  then show ?thesis using batchInvD(1,2,3) [OF inv] by (intro batchInv_disturbed) auto
next
  case ack_cancelled
  then show ?thesis using batchInvD(1,2) [OF inv] by (intro disturbed_step [OF inv]) (auto simp: complete_def)
next
  case (next_stream e)
  show ?thesis
  proof (cases "bCtx s")
    case None
    then show ?thesis using next_stream smooth_next [OF batchInvD(4) [OF inv None]] batchInvD(1,6) [OF inv]
      by (intro batchInv_smooth) auto
  next
    case (Some e)
    then show ?thesis using next_stream batchInvD(1,2) [OF inv] by (intro disturbed_step [OF inv]) (auto simp: complete_def)
  qed
next
  case drained
  show ?thesis
  proof (cases "bCtx s")
    case None
    then have "complete c out0 t" using drained smooth_drained [OF batchInvD(4) [OF inv None]] by simp
    then show ?thesis using drained batchInvD(1,2,3) [OF inv] by (intro batchInv_disturbed) auto
  next
    case (Some e)
    then show ?thesis using drained batchInvD(1,2) [OF inv] by (intro disturbed_step [OF inv]) (auto simp: complete_def)
  qed
next
  case stop
  then show ?thesis using batchInvD(1,2) [OF inv] by (intro disturbed_step [OF inv]) (auto simp: complete_def)
qed

lemma searchBatchStep_inv:
  assumes "searchBatchStep c s t" and inv: "batchInv c out0 n s"
  shows "batchInv c out0 n t"
  using assms(1)
proof cases
  case own
  then show ?thesis using inv batchStep_inv by blast
next
  case (parent e)
  then show ?thesis using batchInvD(1,2,3) [OF inv] by (intro batchInv_disturbed) auto
qed

section \<open>No deadlock\<close>

lemma prodStep_enabled:
  "(\<forall>r k. p \<noteq> PSending r k) \<and> (\<forall>k. p \<noteq> PWaiting k) \<or> ctx \<noteq> None \<Longrightarrow> \<forall>e. p \<noteq> PDone e \<Longrightarrow> \<exists>q. prodStep c i ctx p q"
proof (cases p)
  case PStart
  then show ?thesis using prodStep.starts [of ctx] prodStep.starts_cancelled [of ctx] by (cases ctx) blast+
next
  case (PRunning sc ce)
  show ?thesis
  proof (cases sc)
    case (Return e)
    then show ?thesis using PRunning prodStep.returns prodStep.returns_consumer by (cases ce) blast+
  next
    case (EmitRow r k)
    then show ?thesis using PRunning prodStep.offers prodStep.refused by (cases ce) blast+
  next
    case (ConsumeSecret k)
    then show ?thesis using PRunning prodStep.consumes by blast
  qed
next
  case (PSending r k)
  moreover assume "(\<forall>r k. p \<noteq> PSending r k) \<and> (\<forall>k. p \<noteq> PWaiting k) \<or> ctx \<noteq> None"
  ultimately show ?thesis using prodStep.abort_send [of ctx] by blast
next
  case (PWaiting k)
  moreover assume "(\<forall>r k. p \<noteq> PSending r k) \<and> (\<forall>k. p \<noteq> PWaiting k) \<or> ctx \<noteq> None"
  ultimately show ?thesis using prodStep.abort_wait [of ctx] by blast
qed simp

lemma smooth_progress:
  assumes s: "smooth c out0 s" and ctx: "bCtx s = None"
  shows "\<exists>t. batchStep c s t"
proof (cases "bCons s")
  case (Holding r)
  then show ?thesis using batchStep.consume_row [OF Holding ctx] by blast
next
  case Acking
  then obtain k where "bProd s ! bCur s = PWaiting k" using smoothD(5) [OF s] by auto
  then show ?thesis using batchStep.ack [OF Acking] batchStep.ack_error [OF Acking] by (cases "bErr s") blast+
next
  case Returned
  then show ?thesis using smoothD(4) [OF s] by simp
next
  case Draining
  show ?thesis
  proof (cases "bCur s < length (bProd s)")
    case False
    then have "bCur s = length (bProd s)" using smoothD(1) [OF s] by simp
    then show ?thesis using batchStep.drained [OF Draining] by blast
  next
    case True
    let ?p = "bProd s ! bCur s"
    have notwait: "?p \<noteq> PWaiting k" for k
      using prodOK_D(4) [OF smoothD(3) [OF s True]] Draining by force
    consider r k where "?p = PSending r k" | e where "?p = PDone e"
      | "(\<forall>r k. ?p \<noteq> PSending r k) \<and> (\<forall>k. ?p \<noteq> PWaiting k)" "\<forall>e. ?p \<noteq> PDone e" using notwait by blast
    then show ?thesis
    proof cases
      case 1
      then show ?thesis using batchStep.receive [OF Draining True] by blast
    next
      case 2
      then show ?thesis using batchStep.next_stream [OF Draining True] by blast
    next
      case 3
      then obtain q where "prodStep c (bCur s) (bCtx s) ?p q" using prodStep_enabled by blast
      then show ?thesis using batchStep.produce [OF True] by blast
    qed
  qed
qed

lemma batch_progress:
  assumes inv: "batchInv c out0 n s" and run: "\<not> joined s"
  shows "\<exists>t. batchStep c s t"
proof (cases "bCtx s")
  case None
  then show ?thesis using smooth_progress batchInvD(4) [OF inv] by blast
next
  case (Some e)
  show ?thesis
  proof (cases "\<forall>p \<in> set (bProd s). \<exists>e. p = PDone e")
    case False
    then obtain i where i: "i < length (bProd s)" "\<forall>e. bProd s ! i \<noteq> PDone e" by (metis in_set_conv_nth)
    then obtain q where "prodStep c i (bCtx s) (bProd s ! i) q" using prodStep_enabled Some by blast
    then show ?thesis using batchStep.produce [OF i(1)] by blast
  next
    case True
    then have "bCons s \<noteq> Returned" using run by (simp add: joined_def)
    then show ?thesis
      using batchStep.skip [of s] batchStep.ack_cancelled [of s] batchStep.drained [of s] batchStep.stop [of s] Some
        batchInvD(1,2) [OF inv] by (cases "bCons s"; cases "bCur s < length (bProd s)") auto
  qed
qed

lemma batchInv_new: "batchInv c out0 n (newBatch n out0)"
proof (rule batchInv_smooth)
  have "rowsLeft c i (replicate n PStart ! i) = allRows c i" if "i < n" for i using that by simp
  then have "map (\<lambda>i. rowsLeft c i (replicate n PStart ! i)) [0..<n] = map (allRows c) [0..<n]" by simp
  then have "leftRows c (replicate n PStart) = totalRows c n"
    unfolding leftRows_def totalRows_def length_replicate by (rule arg_cong)
  then show "smooth c out0 (newBatch n out0)" by (simp add: smooth_def newBatch_def heldRow_def prodOK_def)
qed (simp_all add: newBatch_def)

interpretation batches: live_machine "\<lambda>s. s = newBatch n out0" "searchBatchStep c" "batchInv c out0 n" "batchStep c" joined
  for n out0 c
proof (unfold_locales, goal_cases)
  case (1 s)
  then show ?case by (simp add: batchInv_new)
next
  case (2 s t)
  then show ?case using searchBatchStep_inv by blast
next
  case (3 s t)
  then show ?case by (rule searchBatchStep.own)
next
  case (4 s)
  then show ?case using batch_progress by blast
qed

text \<open>A consumer that accepts every row never stops a batch.\<close>

lemma accepts_no_error:
  assumes "\<forall>h r. scnEmit c h r = None"
  shows "reachable (\<lambda>s. s = newBatch n out0) (searchBatchStep c) s \<Longrightarrow> bErr s = None"
proof (induction rule: reachable.induct)
  case (start s)
  then show ?case by (simp add: newBatch_def)
next
  case (next_state s t)
  then show ?case using assms by (auto elim!: searchBatchStep.cases batchStep.cases)
qed

section \<open>Batches of a search\<close>

definition maxParallelSources :: nat where "maxParallelSources = 2"

definition sceneOf :: "(string \<Rightarrow> string) \<Rightarrow> secretStore \<Rightarrow> (Result list \<Rightarrow> Result \<Rightarrow> goError option) \<Rightarrow> Target \<Rightarrow> source list \<Rightarrow> scene" where
  "sceneOf uni st emit t srcs = \<lparr>scnUni = uni, scnStore = st, scnTarget = t, scnSources = srcs, scnEmit = emit\<rparr>"

definition optList :: "'a option \<Rightarrow> 'a list" where
  "optList x = (case x of Some y \<Rightarrow> [y] | None \<Rightarrow> [])"

text \<open>
  \<open>searchParallel\<close>: the error, the rows, and the caller's context at the end.  The context may be done
  before any check.
\<close>

inductive searchParallel :: "(string \<Rightarrow> string) \<Rightarrow> secretStore \<Rightarrow> (Result list \<Rightarrow> Result \<Rightarrow> goError option) \<Rightarrow> Target
    \<Rightarrow> source list \<Rightarrow> Result list \<Rightarrow> goError option \<Rightarrow> goError list \<Rightarrow> goError option \<Rightarrow> Result list \<Rightarrow> goError option \<Rightarrow> bool"
  for uni st emit t where
  late: "searchParallel uni st emit t ss out (Some e) fs err out' ctx \<Longrightarrow> searchParallel uni st emit t ss out None fs err out' ctx"
| none_left: "searchParallel uni st emit t [] out parent fs (joinErrors (fs @ optList parent)) out parent"
| cancelled: "ss \<noteq> [] \<Longrightarrow> searchParallel uni st emit t ss out (Some e) fs (joinErrors (fs @ [e])) out (Some e)"
| consumer_failed: "ss \<noteq> [] \<Longrightarrow> ready = take maxParallelSources ss \<Longrightarrow>
    reachable (\<lambda>s. s = newBatch (length ready) out) (searchBatchStep (sceneOf uni st emit t ready)) s \<Longrightarrow> joined s \<Longrightarrow>
    bErr s = Some e \<Longrightarrow> searchParallel uni st emit t ss out None fs (Some e) (bOut s) (bParent s)"
| batch_done: "ss \<noteq> [] \<Longrightarrow> ready = take maxParallelSources ss \<Longrightarrow>
    reachable (\<lambda>s. s = newBatch (length ready) out) (searchBatchStep (sceneOf uni st emit t ready)) s \<Longrightarrow> joined s \<Longrightarrow>
    bErr s = None \<Longrightarrow>
    searchParallel uni st emit t (drop maxParallelSources ss) (bOut s) (bParent s) (fs @ batchFailures s) err out' ctx \<Longrightarrow>
    searchParallel uni st emit t ss out None fs err out' ctx"

section \<open>The sequential search of the same sources\<close>

text \<open>The rows and the failure of one source.\<close>

definition srcRows :: "scene \<Rightarrow> source \<Rightarrow> Result list" where
  "srcRows c s = allRows (c\<lparr>scnSources := [s]\<rparr>) 0"

definition srcFailure :: "scene \<Rightarrow> source \<Rightarrow> goError option" where
  "srcFailure c s = finalError (c\<lparr>scnSources := [s]\<rparr>) 0"

lemma okRows_at: "okRows c i sc = okRows (c\<lparr>scnSources := [scnSources c ! i]\<rparr>) 0 sc"
  by (induction sc) (simp_all add: rowOf_def)

lemma okError_at: "okError c i sc = okError (c\<lparr>scnSources := [scnSources c ! i]\<rparr>) 0 sc"
  by (induction sc) (simp_all add: failureOf_def)

lemma allRows_at: "allRows c i = srcRows c (scnSources c ! i)"
  by (simp add: allRows_def srcRows_def okRows_at [of c i])

lemma finalError_at: "finalError c i = srcFailure c (scnSources c ! i)"
  by (simp add: finalError_def srcFailure_def okError_at [of c i])

lemma srcRows_sources [simp]: "srcRows (c\<lparr>scnSources := x\<rparr>) s = srcRows c s" "srcFailure (c\<lparr>scnSources := x\<rparr>) s = srcFailure c s"
  by (simp_all add: srcRows_def srcFailure_def)

lemma totalRows_sources: "totalRows c (length (scnSources c)) = concat (map (srcRows c) (scnSources c))"
proof -
  have "map (allRows c) [0..<length (scnSources c)] = map (srcRows c) (map (\<lambda>i. scnSources c ! i) [0..<length (scnSources c)])"
    by (simp add: allRows_at)
  then show ?thesis by (simp add: totalRows_def map_nth)
qed

lemma complete_failures:
  assumes "complete c out0 s" and "length (bProd s) = length (scnSources c)"
  shows "batchFailures s = concat (map (\<lambda>x. optList (srcFailure c x)) (scnSources c))"
proof -
  have "bProd s ! i = PDone (srcFailure c (scnSources c ! i))" if "i < length (scnSources c)" for i
    using assms that by (simp add: complete_def finalError_at)
  then have "bProd s = map (\<lambda>x. PDone (srcFailure c x)) (scnSources c)" using assms(2) by (intro nth_equalityI) auto
  then show ?thesis by (simp add: batchFailures_def streamError_def optList_def comp_def option.case_eq_if)
qed

lemma runScript_accepted:
  assumes accept: "\<forall>h r. emit h r = None" and t: "tSecret t = None"
  shows "pgConsumerErr p = None \<Longrightarrow> \<exists>q. runScript uni emit t s sc p = (fst (runScript uni emit t s sc p), q)
      \<and> pgRows q = pgRows p @ okRows (sceneOf uni (pgStore p) emit t [s]) 0 sc \<and> pgConsumerErr q = None
      \<and> pgStore q = pgStore p
      \<and> failureOf (sceneOf uni (pgStore p) emit t [s]) 0 (fst (runScript uni emit t s sc p)) = okError (sceneOf uni (pgStore p) emit t [s]) 0 sc"
proof (induction sc arbitrary: p)
  case (Return e)
  then show ?case by simp
next
  case (EmitRow r k)
  define row where "row = Normalized uni (stamp uni (pgStore p) t s r)"
  define q where "q = p\<lparr>pgRows := pgRows p @ [row], pgConsumerErr := None, pgSummary := Observe (stamp uni (pgStore p) t s r) (pgSummary p)\<rparr>"
  have d: "deliver uni emit t s r p = (None, q)"
    using EmitRow.prems accept by (simp add: deliver_def Let_def q_def row_def)
  have "rowOf (sceneOf uni (pgStore p) emit t [s]) 0 r = row" by (simp add: rowOf_def sceneOf_def row_def)
  then show ?case using EmitRow.IH [of "k None" q] by (simp add: d Let_def) (simp add: q_def)
next
  case (ConsumeSecret k)
  have "p\<lparr>pgStore := Destroy (pgStore p) (tSecret t)\<rparr> = p" by (simp add: t Destroy_def)
  then show ?case using ConsumeSecret.IH [OF rangeI, of p "Reveal (pgStore p) (tSecret t)"] ConsumeSecret.prems
    by (simp add: sceneOf_def)
qed

lemma invoke_accepted:
  assumes accept: "\<forall>h r. emit h r = None" and t: "tSecret t = None" and st: "pgStore p = st"
  shows "\<exists>out q. invoke uni emit ce t s p = (srcFailure (sceneOf uni st emit t ss) s, None, out, q)
      \<and> pgRows q = pgRows p @ srcRows (sceneOf uni st emit t ss) s \<and> pgStore q = st"
proof -
  let ?p = "p\<lparr>pgConsumerErr := None, pgSummary := newSummary\<rparr>"
  let ?run = "runScript uni emit t s (sourceScript t s) ?p"
  have "\<exists>q. ?run = (fst ?run, q)
      \<and> pgRows q = pgRows ?p @ okRows (sceneOf uni (pgStore ?p) emit t [s]) 0 (sourceScript t s) \<and> pgConsumerErr q = None
      \<and> pgStore q = pgStore ?p
      \<and> failureOf (sceneOf uni (pgStore ?p) emit t [s]) 0 (fst ?run) = okError (sceneOf uni (pgStore ?p) emit t [s]) 0 (sourceScript t s)"
    by (rule runScript_accepted [OF accept t]) simp
  then obtain e q where run: "?run = (e, q)"
    and q: "pgRows q = pgRows p @ okRows (sceneOf uni st emit t [s]) 0 (sourceScript t s)" "pgConsumerErr q = None" "pgStore q = st"
      "failureOf (sceneOf uni st emit t [s]) 0 e = okError (sceneOf uni st emit t [s]) 0 (sourceScript t s)"
    using st by auto
  have "okRows (sceneOf uni st emit t [s]) 0 (sourceScript t s) = srcRows (sceneOf uni st emit t ss) s"
      "okError (sceneOf uni st emit t [s]) 0 (sourceScript t s) = srcFailure (sceneOf uni st emit t ss) s"
    by (simp_all add: srcRows_def srcFailure_def allRows_def finalError_def sceneOf_def)
  then show ?thesis using run q by (simp add: invoke_def Let_def failureOf_def sceneOf_def)
qed

lemma sequential_accepted:
  assumes accept: "\<forall>h r. emit h r = None" and t: "tSecret t = None"
  shows "\<forall>s \<in> set ss. Supports s (tKind t) \<Longrightarrow> ss \<noteq> [] \<or> b \<Longrightarrow> pgStore p = st \<Longrightarrow>
    \<exists>q. sequentialLoop uni emit (\<lambda>_. None) t ss n fs b p
        = (joinErrors (fs @ concat (map (\<lambda>x. optList (srcFailure (sceneOf uni st emit t ss0) x)) ss)), q)
      \<and> pgRows q = pgRows p @ concat (map (srcRows (sceneOf uni st emit t ss0)) ss)"
proof (induction ss arbitrary: n fs b p)
  case Nil
  then show ?case by simp
next
  case (Cons s ss)
  obtain out q where i: "invoke uni emit None t s p = (srcFailure (sceneOf uni st emit t ss0) s, None, out, q)"
      "pgRows q = pgRows p @ srcRows (sceneOf uni st emit t ss0) s" "pgStore q = st"
    using invoke_accepted [OF accept t Cons.prems(3)] by blast
  show ?case
    using Cons.IH [of True q "Suc (Suc n)" "fs @ optList (srcFailure (sceneOf uni st emit t ss0) s)"] Cons.prems i
    by (simp add: optList_def)
qed

lemma sceneOf_sel [simp]: "scnSources (sceneOf uni st emit t ss) = ss" "scnEmit (sceneOf uni st emit t ss) = emit"
  by (simp_all add: sceneOf_def)

lemma sceneOf_rows: "srcRows (sceneOf uni st emit t ss) = srcRows (sceneOf uni st emit t ss')"
    "srcFailure (sceneOf uni st emit t ss) = srcFailure (sceneOf uni st emit t ss')"
  by (simp_all add: fun_eq_iff srcRows_def srcFailure_def sceneOf_def)

lemma batch_undisturbed:
  assumes "reachable (\<lambda>s. s = newBatch (length ready) out) (searchBatchStep (sceneOf uni st emit t ready)) s"
    and "joined s" and "\<forall>h r. emit h r = None" and "bParent s = None"
  shows "bOut s = out @ concat (map (srcRows (sceneOf uni st emit t ss)) ready)
    \<and> batchFailures s = concat (map (\<lambda>x. optList (srcFailure (sceneOf uni st emit t ss) x)) ready)"
proof -
  let ?c = "sceneOf uni st emit t ready"
  have inv: "batchInv ?c out (length ready) s" by (rule batches.reachable_inv [OF assms(1)])
  have "bErr s = None" using accepts_no_error [of ?c] assms(1,3) by simp
  moreover have "bCtx s \<noteq> None" using batchInvD(4) [OF inv] assms(2) by (auto simp: smooth_def joined_def)
  ultimately have ended: "complete ?c out s" using batchInvD(5) [OF inv] assms(4) by blast
  have len: "length (bProd s) = length (scnSources ?c)" using batchInvD(1) [OF inv] by simp
  have rows: "bOut s = out @ totalRows ?c (length (bProd s))" using ended by (simp add: complete_def)
  show ?thesis
    unfolding rows len totalRows_sources complete_failures [OF ended len] by (simp add: sceneOf_rows [of _ _ _ _ ready ss])
qed

lemma parallel_result:
  assumes "searchParallel uni st emit t ss out parent fs err out' ctx" and "\<forall>h r. emit h r = None" and "ctx = None"
  shows "parent = None \<and> err = joinErrors (fs @ concat (map (\<lambda>x. optList (srcFailure (sceneOf uni st emit t ss0) x)) ss))
    \<and> out' = out @ concat (map (srcRows (sceneOf uni st emit t ss0)) ss)"
  using assms
proof (induction rule: searchParallel.induct)
  case (late ss out e fs err out' ctx)
  then show ?case by simp
next
  case (none_left out parent fs)
  then show ?case by (simp add: optList_def)
next
  case (cancelled ss out e fs)
  then show ?case by simp
next
  case (consumer_failed ss ready out s e fs)
  then show ?case using accepts_no_error [of "sceneOf uni st emit t ready" "length ready" out s] by simp
next
  case (batch_done ss ready out s err out' ctx fs)
  note ih = batch_done.IH [OF batch_done.prems]
  have ss: "ss = ready @ drop maxParallelSources ss" using batch_done.hyps(2) by simp
  have b: "bOut s = out @ concat (map (srcRows (sceneOf uni st emit t ss0)) ready)"
      "batchFailures s = concat (map (\<lambda>x. optList (srcFailure (sceneOf uni st emit t ss0) x)) ready)"
    using batch_undisturbed [OF batch_done.hyps(3,4) batch_done.prems(1)] ih by blast+
  have "concat (map g ss) = concat (map g ready) @ concat (map g (drop maxParallelSources ss))" for g :: "source \<Rightarrow> Result list"
    by (subst ss) simp
  moreover have "concat (map g ss) = concat (map g ready) @ concat (map g (drop maxParallelSources ss))" for g :: "source \<Rightarrow> goError list"
    by (subst ss) simp
  ultimately show ?case using ih b by simp
qed

section \<open>Properties\<close>

text \<open>C14: overlapping sources give the same search: for a plain target and a consumer that accepts every row,
  every interleaving of a search in batches whose context stays live hands the consumer exactly the rows of
  the sequential search, in the same order, and returns the same joined error.\<close>

theorem parallel_equals_sequential:
  assumes "searchParallel uni (pgStore p) emit t selected (pgRows p) None [] err out None"
    and "\<forall>h r. emit h r = None" and "tSecret t = None" and "selected \<noteq> []" and "\<forall>s \<in> set selected. Supports s (tKind t)"
  shows "err = fst (searchSequential uni emit (\<lambda>_. None) t selected p)
    \<and> out = pgRows (snd (searchSequential uni emit (\<lambda>_. None) t selected p))"
proof -
  obtain q where "searchSequential uni emit (\<lambda>_. None) t selected p =
      (joinErrors (concat (map (\<lambda>x. optList (srcFailure (sceneOf uni (pgStore p) emit t selected) x)) selected)), q)"
    and "pgRows q = pgRows p @ concat (map (srcRows (sceneOf uni (pgStore p) emit t selected)) selected)"
    using sequential_accepted [where fs = "[]" and b = False and n = 0, OF assms(2,3,5) disjI1 [OF assms(4)] refl]
    unfolding searchSequential_def by (metis append_Nil)
  then show ?thesis using parallel_result [OF assms(1,2) refl, of selected] by simp
qed

text \<open>A complete run of one source that emits one row.\<close>

definition demoScene :: scene where
  "demoScene = sceneOf (\<lambda>s. s) (\<lambda>_. []) (\<lambda>_ _. None) (plainTarget TargetUsername ''bob'') [demoSource]"

definition demoRow :: Result where
  "demoRow = rowOf demoScene 0 (emptyResult\<lparr>rSourceType := ''fake''\<rparr>)"

definition demoBatch :: batch where
  "demoBatch = \<lparr>bProd = [PDone None], bCur = 1, bCons = Returned, bOut = [demoRow], bErr = None,
     bCtx = Some contextCanceled, bParent = None\<rparr>"

lemma demo_batch: "reachable (\<lambda>s. s = newBatch 1 []) (searchBatchStep demoScene) demoBatch"
proof -
  let ?r = "reachable (\<lambda>s. s = newBatch 1 []) (searchBatchStep demoScene)"
  let ?st = "\<lambda>p cur k out ctx. \<lparr>bProd = [p], bCur = cur, bCons = k, bOut = out, bErr = None, bCtx = ctx, bParent = None\<rparr>"
  let ?raw = "emptyResult\<lparr>rSourceType := ''fake''\<rparr>"
  have script: "sourceScript (scnTarget demoScene) (scnSources demoScene ! 0) = EmitRow ?raw Return"
    by (simp add: demoScene_def sceneOf_def sourceScript_def demoSource_def)
  have own: "?r s \<Longrightarrow> batchStep demoScene s t' \<Longrightarrow> t' = t \<Longrightarrow> ?r t" for s t' t
    by (drule searchBatchStep.own, drule (1) reachable.next_state, hypsubst)
  have prod: "?r (?st p cur k out ctx) \<Longrightarrow> prodStep demoScene 0 ctx p q \<Longrightarrow> ?r (?st q cur k out ctx)" for p q cur k out ctx
    by (erule own) (rule batchStep.produce [where i = 0 and p = q], simp_all add: setProd_def)
  have "?r (?st PStart 0 Draining [] None)" by (rule reachable.start) (simp add: newBatch_def)
  then have "?r (?st (PRunning (EmitRow ?raw Return) None) 0 Draining [] None)"
    using prodStep.starts [of None demoScene 0] script by (metis prod)
  then have "?r (?st (PSending demoRow Return) 0 Draining [] None)"
    by (rule prod) (unfold demoRow_def, rule prodStep.offers)
  then have "?r (?st (PWaiting Return) 0 (Holding demoRow) [] None)"
    by (rule own) (rule batchStep.receive, simp_all add: setProd_def)
  then have "?r (?st (PWaiting Return) 0 Acking [demoRow] None)"
    by (rule own) (rule batchStep.consume_row, simp_all add: demoScene_def sceneOf_def)
  then have "?r (?st (PRunning (Return None) None) 0 Draining [demoRow] None)"
    by (rule own) (rule batchStep.ack, simp_all add: setProd_def)
  then have "?r (?st (PDone (failureOf demoScene 0 None)) 0 Draining [demoRow] None)"
    by (rule prod) (rule prodStep.returns)
  then have "?r (?st (PDone None) 0 Draining [demoRow] None)" by (simp add: failureOf_def)
  then have "?r (?st (PDone None) 1 Draining [demoRow] None)"
    by (rule own) (rule batchStep.next_stream, simp_all)
  then have "?r (?st (PDone None) 1 Returned [demoRow] (Some contextCanceled))"
    by (rule own) (rule batchStep.drained, simp_all add: cancelWith_def)
  then show ?thesis by (simp add: demoBatch_def)
qed

lemma demo_parallel:
  "searchParallel (\<lambda>s. s) (\<lambda>_. []) (\<lambda>_ _. None) (plainTarget TargetUsername ''bob'') [demoSource] [] None [] None [demoRow] None"
proof (rule searchParallel.batch_done [where s = demoBatch and ready = "[demoSource]"])
  show "reachable (\<lambda>s. s = newBatch (length [demoSource]) [])
      (searchBatchStep (sceneOf (\<lambda>s. s) (\<lambda>_. []) (\<lambda>_ _. None) (plainTarget TargetUsername ''bob'') [demoSource])) demoBatch"
    using demo_batch by (simp add: demoScene_def)
  have "searchParallel (\<lambda>s. s) (\<lambda>_. []) (\<lambda>_ _. None) (plainTarget TargetUsername ''bob'') [] [demoRow] None [] (joinErrors ([] @ optList None)) [demoRow] None"
    by (rule searchParallel.none_left)
  then show "searchParallel (\<lambda>s. s) (\<lambda>_. []) (\<lambda>_ _. None) (plainTarget TargetUsername ''bob'') (drop maxParallelSources [demoSource])
      (bOut demoBatch) (bParent demoBatch) ([] @ batchFailures demoBatch) None [demoRow] None"
    by (simp add: demoBatch_def maxParallelSources_def batchFailures_def streamError_def joinErrors_def optList_def)
qed (simp_all add: maxParallelSources_def joined_def demoBatch_def)

theorem parallel_equals_sequential_witness:
  "pgRows (snd (searchSequential (\<lambda>s. s) (\<lambda>_ _. None) (\<lambda>_. None) (plainTarget TargetUsername ''bob'') [demoSource]
     (newProgress (\<lambda>_. [])))) = [demoRow]"
  using parallel_equals_sequential [of "\<lambda>s. s" "newProgress (\<lambda>_. [])" "\<lambda>_ _. None" "plainTarget TargetUsername ''bob''"
      "[demoSource]" None "[demoRow]"] demo_parallel
  by (simp add: newProgress_def plainTarget_def demoSource_def Supports_def Capabilities_def)

text \<open>C15: whatever the interleaving, the consumer's answers and the moment of cancellation, a batch hands out a
  prefix of the rows of its sources in registration order, and it never deadlocks: when no goroutine can take a
  step, the consumer has returned and every source has finished.\<close>

theorem batch_in_order_and_live:
  assumes "reachable (\<lambda>s. s = newBatch (length srcs) out) (searchBatchStep (sceneOf uni st emit t srcs)) s"
  shows "prefix (bOut s) (out @ concat (map (srcRows (sceneOf uni st emit t srcs)) srcs))
    \<and> ((\<forall>s'. \<not> batchStep (sceneOf uni st emit t srcs) s s') \<longrightarrow> joined s)"
  using batchInvD(3) [OF batches.reachable_inv [OF assms]] batches.stuck_final [OF assms]
    totalRows_sources [of "sceneOf uni st emit t srcs"] by simp

theorem batch_in_order_and_live_witness:
  "prefix (bOut demoBatch) (concat (map (srcRows demoScene) [demoSource]))"
  using batch_in_order_and_live [where srcs = "[demoSource]" and out = "[]" and s = demoBatch] demo_batch
  unfolding demoScene_def by fastforce

end
