(* ===== verification/Json.thy ===== *)
theory Json
  imports GoStrings
begin

text \<open>
  What the components use of \<open>unicode/utf8\<close>, of the encoder of \<open>encoding/json\<close> and of the RFC 3339
  formatter of \<open>time\<close>: UTF-8 well-formedness, \<open>json.Marshal\<close> with its HTML escaping, and UTC timestamps.
\<close>

section \<open>UTF-8\<close>

definition contC :: "nat \<Rightarrow> nat \<Rightarrow> char list \<Rightarrow> nat \<Rightarrow> bool" where
  "contC lo hi s i \<longleftrightarrow> i < length s \<and> lo \<le> byteVal (s ! i) \<and> byteVal (s ! i) \<le> hi"

text \<open>The length of the character at the front, or 0 when the bytes there are not well formed.\<close>

definition utf8Len :: "string \<Rightarrow> nat" where
  "utf8Len s =
     (if s = [] then 0
      else let b = byteVal (hd s) in
        if b < 128 then 1
        else if 194 \<le> b \<and> b \<le> 223 then (if contC 128 191 s 1 then 2 else 0)
        else if 224 \<le> b \<and> b \<le> 239 then
          (if contC (if b = 224 then 160 else 128) (if b = 237 then 159 else 191) s 1 \<and> contC 128 191 s 2 then 3 else 0)
        else if 240 \<le> b \<and> b \<le> 244 then
          (if contC (if b = 240 then 144 else 128) (if b = 244 then 143 else 191) s 1 \<and> contC 128 191 s 2 \<and> contC 128 191 s 3
           then 4 else 0)
        else 0)"

function utf8Valid :: "string \<Rightarrow> bool" where
  "utf8Valid s \<longleftrightarrow> (if s = [] then True else if utf8Len s = 0 then False else utf8Valid (drop (utf8Len s) s))"
  by pat_completeness auto
termination by (relation "measure length") auto

declare utf8Valid.simps [simp del]

lemma utf8Len_ascii: "isAsciiC c \<Longrightarrow> utf8Len (c # s) = 1"
  by (simp add: utf8Len_def isAsciiC_def)

lemma utf8Valid_ascii: "\<forall>c \<in> set s. isAsciiC c \<Longrightarrow> utf8Valid s"
proof (induction s)
  case Nil
  then show ?case by (simp add: utf8Valid.simps)
next
  case (Cons c s)
  then have "utf8Len (c # s) = 1" by (simp add: utf8Len_ascii)
  then show ?case using Cons by (subst utf8Valid.simps) simp
qed

section \<open>JSON text\<close>

text \<open>\<open>JNum\<close> is a \<open>json.Number\<close>: it is written as it was read.\<close>

datatype json = JNull | JBool bool | JInt int | JNum string | JStr string | JArr "json list" | JObj "(string \<times> json) list"

definition lowerHex :: "nat \<Rightarrow> char" where
  "lowerHex n = (if n < 10 then char_of (48 + n) else char_of (87 + n))"

definition unicodeEscape :: "nat \<Rightarrow> string" where
  "unicodeEscape n = [CHR 0x5C, CHR ''u'', lowerHex (n div 4096 mod 16), lowerHex (n div 256 mod 16),
     lowerHex (n div 16 mod 16), lowerHex (n mod 16)]"

definition escapeAscii :: "char \<Rightarrow> string" where
  "escapeAscii c =
     (let b = byteVal c in
      if b = 34 \<or> b = 92 then [CHR 0x5C, c]
      else if b = 8 then [CHR 0x5C, CHR ''b''] else if b = 12 then [CHR 0x5C, CHR ''f'']
      else if b = 10 then [CHR 0x5C, CHR ''n''] else if b = 13 then [CHR 0x5C, CHR ''r'']
      else if b = 9 then [CHR 0x5C, CHR ''t'']
      else if b < 32 \<or> b = 60 \<or> b = 62 \<or> b = 38 then unicodeEscape b else [c])"

text \<open>Line and paragraph separators are escaped, and a byte that is not UTF-8 becomes the replacement character.\<close>

function escapeString :: "string \<Rightarrow> string" where
  "escapeString s =
     (if s = [] then []
      else if utf8Len s = 0 then unicodeEscape 65533 @ escapeString (tl s)
      else if utf8Len s = 1 then escapeAscii (hd s) @ escapeString (tl s)
      else if take 3 s = [CHR 0xE2, CHR 0x80, CHR 0xA8] then unicodeEscape 8232 @ escapeString (drop 3 s)
      else if take 3 s = [CHR 0xE2, CHR 0x80, CHR 0xA9] then unicodeEscape 8233 @ escapeString (drop 3 s)
      else take (utf8Len s) s @ escapeString (drop (utf8Len s) s))"
  by pat_completeness auto
termination by (relation "measure length") auto

declare escapeString.simps [simp del]

definition jsonString :: "string \<Rightarrow> string" where
  "jsonString s = [CHR 0x22] @ escapeString s @ [CHR 0x22]"

fun jsonText :: "json \<Rightarrow> string" where
  "jsonText JNull = ''null''"
| "jsonText (JBool b) = (if b then ''true'' else ''false'')"
| "jsonText (JInt i) = itoa i"
| "jsonText (JNum s) = s"
| "jsonText (JStr s) = jsonString s"
| "jsonText (JArr xs) = ''['' @ joinWith '','' (map jsonText xs) @ '']''"
| "jsonText (JObj kvs) = ''{'' @ joinWith '','' (map (\<lambda>(k, v). jsonString k @ '':'' @ jsonText v) kvs) @ ''}''"

text \<open>Struct fields: always there, or left out when empty.\<close>

definition omitEmpty :: "string \<Rightarrow> string \<Rightarrow> (string \<times> json) list" where
  "omitEmpty k v = (if v = [] then [] else [(k, JStr v)])"

definition omitNil :: "string \<Rightarrow> int option \<Rightarrow> (string \<times> json) list" where
  "omitNil k v = (case v of None \<Rightarrow> [] | Some i \<Rightarrow> [(k, JInt i)])"

definition strList :: "string list \<Rightarrow> json" where
  "strList xs = JArr (map JStr xs)"

text \<open>The size of a JSON text is linear in the size of the value.\<close>

lemma escape_step: "length (escapeAscii c) \<le> 6" "length (unicodeEscape n) = 6"
  by (simp_all add: escapeAscii_def unicodeEscape_def Let_def)

lemma length_escapeString: "length (escapeString s) \<le> 6 * length s"
proof (induction s rule: escapeString.induct)
  case (1 s)
  show ?case
  proof (cases "s = [] \<or> utf8Len s \<le> 1")
    case True
    show ?thesis
    proof (cases s)
      case Nil
      then show ?thesis by (simp add: escapeString.simps)
    next
      case (Cons c r)
      consider "utf8Len s = 0" | "utf8Len s = 1" using True Cons by fastforce
      then show ?thesis using 1(1,2) escape_step(1) [of c] Cons
        by cases (subst escapeString.simps; simp add: escape_step(2))+
    qed
  next
    case False
    then have "1 \<le> length s" by (cases s) auto
    then show ?thesis using 1(3-5) False
      by (subst escapeString.simps) (auto simp: escape_step(2) min_def split: if_splits)
  qed
qed

fun jsonBound :: "json \<Rightarrow> nat" where
  "jsonBound JNull = 4"
| "jsonBound (JBool b) = 5"
| "jsonBound (JInt i) = length (itoa i)"
| "jsonBound (JNum s) = length s"
| "jsonBound (JStr s) = 6 * length s + 2"
| "jsonBound (JArr xs) = 2 + sum_list (map (\<lambda>x. jsonBound x + 1) xs)"
| "jsonBound (JObj kvs) = 2 + sum_list (map (\<lambda>(k, v). 6 * length k + jsonBound v + 4) kvs)"

lemma length_joinWith: "length (joinWith '','' xs) \<le> sum_list (map (\<lambda>x. length x + 1) xs)"
  by (induction xs rule: induct_list012) auto

lemma length_jsonText: "length (jsonText j) \<le> jsonBound j"
proof (induction j)
  case (JStr s)
  then show ?case using length_escapeString [of s] by (simp add: jsonString_def)
next
  case (JArr xs)
  have "sum_list (map (\<lambda>x. length (jsonText x) + 1) xs) \<le> sum_list (map (\<lambda>x. jsonBound x + 1) xs)"
    by (rule sum_list_mono) (use JArr in auto)
  then show ?case using length_joinWith [of "map jsonText xs"] by (simp add: comp_def)
next
  case (JObj kvs)
  let ?f = "\<lambda>(k, v). jsonString k @ '':'' @ jsonText v"
  have "sum_list (map (\<lambda>kv. length (?f kv) + 1) kvs) \<le> sum_list (map (\<lambda>(k, v). 6 * length k + jsonBound v + 4) kvs)"
  proof (rule sum_list_mono)
    fix kv assume "kv \<in> set kvs"
    moreover obtain k v where "kv = (k, v)" by (cases kv)
    ultimately show "length (?f kv) + 1 \<le> (\<lambda>(k, v). 6 * length k + jsonBound v + 4) kv"
      using JObj [of kv v] length_escapeString [of k] by (auto simp: jsonString_def)
  qed
  then show ?case using length_joinWith [of "map ?f kvs"] by (simp add: comp_def)
qed auto

section \<open>Timestamps\<close>

text \<open>The civil date of a number of days after 1 January 1970, counted from 1 March of year 0 in 400-year eras.\<close>

definition civilDate :: "int \<Rightarrow> int \<times> int \<times> int" where
  "civilDate days =
     (let z = days + 719468; era = z div 146097; doe = z mod 146097;
          yoe = (doe - doe div 1460 + doe div 36524 - doe div 146096) div 365;
          doy = doe - (365 * yoe + yoe div 4 - yoe div 100);
          mp = (5 * doy + 2) div 153;
          d = doy - (153 * mp + 2) div 5 + 1;
          m = (if mp < 10 then mp + 3 else mp - 9)
      in (yoe + era * 400 + (if m \<le> 2 then 1 else 0), m, d))"

definition padInt :: "nat \<Rightarrow> int \<Rightarrow> string" where
  "padInt w i = (let s = itoa i in replicate (w - length s) CHR ''0'' @ s)"

text \<open>\<open>time.Unix(t, 0).UTC().Format(time.RFC3339)\<close> for the years 0 to 9999.\<close>

definition rfc3339 :: "int \<Rightarrow> string" where
  "rfc3339 t =
     (let (y, m, d) = civilDate (t div 86400); s = t mod 86400
      in padInt 4 y @ ''-'' @ padInt 2 m @ ''-'' @ padInt 2 d @ ''T'' @ padInt 2 (s div 3600) @ '':''
         @ padInt 2 (s div 60 mod 60) @ '':'' @ padInt 2 (s mod 60) @ ''Z'')"

end
