(* ===== verification/BitcoinTx.thy ===== *)
theory BitcoinTx
  imports BitcoinAddr Json "HOL-Library.AList"
begin

text \<open>
  The Bitcoin transaction parser (\<open>src/internal/sources/bitcoin/transaction_parse.go\<close>): the check of the
  token stream, the validation of a decoded transaction and its evidence.  The decoder of \<open>encoding/json\<close>
  is an argument: \<open>tokens\<close> is its token stream, \<open>decode\<close> the decoded structure with the fields that
  the code decodes itself, in the order of the text.  A nil pointer is \<open>None\<close>.  Amounts are integers: the guards of the code keep every sum within
  the money supply, which \<open>checked_total\<close> shows, so 64-bit arithmetic never wraps.
\<close>

section \<open>Failures and limits\<close>

record failure =
  fKind :: string
  fStatus :: int
  fRetry :: nat

definition failureKind :: "string \<Rightarrow> failure" where
  "failureKind k = \<lparr>fKind = k, fStatus = 0, fRetry = 0\<rparr>"

definition invalidResponse :: failure where
  "invalidResponse = failureKind ''invalid_response''"

definition maxMoney :: int where "maxMoney = 21000000 * 100000000"
definition MaxResponseBytes :: nat where "MaxResponseBytes = 1048576"
definition MaxTransactionIO :: nat where "MaxTransactionIO = 1000"

definition validTxID :: "(string \<Rightarrow> string) \<Rightarrow> string \<Rightarrow> bool" where
  "validTxID uni s \<longleftrightarrow> length s = 64 \<and> s = toLower uni s \<and> snd (decodeString s)"

section \<open>The token stream\<close>

datatype token = TObj | TArr | TClose | TStr string | TScalar | TErr
datatype frame = FObj "string list" | FArr
datatype mode = ReadValue | ReadNext

text \<open>The recursive walk with its call stack as a list; the depth of a value is the number of open frames.\<close>

function walkJSON :: "mode \<Rightarrow> frame list \<Rightarrow> token list \<Rightarrow> failure option" where
  "walkJSON ReadValue st ts =
     (if length st > 16 then Some (failureKind ''unsupported_response'')
      else case ts of [] \<Rightarrow> Some invalidResponse
           | TErr # r \<Rightarrow> Some invalidResponse
           | TObj # r \<Rightarrow> walkJSON ReadNext (FObj [] # st) r
           | TArr # r \<Rightarrow> walkJSON ReadNext (FArr # st) r
           | t # r \<Rightarrow> walkJSON ReadNext st r)"
| "walkJSON ReadNext [] ts = (if ts = [] then None else Some invalidResponse)"
| "walkJSON ReadNext (FArr # st) ts =
     (case ts of [] \<Rightarrow> Some invalidResponse
      | TClose # r \<Rightarrow> walkJSON ReadNext st r
      | t # r \<Rightarrow> walkJSON ReadValue (FArr # st) ts)"
| "walkJSON ReadNext (FObj seen # st) ts =
     (case ts of TClose # r \<Rightarrow> walkJSON ReadNext st r
      | TStr k # r \<Rightarrow>
          (if \<exists>c \<in> set k. \<not> isAsciiC c then Some invalidResponse
           else let name = map lowerC k in
             if name \<in> set seen then Some invalidResponse
             else if length (name # seen) > 64 then Some (failureKind ''unsupported_response'')
             else walkJSON ReadValue (FObj (name # seen) # st) r)
      | _ \<Rightarrow> Some invalidResponse)"
  by pat_completeness auto
termination
  by (relation "measure (\<lambda>(m, st, ts). 2 * length ts + (case m of ReadNext \<Rightarrow> 1 | ReadValue \<Rightarrow> 0))") auto

definition checkTransactionJSON :: "token list \<Rightarrow> failure option" where
  "checkTransactionJSON ts = walkJSON ReadValue [] ts"

section \<open>Wire data\<close>

record txOutputWire =
  woValue :: "int option"
  woAddress :: string
  woScriptType :: string

record txInputWire =
  wiID :: string
  wiVout :: "int option"
  wiCoinbase :: "bool option"
  wiPrevout :: "txOutputWire option"

record txStatusWire =
  wsConfirmed :: "bool option"
  wsHeight :: "int option"
  wsHash :: string
  wsTime :: "int option"

record transactionWire =
  wtID :: string
  wtVersion :: "int option"
  wtLocktime :: "int option"
  wtSize :: "int option"
  wtWeight :: "int option"
  wtFee :: "int option"
  wtInputs :: "txInputWire list"
  wtOutputs :: "txOutputWire list"
  wtStatus :: "txStatusWire option"

text \<open>
  The lists of inputs and outputs decode themselves: a JSON value that is no array, or an array of elements, with \<open>None\<close>
  for one that does not decode.  An error that is not a \<open>failure\<close> becomes an invalid response.
\<close>

datatype 'a wireList = NotArray | ArrayOf "'a option list"

fun boundedElements :: "'a option list \<Rightarrow> 'a list \<Rightarrow> failure + 'a list" where
  "boundedElements [] acc = Inr acc"
| "boundedElements (x # xs) acc =
     (if length acc \<ge> MaxTransactionIO then Inl (failureKind ''data_limit'')
      else case x of None \<Rightarrow> Inl invalidResponse | Some v \<Rightarrow> boundedElements xs (acc @ [v]))"

definition boundedList :: "'a wireList \<Rightarrow> failure + 'a list" where
  "boundedList l = (case l of NotArray \<Rightarrow> Inl invalidResponse | ArrayOf xs \<Rightarrow> boundedElements xs [])"

datatype wireField = VinField "txInputWire wireList" | VoutField "txOutputWire wireList" | BadField

text \<open>\<open>json.Unmarshal\<close> keeps the first error and goes on.\<close>

definition readField :: "wireField \<Rightarrow> failure option \<times> transactionWire \<Rightarrow> failure option \<times> transactionWire" where
  "readField f s =
     (let note = (\<lambda>e. (Some (case fst s of Some first \<Rightarrow> first | None \<Rightarrow> e), snd s)) in
      case f of
        VinField l \<Rightarrow> (case boundedList l of Inl e \<Rightarrow> note e | Inr xs \<Rightarrow> (fst s, (snd s)\<lparr>wtInputs := xs\<rparr>))
      | VoutField l \<Rightarrow> (case boundedList l of Inl e \<Rightarrow> note e | Inr xs \<Rightarrow> (fst s, (snd s)\<lparr>wtOutputs := xs\<rparr>))
      | BadField \<Rightarrow> note invalidResponse)"

definition unmarshalTransaction :: "(transactionWire \<times> wireField list) option \<Rightarrow> failure + transactionWire" where
  "unmarshalTransaction d =
     (case d of None \<Rightarrow> Inl invalidResponse
      | Some (w, items) \<Rightarrow>
          (case fold readField items (None, w\<lparr>wtInputs := [], wtOutputs := []\<rparr>) of
             (Some e, _) \<Rightarrow> Inl e
           | (None, w) \<Rightarrow> Inr w))"

section \<open>Evidence projections\<close>

record transactionSummary =
  tsID :: string
  tsVersion :: int
  tsLocktime :: int
  tsSize :: int
  tsWeight :: int
  tsFee :: "int option"
  tsInputCount :: int
  tsOutputCount :: int
  tsCoinbase :: bool
  tsInputValuesComplete :: bool
  tsInputTotal :: "int option"
  tsOutputTotal :: int
  tsFeeCheck :: string

record transactionInput =
  tiIndex :: int
  tiCoinbase :: bool
  tiPreviousID :: string
  tiPreviousVout :: "int option"
  tiPreviousValue :: "int option"
  tiPreviousAddress :: string
  tiPreviousScriptType :: string

record transactionOutput =
  toIndex :: int
  toValue :: int
  toAddress :: string
  toScriptType :: string

record transactionBlock =
  tbHeight :: "int option"
  tbHash :: string
  tbTime :: string

text \<open>\<open>encode\<close> on each of them.\<close>

definition summaryJSON :: "transactionSummary \<Rightarrow> json" where
  "summaryJSON s = JObj
     ([(''txid'', JStr (tsID s)), (''version'', JInt (tsVersion s)), (''locktime'', JInt (tsLocktime s)),
       (''size'', JInt (tsSize s)), (''weight'', JInt (tsWeight s))] @ omitNil ''fee_sats'' (tsFee s)
      @ [(''input_count'', JInt (tsInputCount s)), (''output_count'', JInt (tsOutputCount s)),
         (''coinbase'', JBool (tsCoinbase s)), (''input_values_complete'', JBool (tsInputValuesComplete s))]
      @ omitNil ''input_total_sats'' (tsInputTotal s)
      @ [(''output_total_sats'', JInt (tsOutputTotal s)), (''fee_check'', JStr (tsFeeCheck s))])"

definition inputJSON :: "transactionInput \<Rightarrow> json" where
  "inputJSON i = JObj
     ([(''index'', JInt (tiIndex i)), (''coinbase'', JBool (tiCoinbase i))] @ omitEmpty ''previous_txid'' (tiPreviousID i)
      @ omitNil ''previous_vout'' (tiPreviousVout i) @ omitNil ''previous_value_sats'' (tiPreviousValue i)
      @ omitEmpty ''previous_address'' (tiPreviousAddress i) @ omitEmpty ''previous_script_type'' (tiPreviousScriptType i))"

definition outputJSON :: "transactionOutput \<Rightarrow> json" where
  "outputJSON r = JObj
     ([(''index'', JInt (toIndex r)), (''value_sats'', JInt (toValue r))] @ omitEmpty ''address'' (toAddress r)
      @ omitEmpty ''script_type'' (toScriptType r))"

definition blockJSON :: "transactionBlock \<Rightarrow> json" where
  "blockJSON b = JObj (omitNil ''height'' (tbHeight b) @ omitEmpty ''hash'' (tbHash b) @ omitEmpty ''time'' (tbTime b))"

definition addressJSON :: "string \<Rightarrow> bool \<times> bool \<Rightarrow> json" where
  "addressJSON a io = JObj [(''address'', JStr a), (''in_input_previous_output'', JBool (fst io)), (''in_output'', JBool (snd io))]"

definition evidenceJSON :: "string \<Rightarrow> json \<Rightarrow> Evidence" where
  "evidenceJSON kind j = \<lparr>evKind = kind, evValue = jsonText j\<rparr>"

section \<open>Checks of single fields\<close>

definition scriptTypeValid :: "string \<Rightarrow> bool" where
  "scriptTypeValid value \<longleftrightarrow> length value \<le> 64
     \<and> list_all (\<lambda>c. isLowerC c \<or> isUpperC c \<or> isDigitC c \<or> c = CHR ''_'' \<or> c = CHR ''-'') value"

definition txAddress :: "(string \<Rightarrow> string) \<Rightarrow> (string \<Rightarrow> string) \<Rightarrow> string \<Rightarrow> failure + string" where
  "txAddress uniL uniU value =
     (if value = [] then Inr []
      else case BitcoinAddress uniL uniU value of
             Inl ErrUnsupportedBitcoinAddress \<Rightarrow> Inl (failureKind ''unsupported_response'')
           | Inl ErrInvalidBitcoinAddress \<Rightarrow> Inl invalidResponse
           | Inr (a, kind) \<Rightarrow> Inr a)"

definition checkedValue :: "int \<Rightarrow> int \<Rightarrow> failure + int" where
  "checkedValue tot value =
     (if value < 0 \<or> value > maxMoney \<or> tot > maxMoney - value then Inl invalidResponse else Inr (tot + value))"

definition outside :: "int \<Rightarrow> int \<Rightarrow> int option \<Rightarrow> bool" where
  "outside lo hi v \<longleftrightarrow> (case v of None \<Rightarrow> False | Some i \<Rightarrow> i < lo \<or> i > hi)"

text \<open>The first guards of \<open>parseTransaction\<close>: header fields, then the status block.\<close>

definition headerBad :: "(string \<Rightarrow> string) \<Rightarrow> string \<Rightarrow> transactionWire \<Rightarrow> bool" where
  "headerBad uni expected w \<longleftrightarrow>
     \<not> validTxID uni (wtID w) \<or> wtID w \<noteq> expected
   \<or> (case wtStatus w of None \<Rightarrow> True | Some st \<Rightarrow> wsConfirmed st = None) \<or> wtInputs w = [] \<or> wtOutputs w = []
   \<or> wtVersion w = None \<or> outside (-2147483648) 2147483647 (wtVersion w)
   \<or> wtLocktime w = None \<or> outside 0 4294967295 (wtLocktime w)
   \<or> wtSize w = None \<or> outside 10 4000000 (wtSize w)
   \<or> (case wtWeight w of None \<Rightarrow> True
      | Some g \<Rightarrow> g < the (wtSize w) \<or> g > 4 * the (wtSize w) \<or> g > 4000000)
   \<or> outside 0 maxMoney (wtFee w)"

definition statusBlock :: "(string \<Rightarrow> string) \<Rightarrow> txStatusWire \<Rightarrow> failure + transactionBlock" where
  "statusBlock uni st =
     failIf (wsConfirmed st = Some False \<and> (wsHeight st \<noteq> None \<or> wsHash st \<noteq> [] \<or> wsTime st \<noteq> None)) invalidResponse
     (let hash = toLower uni (wsHash st) in
      failIf (outside 0 2147483647 (wsHeight st)) invalidResponse
      (failIf (hash \<noteq> [] \<and> \<not> validTxID uni hash) invalidResponse
      (failIf (outside 1231006505 253402300799 (wsTime st)) invalidResponse
      (Inr \<lparr>tbHeight = wsHeight st, tbHash = hash, tbTime = (case wsTime st of None \<Rightarrow> [] | Some t \<Rightarrow> rfc3339 t)\<rparr>))))"

section \<open>Inputs\<close>

record txAcc =
  acInputs :: "transactionInput list"
  acAddresses :: "(string \<times> bool \<times> bool) list"
  acInputTotal :: int
  acReferences :: "string list"
  acCoinbase :: bool
  acComplete :: bool
  acFeeCheck :: string

definition observe :: "string \<Rightarrow> bool \<Rightarrow> (string \<times> bool \<times> bool) list \<Rightarrow> (string \<times> bool \<times> bool) list" where
  "observe address input m =
     (if address = [] then m
      else let (i, out) = (case map_of m address of Some p \<Rightarrow> p | None \<Rightarrow> (False, False))
           in AList.update address (if input then (True, out) else (i, True)) m)"

definition zeroTxID :: string where "zeroTxID = replicate 64 CHR ''0''"

definition coinbaseInput :: "transactionWire \<Rightarrow> txInputWire \<Rightarrow> txAcc \<Rightarrow> failure + txAcc" where
  "coinbaseInput w inp a =
     failIf (length (wtInputs w) \<noteq> 1 \<or> wiPrevout inp \<noteq> None \<or> wiID inp \<noteq> [] \<and> wiID inp \<noteq> zeroTxID
         \<or> outside 4294967295 4294967295 (wiVout inp)) invalidResponse
     (failIf (case wtFee w of None \<Rightarrow> False | Some f \<Rightarrow> f \<noteq> 0) invalidResponse
     (Inr (a\<lparr>acCoinbase := True, acComplete := False, acFeeCheck := ''not_applicable''\<rparr>)))"

text \<open>The previous output of an input: its address, script type and value.\<close>

definition previousOutput :: "(string \<Rightarrow> string) \<Rightarrow> (string \<Rightarrow> string) \<Rightarrow> txOutputWire \<Rightarrow> transactionInput \<Rightarrow> txAcc
    \<Rightarrow> failure + transactionInput \<times> txAcc" where
  "previousOutput uniL uniU prev item a =
     failIf (\<not> scriptTypeValid (woScriptType prev)) invalidResponse
     (andThen (txAddress uniL uniU (woAddress prev)) (\<lambda>address.
        let item = item\<lparr>tiPreviousAddress := address, tiPreviousScriptType := woScriptType prev\<rparr>;
            a = a\<lparr>acAddresses := observe address True (acAddresses a)\<rparr>
        in case woValue prev of
             None \<Rightarrow> Inr (item, a\<lparr>acComplete := False\<rparr>)
           | Some v \<Rightarrow> andThen (checkedValue (acInputTotal a) v) (\<lambda>tot.
               Inr (item\<lparr>tiPreviousValue := Some v\<rparr>, a\<lparr>acInputTotal := tot\<rparr>))))"

definition spendInput :: "(string \<Rightarrow> string) \<Rightarrow> (string \<Rightarrow> string) \<Rightarrow> txInputWire \<Rightarrow> transactionInput \<Rightarrow> txAcc
    \<Rightarrow> failure + transactionInput \<times> txAcc" where
  "spendInput uniL uniU inp item a =
     (let txid = toLower uniL (wiID inp) in
      failIf (\<not> validTxID uniL txid \<or> txid = zeroTxID \<or> wiVout inp = None \<or> outside 0 4294967295 (wiVout inp)) invalidResponse
      (let reference = txid @ '':'' @ itoa (the (wiVout inp)) in
       failIf (reference \<in> set (acReferences a)) invalidResponse
       (let a = a\<lparr>acReferences := reference # acReferences a\<rparr>;
            item = item\<lparr>tiPreviousID := txid, tiPreviousVout := wiVout inp\<rparr>
        in case wiPrevout inp of
             None \<Rightarrow> Inr (item, a\<lparr>acComplete := False\<rparr>)
           | Some prev \<Rightarrow> previousOutput uniL uniU prev item a)))"

definition inputStep :: "(string \<Rightarrow> string) \<Rightarrow> (string \<Rightarrow> string) \<Rightarrow> transactionWire \<Rightarrow> nat \<Rightarrow> txInputWire \<Rightarrow> txAcc
    \<Rightarrow> failure + txAcc" where
  "inputStep uniL uniU w i inp a =
     (case wiCoinbase inp of
        None \<Rightarrow> Inl invalidResponse
      | Some coinbase \<Rightarrow>
          (let item = \<lparr>tiIndex = int i, tiCoinbase = coinbase, tiPreviousID = [], tiPreviousVout = None,
                 tiPreviousValue = None, tiPreviousAddress = [], tiPreviousScriptType = []\<rparr>
           in andThen (if coinbase then andThen (coinbaseInput w inp a) (\<lambda>a. Inr (item, a))
                       else spendInput uniL uniU inp item a)
                (\<lambda>(item, a). Inr (a\<lparr>acInputs := acInputs a @ [item]\<rparr>))))"

fun inputLoop :: "(string \<Rightarrow> string) \<Rightarrow> (string \<Rightarrow> string) \<Rightarrow> transactionWire \<Rightarrow> nat \<Rightarrow> txInputWire list \<Rightarrow> txAcc
    \<Rightarrow> failure + txAcc" where
  "inputLoop uniL uniU w i [] a = Inr a"
| "inputLoop uniL uniU w i (inp # ins) a = andThen (inputStep uniL uniU w i inp a) (inputLoop uniL uniU w (Suc i) ins)"

section \<open>Outputs\<close>

fun outputLoop :: "(string \<Rightarrow> string) \<Rightarrow> (string \<Rightarrow> string) \<Rightarrow> nat \<Rightarrow> txOutputWire list \<Rightarrow> int
    \<Rightarrow> (string \<times> bool \<times> bool) list \<Rightarrow> transactionOutput list
    \<Rightarrow> failure + int \<times> (string \<times> bool \<times> bool) list \<times> transactionOutput list" where
  "outputLoop uniL uniU i [] tot m outs = Inr (tot, m, outs)"
| "outputLoop uniL uniU i (w # ws) tot m outs =
     (case woValue w of
        None \<Rightarrow> Inl invalidResponse
      | Some v \<Rightarrow>
          failIf (\<not> scriptTypeValid (woScriptType w)) invalidResponse
          (andThen (checkedValue tot v) (\<lambda>tot.
             andThen (txAddress uniL uniU (woAddress w)) (\<lambda>address.
               outputLoop uniL uniU (Suc i) ws tot (observe address False m)
                 (outs @ [\<lparr>toIndex = int i, toValue = v, toAddress = address, toScriptType = woScriptType w\<rparr>])))))"

section \<open>The transaction\<close>

text \<open>The totals: the fee check on complete input values.\<close>

definition balance :: "transactionWire \<Rightarrow> txAcc \<Rightarrow> int \<Rightarrow> failure + int option \<times> string" where
  "balance w a outputTotal =
     (if acComplete a then
        failIf (acInputTotal a < outputTotal) invalidResponse
        (case wtFee w of
           None \<Rightarrow> Inr (Some (acInputTotal a), acFeeCheck a)
         | Some fee \<Rightarrow> failIf (acInputTotal a - outputTotal \<noteq> fee) (failureKind ''inconsistent_fee'')
             (Inr (Some (acInputTotal a), ''consistent'')))
      else Inr (None, acFeeCheck a))"

definition newTxAcc :: txAcc where
  "newTxAcc = \<lparr>acInputs = [], acAddresses = [], acInputTotal = 0, acReferences = [], acCoinbase = False, acComplete = True,
     acFeeCheck = ''unavailable''\<rparr>"

definition transactionEvidence :: "transactionSummary \<Rightarrow> bool \<Rightarrow> transactionBlock \<Rightarrow> transactionInput list
    \<Rightarrow> transactionOutput list \<Rightarrow> (string \<times> bool \<times> bool) list \<Rightarrow> Evidence list" where
  "transactionEvidence summary confirmed block ins outs addresses =
     [evidenceJSON ''crypto_transaction_summary'' (summaryJSON summary),
      evidenceJSON ''crypto_transaction_status'' (JObj [(''confirmed'', JBool confirmed)])]
     @ (if tbHeight block \<noteq> None \<or> tbHash block \<noteq> [] \<or> tbTime block \<noteq> []
        then [evidenceJSON ''crypto_transaction_block'' (blockJSON block)] else [])
     @ map (\<lambda>i. evidenceJSON ''crypto_transaction_input'' (inputJSON i)) ins
     @ map (\<lambda>r. evidenceJSON ''crypto_transaction_output'' (outputJSON r)) outs
     @ map (\<lambda>k. evidenceJSON ''crypto_transaction_address_observed'' (addressJSON k (the (map_of addresses k))))
         (sort (map fst addresses))"

text \<open>The decoded transaction to its projections.\<close>

record parsedTx =
  ptSummary :: transactionSummary
  ptConfirmed :: bool
  ptBlock :: transactionBlock
  ptInputs :: "transactionInput list"
  ptOutputs :: "transactionOutput list"
  ptAddresses :: "(string \<times> bool \<times> bool) list"

definition validateTransaction :: "(string \<Rightarrow> string) \<Rightarrow> (string \<Rightarrow> string) \<Rightarrow> string \<Rightarrow> transactionWire \<Rightarrow> failure + parsedTx" where
  "validateTransaction uniL uniU expected w0 =
     (let w = w0\<lparr>wtID := toLower uniL (wtID w0)\<rparr> in
      failIf (headerBad uniL expected w) invalidResponse
      (andThen (statusBlock uniL (the (wtStatus w))) (\<lambda>block.
        andThen (inputLoop uniL uniU w 0 (wtInputs w) newTxAcc) (\<lambda>a.
          andThen (outputLoop uniL uniU 0 (wtOutputs w) 0 (acAddresses a) []) (\<lambda>(outputTotal, addresses, outs).
            andThen (balance w a outputTotal) (\<lambda>(inputTotal, feeCheck).
              Inr \<lparr>ptSummary =
                     \<lparr>tsID = wtID w, tsVersion = the (wtVersion w), tsLocktime = the (wtLocktime w),
                      tsSize = the (wtSize w), tsWeight = the (wtWeight w), tsFee = wtFee w,
                      tsInputCount = int (length (wtInputs w)), tsOutputCount = int (length (wtOutputs w)),
                      tsCoinbase = acCoinbase a, tsInputValuesComplete = acComplete a, tsInputTotal = inputTotal,
                      tsOutputTotal = outputTotal, tsFeeCheck = feeCheck\<rparr>,
                   ptConfirmed = the (wsConfirmed (the (wtStatus w))), ptBlock = block, ptInputs = acInputs a,
                   ptOutputs = outs, ptAddresses = addresses\<rparr>))))))"

definition parseTransaction :: "(string \<Rightarrow> string) \<Rightarrow> (string \<Rightarrow> string) \<Rightarrow> (string \<Rightarrow> token list)
    \<Rightarrow> (string \<Rightarrow> (transactionWire \<times> wireField list) option) \<Rightarrow> string \<Rightarrow> string \<Rightarrow> failure + Evidence list" where
  "parseTransaction uniL uniU tokens decode raw expected =
     failIf (length raw > MaxResponseBytes) (failureKind ''response_too_large'')
     (failIf (\<not> utf8Valid raw \<or> \<not> validTxID uniL expected) invalidResponse
     (case checkTransactionJSON (tokens raw) of
        Some e \<Rightarrow> Inl e
      | None \<Rightarrow>
          andThen (unmarshalTransaction (decode raw)) (\<lambda>w.
            andThen (validateTransaction uniL uniU expected w) (\<lambda>p.
               Inr (transactionEvidence (ptSummary p) (ptConfirmed p) (ptBlock p) (ptInputs p) (ptOutputs p) (ptAddresses p))))))"

section \<open>Conservation\<close>

definition prevValue :: "transactionInput \<Rightarrow> int" where
  "prevValue i = (case tiPreviousValue i of Some v \<Rightarrow> v | None \<Rightarrow> 0)"

definition reference :: "transactionInput \<Rightarrow> string" where
  "reference i = tiPreviousID i @ '':'' @ itoa (the (tiPreviousVout i))"

lemma checked_total:
  "checkedValue tot v = Inr t \<Longrightarrow> 0 \<le> tot \<Longrightarrow> t = tot + v \<and> 0 \<le> v \<and> 0 \<le> t \<and> t \<le> maxMoney"
  by (auto simp: checkedValue_def split: if_splits)

text \<open>What the accumulator says of the inputs read so far.\<close>

definition inputsOK :: "nat \<Rightarrow> txAcc \<Rightarrow> bool" where
  "inputsOK i a \<longleftrightarrow> length (acInputs a) = i \<and> acInputTotal a = sum_list (map prevValue (acInputs a))
     \<and> 0 \<le> acInputTotal a \<and> acInputTotal a \<le> maxMoney
     \<and> map reference (filter (\<lambda>i. \<not> tiCoinbase i) (acInputs a)) = rev (acReferences a) \<and> distinct (acReferences a)
     \<and> (acComplete a \<longrightarrow> (\<forall>i \<in> set (acInputs a). tiPreviousValue i \<noteq> None))"

text \<open>One more item, with its value counted.\<close>

definition counted :: "transactionInput \<Rightarrow> txAcc \<Rightarrow> txAcc \<Rightarrow> bool" where
  "counted item a a' \<longleftrightarrow> acInputs a' = acInputs a \<and> acInputTotal a' = acInputTotal a + prevValue item
     \<and> 0 \<le> acInputTotal a' \<and> acInputTotal a' \<le> maxMoney
     \<and> (acComplete a' \<longrightarrow> acComplete a \<and> tiPreviousValue item \<noteq> None)"

lemma previousOutput_Inr:
  assumes p: "previousOutput uniL uniU prev item a = Inr (item', a')" and z: "0 \<le> acInputTotal a" "acInputTotal a \<le> maxMoney"
    and n: "tiPreviousValue item = None"
  shows "reference item' = reference item \<and> tiCoinbase item' = tiCoinbase item \<and> acReferences a' = acReferences a
    \<and> counted item' a a'"
proof -
  obtain address where "txAddress uniL uniU (woAddress prev) = Inr address" using p by (auto simp: previousOutput_def res_simps)
  note p' = p [unfolded previousOutput_def this]
  show ?thesis
  proof (cases "woValue prev")
    case None
    then show ?thesis using p' z n by (auto simp: res_simps Let_def counted_def reference_def prevValue_def)
  next
    case (Some v)
    then obtain t where t: "checkedValue (acInputTotal a) v = Inr t" using p' by (auto simp: res_simps Let_def)
    show ?thesis using p' Some t checked_total [OF t z(1)]
      by (auto simp: res_simps Let_def counted_def reference_def prevValue_def)
  qed
qed

lemma spendInput_Inr:
  assumes s: "spendInput uniL uniU inp item a = Inr (item', a')" and z: "0 \<le> acInputTotal a" "acInputTotal a \<le> maxMoney"
    and n: "tiPreviousValue item = None"
  shows "tiCoinbase item' = tiCoinbase item \<and> acReferences a' = reference item' # acReferences a
    \<and> reference item' \<notin> set (acReferences a) \<and> counted item' a a'"
proof -
  define txid where "txid = toLower uniL (wiID inp)"
  define ref where "ref = txid @ '':'' @ itoa (the (wiVout inp))"
  define b where "b = a\<lparr>acReferences := ref # acReferences a\<rparr>"
  define it where "it = item\<lparr>tiPreviousID := txid, tiPreviousVout := wiVout inp\<rparr>"
  have r: "reference it = ref" by (simp add: reference_def it_def ref_def)
  have fresh: "ref \<notin> set (acReferences a)"
    and rest: "(case wiPrevout inp of None \<Rightarrow> Inr (it, b\<lparr>acComplete := False\<rparr>) | Some prev \<Rightarrow> previousOutput uniL uniU prev it b)
      = Inr (item', a')"
    using s unfolding spendInput_def Let_def res_simps txid_def ref_def b_def it_def by blast+
  show ?thesis
  proof (cases "wiPrevout inp")
    case None
    then have "item' = it" "a' = b\<lparr>acComplete := False\<rparr>" using rest by auto
    then show ?thesis using fresh r n z by (simp add: counted_def b_def it_def prevValue_def)
  next
    case (Some prev)
    then have "previousOutput uniL uniU prev it b = Inr (item', a')" using rest by simp
    then have "reference item' = ref \<and> tiCoinbase item' = tiCoinbase item \<and> acReferences a' = ref # acReferences a \<and> counted item' b a'"
      using previousOutput_Inr [of uniL uniU prev it b item' a'] z n r by (simp add: b_def it_def)
    then show ?thesis using fresh by (simp add: counted_def b_def)
  qed
qed

lemma inputStep_OK:
  assumes step: "inputStep uniL uniU w i inp a = Inr a'" and ok: "inputsOK i a"
  shows "inputsOK (Suc i) a'"
proof -
  obtain cb where cb: "wiCoinbase inp = Some cb" using step by (auto simp: inputStep_def split: option.splits)
  define item where "item = \<lparr>tiIndex = int i, tiCoinbase = cb, tiPreviousID = [], tiPreviousVout = None,
      tiPreviousValue = None, tiPreviousAddress = [], tiPreviousScriptType = []\<rparr>"
  have z: "0 \<le> acInputTotal a" "acInputTotal a \<le> maxMoney" using ok by (auto simp: inputsOK_def)
  show ?thesis
  proof (cases cb)
    case True
    then obtain b where b: "coinbaseInput w inp a = Inr b" "a' = b\<lparr>acInputs := acInputs b @ [item]\<rparr>"
      using step cb by (auto simp: inputStep_def Let_def res_simps item_def)
    then have "b = a\<lparr>acCoinbase := True, acComplete := False, acFeeCheck := ''not_applicable''\<rparr>"
      by (auto simp: coinbaseInput_def res_simps)
    then show ?thesis using ok b(2) True by (simp add: inputsOK_def item_def prevValue_def)
  next
    case False
    then obtain it b where b: "spendInput uniL uniU inp item a = Inr (it, b)" "a' = b\<lparr>acInputs := acInputs b @ [it]\<rparr>"
      using step cb by (auto simp: inputStep_def Let_def res_simps item_def)
    have n: "tiPreviousValue item = None" by (simp add: item_def)
    note s = spendInput_Inr [OF b(1) z n]
    have "\<not> tiCoinbase it" using s False by (simp add: item_def)
    then show ?thesis using ok b(2) s by (auto simp: inputsOK_def counted_def)
  qed
qed

lemma inputLoop_OK:
  "inputLoop uniL uniU w i ins a = Inr a' \<Longrightarrow> inputsOK i a \<Longrightarrow> inputsOK (i + length ins) a'"
proof (induction uniL uniU w i ins a rule: inputLoop.induct)
  case (1 uniL uniU w i a)
  then show ?case by simp
next
  case (2 uniL uniU w i inp ins a)
  then obtain b where b: "inputStep uniL uniU w i inp a = Inr b" "inputLoop uniL uniU w (Suc i) ins b = Inr a'"
    by (auto simp: res_simps)
  then show ?case using 2 inputStep_OK [OF b(1)] by simp
qed

lemma outputLoop_OK:
  "outputLoop uniL uniU i ws tot m outs = Inr (t, m', outs') \<Longrightarrow> 0 \<le> tot \<Longrightarrow> tot \<le> maxMoney
   \<Longrightarrow> tot = sum_list (map toValue outs)
   \<Longrightarrow> t = sum_list (map toValue outs') \<and> 0 \<le> t \<and> t \<le> maxMoney \<and> length outs' = length outs + length ws"
proof (induction uniL uniU i ws tot m outs rule: outputLoop.induct)
  case (1 uniL uniU i tot m outs)
  then show ?case by auto
next
  case (2 uniL uniU i w ws tot m outs)
  obtain v where v: "woValue w = Some v" using 2(2) by (auto split: option.splits)
  obtain s address where s: "scriptTypeValid (woScriptType w)" "checkedValue tot v = Inr s"
      "txAddress uniL uniU (woAddress w) = Inr address"
      "outputLoop uniL uniU (Suc i) ws s (observe address False m)
         (outs @ [\<lparr>toIndex = int i, toValue = v, toAddress = address, toScriptType = woScriptType w\<rparr>]) = Inr (t, m', outs')"
    using 2(2) v by (auto simp: res_simps)
  then show ?case using 2(1) [OF v _ ] 2(3-5) checked_total [OF s(2)] s by (auto simp: v)
qed

text \<open>The money of an accepted transaction.\<close>

definition conserved :: "parsedTx \<Rightarrow> bool" where
  "conserved p \<longleftrightarrow>
     tsOutputTotal (ptSummary p) = sum_list (map toValue (ptOutputs p))
   \<and> 0 \<le> tsOutputTotal (ptSummary p) \<and> tsOutputTotal (ptSummary p) \<le> maxMoney
   \<and> (case tsInputTotal (ptSummary p) of
        None \<Rightarrow> True
      | Some t \<Rightarrow> t = sum_list (map prevValue (ptInputs p)) \<and> (\<forall>i \<in> set (ptInputs p). tiPreviousValue i \<noteq> None)
          \<and> tsOutputTotal (ptSummary p) \<le> t \<and> t \<le> maxMoney
          \<and> (case tsFee (ptSummary p) of None \<Rightarrow> True | Some f \<Rightarrow> f = t - tsOutputTotal (ptSummary p)))
   \<and> distinct (map reference (filter (\<lambda>i. \<not> tiCoinbase i) (ptInputs p)))
   \<and> tsInputCount (ptSummary p) = int (length (ptInputs p)) \<and> tsOutputCount (ptSummary p) = int (length (ptOutputs p))"

lemma balance_Inr:
  assumes "balance w a tot = Inr (it, fc)"
  shows "it = None \<or> it = Some (acInputTotal a) \<and> acComplete a \<and> tot \<le> acInputTotal a
    \<and> (wtFee w = None \<or> wtFee w = Some (acInputTotal a - tot))"
  using assms by (auto simp: balance_def res_simps split: if_splits option.splits)

lemma validate_conserved:
  assumes "validateTransaction uniL uniU expected w0 = Inr p"
  shows "conserved p"
proof -
  define w where "w = w0\<lparr>wtID := toLower uniL (wtID w0)\<rparr>"
  from assms obtain block a tot m outs it fc where
    a: "inputLoop uniL uniU w 0 (wtInputs w) newTxAcc = Inr a" and
    outs: "outputLoop uniL uniU 0 (wtOutputs w) 0 (acAddresses a) [] = Inr (tot, m, outs)" and
    bal: "balance w a tot = Inr (it, fc)" and
    p: "ptSummary p = \<lparr>tsID = wtID w, tsVersion = the (wtVersion w), tsLocktime = the (wtLocktime w),
          tsSize = the (wtSize w), tsWeight = the (wtWeight w), tsFee = wtFee w,
          tsInputCount = int (length (wtInputs w)), tsOutputCount = int (length (wtOutputs w)),
          tsCoinbase = acCoinbase a, tsInputValuesComplete = acComplete a, tsInputTotal = it,
          tsOutputTotal = tot, tsFeeCheck = fc\<rparr>" "ptInputs p = acInputs a" "ptOutputs p = outs"
    unfolding validateTransaction_def w_def [symmetric] by (auto simp: res_simps Let_def)
  have "inputsOK 0 newTxAcc" by (simp add: inputsOK_def newTxAcc_def maxMoney_def)
  from inputLoop_OK [OF a this] have ok: "inputsOK (length (wtInputs w)) a" by simp
  have mm: "(0 :: int) \<le> maxMoney" by (simp add: maxMoney_def)
  have o': "tot = sum_list (map toValue outs)" "0 \<le> tot" "tot \<le> maxMoney" "length outs = length (wtOutputs w)"
    using outputLoop_OK [OF outs _ mm] by auto
  have "distinct (map reference (filter (\<lambda>i. \<not> tiCoinbase i) (acInputs a)))" using ok by (simp add: inputsOK_def)
  then show ?thesis using ok o' balance_Inr [OF bal] by (auto simp: conserved_def p inputsOK_def)
qed

section \<open>Property\<close>

text \<open>C16: an accepted transaction conserves money: its output total is the exact sum of its outputs, between 0
  and the money supply; an input total is given only when every previous value is known, is then their exact sum,
  covers the outputs, and a stated fee is exactly the difference; and no previous output is spent twice.\<close>

theorem transaction_conserved:
  assumes "validateTransaction uniL uniU expected w = Inr p"
  shows "tsOutputTotal (ptSummary p) = sum_list (map toValue (ptOutputs p))
    \<and> 0 \<le> tsOutputTotal (ptSummary p) \<and> tsOutputTotal (ptSummary p) \<le> maxMoney
    \<and> (tsInputTotal (ptSummary p) = Some t \<longrightarrow>
         t = sum_list (map prevValue (ptInputs p)) \<and> tsOutputTotal (ptSummary p) \<le> t \<and> t \<le> maxMoney
         \<and> (\<forall>i \<in> set (ptInputs p). tiPreviousValue i \<noteq> None)
         \<and> (\<forall>f. tsFee (ptSummary p) = Some f \<longrightarrow> f = t - tsOutputTotal (ptSummary p)))
    \<and> distinct (map reference (filter (\<lambda>i. \<not> tiCoinbase i) (ptInputs p)))"
  using validate_conserved [OF assms] by (auto simp: conserved_def)

definition demoTxID :: string where "demoTxID = replicate 64 CHR ''1''"

definition demoWire :: transactionWire where
  "demoWire = \<lparr>wtID = demoTxID, wtVersion = Some 2, wtLocktime = Some 0, wtSize = Some 100, wtWeight = Some 400,
     wtFee = Some 3,
     wtInputs = [\<lparr>wiID = demoTxID, wiVout = Some 1, wiCoinbase = Some False,
       wiPrevout = Some \<lparr>woValue = Some 10, woAddress = [], woScriptType = []\<rparr>\<rparr>],
     wtOutputs = [\<lparr>woValue = Some 7, woAddress = [], woScriptType = []\<rparr>],
     wtStatus = Some \<lparr>wsConfirmed = Some False, wsHeight = None, wsHash = [], wsTime = None\<rparr>\<rparr>"

lemma hexDecode_ones: "hexDecode (replicate (2 * n) 0x31) = (replicate n 0x11, True)"
proof (induction n)
  case (Suc n)
  have "push_bit 4 (1 :: byte) OR 1 = 0x11" by simp
  then show ?case using Suc by (simp add: fromHex_def)
qed simp

lemma demoTxID_facts: "toLower uni demoTxID = demoTxID" "validTxID uni demoTxID" "demoTxID \<noteq> zeroTxID"
proof -
  have "isAsciiC CHR ''1''" "lowerC CHR ''1'' = CHR ''1''" by (simp_all add: isAsciiC_def lowerC_def isUpperC_def byteVal_def)
  then show l: "toLower uni demoTxID = demoTxID" by (simp add: toLower_def demoTxID_def)
  have "bytesOf demoTxID = replicate (2 * 32) 0x31" by (simp add: bytesOf_def demoTxID_def)
  then have "snd (decodeString demoTxID)" using hexDecode_ones [of 32] by (simp add: decodeString_def)
  then show "validTxID uni demoTxID" by (simp add: validTxID_def l) (simp add: demoTxID_def)
  have "hd demoTxID \<noteq> hd zeroTxID" by (simp add: demoTxID_def zeroTxID_def)
  then show "demoTxID \<noteq> zeroTxID" by metis
qed

lemma toLower_nil: "toLower uni [] = []"
  by (simp add: toLower_def)

lemma demo_validate: "\<exists>p. validateTransaction id id demoTxID demoWire = Inr p \<and> tsInputTotal (ptSummary p) = Some 10
    \<and> ptOutputs p = [\<lparr>toIndex = 0, toValue = 7, toAddress = [], toScriptType = []\<rparr>]"
  by (simp add: validateTransaction_def Let_def demoWire_def demoTxID_facts headerBad_def outside_def maxMoney_def
      statusBlock_def toLower_nil inputStep_def spendInput_def previousOutput_def txAddress_def scriptTypeValid_def
      checkedValue_def observe_def newTxAcc_def balance_def)

theorem transaction_conserved_witness:
  "\<exists>p. validateTransaction id id demoTxID demoWire = Inr p \<and> tsOutputTotal (ptSummary p) = 7"
proof -
  obtain p where p: "validateTransaction id id demoTxID demoWire = Inr p"
      "ptOutputs p = [\<lparr>toIndex = 0, toValue = 7, toAddress = [], toScriptType = []\<rparr>]" using demo_validate by blast
  then show ?thesis using transaction_conserved [OF p(1)] by simp
qed

end
