(* ===== verification/HttpExchange.thy ===== *)
theory HttpExchange
  imports Diagnostics "HOL-Library.AList"
begin

text \<open>
  What the clients of the providers see of \<open>net/http\<close>: the reply to one request, whose body is the bytes that arrive and
  the error of the read after them, or the failure to send it.
\<close>

record httpReply =
  rpStatus :: int
  rpRetryAfter :: string
  rpBody :: string
  rpReadErr :: "goError option"

datatype exchange = BadRequest | NoReply goError | Reply httpReply

definition isDeadline :: "goError option \<Rightarrow> bool" where
  "isDeadline e \<longleftrightarrow> (case e of None \<Rightarrow> False | Some x \<Rightarrow> eDeadline x)"

definition isCanceled :: "goError option \<Rightarrow> bool" where
  "isCanceled e \<longleftrightarrow> (case e of None \<Rightarrow> False | Some x \<Rightarrow> eCanceled x)"

text \<open>\<open>io.ReadAll(io.LimitReader(body, n))\<close>\<close>

definition readBody :: "nat \<Rightarrow> httpReply \<Rightarrow> goError + string" where
  "readBody n r =
     (case rpReadErr r of
        Some e \<Rightarrow> if length (rpBody r) < n then Inl e else Inr (take n (rpBody r))
      | None \<Rightarrow> Inr (take n (rpBody r)))"

definition boolText :: "bool \<Rightarrow> string" where
  "boolText b = (if b then ''true'' else ''false'')"

text \<open>A field of a row's metadata.\<close>

definition setMeta :: "string \<Rightarrow> string \<Rightarrow> Result \<Rightarrow> Result" where
  "setMeta k v r = r\<lparr>rMetadata := AList.update k v (rMetadata r)\<rparr>"

end
