(* ===== verification/BitcoinClient.thy ===== *)
theory BitcoinClient
  imports BitcoinTx Sources RateLimit HttpExchange
begin

text \<open>
  The bounded Esplora client (\<open>src/internal/sources/bitcoin/client.go\<close>).  The transport is an argument: for
  every request it says how the wait for the limiter ended, what the exchange gave and the state of the context
  afterwards.  \<open>json.Unmarshal\<close> and \<open>http.ParseTime\<close> are arguments too.  A response body is the bytes that
  arrive and the error of the read after them, if any.  Durations are nanoseconds.
\<close>

section \<open>Failures\<close>

definition failureError :: "failure \<Rightarrow> string" where
  "failureError e = ''Bitcoin lookup failed ('' @ fKind e @ '')''"

text \<open>The error as \<open>errors.Is\<close> sees it through \<open>Unwrap\<close>.\<close>

definition failureGo :: "failure \<Rightarrow> goError" where
  "failureGo e = \<lparr>eText = failureError e, eCanceled = (fKind e = ''cancelled''), eDeadline = (fKind e = ''timeout'')\<rparr>"

definition requestFailure :: "(goError \<Rightarrow> bool) \<Rightarrow> goError option \<Rightarrow> goError \<Rightarrow> failure" where
  "requestFailure timedOut ctxErr err =
     (if isDeadline ctxErr \<or> eDeadline err then failureKind ''timeout''
      else if isCanceled ctxErr \<or> eCanceled err then failureKind ''cancelled''
      else if timedOut err then failureKind ''timeout''
      else failureKind ''network_failure'')"

section \<open>Exchanges\<close>

record attempt =
  atWait :: "goError option"
  atExchange :: exchange
  atCtx :: "goError option"
  atNow :: int

record clientEnv =
  ceNet :: "nat \<Rightarrow> string \<Rightarrow> attempt"
  ceTimedOut :: "goError \<Rightarrow> bool"
  ceParseTime :: "string \<Rightarrow> int option"
  ceHost :: "string \<Rightarrow> string option"
  ceBase :: string

record client =
  clRequests :: nat
  clLimiter :: limiter

definition MaxRequests :: nat where "MaxRequests = 6"
definition TransactionMaxRequests :: nat where "TransactionMaxRequests = 1"

definition second :: int where "second = 1000000000"

definition retryDelay :: "(string \<Rightarrow> int option) \<Rightarrow> int \<Rightarrow> string \<Rightarrow> int" where
  "retryDelay parseTime now h =
     (case parseUint32 h of
        Some n \<Rightarrow> int (min n 86400) * second
      | None \<Rightarrow> (case parseTime h of
            Some t \<Rightarrow> min (max (t - now) 0) (86400 * second)
          | None \<Rightarrow> 60 * second))"

text \<open>The failure of a response whose status is not 200.\<close>

definition httpFailure :: "clientEnv \<Rightarrow> string \<Rightarrow> string \<Rightarrow> attempt \<Rightarrow> httpReply \<Rightarrow> client \<Rightarrow> failure \<times> client" where
  "httpFailure env endpoint notFoundBody a r cl =
     (let e = (failureKind ''http_error'')\<lparr>fStatus := rpStatus r\<rparr>;
          kept = (if rpStatus r = 404 \<and> notFoundBody \<noteq> [] then
                    (case readBody 65 r of
                       Inl err \<Rightarrow> Inl (requestFailure (ceTimedOut env) (atCtx a) err)
                     | Inr raw \<Rightarrow> Inr (if length raw \<le> 64 \<and> trimSpace raw = notFoundBody then e\<lparr>fKind := ''not_found''\<rparr> else e))
                  else Inr e)
      in case kept of
           Inl f \<Rightarrow> (f, cl)
         | Inr e \<Rightarrow>
             if rpStatus r = 429 \<or> rpStatus r = 503 then
               (let delay = retryDelay (ceParseTime env) (atNow a) (rpRetryAfter r);
                    e = (if rpStatus r = 429 then e\<lparr>fKind := ''rate_limited''\<rparr> else e)
                in (e\<lparr>fRetry := nat ((delay + second - 1) div second)\<rparr>,
                    cl\<lparr>clLimiter := Defer (ceHost env) (atNow a) endpoint delay (clLimiter cl)\<rparr>))
             else (e, cl))"

definition getBounded :: "clientEnv \<Rightarrow> (string \<Rightarrow> 'a option) \<Rightarrow> string \<Rightarrow> nat \<Rightarrow> string \<Rightarrow> client \<Rightarrow> (failure + 'a) \<times> client" where
  "getBounded env decode path maxRequests notFoundBody cl =
     (if clRequests cl \<ge> maxRequests then (Inl (failureKind ''request_limit''), cl)
      else let endpoint = ceBase env @ path; a = ceNet env (clRequests cl) endpoint;
               failed = requestFailure (ceTimedOut env) (atCtx a)
      in case atWait a of
           Some err \<Rightarrow> (Inl (failed err), cl)
         | None \<Rightarrow>
             (case atExchange a of
                BadRequest \<Rightarrow> (Inl (failureKind ''bad_request''), cl)
              | NoReply err \<Rightarrow> (Inl (failed err), cl\<lparr>clRequests := clRequests cl + 1\<rparr>)
              | Reply r \<Rightarrow>
                  (let cl = cl\<lparr>clRequests := clRequests cl + 1\<rparr> in
                   if rpStatus r \<noteq> 200 then
                     (let (e, cl) = httpFailure env endpoint notFoundBody a r cl in (Inl e, cl))
                   else (case readBody (MaxResponseBytes + 1) r of
                           Inl err \<Rightarrow> (Inl (failed err), cl)
                         | Inr raw \<Rightarrow>
                             (if length raw > MaxResponseBytes then Inl (failureKind ''response_too_large'')
                              else case atCtx a of
                                     Some err \<Rightarrow> Inl (failed err)
                                   | None \<Rightarrow>
                                       if \<not> utf8Valid raw \<or> length (trimSpace raw) = 0 then Inl invalidResponse
                                       else (case decode raw of None \<Rightarrow> Inl invalidResponse | Some v \<Rightarrow> Inr v), cl)))))"

definition getJSON :: "clientEnv \<Rightarrow> (string \<Rightarrow> 'a option) \<Rightarrow> string \<Rightarrow> client \<Rightarrow> (failure + 'a) \<times> client" where
  "getJSON env decode path cl = getBounded env decode path MaxRequests [] cl"

section \<open>Facts\<close>

lemma httpFailure_requests: "httpFailure env ep nf a r cl = (e, cl') \<Longrightarrow> clRequests cl' = clRequests cl"
  by (auto simp: httpFailure_def Let_def split: if_splits sum.splits)

lemma getBounded_requests:
  "getBounded env decode path mx nf cl = (r, cl') \<Longrightarrow> clRequests cl' \<le> max (clRequests cl) mx \<and> clRequests cl \<le> clRequests cl'"
  by (auto simp: getBounded_def Let_def max_def split: if_splits option.splits exchange.splits sum.splits prod.splits
      dest!: httpFailure_requests)

text \<open>A \<open>not_found\<close> is a 404 whose whole body is the documented text.\<close>

lemma requestFailure_kind: "fKind (requestFailure t c e) \<in> {''timeout'', ''cancelled'', ''network_failure''}"
  by (auto simp: requestFailure_def failureKind_def)

lemma httpFailure_not_found:
  assumes "httpFailure env ep nf a r cl = (e, cl')" and "fKind e = ''not_found''"
  shows "rpStatus r = 404 \<and> nf \<noteq> [] \<and> trimSpace (rpBody r) = nf \<and> length (rpBody r) \<le> 64"
proof (cases "rpStatus r = 404 \<and> nf \<noteq> []")
  case False
  then show ?thesis using assms by (auto simp: httpFailure_def Let_def failureKind_def split: if_splits)
next
  case True
  show ?thesis
  proof (cases "readBody 65 r")
    case (Inl err)
    then show ?thesis using True assms requestFailure_kind [of "ceTimedOut env" "atCtx a" err]
      by (auto simp: httpFailure_def Let_def)
  next
    case (Inr raw)
    then have raw: "raw = take 65 (rpBody r)" by (auto simp: readBody_def split: option.splits if_splits)
    have "length raw \<le> 64 \<and> trimSpace raw = nf"
      using True assms Inr by (auto simp: httpFailure_def Let_def failureKind_def split: if_splits)
    moreover have "take 65 (rpBody r) = rpBody r" if "length (take 65 (rpBody r)) \<le> 64" using that by (simp add: min_def split: if_splits)
    ultimately show ?thesis using True raw by metis
  qed
qed

lemma getBounded_not_found:
  assumes "getBounded env decode path mx nf cl = (Inl e, cl')" and "fKind e = ''not_found''"
  shows "\<exists>r. atExchange (ceNet env (clRequests cl) (ceBase env @ path)) = Reply r \<and> rpStatus r = 404 \<and> trimSpace (rpBody r) = nf"
proof -
  define a where "a = ceNet env (clRequests cl) (ceBase env @ path)"
  define c1 where "c1 = cl\<lparr>clRequests := clRequests cl + 1\<rparr>"
  have rk: "fKind (requestFailure t c x) \<noteq> ''not_found''" for t c x using requestFailure_kind [of t c x] by auto
  have nk: "fKind (failureKind k) = k" for k by (simp add: failureKind_def)
  have ik: "fKind invalidResponse \<noteq> ''not_found''" by (simp add: invalidResponse_def nk)
  obtain r where r: "atExchange a = Reply r" "atWait a = None" "\<not> clRequests cl \<ge> mx"
    using assms rk by (auto simp: getBounded_def Let_def a_def nk split: if_splits option.splits exchange.splits)
  show ?thesis
  proof (cases "rpStatus r = 200")
    case True
    then show ?thesis using assms r rk ik
      by (auto simp: getBounded_def Let_def a_def nk split: if_splits option.splits sum.splits)
  next
    case False
    then have "httpFailure env (ceBase env @ path) nf a r c1 = (e, cl')"
      using assms r by (auto simp: getBounded_def Let_def a_def c1_def split: prod.splits)
    then show ?thesis using httpFailure_not_found assms(2) r(1) unfolding a_def by blast
  qed
qed

end
