(* ===== verification/GoSort.thy ===== *)
theory GoSort
  imports GoBase "HOL-Library.Multiset"
begin

text \<open>
  \<open>sort.Slice\<close> with a comparison function, as an insertion sort.  Go's sort is not stable; where the
  comparison is a strict total order on the elements every sort gives the same list, which
  \<open>sortBy_unique\<close> states.
\<close>

fun insertBy :: "('a \<Rightarrow> 'a \<Rightarrow> bool) \<Rightarrow> 'a \<Rightarrow> 'a list \<Rightarrow> 'a list" where
  "insertBy lt x [] = [x]"
| "insertBy lt x (y # ys) = (if lt y x then y # insertBy lt x ys else x # y # ys)"

definition sortBy :: "('a \<Rightarrow> 'a \<Rightarrow> bool) \<Rightarrow> 'a list \<Rightarrow> 'a list" where
  "sortBy lt xs = foldr (insertBy lt) xs []"

lemma sortBy_simps [simp]: "sortBy lt [] = []" "sortBy lt (x # xs) = insertBy lt x (sortBy lt xs)"
  by (simp_all add: sortBy_def)

lemma mset_insertBy [simp]: "mset (insertBy lt x ys) = add_mset x (mset ys)"
  by (induction ys) auto

lemma mset_sortBy [simp]: "mset (sortBy lt xs) = mset xs"
  by (induction xs) auto

lemma set_sortBy [simp]: "set (sortBy lt xs) = set xs"
  by (metis mset_sortBy set_mset_mset)

lemma length_sortBy [simp]: "length (sortBy lt xs) = length xs"
  by (metis mset_sortBy size_mset)

lemma distinct_sortBy [simp]: "distinct (sortBy lt xs) \<longleftrightarrow> distinct xs"
  by (metis mset_sortBy mset_eq_imp_distinct_iff)

text \<open>A comparison is an order on a set of elements when it is transitive, and total up to equality.\<close>

definition orderOn :: "('a \<Rightarrow> 'a \<Rightarrow> bool) \<Rightarrow> 'a set \<Rightarrow> bool" where
  "orderOn lt A \<longleftrightarrow> (\<forall>x \<in> A. \<not> lt x x) \<and> (\<forall>x \<in> A. \<forall>y \<in> A. \<forall>z \<in> A. lt x y \<longrightarrow> lt y z \<longrightarrow> lt x z)
     \<and> (\<forall>x \<in> A. \<forall>y \<in> A. lt x y \<or> x = y \<or> lt y x)"

lemma orderOn_subset: "orderOn lt A \<Longrightarrow> B \<subseteq> A \<Longrightarrow> orderOn lt B"
  unfolding orderOn_def by blast

lemma orderOn_asym: "orderOn lt A \<Longrightarrow> x \<in> A \<Longrightarrow> y \<in> A \<Longrightarrow> lt x y \<Longrightarrow> \<not> lt y x"
  unfolding orderOn_def by blast

lemma orderOn_le_trans:
  "orderOn lt A \<Longrightarrow> x \<in> A \<Longrightarrow> y \<in> A \<Longrightarrow> z \<in> A \<Longrightarrow> \<not> lt y x \<Longrightarrow> \<not> lt z y \<Longrightarrow> \<not> lt z x"
  unfolding orderOn_def by blast

lemma sorted_insertBy:
  assumes "orderOn lt (insert x (set ys))" and "sorted_wrt (\<lambda>a b. \<not> lt b a) ys"
  shows "sorted_wrt (\<lambda>a b. \<not> lt b a) (insertBy lt x ys)"
  using assms
proof (induction ys)
  case Nil
  then show ?case by simp
next
  case (Cons y ys)
  have sub: "orderOn lt (insert x (set ys))" using Cons.prems(1) by (rule orderOn_subset) auto
  have set: "set (insertBy lt x ys) = insert x (set ys)" by (metis mset_insertBy set_mset_add_mset_insert set_mset_mset)
  show ?case
  proof (cases "lt y x")
    case True
    then have "\<not> lt x y" using orderOn_asym [OF Cons.prems(1)] by auto
    then show ?thesis using True Cons.IH [OF sub] Cons.prems(2) set by auto
  next
    case False
    have "\<not> lt z x" if "z \<in> set ys" for z
      using orderOn_le_trans [OF Cons.prems(1), of x y z] False Cons.prems(2) that by auto
    then show ?thesis using False Cons.prems(2) by auto
  qed
qed

lemma sorted_sortBy: "orderOn lt (set xs) \<Longrightarrow> sorted_wrt (\<lambda>a b. \<not> lt b a) (sortBy lt xs)"
proof (induction xs)
  case Nil
  then show ?case by simp
next
  case (Cons x xs)
  have "orderOn lt (set xs)" using Cons.prems by (rule orderOn_subset) auto
  then show ?case using Cons by (simp add: sorted_insertBy)
qed

lemma sorted_wrt_unique:
  assumes "orderOn lt (set xs)" and "sorted_wrt (\<lambda>a b. \<not> lt b a) xs" and "sorted_wrt (\<lambda>a b. \<not> lt b a) ys" and "mset xs = mset ys"
  shows "xs = ys"
  using assms
proof (induction xs arbitrary: ys)
  case Nil
  then show ?case by simp
next
  case (Cons x xs)
  then obtain y ys' where ys: "ys = y # ys'" by (cases ys) auto
  have sets: "set (x # xs) = set ys" using Cons.prems(4) by (rule mset_eq_setD)
  have "x = y"
  proof (rule ccontr)
    assume "x \<noteq> y"
    then have "y \<in> set xs" "x \<in> set ys'" using sets ys by auto
    then have "\<not> lt y x" "\<not> lt x y" using Cons.prems(2,3) ys by auto
    then show False using \<open>x \<noteq> y\<close> Cons.prems(1) \<open>y \<in> set xs\<close> unfolding orderOn_def by auto
  qed
  moreover have "orderOn lt (set xs)" using Cons.prems(1) by (rule orderOn_subset) auto
  ultimately show ?case using Cons ys by simp
qed

lemma sortBy_unique:
  "orderOn lt (set xs) \<Longrightarrow> mset xs = mset ys \<Longrightarrow> sortBy lt xs = sortBy lt ys"
  using sorted_wrt_unique [of lt "sortBy lt xs" "sortBy lt ys"] sorted_sortBy [of lt xs] sorted_sortBy [of lt ys]
  by (metis mset_eq_setD mset_sortBy)

lemma sortBy_sorted: "orderOn lt (set xs) \<Longrightarrow> sorted_wrt (\<lambda>a b. \<not> lt b a) xs \<Longrightarrow> sortBy lt xs = xs"
  using sorted_wrt_unique [of lt "sortBy lt xs" xs] sorted_sortBy [of lt xs] by simp

text \<open>Comparing by a key with a linear order, and by two keys in turn.\<close>

lemma orderOn_key: "inj_on f A \<Longrightarrow> orderOn (\<lambda>a b. f a < (f b :: 'b :: linorder)) A"
  unfolding orderOn_def by (auto simp: inj_on_def dest: less_trans)

end
