(* ===== verification/BitcoinHistory.thy ===== *)
theory BitcoinHistory
  imports BitcoinClient GoSort
begin

text \<open>
  The Bitcoin address source (\<open>src/internal/sources/bitcoin/parse.go\<close>, \<open>source.go\<close>): the validation of
  the address statistics, the normalisation of one confirmed transaction from the point of view of the target,
  the paged history, and the projection to evidence.  A Go map is an association list, in the order in which a
  run visits it.  The requests go through \<open>getBounded\<close> of theory \<open>BitcoinClient\<close>; the two decoders of
  \<open>encoding/json\<close> are arguments.
\<close>

section \<open>Statistics\<close>

record chainStats =
  csCount :: "int option"
  csReceived :: "int option"
  csSent :: "int option"

record addressData =
  adAddress :: string
  adChain :: "chainStats option"

definition addressDataValid :: "(string \<Rightarrow> string) \<Rightarrow> (string \<Rightarrow> string) \<Rightarrow> string \<Rightarrow> addressData \<Rightarrow> bool" where
  "addressDataValid uniL uniU target p \<longleftrightarrow>
     (case BitcoinAddress uniL uniU (adAddress p) of
        Inl _ \<Rightarrow> False
      | Inr (address, kind) \<Rightarrow>
          address = target \<and>
          (case adChain p of None \<Rightarrow> False
           | Some c \<Rightarrow>
               (case (csCount c, csReceived c, csSent c) of
                  (Some n, Some received, Some sent) \<Rightarrow>
                    0 \<le> n \<and> n \<le> 1000000000000 \<and> 0 \<le> sent \<and> sent \<le> received \<and> received - sent \<le> maxMoney
                    \<and> (n \<noteq> 0 \<or> received = 0 \<and> sent = 0)
                | _ \<Rightarrow> False)))"

section \<open>One transaction\<close>

record wireOutput =
  outAddress :: string
  outValue :: "int option"

record wireInput =
  inCoinbase :: "bool option"
  inPrevout :: "wireOutput option"

record wireTransaction =
  wID :: string
  wInputs :: "wireInput list"
  wOutputs :: "wireOutput list"
  wStatus :: "(bool option \<times> int option) option"      \<comment> \<open>confirmed and block time\<close>

record transaction =
  txID :: string
  txTimestamp :: string
  txDirection :: string
  txValue :: int

record edge =
  egAddress :: string
  egDirection :: string
  egValue :: "int option"

record observedTransaction =
  obTx :: transaction
  obEdges :: "edge list"

definition normalizeOutput :: "(string \<Rightarrow> string) \<Rightarrow> (string \<Rightarrow> string) \<Rightarrow> wireOutput \<Rightarrow> failure + string \<times> int" where
  "normalizeOutput uniL uniU r =
     (case outValue r of
        None \<Rightarrow> Inl invalidResponse
      | Some v \<Rightarrow>
          failIf (v < 0 \<or> v > maxMoney) invalidResponse
          (if outAddress r = [] then Inr ([], v)
           else case BitcoinAddress uniL uniU (outAddress r) of
                  Inl _ \<Rightarrow> Inl invalidResponse
                | Inr (address, _) \<Rightarrow> Inr (address, v)))"

text \<open>\<open>m[k] += v\<close>\<close>

definition addTo :: "string \<Rightarrow> int \<Rightarrow> (string \<times> int) list \<Rightarrow> (string \<times> int) list" where
  "addTo k v m = AList.update k ((case map_of m k of Some x \<Rightarrow> x | None \<Rightarrow> 0) + v) m"

definition amountOf :: "(string \<times> int) list \<Rightarrow> string \<Rightarrow> int" where
  "amountOf m k = (case map_of m k of Some x \<Rightarrow> x | None \<Rightarrow> 0)"

record flows =
  flIn :: "(string \<times> int) list"
  flInSum :: int
  flCoinbase :: bool
  flUnknown :: bool

fun inputFlows :: "(string \<Rightarrow> string) \<Rightarrow> (string \<Rightarrow> string) \<Rightarrow> nat \<Rightarrow> wireInput list \<Rightarrow> flows \<Rightarrow> failure + flows" where
  "inputFlows uniL uniU n [] f = Inr f"
| "inputFlows uniL uniU n (v # vs) f =
     (case inCoinbase v of
        None \<Rightarrow> Inl invalidResponse
      | Some True \<Rightarrow>
          failIf (n \<noteq> 1 \<or> inPrevout v \<noteq> None) invalidResponse (inputFlows uniL uniU n vs (f\<lparr>flCoinbase := True\<rparr>))
      | Some False \<Rightarrow>
          (case inPrevout v of
             None \<Rightarrow> Inl invalidResponse
           | Some r \<Rightarrow> andThen (normalizeOutput uniL uniU r) (\<lambda>(address, value).
               failIf (flInSum f > maxMoney - value) invalidResponse
               (let f = f\<lparr>flInSum := flInSum f + value\<rparr>
                in inputFlows uniL uniU n vs
                     (if address = [] then f\<lparr>flUnknown := True\<rparr> else f\<lparr>flIn := addTo address value (flIn f)\<rparr>)))))"

fun outputFlows :: "(string \<Rightarrow> string) \<Rightarrow> (string \<Rightarrow> string) \<Rightarrow> wireOutput list \<Rightarrow> (string \<times> int) list \<Rightarrow> int
    \<Rightarrow> failure + (string \<times> int) list \<times> int" where
  "outputFlows uniL uniU [] m tot = Inr (m, tot)"
| "outputFlows uniL uniU (v # vs) m tot =
     andThen (normalizeOutput uniL uniU v) (\<lambda>(address, value).
       failIf (tot > maxMoney - value) invalidResponse
       (outputFlows uniL uniU vs (if address \<noteq> [] then addTo address value m else m) (tot + value)))"

definition edgeLess :: "edge \<Rightarrow> edge \<Rightarrow> bool" where
  "edgeLess a b \<longleftrightarrow> egAddress a < egAddress b"

definition edgesOf :: "string \<Rightarrow> flows \<Rightarrow> (string \<times> int) list \<Rightarrow> edge list" where
  "edgesOf target f outs =
     (let hasIn = map_of (flIn f) target \<noteq> None; hasOut = map_of outs target \<noteq> None;
          others = (\<lambda>m. filter (\<lambda>(k, _). k \<noteq> target) m);
          plain = map (\<lambda>(k, v). \<lparr>egAddress = k, egDirection = ''cooccurrence'', egValue = None\<rparr>)
      in if length (flIn f) = 1 \<and> \<not> flUnknown f \<and> \<not> flCoinbase f then
           (let source = fst (hd (flIn f)) in
            if source = target then
              map (\<lambda>(k, v). \<lparr>egAddress = k, egDirection = ''outbound'', egValue = Some v\<rparr>) (others outs)
            else if hasOut then [\<lparr>egAddress = source, egDirection = ''inbound'', egValue = Some (amountOf outs target)\<rparr>]
            else [])
         else if \<not> flCoinbase f then
           (let a = (if hasOut then others (flIn f) else []);
                b = (if hasIn then filter (\<lambda>(k, _). map_of a k = None) (others outs) else [])
            in plain (a @ b))
         else [])"

definition normalizeTransaction :: "(string \<Rightarrow> string) \<Rightarrow> (string \<Rightarrow> string) \<Rightarrow> wireTransaction \<Rightarrow> string
    \<Rightarrow> failure + observedTransaction" where
  "normalizeTransaction uniL uniU w target =
     failIf (\<not> validTxID uniL (wID w) \<or> (case wStatus w of Some (Some True, _) \<Rightarrow> False | _ \<Rightarrow> True)
         \<or> wInputs w = [] \<or> length (wInputs w) > MaxTransactionIO
         \<or> wOutputs w = [] \<or> length (wOutputs w) > MaxTransactionIO) invalidResponse
     (let time = snd (the (wStatus w)) in
      failIf (outside 1231006505 253402300799 time) invalidResponse
      (andThen (inputFlows uniL uniU (length (wInputs w)) (wInputs w)
                 \<lparr>flIn = [], flInSum = 0, flCoinbase = False, flUnknown = False\<rparr>) (\<lambda>f.
        andThen (outputFlows uniL uniU (wOutputs w) [] 0) (\<lambda>(outs, outputSum).
          failIf (\<not> flCoinbase f \<and> outputSum > flInSum f) invalidResponse
          (failIf (map_of (flIn f) target = None \<and> map_of outs target = None) invalidResponse
          (let delta = amountOf outs target - amountOf (flIn f) target;
               tx = \<lparr>txID = wID w, txTimestamp = (case time of None \<Rightarrow> [] | Some t \<Rightarrow> rfc3339 t),
                     txDirection = (if delta > 0 then ''inbound'' else if delta < 0 then ''outbound'' else ''self''),
                     txValue = (if delta < 0 then - delta else delta)\<rparr>
           in Inr \<lparr>obTx = tx, obEdges = sortBy edgeLess (edgesOf target f outs)\<rparr>))))))"

section \<open>History\<close>

definition MaxPages :: nat where "MaxPages = 5"
definition PageSize :: nat where "PageSize = 25"
definition MaxTransactions :: nat where "MaxTransactions = 100"
definition MaxCounterparties :: nat where "MaxCounterparties = 256"

definition sameTransaction :: "observedTransaction \<Rightarrow> observedTransaction \<Rightarrow> bool" where
  "sameTransaction a b \<longleftrightarrow> obTx a = obTx b \<and> length (obEdges a) = length (obEdges b)
     \<and> list_all2 (\<lambda>e f. egAddress e = egAddress f \<and> egDirection e = egDirection f \<and> egValue e = egValue f) (obEdges a) (obEdges b)"

text \<open>Newest first; ties by the transaction id.\<close>

definition newer :: "transaction \<Rightarrow> transaction \<Rightarrow> bool" where
  "newer a b \<longleftrightarrow> (if txTimestamp a \<noteq> txTimestamp b then txTimestamp a > txTimestamp b else txID a < txID b)"

text \<open>One page: everything is validated before anything is kept.\<close>

fun pageBatch :: "(string \<Rightarrow> string) \<Rightarrow> (string \<Rightarrow> string) \<Rightarrow> string \<Rightarrow> (string \<times> observedTransaction) list
    \<Rightarrow> wireTransaction list \<Rightarrow> (string \<times> observedTransaction) list
    \<Rightarrow> (string \<times> failure) + (string \<times> observedTransaction) list" where
  "pageBatch uniL uniU target txs [] batch = Inr batch"
| "pageBatch uniL uniU target txs (w # ws) batch =
     (case normalizeTransaction uniL uniU w target of
        Inl e \<Rightarrow> Inl (''invalid_page'', e)
      | Inr tx \<Rightarrow>
          if list_ex (\<lambda>seen. case map_of seen (wID w) of Some old \<Rightarrow> \<not> sameTransaction old tx | None \<Rightarrow> False) [batch, txs]
          then Inl (''conflicting_transaction'', invalidResponse)
          else pageBatch uniL uniU target txs ws (AList.update (wID w) tx batch))"

definition limitTransactions :: "(string \<times> observedTransaction) list \<Rightarrow> (string \<times> observedTransaction) list" where
  "limitTransactions txs =
     (let ids = sortBy (\<lambda>i j. newer (obTx (the (map_of txs i))) (obTx (the (map_of txs j)))) (map fst txs)
      in filter (\<lambda>(k, _). k \<notin> set (drop MaxTransactions ids)) txs)"

text \<open>
  A page is the decoded array, \<open>None\<close> for \<open>null\<close>.  The result is the transactions, the reason to stop
  and the failure; \<open>k\<close> is the number of pages that are left.
\<close>

definition historyPath :: "string \<Rightarrow> string \<Rightarrow> string" where
  "historyPath target cursor =
     ''/address/'' @ target @ ''/txs/chain'' @ (if cursor \<noteq> [] then ''/'' @ cursor else [])"

type_synonym txMap = "(string \<times> observedTransaction) list"

fun historyLoop :: "(string \<Rightarrow> string) \<Rightarrow> (string \<Rightarrow> string) \<Rightarrow> clientEnv \<Rightarrow> (string \<Rightarrow> wireTransaction list option option)
    \<Rightarrow> string \<Rightarrow> nat \<Rightarrow> string \<Rightarrow> string list \<Rightarrow> txMap \<Rightarrow> client \<Rightarrow> (txMap \<times> string \<times> failure option) \<times> client" where
  "historyLoop uniL uniU env page target 0 cursor cursors txs cl = ((txs, ''page_limit'', None), cl)"
| "historyLoop uniL uniU env page target (Suc k) cursor cursors txs cl =
     (case getJSON env page (historyPath target cursor) cl of
        (Inl e, cl) \<Rightarrow> ((txs, ''provider_error'', Some e), cl)
      | (Inr None, cl) \<Rightarrow> ((txs, ''invalid_page'', Some invalidResponse), cl)
      | (Inr (Some wire), cl) \<Rightarrow>
          if length wire > PageSize then ((txs, ''invalid_page'', Some invalidResponse), cl)
          else (case pageBatch uniL uniU target txs wire [] of
                  Inl (stop, e) \<Rightarrow> ((txs, stop, Some e), cl)
                | Inr batch \<Rightarrow>
                    let txs = AList.merge txs batch in
                    if length txs \<ge> MaxTransactions then ((limitTransactions txs, ''transaction_limit'', None), cl)
                    else if length wire < PageSize then ((txs, ''page_end'', None), cl)
                    else let cursor = wID (last wire) in
                      if cursor \<in> set cursors then ((txs, ''repeated_cursor'', Some invalidResponse), cl)
                      else historyLoop uniL uniU env page target k cursor (cursor # cursors) txs cl))"

definition history :: "(string \<Rightarrow> string) \<Rightarrow> (string \<Rightarrow> string) \<Rightarrow> clientEnv \<Rightarrow> (string \<Rightarrow> wireTransaction list option option)
    \<Rightarrow> string \<Rightarrow> client \<Rightarrow> (txMap \<times> string \<times> failure option) \<times> client" where
  "history uniL uniU env page target cl = historyLoop uniL uniU env page target MaxPages [] [] [] cl"

section \<open>Projection to evidence\<close>

record counterparty =
  cpAddress :: string
  cpCount :: int
  cpFirst :: string
  cpLast :: string
  cpValue :: "int option"
  cpDirection :: string

definition transactionJSON :: "transaction \<Rightarrow> json" where
  "transactionJSON t = JObj ([(''txid'', JStr (txID t))] @ omitEmpty ''timestamp'' (txTimestamp t)
     @ [(''direction'', JStr (txDirection t)), (''value_sats'', JInt (txValue t))])"

definition counterpartyJSON :: "counterparty \<Rightarrow> json" where
  "counterpartyJSON p = JObj ([(''address'', JStr (cpAddress p)), (''interaction_count'', JInt (cpCount p))]
     @ omitEmpty ''sample_first_seen'' (cpFirst p) @ omitEmpty ''sample_last_seen'' (cpLast p)
     @ omitNil ''observed_value_sats'' (cpValue p) @ [(''direction'', JStr (cpDirection p))])"

text \<open>The earliest and the latest timestamp seen, widened by one more.\<close>

definition widen :: "string \<Rightarrow> string \<times> string \<Rightarrow> string \<times> string" where
  "widen moment fl =
     (if moment = [] then fl
      else (if fst fl = [] \<or> moment < fst fl then moment else fst fl, if moment > snd fl then moment else snd fl))"

definition newCounterparty :: "edge \<Rightarrow> counterparty" where
  "newCounterparty e = \<lparr>cpAddress = egAddress e, cpCount = 0, cpFirst = [], cpLast = [], cpValue = Some 0,
     cpDirection = egDirection e\<rparr>"

definition meetEdge :: "string \<Rightarrow> edge \<Rightarrow> (string \<times> counterparty) list \<Rightarrow> (string \<times> counterparty) list" where
  "meetEdge moment e peers =
     (let p = (case map_of peers (egAddress e) of Some p \<Rightarrow> p | None \<Rightarrow> newCounterparty e);
          p = p\<lparr>cpCount := cpCount p + 1\<rparr>;
          p = (if cpDirection p \<noteq> egDirection e then p\<lparr>cpDirection := ''mixed''\<rparr> else p);
          p = (case egValue e of None \<Rightarrow> p\<lparr>cpValue := None\<rparr>
               | Some v \<Rightarrow> (case cpValue p of None \<Rightarrow> p | Some s \<Rightarrow> p\<lparr>cpValue := Some (s + v)\<rparr>));
          fl = widen moment (cpFirst p, cpLast p)
      in AList.update (egAddress e) (p\<lparr>cpFirst := fst fl, cpLast := snd fl\<rparr>) peers)"

definition meetTransaction :: "observedTransaction \<Rightarrow> (string \<times> string) \<times> (string \<times> counterparty) list
    \<Rightarrow> (string \<times> string) \<times> (string \<times> counterparty) list" where
  "meetTransaction ob s =
     (let moment = txTimestamp (obTx ob) in (widen moment (fst s), fold (meetEdge moment) (obEdges ob) (snd s)))"

definition evidenceLess :: "Evidence \<Rightarrow> Evidence \<Rightarrow> bool" where
  "evidenceLess a b \<longleftrightarrow> (if evKind a \<noteq> evKind b then evKind a < evKind b else evValue a < evValue b)"

definition orderedTransactions :: "txMap \<Rightarrow> observedTransaction list" where
  "orderedTransactions txs = sortBy (\<lambda>a b. newer (obTx a) (obTx b)) (map snd txs)"

definition project :: "txMap \<Rightarrow> Evidence list \<times> bool" where
  "project txs =
     (let ordered = orderedTransactions txs;
          ((first, final), peers) = fold meetTransaction ordered (([], []), []);
          keys = sort (map fst peers);
          evidence = map (\<lambda>ob. evidenceJSON ''crypto_transaction'' (transactionJSON (obTx ob))) ordered
            @ (if first \<noteq> [] then [\<lparr>evKind = ''crypto_sample_first_seen'', evValue = first\<rparr>,
                 \<lparr>evKind = ''crypto_sample_last_seen'', evValue = final\<rparr>] else [])
            @ map (\<lambda>k. evidenceJSON ''crypto_counterparty'' (counterpartyJSON (the (map_of peers k)))) (take MaxCounterparties keys)
      in (sortBy evidenceLess evidence, length keys > MaxCounterparties))"

section \<open>The search\<close>

definition addEvidence :: "Evidence list \<Rightarrow> Result \<Rightarrow> Result" where
  "addEvidence es r = r\<lparr>rEvidence := rEvidence r @ es\<rparr>"

definition bitcoinRow :: "clientEnv \<Rightarrow> Target \<Rightarrow> string \<Rightarrow> Result" where
  "bitcoinRow env target kind =
     (NewResult ''bitcoin'' SourceAPI target)
       \<lparr>rSiteName := ''Bitcoin (Esplora)'', rURL := ceBase env @ ''/address/'' @ tValue target,
        rMetadata := [(''provider'', ''esplora''), (''scope'', ''confirmed_provider_observation''),
          (''address_validation'', ''local_checksum''), (''history_scope'', ''bounded_confirmed_sample''),
          (''history_status'', ''unavailable''),
          (''transaction_value_semantics'', ''absolute_target_net_utxo_change_including_fees''),
          (''counterparty_semantics'',
           ''single_funding_address_output_values_otherwise_cooccurrence_only; no_identity_inference''),
          (''statistics_status'', ''unavailable'')],
        rEvidence := [\<lparr>evKind = ''crypto_address'', evValue = tValue target\<rparr>,
          \<lparr>evKind = ''crypto_network'', evValue = ''bitcoin_mainnet''\<rparr>, \<lparr>evKind = ''crypto_address_type'', evValue = kind\<rparr>]\<rparr>"

definition statisticsEvidence :: "chainStats \<Rightarrow> Evidence list" where
  "statisticsEvidence c =
     map (\<lambda>(k, v). \<lparr>evKind = k, evValue = itoa v\<rparr>)
       [(''crypto_confirmed_transaction_count'', the (csCount c)), (''crypto_confirmed_received_sats'', the (csReceived c)),
        (''crypto_confirmed_sent_sats'', the (csSent c)),
        (''crypto_confirmed_balance_sats'', the (csReceived c) - the (csSent c))]"

text \<open>What the history adds to the row, and the failure that remains.\<close>

definition historyRow :: "chainStats \<Rightarrow> txMap \<times> string \<times> failure option \<Rightarrow> Result \<Rightarrow> Result \<times> failure option" where
  "historyRow c h r =
     (let (txs, stop, err) = h;
          odd = (err = None \<and> (txs = [] \<and> the (csCount c) > 0 \<or> txs \<noteq> [] \<and> the (csCount c) = 0));
          err = (if odd then Some invalidResponse else err);
          stop = (if odd then ''inconsistent_statistics'' else stop);
          (es, truncated) = project txs;
          r = addEvidence es r;
          r = setMeta ''history_stop'' stop r;
          r = setMeta ''retained_transactions'' (itoa (int (length txs))) r;
          r = setMeta ''counterparties_truncated'' (boolText truncated) r;
          r = setMeta ''history_status''
                (if err = None then ''observed'' else if txs = [] then ''unavailable'' else ''partial'') r
      in (r, err))"

definition failedRow :: "Result \<Rightarrow> Target \<Rightarrow> failure \<Rightarrow> Result" where
  "failedRow row target e =
     (NewResult ''bitcoin'' SourceAPI target)
       \<lparr>rSiteName := rSiteName row, rURL := rURL row, rStatus := StatusError, rError := failureError e,
        rMetadata := [(''scope'', ''provider_failure''), (''error_kind'', fKind e)]
          @ (if fStatus e \<noteq> 0 then [(''http_status'', itoa (fStatus e))] else [])
          @ (if fRetry e \<noteq> 0 then [(''retry_after_seconds'', itoa (int (fRetry e)))] else [])\<rparr>"

text \<open>The requests of a search: the row that is emitted, the failure, and the client afterwards.\<close>

definition lookupBitcoin :: "(string \<Rightarrow> string) \<Rightarrow> (string \<Rightarrow> string) \<Rightarrow> clientEnv \<Rightarrow> (string \<Rightarrow> addressData option)
    \<Rightarrow> (string \<Rightarrow> wireTransaction list option option) \<Rightarrow> Target \<Rightarrow> string \<Rightarrow> limiter \<Rightarrow> (Result \<times> failure option) \<times> client" where
  "lookupBitcoin uniL uniU env address page target kind lim =
     (let value = tValue target; row = bitcoinRow env target kind;
          (got, cl) = getJSON env address (''/address/'' @ value) \<lparr>clRequests = 0, clLimiter = lim\<rparr>;
          got = (case got of Inr d \<Rightarrow> if addressDataValid uniL uniU value d then Inr d else Inl invalidResponse | Inl e \<Rightarrow> Inl e);
          ((row, err), cl) =
            (case got of
               Inl e \<Rightarrow> ((setMeta ''scope'' ''local_address_validation_only'' row, Some e), cl)
             | Inr d \<Rightarrow>
                 let c = the (adChain d);
                     row = addEvidence (statisticsEvidence c) (setMeta ''statistics_status'' ''observed'' row);
                     (h, cl) = history uniL uniU env page value cl
                 in (historyRow c h row, cl));
          row = setMeta ''provider_requests'' (itoa (int (clRequests cl))) row;
          row = row\<lparr>rStatus := StatusFound, rEvidence := sortBy evidenceLess (rEvidence row)\<rparr>
      in ((row, err), cl))"

text \<open>The search as the script of theory \<open>Sources\<close>; \<open>nilEmit\<close> says that no consumer was given.\<close>

definition SearchBitcoin :: "(string \<Rightarrow> string) \<Rightarrow> (string \<Rightarrow> string) \<Rightarrow> clientEnv \<Rightarrow> (string \<Rightarrow> addressData option)
    \<Rightarrow> (string \<Rightarrow> wireTransaction list option option) \<Rightarrow> limiter \<Rightarrow> bool \<Rightarrow> string \<Rightarrow> script" where
  "SearchBitcoin uniL uniU env address page lim nilEmit value =
     (if nilEmit then Return (Some (plainError ''Bitcoin requires a result consumer''))
      else case NewBitcoinTarget uniL uniU value of
             Inl e \<Rightarrow> Return (Some (plainError (addrMessage e)))
           | Inr target \<Rightarrow>
               let kind = (case BitcoinAddress uniL uniU (tValue target) of Inr (_, k) \<Rightarrow> k | Inl _ \<Rightarrow> []);
                   (row, err) = fst (lookupBitcoin uniL uniU env address page target kind lim)
               in EmitRow (Normalized uniL row) (\<lambda>answer.
                    case answer of Some e \<Rightarrow> Return (Some e)
                    | None \<Rightarrow>
                        (case err of None \<Rightarrow> Return None
                         | Some f \<Rightarrow> EmitRow (Normalized uniL (failedRow row target f)) (\<lambda>answer.
                             Return (case answer of Some e \<Rightarrow> Some e | None \<Rightarrow> Some (failureGo f))))))"

section \<open>Facts\<close>

lemma normalize_txID: "normalizeTransaction uniL uniU w target = Inr ob \<Longrightarrow> txID (obTx ob) = wID w"
  by (auto simp: normalizeTransaction_def Let_def res_simps)

text \<open>A map of observed transactions: one entry per id, each the normalisation of some record with that id.\<close>

definition txMapOK :: "(string \<Rightarrow> string) \<Rightarrow> (string \<Rightarrow> string) \<Rightarrow> string \<Rightarrow> txMap \<Rightarrow> bool" where
  "txMapOK uniL uniU target txs \<longleftrightarrow> distinct (map fst txs)
     \<and> (\<forall>(k, ob) \<in> set txs. \<exists>w. wID w = k \<and> normalizeTransaction uniL uniU w target = Inr ob)"

lemma set_update_subset: "set (AList.update k v al) \<subseteq> insert (k, v) (set al)"
  by (induction al) auto

lemma set_merge_subset: "set (AList.merge qs ps) \<subseteq> set qs \<union> set ps"
proof (induction ps)
  case Nil
  then show ?case by simp
next
  case (Cons p ps)
  then show ?case using set_update_subset [of "fst p" "snd p" "AList.merge qs ps"] by (auto simp: AList.merge_def split: prod.splits)
qed

lemma txMapOK_nil: "txMapOK uniL uniU target []"
  by (simp add: txMapOK_def)

lemma txMapOK_update:
  assumes "txMapOK uniL uniU target txs" and "normalizeTransaction uniL uniU w target = Inr ob"
  shows "txMapOK uniL uniU target (AList.update (wID w) ob txs)"
  using assms set_update_subset [of "wID w" ob txs] distinct_update [of txs "wID w" ob] unfolding txMapOK_def by fast

lemma txMapOK_merge:
  assumes "txMapOK uniL uniU target txs" and "txMapOK uniL uniU target batch"
  shows "txMapOK uniL uniU target (AList.merge txs batch)"
  using assms set_merge_subset [of txs batch] distinct_merge [of txs batch] unfolding txMapOK_def by fast

lemma pageBatch_OK:
  "pageBatch uniL uniU target txs ws batch = Inr batch' \<Longrightarrow> txMapOK uniL uniU target batch \<Longrightarrow> txMapOK uniL uniU target batch'"
proof (induction uniL uniU target txs ws batch rule: pageBatch.induct)
  case (1 uniL uniU target txs batch)
  then show ?case by simp
next
  case (2 uniL uniU target txs w ws batch)
  then obtain tx where tx: "normalizeTransaction uniL uniU w target = Inr tx" by (auto split: sum.splits)
  note rest = 2(2) [simplified tx pageBatch.simps sum.case]
  show ?case
    by (rule 2(1) [OF tx]) (use rest tx 2(3) in \<open>auto intro: txMapOK_update split: if_splits\<close>)
qed

lemma pageBatch_error:
  "pageBatch uniL uniU target txs ws batch = Inl (stop, e) \<Longrightarrow> stop = ''invalid_page'' \<or> stop = ''conflicting_transaction''"
  by (induction uniL uniU target txs ws batch rule: pageBatch.induct) (auto split: sum.splits if_splits)

lemma limitTransactions_OK:
  assumes "txMapOK uniL uniU target txs"
  shows "txMapOK uniL uniU target (limitTransactions txs) \<and> length (limitTransactions txs) \<le> MaxTransactions"
proof -
  define ids where "ids = sortBy (\<lambda>i j. newer (obTx (the (map_of txs i))) (obTx (the (map_of txs j)))) (map fst txs)"
  have d: "distinct (map fst txs)" using assms by (simp add: txMapOK_def)
  have lim: "limitTransactions txs = filter (\<lambda>(k, _). k \<notin> set (drop MaxTransactions ids)) txs"
    by (simp add: limitTransactions_def ids_def Let_def)
  have di: "distinct (map fst (limitTransactions txs))"
    unfolding lim using d by (auto simp: distinct_map intro: inj_on_subset)
  have sub: "set (map fst (limitTransactions txs)) \<subseteq> set (take MaxTransactions ids)"
  proof
    fix k assume "k \<in> set (map fst (limitTransactions txs))"
    then have "k \<in> set ids" "k \<notin> set (drop MaxTransactions ids)" by (auto simp: lim ids_def)
    then show "k \<in> set (take MaxTransactions ids)" by (metis append_take_drop_id UnE set_append)
  qed
  have "length (limitTransactions txs) = card (set (map fst (limitTransactions txs)))"
    using distinct_card [OF di] by simp
  also have "\<dots> \<le> card (set (take MaxTransactions ids))" by (rule card_mono [OF _ sub]) simp
  also have "\<dots> \<le> MaxTransactions" by (rule order_trans [OF card_length]) simp
  finally show ?thesis using assms di unfolding txMapOK_def by (auto simp: lim)
qed

text \<open>What a history reports.\<close>

definition historyOK :: "(string \<Rightarrow> string) \<Rightarrow> (string \<Rightarrow> string) \<Rightarrow> string \<Rightarrow> txMap \<times> string \<times> failure option \<Rightarrow> bool" where
  "historyOK uniL uniU target h \<longleftrightarrow> txMapOK uniL uniU target (fst h) \<and> length (fst h) \<le> MaxTransactions
     \<and> (snd (snd h) = None \<longleftrightarrow> fst (snd h) \<in> {''page_limit'', ''transaction_limit'', ''page_end''})"

lemma historyLoop_OK:
  "historyLoop uniL uniU env page target k cursor cursors txs cl = (h, cl') \<Longrightarrow> txMapOK uniL uniU target txs
   \<Longrightarrow> length txs \<le> MaxTransactions
   \<Longrightarrow> historyOK uniL uniU target h \<and> clRequests cl' \<le> max (clRequests cl) MaxRequests"
proof (induction k arbitrary: cursor cursors txs cl)
  case 0
  then show ?case by (auto simp: historyOK_def)
next
  case (Suc k)
  obtain got cl1 where got: "getJSON env page (historyPath target cursor) cl = (got, cl1)" by fastforce
  have rq: "clRequests cl1 \<le> max (clRequests cl) MaxRequests"
    using getBounded_requests got unfolding getJSON_def by blast
  note loop = Suc.prems(1) [simplified historyLoop.simps got prod.case]
  show ?case
  proof (cases "\<exists>wire. got = Inr (Some wire) \<and> length wire \<le> PageSize")
    case False
    then show ?thesis using loop Suc.prems(2,3) rq by (auto simp: historyOK_def split: sum.splits option.splits if_splits)
  next
    case True
    then obtain wire where wire: "got = Inr (Some wire)" "length wire \<le> PageSize" by blast
    show ?thesis
    proof (cases "pageBatch uniL uniU target txs wire []")
      case (Inl e)
      then show ?thesis using loop wire Suc.prems(2,3) rq pageBatch_error [of uniL uniU target txs wire "[]" "fst e" "snd e"]
        by (cases e) (auto simp: historyOK_def)
    next
      case (Inr batch)
      define txs1 where "txs1 = AList.merge txs batch"
      have ok: "txMapOK uniL uniU target txs1"
        unfolding txs1_def using pageBatch_OK [OF Inr txMapOK_nil] Suc.prems(2) by (rule txMapOK_merge [rotated])
      note loop1 = loop [unfolded wire(1), simplified, folded txs1_def, unfolded Inr, simplified, folded txs1_def]
      show ?thesis
      proof (cases "length txs1 \<ge> MaxTransactions \<or> length wire < PageSize \<or> wID (last wire) \<in> set cursors")
        case True
        then show ?thesis using loop1 wire(2) ok limitTransactions_OK [OF ok] rq
          by (auto simp: historyOK_def Let_def txs1_def Inr split: if_splits)
      next
        case False
        then have "historyLoop uniL uniU env page target k (wID (last wire)) (wID (last wire) # cursors) txs1 cl1 = (h, cl')"
          using loop1 wire(2) by (auto simp: Let_def txs1_def Inr split: if_splits)
        from Suc.IH [OF this ok] show ?thesis using False rq by auto
      qed
    qed
  qed
qed

text \<open>The order of transactions is total on a map: equal timestamps are told apart by the id.\<close>

lemma newer_trans: "newer a b \<Longrightarrow> newer b c \<Longrightarrow> newer a c"
  unfolding newer_def by (auto split: if_splits)

lemma newer_total: "txID a \<noteq> txID b \<Longrightarrow> newer a b \<or> newer b a"
  unfolding newer_def by (auto simp: not_less_iff_gr_or_eq)

definition keyed :: "txMap \<Rightarrow> bool" where
  "keyed txs \<longleftrightarrow> distinct (map fst txs) \<and> (\<forall>(k, ob) \<in> set txs. txID (obTx ob) = k)"

lemma txMapOK_keyed: "txMapOK uniL uniU target txs \<Longrightarrow> keyed txs"
  unfolding txMapOK_def keyed_def using normalize_txID by fast

lemma orderOn_newer:
  assumes ok: "keyed txs"
  shows "orderOn (\<lambda>a b. newer (obTx a) (obTx b)) (snd ` set txs)"
  unfolding orderOn_def
proof (intro conjI ballI impI)
  fix a b assume "a \<in> snd ` set txs" "b \<in> snd ` set txs"
  then obtain i j where ij: "(i, a) \<in> set txs" "(j, b) \<in> set txs" by auto
  have "txID (obTx a) = i" "txID (obTx b) = j" using ok ij unfolding keyed_def by fast+
  moreover have "i = j \<Longrightarrow> a = b" using ok ij unfolding keyed_def by (meson eq_key_imp_eq_value)
  ultimately show "newer (obTx a) (obTx b) \<or> a = b \<or> newer (obTx b) (obTx a)" using newer_total by metis
qed (auto simp: newer_def intro: newer_trans split: if_splits)

section \<open>Properties\<close>

text \<open>The address history is bounded and validated: whatever the provider answers, at most one hundred
  transactions are retained, one for each id and each the accepted normalisation of a record of that id; no more than
  six requests are made in all; and the search has no failure exactly when it stopped at an end of the pages, the page
  limit or the transaction limit.\<close>

theorem history_bounded:
  assumes "history uniL uniU env page target cl = ((txs, stop, err), cl')"
  shows "distinct (map fst txs) \<and> length txs \<le> 100
    \<and> (\<forall>(k, ob) \<in> set txs. \<exists>w. wID w = k \<and> normalizeTransaction uniL uniU w target = Inr ob)
    \<and> keyed txs \<and> clRequests cl' \<le> max (clRequests cl) 6
    \<and> (err = None \<longleftrightarrow> stop \<in> {''page_limit'', ''transaction_limit'', ''page_end''})"
  using historyLoop_OK [OF assms [unfolded history_def] txMapOK_nil]
  by (auto simp: historyOK_def txMapOK_keyed MaxTransactions_def MaxRequests_def) (auto simp: txMapOK_def)

definition demoEnv :: "string \<Rightarrow> int \<Rightarrow> clientEnv" where
  "demoEnv body status = \<lparr>ceNet = (\<lambda>n path. \<lparr>atWait = None,
       atExchange = Reply \<lparr>rpStatus = status, rpRetryAfter = [], rpBody = body, rpReadErr = None\<rparr>, atCtx = None, atNow = 0\<rparr>),
     ceTimedOut = (\<lambda>_. False), ceParseTime = (\<lambda>_. None), ceHost = (\<lambda>_. None), ceBase = []\<rparr>"

lemma demo_history:
  "history id id (demoEnv ''[]'' 200) (\<lambda>_. Some (Some [])) ''x'' \<lparr>clRequests = 2, clLimiter = NewHostLimiter 1\<rparr>
   = (([], ''page_end'', None), \<lparr>clRequests = 3, clLimiter = NewHostLimiter 1\<rparr>)"
proof -
  have v: "utf8Valid ''[]''" by (rule utf8Valid_ascii) (simp add: isAsciiC_def byteVal_def)
  have t: "trimSpace ''[]'' = ''[]''" by (rule trimSpace_visible) (simp add: visibleC_def byteVal_def)
  have pages: "MaxPages = Suc 4" by (simp add: MaxPages_def)
  show ?thesis unfolding history_def pages historyLoop.simps
    by (simp add: getJSON_def getBounded_def Let_def demoEnv_def readBody_def MaxRequests_def
        MaxResponseBytes_def v t PageSize_def MaxTransactions_def)
qed

theorem history_bounded_witness:
  "clRequests (snd (history id id (demoEnv ''[]'' 200) (\<lambda>_. Some (Some [])) ''x''
     \<lparr>clRequests = 2, clLimiter = NewHostLimiter 1\<rparr>)) \<le> 6"
  using history_bounded [OF demo_history] by (simp add: demo_history)

text \<open>The evidence of a history, whose map is keyed by the transaction ids, does not depend on the order in which Go visits the map of transactions: two runs
  over the same map give the same evidence, in the same order, and the same truncation flag.\<close>

theorem project_deterministic:
  assumes "keyed txs" and "mset txs = mset txs'"
  shows "project txs = project txs'"
proof -
  have "orderedTransactions txs = orderedTransactions txs'"
    unfolding orderedTransactions_def
  proof (rule sortBy_unique)
    show "orderOn (\<lambda>a b. newer (obTx a) (obTx b)) (set (map snd txs))" using orderOn_newer [OF assms(1)] by simp
    show "mset (map snd txs) = mset (map snd txs')" using assms(2) by simp
  qed
  then show ?thesis by (simp add: project_def)
qed

definition demoOb :: "string \<Rightarrow> int \<Rightarrow> observedTransaction" where
  "demoOb k v = \<lparr>obTx = \<lparr>txID = k, txTimestamp = [], txDirection = ''self'', txValue = v\<rparr>, obEdges = []\<rparr>"

theorem project_deterministic_witness:
  "project [(''b'', demoOb ''b'' 1), (''a'', demoOb ''a'' 2)] = project [(''a'', demoOb ''a'' 2), (''b'', demoOb ''b'' 1)]"
  by (rule project_deterministic) (simp_all add: keyed_def demoOb_def)

end
