(* ===== verification/BitcoinLookup.thy ===== *)
theory BitcoinLookup
  imports BitcoinHistory
begin

text \<open>
  The transaction source (\<open>src/internal/sources/bitcoin/transaction.go\<close>): one bounded request, the parser of
  theory \<open>BitcoinTx\<close>, and the single row that is emitted, as a script of theory \<open>Sources\<close>.
  \<open>rawMessage\<close> is \<open>json.Unmarshal\<close> into a raw message.
\<close>

definition transactionRow :: "clientEnv \<Rightarrow> Target \<Rightarrow> Result" where
  "transactionRow env target =
     (NewResult ''bitcoin-tx'' SourceAPI target)
       \<lparr>rSiteName := ''Bitcoin Transaction (Esplora)'', rURL := ceBase env @ ''/tx/'' @ tValue target,
        rMetadata := [(''provider'', ''esplora''), (''network'', ''bitcoin_mainnet''),
          (''scope'', ''provider_transaction_observation''),
          (''verification'', ''structure_and_arithmetic_only; no_independent_chain_verification''),
          (''derived_fields'',
           ''input_count,output_count,coinbase,input_values_complete,input_total_sats,output_total_sats,fee_check,address_set''),
          (''observed_fields'', ''txid,version,locktime,size,weight,fee_sats,status,block,inputs,outputs''),
          (''attribution'', ''none; observed addresses do not establish ownership or transfer direction'')]\<rparr>"

text \<open>The parsed evidence, dropped when the context ended meanwhile.\<close>

definition transactionLookup :: "(string \<Rightarrow> string) \<Rightarrow> (string \<Rightarrow> string) \<Rightarrow> clientEnv \<Rightarrow> (string \<Rightarrow> string option)
    \<Rightarrow> (string \<Rightarrow> token list) \<Rightarrow> (string \<Rightarrow> (transactionWire \<times> wireField list) option) \<Rightarrow> goError option \<Rightarrow> Target \<Rightarrow> limiter
    \<Rightarrow> (failure + Evidence list) \<times> client" where
  "transactionLookup uniL uniU env rawMessage tokens decode ctxErr target lim =
     (let (got, cl) = getBounded env rawMessage (''/tx/'' @ tValue target) TransactionMaxRequests ''Transaction not found''
            \<lparr>clRequests = 0, clLimiter = lim\<rparr>;
          parsed = andThen got (\<lambda>raw. parseTransaction uniL uniU tokens decode raw (tValue target))
      in (andThen parsed (\<lambda>es. case ctxErr of None \<Rightarrow> Inr es
            | Some e \<Rightarrow> Inl (requestFailure (ceTimedOut env) ctxErr e)), cl))"

definition transactionOutcome :: "failure + Evidence list \<Rightarrow> Result \<Rightarrow> Result \<times> goError option" where
  "transactionOutcome got r =
     (case got of
        Inr es \<Rightarrow> (r\<lparr>rEvidence := es, rStatus := StatusFound\<rparr>, None)
      | Inl e \<Rightarrow>
          if fKind e = ''not_found'' then
            (setMeta ''absence_scope'' ''provider_lookup_only'' (r\<lparr>rStatus := StatusNotFound\<rparr>), None)
          else
            (let kind = (if fStatus e \<ge> 500 then ''service_unavailable'' else fKind e);
                 r = setMeta ''error_kind'' kind (r\<lparr>rStatus := StatusError\<rparr>);
                 r = (if fStatus e \<noteq> 0 then setMeta ''http_status'' (itoa (fStatus e)) r else r);
                 r = (if fRetry e \<noteq> 0 then setMeta ''retry_after_seconds'' (itoa (int (fRetry e))) r else r)
             in (r\<lparr>rError := failureError e\<rparr>, Some (failureGo e))))"

definition SearchBitcoinTransaction :: "(string \<Rightarrow> string) \<Rightarrow> (string \<Rightarrow> string) \<Rightarrow> clientEnv \<Rightarrow> (string \<Rightarrow> string option)
    \<Rightarrow> (string \<Rightarrow> token list) \<Rightarrow> (string \<Rightarrow> (transactionWire \<times> wireField list) option) \<Rightarrow> goError option \<Rightarrow> limiter \<Rightarrow> bool \<Rightarrow> string \<Rightarrow> script" where
  "SearchBitcoinTransaction uniL uniU env rawMessage tokens decode ctxErr lim nilEmit value =
     (if nilEmit then Return (Some (plainError ''Bitcoin transaction source requires a result consumer''))
      else case NewBitcoinTransactionTarget uniL value of
             Inl e \<Rightarrow> Return (Some (plainError e))
           | Inr target \<Rightarrow>
               (let (got, cl) = transactionLookup uniL uniU env rawMessage tokens decode ctxErr target lim;
                    row = setMeta ''provider_requests'' (itoa (int (clRequests cl))) (transactionRow env target);
                    (row, err) = transactionOutcome got row
                in EmitRow (Normalized uniL row) (\<lambda>answer. Return (case answer of Some e \<Rightarrow> Some e | None \<Rightarrow> err))))"

section \<open>Facts\<close>

lemma failure_kinds: "fKind (failureKind k) = k" "fKind invalidResponse = ''invalid_response''"
  by (simp_all add: failureKind_def invalidResponse_def)

declare walkJSON.simps [simp del]

lemma walkJSON_kind: "walkJSON md st ts = Some e \<Longrightarrow> fKind e \<noteq> ''not_found''"
proof (induction md st ts rule: walkJSON.induct)
  case (1 st ts)
  show ?case using "1.prems" unfolding walkJSON.simps(1) [of st ts]
    by (auto simp: failure_kinds split: if_splits list.splits token.splits dest: "1.IH")
next
  case (2 ts)
  then show ?case by (auto simp: walkJSON.simps(2) failure_kinds split: if_splits)
next
  case (3 st ts)
  show ?case using "3.prems" unfolding walkJSON.simps(3) [of st ts]
    using "3.IH" by (auto simp: failure_kinds split: if_splits list.splits token.splits)
next
  case (4 seen st ts)
  show ?case using "4.prems" unfolding walkJSON.simps(4) [of seen st ts]
    by (auto simp: failure_kinds Let_def split: if_splits list.splits token.splits dest: "4.IH")
qed

text \<open>An error of a chain of checks has a given property when every check's error has it.\<close>

definition errs :: "('e \<Rightarrow> bool) \<Rightarrow> 'e + 'a \<Rightarrow> bool" where
  "errs P r \<longleftrightarrow> (\<forall>e. r = Inl e \<longrightarrow> P e)"

lemma errs_intros:
  "P e \<Longrightarrow> errs P (Inl e)" "errs P (Inr x)"
  "P e \<Longrightarrow> errs P q \<Longrightarrow> errs P (failIf b e q)"
  "errs P r \<Longrightarrow> (\<And>x. errs P (k x)) \<Longrightarrow> errs P (andThen r k)"
  by (auto simp: errs_def failIf_def andThen_def split: sum.splits)

abbreviation notAbsent :: "failure \<Rightarrow> bool" where
  "notAbsent e \<equiv> fKind e \<noteq> ''not_found''"

lemma requestFailure_absent: "notAbsent (requestFailure t c e)"
  using requestFailure_kind [of t c e] by auto

lemma txAddress_errs: "errs notAbsent (txAddress uniL uniU v)"
  by (auto simp: txAddress_def errs_def failure_kinds split: sum.splits addr_err.splits prod.splits if_splits)

lemma checkedValue_errs: "errs notAbsent (checkedValue tot v)"
  by (auto simp: checkedValue_def errs_def failure_kinds split: if_splits)

lemma statusBlock_errs: "errs notAbsent (statusBlock uni st)"
  unfolding statusBlock_def Let_def by (intro errs_intros) (simp_all add: failure_kinds)

lemma balance_errs: "errs notAbsent (balance w a tot)"
  by (auto simp: balance_def errs_def failIf_def failure_kinds split: option.splits if_splits)

lemma previousOutput_errs: "errs notAbsent (previousOutput uniL uniU prev item a)"
  unfolding previousOutput_def Let_def
  by (intro errs_intros txAddress_errs) (auto simp: failure_kinds intro!: errs_intros checkedValue_errs split: option.splits)

lemma spendInput_errs: "errs notAbsent (spendInput uniL uniU inp item a)"
  unfolding spendInput_def Let_def
  by (intro errs_intros) (auto simp: failure_kinds intro!: errs_intros previousOutput_errs split: option.splits)

lemma coinbaseInput_errs: "errs notAbsent (coinbaseInput w inp a)"
  unfolding coinbaseInput_def by (intro errs_intros) (simp_all add: failure_kinds)

lemma inputStep_errs: "errs notAbsent (inputStep uniL uniU w i inp a)"
  unfolding inputStep_def Let_def
  by (auto simp: failure_kinds intro!: errs_intros coinbaseInput_errs spendInput_errs split: option.splits prod.splits)

lemma inputLoop_errs: "errs notAbsent (inputLoop uniL uniU w i ins a)"
  by (induction ins arbitrary: i a) (auto intro!: errs_intros inputStep_errs)

lemma outputLoop_errs: "errs notAbsent (outputLoop uniL uniU i ws tot m outs)"
  by (induction ws arbitrary: i tot m outs)
    (auto simp: failure_kinds intro!: errs_intros checkedValue_errs txAddress_errs split: option.splits)

lemma validateTransaction_errs: "errs notAbsent (validateTransaction uniL uniU expected w)"
  unfolding validateTransaction_def Let_def
  by (intro errs_intros statusBlock_errs inputLoop_errs)
    (auto simp: failure_kinds intro!: errs_intros outputLoop_errs balance_errs split: prod.splits)

lemma boundedElements_errs: "errs notAbsent (boundedElements xs acc)"
  by (induction xs acc rule: boundedElements.induct)
    (auto simp: failure_kinds intro!: errs_intros split: option.splits)

lemma boundedList_absent: "boundedList l = Inl e \<Longrightarrow> notAbsent e"
  using boundedElements_errs [of _ "[]"]
  by (auto simp: boundedList_def errs_def failure_kinds split: wireList.splits)

lemma readField_absent:
  "fst (readField f s) = Some e \<Longrightarrow> (\<And>x. fst s = Some x \<Longrightarrow> notAbsent x) \<Longrightarrow> notAbsent e"
  by (auto simp: readField_def failure_kinds Let_def split: wireField.splits sum.splits option.splits dest: boundedList_absent)

lemma readFields_absent:
  "fst (fold readField fs s) = Some e \<Longrightarrow> (\<And>x. fst s = Some x \<Longrightarrow> notAbsent x) \<Longrightarrow> notAbsent e"
proof (induction fs arbitrary: s)
  case (Cons f fs)
  show ?case
    by (rule Cons.IH [of "readField f s"]) (use Cons.prems readField_absent in auto)
qed auto

lemma unmarshalTransaction_errs: "errs notAbsent (unmarshalTransaction d)"
proof (cases d)
  case None
  then show ?thesis by (simp add: unmarshalTransaction_def errs_def failure_kinds)
next
  case (Some wf)
  then show ?thesis
    using readFields_absent [of "snd wf" "(None, (fst wf)\<lparr>wtInputs := [], wtOutputs := []\<rparr>)"]
    by (auto simp: unmarshalTransaction_def errs_def split: prod.splits option.splits)
qed

lemma parseTransaction_errs: "errs notAbsent (parseTransaction uniL uniU tokens decode raw expected)"
  unfolding parseTransaction_def checkTransactionJSON_def
  using walkJSON_kind
  by (auto simp: failure_kinds intro!: errs_intros unmarshalTransaction_errs validateTransaction_errs split: option.splits)

section \<open>Property\<close>

text \<open>C17: a search for a transaction emits exactly one row, and the row reports absence only when the provider answered
  the one request with status 404 and the documented body; in particular a malformed answer, an outage, a rate limit or a
  cancelled search never becomes an absence.\<close>

theorem absence_needs_not_found:
  assumes "NewBitcoinTransactionTarget uniL value = Inr target"
  shows "\<exists>row k. SearchBitcoinTransaction uniL uniU env rawMessage tokens decode ctxErr lim False value = EmitRow row k
    \<and> (\<forall>a. \<exists>e. k a = Return e)
    \<and> (rStatus row = StatusNotFound \<longrightarrow>
        (\<exists>r. atExchange (ceNet env 0 (ceBase env @ ''/tx/'' @ tValue target)) = Reply r
          \<and> rpStatus r = 404 \<and> trimSpace (rpBody r) = ''Transaction not found''))"
proof -
  obtain got cl where look: "transactionLookup uniL uniU env rawMessage tokens decode ctxErr target lim = (got, cl)" by fastforce
  define row0 where "row0 = setMeta ''provider_requests'' (itoa (int (clRequests cl))) (transactionRow env target)"
  obtain row err where out: "transactionOutcome got row0 = (row, err)" by fastforce
  have run: "SearchBitcoinTransaction uniL uniU env rawMessage tokens decode ctxErr lim False value
      = EmitRow (Normalized uniL row) (\<lambda>answer. Return (case answer of Some e \<Rightarrow> Some e | None \<Rightarrow> err))"
    using assms(1) look out by (simp add: SearchBitcoinTransaction_def row0_def Let_def)
  have status: "rStatus (Normalized uniL row) = rStatus row" if "rStatus row \<noteq> []"
    using that by (simp add: Normalized_def normalized_def RedactedResult_def inferredStatus_def Let_def)
  have "\<exists>r. atExchange (ceNet env 0 (ceBase env @ ''/tx/'' @ tValue target)) = Reply r
          \<and> rpStatus r = 404 \<and> trimSpace (rpBody r) = ''Transaction not found''"
    if abs: "rStatus (Normalized uniL row) = StatusNotFound"
  proof -
    have "rStatus row \<noteq> []" using out
      by (auto simp: transactionOutcome_def setMeta_def status_defs Let_def split: sum.splits if_splits)
    then have "rStatus row = StatusNotFound" using abs status by simp
    then obtain e where e: "got = Inl e" "fKind e = ''not_found''"
      using out by (auto simp: transactionOutcome_def setMeta_def status_defs Let_def split: sum.splits if_splits)
    obtain raw cl' where g: "getBounded env rawMessage (''/tx/'' @ tValue target) TransactionMaxRequests ''Transaction not found''
        \<lparr>clRequests = 0, clLimiter = lim\<rparr> = (raw, cl')" by fastforce
    have "errs notAbsent (andThen (parseTransaction uniL uniU tokens decode x (tValue target))
        (\<lambda>es. case ctxErr of None \<Rightarrow> Inr es | Some e \<Rightarrow> Inl (requestFailure (ceTimedOut env) ctxErr e)))" for x
      using requestFailure_absent
      by (intro errs_intros parseTransaction_errs) (auto split: option.splits intro!: errs_intros)
    then have "raw = Inl e"
      using look g e by (cases raw) (auto simp: transactionLookup_def Let_def errs_def)
    then show ?thesis using getBounded_not_found [OF g [unfolded \<open>raw = Inl e\<close>] e(2)] by simp
  qed
  then show ?thesis unfolding run by blast
qed

lemma demo_target: "NewBitcoinTransactionTarget id demoTxID = Inr (plainTarget TargetBitcoinTransaction demoTxID)"
proof -
  have "\<forall>c \<in> set demoTxID. visibleC c" by (simp add: demoTxID_def visibleC_def byteVal_def)
  then have "trimSpace demoTxID = demoTxID" by (rule trimSpace_visible)
  moreover have "length demoTxID = 64" by (simp add: demoTxID_def)
  moreover have "snd (decodeString demoTxID)" using demoTxID_facts(2) by (simp add: validTxID_def)
  ultimately show ?thesis by (simp add: NewBitcoinTransactionTarget_def Let_def demoTxID_facts)
qed

theorem absence_needs_not_found_witness:
  "\<exists>row k. SearchBitcoinTransaction id id (demoEnv ''Transaction not found'' 404) Some (\<lambda>_. []) (\<lambda>_. None) None
     (NewHostLimiter 1) False demoTxID = EmitRow row k \<and> (\<forall>a. \<exists>e. k a = Return e)"
  using absence_needs_not_found [OF demo_target] by blast

end
