(* ===== verification/ResultJson.thy ===== *)
theory ResultJson
  imports Models Json GoSort
begin

text \<open>The JSON of evidence and of a result (\<open>src/internal/models/result.go\<close>): \<open>MarshalJSON\<close> normalizes first.\<close>

definition evJSON :: "Evidence \<Rightarrow> json" where
  "evJSON e = JObj [(''kind'', JStr (evKind e)), (''value'', JStr (evValue e))]"

text \<open>A map is written with its keys in order.\<close>

definition mapJSON :: "(string \<times> string) list \<Rightarrow> json" where
  "mapJSON m = JObj (map (\<lambda>(k, v). (k, JStr v)) (sortBy (\<lambda>a b. fst a < fst b) m))"

text \<open>The fields of a result; a row that is not scored leaves out its confidence.\<close>

definition resultObject :: "bool \<Rightarrow> Result \<Rightarrow> json" where
  "resultObject unscored r = JObj
      (omitEmpty ''source'' (rSource r) @ omitEmpty ''source_type'' (rSourceType r) @ omitEmpty ''target_type'' (rTargetType r)
       @ (if rEvidence r = [] then [] else [(''evidence'', JArr (map evJSON (rEvidence r)))])
       @ (if rMetadata r = [] then [] else [(''metadata'', mapJSON (rMetadata r))])
       @ [(''site_name'', JStr (rSiteName r)), (''target'', JStr (rTarget r)), (''url'', JStr (rURL r)),
          (''found'', JBool (rFound r))]
       @ (if unscored then [] else [(''confidence'', JInt (rConfidence r))])
       @ [(''status'', JStr (rStatus r)), (''duration'', JInt (rDuration r))]
       @ omitEmpty ''error'' (rError r) @ omitEmpty ''final_url'' (rFinalURL r))"

definition MarshalResult :: "(string \<Rightarrow> string) \<Rightarrow> Result \<Rightarrow> json" where
  "MarshalResult uni raw = resultObject (UnscoredObservation raw) (Normalized uni raw)"

text \<open>The names of observation kinds and meanings.\<close>

definition kindText :: "ObservationKind \<Rightarrow> string" where
  "kindText k = (case k of ObservationUnknown \<Rightarrow> ''unknown'' | ObservationWebsite \<Rightarrow> ''website_detection''
     | ObservationBreach \<Rightarrow> ''breach_association'' | ObservationBitcoinLabels \<Rightarrow> ''bitcoin_label_association''
     | ObservationBitcoinTransaction \<Rightarrow> ''bitcoin_transaction'' | ObservationBitcoin \<Rightarrow> ''bitcoin_address''
     | ObservationIP \<Rightarrow> ''ip_profile'' | ObservationDomain \<Rightarrow> ''domain_profile'' | ObservationPassword \<Rightarrow> ''password_corpus'')"

definition meaningText :: "EvidenceMeaning \<Rightarrow> string" where
  "meaningText v = (case v of MeaningObservation \<Rightarrow> ''observation'' | MeaningAbsence \<Rightarrow> ''absence''
     | MeaningError \<Rightarrow> ''error'' | MeaningUnknown \<Rightarrow> ''unknown'')"

end
