(* ===== verification/MonitorSnapshot.thy ===== *)
theory MonitorSnapshot
  imports ResultJson "HOL-Library.AList"
begin

text \<open>
  The monitor's comparison of observations (\<open>src/internal/monitor/snapshot.go\<close>): canonical evidence, the
  projection of a search to source states, the difference of two states, the merge into a baseline and the check of
  a stored baseline.  A slice that can be nil is an option, because nil is written as \<open>null\<close>.  The decoder of
  \<open>encoding/json\<close> is an argument: \<open>parse\<close> gives the value of a text, or \<open>None\<close> when the text is not one JSON value.
\<close>

section \<open>Types\<close>

definition MaxRows :: nat where "MaxRows = 2048"
definition MaxEvidence :: nat where "MaxEvidence = 8192"
definition MaxValueBytes :: nat where "MaxValueBytes = 65536"
definition MaxStateBytes :: nat where "MaxStateBytes = 2097152"
definition MaxResultBytes :: nat where "MaxResultBytes = 4194304"

type_synonym 'a goSlice = "'a list option"

definition elems :: "'a goSlice \<Rightarrow> 'a list" where
  "elems s = (case s of None \<Rightarrow> [] | Some xs \<Rightarrow> xs)"

record Provenance =
  pvSource :: string
  pvSourceType :: string
  pvProvider :: string
  pvURL :: string

record SourceState =
  ssSource :: string
  ssType :: string
  ssProvenance :: "Provenance goSlice"
  ssEvidence :: "Evidence goSlice"

record Snapshot =
  snVersion :: int
  snTarget :: string
  snTargetType :: string
  snRevision :: u64
  snSources :: "SourceState goSlice"

record Change =
  chID :: string
  chTimestamp :: string
  chTarget :: string
  chTargetType :: string
  chSource :: string
  chEvidenceType :: string
  chKind :: string
  chOld :: "Evidence option"
  chNew :: "Evidence option"
  chOldProvenance :: "Provenance goSlice"
  chProvenance :: "Provenance goSlice"

definition sourceKey :: "string \<Rightarrow> string \<Rightarrow> string" where
  "sourceKey s t = s @ [CHR 0x00] @ t"

section \<open>JSON\<close>

definition sliceJSON :: "('a \<Rightarrow> json) \<Rightarrow> 'a goSlice \<Rightarrow> json" where
  "sliceJSON f s = (case s of None \<Rightarrow> JNull | Some xs \<Rightarrow> JArr (map f xs))"

definition provenanceJSON :: "Provenance \<Rightarrow> json" where
  "provenanceJSON p = JObj ([(''source'', JStr (pvSource p)), (''source_type'', JStr (pvSourceType p))]
     @ omitEmpty ''provider'' (pvProvider p) @ omitEmpty ''url'' (pvURL p))"

definition sourceStateJSON :: "SourceState \<Rightarrow> json" where
  "sourceStateJSON s = JObj [(''source'', JStr (ssSource s)), (''source_type'', JStr (ssType s)),
     (''provenance'', sliceJSON provenanceJSON (ssProvenance s)), (''evidence'', sliceJSON evJSON (ssEvidence s))]"

definition snapshotJSON :: "Snapshot \<Rightarrow> json" where
  "snapshotJSON s = JObj [(''version'', JInt (snVersion s)), (''target'', JStr (snTarget s)),
     (''target_type'', JStr (snTargetType s)), (''revision'', JInt (uint (snRevision s))),
     (''sources'', sliceJSON sourceStateJSON (snSources s))]"

definition changeJSON :: "Change \<Rightarrow> json" where
  "changeJSON c = JObj
     ([(''change_id'', JStr (chID c)), (''timestamp'', JStr (chTimestamp c)), (''target'', JStr (chTarget c)),
       (''target_type'', JStr (chTargetType c)), (''source'', JStr (chSource c)),
       (''evidence_type'', JStr (chEvidenceType c)), (''change_kind'', JStr (chKind c))]
      @ (case chOld c of None \<Rightarrow> [] | Some e \<Rightarrow> [(''old_value'', evJSON e)])
      @ (case chNew c of None \<Rightarrow> [] | Some e \<Rightarrow> [(''new_value'', evJSON e)])
      @ (if elems (chOldProvenance c) = [] then [] else [(''old_provenance'', sliceJSON provenanceJSON (chOldProvenance c))])
      @ [(''provenance'', sliceJSON provenanceJSON (chProvenance c))])"

definition marshal :: "json \<Rightarrow> string" where
  "marshal j = jsonText j"

section \<open>Canonical evidence\<close>

definition runtimeField :: "(string \<Rightarrow> string) \<Rightarrow> string \<Rightarrow> bool" where
  "runtimeField uni s \<longleftrightarrow> toLower uni s \<in> set [''observation_time'', ''observed_at'', ''request_duration'', ''duration'',
     ''duration_ms'', ''run_id'', ''request_id'', ''random_id'', ''fetched_at'']"

text \<open>The recursive \<open>clean\<close>: run-time fields go, and nesting beyond sixteen is an error.\<close>

fun cleanJSON :: "(string \<Rightarrow> string) \<Rightarrow> nat \<Rightarrow> json \<Rightarrow> json option"
and cleanElems :: "(string \<Rightarrow> string) \<Rightarrow> nat \<Rightarrow> json list \<Rightarrow> json list option"
and cleanFields :: "(string \<Rightarrow> string) \<Rightarrow> nat \<Rightarrow> (string \<times> json) list \<Rightarrow> (string \<times> json) list option" where
  "cleanJSON uni d (JObj kvs) =
     (if d > 16 then None else map_option (\<lambda>kvs. JObj (sortBy (\<lambda>a b. fst a < fst b) kvs)) (cleanFields uni d kvs))"
| "cleanJSON uni d (JArr xs) = (if d > 16 then None else map_option JArr (cleanElems uni d xs))"
| "cleanJSON uni d j = (if d > 16 then None else Some j)"
| "cleanElems uni d [] = Some []"
| "cleanElems uni d (x # xs) =
     (case cleanJSON uni (d + 1) x of None \<Rightarrow> None | Some y \<Rightarrow> map_option (\<lambda>ys. y # ys) (cleanElems uni d xs))"
| "cleanFields uni d [] = Some []"
| "cleanFields uni d ((k, v) # kvs) =
     (if runtimeField uni k then cleanFields uni d kvs
      else case cleanJSON uni (d + 1) v of None \<Rightarrow> None | Some w \<Rightarrow> map_option (\<lambda>r. (k, w) # r) (cleanFields uni d kvs))"

definition canonicalValue :: "(string \<Rightarrow> string) \<Rightarrow> (string \<Rightarrow> json option) \<Rightarrow> string \<Rightarrow> string + string" where
  "canonicalValue uni parse value =
     failIf (length value > MaxValueBytes \<or> \<not> utf8Valid value) ''evidence value exceeds monitor bound''
     (if \<not> hasPrefix (trimSpace value) ''{'' \<and> \<not> hasPrefix (trimSpace value) ''['' then Inr value
      else case parse value of None \<Rightarrow> Inr value
        | Some v \<Rightarrow> (case cleanJSON uni 0 v of None \<Rightarrow> Inl ''evidence nesting exceeds monitor bound''
            | Some w \<Rightarrow> Inr (marshal w)))"

definition evidenceOrder :: "Evidence \<Rightarrow> Evidence \<Rightarrow> bool" where
  "evidenceOrder a b \<longleftrightarrow> (if evKind a \<noteq> evKind b then evKind a < evKind b else evValue a < evValue b)"

definition redactEvidence :: "(string \<Rightarrow> string) \<Rightarrow> Evidence \<Rightarrow> Evidence" where
  "redactEvidence uni e =
     (let kind = Redact (evKind e) []
      in \<lparr>evKind = kind, evValue = (if SensitiveKey uni kind then Redacted else Redact (evValue e) [])\<rparr>)"

fun canonicalLoop :: "(string \<Rightarrow> string) \<Rightarrow> (string \<Rightarrow> json option) \<Rightarrow> Evidence list \<Rightarrow> Evidence list \<Rightarrow> string + Evidence list" where
  "canonicalLoop uni parse [] acc = Inr acc"
| "canonicalLoop uni parse (e # es) acc =
     (let e = redactEvidence uni e in
      if runtimeField uni (evKind e) then canonicalLoop uni parse es acc
      else if evKind e = [] \<or> length (evKind e) > 256 \<or> \<not> utf8Valid (evKind e) then Inl ''invalid evidence kind''
      else case canonicalValue uni parse (evValue e) of
             Inl err \<Rightarrow> Inl err
           | Inr v \<Rightarrow> (let e = e\<lparr>evValue := v\<rparr> in canonicalLoop uni parse es (if e \<in> set acc then acc else acc @ [e])))"

definition canonicalEvidence :: "(string \<Rightarrow> string) \<Rightarrow> (string \<Rightarrow> json option) \<Rightarrow> Evidence list \<Rightarrow> string + Evidence list" where
  "canonicalEvidence uni parse es =
     failIf (length es > MaxEvidence) ''too much evidence''
     (andThen (canonicalLoop uni parse es []) (\<lambda>out. Inr (sortBy evidenceOrder out)))"

section \<open>Complete observations\<close>

definition incompleteField :: "string \<Rightarrow> string \<Rightarrow> bool" where
  "incompleteField k v \<longleftrightarrow>
     (containsStr k ''truncat'' \<or> k = ''partial'') \<and> v = ''true''
   \<or> hasSuffix k ''_status'' \<and> (v = ''partial'' \<or> v = ''unavailable'' \<or> v = ''unknown'')
   \<or> k = ''history_stop'' \<and> hasSuffix v ''_limit''
   \<or> (k = ''complete'' \<or> k = ''input_values_complete'') \<and> v = ''false''"

definition incomplete :: "(string \<Rightarrow> string) \<Rightarrow> Result \<Rightarrow> bool" where
  "incomplete uni r \<longleftrightarrow>
     rStatus r \<noteq> StatusFound \<and> rStatus r \<noteq> StatusNotFound \<or> rError r \<noteq> []
   \<or> list_ex (\<lambda>(k, v). incompleteField (toLower uni k) (toLower uni v)) (rMetadata r)"

section \<open>Projection\<close>

record projection =
  pGood :: "SourceState list"
  pAttempted :: "string list"
  pFailed :: "string list"
  pPartial :: "string list"

definition noProjection :: projection where
  "noProjection = \<lparr>pGood = [], pAttempted = [], pFailed = [], pPartial = []\<rparr>"

record rowGroups =
  rgGroups :: "(string \<times> SourceState) list"
  rgBad :: "string list"
  rgReported :: "string list"
  rgExplicit :: bool

definition metaGet :: "(string \<times> string) list \<Rightarrow> string \<Rightarrow> string" where
  "metaGet m k = (case map_of m k of Some v \<Rightarrow> v | None \<Rightarrow> [])"

definition observedRow :: "Result \<Rightarrow> SourceState \<Rightarrow> SourceState" where
  "observedRow r s =
     s\<lparr>ssEvidence := Some (elems (ssEvidence s) @ rEvidence r @ [\<lparr>evKind = ''result_status'', evValue = rStatus r\<rparr>]),
       ssProvenance := Some (elems (ssProvenance s) @ [\<lparr>pvSource = rSource r, pvSourceType = rSourceType r,
          pvProvider = metaGet (rMetadata r) ''provider'', pvURL = rURL r\<rparr>])\<rparr>"

definition rowKey :: "(string \<Rightarrow> string) \<Rightarrow> Result \<Rightarrow> string" where
  "rowKey uni raw = (let r = Normalized uni raw in sourceKey (rSource r) (rSourceType r))"

definition badRow :: "(string \<Rightarrow> string) \<Rightarrow> Result \<Rightarrow> bool" where
  "badRow uni raw \<longleftrightarrow> rStatus raw = [] \<or> incomplete uni (Normalized uni raw)"

definition groupRow :: "(string \<Rightarrow> string) \<Rightarrow> Result \<Rightarrow> rowGroups \<Rightarrow> string + rowGroups" where
  "groupRow uni raw g =
     (let r = Normalized uni raw; key = rowKey uni raw in
      failIf (rSource r = [] \<or> length (rSource r) > 256) ''invalid source identity''
      (let old = (case map_of (rgGroups g) key of Some s \<Rightarrow> s
             | None \<Rightarrow> \<lparr>ssSource = rSource r, ssType = rSourceType r, ssProvenance = None, ssEvidence = None\<rparr>);
           reported = (if rStatus raw = StatusFound \<or> rStatus raw = StatusNotFound then key # rgReported g else rgReported g)
       in if badRow uni raw then
            Inr (g\<lparr>rgGroups := AList.update key old (rgGroups g), rgReported := reported, rgBad := key # rgBad g, rgExplicit := True\<rparr>)
          else Inr (g\<lparr>rgGroups := AList.update key (observedRow r old) (rgGroups g), rgReported := reported\<rparr>)))"

fun groupRows :: "(string \<Rightarrow> string) \<Rightarrow> Result list \<Rightarrow> rowGroups \<Rightarrow> string + rowGroups" where
  "groupRows uni [] g = Inr g"
| "groupRows uni (r # rs) g = andThen (groupRow uni r g) (groupRows uni rs)"

definition provenanceLess :: "Provenance \<Rightarrow> Provenance \<Rightarrow> bool" where
  "provenanceLess a b \<longleftrightarrow> marshal (provenanceJSON a) < marshal (provenanceJSON b)"

text \<open>The decision on one source; \<open>failed\<close> is that the search returned an error.\<close>

definition gradeSource :: "(string \<Rightarrow> string) \<Rightarrow> (string \<Rightarrow> json option) \<Rightarrow> bool \<Rightarrow> rowGroups \<Rightarrow> string \<Rightarrow> projection
    \<Rightarrow> string + projection" where
  "gradeSource uni parse failed g key p0 =
     (let s = the (map_of (rgGroups g) key); p = p0\<lparr>pAttempted := pAttempted p0 @ [ssSource s]\<rparr> in
      if key \<in> set (rgBad g) \<or> failed \<and> \<not> rgExplicit g then
        Inr (if key \<in> set (rgReported g) then p\<lparr>pPartial := pPartial p @ [ssSource s]\<rparr>
             else p\<lparr>pFailed := pFailed p @ [ssSource s]\<rparr>)
      else andThen (canonicalEvidence uni parse (elems (ssEvidence s))) (\<lambda>es.
        let unique = remdups_adj (sortBy provenanceLess (elems (ssProvenance s)))
        in Inr (p\<lparr>pGood := pGood p @ [s\<lparr>ssEvidence := Some es, ssProvenance := Some unique\<rparr>]\<rparr>)))"

fun gradeSources :: "(string \<Rightarrow> string) \<Rightarrow> (string \<Rightarrow> json option) \<Rightarrow> bool \<Rightarrow> rowGroups \<Rightarrow> string list \<Rightarrow> projection
    \<Rightarrow> string + projection" where
  "gradeSources uni parse failed g [] p = Inr p"
| "gradeSources uni parse failed g (k # ks) p =
     andThen (gradeSource uni parse failed g k p) (gradeSources uni parse failed g ks)"

definition projectRows :: "(string \<Rightarrow> string) \<Rightarrow> (string \<Rightarrow> json option) \<Rightarrow> Result list \<Rightarrow> bool \<Rightarrow> string + projection" where
  "projectRows uni parse rows failed =
     andThen (groupRows uni rows \<lparr>rgGroups = [], rgBad = [], rgReported = [], rgExplicit = False\<rparr>) (\<lambda>g.
       gradeSources uni parse failed g (sort (map fst (rgGroups g))) noProjection)"

section \<open>Difference\<close>

definition ofKind :: "string \<Rightarrow> Evidence list \<Rightarrow> Evidence list" where
  "ofKind k es = filter (\<lambda>e. evKind e = k) es"

definition baseChange :: "SourceState \<Rightarrow> SourceState \<Rightarrow> string \<Rightarrow> Change" where
  "baseChange old now k =
     \<lparr>chID = [], chTimestamp = [], chTarget = [], chTargetType = [], chSource = ssSource now, chEvidenceType = k, chKind = [],
      chOld = None, chNew = None, chOldProvenance = ssProvenance old, chProvenance = ssProvenance now\<rparr>"

definition kindChanges :: "Change \<Rightarrow> Evidence list \<Rightarrow> Evidence list \<Rightarrow> Change list" where
  "kindChanges base a b =
     (if length a = 1 \<and> length b = 1 then [base\<lparr>chKind := ''MODIFIED'', chOld := Some (a ! 0), chNew := Some (b ! 0)\<rparr>]
      else map (\<lambda>e. base\<lparr>chKind := ''ADDED'', chNew := Some e\<rparr>) b
         @ map (\<lambda>e. base\<lparr>chKind := ''REMOVED'', chOld := Some e\<rparr>) a)"

definition changeValue :: "Change \<Rightarrow> string" where
  "changeValue c = (case chNew c of Some e \<Rightarrow> evValue e
     | None \<Rightarrow> (case chOld c of Some e \<Rightarrow> evValue e | None \<Rightarrow> []))"

definition changeLess :: "Change \<Rightarrow> Change \<Rightarrow> bool" where
  "changeLess a b \<longleftrightarrow>
     (if chEvidenceType a \<noteq> chEvidenceType b then chEvidenceType a < chEvidenceType b
      else if changeValue a \<noteq> changeValue b then changeValue a < changeValue b
      else chKind a < chKind b)"

definition diff :: "SourceState \<Rightarrow> SourceState \<Rightarrow> Change list" where
  "diff old now =
     (let a = elems (ssEvidence old); b = elems (ssEvidence now);
          removed = filter (\<lambda>e. e \<notin> set b) a; added = filter (\<lambda>e. e \<notin> set a) b;
          keys = sort (remdups (map evKind removed @ map evKind added))
      in sortBy changeLess (concat (map (\<lambda>k. kindChanges (baseChange old now k) (ofKind k removed) (ofKind k added)) keys)))"

section \<open>Baselines\<close>

definition newSnapshot :: "Target \<Rightarrow> Snapshot" where
  "newSnapshot t = \<lparr>snVersion = 1, snTarget = tValue t, snTargetType = tKind t, snRevision = 0, snSources = Some []\<rparr>"

definition stateKey :: "SourceState \<Rightarrow> string" where
  "stateKey s = sourceKey (ssSource s) (ssType s)"

text \<open>One source of the merge: a known one is replaced and compared, a new one is appended.\<close>

fun mergeInto :: "SourceState \<Rightarrow> SourceState list \<Rightarrow> SourceState list \<times> Change list \<times> nat" where
  "mergeInto now [] = ([now], [], 1)"
| "mergeInto now (s # ss) =
     (if stateKey s = stateKey now then (now # ss, diff s now, 0)
      else let (r, events, created) = mergeInto now ss in (s # r, events, created))"

fun mergeLoop :: "SourceState list \<Rightarrow> SourceState list \<Rightarrow> Change list \<Rightarrow> nat \<Rightarrow> SourceState list \<times> Change list \<times> nat" where
  "mergeLoop [] ss events created = (ss, events, created)"
| "mergeLoop (now # rest) ss events created =
     (let (r, e, c) = mergeInto now ss in mergeLoop rest r (events @ e) (created + c))"

definition stateLess :: "SourceState \<Rightarrow> SourceState \<Rightarrow> bool" where
  "stateLess a b \<longleftrightarrow> stateKey a < stateKey b"

text \<open>Appending to a nil slice keeps it nil when nothing is appended.\<close>

definition merge :: "Snapshot \<Rightarrow> SourceState list \<Rightarrow> Snapshot \<times> Change list \<times> nat" where
  "merge old current =
     (let (ss, events, created) = mergeLoop current (elems (snSources old)) [] 0;
          ss = sortBy stateLess ss;
          sources = (if ss = [] then None else Some ss);
          same = marshal (sliceJSON sourceStateJSON (snSources old)) = marshal (sliceJSON sourceStateJSON sources)
      in (old\<lparr>snSources := sources, snRevision := (if same then snRevision old else snRevision old + 1)\<rparr>, events, created))"

definition stateError :: string where
  "stateError = ''corrupt monitoring baseline; new baseline required''"

definition provenanceBad :: "SourceState \<Rightarrow> Provenance \<Rightarrow> bool" where
  "provenanceBad v p \<longleftrightarrow> pvSource p \<noteq> ssSource v \<or> pvSourceType p \<noteq> ssType v \<or> Redact (pvProvider p) [] \<noteq> pvProvider p
     \<or> Redact (pvURL p) [] \<noteq> pvURL p"

fun stateLoop :: "(string \<Rightarrow> string) \<Rightarrow> (string \<Rightarrow> json option) \<Rightarrow> string \<Rightarrow> nat \<Rightarrow> SourceState list \<Rightarrow> bool" where
  "stateLoop uni parse previous tot [] \<longleftrightarrow> True"
| "stateLoop uni parse previous tot (v # vs) \<longleftrightarrow>
     previous < stateKey v \<and> ssSource v \<noteq> [] \<and> Redact (ssSource v) [] = ssSource v
   \<and> (case canonicalEvidence uni parse (elems (ssEvidence v)) of
        Inl _ \<Rightarrow> False
      | Inr es \<Rightarrow> marshal (sliceJSON evJSON (Some es)) = marshal (sliceJSON evJSON (ssEvidence v)))
   \<and> tot + length (elems (ssEvidence v)) \<le> MaxEvidence
   \<and> list_all (\<lambda>p. \<not> provenanceBad v p) (elems (ssProvenance v))
   \<and> stateLoop uni parse (stateKey v) (tot + length (elems (ssEvidence v))) vs"

text \<open>\<open>decode\<close> is the strict decoder, which refuses unknown fields; what follows the value it does not see.\<close>

definition parseState :: "(string \<Rightarrow> string) \<Rightarrow> (string \<Rightarrow> json option) \<Rightarrow> (string \<Rightarrow> Snapshot option) \<Rightarrow> string \<Rightarrow> Target
    \<Rightarrow> string + Snapshot" where
  "parseState uni parse decode raw t =
     failIf (length raw > MaxStateBytes) stateError
     (case decode raw of None \<Rightarrow> Inl stateError
      | Some s \<Rightarrow>
          failIf (snRevision s = - 1 \<or> snVersion s \<noteq> 1 \<or> snTarget s \<noteq> tValue t \<or> snTargetType s \<noteq> tKind t
              \<or> length (elems (snSources s)) > MaxRows) stateError
          (failIf (marshal (snapshotJSON s) \<noteq> raw) stateError
          (failIf (\<not> stateLoop uni parse [] 0 (elems (snSources s))) stateError (Inr s))))"

end
