(* ===== verification/MonitorSnapshotInv.thy ===== *)
theory MonitorSnapshotInv
  imports MonitorSnapshot
begin

text \<open>
  What the comparison of observations guarantees: the difference is exact, the merge is an overriding union of the
  baseline with the complete observations, and an incomplete observation of a source never touches its baseline.
\<close>

section \<open>Difference\<close>

definition olds :: "Change list \<Rightarrow> Evidence set" where
  "olds cs = {e. \<exists>c \<in> set cs. chOld c = Some e}"

definition news :: "Change list \<Rightarrow> Evidence set" where
  "news cs = {e. \<exists>c \<in> set cs. chNew c = Some e}"

lemma olds_simps [simp]: "olds [] = {}" "olds (xs @ ys) = olds xs \<union> olds ys" "news [] = {}" "news (xs @ ys) = news xs \<union> news ys"
  by (auto simp: olds_def news_def)

lemma olds_concat: "olds (concat css) = (\<Union>cs \<in> set css. olds cs)" "news (concat css) = (\<Union>cs \<in> set css. news cs)"
  by (induction css) auto

lemma olds_sortBy [simp]: "olds (sortBy lt cs) = olds cs" "news (sortBy lt cs) = news cs"
  by (simp_all add: olds_def news_def)

lemma olds_map:
  "chOld base = None \<Longrightarrow> olds (map (\<lambda>e. base\<lparr>chKind := k, chNew := Some e\<rparr>) b) = {}"
  "olds (map (\<lambda>e. base\<lparr>chKind := k, chOld := Some e\<rparr>) a) = set a"
  "news (map (\<lambda>e. base\<lparr>chKind := k, chNew := Some e\<rparr>) b) = set b"
  "chNew base = None \<Longrightarrow> news (map (\<lambda>e. base\<lparr>chKind := k, chOld := Some e\<rparr>) a) = {}"
  by (auto simp: olds_def news_def image_iff)

lemma kindChanges_exact:
  assumes "chOld base = None" and "chNew base = None"
  shows "olds (kindChanges base a b) = set a" and "news (kindChanges base a b) = set b"
proof -
  have "olds (kindChanges base a b) = set a \<and> news (kindChanges base a b) = set b"
  proof (cases "length a = 1 \<and> length b = 1")
    case True
    then obtain x y where "a = [x]" "b = [y]" by (auto simp: length_Suc_conv)
    then show ?thesis by (auto simp: kindChanges_def olds_def news_def)
  next
    case False
    then show ?thesis using assms unfolding kindChanges_def by (simp only: if_False olds_simps olds_map) simp
  qed
  then show "olds (kindChanges base a b) = set a" "news (kindChanges base a b) = set b" by simp_all
qed

lemma baseChange_empty: "chOld (baseChange old now k) = None" "chNew (baseChange old now k) = None"
  by (simp_all add: baseChange_def)

lemma diff_sets:
  "olds (diff old now) = set (elems (ssEvidence old)) - set (elems (ssEvidence now))"
  "news (diff old now) = set (elems (ssEvidence now)) - set (elems (ssEvidence old))"
  by (auto simp: diff_def Let_def olds_concat kindChanges_exact [OF baseChange_empty] ofKind_def)

lemma kindChanges_sound:
  "c \<in> set (kindChanges base a b) \<Longrightarrow> chOld base = None \<Longrightarrow> chNew base = None \<Longrightarrow>
   (chKind c = ''MODIFIED'' \<and> chOld c \<noteq> None \<and> chNew c \<noteq> None) \<or> (chKind c = ''ADDED'' \<and> chOld c = None \<and> chNew c \<noteq> None)
   \<or> (chKind c = ''REMOVED'' \<and> chOld c \<noteq> None \<and> chNew c = None)"
  by (auto simp: kindChanges_def split: if_splits)

lemma diff_kinds:
  assumes "c \<in> set (diff old now)"
  shows "chOld c \<noteq> None \<or> chNew c \<noteq> None"
proof -
  obtain k where "c \<in> set (kindChanges (baseChange old now k) (ofKind k (filter (\<lambda>e. e \<notin> set (elems (ssEvidence now))) (elems (ssEvidence old))))
      (ofKind k (filter (\<lambda>e. e \<notin> set (elems (ssEvidence old))) (elems (ssEvidence now)))))"
    using assms by (auto simp: diff_def Let_def)
  from kindChanges_sound [OF this baseChange_empty] show ?thesis by blast
qed

lemma diff_nil: "diff old now = [] \<longleftrightarrow> set (elems (ssEvidence old)) = set (elems (ssEvidence now))"
proof
  assume "diff old now = []"
  then show "set (elems (ssEvidence old)) = set (elems (ssEvidence now))" using diff_sets [of old now] by auto
next
  assume eq: "set (elems (ssEvidence old)) = set (elems (ssEvidence now))"
  show "diff old now = []"
  proof (rule ccontr)
    assume "diff old now \<noteq> []"
    then obtain c where c: "c \<in> set (diff old now)" by (meson ex_in_conv set_empty)
    then show False using diff_kinds [OF c] diff_sets [of old now] eq unfolding olds_def news_def by blast
  qed
qed

section \<open>Merge\<close>

text \<open>The baseline as a finite map from source keys to states.\<close>

definition sourceMap :: "SourceState list \<Rightarrow> string \<rightharpoonup> SourceState" where
  "sourceMap ss = map_of (map (\<lambda>s. (stateKey s, s)) ss)"

definition keyedStates :: "SourceState list \<Rightarrow> bool" where
  "keyedStates ss \<longleftrightarrow> distinct (map stateKey ss)"

lemma sourceMap_simps [simp]: "sourceMap [] = Map.empty" "sourceMap (s # ss) = (sourceMap ss)(stateKey s \<mapsto> s)"
  by (simp_all add: sourceMap_def)

lemma sourceMap_None: "sourceMap ss k = None \<longleftrightarrow> k \<notin> set (map stateKey ss)"
  by (simp add: sourceMap_def map_of_eq_None_iff image_image)

lemma mergeInto_map:
  "keyedStates ss \<Longrightarrow> mergeInto now ss = (r, e, c) \<Longrightarrow>
   sourceMap r = (sourceMap ss)(stateKey now \<mapsto> now) \<and> keyedStates r
   \<and> set (map stateKey r) = insert (stateKey now) (set (map stateKey ss))
   \<and> e = (case sourceMap ss (stateKey now) of None \<Rightarrow> [] | Some s \<Rightarrow> diff s now)
   \<and> c = (case sourceMap ss (stateKey now) of None \<Rightarrow> 1 | Some s \<Rightarrow> 0)"
proof (induction now ss arbitrary: r e c rule: mergeInto.induct)
  case (1 now)
  then show ?case by (auto simp: keyedStates_def)
next
  case (2 now s ss)
  show ?case
  proof (cases "stateKey s = stateKey now")
    case True
    then show ?thesis using 2(2,3) by (auto simp: keyedStates_def)
  next
    case False
    obtain r1 where r1: "mergeInto now ss = (r1, e, c)" "r = s # r1" using 2(3) False by (auto split: prod.splits)
    have k: "keyedStates ss" using 2(2) by (simp add: keyedStates_def)
    note ih = 2(1) [OF False k r1(1)]
    have "stateKey s \<notin> set (map stateKey r1)" using ih 2(2) False by (auto simp: keyedStates_def)
    then show ?thesis using ih r1(2) False by (auto simp: keyedStates_def fun_upd_twist)
  qed
qed

lemma sourceMap_cong:
  assumes "keyedStates xs" and "mset xs = mset ys"
  shows "sourceMap xs = sourceMap ys \<and> keyedStates ys"
proof -
  let ?p = "\<lambda>s. (stateKey s, s)"
  have eq: "map fst (map ?p zs) = map stateKey zs" for zs by simp
  have y: "keyedStates ys"
    using assms mset_eq_imp_distinct_iff [of "map stateKey xs" "map stateKey ys"] by (simp add: keyedStates_def)
  then have "map_of (map ?p xs) = map_of (map ?p ys)"
    using assms map_of_inject_set [of "map ?p xs" "map ?p ys"] mset_eq_setD [OF assms(2)]
    unfolding eq keyedStates_def by simp
  then show ?thesis using y by (simp add: sourceMap_def)
qed

lemma mergeLoop_map:
  "keyedStates ss \<Longrightarrow> mergeLoop cur ss ev n = (r, ev', n') \<Longrightarrow> keyedStates r \<and> sourceMap r = sourceMap ss ++ sourceMap (rev cur)"
proof (induction cur ss ev n arbitrary: r ev' n' rule: mergeLoop.induct)
  case (1 ss ev n)
  then show ?case by simp
next
  case (2 now rest ss ev n)
  obtain r1 e c where m: "mergeInto now ss = (r1, e, c)" by (metis prod_cases3)
  have loop: "mergeLoop rest r1 (ev @ e) (n + c) = (r, ev', n')" using 2(3) m by simp
  note one = mergeInto_map [OF 2(2) m]
  have "keyedStates r1" using one by simp
  from 2(1) [OF m [symmetric] refl refl this loop] one show ?case
    by (auto simp: sourceMap_def map_add_def fun_eq_iff split: option.splits)
qed

lemma elems_if: "elems (if xs = [] then None else Some xs) = xs"
  by (simp add: elems_def)

lemma merge_map:
  assumes "keyedStates (elems (snSources old))" and "keyedStates cur"
  shows "sourceMap (elems (snSources (fst (merge old cur)))) = sourceMap (elems (snSources old)) ++ sourceMap cur
    \<and> keyedStates (elems (snSources (fst (merge old cur))))"
proof -
  obtain r ev n where m: "mergeLoop cur (elems (snSources old)) [] 0 = (r, ev, n)" by (metis prod_cases3)
  note l = mergeLoop_map [OF assms(1) m]
  have src: "elems (snSources (fst (merge old cur))) = sortBy stateLess r"
    by (simp add: merge_def m Let_def elems_if)
  have "sourceMap (rev cur) = sourceMap cur" using sourceMap_cong [OF assms(2), of "rev cur"] by simp
  moreover have "sourceMap (sortBy stateLess r) = sourceMap r" "keyedStates (sortBy stateLess r)"
    using sourceMap_cong [of r "sortBy stateLess r"] l by simp_all
  ultimately show ?thesis using l by (simp add: src)
qed

section \<open>Projection\<close>

text \<open>What the groups say of the rows read so far.\<close>

definition groupsOK :: "(string \<Rightarrow> string) \<Rightarrow> Result list \<Rightarrow> rowGroups \<Rightarrow> bool" where
  "groupsOK uni rows g \<longleftrightarrow> distinct (map fst (rgGroups g)) \<and> set (map fst (rgGroups g)) = rowKey uni ` set rows
     \<and> (\<forall>(k, s) \<in> set (rgGroups g). stateKey s = k)
     \<and> set (rgBad g) = rowKey uni ` {r \<in> set rows. badRow uni r} \<and> (rgExplicit g \<longleftrightarrow> (\<exists>r \<in> set rows. badRow uni r))"

lemma set_update_entries: "(k', v') \<in> set (AList.update k v al) \<Longrightarrow> (k', v') = (k, v) \<or> (k', v') \<in> set al"
  by (induction al) (auto split: if_splits)

lemma groupRow_OK:
  assumes ok: "groupsOK uni rows g" and step: "groupRow uni raw g = Inr g'"
  shows "groupsOK uni (rows @ [raw]) g'"
proof -
  define r where "r = Normalized uni raw"
  define old where "old = (case map_of (rgGroups g) (rowKey uni raw) of Some s \<Rightarrow> s
             | None \<Rightarrow> \<lparr>ssSource = rSource r, ssType = rSourceType r, ssProvenance = None, ssEvidence = None\<rparr>)"
  have key: "stateKey old = rowKey uni raw"
  proof (cases "map_of (rgGroups g) (rowKey uni raw)")
    case None
    then show ?thesis by (simp add: old_def stateKey_def rowKey_def r_def Let_def)
  next
    case (Some s)
    then have "(rowKey uni raw, s) \<in> set (rgGroups g)" by (rule map_of_SomeD)
    then show ?thesis using ok Some by (auto simp: old_def groupsOK_def)
  qed
  define st where "st = (if badRow uni raw then old else observedRow r old)"
  have st: "stateKey st = rowKey uni raw" using key by (simp add: st_def observedRow_def stateKey_def)
  have gr: "rgGroups g' = AList.update (rowKey uni raw) st (rgGroups g)"
    and bad: "rgBad g' = (if badRow uni raw then rowKey uni raw # rgBad g else rgBad g)"
    and expl: "rgExplicit g' = (badRow uni raw \<or> rgExplicit g)"
    using step by (auto simp: groupRow_def Let_def res_simps st_def old_def [unfolded r_def] r_def split: if_splits)
  have d: "distinct (map fst (rgGroups g'))" unfolding gr by (rule distinct_update) (use ok in \<open>simp add: groupsOK_def\<close>)
  have ks: "set (map fst (rgGroups g')) = rowKey uni ` set (rows @ [raw])"
    unfolding gr using ok by (auto simp: groupsOK_def update_keys)
  have es: "stateKey s = k" if "(k, s) \<in> set (rgGroups g')" for k s
    using set_update_entries [OF that [unfolded gr]] st ok by (auto simp: groupsOK_def)
  show ?thesis using d ks es bad expl ok by (auto simp: groupsOK_def)
qed

lemma groupRows_OK: "groupRows uni rs g = Inr g' \<Longrightarrow> groupsOK uni rows g \<Longrightarrow> groupsOK uni (rows @ rs) g'"
proof (induction rs arbitrary: rows g)
  case Nil
  then show ?case by simp
next
  case (Cons r rs)
  then obtain g1 where "groupRow uni r g = Inr g1" "groupRows uni rs g1 = Inr g'" by (auto simp: res_simps)
  then show ?case using Cons.IH [of g1 "rows @ [r]"] groupRow_OK [OF Cons.prems(2)] by simp
qed

text \<open>A state is only accepted for a key whose source has no bad row, and not for an unexplained failure.\<close>

lemma gradeSources_good:
  "gradeSources uni parse failed g ks p = Inr p' \<Longrightarrow> st \<in> set (pGood p') \<Longrightarrow> st \<notin> set (pGood p) \<Longrightarrow>
   \<exists>k \<in> set ks. stateKey st = stateKey (the (map_of (rgGroups g) k)) \<and> k \<notin> set (rgBad g) \<and> (failed \<longrightarrow> rgExplicit g)"
proof (induction ks arbitrary: p)
  case Nil
  then show ?case by simp
next
  case (Cons k ks)
  then obtain p1 where p1: "gradeSource uni parse failed g k p = Inr p1" "gradeSources uni parse failed g ks p1 = Inr p'"
    by (auto simp: res_simps)
  show ?case
  proof (cases "st \<in> set (pGood p1)")
    case False
    then show ?thesis using Cons.IH [OF p1(2) Cons.prems(2)] by auto
  next
    case True
    then show ?thesis using p1(1) Cons.prems(3)
      by (auto simp: gradeSource_def Let_def res_simps stateKey_def split: if_splits)
  qed
qed

lemma gradeSources_keys:
  "gradeSources uni parse failed g ks p = Inr p' \<Longrightarrow>
   \<exists>ks'. set ks' \<subseteq> set ks \<and> (distinct ks \<longrightarrow> distinct ks')
     \<and> map stateKey (pGood p') = map stateKey (pGood p) @ map (\<lambda>k. stateKey (the (map_of (rgGroups g) k))) ks'"
proof (induction ks arbitrary: p)
  case Nil
  then show ?case by simp
next
  case (Cons k ks)
  then obtain p1 where p1: "gradeSource uni parse failed g k p = Inr p1" "gradeSources uni parse failed g ks p1 = Inr p'"
    by (auto simp: res_simps)
  obtain ks' where ks': "set ks' \<subseteq> set ks" "distinct ks \<longrightarrow> distinct ks'"
      "map stateKey (pGood p') = map stateKey (pGood p1) @ map (\<lambda>k. stateKey (the (map_of (rgGroups g) k))) ks'"
    using Cons.IH [OF p1(2)] by blast
  have "map stateKey (pGood p1) = map stateKey (pGood p)
      \<or> map stateKey (pGood p1) = map stateKey (pGood p) @ [stateKey (the (map_of (rgGroups g) k))]"
    using p1(1) by (auto simp: gradeSource_def Let_def res_simps stateKey_def split: if_splits)
  then show ?case
  proof
    assume "map stateKey (pGood p1) = map stateKey (pGood p)"
    then show ?thesis using ks' by (intro exI [of _ ks']) auto
  next
    assume "map stateKey (pGood p1) = map stateKey (pGood p) @ [stateKey (the (map_of (rgGroups g) k))]"
    then show ?thesis using ks' by (intro exI [of _ "k # ks'"]) auto
  qed
qed

lemma projectRows_good:
  assumes "projectRows uni parse rows failed = Inr p"
  shows "keyedStates (pGood p)"
    and "st \<in> set (pGood p) \<Longrightarrow> stateKey st \<in> rowKey uni ` set rows \<and> (\<forall>r \<in> set rows. rowKey uni r = stateKey st \<longrightarrow> \<not> badRow uni r)
      \<and> (failed \<longrightarrow> (\<exists>r \<in> set rows. badRow uni r))"
proof -
  obtain g where g: "groupRows uni rows \<lparr>rgGroups = [], rgBad = [], rgReported = [], rgExplicit = False\<rparr> = Inr g"
      "gradeSources uni parse failed g (sort (map fst (rgGroups g))) noProjection = Inr p"
    using assms by (auto simp: projectRows_def res_simps)
  have ok: "groupsOK uni rows g" using groupRows_OK [OF g(1), of "[]"] by (simp add: groupsOK_def)
  have key: "stateKey (the (map_of (rgGroups g) k)) = k" if "k \<in> set (map fst (rgGroups g))" for k
  proof -
    obtain s where "map_of (rgGroups g) k = Some s" using \<open>k \<in> set (map fst (rgGroups g))\<close> by (metis map_of_eq_None_iff list.set_map not_None_eq)
    then show ?thesis using ok map_of_SomeD [of "rgGroups g" k s] by (auto simp: groupsOK_def)
  qed
  obtain ks where ks: "set ks \<subseteq> set (map fst (rgGroups g))" "distinct ks"
      "map stateKey (pGood p) = map (\<lambda>k. stateKey (the (map_of (rgGroups g) k))) ks"
    using gradeSources_keys [OF g(2)] ok by (auto simp: groupsOK_def noProjection_def)
  have "map (\<lambda>k. stateKey (the (map_of (rgGroups g) k))) ks = ks" using ks(1) key by (intro map_idI) blast
  then show "keyedStates (pGood p)" using ks by (simp add: keyedStates_def)
  assume st: "st \<in> set (pGood p)"
  obtain k where k: "k \<in> set (map fst (rgGroups g))" "stateKey st = stateKey (the (map_of (rgGroups g) k))" "k \<notin> set (rgBad g)"
      "failed \<longrightarrow> rgExplicit g"
    using gradeSources_good [OF g(2) st] by (auto simp: noProjection_def)
  then have "stateKey st = k" using key by simp
  then show "stateKey st \<in> rowKey uni ` set rows \<and> (\<forall>r \<in> set rows. rowKey uni r = stateKey st \<longrightarrow> \<not> badRow uni r)
      \<and> (failed \<longrightarrow> (\<exists>r \<in> set rows. badRow uni r))"
  proof (intro conjI ballI impI)
    show "stateKey st \<in> rowKey uni ` set rows" using k(1) ok \<open>stateKey st = k\<close> by (simp add: groupsOK_def)
    have bad: "set (rgBad g) = rowKey uni ` {r \<in> set rows. badRow uni r}" using ok by (simp add: groupsOK_def)
    show "\<not> badRow uni r" if "r \<in> set rows" "rowKey uni r = stateKey st" for r
      using k(3) that \<open>stateKey st = k\<close> unfolding bad by (metis (mono_tags, lifting) image_eqI mem_Collect_eq)
    show "\<exists>r \<in> set rows. badRow uni r" if failed using k(4) ok that by (simp add: groupsOK_def)
  qed
qed

section \<open>Properties\<close>

text \<open>C18: the difference of two observations of a source is exact: the old values of its changes are precisely the
  evidence that disappeared, the new values precisely the evidence that appeared, so applying the changes to the old
  evidence gives the new; and there is no change exactly when the two evidence sets agree.\<close>

theorem diff_exact:
  "olds (diff old now) = set (elems (ssEvidence old)) - set (elems (ssEvidence now))
   \<and> news (diff old now) = set (elems (ssEvidence now)) - set (elems (ssEvidence old))
   \<and> (set (elems (ssEvidence old)) - olds (diff old now)) \<union> news (diff old now) = set (elems (ssEvidence now))
   \<and> (diff old now = [] \<longleftrightarrow> set (elems (ssEvidence old)) = set (elems (ssEvidence now)))"
  using diff_sets [of old now] diff_nil [of old now] by auto

text \<open>The merge refines an overriding union of finite maps: over source keys, the new baseline is the old one
  overridden by the observed states, for any baseline and observation with one state for each key, and stays so keyed.\<close>

theorem merge_refines_override:
  assumes "keyedStates (elems (snSources old))" and "keyedStates cur"
  shows "sourceMap (elems (snSources (fst (merge old cur)))) = sourceMap (elems (snSources old)) ++ sourceMap cur
    \<and> keyedStates (elems (snSources (fst (merge old cur))))"
  by (rule merge_map [OF assms])

text \<open>A failed or partial observation never replaces a baseline: when a row of a source is incomplete, has no status
  or reports an error, or when the search failed without any such row, the merge of the projected rows leaves the baseline of
  the source as it was.\<close>

theorem bad_source_keeps_baseline:
  assumes "projectRows uni parse rows failed = Inr p" and "keyedStates (elems (snSources old))"
    and "(\<exists>r \<in> set rows. rowKey uni r = k \<and> badRow uni r) \<or> failed \<and> (\<forall>r \<in> set rows. \<not> badRow uni r)"
  shows "sourceMap (elems (snSources (fst (merge old (pGood p))))) k = sourceMap (elems (snSources old)) k"
proof -
  have "k \<notin> set (map stateKey (pGood p))"
  proof
    assume "k \<in> set (map stateKey (pGood p))"
    then obtain st where "st \<in> set (pGood p)" "stateKey st = k" by auto
    then show False using projectRows_good(2) [OF assms(1)] assms(3) by blast
  qed
  then have "sourceMap (pGood p) k = None" by (rule sourceMap_None [THEN iffD2])
  then show ?thesis using merge_map [OF assms(2) projectRows_good(1) [OF assms(1)]] by (simp add: map_add_def)
qed

definition demoState :: "string \<Rightarrow> string \<Rightarrow> SourceState" where
  "demoState source value = \<lparr>ssSource = source, ssType = SourceAPI, ssProvenance = Some [],
     ssEvidence = Some [\<lparr>evKind = ''name'', evValue = value\<rparr>]\<rparr>"

definition demoBaseline :: Snapshot where
  "demoBaseline = \<lparr>snVersion = 1, snTarget = ''x'', snTargetType = TargetUsername, snRevision = 4,
     snSources = Some [demoState ''a'' ''1'', demoState ''b'' ''2'']\<rparr>"

lemma demo_keys: "stateKey (demoState s v) = s @ [CHR 0x00] @ ''api''" "keyedStates (elems (snSources demoBaseline))"
  by (simp_all add: stateKey_def sourceKey_def demoState_def demoBaseline_def keyedStates_def elems_def SourceAPI_def)

theorem merge_refines_override_witness:
  "sourceMap (elems (snSources (fst (merge demoBaseline [demoState ''b'' ''3''])))) (''b'' @ [CHR 0x00] @ ''api'')
   = Some (demoState ''b'' ''3'')"
  using merge_refines_override [OF demo_keys(2), of "[demoState ''b'' ''3'']"]
  by (simp add: keyedStates_def demo_keys)

theorem bad_source_keeps_baseline_witness:
  "sourceMap (elems (snSources (fst (merge demoBaseline [])))) (''a'' @ [CHR 0x00] @ ''api'') = Some (demoState ''a'' ''1'')"
proof -
  have "projectRows id (\<lambda>_. None) [] True = Inr noProjection" by (simp add: projectRows_def)
  from bad_source_keeps_baseline [OF this demo_keys(2), of "''a'' @ [CHR 0x00] @ ''api''"]
  show ?thesis by (simp add: noProjection_def demoBaseline_def elems_def demo_keys)
qed

end
