(* ===== verification/MonitorStore.thy ===== *)
theory MonitorStore
  imports MonitorSnapshot Sources Sha256
begin

text \<open>
  The monitor's store (\<open>src/internal/monitor/store.go\<close>).  The two directories are maps from names to contents.
  Every call to the operating system asks the oracle, which lets it succeed or fail, a write after some of
  its bytes; a file that is not regular or not private is a failing call.  Bytes that were written stay written:
  losing unsynced data is not modelled.  \<open>ids\<close> stands for \<open>json.Unmarshal\<close> of the two identity fields of an event.
\<close>

section \<open>The store and its input and output\<close>

datatype ioFault = Fine | Broken nat goError

type_synonym faults = "nat \<Rightarrow> ioFault"

datatype dir = RootDir | StateDir

record logState =
  lgSize :: int
  lgSeen :: "string list"

record store =
  soRoot :: "string \<rightharpoonup> string"
  soState :: "string \<rightharpoonup> string"
  soLogs :: "string \<rightharpoonup> logState"
  soFiles :: "string list"
  soWarnings :: "string list"
  soOpen :: bool
  soClock :: nat

type_synonym 'a act = "store \<Rightarrow> (goError + 'a) \<times> store"

definition bindA :: "'a act \<Rightarrow> ('a \<Rightarrow> 'b act) \<Rightarrow> 'b act" where
  "bindA a k s = (case a s of (Inl e, s') \<Rightarrow> (Inl e, s') | (Inr x, s') \<Rightarrow> k x s')"

definition failA :: "string \<Rightarrow> 'a act" where
  "failA msg s = (Inl (plainError msg), s)"

definition okA :: "'a \<Rightarrow> 'a act" where
  "okA x s = (Inr x, s)"

lemma bindA_Inr: "bindA a k s = (Inr y, s') \<longleftrightarrow> (\<exists>x t. a s = (Inr x, t) \<and> k x t = (Inr y, s'))"
  by (auto simp: bindA_def split: prod.splits sum.splits)

lemma bindA_cases:
  "bindA a k s = (r, s') \<Longrightarrow> (\<exists>e. a s = (Inl e, s') \<and> r = Inl e) \<or> (\<exists>x t. a s = (Inr x, t) \<and> k x t = (r, s'))"
  by (auto simp: bindA_def split: prod.splits sum.splits)

definition ErrNotExist :: goError where "ErrNotExist = plainError ''file does not exist''"
definition errFileLimit :: goError where "errFileLimit = plainError ''monitor file exceeds size limit''"
definition storeClosed :: string where "storeClosed = ''monitor store closed''"

definition filesIn :: "dir \<Rightarrow> store \<Rightarrow> string \<rightharpoonup> string" where
  "filesIn d s = (case d of RootDir \<Rightarrow> soRoot s | StateDir \<Rightarrow> soState s)"

definition setFile :: "dir \<Rightarrow> string \<Rightarrow> string option \<Rightarrow> store \<Rightarrow> store" where
  "setFile d name c s = (case d of RootDir \<Rightarrow> s\<lparr>soRoot := (soRoot s)(name := c)\<rparr> | StateDir \<Rightarrow> s\<lparr>soState := (soState s)(name := c)\<rparr>)"

text \<open>One call that changes nothing itself: a sync, a close, a check.\<close>

definition ioCall :: "faults \<Rightarrow> unit act" where
  "ioCall orc s = ((case orc (soClock s) of Broken n e \<Rightarrow> Inl e | Fine \<Rightarrow> Inr ()), s\<lparr>soClock := soClock s + 1\<rparr>)"

definition openMonitorFile :: "faults \<Rightarrow> dir \<Rightarrow> string \<Rightarrow> bool \<Rightarrow> unit act" where
  "openMonitorFile orc d name create =
     bindA (ioCall orc) (\<lambda>_ s.
       if filesIn d s name \<noteq> None then (Inr (), s)
       else if create then (Inr (), setFile d name (Some []) s)
       else (Inl ErrNotExist, s))"

definition readMonitorFile :: "faults \<Rightarrow> dir \<Rightarrow> string \<Rightarrow> nat \<Rightarrow> string act" where
  "readMonitorFile orc d name limit =
     bindA (openMonitorFile orc d name False) (\<lambda>_. bindA (ioCall orc) (\<lambda>_ s.
       let raw = the (filesIn d s name)
       in if length raw > limit then (Inl errFileLimit, s) else (Inr raw, s)))"

text \<open>A write appends what the oracle lets through; the number of bytes and the error are its answer.\<close>

definition writeFile :: "faults \<Rightarrow> dir \<Rightarrow> string \<Rightarrow> string \<Rightarrow> nat act" where
  "writeFile orc d name raw s =
     (let old = the (filesIn d s name); tick = (\<lambda>n. (setFile d name (Some (old @ take n raw)) s)\<lparr>soClock := soClock s + 1\<rparr>) in
      case orc (soClock s) of
        Fine \<Rightarrow> (Inr (length raw), tick (length raw))
      | Broken n e \<Rightarrow> (Inl e, tick n))"

definition truncateFile :: "faults \<Rightarrow> dir \<Rightarrow> string \<Rightarrow> nat \<Rightarrow> unit act" where
  "truncateFile orc d name n =
     bindA (ioCall orc) (\<lambda>_ s. (Inr (), setFile d name (Some (take n (the (filesIn d s name)))) s))"

definition renameWithin :: "faults \<Rightarrow> dir \<Rightarrow> string \<Rightarrow> string \<Rightarrow> unit act" where
  "renameWithin orc d old new =
     bindA (ioCall orc) (\<lambda>_ s.
       case filesIn d s old of None \<Rightarrow> (Inl ErrNotExist, s)
       | Some c \<Rightarrow> (Inr (), setFile d new (Some c) (setFile d old None s)))"

text \<open>\<open>errors.Join(err, f.Close())\<close> around a sequence of calls on an open file.\<close>

definition closing :: "faults \<Rightarrow> 'a act \<Rightarrow> 'a act" where
  "closing orc a s =
     (let (r, s) = a s; (c, s) = ioCall orc s;
          errs = (case r of Inl e \<Rightarrow> [e] | Inr _ \<Rightarrow> []) @ (case c of Inl e \<Rightarrow> [e] | Inr _ \<Rightarrow> [])
      in (case joinErrors errs of Some e \<Rightarrow> Inl e | None \<Rightarrow> r, s))"

definition syncRoot :: "faults \<Rightarrow> unit act" where
  "syncRoot orc = bindA (ioCall orc) (\<lambda>_. ioCall orc)"

section \<open>Identities\<close>

definition MaxLogBytes :: nat where "MaxLogBytes = 8388608"
definition MaxLogBatchBytes :: nat where "MaxLogBatchBytes = 4194304"
definition MaxTargets :: nat where "MaxTargets = 256"

definition validStorageKey :: "string \<Rightarrow> bool" where
  "validStorageKey key \<longleftrightarrow> length key = 64
     \<and> list_all (\<lambda>c. isDigitC c \<or> CHR ''a'' \<le> c \<and> c \<le> CHR ''f'') key"

definition Identity :: "Target \<Rightarrow> string" where
  "Identity t = encodeToString (sha256 (bytesOf (tKind t @ [CHR 0x00] @ tValue t)))"

definition eventID :: "(string \<Rightarrow> (string \<times> string) option) \<Rightarrow> string \<Rightarrow> string + string" where
  "eventID ids raw =
     failIf (length raw > MaxLogBatchBytes) ''event too large''
     (case ids raw of None \<Rightarrow> Inl ''invalid log event''
      | Some (changeID, runID) \<Rightarrow>
          let i = (if changeID = [] then runID else changeID)
          in failIf (\<not> validStorageKey i) ''invalid event identity'' (Inr i))"

section \<open>Logs\<close>

abbreviation NL :: char where "NL \<equiv> CHR 0x0A"

text \<open>\<open>raw[:bytes.LastIndexByte(raw, '\n')+1]\<close>\<close>

definition completePart :: "string \<Rightarrow> string" where
  "completePart raw = rev (dropWhile (\<lambda>c. c \<noteq> NL) (rev raw))"

fun seenLines :: "(string \<Rightarrow> (string \<times> string) option) \<Rightarrow> string list \<Rightarrow> string list \<Rightarrow> (string list) act" where
  "seenLines ids [] seen = okA seen"
| "seenLines ids (line # rest) seen =
     (if line = [] then seenLines ids rest seen
      else case eventID ids line of Inl _ \<Rightarrow> failA ''corrupt complete monitor log record''
        | Inr i \<Rightarrow> seenLines ids rest (i # seen))"

definition oldLog :: "string \<Rightarrow> string" where "oldLog name = name @ ''.1.jsonl''"
definition curLog :: "string \<Rightarrow> string" where "curLog name = name @ ''.jsonl''"

definition warn :: "string \<Rightarrow> unit act" where
  "warn msg s = (Inr (), s\<lparr>soWarnings := soWarnings s @ [msg]\<rparr>)"

text \<open>An incomplete trailing write is cut off.\<close>

definition recoverTail :: "faults \<Rightarrow> string \<Rightarrow> string \<Rightarrow> string \<Rightarrow> string act" where
  "recoverTail orc name file raw =
     (if raw \<noteq> [] \<and> last raw \<noteq> NL then
        bindA (openMonitorFile orc RootDir file False) (\<lambda>_.
        bindA (closing orc (bindA (truncateFile orc RootDir file (length (completePart raw))) (\<lambda>_. ioCall orc))) (\<lambda>_.
        bindA (warn (''recovered incomplete trailing '' @ name @ '' log record'')) (\<lambda>_.
        okA (completePart raw))))
      else okA raw)"

text \<open>One file of the log: the identities seen so far with its own, and its size.  A missing file has none.\<close>

definition loadLogFile :: "faults \<Rightarrow> (string \<Rightarrow> (string \<times> string) option) \<Rightarrow> string \<Rightarrow> string \<Rightarrow> string list
    \<Rightarrow> (string list \<times> int) act" where
  "loadLogFile orc ids name file seen s =
     (case readMonitorFile orc RootDir file MaxLogBytes s of
        (Inl e, s) \<Rightarrow> (if e = ErrNotExist then (Inr (seen, 0), s) else (Inl e, s))
      | (Inr raw, s) \<Rightarrow>
          bindA (recoverTail orc name file raw) (\<lambda>raw.
          bindA (seenLines ids (splitOn NL raw) seen) (\<lambda>seen.
          okA (seen, int (length raw)))) s)"

definition loadLog :: "faults \<Rightarrow> (string \<Rightarrow> (string \<times> string) option) \<Rightarrow> string \<Rightarrow> unit act" where
  "loadLog orc ids name =
     bindA (loadLogFile orc ids name (oldLog name) []) (\<lambda>(seen, _).
     bindA (loadLogFile orc ids name (curLog name) seen) (\<lambda>(seen, size) s.
       (Inr (), s\<lparr>soLogs := (soLogs s)(name \<mapsto> \<lparr>lgSize = size, lgSeen = seen\<rparr>)\<rparr>)))"

text \<open>The size of a batch, after every event was checked.\<close>

fun preflight :: "(string \<Rightarrow> (string \<times> string) option) \<Rightarrow> string list \<Rightarrow> nat \<Rightarrow> string + nat" where
  "preflight ids [] tot = Inr tot"
| "preflight ids (raw # rest) tot =
     (let tot = tot + length raw + 1 in
      failIf (tot > MaxLogBatchBytes) ''monitor log batch exceeds limit''
      (andThen (eventID ids raw) (\<lambda>_. preflight ids rest tot)))"

definition theLog :: "store \<Rightarrow> string \<Rightarrow> logState" where
  "theLog s name = (case soLogs s name of Some l \<Rightarrow> l | None \<Rightarrow> \<lparr>lgSize = 0, lgSeen = []\<rparr>)"

fun writeEvents :: "faults \<Rightarrow> (string \<Rightarrow> (string \<times> string) option) \<Rightarrow> string \<Rightarrow> string list \<Rightarrow> unit act" where
  "writeEvents orc ids name [] s = (Inr (), s)"
| "writeEvents orc ids name (raw # rest) s =
     (let i = (case eventID ids raw of Inr i \<Rightarrow> i | Inl _ \<Rightarrow> []); line = raw @ [NL] in
      if i \<in> set (lgSeen (theLog s name)) then writeEvents orc ids name rest s
      else (case writeFile orc RootDir (curLog name) line s of
              (Inl e, s) \<Rightarrow> (Inl e, s)
            | (Inr n, s) \<Rightarrow>
                if n \<noteq> length line then (Inl (plainError ''short write''), s)
                else let l = theLog s name in writeEvents orc ids name rest
                  (s\<lparr>soLogs := (soLogs s)(name \<mapsto> \<lparr>lgSize = lgSize l + int n, lgSeen = i # lgSeen l\<rparr>)\<rparr>)))"

definition rotate :: "faults \<Rightarrow> (string \<Rightarrow> (string \<times> string) option) \<Rightarrow> string \<Rightarrow> nat \<Rightarrow> unit act" where
  "rotate orc ids name tot s =
     (if lgSize (theLog s name) + int tot > int MaxLogBytes then
        bindA (renameWithin orc RootDir (curLog name) (oldLog name)) (\<lambda>_.
        bindA (syncRoot orc) (\<lambda>_. loadLog orc ids name)) s
      else (Inr (), s))"

definition appendLog :: "faults \<Rightarrow> (string \<Rightarrow> (string \<times> string) option) \<Rightarrow> string \<Rightarrow> string list \<Rightarrow> unit act" where
  "appendLog orc ids name events s =
     (case preflight ids events 0 of
        Inl e \<Rightarrow> (Inl (plainError e), s)
      | Inr tot \<Rightarrow>
          bindA (rotate orc ids name tot) (\<lambda>_.
          bindA (openMonitorFile orc RootDir (curLog name) True) (\<lambda>_.
            closing orc (bindA (writeEvents orc ids name events) (\<lambda>_.
              bindA (ioCall orc) (\<lambda>_. syncRoot orc))))) s)"

definition opened :: "'a act \<Rightarrow> 'a act" where
  "opened a s = (if soOpen s then a s else failA storeClosed s)"

definition Observations :: "faults \<Rightarrow> (string \<Rightarrow> (string \<times> string) option) \<Rightarrow> json \<Rightarrow> unit act" where
  "Observations orc ids observation = opened (appendLog orc ids ''observations'' [marshal observation])"

definition Changes :: "faults \<Rightarrow> (string \<Rightarrow> (string \<times> string) option) \<Rightarrow> Change list \<Rightarrow> unit act" where
  "Changes orc ids events =
     opened (let raw = map (\<lambda>e. marshal (changeJSON e)) events in
       if sum_list (map (\<lambda>l. length l + 1) raw) > MaxLogBatchBytes
       then failA ''change batch exceeds 4194304 bytes''
       else if raw = [] then okA ()
       else appendLog orc ids ''changes'' raw)"

end
