(* ===== verification/MonitorBaseline.thy ===== *)
theory MonitorBaseline
  imports MonitorStore
begin

text \<open>
  The store's directory and its baselines (\<open>src/internal/monitor/store.go\<close>): opening, loading, the capacity
  check and the atomic save.  What the operating system says of a directory is a \<open>dirInfo\<close>; the entries of the
  state directory come in the order of \<open>ReadDir\<close>, each with whether it is a regular file.
\<close>

section \<open>Opening and closing\<close>

record dirInfo =
  diIsDir :: bool
  diSymlink :: bool
  diPerm :: nat

record dirEnv =
  dvAbs :: "goError + string"
  dvRoot :: dirInfo
  dvState :: dirInfo
  dvLocked :: bool                       \<comment> \<open>another process holds the lock, or locking is not supported\<close>
  dvEntries :: "(string \<times> bool) list"

definition privateDir :: "dirInfo \<Rightarrow> bool" where
  "privateDir d \<longleftrightarrow> diPerm d mod 64 = 0"

text \<open>\<open>.tmp\<close> files of an interrupted save are removed; anything else but a baseline is refused.\<close>

fun openStates :: "faults \<Rightarrow> (string \<times> bool) list \<Rightarrow> unit act" where
  "openStates orc [] = okA ()"
| "openStates orc ((name, regular) # rest) =
     (if hasSuffix name ''.tmp'' \<and> validStorageKey (trimSuffix name ''.tmp'') then
        bindA (ioCall orc) (\<lambda>_. bindA (\<lambda>s. (Inr (), setFile StateDir name None s)) (\<lambda>_ :: unit. openStates orc rest))
      else if \<not> hasSuffix name ''.json'' \<or> \<not> validStorageKey (trimSuffix name ''.json'') \<or> \<not> regular
      then failA ''unexpected state file''
      else bindA (\<lambda>s. (Inr (), s\<lparr>soFiles := (if name \<in> set (soFiles s) then soFiles s else soFiles s @ [name])\<rparr>))
             (\<lambda>_ :: unit. openStates orc rest))"

definition openLog :: "faults \<Rightarrow> (string \<Rightarrow> (string \<times> string) option) \<Rightarrow> string \<Rightarrow> unit act" where
  "openLog orc ids name =
     bindA (loadLog orc ids name) (\<lambda>_. bindA (openMonitorFile orc RootDir (curLog name) True) (\<lambda>_. ioCall orc))"

definition checkThat :: "bool \<Rightarrow> string \<Rightarrow> unit act" where
  "checkThat ok msg = (if ok then okA () else failA msg)"

text \<open>The result is the opened store or an error; a failed opening closes what it opened.\<close>

definition OpenStore :: "faults \<Rightarrow> (string \<Rightarrow> (string \<times> string) option) \<Rightarrow> dirEnv \<Rightarrow> string \<Rightarrow> (string \<rightharpoonup> string) \<Rightarrow> (string \<rightharpoonup> string)
    \<Rightarrow> unit act" where
  "OpenStore orc ids env dir root states s0 =
     (let s = \<lparr>soRoot = root, soState = states, soLogs = Map.empty, soFiles = [], soWarnings = [], soOpen = True,
                soClock = soClock s0\<rparr>;
          (r, s) =
           bindA (checkThat (dir \<noteq> [] \<and> length dir \<le> 4096) ''invalid watch state directory'') (\<lambda>_.
           bindA (\<lambda>s. (case dvAbs env of Inl e \<Rightarrow> Inl e | Inr _ \<Rightarrow> Inr (), s)) (\<lambda>_ :: unit.
           bindA (ioCall orc) (\<lambda>_.                                  \<comment> \<open>create the directory\<close>
           bindA (checkThat (diIsDir (dvRoot env) \<and> \<not> diSymlink (dvRoot env)) ''watch directory must not be a symlink'') (\<lambda>_.
           bindA (checkThat (privateDir (dvRoot env)) ''watch directory must have permissions 0700'') (\<lambda>_.
           bindA (ioCall orc) (\<lambda>_.                                  \<comment> \<open>open it as a root\<close>
           bindA (openMonitorFile orc RootDir ''watch.lock'' True) (\<lambda>_.
           bindA (checkThat (\<not> dvLocked env) ''watch directory already locked or locking unsupported'') (\<lambda>_.
           bindA (ioCall orc) (\<lambda>_.                                  \<comment> \<open>create the state directory\<close>
           bindA (checkThat (diIsDir (dvState env) \<and> \<not> diSymlink (dvState env)) ''invalid state directory'') (\<lambda>_.
           bindA (ioCall orc) (\<lambda>_.                                  \<comment> \<open>open it, and list it\<close>
           bindA (ioCall orc) (\<lambda>_.
           bindA (checkThat (length (dvEntries env) \<le> 2 * MaxTargets) ''too many state files'') (\<lambda>_.
           bindA (openStates orc (dvEntries env)) (\<lambda>_ s.
           bindA (checkThat (length (soFiles s) \<le> MaxTargets) ''stored target limit exceeded'') (\<lambda>_.
           bindA (openLog orc ids ''observations'') (\<lambda>_. openLog orc ids ''changes'')) s)))))))))))))) s
      in (r, case r of Inl _ \<Rightarrow> s\<lparr>soOpen := False\<rparr> | Inr _ \<Rightarrow> s))"

definition CloseStore :: "faults \<Rightarrow> unit act" where
  "CloseStore orc s =
     (if soOpen s then closing orc (closing orc (ioCall orc)) (s\<lparr>soOpen := False\<rparr>) else (Inr (), s))"

definition Warnings :: "store \<Rightarrow> string list \<times> store" where
  "Warnings s = (soWarnings s, s\<lparr>soWarnings := []\<rparr>)"

section \<open>Baselines\<close>

definition stateFile :: "Target \<Rightarrow> string" where
  "stateFile t = Identity t @ ''.json''"

text \<open>An oversized or corrupt baseline is not an error: the target starts again, with a warning.\<close>

definition LoadBaseline :: "(string \<Rightarrow> string) \<Rightarrow> (string \<Rightarrow> json option) \<Rightarrow> (string \<Rightarrow> Snapshot option) \<Rightarrow> faults \<Rightarrow> Target
    \<Rightarrow> (Snapshot \<times> bool) act" where
  "LoadBaseline uni parse decode orc t =
     opened (\<lambda>s.
       let (got, s) = readMonitorFile orc StateDir (stateFile t) MaxStateBytes s;
           restart = (\<lambda>s. (Inr (newSnapshot t, True), snd (warn (''corrupt baseline for target '' @ Identity t
             @ ''; next complete source observations establish a new baseline'') s)));
           judge = (\<lambda>raw s. case parseState uni parse decode raw t of Inl _ \<Rightarrow> restart s | Inr st \<Rightarrow> (Inr (st, False), s))
       in case got of
            Inl e \<Rightarrow> if e = ErrNotExist then (Inr (newSnapshot t, False), s)
                     else if e = errFileLimit then judge [] s
                     else (Inl e, s)
          | Inr raw \<Rightarrow> judge raw s)"

definition ValidateTargets :: "Target list \<Rightarrow> store \<Rightarrow> goError option" where
  "ValidateTargets ts s =
     (if \<not> soOpen s then Some (plainError storeClosed)
      else if length (soFiles s) + length (filter (\<lambda>t. stateFile t \<notin> set (soFiles s)) ts) > MaxTargets
      then Some (plainError ''state directory target capacity exceeded; use a new directory or remove inactive baselines'')
      else None)"

definition tempName :: "string \<Rightarrow> string" where
  "tempName name = trimSuffix name ''.json'' @ ''.tmp''"

definition atomicFile :: "faults \<Rightarrow> string \<Rightarrow> string \<Rightarrow> unit act" where
  "atomicFile orc name raw =
     bindA (openMonitorFile orc StateDir (tempName name) True) (\<lambda>_.
     bindA (\<lambda>s. (Inr (), setFile StateDir (tempName name) (Some []) s)) (\<lambda>_ :: unit.
     bindA (closing orc (bindA (writeFile orc StateDir (tempName name) raw) (\<lambda>_. ioCall orc))) (\<lambda>_.
     bindA (renameWithin orc StateDir (tempName name) name) (\<lambda>_.
     syncRoot orc))))"

definition SaveBaseline :: "(string \<Rightarrow> string) \<Rightarrow> (string \<Rightarrow> json option) \<Rightarrow> (string \<Rightarrow> Snapshot option) \<Rightarrow> faults \<Rightarrow> Target
    \<Rightarrow> Snapshot \<Rightarrow> unit act" where
  "SaveBaseline uni parse decode orc t state =
     opened (\<lambda>s.
       let raw = marshal (snapshotJSON state); name = stateFile t in
       if length raw > MaxStateBytes then failA ''monitor state exceeds size limit'' s
       else case parseState uni parse decode raw t of
              Inl e \<Rightarrow> failA e s
            | Inr _ \<Rightarrow>
                if name \<notin> set (soFiles s) \<and> length (soFiles s) \<ge> MaxTargets then failA ''stored target limit exceeded'' s
                else bindA (atomicFile orc name raw) (\<lambda>_ s.
                  (Inr (), s\<lparr>soFiles := (if name \<in> set (soFiles s) then soFiles s else soFiles s @ [name])\<rparr>)) s)"

end
