(* ===== verification/MonitorStoreInv.thy ===== *)
theory MonitorStoreInv
  imports MonitorBaseline
begin

text \<open>
  The logs of the monitor under failing writes: what is on disk, what recovery makes of it, and that no event is
  recorded twice.
\<close>

section \<open>Log files\<close>

definition joinLines :: "string list \<Rightarrow> string" where
  "joinLines ls = concat (map (\<lambda>l. l @ [NL]) ls)"

text \<open>A record that the log accepts, and its identity.\<close>

definition goodRecord :: "(string \<Rightarrow> (string \<times> string) option) \<Rightarrow> string \<Rightarrow> bool" where
  "goodRecord ids raw \<longleftrightarrow> raw \<noteq> [] \<and> NL \<notin> set raw \<and> (\<exists>i. eventID ids raw = Inr i)"

definition idOf :: "(string \<Rightarrow> (string \<times> string) option) \<Rightarrow> string \<Rightarrow> string" where
  "idOf ids raw = (case eventID ids raw of Inr i \<Rightarrow> i | Inl _ \<Rightarrow> [])"

text \<open>The content of a file that may not exist.\<close>

definition contentOf :: "string option \<Rightarrow> string" where
  "contentOf c = (case c of None \<Rightarrow> [] | Some raw \<Rightarrow> raw)"

lemma joinLines_simps [simp]: "joinLines [] = []" "joinLines (l # ls) = l @ NL # joinLines ls" "joinLines (a @ b) = joinLines a @ joinLines b"
  by (simp_all add: joinLines_def)

lemma splitOn_sep: "NL \<notin> set l \<Longrightarrow> splitOn NL (l @ NL # rest) = l # splitOn NL rest"
  by (rule splitOn_step)

lemma splitOn_joinLines: "\<forall>l \<in> set ls. NL \<notin> set l \<Longrightarrow> splitOn NL (joinLines ls @ t) = ls @ splitOn NL t"
  by (induction ls) (simp_all add: splitOn_sep)

lemma last_joinLines: "joinLines ls \<noteq> [] \<Longrightarrow> last (joinLines ls) = NL"
  by (induction ls rule: rev_induct) simp_all

lemma completePart_joinLines: "NL \<notin> set t \<Longrightarrow> completePart (joinLines ls @ t) = joinLines ls"
proof -
  assume t: "NL \<notin> set t"
  have all: "\<forall>x \<in> set t. x \<noteq> NL" using t by blast
  have "dropWhile (\<lambda>c. c \<noteq> NL) (rev t @ rev (joinLines ls)) = rev (joinLines ls)"
  proof (cases "joinLines ls = []")
    case True
    then show ?thesis using all by (simp add: dropWhile_eq_Nil_conv)
  next
    case False
    then obtain r where r: "rev (joinLines ls) = NL # r"
      using last_joinLines [OF False] by (cases "rev (joinLines ls)") (simp_all flip: hd_rev)
    have "dropWhile (\<lambda>c. c \<noteq> NL) (rev t @ rev (joinLines ls)) = dropWhile (\<lambda>c. c \<noteq> NL) (rev (joinLines ls))"
      by (rule dropWhile_append2) (use all in simp)
    then show ?thesis by (simp add: r)
  qed
  then show ?thesis by (simp add: completePart_def)
qed

lemma seenLines_good:
  "\<forall>l \<in> set ls. goodRecord ids l \<Longrightarrow> seenLines ids (ls @ [[]]) seen s = (Inr (rev (map (idOf ids) ls) @ seen), s)"
  by (induction ls arbitrary: seen) (auto simp: goodRecord_def idOf_def okA_def)

section \<open>Recovery\<close>

text \<open>A log file on disk: complete records, and perhaps the beginning of one more.\<close>

definition logFile :: "(string \<Rightarrow> (string \<times> string) option) \<Rightarrow> string option \<Rightarrow> string list \<Rightarrow> bool" where
  "logFile ids c recs \<longleftrightarrow> (\<forall>l \<in> set recs. goodRecord ids l)
     \<and> (\<exists>t. NL \<notin> set t \<and> contentOf c = joinLines recs @ t) \<and> length (contentOf c) \<le> MaxLogBytes"

definition cleanLog :: "(string \<Rightarrow> (string \<times> string) option) \<Rightarrow> string option \<Rightarrow> string list \<Rightarrow> bool" where
  "cleanLog ids c recs \<longleftrightarrow> (\<forall>l \<in> set recs. goodRecord ids l) \<and> contentOf c = joinLines recs \<and> length (contentOf c) \<le> MaxLogBytes"

lemma cleanLog_logFile: "cleanLog ids c recs \<Longrightarrow> logFile ids c recs"
  by (auto simp: cleanLog_def logFile_def intro: exI [of _ "[]"])

definition noFaults :: faults where
  "noFaults n = Fine"

lemma ioCall_quiet: "ioCall noFaults s = (Inr (), s\<lparr>soClock := soClock s + 1\<rparr>)"
  by (simp add: ioCall_def noFaults_def)

text \<open>Without faults, recovery of a file succeeds, keeps the other files, and cuts off the incomplete record.\<close>

lemma loadLogFile_quiet:
  assumes "logFile ids (soRoot s file) recs"
  shows "\<exists>s'. loadLogFile noFaults ids name file seen s = (Inr (rev (map (idOf ids) recs) @ seen, int (length (joinLines recs))), s')
    \<and> cleanLog ids (soRoot s' file) recs \<and> (\<forall>f. f \<noteq> file \<longrightarrow> soRoot s' f = soRoot s f) \<and> soLogs s' = soLogs s"
proof (cases "soRoot s file")
  case None
  then have "recs = []" using assms by (cases recs) (auto simp: logFile_def contentOf_def)
  then show ?thesis using None
    by (auto simp: loadLogFile_def readMonitorFile_def openMonitorFile_def bindA_def ioCall_quiet filesIn_def cleanLog_def contentOf_def)
next
  case (Some raw)
  obtain t where t: "NL \<notin> set t" "raw = joinLines recs @ t" "length raw \<le> MaxLogBytes"
    and good: "\<forall>l \<in> set recs. goodRecord ids l" using assms Some by (auto simp: logFile_def contentOf_def)
  have nl: "\<forall>l \<in> set recs. NL \<notin> set l" using good by (simp add: goodRecord_def)
  define s1 where "s1 = s\<lparr>soClock := soClock s + 2\<rparr>"
  have read: "readMonitorFile noFaults RootDir file MaxLogBytes s = (Inr raw, s1)"
    using Some t(3) by (simp add: readMonitorFile_def openMonitorFile_def bindA_def ioCall_quiet filesIn_def s1_def)
  have torn: "raw \<noteq> [] \<and> last raw \<noteq> NL \<longleftrightarrow> t \<noteq> []"
  proof (cases "t = []")
    case True
    then show ?thesis using t(2) last_joinLines by auto
  next
    case False
    then have "last t \<noteq> NL" using t(1) last_in_set [of t] by metis
    then show ?thesis using t(2) False by simp
  qed
  have split: "splitOn NL (joinLines recs) = recs @ [[]]" using splitOn_joinLines [OF nl, of "[]"] by simp
  have part: "completePart raw = joinLines recs" using completePart_joinLines [OF t(1)] t(2) by simp
  have len: "length (joinLines recs) \<le> MaxLogBytes" using t(2,3) by simp
  show ?thesis
  proof (cases "t = []")
    case True
    then show ?thesis using t(2) read torn split good len Some
      by (auto simp: loadLogFile_def bindA_def recoverTail_def okA_def seenLines_good cleanLog_def s1_def contentOf_def)
  next
    case False
    have "recoverTail noFaults name file raw s1 = (Inr (joinLines recs),
        (s1\<lparr>soClock := soClock s1 + 4, soRoot := (soRoot s1)(file \<mapsto> joinLines recs),
         soWarnings := soWarnings s1 @ [''recovered incomplete trailing '' @ name @ '' log record'']\<rparr>))"
      using False torn part t(2) Some
      by (simp add: recoverTail_def openMonitorFile_def bindA_def ioCall_quiet filesIn_def closing_def truncateFile_def setFile_def
          joinErrors_def warn_def okA_def s1_def)
    then show ?thesis using read split good len
      by (auto simp: loadLogFile_def bindA_def okA_def seenLines_good cleanLog_def s1_def contentOf_def)
  qed
qed

text \<open>The records of a log over both generations, and what recovery guarantees.\<close>

definition logDisk :: "(string \<Rightarrow> (string \<times> string) option) \<Rightarrow> string \<Rightarrow> store \<Rightarrow> string list \<Rightarrow> string list \<Rightarrow> bool" where
  "logDisk ids name s recs0 recs1 \<longleftrightarrow> logFile ids (soRoot s (oldLog name)) recs0 \<and> logFile ids (soRoot s (curLog name)) recs1
     \<and> distinct (map (idOf ids) (recs0 @ recs1))"

definition logReady :: "(string \<Rightarrow> (string \<times> string) option) \<Rightarrow> string \<Rightarrow> store \<Rightarrow> string list \<Rightarrow> string list \<Rightarrow> bool" where
  "logReady ids name s recs0 recs1 \<longleftrightarrow> cleanLog ids (soRoot s (oldLog name)) recs0 \<and> cleanLog ids (soRoot s (curLog name)) recs1
     \<and> distinct (map (idOf ids) (recs0 @ recs1))
     \<and> set (lgSeen (theLog s name)) = idOf ids ` set (recs0 @ recs1) \<and> lgSize (theLog s name) = int (length (joinLines recs1))"

lemma logNames: "oldLog name \<noteq> curLog name"
  by (simp add: oldLog_def curLog_def)

lemma loadLog_quiet:
  assumes "logDisk ids name s recs0 recs1"
  shows "\<exists>s'. loadLog noFaults ids name s = (Inr (), s') \<and> logReady ids name s' recs0 recs1"
proof -
  obtain s1 where s1: "loadLogFile noFaults ids name (oldLog name) [] s
        = (Inr (rev (map (idOf ids) recs0), int (length (joinLines recs0))), s1)"
      "cleanLog ids (soRoot s1 (oldLog name)) recs0" "\<forall>f. f \<noteq> oldLog name \<longrightarrow> soRoot s1 f = soRoot s f"
    using loadLogFile_quiet [of ids s "oldLog name" recs0 name "[]"] assms by (auto simp: logDisk_def)
  have "logFile ids (soRoot s1 (curLog name)) recs1" using s1(3) logNames [of name] assms by (metis logDisk_def)
  from loadLogFile_quiet [OF this, of name "rev (map (idOf ids) recs0)"] obtain s2 where s2:
      "loadLogFile noFaults ids name (curLog name) (rev (map (idOf ids) recs0)) s1
        = (Inr (rev (map (idOf ids) recs1) @ rev (map (idOf ids) recs0), int (length (joinLines recs1))), s2)"
      "cleanLog ids (soRoot s2 (curLog name)) recs1" "\<forall>f. f \<noteq> curLog name \<longrightarrow> soRoot s2 f = soRoot s1 f" by blast
  have "soRoot s2 (oldLog name) = soRoot s1 (oldLog name)" using s2(3) logNames by blast
  then show ?thesis using assms s1(1,2) s2(1,2)
    by (auto simp: loadLog_def bindA_def logReady_def logDisk_def theLog_def)
qed

section \<open>Appending\<close>

lemma logReady_disk: "logReady ids name s recs0 recs1 \<Longrightarrow> logDisk ids name s recs0 recs1"
  by (auto simp: logReady_def logDisk_def intro: cleanLog_logFile)

lemma logDisk_root: "soRoot s' = soRoot s \<Longrightarrow> logDisk ids name s' recs0 recs1 = logDisk ids name s recs0 recs1"
  by (simp add: logDisk_def)

lemma logReady_root:
  "soRoot s' = soRoot s \<Longrightarrow> soLogs s' = soLogs s \<Longrightarrow> logReady ids name s' recs0 recs1 = logReady ids name s recs0 recs1"
  by (simp add: logReady_def theLog_def)

text \<open>Calls that do not touch the files or the logs.\<close>

lemma ioCall_frame: "ioCall orc s = (r, s') \<Longrightarrow> soRoot s' = soRoot s \<and> soLogs s' = soLogs s"
  by (auto simp: ioCall_def)

lemma syncRoot_frame: "syncRoot orc s = (r, s') \<Longrightarrow> soRoot s' = soRoot s \<and> soLogs s' = soLogs s"
  unfolding syncRoot_def by (drule bindA_cases) (auto dest!: ioCall_frame)

lemma closing_cases:
  assumes "closing orc a s = (r, s')"
  shows "\<exists>r0 t. a s = (r0, t) \<and> soRoot s' = soRoot t \<and> soLogs s' = soLogs t \<and> (\<forall>x. r = Inr x \<longrightarrow> r0 = Inr x)"
proof -
  obtain r0 t where a: "a s = (r0, t)" by fastforce
  obtain c t' where c: "ioCall orc t = (c, t')" by fastforce
  have "s' = t'" "\<forall>x. r = Inr x \<longrightarrow> r0 = Inr x"
    using assms a c by (auto simp: closing_def joinErrors_def split: sum.splits)
  then show ?thesis using a ioCall_frame [OF c] by auto
qed

lemma eventID_idOf: "eventID ids raw = Inr i \<Longrightarrow> idOf ids raw = i"
  by (simp add: idOf_def)

text \<open>One record at the end of the current file, whole or in part.\<close>

lemma append_record:
  assumes ready: "logReady ids name s recs0 recs1" and good: "goodRecord ids raw"
    and fresh: "idOf ids raw \<notin> set (lgSeen (theLog s name))"
    and room: "length (joinLines recs1) + length raw + 1 \<le> MaxLogBytes"
    and root: "soRoot s' = (soRoot s)(curLog name \<mapsto> joinLines recs1 @ take n (raw @ [NL]))"
  shows "\<exists>more. logDisk ids name s' recs0 (recs1 @ more) \<and> (length raw < n \<longrightarrow> more = [raw])"
proof -
  have facts: "cleanLog ids (soRoot s (oldLog name)) recs0" "\<forall>l \<in> set recs1. goodRecord ids l"
      "distinct (map (idOf ids) (recs0 @ recs1))" "idOf ids raw \<notin> idOf ids ` set (recs0 @ recs1)"
    using ready fresh by (auto simp: logReady_def cleanLog_def)
  have old: "logFile ids (soRoot s' (oldLog name)) recs0" using facts(1) root logNames [of name] by (simp add: cleanLog_logFile)
  have cur: "contentOf (soRoot s' (curLog name)) = joinLines recs1 @ take n (raw @ [NL])" using root by (simp add: contentOf_def)
  have size: "length (contentOf (soRoot s' (curLog name))) \<le> MaxLogBytes" unfolding cur using room by simp
  show ?thesis
  proof (cases "length raw < n")
    case True
    then have "logFile ids (soRoot s' (curLog name)) (recs1 @ [raw])"
      using cur size good facts(2) by (auto simp: logFile_def intro: exI [of _ "[]"])
    then show ?thesis using old facts(3,4) by (intro exI [of _ "[raw]"]) (auto simp: logDisk_def)
  next
    case False
    then have "NL \<notin> set (take n (raw @ [NL]))" using good by (auto simp: goodRecord_def dest: in_set_takeD)
    then have "logFile ids (soRoot s' (curLog name)) recs1" using cur size facts(2) by (auto simp: logFile_def)
    then show ?thesis using old facts(3) False by (intro exI [of _ "[]"]) (auto simp: logDisk_def)
  qed
qed

definition batchSize :: "string list \<Rightarrow> nat" where
  "batchSize es = sum_list (map (\<lambda>l. length l + 1) es)"

lemma writeEvents_safe:
  "writeEvents orc ids name events s = (r, s') \<Longrightarrow> logReady ids name s recs0 recs1 \<Longrightarrow> soRoot s (curLog name) \<noteq> None
   \<Longrightarrow> \<forall>e \<in> set events. goodRecord ids e \<Longrightarrow> length (joinLines recs1) + batchSize events \<le> MaxLogBytes
   \<Longrightarrow> \<exists>more. logDisk ids name s' recs0 (recs1 @ more)
      \<and> (r = Inr () \<longrightarrow> logReady ids name s' recs0 (recs1 @ more)
          \<and> idOf ids ` set events \<subseteq> idOf ids ` set (recs0 @ recs1 @ more))"
proof (induction events arbitrary: s r s' recs1)
  case Nil
  then show ?case by (intro exI [of _ "[]"]) (auto simp: logReady_disk)
next
  case (Cons raw rest)
  define i where "i = idOf ids raw"
  have good: "goodRecord ids raw" "\<forall>e \<in> set rest. goodRecord ids e" using Cons.prems(4) by simp_all
  obtain j where "eventID ids raw = Inr j" using good(1) by (auto simp: goodRecord_def)
  then have i: "eventID ids raw = Inr i" using eventID_idOf i_def by simp
  have seen: "set (lgSeen (theLog s name)) = idOf ids ` set (recs0 @ recs1)" using Cons.prems(2) by (simp add: logReady_def)
  have size: "length (joinLines recs1) + length raw + 1 + batchSize rest \<le> MaxLogBytes" using Cons.prems(5) by (simp add: batchSize_def)
  show ?case
  proof (cases "i \<in> set (lgSeen (theLog s name))")
    case True
    have w: "writeEvents orc ids name rest s = (r, s')" using Cons.prems(1) True i by simp
    obtain more where "logDisk ids name s' recs0 (recs1 @ more) \<and> (r = Inr () \<longrightarrow> logReady ids name s' recs0 (recs1 @ more)
          \<and> idOf ids ` set rest \<subseteq> idOf ids ` set (recs0 @ recs1 @ more))"
      using Cons.IH [OF w Cons.prems(2,3) good(2)] size by auto
    moreover have "i \<in> idOf ids ` set (recs0 @ recs1)" using True seen by simp
    ultimately show ?thesis by (intro exI [of _ more]) (auto simp: i_def)
  next
    case False
    define old where "old = the (soRoot s (curLog name))"
    have old: "soRoot s (curLog name) = Some old" "old = joinLines recs1"
      using Cons.prems(2,3) by (auto simp: old_def logReady_def cleanLog_def contentOf_def)
    have fresh: "idOf ids raw \<notin> set (lgSeen (theLog s name))" using False i_def by simp
    have room: "length (joinLines recs1) + length raw + 1 \<le> MaxLogBytes" using size by simp
    show ?thesis
    proof (cases "orc (soClock s)")
      case (Broken n e)
      then have s': "r = Inl e" "soRoot s' = (soRoot s)(curLog name \<mapsto> joinLines recs1 @ take n (raw @ [NL]))"
        using Cons.prems(1) False i old by (auto simp: writeFile_def Let_def setFile_def filesIn_def)
      show ?thesis using append_record [OF Cons.prems(2) good(1) fresh room s'(2)] s'(1) by auto
    next
      case Fine
      define t where "t = (setFile RootDir (curLog name) (Some (old @ raw @ [NL])) s)\<lparr>soClock := soClock s + 1\<rparr>"
      define u where "u = t\<lparr>soLogs := (soLogs t)(name \<mapsto> \<lparr>lgSize = lgSize (theLog t name) + int (length (raw @ [NL])),
          lgSeen = i # lgSeen (theLog t name)\<rparr>)\<rparr>"
      have wf: "writeFile orc RootDir (curLog name) (raw @ [NL]) s = (Inr (length (raw @ [NL])), t)"
        using Fine by (simp add: writeFile_def Let_def filesIn_def old(1) t_def)
      then have w: "writeEvents orc ids name rest u = (r, s')" using Cons.prems(1) False i by (simp add: u_def Let_def)
      have root: "soRoot t = (soRoot s)(curLog name \<mapsto> joinLines recs1 @ take (length raw + 1) (raw @ [NL]))"
        by (simp add: t_def setFile_def old(2))
      have "logDisk ids name t recs0 (recs1 @ [raw])"
        using append_record [OF Cons.prems(2) good(1) fresh room root] by auto
      then have ready: "logReady ids name u recs0 (recs1 @ [raw])"
        using Cons.prems(2) root seen room logNames [of name]
        by (auto simp: logReady_def logDisk_def logFile_def cleanLog_def u_def theLog_def t_def setFile_def contentOf_def i_def)
      have cur: "soRoot u (curLog name) \<noteq> None" using root by (simp add: u_def)
      have sz: "length (joinLines (recs1 @ [raw])) + batchSize rest \<le> MaxLogBytes" using size by simp
      obtain more where more: "logDisk ids name s' recs0 ((recs1 @ [raw]) @ more)
          \<and> (r = Inr () \<longrightarrow> logReady ids name s' recs0 ((recs1 @ [raw]) @ more)
            \<and> idOf ids ` set rest \<subseteq> idOf ids ` set (recs0 @ (recs1 @ [raw]) @ more))"
        using Cons.IH [OF w ready cur good(2) sz] by blast
      then show ?thesis by (intro exI [of _ "raw # more"]) auto
    qed
  qed
qed

section \<open>Rotation\<close>

text \<open>The operating system says that a file is missing only when it is.\<close>

definition honest :: "faults \<Rightarrow> bool" where
  "honest orc \<longleftrightarrow> (\<forall>n k. orc n \<noteq> Broken k ErrNotExist)"

lemma ioCall_honest: "honest orc \<Longrightarrow> ioCall orc s = (Inl e, s') \<Longrightarrow> e \<noteq> ErrNotExist"
  by (auto simp: ioCall_def honest_def split: ioFault.splits)

lemma readMonitorFile_cases:
  assumes "honest orc" and "readMonitorFile orc RootDir file limit s = (r, s')"
  shows "soRoot s' = soRoot s \<and> soLogs s' = soLogs s
    \<and> (case r of Inr raw \<Rightarrow> soRoot s file = Some raw | Inl e \<Rightarrow> e = ErrNotExist \<longrightarrow> soRoot s file = None)"
proof -
  obtain c t where c: "ioCall orc s = (c, t)" by fastforce
  obtain d u where d: "ioCall orc t = (d, u)" by fastforce
  note fr = ioCall_frame [OF c] ioCall_frame [OF d]
  have lim: "errFileLimit \<noteq> ErrNotExist" by (simp add: errFileLimit_def ErrNotExist_def plainError_def)
  show ?thesis
  proof (cases c)
    case (Inl e)
    then have "r = Inl e" "s' = t" using assms(2) c by (auto simp: readMonitorFile_def openMonitorFile_def bindA_def)
    then show ?thesis using fr(1) ioCall_honest [OF assms(1)] c Inl by auto
  next
    case c': (Inr x)
    show ?thesis
    proof (cases "soRoot s file")
      case None
      then have "r = Inl ErrNotExist" "s' = t"
        using assms(2) c c' fr(1) by (auto simp: readMonitorFile_def openMonitorFile_def bindA_def filesIn_def)
      then show ?thesis using fr(1) None by simp
    next
      case (Some raw)
      have "soRoot u file = Some raw" using fr Some by simp
      have run: "(case d of Inl e \<Rightarrow> (Inl e, u) | Inr _ \<Rightarrow> if length raw > limit then (Inl errFileLimit, u) else (Inr raw, u)) = (r, s')"
        using assms(2) c c' d fr Some \<open>soRoot u file = Some raw\<close>
        by (cases d) (auto simp: readMonitorFile_def openMonitorFile_def bindA_def filesIn_def Let_def split: if_splits)
      show ?thesis
      proof (cases d)
        case (Inl e)
        then have "r = Inl e" "s' = u" "e \<noteq> ErrNotExist" using run d ioCall_honest [OF assms(1)] by auto
        then show ?thesis using fr by simp
      next
        case (Inr y)
        then show ?thesis using run fr Some lim by (auto split: if_splits)
      qed
    qed
  qed
qed

lemma loadLogFile_clean:
  assumes honest: "honest orc" and clean: "cleanLog ids (soRoot s file) recs"
    and run: "loadLogFile orc ids name file seen s = (r, s')"
  shows "soRoot s' = soRoot s \<and> soLogs s' = soLogs s
    \<and> (\<forall>x. r = Inr x \<longrightarrow> x = (rev (map (idOf ids) recs) @ seen, int (length (joinLines recs))))"
proof -
  have good: "\<forall>l \<in> set recs. goodRecord ids l" "\<forall>l \<in> set recs. NL \<notin> set l" "contentOf (soRoot s file) = joinLines recs"
    using clean by (auto simp: cleanLog_def goodRecord_def)
  have split: "splitOn NL (joinLines recs) = recs @ [[]]" using splitOn_joinLines [OF good(2), of "[]"] by simp
  obtain q t where q: "readMonitorFile orc RootDir file MaxLogBytes s = (q, t)" by fastforce
  note rb = readMonitorFile_cases [OF honest q]
  show ?thesis
  proof (cases q)
    case (Inl e)
    then have "recs = []" if "e = ErrNotExist" using rb that good(3) by (cases recs) (auto simp: contentOf_def)
    then show ?thesis using run q Inl rb by (auto simp: loadLogFile_def split: if_splits)
  next
    case (Inr raw)
    then have raw: "raw = joinLines recs" using rb good(3) by (simp add: contentOf_def)
    then have "\<not> (raw \<noteq> [] \<and> last raw \<noteq> NL)" using last_joinLines by auto
    then show ?thesis using run q Inr rb raw split good(1)
      by (auto simp: loadLogFile_def bindA_def recoverTail_def okA_def seenLines_good)
  qed
qed

lemma loadLog_clean:
  assumes honest: "honest orc" and old: "cleanLog ids (soRoot s (oldLog name)) recs0" and cur: "cleanLog ids (soRoot s (curLog name)) recs1"
    and distinct: "distinct (map (idOf ids) (recs0 @ recs1))" and run: "loadLog orc ids name s = (r, s')"
  shows "soRoot s' = soRoot s \<and> (r = Inr () \<longrightarrow> logReady ids name s' recs0 recs1)"
proof -
  obtain r1 s1 where l1: "loadLogFile orc ids name (oldLog name) [] s = (r1, s1)" by fastforce
  note f1 = loadLogFile_clean [OF honest old l1]
  show ?thesis
  proof (cases r1)
    case (Inl e)
    then show ?thesis using run l1 f1 by (auto simp: loadLog_def bindA_def)
  next
    case (Inr x)
    have x: "x = (rev (map (idOf ids) recs0), int (length (joinLines recs0)))" using f1 Inr by simp
    have cur1: "cleanLog ids (soRoot s1 (curLog name)) recs1" using f1 cur by simp
    obtain r2 s2 where l2: "loadLogFile orc ids name (curLog name) (rev (map (idOf ids) recs0)) s1 = (r2, s2)" by fastforce
    note f2 = loadLogFile_clean [OF honest cur1 l2]
    show ?thesis
    proof (cases r2)
      case (Inl e)
      then show ?thesis using run l1 l2 f1 f2 Inr x by (auto simp: loadLog_def bindA_def)
    next
      case r2: (Inr y)
      then have "s' = s2\<lparr>soLogs := (soLogs s2)(name \<mapsto> \<lparr>lgSize = int (length (joinLines recs1)),
          lgSeen = rev (map (idOf ids) recs1) @ rev (map (idOf ids) recs0)\<rparr>)\<rparr>"
        using run l1 l2 f2 Inr x by (auto simp: loadLog_def bindA_def)
      then show ?thesis using f1 f2 old cur distinct by (auto simp: logReady_def theLog_def)
    qed
  qed
qed

text \<open>Rotation moves the current records to the old generation, or fails with both files intact.\<close>

lemma rotate_safe:
  assumes honest: "honest orc" and ready: "logReady ids name s recs0 recs1" and run: "rotate orc ids name tot s = (r, s')"
    and fits: "tot \<le> MaxLogBatchBytes"
  shows "\<exists>recs0' recs1'. logDisk ids name s' recs0' recs1' \<and> set recs1 \<subseteq> set (recs0' @ recs1')
    \<and> (r = Inr () \<longrightarrow> logReady ids name s' recs0' recs1' \<and> length (joinLines recs1') + tot \<le> MaxLogBytes)"
proof (cases "lgSize (theLog s name) + int tot > int MaxLogBytes")
  case False
  have "lgSize (theLog s name) = int (length (joinLines recs1))" using ready by (simp add: logReady_def)
  then show ?thesis using False run ready by (intro exI [of _ recs0] exI [of _ recs1]) (auto simp: rotate_def logReady_disk)
next
  case True
  define t where "t = s\<lparr>soClock := soClock s + 1\<rparr>"
  define u where "u = setFile RootDir (oldLog name) (soRoot s (curLog name)) (setFile RootDir (curLog name) None t)"
  have same: "logDisk ids name t recs0 recs1" using logReady_disk [OF ready] by (simp add: logDisk_def t_def)
  have run': "bindA (renameWithin orc RootDir (curLog name) (oldLog name)) (\<lambda>_. bindA (syncRoot orc) (\<lambda>_. loadLog orc ids name)) s = (r, s')"
    using run True by (simp add: rotate_def)
  show ?thesis
  proof (cases "s' = t \<and> (\<exists>e. r = Inl e)")
    case True
    then show ?thesis using same by (intro exI [of _ recs0] exI [of _ recs1]) auto
  next
    case False
    have rn: "renameWithin orc RootDir (curLog name) (oldLog name) s = (Inr (), u)"
      and ex: "soRoot s (curLog name) \<noteq> None"
      using run' False
      by (auto simp: renameWithin_def bindA_def ioCall_def filesIn_def t_def u_def split: ioFault.splits option.splits)
    have old: "soRoot u (oldLog name) = soRoot s (curLog name)" "soRoot u (curLog name) = None"
      using logNames [of name] by (simp_all add: u_def setFile_def)
    have rest: "bindA (syncRoot orc) (\<lambda>_. loadLog orc ids name) u = (r, s')" using run' rn by (simp add: bindA_def)
    have clean: "cleanLog ids (soRoot u (oldLog name)) recs1" "cleanLog ids (soRoot u (curLog name)) []"
        "distinct (map (idOf ids) (recs1 @ []))"
      using ready old by (auto simp: logReady_def cleanLog_def contentOf_def)
    have disk: "logDisk ids name u recs1 []" using clean by (simp add: logDisk_def cleanLog_logFile)
    have "MaxLogBatchBytes \<le> MaxLogBytes" by (simp add: MaxLogBatchBytes_def MaxLogBytes_def)
    obtain q v where q: "syncRoot orc u = (q, v)" by fastforce
    note fq = syncRoot_frame [OF q]
    show ?thesis
    proof (cases q)
      case (Inl e)
      then have "r = Inl e" "s' = v" using rest q by (auto simp: bindA_def)
      then show ?thesis using disk fq logDisk_root [of s' u] by (intro exI [of _ recs1] exI [of _ "[]"]) auto
    next
      case (Inr x)
      then have l: "loadLog orc ids name v = (r, s')" using rest q by (simp add: bindA_def)
      have "soRoot v = soRoot u" using fq by simp
      then have "soRoot s' = soRoot u \<and> (r = Inr () \<longrightarrow> logReady ids name s' recs1 [])"
        using loadLog_clean [OF honest _ _ clean(3) l] clean by simp
      then show ?thesis using disk logDisk_root [of s' u] fits \<open>MaxLogBatchBytes \<le> MaxLogBytes\<close>
        by (intro exI [of _ recs1] exI [of _ "[]"]) auto
    qed
  qed
qed

lemma preflight_Inr:
  "preflight ids events n = Inr tot \<Longrightarrow> tot = n + batchSize events \<and> (events \<noteq> [] \<longrightarrow> tot \<le> MaxLogBatchBytes)
   \<and> (\<forall>e \<in> set events. \<exists>i. eventID ids e = Inr i)"
proof (induction events arbitrary: n)
  case Nil
  then show ?case by (simp add: batchSize_def)
next
  case (Cons raw rest)
  define m where "m = n + length raw + 1"
  obtain i where i: "eventID ids raw = Inr i" and rest: "preflight ids rest m = Inr tot" and fits: "m \<le> MaxLogBatchBytes"
    using Cons.prems by (auto simp: Let_def res_simps m_def)
  note ih = Cons.IH [OF rest]
  have "tot \<le> MaxLogBatchBytes" using ih fits by (cases rest) (auto simp: batchSize_def)
  then show ?case using ih i by (auto simp: batchSize_def m_def)
qed

lemma openMonitorFile_create:
  assumes "openMonitorFile orc RootDir f True u = (c, v)"
  shows "soLogs v = soLogs u \<and> (\<forall>g. contentOf (soRoot v g) = contentOf (soRoot u g)) \<and> (c = Inr () \<longrightarrow> soRoot v f \<noteq> None)"
proof -
  obtain d t where d: "ioCall orc u = (d, t)" by fastforce
  note fr = ioCall_frame [OF d]
  show ?thesis
  proof (cases d)
    case (Inl e)
    then show ?thesis using assms d fr by (auto simp: openMonitorFile_def bindA_def)
  next
    case (Inr x)
    then show ?thesis using assms d fr
      by (cases "soRoot u f") (auto simp: openMonitorFile_def bindA_def filesIn_def setFile_def contentOf_def)
  qed
qed

lemma logReady_content:
  "(\<forall>g. contentOf (soRoot v g) = contentOf (soRoot u g)) \<Longrightarrow> soLogs v = soLogs u \<Longrightarrow> logReady ids name u a b
   \<Longrightarrow> logReady ids name v a b"
  unfolding logReady_def cleanLog_def theLog_def by auto

section \<open>Property\<close>

text \<open>C19: the monitor's logs are crash-safe and free of duplicates: whichever system call of an append fails, and however
  much of a record was written, recovery without faults succeeds; every event identity then occurs once over both
  generations and every record of the current file is still there; and an append that succeeds has logged all its events.\<close>

theorem append_log_crash_safe:
  assumes "honest orc" and "logReady ids name s recs0 recs1"
    and "\<forall>e \<in> set events. e \<noteq> [] \<and> NL \<notin> set e" and "appendLog orc ids name events s = (r, s')"
  shows "\<exists>t recs0' recs1'. loadLog noFaults ids name s' = (Inr (), t) \<and> logReady ids name t recs0' recs1'
    \<and> distinct (map (idOf ids) (recs0' @ recs1')) \<and> set recs1 \<subseteq> set (recs0' @ recs1')
    \<and> (r = Inr () \<longrightarrow> logReady ids name s' recs0' recs1' \<and> idOf ids ` set events \<subseteq> idOf ids ` set (recs0' @ recs1'))"
proof -
  have "\<exists>recs0' recs1'. logDisk ids name s' recs0' recs1' \<and> set recs1 \<subseteq> set (recs0' @ recs1')
    \<and> (r = Inr () \<longrightarrow> logReady ids name s' recs0' recs1' \<and> idOf ids ` set events \<subseteq> idOf ids ` set (recs0' @ recs1'))"
  proof (cases "preflight ids events 0")
    case (Inl e)
    then show ?thesis using assms(2,4) logReady_disk [OF assms(2)]
      by (intro exI [of _ recs0] exI [of _ recs1]) (auto simp: appendLog_def)
  next
    case (Inr tot)
    note pre = preflight_Inr [OF Inr]
    have good: "\<forall>e \<in> set events. goodRecord ids e" using pre assms(3) by (auto simp: goodRecord_def)
    have fits: "tot \<le> MaxLogBatchBytes" using pre by (cases events) (auto simp: batchSize_def)
    obtain q u where q: "rotate orc ids name tot s = (q, u)" by fastforce
    obtain a b where ab: "logDisk ids name u a b" "set recs1 \<subseteq> set (a @ b)"
        "q = Inr () \<longrightarrow> logReady ids name u a b \<and> length (joinLines b) + tot \<le> MaxLogBytes"
      using rotate_safe [OF assms(1,2) q fits] by blast
    show ?thesis
    proof (cases q)
      case q': (Inl e)
      then show ?thesis using assms(4) Inr q ab by (intro exI [of _ a] exI [of _ b]) (auto simp: appendLog_def bindA_def)
    next
      case q': (Inr x)
      then have ready: "logReady ids name u a b" and room: "length (joinLines b) + batchSize events \<le> MaxLogBytes" using ab(3) pre by auto
      obtain c v where c: "openMonitorFile orc RootDir (curLog name) True u = (c, v)" by fastforce
      have ready': "logReady ids name v a b" and made: "c = Inr () \<longrightarrow> soRoot v (curLog name) \<noteq> None"
        using openMonitorFile_create [OF c] logReady_content [OF _ _ ready, of v] by simp_all
      show ?thesis
      proof (cases c)
        case (Inl e)
        then show ?thesis using assms(4) Inr q q' c ab logReady_disk [OF ready']
          by (intro exI [of _ a] exI [of _ b]) (auto simp: appendLog_def bindA_def)
      next
        case c': (Inr y)
        let ?body = "bindA (writeEvents orc ids name events) (\<lambda>_. bindA (ioCall orc) (\<lambda>_. syncRoot orc))"
        have cl: "closing orc ?body v = (r, s')" using assms(4) Inr q q' c c' by (simp add: appendLog_def bindA_def [of "rotate _ _ _ _"] bindA_def [of "openMonitorFile _ _ _ _"])
        obtain r0 t where body: "?body v = (r0, t)" "soRoot s' = soRoot t" "soLogs s' = soLogs t" "r = Inr () \<longrightarrow> r0 = Inr ()"
          using closing_cases [OF cl] by blast
        obtain w z where w: "writeEvents orc ids name events v = (w, z)" by fastforce
        have frame: "soRoot t = soRoot z \<and> soLogs t = soLogs z \<and> (r0 = Inr () \<longrightarrow> w = Inr ())"
          using body(1) w by (auto simp: bindA_def split: sum.splits prod.splits dest!: ioCall_frame syncRoot_frame)
        obtain more where more: "logDisk ids name z a (b @ more)" "w = Inr () \<longrightarrow> logReady ids name z a (b @ more)
            \<and> idOf ids ` set events \<subseteq> idOf ids ` set (a @ b @ more)"
          using writeEvents_safe [OF w ready' _ good room] made c' by auto
        have "soRoot s' = soRoot z" "soLogs s' = soLogs z" using body frame by simp_all
        then show ?thesis using more ab(2) frame body(4) logDisk_root [of s' z] logReady_root [of s' z]
          by (intro exI [of _ a] exI [of _ "b @ more"]) auto
      qed
    qed
  qed
  then obtain a b where ab: "logDisk ids name s' a b" "set recs1 \<subseteq> set (a @ b)"
      "r = Inr () \<longrightarrow> logReady ids name s' a b \<and> idOf ids ` set events \<subseteq> idOf ids ` set (a @ b)" by blast
  obtain t where "loadLog noFaults ids name s' = (Inr (), t)" "logReady ids name t a b" using loadLog_quiet [OF ab(1)] by blast
  then show ?thesis using ab by (auto simp: logReady_def)
qed

definition demoLogKey :: string where "demoLogKey = replicate 64 CHR ''0''"

definition demoStore :: store where
  "demoStore = \<lparr>soRoot = [curLog ''changes'' \<mapsto> []], soState = Map.empty,
     soLogs = [''changes'' \<mapsto> \<lparr>lgSize = 0, lgSeen = []\<rparr>], soFiles = [], soWarnings = [], soOpen = True, soClock = 0\<rparr>"

text \<open>The second call of the append is a write that breaks after one byte.\<close>

definition demoFaults :: faults where
  "demoFaults n = (if n = 1 then Broken 1 (plainError ''disk full'') else Fine)"

theorem append_log_crash_safe_witness:
  "\<exists>t. loadLog noFaults (\<lambda>_. Some (demoLogKey, [])) ''changes''
         (snd (appendLog demoFaults (\<lambda>_. Some (demoLogKey, [])) ''changes'' [''{}''] demoStore)) = (Inr (), t)"
proof -
  have h: "honest demoFaults" by (simp add: honest_def demoFaults_def ErrNotExist_def plainError_def)
  have r: "logReady (\<lambda>_. Some (demoLogKey, [])) ''changes'' demoStore [] []"
    by (simp add: logReady_def cleanLog_def contentOf_def demoStore_def theLog_def oldLog_def curLog_def)
  have e: "\<forall>e \<in> set [''{}'']. e \<noteq> [] \<and> NL \<notin> set e" by simp
  show ?thesis using append_log_crash_safe [OF h r e prod.collapse [symmetric]] by blast
qed

end
