(* ===== verification/MonitorEngine.thy ===== *)
theory MonitorEngine
  imports MonitorBaseline
begin

text \<open>
  The monitor's engine (\<open>src/internal/monitor/engine.go\<close>) and its watch list (\<open>watchlist.go\<close>): collecting a
  search within bounds, recording an observation against the baseline, the cycle over the targets and the run.
  The investigator is the script of theory \<open>Sources\<close>.  Clocks, random bytes and Go's \<open>%q\<close> are arguments, and
  so is when a context ends; the concurrent inspections of a batch are independent, so a batch is their results.
\<close>

section \<open>Options\<close>

definition minute :: int where "minute = 60 * 1000000000"
definition MinInterval :: int where "MinInterval = 30 * 1000000000"
definition MaxInterval :: int where "MaxInterval = 299 * 1000000000"
definition MaxConcurrency :: int where "MaxConcurrency = 4"
definition CycleTimeout :: int where "CycleTimeout = 10 * minute"

record Options =
  opInterval :: int
  opConcurrency :: int
  opCycleTimeout :: int

definition DefaultOptions :: Options where
  "DefaultOptions = \<lparr>opInterval = minute, opConcurrency = MaxConcurrency, opCycleTimeout = CycleTimeout\<rparr>"

definition optionsValid :: "Options \<Rightarrow> bool" where
  "optionsValid r \<longleftrightarrow> \<not> (opInterval r < MinInterval \<or> opInterval r > MaxInterval \<or> opConcurrency r < 1
     \<or> opConcurrency r > MaxConcurrency \<or> opCycleTimeout r \<le> 0 \<or> opCycleTimeout r > CycleTimeout)"

section \<open>Watch list\<close>

datatype nodeKind = ScalarNode | AliasNode | OtherNode

datatype ynode = YNode (ynKind: nodeKind) (ynTag: string) (ynAnchor: string) (ynContent: "ynode list")

text \<open>The check of the document tree counts its nodes; \<open>None\<close> is a refused tree.\<close>

fun checkNode :: "ynode \<Rightarrow> nat \<Rightarrow> nat \<Rightarrow> nat option"
and checkNodes :: "ynode list \<Rightarrow> nat \<Rightarrow> nat \<Rightarrow> nat option" where
  "checkNode (YNode kind tag anchor content) depth n =
     (if depth > 6 \<or> n + 1 > 2048 \<or> kind = AliasNode \<or> anchor \<noteq> [] then None
      else if kind = ScalarNode \<and> tag \<noteq> ''!!str'' then None
      else checkNodes content (depth + 1) (n + 1))"
| "checkNodes [] depth n = Some n"
| "checkNodes (c # cs) depth n = (case checkNode c depth n of None \<Rightarrow> None | Some k \<Rightarrow> checkNodes cs depth k)"

definition watchError :: string where
  "watchError = ''invalid watchlist: expected 1-256 public type/value targets''"

definition MaxWatchBytes :: nat where "MaxWatchBytes = 262144"

text \<open>The entries in order, each parsed target kept once.\<close>

fun watchEntries :: "(string \<Rightarrow> string \<Rightarrow> string + Target) \<Rightarrow> secretStore \<Rightarrow> (string \<times> string) list \<Rightarrow> Target list \<Rightarrow> string + Target list" where
  "watchEntries parse st [] ts = Inr ts"
| "watchEntries parse st ((kind, v) # rest) ts =
     failIf (\<not> kindValid kind \<or> Sensitive kind \<or> length v > 512) watchError
     (case parse kind v of Inl _ \<Rightarrow> Inl watchError
      | Inr t \<Rightarrow>
          failIf (\<not> TargetValid st t \<or> Sensitive (tKind t) \<or> tKind t \<noteq> kind) watchError
          (watchEntries parse st rest (if Identity t \<in> Identity ` set ts then ts else ts @ [t])))"

definition targetLess :: "Target \<Rightarrow> Target \<Rightarrow> bool" where
  "targetLess a b \<longleftrightarrow> (if tKind a \<noteq> tKind b then tKind a < tKind b else tValue a < tValue b)"

text \<open>\<open>node\<close> is the YAML tree, \<open>document\<close> the strictly decoded entries, \<open>None\<close> also for a second document.\<close>

definition ParseWatchlist :: "(string \<Rightarrow> ynode option) \<Rightarrow> (string \<Rightarrow> (string \<times> string) list option)
    \<Rightarrow> (string \<Rightarrow> string \<Rightarrow> string + Target) option \<Rightarrow> secretStore \<Rightarrow> string \<Rightarrow> string + Target list" where
  "ParseWatchlist node document parser st raw =
     failIf (length raw > MaxWatchBytes \<or> parser = None) watchError
     (case node raw of None \<Rightarrow> Inl watchError
      | Some n \<Rightarrow>
          failIf (checkNode n 0 0 = None) watchError
          (case document raw of None \<Rightarrow> Inl watchError
           | Some entries \<Rightarrow>
               failIf (entries = [] \<or> length entries > MaxTargets) watchError
               (andThen (watchEntries (the parser) st entries []) (\<lambda>ts. Inr (sortBy targetLess ts)))))"

section \<open>Collecting a search\<close>

record collecting =
  coRows :: "Result list"
  coSize :: nat
  coCount :: nat
  coLimit :: bool

definition limitError :: goError where
  "limitError = plainError ''monitor result limit''"

text \<open>The consumer: the row is stored normalized, but keeps the status that it came with.\<close>

definition collectRow :: "(string \<Rightarrow> string) \<Rightarrow> Result \<Rightarrow> collecting \<Rightarrow> goError option \<times> collecting" where
  "collectRow uni row c =
     (if coLimit c then (Some limitError, c)
      else let c = c\<lparr>coCount := coCount c + length (rEvidence row), coSize := coSize c + length (marshal (MarshalResult uni row))\<rparr>
        in if length (coRows c) \<ge> MaxRows \<or> coSize c > MaxResultBytes \<or> coCount c > MaxEvidence
           then (Some limitError, c\<lparr>coLimit := True\<rparr>)
           else (None, c\<lparr>coRows := coRows c @ [(Normalized uni row)\<lparr>rStatus := rStatus row\<rparr>]\<rparr>))"

primrec collectScript :: "(string \<Rightarrow> string) \<Rightarrow> script \<Rightarrow> collecting \<Rightarrow> goError option \<times> collecting" where
  "collectScript uni (Return e) c = (e, c)"
| "collectScript uni (EmitRow r k) c = (let d = collectRow uni r c in collectScript uni (k (fst d)) (snd d))"
| "collectScript uni (ConsumeSecret k) c = collectScript uni (k []) c"

record inspection =
  inRows :: "Result list"
  inErr :: "goError option"
  inStarted :: string
  inMillis :: int
  inCalled :: bool

definition inspect :: "(string \<Rightarrow> string) \<Rightarrow> bool \<Rightarrow> bool \<Rightarrow> script \<Rightarrow> string \<Rightarrow> int \<Rightarrow> inspection" where
  "inspect uni endedBefore endedAfter search started millis =
     (if endedBefore then \<lparr>inRows = [], inErr = None, inStarted = [], inMillis = 0, inCalled = False\<rparr>
      else let (err, c) = collectScript uni search \<lparr>coRows = [], coSize = 0, coCount = 0, coLimit = False\<rparr>
        in if coLimit c \<or> endedAfter
           then \<lparr>inRows = [], inErr = Some (plainError ''investigation incomplete''), inStarted = started, inMillis = millis, inCalled = True\<rparr>
           else \<lparr>inRows = coRows c, inErr = err, inStarted = started, inMillis = millis, inCalled = True\<rparr>)"

section \<open>Recording\<close>

record Observation =
  obRunID :: string
  obTimestamp :: string
  obTarget :: string
  obTargetType :: string
  obStatus :: string
  obOutcome :: string
  obAttempted :: "string list"
  obSucceeded :: "string list"
  obPartial :: "string list"
  obFailed :: "string list"
  obUnattributed :: bool
  obMillis :: int
  obChanges :: int
  obCreated :: int

text \<open>An empty list of sources is a nil slice.\<close>

definition namesJSON :: "string list \<Rightarrow> json" where
  "namesJSON xs = (if xs = [] then JNull else strList xs)"

definition observationJSON :: "Observation \<Rightarrow> json" where
  "observationJSON r = JObj
     ([(''run_id'', JStr (obRunID r)), (''timestamp'', JStr (obTimestamp r)), (''target'', JStr (obTarget r)),
       (''target_type'', JStr (obTargetType r)), (''status'', JStr (obStatus r)), (''outcome'', JStr (obOutcome r)),
       (''sources_attempted'', namesJSON (obAttempted r)), (''sources_succeeded'', namesJSON (obSucceeded r)),
       (''sources_partial'', namesJSON (obPartial r)), (''sources_failed'', namesJSON (obFailed r))]
      @ (if obUnattributed r then [(''unattributed_failure'', JBool True)] else [])
      @ [(''duration_ms'', JInt (obMillis r)), (''change_count'', JInt (obChanges r)), (''baselines_created'', JInt (obCreated r))])"

record world =
  woStore :: store
  woAlerts :: "string list"

type_synonym 'a run = "world \<Rightarrow> (goError + 'a) \<times> world"

definition bindR :: "'a run \<Rightarrow> ('a \<Rightarrow> 'b run) \<Rightarrow> 'b run" where
  "bindR a k w = (case a w of (Inl e, v) \<Rightarrow> (Inl e, v) | (Inr x, v) \<Rightarrow> k x v)"

definition onStore :: "'a act \<Rightarrow> 'a run" where
  "onStore a w = (let (r, s) = a (woStore w) in (r, w\<lparr>woStore := s\<rparr>))"

text \<open>A line for the alerts; \<open>broken n\<close> is the error of the \<open>n\<close>-th write to them.\<close>

definition alert :: "(nat \<Rightarrow> goError option) \<Rightarrow> string \<Rightarrow> unit run" where
  "alert broken line w =
     (case broken (length (woAlerts w)) of Some e \<Rightarrow> (Inl e, w) | None \<Rightarrow> (Inr (), w\<lparr>woAlerts := woAlerts w @ [line @ [NL]]\<rparr>))"

fun alertAll :: "(nat \<Rightarrow> goError option) \<Rightarrow> string list \<Rightarrow> unit run" where
  "alertAll broken [] w = (Inr (), w)"
| "alertAll broken (l # ls) w = bindR (alert broken l) (\<lambda>_. alertAll broken ls) w"

definition emitWarnings :: "(nat \<Rightarrow> goError option) \<Rightarrow> unit run" where
  "emitWarnings broken w =
     (let (ws, s) = Warnings (woStore w) in alertAll broken (map (\<lambda>m. ''[WATCH] '' @ m) ws) (w\<lparr>woStore := s\<rparr>))"

definition observationOf :: "inspection \<Rightarrow> Target \<Rightarrow> projection \<Rightarrow> bool \<Rightarrow> nat \<Rightarrow> nat \<Rightarrow> Observation" where
  "observationOf r t p failed changes created =
     \<lparr>obRunID = [], obTimestamp = inStarted r, obTarget = tValue t, obTargetType = tKind t,
      obStatus = (if pPartial p \<noteq> [] then ''partial'' else if pGood p = [] then ''failed''
                  else if pFailed p \<noteq> [] \<or> failed then ''partial'' else ''complete''),
      obOutcome = (if changes > 0 then ''changed'' else if created > 0 then ''baseline_created''
                   else if pGood p = [] then ''skipped'' else ''unchanged''),
      obAttempted = pAttempted p, obSucceeded = map ssSource (pGood p), obPartial = pPartial p, obFailed = pFailed p,
      obUnattributed = (failed \<and> pFailed p = [] \<and> pPartial p = []),
      obMillis = inMillis r, obChanges = int changes, obCreated = int created\<rparr>"

text \<open>The stable identity of a change: the target, the revision it starts from, and the change itself.\<close>

definition nameChange :: "Target \<Rightarrow> u64 \<Rightarrow> string \<Rightarrow> Change \<Rightarrow> Change" where
  "nameChange t revision timestamp c =
     (let c = c\<lparr>chTarget := tValue t, chTargetType := tKind t\<rparr>;
          seed = Identity t @ '':'' @ itoa (uint revision) @ '':'' @ marshal (changeJSON c)
      in c\<lparr>chID := encodeToString (sha256 (bytesOf seed)), chTimestamp := timestamp\<rparr>)"

definition preview :: "string \<Rightarrow> string" where
  "preview s = (if length s > 512 then take 512 s @ ''... (full value in changes.jsonl)'' else s)"

definition changeLine :: "(string \<Rightarrow> string) \<Rightarrow> Target \<Rightarrow> Change \<Rightarrow> string" where
  "changeLine quote t c =
     (let val = (\<lambda>x. case x of None \<Rightarrow> [] | Some e \<Rightarrow> evValue e) in
      ''[CHANGE] '' @ tKind t @ '' '' @ quote (tValue t) @ '' source='' @ quote (chSource c) @ '' '' @ chKind c @ '' ''
      @ quote (chEvidenceType c) @ '' old='' @ quote (preview (val (chOld c))) @ '' new='' @ quote (preview (val (chNew c))))"

record codec =
  cdUni :: "string \<Rightarrow> string"
  cdParse :: "string \<Rightarrow> json option"
  cdDecode :: "string \<Rightarrow> Snapshot option"
  cdIDs :: "string \<Rightarrow> (string \<times> string) option"
  cdQuote :: "string \<Rightarrow> string"

record clock =
  ckRandom :: "goError + bytes"
  ckNow :: string

definition recordInspection :: "codec \<Rightarrow> faults \<Rightarrow> (nat \<Rightarrow> goError option) \<Rightarrow> clock \<Rightarrow> Target \<Rightarrow> inspection \<Rightarrow> unit run" where
  "recordInspection cd orc broken ck t r =
     (let projected = projectRows (cdUni cd) (cdParse cd) (inRows r) (inErr r \<noteq> None);
          p = (case projected of Inl _ \<Rightarrow> noProjection | Inr p \<Rightarrow> p);
          failed = (inErr r \<noteq> None \<or> (case projected of Inl _ \<Rightarrow> True | Inr _ \<Rightarrow> False))
      in bindR (onStore (LoadBaseline (cdUni cd) (cdParse cd) (cdDecode cd) orc t)) (\<lambda>(old, _).
         let (next, events, created) = merge old (pGood p);
             observation = observationOf r t p failed (length events) created
         in case ckRandom ck of Inl e \<Rightarrow> (\<lambda>w. (Inl e, w))
          | Inr random \<Rightarrow>
              (let observation = observation\<lparr>obRunID := encodeToString random\<rparr>;
                   events = map (nameChange t (snRevision old) (ckNow ck)) events;
                   raw = marshal (snapshotJSON next)
               in case parseState (cdUni cd) (cdParse cd) (cdDecode cd) raw t of
                    Inl e \<Rightarrow> (\<lambda>w. (Inl (plainError e), w))
                  | Inr _ \<Rightarrow>
                      bindR (onStore (Observations orc (cdIDs cd) (observationJSON observation))) (\<lambda>_.
                      bindR (onStore (Changes orc (cdIDs cd) events)) (\<lambda>_.
                      bindR (if pGood p \<noteq> [] \<and> marshal (snapshotJSON old) \<noteq> raw
                             then onStore (SaveBaseline (cdUni cd) (cdParse cd) (cdDecode cd) orc t next)
                             else (\<lambda>w. (Inr (), w))) (\<lambda>_.
                      bindR (emitWarnings broken) (\<lambda>_.
                      alertAll broken (map (changeLine (cdQuote cd) t) events))))))))"

section \<open>Cycles\<close>

definition safeError :: "goError \<Rightarrow> goError" where
  "safeError e = e\<lparr>eText := ''monitor storage or configuration failure: '' @ eText e\<rparr>"

text \<open>The share of a target in a cycle; all divisions are of positive numbers.\<close>

definition targetBudget :: "Options \<Rightarrow> nat \<Rightarrow> int" where
  "targetBudget r targets =
     (let batches = (int targets + opConcurrency r - 1) div opConcurrency r
      in min (90 * 1000000000) (opCycleTimeout r div (batches + 1)))"

fun recordBatch :: "codec \<Rightarrow> faults \<Rightarrow> (nat \<Rightarrow> goError option) \<Rightarrow> clock \<Rightarrow> (Target \<times> inspection) list \<Rightarrow> unit run" where
  "recordBatch cd orc broken ck [] w = (Inr (), w)"
| "recordBatch cd orc broken ck ((t, r) # rest) w =
     (if inCalled r then
        (case recordInspection cd orc broken ck t r w of
           (Inl e, w) \<Rightarrow> (Inl (safeError e), w)
         | (Inr _, w) \<Rightarrow> recordBatch cd orc broken ck rest w)
      else recordBatch cd orc broken ck rest w)"

text \<open>
  The batches of a cycle: \<open>ended n\<close> says whether the cycle's context has ended before batch \<open>n\<close>, and \<open>look n\<close>
  gives the inspection of a target in that batch.
\<close>

function cycleLoop :: "codec \<Rightarrow> faults \<Rightarrow> (nat \<Rightarrow> goError option) \<Rightarrow> (nat \<Rightarrow> clock) \<Rightarrow> (nat \<Rightarrow> bool) \<Rightarrow> (nat \<Rightarrow> Target \<Rightarrow> inspection)
    \<Rightarrow> nat \<Rightarrow> nat \<Rightarrow> Target list \<Rightarrow> unit run" where
  "cycleLoop cd orc broken ck ended look width n ts w =
     (if ts = [] \<or> ended n \<or> width = 0 then (Inr (), w)
      else (case recordBatch cd orc broken (ck n) (map (\<lambda>t. (t, look n t)) (take width ts)) w of
              (Inl e, w) \<Rightarrow> (Inl e, w)
            | (Inr _, w) \<Rightarrow> cycleLoop cd orc broken ck ended look width (n + 1) (drop width ts) w))"
  by pat_completeness auto
termination
  by (relation "measure (\<lambda>(cd, orc, broken, ck, ended, look, width, n, ts, w). length ts)") auto

declare cycleLoop.simps [simp del]

record engine =
  egTargets :: "Target list"
  egOptions :: Options

record cycleEnv =
  cyEnded :: "nat \<Rightarrow> bool"
  cyAfter :: bool                        \<comment> \<open>the cycle's context has ended after the batches\<close>
  cyParent :: bool                       \<comment> \<open>and so has its parent\<close>
  cyLook :: "nat \<Rightarrow> Target \<Rightarrow> inspection"
  cyClock :: "nat \<Rightarrow> clock"

definition cycle :: "codec \<Rightarrow> faults \<Rightarrow> (nat \<Rightarrow> goError option) \<Rightarrow> engine \<Rightarrow> cycleEnv \<Rightarrow> unit run" where
  "cycle cd orc broken en cy =
     bindR (cycleLoop cd orc broken (cyClock cy) (cyEnded cy) (cyLook cy) (nat (opConcurrency (egOptions en))) 0 (egTargets en)) (\<lambda>_.
       if cyAfter cy \<and> \<not> cyParent cy then alert broken ''[WATCH] cycle deadline reached; unstarted targets were not observed''
       else (\<lambda>w. (Inr (), w)))"

text \<open>The rounds of a run; \<open>None\<close> is a run that has not returned after the given rounds.\<close>

record runRound =
  rrEnded :: bool
  rrCycle :: cycleEnv
  rrWait :: "goError option"             \<comment> \<open>how the wait between two cycles ended\<close>
  rrEndedWait :: bool

fun runLoop :: "codec \<Rightarrow> faults \<Rightarrow> (nat \<Rightarrow> goError option) \<Rightarrow> engine \<Rightarrow> runRound list \<Rightarrow> world \<Rightarrow> (goError + unit) option \<times> world" where
  "runLoop cd orc broken en [] w = (None, w)"
| "runLoop cd orc broken en (r # rs) w =
     (if rrEnded r then (Some (Inr ()), w)
      else (case cycle cd orc broken en (rrCycle r) w of
              (Inl e, w) \<Rightarrow> (Some (Inl e), w)
            | (Inr _, w) \<Rightarrow>
                (case rrWait r of None \<Rightarrow> runLoop cd orc broken en rs w
                 | Some e \<Rightarrow> (Some (if rrEndedWait r then Inr () else Inl e), w))))"

definition RunMonitor :: "codec \<Rightarrow> faults \<Rightarrow> (nat \<Rightarrow> goError option) \<Rightarrow> bool \<Rightarrow> engine \<Rightarrow> runRound list \<Rightarrow> world
    \<Rightarrow> (goError + unit) option \<times> world" where
  "RunMonitor cd orc broken running en rs w =
     (if running then (Some (Inl (plainError ''monitor already running'')), w)
      else (case emitWarnings broken w of
              (Inl e, w) \<Rightarrow> (Some (Inl e), w)
            | (Inr _, w) \<Rightarrow> runLoop cd orc broken en rs w))"

section \<open>Construction\<close>

fun targetsOrdered :: "secretStore \<Rightarrow> string \<Rightarrow> Target list \<Rightarrow> bool" where
  "targetsOrdered st previous [] \<longleftrightarrow> True"
| "targetsOrdered st previous (t # ts) \<longleftrightarrow>
     (let key = tKind t @ [CHR 0x00] @ tValue t
      in TargetValid st t \<and> \<not> Sensitive (tKind t) \<and> previous < key \<and> targetsOrdered st key ts)"

fun loadAll :: "codec \<Rightarrow> faults \<Rightarrow> Target list \<Rightarrow> unit act" where
  "loadAll cd orc [] = okA ()"
| "loadAll cd orc (t # ts) =
     bindA (LoadBaseline (cdUni cd) (cdParse cd) (cdDecode cd) orc t) (\<lambda>_. loadAll cd orc ts)"

text \<open>\<open>missing\<close> is that a dependency is nil.\<close>

definition NewMonitor :: "codec \<Rightarrow> faults \<Rightarrow> secretStore \<Rightarrow> bool \<Rightarrow> Target list \<Rightarrow> Options \<Rightarrow> engine act" where
  "NewMonitor cd orc st missing ts r s =
     (if \<not> optionsValid r then failA ''invalid bounded watch options'' s
      else if missing \<or> ts = [] \<or> length ts > MaxTargets then failA ''invalid monitor dependencies'' s
      else if \<not> targetsOrdered st [] ts then failA ''watch targets must be valid, sorted and unique'' s
      else case ValidateTargets ts s of Some e \<Rightarrow> (Inl e, s)
        | None \<Rightarrow> bindA (loadAll cd orc ts) (\<lambda>_. okA \<lparr>egTargets = ts, egOptions = r\<rparr>) s)"

end
