(* ===== verification/ReportModel.thy ===== *)
theory ReportModel
  imports ResultJson Sha256 "HOL-Library.AList"
begin

text \<open>
  The canonical report (\<open>src/internal/report/model.go\<close>): bounded, redacted and ordered observations with their
  identities, summary and status.  The decoder of \<open>encoding/json\<close> is an argument: \<open>parse\<close> gives the value of
  a text with all its keys in the order of the text, or \<open>None\<close> when the text is not one JSON value; \<open>decodeIndex\<close>
  reads the \<open>index\<close> field.  A time is its text with its year.
\<close>

section \<open>Limits and types\<close>

definition SchemaVersion :: string where "SchemaVersion = ''agentsearch.report.v1''"
definition MaxResults :: nat where "MaxResults = 10000"
definition MaxReportEvidence :: nat where "MaxReportEvidence = 20000"
definition MaxFieldBytes :: nat where "MaxFieldBytes = 65536"
definition MaxInputBytes :: nat where "MaxInputBytes = 8388608"

definition ErrLimit :: string where "ErrLimit = ''report resource limit exceeded''"

definition classObserved :: string where "classObserved = ''observed''"
definition classCorrelated :: string where "classCorrelated = ''correlated''"
definition classInferred :: string where "classInferred = ''inferred''"
definition classUnknown :: string where "classUnknown = ''unknown''"

definition validClass :: "string \<Rightarrow> bool" where
  "validClass c \<longleftrightarrow> c = classObserved \<or> c = classCorrelated \<or> c = classInferred \<or> c = classUnknown"

record Annotation =
  anSource :: string
  anKind :: string
  anClass :: string

text \<open>A creation time is its year and its text; \<open>None\<close> is the zero time.\<close>

record reportOptions =
  roCreated :: "(int \<times> string) option"
  roDuration :: int
  roWarnings :: "string list"
  roErrors :: "string list"
  roAnnotations :: "Annotation list"
  roPartial :: bool
  roTruncated :: bool

record Reference =
  rfID :: string
  rfIndex :: nat

record ExecutionSummary =
  esResults :: nat
  esSources :: nat
  esSuccessful :: nat
  esFailed :: nat
  esPartial :: nat
  esEvidence :: nat

record reportObservation =
  rnID :: string
  rnResult :: Result
  rnClass :: string
  rnClasses :: "string list"
  rnKind :: ObservationKind
  rnMeaning :: EvidenceMeaning
  rnErrorKind :: string
  rnPartial :: bool
  rnTruncated :: bool

record reportDocument =
  rdID :: string
  rdTargetType :: string
  rdTarget :: string
  rdCreatedAt :: string
  rdDuration :: int
  rdStatus :: string
  rdSummary :: ExecutionSummary
  rdResults :: "reportObservation list"
  rdCorrelations :: "Reference list"
  rdWarnings :: "string list"
  rdErrors :: "string list"
  rdPartial :: bool
  rdTruncated :: bool

section \<open>JSON\<close>

definition referenceJSON :: "Reference \<Rightarrow> json" where
  "referenceJSON r = JObj [(''result_id'', JStr (rfID r)), (''evidence_index'', JInt (int (rfIndex r)))]"

definition executionSummaryJSON :: "ExecutionSummary \<Rightarrow> json" where
  "executionSummaryJSON s = JObj (map (\<lambda>(k, n). (k, JInt (int n)))
     [(''results'', esResults s), (''sources'', esSources s), (''successful_sources'', esSuccessful s),
      (''failed_sources'', esFailed s), (''partial_sources'', esPartial s), (''evidence_count'', esEvidence s)])"

definition reportResult :: "Result \<Rightarrow> json" where
  "reportResult r = resultObject (UnscoredObservation r) r"

text \<open>The shadowed field moves to the end of the object.\<close>

definition reportObservationJSON :: "reportObservation \<Rightarrow> json" where
  "reportObservationJSON r = JObj
     ([(''id'', JStr (rnID r)), (''classification'', JStr (rnClass r)), (''evidence_classifications'', strList (rnClasses r)),
       (''observation_kind'', JStr (kindText (rnKind r))), (''meaning'', JStr (meaningText (rnMeaning r)))]
      @ omitEmpty ''error_kind'' (rnErrorKind r)
      @ [(''partial'', JBool (rnPartial r)), (''truncated'', JBool (rnTruncated r)), (''result'', reportResult (rnResult r))])"

definition documentJSON :: "reportDocument \<Rightarrow> json" where
  "documentJSON d = JObj
     [(''schema'', JStr SchemaVersion), (''investigation_id'', JStr (rdID d)), (''target_type'', JStr (rdTargetType d)),
      (''target'', JStr (rdTarget d)), (''created_at'', JStr (rdCreatedAt d)), (''duration_ns'', JInt (rdDuration d)),
      (''status'', JStr (rdStatus d)), (''summary'', executionSummaryJSON (rdSummary d)),
      (''results'', JArr (map reportObservationJSON (rdResults d))),
      (''correlations'', JArr (map referenceJSON (rdCorrelations d))),
      (''warnings'', strList (rdWarnings d)), (''errors'', strList (rdErrors d)),
      (''partial'', JBool (rdPartial d)), (''truncated'', JBool (rdTruncated d))]"

definition digest :: "json \<Rightarrow> string" where
  "digest j = encodeToString (sha256 (bytesOf (jsonText j)))"

section \<open>Bounds\<close>

definition checkField :: "string \<Rightarrow> bool" where
  "checkField s \<longleftrightarrow> length s \<le> MaxFieldBytes \<and> utf8Valid s"

fun addFields :: "string list \<Rightarrow> nat \<Rightarrow> string + nat" where
  "addFields [] n = Inr n"
| "addFields (s # ss) n =
     failIf (\<not> checkField s) ErrLimit (failIf (n + length s > MaxInputBytes) ErrLimit (addFields ss (n + length s)))"

definition ResultSize :: "Result \<Rightarrow> string + nat" where
  "ResultSize r =
     andThen (addFields [rSource r, rSourceType r, rSiteName r, rTarget r, rTargetType r, rURL r, rFinalURL r, rError r, rStatus r] 0) (\<lambda>n.
       failIf (length (rEvidence r) > MaxReportEvidence \<or> length (rMetadata r) > 256) ErrLimit
       (addFields (concat (map (\<lambda>e. [evKind e, evValue e]) (rEvidence r)) @ concat (map (\<lambda>(k, v). [k, v]) (rMetadata r))) n))"

section \<open>Structured values\<close>

text \<open>The keys of every object differ, and nesting is bounded; \<open>None\<close> is success.\<close>

fun checkKeys :: "nat \<Rightarrow> json \<Rightarrow> string option"
and checkKeysElems :: "nat \<Rightarrow> json list \<Rightarrow> string option"
and checkKeysFields :: "nat \<Rightarrow> string list \<Rightarrow> (string \<times> json) list \<Rightarrow> string option" where
  "checkKeys d (JObj kvs) = (if d > 16 then Some ErrLimit else checkKeysFields d [] kvs)"
| "checkKeys d (JArr xs) = (if d > 16 then Some ErrLimit else checkKeysElems d xs)"
| "checkKeys d j = (if d > 16 then Some ErrLimit else None)"
| "checkKeysElems d [] = None"
| "checkKeysElems d (x # xs) = (case checkKeys (d + 1) x of Some e \<Rightarrow> Some e | None \<Rightarrow> checkKeysElems d xs)"
| "checkKeysFields d seen [] = None"
| "checkKeysFields d seen ((k, v) # kvs) =
     (if k \<in> set seen then Some ''duplicate structured report key''
      else case checkKeys (d + 1) v of Some e \<Rightarrow> Some e | None \<Rightarrow> checkKeysFields d (k # seen) kvs)"

text \<open>The redacting walk over a value whose keys are distinct; a map is written with its keys in order.\<close>

fun cleanTree :: "(string \<Rightarrow> string) \<Rightarrow> string list \<Rightarrow> nat \<Rightarrow> json \<Rightarrow> string + json"
and cleanTreeElems :: "(string \<Rightarrow> string) \<Rightarrow> string list \<Rightarrow> nat \<Rightarrow> json list \<Rightarrow> string + json list"
and cleanTreeFields :: "(string \<Rightarrow> string) \<Rightarrow> string list \<Rightarrow> nat \<Rightarrow> string list \<Rightarrow> (string \<times> json) list \<Rightarrow> string + (string \<times> json) list" where
  "cleanTree uni secrets d (JObj kvs) =
     failIf (d > 16) ErrLimit (andThen (cleanTreeFields uni secrets d [] kvs) (\<lambda>r. Inr (JObj (sortBy (\<lambda>a b. fst a < fst b) r))))"
| "cleanTree uni secrets d (JArr xs) = failIf (d > 16) ErrLimit (andThen (cleanTreeElems uni secrets d xs) (\<lambda>r. Inr (JArr r)))"
| "cleanTree uni secrets d (JStr s) = failIf (d > 16) ErrLimit (Inr (JStr (Redact s secrets)))"
| "cleanTree uni secrets d j = failIf (d > 16) ErrLimit (Inr j)"
| "cleanTreeElems uni secrets d [] = Inr []"
| "cleanTreeElems uni secrets d (x # xs) =
     andThen (cleanTree uni secrets (d + 1) x) (\<lambda>y. andThen (cleanTreeElems uni secrets d xs) (\<lambda>ys. Inr (y # ys)))"
| "cleanTreeFields uni secrets d seen [] = Inr []"
| "cleanTreeFields uni secrets d seen ((k, v) # kvs) =
     (let key = Redact k secrets in
      failIf (key \<in> set seen) ''redacted evidence keys collide''
      (andThen (if SensitiveKey uni k then Inr (JStr Redacted) else cleanTree uni secrets (d + 1) v) (\<lambda>w.
        andThen (cleanTreeFields uni secrets d (key # seen) kvs) (\<lambda>r. Inr ((key, w) # r)))))"

definition cleanValue :: "(string \<Rightarrow> string) \<Rightarrow> (string \<Rightarrow> json option) \<Rightarrow> string list \<Rightarrow> string \<Rightarrow> string + string" where
  "cleanValue uni parse secrets s =
     (let t = trimSpace s in
      if t \<noteq> Redacted \<and> (hasPrefix t ''{'' \<or> hasPrefix t ''['') then
        (case parse s of None \<Rightarrow> Inl ''malformed structured report value''
         | Some v \<Rightarrow>
             (case checkKeys 0 v of Some e \<Rightarrow> Inl e
              | None \<Rightarrow> andThen (cleanTree uni secrets 0 v) (\<lambda>w. Inr (jsonText w))))
      else Inr (Redact s secrets))"

section \<open>Interpretation\<close>

definition baseClass :: "Result \<Rightarrow> string" where
  "baseClass r =
     (if rSourceType r = SourceWebsite then classInferred
      else let (kind, meaning) = EvidenceSemantics r in
        if kind \<noteq> ObservationUnknown \<and> (meaning = MeaningObservation \<or> meaning = MeaningAbsence) then classObserved
        else classUnknown)"

definition truncatedField :: "string \<Rightarrow> string \<Rightarrow> bool" where
  "truncatedField k lower \<longleftrightarrow> containsStr k ''truncat'' \<and> lower = ''true''
     \<or> k = ''history_stop'' \<and> (lower = ''page_limit'' \<or> lower = ''transaction_limit'')"

definition partialField :: "string \<Rightarrow> string \<Rightarrow> bool" where
  "partialField k lower \<longleftrightarrow> k = ''partial'' \<and> lower = ''true''
     \<or> hasSuffix k ''_status'' \<and> (lower = ''partial'' \<or> lower = ''unavailable'' \<or> lower = ''unknown'')"

definition badStatus :: "Result \<Rightarrow> bool" where
  "badStatus r \<longleftrightarrow> rStatus r = StatusError \<or> rStatus r = StatusBlocked"

definition flags :: "(string \<Rightarrow> string) \<Rightarrow> Result \<Rightarrow> bool \<times> bool" where
  "flags uni r =
     (let t = list_ex (\<lambda>(k, v). truncatedField k (toLower uni v)) (rMetadata r);
          p = (badStatus r \<or> list_ex (\<lambda>(k, v). partialField k (toLower uni v)) (rMetadata r))
      in (p \<or> t, t))"

definition indexValue :: "(string \<Rightarrow> int option) \<Rightarrow> string \<Rightarrow> int" where
  "indexValue decodeIndex s = (case decodeIndex s of Some i \<Rightarrow> if 0 \<le> i then i else - 1 | None \<Rightarrow> - 1)"

definition reportEvidenceLess :: "(string \<Rightarrow> int option) \<Rightarrow> Evidence \<Rightarrow> Evidence \<Rightarrow> bool" where
  "reportEvidenceLess decodeIndex a b \<longleftrightarrow>
     (if evKind a \<noteq> evKind b then evKind a < evKind b
      else let ai = indexValue decodeIndex (evValue a); bi = indexValue decodeIndex (evValue b) in
        if (0 \<le> ai) \<noteq> (0 \<le> bi) then 0 \<le> ai
        else if 0 \<le> ai \<and> 0 \<le> bi \<and> ai \<noteq> bi then ai < bi
        else evValue a < evValue b)"

section \<open>One result\<close>

record reportCodec =
  rcUni :: "string \<Rightarrow> string"
  rcParse :: "string \<Rightarrow> json option"
  rcIndex :: "string \<Rightarrow> int option"
  rcEpochYear :: int                     \<comment> \<open>the year of the Unix epoch in the local time zone\<close>

fun cleanEvidences :: "reportCodec \<Rightarrow> string list \<Rightarrow> Evidence list \<Rightarrow> string + Evidence list" where
  "cleanEvidences rc secrets [] = Inr []"
| "cleanEvidences rc secrets (e # es) =
     andThen (cleanValue (rcUni rc) (rcParse rc) secrets (evValue e)) (\<lambda>v.
       andThen (cleanEvidences rc secrets es) (\<lambda>r.
         Inr (\<lparr>evKind = Redact (evKind e) secrets, evValue = (if SensitiveKey (rcUni rc) (evKind e) then Redacted else v)\<rparr> # r)))"

fun cleanMetadata :: "reportCodec \<Rightarrow> string list \<Rightarrow> (string \<times> string) list \<Rightarrow> (string \<times> string) list \<Rightarrow> string + (string \<times> string) list" where
  "cleanMetadata rc secrets [] acc = Inr acc"
| "cleanMetadata rc secrets ((k, v) # kvs) acc =
     andThen (cleanValue (rcUni rc) (rcParse rc) secrets v) (\<lambda>value.
       let key = Redact k secrets in
       failIf (map_of acc key \<noteq> None) ''redacted metadata keys collide''
       (cleanMetadata rc secrets kvs (acc @ [(key, if SensitiveKey (rcUni rc) k then Redacted else value)])))"

definition cleanResult :: "reportCodec \<Rightarrow> string list \<Rightarrow> string \<Rightarrow> Result \<Rightarrow> string + Result" where
  "cleanResult rc secrets kind raw =
     andThen (cleanEvidences rc secrets (rEvidence raw)) (\<lambda>evidence.
     andThen (cleanMetadata rc secrets (rMetadata raw) []) (\<lambda>metadata.
     andThen (cleanValue (rcUni rc) (rcParse rc) secrets (rError raw)) (\<lambda>err.
       let r = Normalized (rcUni rc) (RedactedResult (rcUni rc) secrets (raw\<lparr>rEvidence := [], rMetadata := [], rError := err\<rparr>));
           r = r\<lparr>rEvidence := evidence, rMetadata := metadata, rError := err\<rparr>;
           r = (if Sensitive kind then r\<lparr>rTarget := Redacted, rTargetType := kind\<rparr> else r)
       in failIf (rDuration r < 0) ''invalid result duration''
          (Inr (r\<lparr>rEvidence := sortBy (reportEvidenceLess (rcIndex rc)) (rEvidence r)\<rparr>)))))"

definition observationFor :: "reportCodec \<Rightarrow> ((string \<times> string) \<times> string) list \<Rightarrow> string \<Rightarrow> Result \<Rightarrow> reportObservation" where
  "observationFor rc annotations source r =
     (let (p, t) = flags (rcUni rc) r; (kind, meaning) = EvidenceSemantics r; base = baseClass r
      in \<lparr>rnID = digest (reportResult r), rnResult = r, rnClass = base,
          rnClasses = map (\<lambda>e. case map_of annotations (source, evKind e) of Some c \<Rightarrow> c
            | None \<Rightarrow> if kind = ObservationBitcoin \<and> evKind e = ''crypto_counterparty'' then classCorrelated else base) (rEvidence r),
          rnKind = kind, rnMeaning = meaning,
          rnErrorKind = (case map_of (rMetadata r) ''error_kind'' of Some v \<Rightarrow> v | None \<Rightarrow> []),
          rnPartial = p, rnTruncated = t\<rparr>)"

text \<open>The running totals of bytes and of evidence are bounded before a result is read.\<close>

fun observeResults :: "reportCodec \<Rightarrow> string list \<Rightarrow> string \<Rightarrow> ((string \<times> string) \<times> string) list \<Rightarrow> Result list \<Rightarrow> nat \<Rightarrow> nat
    \<Rightarrow> string + reportObservation list \<times> nat \<times> nat" where
  "observeResults rc secrets kind annotations [] tot evs = Inr ([], tot, evs)"
| "observeResults rc secrets kind annotations (raw # rest) tot evs =
     andThen (ResultSize raw) (\<lambda>n.
       let tot = tot + n; evs = evs + length (rEvidence raw) in
       failIf (tot > MaxInputBytes \<or> evs > MaxReportEvidence) ErrLimit
       (andThen (cleanResult rc secrets kind raw) (\<lambda>r.
         andThen (observeResults rc secrets kind annotations rest tot evs) (\<lambda>(os, tot, evs).
           Inr (observationFor rc annotations (rSource raw) r # os, tot, evs)))))"

section \<open>The report\<close>

fun annotationMap :: "Annotation list \<Rightarrow> nat \<Rightarrow> ((string \<times> string) \<times> string) list \<Rightarrow> string + ((string \<times> string) \<times> string) list \<times> nat" where
  "annotationMap [] n m = Inr (m, n)"
| "annotationMap (a # rest) n m =
     (let n = n + length (anSource a) + length (anKind a); key = (anSource a, anKind a) in
      failIf (n > MaxInputBytes) ErrLimit
      (failIf (\<not> validClass (anClass a) \<or> \<not> checkField (anSource a) \<or> \<not> checkField (anKind a)) ''invalid evidence annotation''
      (failIf (case map_of m key of Some c \<Rightarrow> c \<noteq> anClass a | None \<Rightarrow> False) ''conflicting evidence annotations''
      (annotationMap rest n (AList.update key (anClass a) m)))))"

definition reportSecrets :: "string \<Rightarrow> string \<Rightarrow> Result list \<Rightarrow> string list" where
  "reportSecrets kind target results =
     (if Sensitive kind then [target] else []) @ map rTarget (filter (\<lambda>r. Sensitive (rTargetType r)) results)
     @ (if Sensitive kind then filter (\<lambda>t. t \<noteq> []) (map rTarget results) else [])"

definition observationLess :: "reportObservation \<Rightarrow> reportObservation \<Rightarrow> bool" where
  "observationLess a b \<longleftrightarrow>
     (let x = rnResult a; y = rnResult b in
      if rSource x \<noteq> rSource y then rSource x < rSource y
      else if rSourceType x \<noteq> rSourceType y then rSourceType x < rSourceType y
      else jsonText (reportResult x) < jsonText (reportResult y))"

text \<open>The second and later occurrences of an identity are numbered; \<open>seen\<close> counts them.\<close>

fun numberIDs :: "reportObservation list \<Rightarrow> string list \<Rightarrow> reportObservation list" where
  "numberIDs [] seen = []"
| "numberIDs (r # rest) seen =
     (let n = count_list seen (rnID r) + 1
      in (if n > 1 then r\<lparr>rnID := rnID r @ ''-'' @ itoa (int n)\<rparr> else r) # numberIDs rest (rnID r # seen))"

text \<open>The two bits of a source: some good row, some bad or partial row.\<close>

definition rowBits :: "Result \<Rightarrow> bool \<Rightarrow> bool \<times> bool" where
  "rowBits r p =
     (if badStatus r then (False, True)
      else if rStatus r = StatusFound \<or> rStatus r = StatusNotFound then (True, p)
      else (False, True))"

definition observationKey :: "reportObservation \<Rightarrow> string" where
  "observationKey r = rSourceType (rnResult r) @ [CHR 0x00] @ rSource (rnResult r)"

definition noteState :: "reportObservation \<Rightarrow> (string \<times> bool \<times> bool) list \<Rightarrow> (string \<times> bool \<times> bool) list" where
  "noteState r m =
     (let (g, b) = rowBits (rnResult r) (rnPartial r);
          (g0, b0) = (case map_of m (observationKey r) of Some x \<Rightarrow> x | None \<Rightarrow> (False, False))
      in AList.update (observationKey r) (g0 \<or> g, b0 \<or> b) m)"

definition goodRow :: "reportObservation \<Rightarrow> bool" where
  "goodRow r \<longleftrightarrow> rStatus (rnResult r) = StatusFound \<or> rStatus (rnResult r) = StatusNotFound"

definition oddRow :: "reportObservation \<Rightarrow> bool" where
  "oddRow r \<longleftrightarrow> \<not> badStatus (rnResult r) \<and> \<not> goodRow r"

definition correlationsOf :: "reportObservation \<Rightarrow> Reference list" where
  "correlationsOf r = map (\<lambda>i. \<lparr>rfID = rnID r, rfIndex = i\<rparr>)
     (filter (\<lambda>i. rnClasses r ! i = classCorrelated) [0..<length (rnClasses r)])"

definition summarize :: "reportObservation list \<Rightarrow> nat \<Rightarrow> ExecutionSummary" where
  "summarize os evs =
     (let states = map snd (fold noteState os [])
      in \<lparr>esResults = length os, esSources = length states,
          esSuccessful = length (filter (\<lambda>s. s = (True, False)) states),
          esFailed = length (filter (\<lambda>s. s = (False, True)) states),
          esPartial = length (filter (\<lambda>s. s = (True, True)) states), esEvidence = evs\<rparr>)"

fun cleanNotes :: "reportCodec \<Rightarrow> string list \<Rightarrow> string list \<Rightarrow> nat \<Rightarrow> string + string list \<times> nat" where
  "cleanNotes rc secrets [] tot = Inr ([], tot)"
| "cleanNotes rc secrets (s # ss) tot =
     (let tot = tot + length s in
      failIf (tot > MaxInputBytes \<or> \<not> checkField s) ErrLimit
      (andThen (cleanValue (rcUni rc) (rcParse rc) secrets s) (\<lambda>v.
        andThen (cleanNotes rc secrets ss tot) (\<lambda>(vs, tot). Inr (v # vs, tot)))))"

definition truncatedNote :: string where
  "truncatedNote = ''Truncated provider coverage or investigation collection; missing evidence is not proof of absence.''"

definition partialNote :: string where
  "partialNote = ''Partial investigation: retain successful observations; provider failures are not absence.''"

definition reportStatus :: "reportObservation list \<Rightarrow> string list \<Rightarrow> bool \<Rightarrow> bool \<Rightarrow> string" where
  "reportStatus os errs p t =
     (if os = [] \<and> errs = [] \<and> \<not> p \<and> \<not> t then ''empty''
      else if \<not> list_ex goodRow os \<and> (list_ex (\<lambda>r. badStatus (rnResult r)) os \<or> errs \<noteq> []) then ''failed''
      else if p \<or> errs \<noteq> [] then ''partial''
      else ''complete'')"

definition zeroTime :: string where "zeroTime = ''1970-01-01T00:00:00Z''"

text \<open>The document without its identity, from the observations in the order of the input.\<close>

definition assemble :: "string \<Rightarrow> string \<Rightarrow> string \<Rightarrow> reportOptions \<Rightarrow> reportObservation list \<Rightarrow> nat \<Rightarrow> string list \<Rightarrow> string list
    \<Rightarrow> reportDocument" where
  "assemble kind target created opts os evs warnings errs =
     (let results = numberIDs (sortBy observationLess os) [];
          t = (roTruncated opts \<or> list_ex rnTruncated os);
          p = (roPartial opts \<or> list_ex rnPartial os \<or> list_ex oddRow os \<or> t);
          warnings = warnings @ (if t then [truncatedNote] else []) @ (if p then [partialNote] else []);
          p = (p \<or> errs \<noteq> [])
      in \<lparr>rdID = [], rdTargetType = kind, rdTarget = target, rdCreatedAt = created, rdDuration = roDuration opts,
          rdStatus = reportStatus results errs p t, rdSummary = summarize results evs, rdResults = results,
          rdCorrelations = concat (map correlationsOf results), rdWarnings = sort warnings, rdErrors = sort errs,
          rdPartial = p, rdTruncated = t\<rparr>)"

definition NewReport :: "reportCodec \<Rightarrow> string \<Rightarrow> string \<Rightarrow> Result list \<Rightarrow> reportOptions \<Rightarrow> string + reportDocument" where
  "NewReport rc kind target0 results opts =
     failIf (\<not> kindValid kind) ''invalid report target type''
     (failIf (length results > MaxResults \<or> length (roWarnings opts) > 1000 \<or> length (roErrors opts) > 1000
         \<or> length (roAnnotations opts) > MaxReportEvidence \<or> roDuration opts < 0 \<or> \<not> checkField target0) ErrLimit
     (andThen (annotationMap (roAnnotations opts) 0 []) (\<lambda>(annotations, annotationBytes).
        let secrets = reportSecrets kind target0 results;
            target = (if Sensitive kind then Redacted else target0);
            (year, created) = (case roCreated opts of None \<Rightarrow> (rcEpochYear rc, zeroTime) | Some c \<Rightarrow> c)
        in failIf (year < 1970 \<or> year > 9999) ''invalid report creation time''
           (andThen (observeResults rc secrets kind annotations results (length target + annotationBytes) 0) (\<lambda>(os, tot, evs).
            andThen (cleanNotes rc secrets (roWarnings opts) tot) (\<lambda>(warnings, tot).
            andThen (cleanNotes rc secrets (roErrors opts) tot) (\<lambda>(errs, tot).
              let d = assemble kind (Redact target secrets) created opts os evs warnings errs;
                  d = d\<lparr>rdID := digest (documentJSON d)\<rparr>
              in failIf (length (jsonText (documentJSON d)) > MaxInputBytes) ErrLimit (Inr d))))))))"

end
