(* ===== verification/ReportModelInv.thy ===== *)
theory ReportModelInv
  imports ReportModel
begin

text \<open>What a report guarantees: distinct identities, a summary that adds up, and a status that hides no failure.\<close>

section \<open>Identities\<close>

lemma natDigits_inj: "natDigits m = natDigits n \<Longrightarrow> m = n"
  by (metis digitsVal_natDigits)

text \<open>The identity of the \<open>n\<close>-th occurrence of a base.\<close>

definition numbered :: "string \<times> nat \<Rightarrow> string" where
  "numbered bn = (if snd bn > 1 then fst bn @ ''-'' @ itoa (int (snd bn)) else fst bn)"

fun occurrences :: "string list \<Rightarrow> string list \<Rightarrow> (string \<times> nat) list" where
  "occurrences [] seen = []"
| "occurrences (b # bs) seen = (b, count_list seen b + 1) # occurrences bs (b # seen)"

lemma numberIDs_ids: "map rnID (numberIDs rs seen) = map numbered (occurrences (map rnID rs) seen)"
  by (induction rs seen rule: numberIDs.induct) (simp_all add: numbered_def Let_def)

lemma occurrences_later: "(b, n) \<in> set (occurrences bs seen) \<Longrightarrow> count_list seen b < n \<and> b \<in> set bs"
proof (induction bs seen rule: occurrences.induct)
  case (2 c bs seen)
  then show ?case by (cases "(b, n) = (c, count_list seen c + 1)") (auto split: if_splits)
qed simp

lemma occurrences_distinct: "distinct (occurrences bs seen)"
proof (induction bs seen rule: occurrences.induct)
  case (2 b bs seen)
  then show ?case using occurrences_later [of b "count_list seen b + 1" bs "b # seen"] by auto
qed simp

lemma numbered_inj:
  assumes "numbered p = numbered q" and "length (fst p) = k" and "length (fst q) = k" and "1 \<le> snd p" and "1 \<le> snd q"
  shows "p = q"
proof -
  obtain a m b n where p: "p = (a, m)" "q = (b, n)" by (cases p; cases q)
  have "a = b"
    using assms(1-3) by (auto simp: p numbered_def split: if_splits)
  moreover have "m = n"
    using assms calculation natDigits_inj by (auto simp: p numbered_def itoa_def split: if_splits)
  ultimately show ?thesis by (simp add: p)
qed

lemma numberIDs_distinct:
  assumes "\<forall>r \<in> set rs. length (rnID r) = k"
  shows "distinct (map rnID (numberIDs rs []))"
proof -
  let ?os = "occurrences (map rnID rs) []"
  have "inj_on numbered (set ?os)"
  proof (rule inj_onI)
    fix p q assume pq: "p \<in> set ?os" "q \<in> set ?os" and eq: "numbered p = numbered q"
    have "length (fst p) = k \<and> 1 \<le> snd p" "length (fst q) = k \<and> 1 \<le> snd q"
      using occurrences_later [of "fst p" "snd p" "map rnID rs" "[]"] occurrences_later [of "fst q" "snd q" "map rnID rs" "[]"] pq assms
      by auto
    then show "p = q" using numbered_inj [OF eq] by blast
  qed
  then show ?thesis by (simp add: numberIDs_ids distinct_map occurrences_distinct)
qed

lemma numberIDs_rest:
  "length (numberIDs rs seen) = length rs"
  "map rnResult (numberIDs rs seen) = map rnResult rs"
  "map rnClasses (numberIDs rs seen) = map rnClasses rs"
  by (induction rs seen rule: numberIDs.induct) (simp_all add: Let_def)

lemma numberIDs_pairs:
  "map (\<lambda>r. (rnResult r, rnClasses r)) (numberIDs rs seen) = map (\<lambda>r. (rnResult r, rnClasses r)) rs"
  by (induction rs seen rule: numberIDs.induct) (simp_all add: Let_def)

section \<open>Summary\<close>

lemma set_update_values: "v' \<in> snd ` set (AList.update k v al) \<Longrightarrow> v' = v \<or> v' \<in> snd ` set al"
  by (induction al) (auto split: if_splits)

lemma noteState_nonempty:
  "\<forall>s \<in> snd ` set m. s \<noteq> (False, False) \<Longrightarrow> \<forall>s \<in> snd ` set (noteState r m). s \<noteq> (False, False)"
proof
  fix s assume m: "\<forall>s \<in> snd ` set m. s \<noteq> (False, False)" and s: "s \<in> snd ` set (noteState r m)"
  have "rowBits (rnResult r) (rnPartial r) \<noteq> (False, False)" by (simp add: rowBits_def)
  then obtain g b where gb: "rowBits (rnResult r) (rnPartial r) = (g, b)" "g \<or> b"
    by (cases "rowBits (rnResult r) (rnPartial r)") auto
  obtain g0 b0 where "(case map_of m (observationKey r) of Some x \<Rightarrow> x | None \<Rightarrow> (False, False)) = (g0, b0)" by fastforce
  then have up: "noteState r m = AList.update (observationKey r) (g0 \<or> g, b0 \<or> b) m"
    using gb(1) by (simp add: noteState_def)
  have "s = (g0 \<or> g, b0 \<or> b) \<or> s \<in> snd ` set m"
    by (rule set_update_values) (use s up in simp)
  then show "s \<noteq> (False, False)" using m gb(2) by auto
qed

lemma states_nonempty: "\<forall>s \<in> snd ` set m. s \<noteq> (False, False) \<Longrightarrow> \<forall>s \<in> snd ` set (fold noteState rs m). s \<noteq> (False, False)"
proof (induction rs arbitrary: m)
  case (Cons r rs)
  show ?case using Cons.IH [OF noteState_nonempty [OF Cons.prems]] by simp
qed simp

lemma three_kinds:
  "\<forall>s \<in> set ss. s \<noteq> (False, False) \<Longrightarrow>
   length ss = length (filter (\<lambda>s. s = (True, False)) ss) + length (filter (\<lambda>s. s = (False, True)) ss)
     + length (filter (\<lambda>s. s = (True, True)) ss)"
  by (induction ss) auto

lemma summarize_adds_up:
  "esSources (summarize rs n) = esSuccessful (summarize rs n) + esFailed (summarize rs n) + esPartial (summarize rs n)"
proof -
  have "\<forall>s \<in> set (map snd (fold noteState rs [])). s \<noteq> (False, False)" using states_nonempty [of "[]" rs] by simp
  from three_kinds [OF this] show ?thesis by (simp add: summarize_def Let_def)
qed

section \<open>Status\<close>

lemma sorted_rows: "set (map rnResult (numberIDs (sortBy lt os) [])) = rnResult ` set os"
  by (simp add: numberIDs_rest)

lemma goodRow_result: "goodRow r \<longleftrightarrow> rStatus (rnResult r) = StatusFound \<or> rStatus (rnResult r) = StatusNotFound"
  by (simp add: goodRow_def)

lemma length_digest [simp]: "length (digest j) = 64"
  by (simp add: digest_def)

lemma observeResults_facts:
  "observeResults rc secrets kind annotations raws tot evs = Inr (os, tot', evs') \<Longrightarrow>
   \<forall>r \<in> set os. (\<exists>j. rnID r = digest j) \<and> (rnPartial r, rnTruncated r) = flags (rcUni rc) (rnResult r)
     \<and> length (rnClasses r) = length (rEvidence (rnResult r))"
proof (induction rc secrets kind annotations raws tot evs arbitrary: os tot' evs' rule: observeResults.induct)
  case (1 rc secrets kind annotations tot evs)
  then show ?case by simp
next
  case (2 rc secrets kind annotations raw rest tot evs)
  from "2.prems" obtain n r os1 t1 e1 where n: "ResultSize raw = Inr n" and
      fits: "\<not> (tot + n > MaxInputBytes \<or> evs + length (rEvidence raw) > MaxReportEvidence)"
      and r: "cleanResult rc secrets kind raw = Inr r"
      and rest: "observeResults rc secrets kind annotations rest (tot + n) (evs + length (rEvidence raw)) = Inr (os1, t1, e1)"
      and os: "os = observationFor rc annotations (rSource raw) r # os1"
    by (auto simp: Let_def res_simps)
  have "\<forall>r \<in> set os1. (\<exists>j. rnID r = digest j) \<and> (rnPartial r, rnTruncated r) = flags (rcUni rc) (rnResult r)
     \<and> length (rnClasses r) = length (rEvidence (rnResult r))"
    by (rule "2.IH" [OF refl refl rest])
  moreover have "rnID (observationFor rc annotations (rSource raw) r) = digest (reportResult r)"
      "(rnPartial (observationFor rc annotations (rSource raw) r), rnTruncated (observationFor rc annotations (rSource raw) r)) = flags (rcUni rc) r"
      "rnResult (observationFor rc annotations (rSource raw) r) = r"
      "length (rnClasses (observationFor rc annotations (rSource raw) r)) = length (rEvidence r)"
    by (simp_all add: observationFor_def Let_def split: prod.splits)
  ultimately show ?case by (auto simp: os)
qed

lemma NewReport_Inr:
  assumes "NewReport rc kind target results opts = Inr d"
  shows "\<exists>secrets annotations tot os tot' evs created t warnings errs i.
    observeResults rc secrets kind annotations results tot 0 = Inr (os, tot', evs)
    \<and> d = (assemble kind t created opts os evs warnings errs)\<lparr>rdID := i\<rparr>"
proof -
  obtain year created where c: "(case roCreated opts of None \<Rightarrow> (rcEpochYear rc, zeroTime) | Some c \<Rightarrow> c) = (year, created)"
    by fastforce
  show ?thesis using assms unfolding NewReport_def c by (auto simp: res_simps Let_def) blast+
qed

lemma reportStatus_complete:
  "reportStatus os errs p t = ''complete'' \<Longrightarrow> \<not> p \<and> errs = [] \<and> (os \<noteq> [] \<or> t)"
  by (auto simp: reportStatus_def split: if_splits)

lemma flags_bad: "badStatus r \<Longrightarrow> fst (flags uni r)"
  by (simp add: flags_def Let_def)

section \<open>A report of two equal rows\<close>

definition plainCodec :: reportCodec where
  "plainCodec = \<lparr>rcUni = (\<lambda>s. s), rcParse = (\<lambda>_. None), rcIndex = (\<lambda>_. None), rcEpochYear = 1970\<rparr>"

definition noOptions :: reportOptions where
  "noOptions = \<lparr>roCreated = None, roDuration = 0, roWarnings = [], roErrors = [], roAnnotations = [], roPartial = False, roTruncated = False\<rparr>"


definition demoRaw :: Result where "demoRaw = emptyResult\<lparr>rSource := ''s''\<rparr>"
definition reportDemoRow :: Result where "reportDemoRow = emptyResult\<lparr>rSource := ''s'', rSiteName := ''s'', rStatus := StatusNotFound\<rparr>"

lemma demo_parts:
  "kindValid ''domain''" "\<not> Sensitive ''domain''" "checkField ''a''" "Redact ''a'' [] = ''a''"
  "cleanResult plainCodec [] ''domain'' demoRaw = Inr reportDemoRow" "ResultSize demoRaw = Inr 1"
  "reportSecrets ''domain'' ''a'' [demoRaw, demoRaw] = []" "rEvidence demoRaw = []" "rSource demoRaw = ''s''"
  "flags (rcUni plainCodec) reportDemoRow = (False, False)" "EvidenceSemantics reportDemoRow = (ObservationUnknown, MeaningUnknown)"
  "baseClass reportDemoRow = classUnknown" "rEvidence reportDemoRow = []" "rMetadata reportDemoRow = []"
  "rSourceType reportDemoRow = []" "rSource reportDemoRow = ''s''" "rStatus reportDemoRow = StatusNotFound" "badStatus reportDemoRow = False"
  "jsonBound (reportResult reportDemoRow) < 10000"
  by code_simp+

definition demoObservation :: reportObservation where
  "demoObservation = \<lparr>rnID = digest (reportResult reportDemoRow), rnResult = reportDemoRow, rnClass = classUnknown, rnClasses = [],
     rnKind = ObservationUnknown, rnMeaning = MeaningUnknown, rnErrorKind = [], rnPartial = False, rnTruncated = False\<rparr>"

lemma demo_observe:
  "observeResults plainCodec [] ''domain'' [] [demoRaw, demoRaw] 1 0 = Inr ([demoObservation, demoObservation], 3, 0)"
  by (simp add: demo_parts observationFor_def demoObservation_def MaxInputBytes_def MaxReportEvidence_def res_simps)

definition demoResults :: "reportObservation list" where
  "demoResults = [demoObservation, demoObservation\<lparr>rnID := rnID demoObservation @ ''-2''\<rparr>]"

lemma itoa_two: "itoa 2 = ''2''"
  by code_simp

lemma demo_numbered: "numberIDs (sortBy observationLess [demoObservation, demoObservation]) [] = demoResults"
proof -
  have "numberIDs (sortBy observationLess [demoObservation, demoObservation]) []
    = [demoObservation, demoObservation\<lparr>rnID := rnID demoObservation @ ''-'' @ itoa 2\<rparr>]"
    by (simp add: observationLess_def)
  then show ?thesis unfolding itoa_two by (simp add: demoResults_def)
qed

lemma demo_row: "rnResult demoObservation = reportDemoRow" "rnTruncated demoObservation = False" "rnPartial demoObservation = False"
  "rnClasses demoObservation = []" "rnClass demoObservation = classUnknown" "rnErrorKind demoObservation = []"
  "length (rnID demoObservation) = 64" "rnKind demoObservation = ObservationUnknown" "rnMeaning demoObservation = MeaningUnknown"
  by (simp_all add: demoObservation_def)

definition demoDocument :: reportDocument where
  "demoDocument = \<lparr>rdID = [], rdTargetType = ''domain'', rdTarget = ''a'', rdCreatedAt = zeroTime, rdDuration = 0,
     rdStatus = ''complete'', rdSummary = \<lparr>esResults = 2, esSources = 1, esSuccessful = 1, esFailed = 0, esPartial = 0, esEvidence = 0\<rparr>,
     rdResults = demoResults, rdCorrelations = [], rdWarnings = [], rdErrors = [], rdPartial = False, rdTruncated = False\<rparr>"

lemma demo_assembled: "assemble ''domain'' ''a'' zeroTime noOptions [demoObservation, demoObservation] 0 [] [] = demoDocument"
  by (simp add: assemble_def demo_numbered Let_def demoDocument_def noOptions_def demo_row demoResults_def demo_parts
    oddRow_def goodRow_def reportStatus_def correlationsOf_def summarize_def noteState_def rowBits_def observationKey_def
    del: numberIDs.simps sortBy_simps)

lemma demo_small: "jsonBound (documentJSON (demoDocument\<lparr>rdID := digest j\<rparr>)) \<le> MaxInputBytes"
proof -
  have "itoa 2 = ''2''" "itoa 1 = ''1''" "itoa 0 = ''0''" "length zeroTime < 100" by code_simp+
  then show ?thesis using demo_parts(19) by (simp add: demoDocument_def demoResults_def documentJSON_def executionSummaryJSON_def
    reportObservationJSON_def demo_row omitEmpty_def strList_def SchemaVersion_def classUnknown_def kindText_def meaningText_def MaxInputBytes_def)
qed

lemma demo_options: "rcEpochYear plainCodec = 1970" "roCreated noOptions = None" "roDuration noOptions = 0" "roWarnings noOptions = []"
  "roErrors noOptions = []" "roAnnotations noOptions = []"
  by (simp_all add: plainCodec_def noOptions_def)

lemma demo_report:
  "NewReport plainCodec ''domain'' ''a'' [demoRaw, demoRaw] noOptions = Inr (demoDocument\<lparr>rdID := digest (documentJSON demoDocument)\<rparr>)"
proof -
  have "length (jsonText (documentJSON (demoDocument\<lparr>rdID := digest (documentJSON demoDocument)\<rparr>))) \<le> MaxInputBytes"
    using demo_small length_jsonText le_trans by blast
  then show ?thesis
    by (simp add: NewReport_def demo_parts(1-4,7) demo_observe [unfolded One_nat_def] demo_assembled Let_def demo_options MaxResults_def res_simps del: observeResults.simps)
qed

section \<open>Property\<close>

text \<open>C20: a report is consistent: its results have distinct identities, its counts add up to the sources it saw, every
  correlation names a result of the report and a correlated piece of its evidence, and a status of \<open>complete\<close> is only
  given when nothing was truncated or partial, no error was noted and every result is an explicit found or not found.\<close>

theorem report_consistent:
  assumes "NewReport rc kind target results opts = Inr d"
  shows "distinct (map rnID (rdResults d)) \<and> esResults (rdSummary d) = length (rdResults d)
    \<and> esSources (rdSummary d) = esSuccessful (rdSummary d) + esFailed (rdSummary d) + esPartial (rdSummary d)
    \<and> (\<forall>c \<in> set (rdCorrelations d). \<exists>r \<in> set (rdResults d). rfID c = rnID r \<and> rfIndex c < length (rEvidence (rnResult r))
        \<and> rnClasses r ! rfIndex c = classCorrelated)
    \<and> (rdStatus d = ''complete'' \<longrightarrow> \<not> rdPartial d \<and> \<not> rdTruncated d \<and> rdErrors d = [] \<and> (\<forall>r \<in> set (rdResults d). goodRow r))"
proof -
  obtain secrets annotations tot os tot' evs created t warnings errs i where
    obs: "observeResults rc secrets kind annotations results tot 0 = Inr (os, tot', evs)" and
    d: "d = (assemble kind t created opts os evs warnings errs)\<lparr>rdID := i\<rparr>" using NewReport_Inr [OF assms] by blast
  note facts = observeResults_facts [OF obs]
  define rs where "rs = numberIDs (sortBy observationLess os) []"
  have res: "rdResults d = rs" "rdSummary d = summarize rs evs" "rdCorrelations d = concat (map correlationsOf rs)"
    by (simp_all add: d assemble_def Let_def rs_def)
  have ids: "distinct (map rnID rs)" unfolding rs_def by (rule numberIDs_distinct [of _ 64]) (use facts in force)
  have rows: "rnResult ` set rs = rnResult ` set os"
    using numberIDs_rest(2) [of "sortBy observationLess os" "[]"] unfolding rs_def by (metis list.set_map set_sortBy)
  have pairs: "map (\<lambda>r. (rnResult r, rnClasses r)) rs = map (\<lambda>r. (rnResult r, rnClasses r)) (sortBy observationLess os)"
    unfolding rs_def by (rule numberIDs_pairs)
  have len: "length (rnClasses r) = length (rEvidence (rnResult r))" if "r \<in> set rs" for r
  proof -
    have "(rnResult r, rnClasses r) \<in> set (map (\<lambda>r. (rnResult r, rnClasses r)) rs)" using that by auto
    then show ?thesis using facts unfolding pairs by auto
  qed
  have cor: "\<exists>r \<in> set rs. rfID c = rnID r \<and> rfIndex c < length (rEvidence (rnResult r)) \<and> rnClasses r ! rfIndex c = classCorrelated"
    if "c \<in> set (rdCorrelations d)" for c
    using that len by (auto simp: res correlationsOf_def)
  have status: "\<not> rdPartial d \<and> \<not> rdTruncated d \<and> rdErrors d = [] \<and> (\<forall>r \<in> set rs. goodRow r)" if "rdStatus d = ''complete''"
  proof -
    have np: "\<not> rdPartial d" "errs = []"
      using that reportStatus_complete by (auto simp: d assemble_def Let_def)
    then have no: "\<not> rdTruncated d" "\<not> list_ex rnPartial os" "\<not> list_ex oddRow os"
      by (auto simp: d assemble_def Let_def)
    have "goodRow r" if "r \<in> set os" for r
    proof -
      have "\<not> rnPartial r" "\<not> oddRow r" using no(2,3) that by (auto simp: list_ex_iff)
      moreover have "(rnPartial r, rnTruncated r) = flags (rcUni rc) (rnResult r)" using facts that by blast
      ultimately have "\<not> badStatus (rnResult r)" using flags_bad by (metis fst_conv)
      then show ?thesis using \<open>\<not> oddRow r\<close> by (simp add: oddRow_def)
    qed
    then have "\<forall>r \<in> set rs. goodRow r" using rows unfolding goodRow_def by (metis (no_types, lifting) image_iff)
    then show ?thesis using np no by (simp add: d assemble_def Let_def)
  qed
  show ?thesis using ids cor status summarize_adds_up [of rs evs] unfolding res by (auto simp: summarize_def Let_def)
qed

theorem report_consistent_witness:
  "\<exists>d. NewReport plainCodec ''domain'' ''a'' [demoRaw, demoRaw] noOptions = Inr d \<and> length (rdResults d) = 2
    \<and> distinct (map rnID (rdResults d)) \<and> esSources (rdSummary d) = 1 \<and> rdStatus d = ''complete''"
  using report_consistent [OF demo_report] demo_report by (auto simp: demoDocument_def demoResults_def)

end
