(* ===== verification/AnalysisInput.thy ===== *)
theory AnalysisInput
  imports ReportModelInv Security
begin

text \<open>
  The input of the optional analysis (\<open>src/internal/analysis/input.go\<close>): a bounded, redacted prefix of a completed
  report.  \<open>parse\<close> is the decoder of \<open>encoding/json\<close> as in the report: the one value of a text with all its keys.
\<close>

section \<open>Limits and types\<close>

definition MaxAnalysisInput :: nat where "MaxAnalysisInput = 65536"
definition MaxRecords :: nat where "MaxRecords = 256"
definition MaxSources :: nat where "MaxSources = 128"
definition MaxAnalysisField :: nat where "MaxAnalysisField = 2048"

record analysisRecord =
  arID :: string
  arSource :: string
  arKind :: string
  arValue :: string
  arClass :: string

record analysisSource =
  asID :: string
  asName :: string
  asType :: string
  asStatus :: string
  asPartial :: bool
  asTruncated :: bool

record analysisInput =
  aiTarget :: string
  aiTargetType :: string
  aiStatus :: string
  aiPartial :: bool
  aiCoverage :: bool
  aiTruncated :: bool
  aiOmitted :: int
  aiSources :: "analysisSource list"
  aiRecords :: "analysisRecord list"
  aiCorrelations :: "string list"
  aiWarnings :: "string list"
  aiErrors :: "string list"

definition analysisRecordJSON :: "analysisRecord \<Rightarrow> json" where
  "analysisRecordJSON r = JObj (map (\<lambda>(k, v). (k, JStr v))
     [(''id'', arID r), (''source_id'', arSource r), (''kind'', arKind r), (''value'', arValue r), (''classification'', arClass r)])"

definition analysisSourceJSON :: "analysisSource \<Rightarrow> json" where
  "analysisSourceJSON s = JObj
     [(''id'', JStr (asID s)), (''name'', JStr (asName s)), (''type'', JStr (asType s)), (''status'', JStr (asStatus s)),
      (''partial'', JBool (asPartial s)), (''truncated'', JBool (asTruncated s))]"

definition analysisInputJSON :: "analysisInput \<Rightarrow> json" where
  "analysisInputJSON i = JObj
     [(''version'', JStr ''agentsearch.analysis.input.v1''), (''mode'', JStr ''investigation''),
      (''target'', JStr (aiTarget i)), (''target_type'', JStr (aiTargetType i)), (''investigation_status'', JStr (aiStatus i)),
      (''partial'', JBool (aiPartial i)), (''coverage_truncated'', JBool (aiCoverage i)),
      (''input_truncated'', JBool (aiTruncated i)), (''omitted_records'', JInt (aiOmitted i)),
      (''sources'', JArr (map analysisSourceJSON (aiSources i))), (''evidence'', JArr (map analysisRecordJSON (aiRecords i))),
      (''correlations'', strList (aiCorrelations i)), (''warnings'', strList (aiWarnings i)), (''errors'', strList (aiErrors i))]"

definition inputSize :: "analysisInput \<Rightarrow> nat" where
  "inputSize i = length (jsonText (analysisInputJSON i))"

section \<open>Safe text\<close>

text \<open>\<open>\b\<close>: exactly one of the characters before and after is a word character.\<close>

definition wordC :: "char \<Rightarrow> bool" where
  "wordC c \<longleftrightarrow> isLowerC c \<or> isUpperC c \<or> isDigitC c \<or> c = CHR ''_''"

definition wordAt :: "string \<Rightarrow> bool" where
  "wordAt s \<longleftrightarrow> s \<noteq> [] \<and> wordC (hd s)"

definition boundary :: "char option \<Rightarrow> string \<Rightarrow> bool" where
  "boundary prev s \<longleftrightarrow> (case prev of None \<Rightarrow> False | Some c \<Rightarrow> wordC c) \<noteq> wordAt s"

definition hexRun :: "nat \<Rightarrow> string \<Rightarrow> bool" where
  "hexRun n s \<longleftrightarrow> n \<le> length s \<and> list_all (\<lambda>c. isDigitC c \<or> lowerC c \<in> set ''abcdef'') (take n s)"

text \<open>The two token shapes; \<open>ci\<close> is the flag \<open>(?i)\<close>.\<close>

definition tokenChars :: "bool \<Rightarrow> rx" where
  "tokenChars ci =
     (let plain = Cls (\<lambda>c. wordC c \<or> c = CHR ''-'') in Plus (if ci then Alt plain foldLetter else plain))"

definition fixedText :: "bool \<Rightarrow> string \<Rightarrow> rx" where
  "fixedText ci w = (if ci then word w else foldr (\<lambda>x r. Seq (Cls (\<lambda>c. c = x)) r) w Eps)"

definition tokenRx :: "bool \<Rightarrow> rx" where
  "tokenRx ci =
     Alt (Seq (fixedText ci ''sk-'') (tokenChars ci))
       (Seq (fixedText ci ''eyJ'') (Seq (tokenChars ci) (Seq (fixedText ci ''.'') (Seq (tokenChars ci)
         (Seq (fixedText ci ''.'') (tokenChars ci))))))"

text \<open>The length of the match of \<open>opaque\<close> or \<open>cryptoOpaque\<close> at this position.\<close>

definition opaqueEnd :: "bool \<Rightarrow> char option \<Rightarrow> string \<Rightarrow> nat option" where
  "opaqueEnd crypto prev s =
     (if \<not> boundary prev s then None
      else case filter (\<lambda>n. hexRun n s \<and> \<not> wordAt (drop n s)) (if crypto then [] else [32, 40, 64, 128]) of
             n # _ \<Rightarrow> Some n
           | [] \<Rightarrow> (case rxEnds (tokenRx (\<not> crypto)) s of [] \<Rightarrow> None | n # _ \<Rightarrow> Some n))"

function replaceOpaque :: "bool \<Rightarrow> char option \<Rightarrow> string \<Rightarrow> string" where
  "replaceOpaque crypto prev [] = []"
| "replaceOpaque crypto prev (c # s) =
     (case opaqueEnd crypto prev (c # s) of
        Some n \<Rightarrow>
          if n = 0 then c # replaceOpaque crypto (Some c) s
          else Redacted @ replaceOpaque crypto (Some (last (take n (c # s)))) (drop n (c # s))
      | None \<Rightarrow> c # replaceOpaque crypto (Some c) s)"
  by pat_completeness auto
termination
  by (relation "measure (\<lambda>(crypto, prev, s). length s)") auto

declare replaceOpaque.simps [simp del]

definition sensitiveGroup :: rx where
  "sensitiveGroup =
     (let sep = Opt (Cls (\<lambda>c. c = CHR ''_'' \<or> c = CHR ''-'')) in
      Seq (altWords [Seq (word ''session'') (Opt (Seq sep (Alt (word ''id'') (word ''token'')))), word ''secret'',
             Seq (word ''refresh'') (Seq sep (word ''token''))])
      (Seq spacesRx (Seq (Cls (\<lambda>c. c = CHR '':'' \<or> c = CHR ''='')) spacesRx)))"
definition sensitiveRest :: rx where
  "sensitiveRest = Plus (Cls (\<lambda>c. \<not> isSpaceC c \<and> c \<notin> set '',;&''))"

definition cleanText :: "bool \<Rightarrow> string \<Rightarrow> string" where
  "cleanText crypto s = replaceRx sensitiveGroup sensitiveRest Redacted (replaceOpaque crypto None (Redact s []))"

definition safeText :: "string \<Rightarrow> string" where "safeText = cleanText False"

definition hiddenKey :: "(string \<Rightarrow> string) \<Rightarrow> string \<Rightarrow> bool" where
  "hiddenKey uni k \<longleftrightarrow> SensitiveKey uni k \<or>
     list_ex (containsStr (toLower uni k)) [''session'', ''credential'', ''password'', ''hash'']"

text \<open>In a Go map the last value of a repeated key stays, and the map is written in the order of its keys.\<close>

fun hideTree :: "(string \<Rightarrow> string) \<Rightarrow> (string \<Rightarrow> string) \<Rightarrow> json \<Rightarrow> json" where
  "hideTree uni clean (JObj kvs) = JObj (sortBy (\<lambda>a b. fst a < fst b)
     (fold (\<lambda>(k, v) m. AList.update k v m)
       (map (\<lambda>(k, v). (k, if hiddenKey uni k then JStr Redacted else hideTree uni clean v)) kvs) []))"
| "hideTree uni clean (JArr xs) = JArr (map (hideTree uni clean) xs)"
| "hideTree uni clean (JStr s) = JStr (clean s)"
| "hideTree uni clean j = j"

definition cleanField :: "(string \<Rightarrow> string) \<Rightarrow> (string \<Rightarrow> json option) \<Rightarrow> bool \<Rightarrow> string \<Rightarrow> string" where
  "cleanField uni parse crypto s =
     (case parse s of None \<Rightarrow> cleanText crypto s | Some v \<Rightarrow> jsonText (hideTree uni (cleanText crypto) v))"

section \<open>Records\<close>

text \<open>A record before it is cleaned: its identity, source, kind, value and class.\<close>

type_synonym rawRecord = "string \<times> string \<times> string \<times> string \<times> string"

definition evidenceRecords :: "reportObservation \<Rightarrow> rawRecord list" where
  "evidenceRecords r =
     map (\<lambda>(i, e). (rnID r @ ''/e/'' @ itoa (int i), rnID r, evKind e, evValue e, rnClasses r ! i))
       (enumerate 0 (rEvidence (rnResult r)))"

definition decimalText :: "string \<Rightarrow> bool" where
  "decimalText v \<longleftrightarrow> 1 \<le> length v \<and> length v \<le> 20 \<and> list_all isDigitC v"

definition allowedField :: "string \<Rightarrow> string \<Rightarrow> bool" where
  "allowedField k v \<longleftrightarrow> k = ''pwned'' \<and> (v = ''true'' \<or> v = ''false'') \<or> k = ''occurrences'' \<and> decimalText v"

definition metadataRecords :: "bool \<Rightarrow> reportObservation \<Rightarrow> rawRecord list" where
  "metadataRecords sensitive r =
     map (\<lambda>(i, k, v). (rnID r @ ''/m/'' @ itoa (int i), rnID r, k, v, rnClass r))
       (filter (\<lambda>(i, k, v). sensitive \<longrightarrow> allowedField k v)
         (enumerate 0 (sortBy (\<lambda>a b. fst a < fst b) (rMetadata (rnResult r)))))"

definition rowRecords :: "bool \<Rightarrow> reportObservation \<Rightarrow> rawRecord list" where
  "rowRecords sensitive r = (if sensitive then [] else evidenceRecords r) @ metadataRecords sensitive r"

definition hiddenKind :: "(string \<Rightarrow> string) \<Rightarrow> string \<Rightarrow> bool" where
  "hiddenKind uni kind \<longleftrightarrow> SensitiveKey uni kind \<or>
     list_ex (containsStr (toLower uni kind)) [''session'', ''password'', ''hash'']"

definition cleanRecord :: "(string \<Rightarrow> string) \<Rightarrow> (string \<Rightarrow> json option) \<Rightarrow> bool \<Rightarrow> rawRecord \<Rightarrow> analysisRecord" where
  "cleanRecord uni parse crypto = (\<lambda>(i, source, kind, value, c).
     \<lparr>arID = i, arSource = source, arKind = safeText kind,
      arValue = (if hiddenKind uni (safeText kind) then Redacted else cleanField uni parse crypto value), arClass = c\<rparr>)"

text \<open>The closure \<open>add\<close>; the flag is \<open>stopped\<close>.\<close>

definition addInputRecord :: "(string \<Rightarrow> string) \<Rightarrow> (string \<Rightarrow> json option) \<Rightarrow> bool \<Rightarrow> nat \<Rightarrow> rawRecord
    \<Rightarrow> analysisInput \<times> bool \<Rightarrow> analysisInput \<times> bool" where
  "addInputRecord uni parse crypto limit raw = (\<lambda>(i, stopped).
     if stopped then (i, True)
     else
       let (_, _, kind, value, _) = raw in
       if length (safeText kind) > 256 \<or> length (cleanField uni parse crypto value) > MaxAnalysisField
          \<or> length (aiRecords i) \<ge> MaxRecords then (i\<lparr>aiTruncated := True\<rparr>, True)
       else
         let r = cleanRecord uni parse crypto raw;
             j = i\<lparr>aiRecords := aiRecords i @ [r],
                  aiCorrelations := aiCorrelations i @ (if arClass r = classCorrelated then [arID r] else [])\<rparr>
         in if inputSize j > limit - 256 then (i\<lparr>aiTruncated := True\<rparr>, True) else (j, False))"

section \<open>Prepare\<close>

definition sourceName :: "bool \<Rightarrow> reportObservation \<Rightarrow> string" where
  "sourceName sensitive r = (if sensitive then ''password-provider'' else safeText (rSource (rnResult r)))"

definition sourceEntry :: "bool \<Rightarrow> reportObservation \<Rightarrow> analysisSource" where
  "sourceEntry sensitive r =
     (let name = sourceName sensitive r; t = rSourceType (rnResult r); s = rStatus (rnResult r)
      in \<lparr>asID = rnID r, asName = (if length name > 256 then ''[OMITTED]'' else name),
          asType = (if t = SourceAPI \<or> t = SourceLocal \<or> t = SourceWebsite then t else ''unknown''),
          asStatus = (if s = StatusFound \<or> s = StatusNotFound \<or> s = StatusBlocked \<or> s = StatusError then s else ''unknown''),
          asPartial = rnPartial r, asTruncated = rnTruncated r\<rparr>)"

fun sourcesLoop :: "(string \<Rightarrow> string) \<Rightarrow> (string \<Rightarrow> json option) \<Rightarrow> bool \<Rightarrow> bool \<Rightarrow> nat \<Rightarrow> reportObservation list
    \<Rightarrow> analysisInput \<times> bool \<Rightarrow> analysisInput" where
  "sourcesLoop uni parse crypto sensitive limit [] (i, stopped) = i"
| "sourcesLoop uni parse crypto sensitive limit (r # rest) (i, stopped) =
     (if stopped \<or> length (aiSources i) \<ge> MaxSources then i\<lparr>aiTruncated := True\<rparr>
      else
        let i = (if length (sourceName sensitive r) > 256 then i\<lparr>aiTruncated := True\<rparr> else i);
            j = i\<lparr>aiSources := aiSources i @ [sourceEntry sensitive r]\<rparr>
        in if inputSize j > limit - 256 then i\<lparr>aiTruncated := True\<rparr>
           else sourcesLoop uni parse crypto sensitive limit rest
                  (fold (addInputRecord uni parse crypto limit) (rowRecords sensitive r) (j, False)))"

definition isCrypto :: "string \<Rightarrow> bool" where
  "isCrypto t \<longleftrightarrow> t = TargetBitcoin \<or> t = TargetBitcoinTransaction"

definition emptyInput :: "(string \<Rightarrow> string) \<Rightarrow> (string \<Rightarrow> json option) \<Rightarrow> reportDocument \<Rightarrow> analysisInput" where
  "emptyInput uni parse d =
     (let target = (if isCrypto (rdTargetType d) then cleanField uni parse True (rdTarget d) else safeText (rdTarget d));
          long = length target > MaxAnalysisField;
          target = (if long then ''[OMITTED: target exceeds analysis limit]'' else target)
      in \<lparr>aiTarget = (if Sensitive (rdTargetType d) then Redacted else target), aiTargetType = rdTargetType d,
          aiStatus = rdStatus d, aiPartial = rdPartial d, aiCoverage = rdTruncated d, aiTruncated = long, aiOmitted = 0,
          aiSources = [], aiRecords = [], aiCorrelations = [],
          aiWarnings = (if rdPartial d then [''Partial investigation; failures are not absence.''] else [])
            @ (if rdTruncated d then [''Upstream evidence coverage is truncated.''] else [])
            @ (if rdWarnings d \<noteq> [] then [''Investigation warnings exist; inspect the deterministic report.''] else []),
          aiErrors = (if rdErrors d \<noteq> [] then [''Investigation errors exist; inspect source statuses.''] else [])\<rparr>)"

definition totalRecords :: "reportDocument \<Rightarrow> nat" where
  "totalRecords d = sum_list (map (\<lambda>r. length (rEvidence (rnResult r)) + length (rMetadata (rnResult r))) (rdResults d))"

text \<open>\<open>None\<close> is a report that fails its validation.\<close>

definition Prepare :: "(string \<Rightarrow> string) \<Rightarrow> (string \<Rightarrow> json option) \<Rightarrow> reportDocument option \<Rightarrow> nat \<Rightarrow> string + analysisInput \<times> string" where
  "Prepare uni parse rep limit =
     failIf (limit < 4096 \<or> limit > MaxAnalysisInput) ''input_too_large''
     (case rep of None \<Rightarrow> Inl ''internal_error''
      | Some d \<Rightarrow>
          let i = sourcesLoop uni parse (isCrypto (rdTargetType d)) (Sensitive (rdTargetType d)) limit (rdResults d)
                    (emptyInput uni parse d, False);
              i = i\<lparr>aiOmitted := int (totalRecords d) - int (length (aiRecords i))\<rparr>;
              i = i\<lparr>aiTruncated := (aiTruncated i \<or> aiOmitted i > 0)\<rparr>;
              raw = jsonText (analysisInputJSON i)
          in failIf (length raw > limit) ''input_too_large'' (Inr (i, raw)))"

end
