(* ===== verification/AnalysisParse.thy ===== *)
theory AnalysisParse
  imports AnalysisInput
begin

text \<open>
  The optional analysis (\<open>src/internal/analysis/analysis.go\<close>): the strict reading of a model's answer, the grounding
  of its claims in the records that were sent, and the service around a provider.  The decoder of \<open>encoding/json\<close>
  is an argument: \<open>parse\<close> gives the value of a text with all its keys, \<open>decode\<close> reads the fields of an answer.
\<close>

section \<open>Answers\<close>

definition MaxAnalysisOutput :: nat where "MaxAnalysisOutput = 32768"
definition MaxFindings :: nat where "MaxFindings = 12"
definition MaxHypotheses :: nat where "MaxHypotheses = 8"
definition MaxQuestions :: nat where "MaxQuestions = 8"
definition MaxRefs :: nat where "MaxRefs = 8"
definition MaxTotalRefs :: nat where "MaxTotalRefs = 128"
definition MaxClaims :: nat where "MaxClaims = 32"

record AnalysisFinding =
  afTitle :: string
  afDescription :: string
  afClass :: string
  afRefs :: "string list"
  afCaveat :: string

text \<open>An answer as it is decoded; \<open>None\<close> is a field that is missing or null.\<close>

record modelResult =
  mrFindings :: "AnalysisFinding list option"
  mrHypotheses :: "AnalysisFinding list option"
  mrAnomalies :: "AnalysisFinding list option"
  mrRelationships :: "AnalysisFinding list option"
  mrQuestions :: "string list option"
  mrLimitations :: "string list option"

record Analysis =
  anStatus :: string
  anError :: string
  anProvider :: string
  anModel :: string
  anDigest :: string
  anTruncated :: bool
  anSent :: nat
  anSummary :: string
  anFindings :: "AnalysisFinding list"
  anHypotheses :: "AnalysisFinding list"
  anAnomalies :: "AnalysisFinding list"
  anRelationships :: "AnalysisFinding list"
  anQuestions :: "string list"
  anLimitations :: "string list"

definition Failed :: "string \<Rightarrow> Analysis" where
  "Failed reason = \<lparr>anStatus = ''failed'', anError = reason, anProvider = [], anModel = [], anDigest = [], anTruncated = False,
     anSent = 0, anSummary = ''AI analysis unavailable; deterministic evidence is unchanged.'', anFindings = [],
     anHypotheses = [], anAnomalies = [], anRelationships = [], anQuestions = [],
     anLimitations = [''AI analysis is not an authoritative source of facts.'']\<rparr>"

text \<open>The walk over the tokens: repeated keys and deep nesting are refused.\<close>

fun strictWalk :: "nat \<Rightarrow> json \<Rightarrow> bool" where
  "strictWalk d (JObj kvs) \<longleftrightarrow> d \<le> 12 \<and> distinct (map fst kvs) \<and> list_all (\<lambda>(k, v). strictWalk (d + 1) v) kvs"
| "strictWalk d (JArr xs) \<longleftrightarrow> d \<le> 12 \<and> list_all (strictWalk (d + 1)) xs"
| "strictWalk d j \<longleftrightarrow> d \<le> 12"

definition StrictJSON :: "(string \<Rightarrow> json option) \<Rightarrow> (string \<Rightarrow> 'a option) \<Rightarrow> string \<Rightarrow> string + 'a" where
  "StrictJSON parse decode raw =
     failIf (raw = [] \<or> length raw > MaxAnalysisOutput \<or> \<not> utf8Valid raw) ''invalid_response''
     (case parse raw of None \<Rightarrow> Inl ''invalid_response''
      | Some v \<Rightarrow> failIf (\<not> strictWalk 0 v) ''invalid_response''
          (case decode raw of None \<Rightarrow> Inl ''invalid_response'' | Some m \<Rightarrow> Inr m))"

section \<open>Claims\<close>

text \<open>What every answer has had claimed so far: titles, fingerprints, references and claims.\<close>

record claimState =
  csTitles :: "string list"
  csFingerprints :: "string list"
  csTotal :: nat
  csClaims :: nat

definition claimFingerprint :: "AnalysisFinding \<Rightarrow> string" where
  "claimFingerprint f = digest (JObj [(''Description'', JStr (afDescription f)), (''Refs'', strList (afRefs f))])"

text \<open>A later record of the same identity replaces an earlier one in the map.\<close>

definition recordOf :: "analysisInput \<Rightarrow> string \<Rightarrow> analysisRecord option" where
  "recordOf i ref = map_of (rev (map (\<lambda>r. (arID r, r)) (aiRecords i))) ref"

definition badShape :: "AnalysisFinding \<Rightarrow> bool" where
  "badShape f \<longleftrightarrow> afTitle f = [] \<or> length (afTitle f) > 160 \<or> afDescription f = [] \<or> length (afDescription f) > MaxAnalysisField
     \<or> length (afCaveat f) > 512 \<or> afRefs f = [] \<or> length (afRefs f) > MaxRefs"

definition knownClass :: "string \<Rightarrow> bool" where
  "knownClass c \<longleftrightarrow> c \<in> set [''observed'', ''correlated'', ''inferred'', ''hypothesis'', ''unknown'']"

text \<open>Only an exact quotation of one record keeps its class.\<close>

definition groundClaim :: "analysisInput \<Rightarrow> AnalysisFinding \<Rightarrow> AnalysisFinding" where
  "groundClaim i f =
     (if afClass f = ''observed'' \<or> afClass f = ''correlated'' then
        (case recordOf i (hd (afRefs f)) of
           Some r \<Rightarrow>
             if length (afRefs f) \<noteq> 1 \<or> afDescription f \<noteq> arValue r \<or> afClass f \<noteq> arClass r then
               f\<lparr>afClass := ''inferred'', afCaveat := ''Model interpretation; evidence support has not been independently verified.''\<rparr>
             else
               f\<lparr>afTitle := ''Quotation of evidence '' @ hd (afRefs f),
                 afCaveat := ''Exact source quotation; not independent verification or ownership attribution.''\<rparr>
         | None \<Rightarrow> f)
      else f)"

definition cleanClaim :: "(string \<Rightarrow> string) \<Rightarrow> (string \<Rightarrow> json option) \<Rightarrow> analysisInput \<Rightarrow> bool \<Rightarrow> AnalysisFinding \<Rightarrow> AnalysisFinding" where
  "cleanClaim uni parse i hypothesis f =
     (let f = groundClaim i (f\<lparr>afRefs := sort (afRefs f)\<rparr>);
          f = (if hypothesis then f\<lparr>afClass := ''hypothesis''\<rparr> else f)
      in f\<lparr>afTitle := safeText (afTitle f), afDescription := cleanField uni parse (isCrypto (aiTargetType i)) (afDescription f),
           afCaveat := safeText (afCaveat f)\<rparr>)"

definition checkClaim :: "(string \<Rightarrow> string) \<Rightarrow> (string \<Rightarrow> json option) \<Rightarrow> analysisInput \<Rightarrow> bool \<Rightarrow> AnalysisFinding \<Rightarrow> claimState
    \<Rightarrow> (AnalysisFinding \<times> claimState) option" where
  "checkClaim uni parse i hypothesis f s =
     (let title = toLower uni (trimSpace (afTitle f)); g = cleanClaim uni parse i hypothesis f; print = claimFingerprint g in
      if csClaims s + 1 > MaxClaims \<or> badShape f \<or> \<not> knownClass (afClass f) \<or> title \<in> set (csTitles s)
         \<or> \<not> list_all (\<lambda>ref. recordOf i ref \<noteq> None) (afRefs f) \<or> \<not> distinct (afRefs f)
         \<or> csTotal s + length (afRefs f) > MaxTotalRefs
         \<or> length (afTitle g) > 160 \<or> length (afDescription g) > MaxAnalysisField \<or> length (afCaveat g) > 512
         \<or> print \<in> set (csFingerprints s)
      then None
      else Some (g, \<lparr>csTitles = title # csTitles s, csFingerprints = print # csFingerprints s,
                     csTotal = csTotal s + length (afRefs f), csClaims = csClaims s + 1\<rparr>))"

fun checkClaims :: "(string \<Rightarrow> string) \<Rightarrow> (string \<Rightarrow> json option) \<Rightarrow> analysisInput \<Rightarrow> bool \<Rightarrow> AnalysisFinding list \<Rightarrow> claimState
    \<Rightarrow> (AnalysisFinding list \<times> claimState) option" where
  "checkClaims uni parse i hypothesis [] s = Some ([], s)"
| "checkClaims uni parse i hypothesis (f # fs) s =
     (case checkClaim uni parse i hypothesis f s of None \<Rightarrow> None
      | Some (g, s) \<Rightarrow>
          (case checkClaims uni parse i hypothesis fs s of None \<Rightarrow> None | Some (gs, s) \<Rightarrow> Some (g # gs, s)))"

definition claimGroup :: "(string \<Rightarrow> string) \<Rightarrow> (string \<Rightarrow> json option) \<Rightarrow> analysisInput \<Rightarrow> bool \<Rightarrow> AnalysisFinding list \<Rightarrow> claimState
    \<Rightarrow> string + AnalysisFinding list \<times> claimState" where
  "claimGroup uni parse i hypothesis fs s =
     (case checkClaims uni parse i hypothesis fs s of None \<Rightarrow> Inl ''malformed_analysis''
      | Some (gs, s) \<Rightarrow> Inr (sortBy (\<lambda>a b. afTitle a < afTitle b) gs, s))"

definition cleanTexts :: "string list \<Rightarrow> string + string list" where
  "cleanTexts vs =
     failIf (list_ex (\<lambda>v. v = [] \<or> length v > 512 \<or> length (safeText v) > 512) vs) ''malformed_analysis'' (Inr (sort (map safeText vs)))"

text \<open>The four groups share their titles, fingerprints and totals, in this order.\<close>

definition parseGroups :: "(string \<Rightarrow> string) \<Rightarrow> (string \<Rightarrow> json option) \<Rightarrow> analysisInput \<Rightarrow> AnalysisFinding list \<Rightarrow> AnalysisFinding list
    \<Rightarrow> AnalysisFinding list \<Rightarrow> AnalysisFinding list \<Rightarrow> string list \<Rightarrow> string list \<Rightarrow> string + Analysis" where
  "parseGroups uni parse i fs hs os rs qs ls =
     failIf (length fs > MaxFindings \<or> length hs > MaxHypotheses \<or> length os > 8 \<or> length rs > 8
         \<or> length qs > MaxQuestions \<or> length ls > 8) ''malformed_analysis''
     (andThen (claimGroup uni parse i False fs \<lparr>csTitles = [], csFingerprints = [], csTotal = 0, csClaims = 0\<rparr>) (\<lambda>(fs, s).
      andThen (claimGroup uni parse i True hs s) (\<lambda>(hs, s).
      andThen (claimGroup uni parse i False os s) (\<lambda>(os, s).
      andThen (claimGroup uni parse i False rs s) (\<lambda>(rs, s).
      andThen (cleanTexts qs) (\<lambda>qs.
      andThen (cleanTexts ls) (\<lambda>ls.
        Inr ((Failed [])\<lparr>anStatus := ''completed'',
          anSummary := ''AI interpretation: '' @ itoa (int (csClaims s)) @ '' cited claims. Not independently verified.'',
          anFindings := fs, anHypotheses := hs, anAnomalies := os, anRelationships := rs, anQuestions := qs,
          anLimitations := anLimitations (Failed []) @ ls\<rparr>))))))))"

definition Parse :: "(string \<Rightarrow> string) \<Rightarrow> (string \<Rightarrow> json option) \<Rightarrow> (string \<Rightarrow> modelResult option) \<Rightarrow> string \<Rightarrow> analysisInput
    \<Rightarrow> string + Analysis" where
  "Parse uni parse decode raw i =
     andThen (StrictJSON parse decode raw) (\<lambda>m.
       case (mrFindings m, mrHypotheses m, mrAnomalies m, mrRelationships m, mrQuestions m, mrLimitations m) of
         (Some fs, Some hs, Some os, Some rs, Some qs, Some ls) \<Rightarrow> parseGroups uni parse i fs hs os rs qs ls
       | _ \<Rightarrow> Inl ''malformed_analysis'')"

section \<open>The service\<close>

definition errorCodes :: "string list" where
  "errorCodes = [''internal_error'', ''timeout'', ''cancelled'', ''rate_limited'', ''invalid_response'', ''malformed_analysis'',
     ''input_too_large'', ''provider_unavailable'', ''ai_not_configured'', ''ai_disabled'']"

text \<open>What \<open>errors.Is\<close> and \<open>errors.As\<close> find in an error.\<close>

record analysisError =
  aeCode :: "string option"
  aeCanceled :: bool
  aeDeadline :: bool

definition codeError :: "string \<Rightarrow> analysisError" where
  "codeError c = \<lparr>aeCode = Some c, aeCanceled = False, aeDeadline = False\<rparr>"

definition analysisCategory :: "analysisError \<Rightarrow> string" where
  "analysisCategory e =
     (if aeDeadline e then ''timeout'' else if aeCanceled e then ''cancelled''
      else case aeCode e of Some c \<Rightarrow> if c \<in> set errorCodes then c else ''provider_unavailable'' | None \<Rightarrow> ''provider_unavailable'')"

text \<open>What a provider does with a call: an answer, an error or a panic.\<close>

datatype providerCall = Answer string | CallError analysisError | CallPanic

record provider =
  pvSanitize :: "(string \<Rightarrow> string) option"
  pvGenerate :: "string \<Rightarrow> providerCall"

record analysisService =
  svProvider :: "provider option"
  svModel :: string
  svInputLimit :: nat
  svUnavailable :: string
  svProviderName :: string

record analysisDecoder =
  adUni :: "string \<Rightarrow> string"
  adParse :: "string \<Rightarrow> json option"
  adAnswer :: "string \<Rightarrow> modelResult option"
  adInput :: "analysisInput \<Rightarrow> string \<Rightarrow> analysisInput option"   \<comment> \<open>\<open>json.Unmarshal\<close> into an input that is already filled\<close>

text \<open>\<open>ctx n\<close> is the error of the context at its \<open>n\<close>-th check.\<close>

definition unlessDone :: "analysisError option \<Rightarrow> Analysis \<Rightarrow> Analysis \<Rightarrow> Analysis" where
  "unlessDone ctxErr out k = (case ctxErr of Some e \<Rightarrow> out\<lparr>anError := analysisCategory e\<rparr> | None \<Rightarrow> k)"

definition finishAnalysis :: "analysisService \<Rightarrow> analysisInput \<Rightarrow> Analysis \<Rightarrow> Analysis \<Rightarrow> Analysis" where
  "finishAnalysis s i out a =
     a\<lparr>anDigest := anDigest out, anTruncated := aiTruncated i, anSent := length (aiRecords i),
       anProvider := (if svProviderName s = [] then ''configured-adapter'' else svProviderName s), anModel := svModel s,
       anLimitations := anLimitations a @ (if aiTruncated i
         then [''AI received only a bounded subset; missing evidence is not absence.''] else [])\<rparr>"

text \<open>From the call of the provider on.\<close>

definition askProvider :: "analysisDecoder \<Rightarrow> (nat \<Rightarrow> analysisError option) \<Rightarrow> analysisService \<Rightarrow> provider \<Rightarrow> analysisInput \<Rightarrow> string \<Rightarrow> Analysis" where
  "askProvider ad ctx s p i raw =
     (let out = (Failed ''provider_unavailable'')\<lparr>anDigest := encodeToString (sha256 (bytesOf raw)),
            anTruncated := aiTruncated i, anSent := length (aiRecords i)\<rparr>
      in unlessDone (ctx 1) out
        (case pvGenerate p raw of
           CallPanic \<Rightarrow> Failed ''internal_error''
         | CallError e \<Rightarrow> unlessDone (ctx 2) out (out\<lparr>anError := analysisCategory e\<rparr>)
         | Answer response \<Rightarrow> unlessDone (ctx 2) out
             (case Parse (adUni ad) (adParse ad) (adAnswer ad) response i of
                Inl e \<Rightarrow> out\<lparr>anError := analysisCategory (codeError e)\<rparr>
              | Inr a \<Rightarrow> finishAnalysis s i out a)))"

text \<open>The optional sanitizer of a provider; \<open>None\<close> is a sanitized input that is too large or no longer readable.\<close>

definition sanitizeInput :: "analysisDecoder \<Rightarrow> nat \<Rightarrow> provider \<Rightarrow> analysisInput \<times> string \<Rightarrow> (analysisInput \<times> string) option" where
  "sanitizeInput ad limit p = (\<lambda>(i, raw).
     case pvSanitize p of None \<Rightarrow> Some (i, raw)
     | Some f \<Rightarrow> if length (f raw) > limit then None else map_option (\<lambda>j. (j, f raw)) (adInput ad i (f raw)))"

definition AnalyzeReport :: "analysisDecoder \<Rightarrow> (nat \<Rightarrow> analysisError option) \<Rightarrow> analysisService option \<Rightarrow> reportDocument option \<Rightarrow> Analysis" where
  "AnalyzeReport ad ctx service rep =
     (case service of None \<Rightarrow> Failed ''ai_not_configured''
      | Some s \<Rightarrow>
          (case svProvider s of
             None \<Rightarrow> Failed (if svUnavailable s \<noteq> [] then svUnavailable s else ''ai_not_configured'')
           | Some p \<Rightarrow>
               (case ctx 0 of Some e \<Rightarrow> Failed (analysisCategory e)
                | None \<Rightarrow>
                    (case Prepare (adUni ad) (adParse ad) rep (svInputLimit s) of
                       Inl e \<Rightarrow> Failed (analysisCategory (codeError e))
                     | Inr prepared \<Rightarrow>
                         (case sanitizeInput ad (svInputLimit s) p prepared of
                            None \<Rightarrow> Failed ''input_too_large''
                          | Some (i, raw) \<Rightarrow> askProvider ad ctx s p i raw)))))"

end
