(* ===== verification/AnalysisInv.thy ===== *)
theory AnalysisInv
  imports AnalysisParse
begin

text \<open>What the analysis guarantees: it sends an ordered prefix of the report, and its claims cite what was sent.\<close>

section \<open>The prepared input\<close>

abbreviation correlatedIDs :: "analysisRecord list \<Rightarrow> string list" where
  "correlatedIDs rs \<equiv> map arID (filter (\<lambda>r. arClass r = classCorrelated) rs)"

text \<open>How a step of the preparation may change the input: records are appended, a first part of \<open>rs\<close>.\<close>

definition grown :: "analysisRecord list \<Rightarrow> nat \<Rightarrow> analysisInput \<Rightarrow> analysisInput \<Rightarrow> bool" where
  "grown rs n i j \<longleftrightarrow> aiRecords j = aiRecords i @ take n rs \<and> aiCorrelations j = aiCorrelations i @ correlatedIDs (take n rs)
     \<and> aiTarget j = aiTarget i \<and> (aiTruncated i \<longrightarrow> aiTruncated j)
     \<and> (length (aiRecords i) \<le> MaxRecords \<longrightarrow> length (aiRecords j) \<le> MaxRecords)"

lemma grown_none [simp]: "grown rs 0 i i" "grown rs 0 i (i\<lparr>aiTruncated := True\<rparr>)"
  by (simp_all add: grown_def)

lemma grown_step:
  assumes "grown [r] 1 i j" and "grown rs n j k"
  shows "grown (r # rs) (Suc n) i k"
  using assms by (auto simp: grown_def)

lemma grown_append:
  assumes "grown as (length as) i j" and "grown bs n j k"
  shows "grown (as @ bs) (length as + n) i k"
  using assms by (auto simp: grown_def)

lemma grown_whole: "grown as n i j \<Longrightarrow> length as \<le> n \<Longrightarrow> grown as (length as) i j"
  unfolding grown_def by auto

lemma add_stopped [simp]: "fold (addInputRecord uni parse crypto limit) raws (i, True) = (i, True)"
  by (induction raws) (auto simp: addInputRecord_def)

lemma add_one:
  assumes "addInputRecord uni parse crypto limit raw (i, False) = (j, st)"
  shows "aiSources j = aiSources i \<and> (if st then grown rs 0 i j \<and> aiTruncated j else grown [cleanRecord uni parse crypto raw] 1 i j)"
  using assms by (auto simp: addInputRecord_def grown_def Let_def split: prod.splits if_splits)

lemma add_fold:
  assumes "fold (addInputRecord uni parse crypto limit) raws (i, False) = (j, st)"
  shows "aiSources j = aiSources i \<and> (\<exists>n. grown (map (cleanRecord uni parse crypto) raws) n i j
    \<and> (if st then aiTruncated j else length raws \<le> n))"
  using assms
proof (induction raws arbitrary: i)
  case Nil
  then show ?case by (intro conjI exI [of _ 0]) auto
next
  case (Cons raw raws)
  obtain i1 st1 where one: "addInputRecord uni parse crypto limit raw (i, False) = (i1, st1)" by fastforce
  note step = add_one [OF one, of "map (cleanRecord uni parse crypto) (raw # raws)"]
  show ?case
  proof (cases st1)
    case True
    then show ?thesis using step Cons.prems one by auto
  next
    case False
    then have g1: "grown [cleanRecord uni parse crypto raw] 1 i i1" "aiSources i1 = aiSources i" using step by auto
    have "fold (addInputRecord uni parse crypto limit) raws (i1, False) = (j, st)" using Cons.prems one False by simp
    from Cons.IH [OF this] obtain n where n: "aiSources j = aiSources i1" "grown (map (cleanRecord uni parse crypto) raws) n i1 j"
      "if st then aiTruncated j else length raws \<le> n" by auto
    have "grown (map (cleanRecord uni parse crypto) (raw # raws)) (Suc n) i j" using grown_step [OF g1(1) n(2)] by simp
    then show ?thesis using n g1(2) by (intro conjI exI [of _ "Suc n"]) (auto split: if_splits)
  qed
qed

abbreviation cleanRecords :: "(string \<Rightarrow> string) \<Rightarrow> (string \<Rightarrow> json option) \<Rightarrow> bool \<Rightarrow> bool \<Rightarrow> reportObservation list \<Rightarrow> analysisRecord list" where
  "cleanRecords uni parse crypto sens rs \<equiv> map (cleanRecord uni parse crypto) (concat (map (rowRecords sens) rs))"

lemma sourcesLoop_spec:
  assumes "sourcesLoop uni parse crypto sens limit rs (i, st) = j" and "st \<longrightarrow> aiTruncated i"
  shows "\<exists>k n. aiSources j = aiSources i @ map (sourceEntry sens) (take k rs)
    \<and> grown (cleanRecords uni parse crypto sens (take k rs)) n i j
    \<and> (aiTruncated j \<or> length rs \<le> k \<and> length (cleanRecords uni parse crypto sens rs) \<le> n)"
  using assms
proof (induction rs arbitrary: i st)
  case Nil
  then show ?case by (intro exI [of _ 0]) auto
next
  case (Cons r rs)
  define i1 where "i1 = (if length (sourceName sens r) > 256 then i\<lparr>aiTruncated := True\<rparr> else i)"
  define i2 where "i2 = i1\<lparr>aiSources := aiSources i1 @ [sourceEntry sens r]\<rparr>"
  show ?case
  proof (cases "st \<or> length (aiSources i) \<ge> MaxSources \<or> inputSize i2 > limit - 256")
    case True
    then have "j = i\<lparr>aiTruncated := True\<rparr>" using Cons.prems(1) by (auto simp: i1_def i2_def Let_def split: if_splits)
    then show ?thesis by (intro exI [of _ 0]) simp
  next
    case False
    obtain i3 st3 where f: "fold (addInputRecord uni parse crypto limit) (rowRecords sens r) (i2, False) = (i3, st3)" by fastforce
    obtain m where m: "aiSources i3 = aiSources i2" "grown (map (cleanRecord uni parse crypto) (rowRecords sens r)) m i2 i3"
      "if st3 then aiTruncated i3 else length (rowRecords sens r) \<le> m" using add_fold [OF f] by auto
    have g: "grown xs n i i3" if "grown xs n i2 i3" for xs n
      using that by (auto simp: grown_def i2_def i1_def split: if_splits)
    have src: "aiSources i3 = aiSources i @ [sourceEntry sens r]" using m(1) by (simp add: i2_def i1_def)
    have loop: "sourcesLoop uni parse crypto sens limit rs (i3, st3) = j"
      using Cons.prems(1) False f by (simp add: i1_def i2_def Let_def)
    show ?thesis
    proof (cases st3)
      case True
      then have t: "aiTruncated i3" using m(3) by simp
      have "j = i3 \<or> j = i3\<lparr>aiTruncated := True\<rparr>" using loop True by (cases rs) auto
      then have "aiSources j = aiSources i3 \<and> grown (map (cleanRecord uni parse crypto) (rowRecords sens r)) m i j \<and> aiTruncated j"
        using g [OF m(2)] t by (auto simp: grown_def)
      then show ?thesis using src by (intro exI [of _ 1] exI [of _ m]) simp
    next
      case False
      have "st3 \<longrightarrow> aiTruncated i3" using False by simp
      from Cons.IH [OF loop this] obtain k n where kn: "aiSources j = aiSources i3 @ map (sourceEntry sens) (take k rs)"
        "grown (cleanRecords uni parse crypto sens (take k rs)) n i3 j"
        "aiTruncated j \<or> length rs \<le> k \<and> length (cleanRecords uni parse crypto sens rs) \<le> n" by blast
      have "grown (map (cleanRecord uni parse crypto) (rowRecords sens r)) (length (rowRecords sens r)) i i3"
        using grown_whole [OF g [OF m(2)]] m(3) False by simp
      then have recs: "grown (cleanRecords uni parse crypto sens (take (Suc k) (r # rs))) (length (rowRecords sens r) + n) i j"
        using grown_append [OF _ kn(2), of "map (cleanRecord uni parse crypto) (rowRecords sens r)" i] by simp
      have srcs: "aiSources j = aiSources i @ map (sourceEntry sens) (take (Suc k) (r # rs))" using kn(1) src by simp
      have "aiTruncated j \<or> length (r # rs) \<le> Suc k
          \<and> length (cleanRecords uni parse crypto sens (r # rs)) \<le> length (rowRecords sens r) + n"
        using kn(3) by (simp add: length_concat)
      with recs srcs show ?thesis by blast
    qed
  qed
qed

section \<open>Identities of records\<close>

lemma digest_no_slash: "CHR ''/'' \<notin> set (digest j)"
proof
  assume "CHR ''/'' \<in> set (digest j)"
  then have "0x2F \<in> set (bytesOf (digest j))" by (force simp: bytesOf_def)
  then have "0x2F \<in> set (hexEncode (sha256 (bytesOf (jsonText j))))" by (simp add: digest_def encodeToString_def)
  then have "fromHex 0x2F \<noteq> None" by (rule hexEncode_digits)
  then show False by (simp add: fromHex_def)
qed

lemma itoa_nat: "itoa (int n) = natDigits n"
  by (simp add: itoa_def)

lemma natDigits_no_slash: "CHR ''/'' \<notin> set (natDigits n)"
  using natDigits_digits by (force simp: isDigitC_def byteVal_def)

lemma numberIDs_no_slash:
  "\<forall>r \<in> set rs. CHR ''/'' \<notin> set (rnID r) \<Longrightarrow> r \<in> set (numberIDs rs seen) \<Longrightarrow> CHR ''/'' \<notin> set (rnID r)"
proof (induction rs seen rule: numberIDs.induct)
  case (2 x rest seen)
  have "CHR ''/'' \<notin> set (rnID x @ ''-'' @ itoa (int (count_list seen (rnID x) + 1)))"
    using 2(2) natDigits_no_slash [of "count_list seen (rnID x) + 1"] unfolding itoa_nat by auto
  then show ?case using 2 by (auto simp: Let_def split: if_splits)
qed simp

lemma report_ids:
  assumes "NewReport rc kind target results opts = Inr d"
  shows "distinct (map rnID (rdResults d))" and "\<forall>r \<in> set (rdResults d). CHR ''/'' \<notin> set (rnID r)"
proof -
  obtain secrets annotations tot os tot' evs created t warnings errs i where
    obs: "observeResults rc secrets kind annotations results tot 0 = Inr (os, tot', evs)" and
    d: "d = (assemble kind t created opts os evs warnings errs)\<lparr>rdID := i\<rparr>" using NewReport_Inr [OF assms] by blast
  have res: "rdResults d = numberIDs (sortBy observationLess os) []" by (simp add: d assemble_def Let_def)
  note facts = observeResults_facts [OF obs]
  show "distinct (map rnID (rdResults d))" unfolding res by (rule numberIDs_distinct [of _ 64]) (use facts in force)
  have "\<forall>r \<in> set (sortBy observationLess os). CHR ''/'' \<notin> set (rnID r)" using facts digest_no_slash by force
  then show "\<forall>r \<in> set (rdResults d). CHR ''/'' \<notin> set (rnID r)" unfolding res using numberIDs_no_slash by blast
qed

lemma distinct_indexed:
  assumes "\<And>i j. i < n \<Longrightarrow> j < n \<Longrightarrow> f i = f j \<Longrightarrow> i = j"
  shows "distinct (map f [0..<n])"
  using assms by (auto simp: distinct_map inj_on_def)

lemma row_ids:
  "\<exists>ks js. distinct ks \<and> distinct js \<and> map fst (rowRecords sens r)
     = map (\<lambda>i. rnID r @ ''/e/'' @ natDigits i) ks @ map (\<lambda>i. rnID r @ ''/m/'' @ natDigits i) js"
proof -
  let ?ms = "filter (\<lambda>(i, k, v). sens \<longrightarrow> allowedField k v) (enumerate 0 (sortBy (\<lambda>a b. fst a < fst b) (rMetadata (rnResult r))))"
  have m: "map fst (metadataRecords sens r) = map (\<lambda>i. rnID r @ ''/m/'' @ natDigits i) (map fst ?ms)"
    by (simp add: metadataRecords_def itoa_nat case_prod_unfold comp_def)
  have e: "map fst (evidenceRecords r) = map (\<lambda>i. rnID r @ ''/e/'' @ natDigits i) (map fst (enumerate 0 (rEvidence (rnResult r))))"
    by (simp add: evidenceRecords_def itoa_nat case_prod_unfold comp_def del: map_fst_enumerate)
  have d: "distinct (map fst ?ms)" by (rule distinct_map_filter) simp
  show ?thesis
  proof (cases sens)
    case True
    then show ?thesis using m d by (intro exI [of _ "[]"] exI [of _ "map fst ?ms"]) (simp add: rowRecords_def)
  next
    case False
    then show ?thesis using m e d
      by (intro exI [of _ "map fst (enumerate 0 (rEvidence (rnResult r)))"] exI [of _ "map fst ?ms"]) (simp add: rowRecords_def)
  qed
qed

lemma row_ids_distinct: "distinct (map fst (rowRecords sens r))"
proof -
  obtain ks js where "distinct ks" "distinct js" "map fst (rowRecords sens r)
     = map (\<lambda>i. rnID r @ ''/e/'' @ natDigits i) ks @ map (\<lambda>i. rnID r @ ''/m/'' @ natDigits i) js"
    using row_ids by blast
  then show ?thesis by (auto simp: distinct_map inj_on_def natDigits_inj)
qed

lemma row_id_prefix: "x \<in> set (map fst (rowRecords sens r)) \<Longrightarrow> \<exists>y. x = rnID r @ CHR ''/'' # y"
proof -
  assume x: "x \<in> set (map fst (rowRecords sens r))"
  obtain ks js where "map fst (rowRecords sens r)
     = map (\<lambda>i. rnID r @ ''/e/'' @ natDigits i) ks @ map (\<lambda>i. rnID r @ ''/m/'' @ natDigits i) js"
    using row_ids by blast
  then show ?thesis using x by auto
qed

lemma slash_split: "CHR ''/'' \<notin> set a \<Longrightarrow> CHR ''/'' \<notin> set b \<Longrightarrow> a @ CHR ''/'' # x = b @ CHR ''/'' # y \<Longrightarrow> a = b"
proof (induction a arbitrary: b)
  case Nil
  then show ?case by (cases b) auto
next
  case (Cons c a)
  then show ?case by (cases b) auto
qed

lemma record_ids_distinct:
  assumes "distinct (map rnID rs)" and "\<forall>r \<in> set rs. CHR ''/'' \<notin> set (rnID r)"
  shows "distinct (map fst (concat (map (rowRecords sens) rs)))"
  using assms
proof (induction rs)
  case (Cons r rs)
  have "set (map fst (rowRecords sens r)) \<inter> set (map fst (concat (map (rowRecords sens) rs))) = {}"
  proof -
    have False if x: "x \<in> set (map fst (rowRecords sens r))" and q: "q \<in> set rs" "x \<in> set (map fst (rowRecords sens q))" for x q
    proof -
      obtain y z where y: "x = rnID r @ CHR ''/'' # y" and z: "x = rnID q @ CHR ''/'' # z"
        using row_id_prefix [OF x] row_id_prefix [OF q(2)] by blast
      have "CHR ''/'' \<notin> set (rnID r)" "CHR ''/'' \<notin> set (rnID q)" using Cons.prems(2) q(1) by simp_all
      then have "rnID r = rnID q" using trans [OF y [symmetric] z] by (rule slash_split)
      moreover have "rnID r \<notin> set (map rnID rs)" using Cons.prems(1) by simp
      ultimately show False using imageI [OF q(1), of rnID] by (metis set_map)
    qed
    then have "set (map fst (rowRecords sens r)) \<inter> (\<Union>q \<in> set rs. set (map fst (rowRecords sens q))) = {}" by blast
    then show ?thesis by (simp add: image_UN)
  qed
  then show ?case using Cons row_ids_distinct [of sens r] by simp
qed simp

section \<open>Grounded claims\<close>

lemma recordOf_Some: "recordOf i ref = Some r \<Longrightarrow> r \<in> set (aiRecords i) \<and> arID r = ref"
  by (auto simp: recordOf_def dest: map_of_SomeD)

definition cites :: "analysisInput \<Rightarrow> AnalysisFinding \<Rightarrow> bool" where
  "cites i f \<longleftrightarrow> afRefs f \<noteq> [] \<and> distinct (afRefs f) \<and> length (afRefs f) \<le> MaxRefs
     \<and> (\<forall>ref \<in> set (afRefs f). \<exists>r \<in> set (aiRecords i). arID r = ref)"

definition grounded :: "(string \<Rightarrow> string) \<Rightarrow> (string \<Rightarrow> json option) \<Rightarrow> analysisInput \<Rightarrow> AnalysisFinding \<Rightarrow> bool" where
  "grounded uni parse i f \<longleftrightarrow> cites i f \<and> knownClass (afClass f)
     \<and> length (afTitle f) \<le> 160 \<and> length (afDescription f) \<le> MaxAnalysisField \<and> length (afCaveat f) \<le> 512
     \<and> (afClass f = ''observed'' \<or> afClass f = ''correlated'' \<longrightarrow>
          (\<exists>r \<in> set (aiRecords i). afRefs f = [arID r] \<and> arClass r = afClass f
             \<and> afDescription f = cleanField uni parse (isCrypto (aiTargetType i)) (arValue r)))"

lemma groundClaim_class:
  "afClass (groundClaim i f) = afClass f \<or> afClass (groundClaim i f) = ''inferred''" and
  groundClaim_refs: "afRefs (groundClaim i f) = afRefs f" and
  groundClaim_text: "afDescription (groundClaim i f) = afDescription f"
  by (auto simp: groundClaim_def split: option.splits)

lemma groundClaim_quoted:
  assumes "afClass (groundClaim i f) = ''observed'' \<or> afClass (groundClaim i f) = ''correlated''"
    and "recordOf i (hd (afRefs f)) = Some r"
  shows "length (afRefs f) = 1 \<and> afDescription f = arValue r \<and> afClass (groundClaim i f) = arClass r"
  using assms by (auto simp: groundClaim_def split: if_splits)

lemma checkClaim_grounded:
  assumes "checkClaim uni parse i hyp f s = Some (g, t)"
  shows "grounded uni parse i g \<and> (hyp \<longrightarrow> afClass g = ''hypothesis'') \<and> csClaims t = csClaims s + 1 \<and> csClaims t \<le> MaxClaims"
proof -
  define f' where "f' = f\<lparr>afRefs := sort (afRefs f)\<rparr>"
  have g: "g = cleanClaim uni parse i hyp f" and t: "csClaims t = csClaims s + 1" "csClaims t \<le> MaxClaims" and
    shape: "\<not> badShape f" "knownClass (afClass f)" "list_all (\<lambda>ref. recordOf i ref \<noteq> None) (afRefs f)" "distinct (afRefs f)" and
    sizes: "length (afTitle g) \<le> 160" "length (afDescription g) \<le> MaxAnalysisField" "length (afCaveat g) \<le> 512"
    using assms by (auto simp: checkClaim_def Let_def split: if_splits)
  have refs: "afRefs g = sort (afRefs f)" by (simp add: g cleanClaim_def Let_def groundClaim_refs)
  have found: "\<exists>r \<in> set (aiRecords i). arID r = ref" if ref: "ref \<in> set (afRefs f)" for ref
  proof -
    obtain r where "recordOf i ref = Some r" using shape(3) ref by (auto simp: list_all_iff)
    then show ?thesis using recordOf_Some by blast
  qed
  have "set (sort (afRefs f)) \<noteq> {}" using shape(1) by (simp add: badShape_def)
  then have "sort (afRefs f) \<noteq> []" by (metis set_empty)
  then have cites: "cites i g"
    using shape(1,4) found by (auto simp: cites_def refs badShape_def)
  have cls: "afClass g = (if hyp then ''hypothesis'' else afClass (groundClaim i f'))"
    by (simp add: g cleanClaim_def Let_def f'_def)
  have known: "knownClass (afClass g)"
    using shape(2) groundClaim_class [of i f'] by (auto simp: cls f'_def knownClass_def)
  have quoted: "\<exists>r \<in> set (aiRecords i). afRefs g = [arID r] \<and> arClass r = afClass g
      \<and> afDescription g = cleanField uni parse (isCrypto (aiTargetType i)) (arValue r)"
    if "afClass g = ''observed'' \<or> afClass g = ''correlated''"
  proof -
    have hyp: "\<not> hyp" using that by (auto simp: cls)
    have "hd (sort (afRefs f)) \<in> set (afRefs f)" using shape(1) by (metis badShape_def hd_in_set length_sort list.size(3) length_0_conv set_sort)
    then obtain r where r: "recordOf i (hd (sort (afRefs f))) = Some r" using shape(3) by (auto simp: list_all_iff)
    have "length (afRefs f) = 1 \<and> afDescription f = arValue r \<and> afClass (groundClaim i f') = arClass r"
      using groundClaim_quoted [of i f' r] that r hyp by (simp add: cls f'_def)
    moreover have refs1: "afRefs g = [arID r]"
      using recordOf_Some [OF r] calculation by (auto simp: length_Suc_conv refs)
    moreover have "afDescription g = cleanField uni parse (isCrypto (aiTargetType i)) (afDescription f)"
      by (simp add: g cleanClaim_def Let_def groundClaim_text)
    ultimately show ?thesis using recordOf_Some [OF r] hyp by (intro bexI [of _ r]) (simp_all add: cls)
  qed
  show ?thesis using cites known sizes quoted t by (auto simp: grounded_def cls)
qed

lemma checkClaims_grounded:
  "checkClaims uni parse i hyp fs s = Some (gs, t) \<Longrightarrow>
   (\<forall>g \<in> set gs. grounded uni parse i g \<and> (hyp \<longrightarrow> afClass g = ''hypothesis''))
     \<and> csClaims t = csClaims s + length fs \<and> length gs = length fs \<and> (fs \<noteq> [] \<longrightarrow> csClaims t \<le> MaxClaims)"
proof (induction fs arbitrary: s gs)
  case (Cons f fs)
  then obtain g s1 gs1 where one: "checkClaim uni parse i hyp f s = Some (g, s1)"
      and rest: "checkClaims uni parse i hyp fs s1 = Some (gs1, t)" and gs: "gs = g # gs1"
    by (auto split: option.splits prod.splits)
  show ?case using checkClaim_grounded [OF one] Cons.IH [OF rest] gs rest by (cases fs) auto
qed simp

lemma claimGroup_grounded:
  assumes "claimGroup uni parse i hyp fs s = Inr (gs, t)"
  shows "(\<forall>g \<in> set gs. grounded uni parse i g \<and> (hyp \<longrightarrow> afClass g = ''hypothesis''))
    \<and> csClaims t = csClaims s + length gs \<and> length gs = length fs \<and> (gs \<noteq> [] \<longrightarrow> csClaims t \<le> MaxClaims)"
  using assms checkClaims_grounded [of uni parse i hyp fs s]
  by (auto simp: claimGroup_def split: option.splits)

abbreviation claimsOf :: "Analysis \<Rightarrow> AnalysisFinding list" where
  "claimsOf a \<equiv> anFindings a @ anHypotheses a @ anAnomalies a @ anRelationships a"

lemma Parse_grounded:
  assumes "Parse uni parse decode raw i = Inr a"
  shows "anStatus a = ''completed''" "anError a = []" "\<forall>f \<in> set (claimsOf a). grounded uni parse i f"
    "\<forall>f \<in> set (anHypotheses a). afClass f = ''hypothesis''" "length (claimsOf a) \<le> MaxClaims"
proof -
  obtain fs hs os rs qs ls where groups: "parseGroups uni parse i fs hs os rs qs ls = Inr a"
    using assms unfolding Parse_def andThen_eq_Inr prod.case by (elim exE conjE) (auto split: option.split_asm)
  obtain fs' hs' os' rs' s1 s2 s3 s4 qs' ls' where
    g: "claimGroup uni parse i False fs \<lparr>csTitles = [], csFingerprints = [], csTotal = 0, csClaims = 0\<rparr> = Inr (fs', s1)"
      "claimGroup uni parse i True hs s1 = Inr (hs', s2)" "claimGroup uni parse i False os s2 = Inr (os', s3)"
      "claimGroup uni parse i False rs s3 = Inr (rs', s4)" and
    a: "a = (Failed [])\<lparr>anStatus := ''completed'',
                anSummary := ''AI interpretation: '' @ itoa (int (csClaims s4)) @ '' cited claims. Not independently verified.'',
                anFindings := fs', anHypotheses := hs', anAnomalies := os', anRelationships := rs', anQuestions := qs',
                anLimitations := anLimitations (Failed []) @ ls'\<rparr>"
    using groups by (auto simp: parseGroups_def res_simps)
  note facts = g [THEN claimGroup_grounded]
  show "anStatus a = ''completed''" "anError a = []" by (simp_all add: a Failed_def)
  show "\<forall>f \<in> set (claimsOf a). grounded uni parse i f" using facts by (auto simp: a)
  show "\<forall>f \<in> set (anHypotheses a). afClass f = ''hypothesis''" using facts(2) by (auto simp: a)
  have "csClaims s4 = length (claimsOf a)" using facts by (simp add: a)
  moreover have "csClaims s4 \<le> MaxClaims"
    using facts by (cases "rs' = []"; cases "os' = []"; cases "hs' = []"; cases "fs' = []") auto
  ultimately show "length (claimsOf a) \<le> MaxClaims" by simp
qed

section \<open>Properties\<close>

lemma NewReport_target:
  assumes "NewReport rc kind target results opts = Inr d"
  shows "rdTargetType d = kind"
proof -
  obtain secrets annotations tot os tot' evs created t warnings errs i where
    d: "d = (assemble kind t created opts os evs warnings errs)\<lparr>rdID := i\<rparr>" using NewReport_Inr [OF assms] by blast
  then show ?thesis by (simp add: assemble_def Let_def)
qed

lemma cleanRecord_source:
  "x \<in> set (rowRecords sens q) \<Longrightarrow> arSource (cleanRecord uni parse crypto x) = asID (sourceEntry sens q)"
  by (cases sens) (auto simp: rowRecords_def evidenceRecords_def metadataRecords_def cleanRecord_def sourceEntry_def Let_def)

lemma cleanRecord_sensitive:
  assumes "x \<in> set (rowRecords True q)"
  shows "\<exists>k v. allowedField k v \<and> arKind (cleanRecord uni parse crypto x) = safeText k
    \<and> (arValue (cleanRecord uni parse crypto x) = Redacted \<or> arValue (cleanRecord uni parse crypto x) = cleanField uni parse crypto v)"
  using assms by (auto simp: rowRecords_def metadataRecords_def cleanRecord_def) blast+

text \<open>C21: the prepared input of a report is faithful: its text fits the limit; its records are a first part, in order and
  whole, of the cleaned records of the listed observations, with distinct identities; every record belongs to a listed
  source; the correlations are exactly the correlated records; an input that is not marked as truncated leaves out nothing;
  and of a sensitive investigation only the two corpus counters are ever sent.\<close>

theorem prepare_faithful:
  assumes report: "NewReport rc kind target results opts = Inr d"
    and prepared: "Prepare uni parse (Some d) limit = Inr (i, raw)"
  shows "length raw \<le> limit \<and> raw = jsonText (analysisInputJSON i) \<and> length (aiRecords i) \<le> MaxRecords
    \<and> (\<exists>k n. aiSources i = map (sourceEntry (Sensitive kind)) (take k (rdResults d))
        \<and> aiRecords i = take n (map (cleanRecord uni parse (isCrypto kind)) (concat (map (rowRecords (Sensitive kind)) (take k (rdResults d))))))
    \<and> distinct (map arID (aiRecords i)) \<and> (\<forall>r \<in> set (aiRecords i). arSource r \<in> asID ` set (aiSources i))
    \<and> aiCorrelations i = correlatedIDs (aiRecords i)
    \<and> (\<not> aiTruncated i \<longrightarrow> aiSources i = map (sourceEntry (Sensitive kind)) (rdResults d)
        \<and> aiRecords i = map (cleanRecord uni parse (isCrypto kind)) (concat (map (rowRecords (Sensitive kind)) (rdResults d))))
    \<and> (Sensitive kind \<longrightarrow> aiTarget i = Redacted
        \<and> (\<forall>r \<in> set (aiRecords i). \<exists>k v. allowedField k v \<and> arKind r = safeText k
             \<and> (arValue r = Redacted \<or> arValue r = cleanField uni parse (isCrypto kind) v)))"
proof -
  let ?C = "cleanRecord uni parse (isCrypto kind)"
  let ?R = "\<lambda>rs. map ?C (concat (map (rowRecords (Sensitive kind)) rs))"
  define i0 where "i0 = emptyInput uni parse d"
  define j where "j = sourcesLoop uni parse (isCrypto kind) (Sensitive kind) limit (rdResults d) (i0, False)"
  note kind = NewReport_target [OF report]
  have i: "raw = jsonText (analysisInputJSON i)" "length raw \<le> limit" "aiSources i = aiSources j" "aiRecords i = aiRecords j"
      "aiCorrelations i = aiCorrelations j" "aiTarget i = aiTarget j" "aiTruncated j \<longrightarrow> aiTruncated i"
    using prepared by (auto simp: Prepare_def Let_def res_simps kind j_def i0_def)
  obtain k n where kn: "aiSources j = aiSources i0 @ map (sourceEntry (Sensitive kind)) (take k (rdResults d))"
      "grown (?R (take k (rdResults d))) n i0 j"
      "aiTruncated j \<or> length (rdResults d) \<le> k \<and> length (?R (rdResults d)) \<le> n"
    using sourcesLoop_spec [OF j_def [symmetric]] by auto
  have z: "aiSources i0 = []" "aiRecords i0 = []" "aiCorrelations i0 = []" "Sensitive kind \<longrightarrow> aiTarget i0 = Redacted"
    by (simp_all add: i0_def emptyInput_def Let_def kind)
  have recs: "aiRecords i = take n (?R (take k (rdResults d)))" "aiCorrelations i = correlatedIDs (aiRecords i)"
      "aiTarget i = aiTarget i0" "length (aiRecords i) \<le> MaxRecords"
    using kn(2) i z by (auto simp: grown_def)
  have raws: "\<exists>q \<in> set (take k (rdResults d)). \<exists>x \<in> set (rowRecords (Sensitive kind) q). r = ?C x" if "r \<in> set (aiRecords i)" for r
    using that in_set_takeD unfolding recs(1) by fastforce
  have whole: "aiSources i = map (sourceEntry (Sensitive kind)) (rdResults d) \<and> aiRecords i = ?R (rdResults d)" if "\<not> aiTruncated i"
    using that kn i(3,7) z(1) recs(1) by auto
  have ids: "map arID (aiRecords i) = take n (map fst (concat (map (rowRecords (Sensitive kind)) (take k (rdResults d)))))"
    unfolding recs(1) by (simp add: take_map cleanRecord_def case_prod_unfold comp_def)
  have "distinct (map rnID (take k (rdResults d)))" "\<forall>r \<in> set (take k (rdResults d)). CHR ''/'' \<notin> set (rnID r)"
    using report_ids [OF report] by (auto simp: distinct_take simp flip: take_map dest: in_set_takeD)
  then have dist: "distinct (map arID (aiRecords i))" unfolding ids by (intro distinct_take record_ids_distinct)
  have "\<forall>r \<in> set (aiRecords i). arSource r \<in> asID ` set (aiSources i)"
  proof
    fix r assume "r \<in> set (aiRecords i)"
    then obtain q x where "q \<in> set (take k (rdResults d))" "x \<in> set (rowRecords (Sensitive kind) q)" "r = ?C x" using raws by blast
    then show "arSource r \<in> asID ` set (aiSources i)" using cleanRecord_source by (simp add: i(3) kn(1) z(1))
  qed
  moreover have "\<forall>r \<in> set (aiRecords i). \<exists>k v. allowedField k v \<and> arKind r = safeText k
      \<and> (arValue r = Redacted \<or> arValue r = cleanField uni parse (isCrypto kind) v)" if "Sensitive kind"
    using raws cleanRecord_sensitive that by metis
  moreover have "\<exists>k n. aiSources i = map (sourceEntry (Sensitive kind)) (take k (rdResults d)) \<and> aiRecords i = take n (?R (take k (rdResults d)))"
    using i(3) kn(1) z(1) recs(1) by auto
  ultimately show ?thesis using i(1,2) recs(2,3,4) z(4) dist whole by simp
qed

section \<open>A prepared input\<close>

definition demoEntry :: analysisSource where
  "demoEntry = \<lparr>asID = rnID demoObservation, asName = ''s'', asType = ''unknown'', asStatus = StatusNotFound, asPartial = False, asTruncated = False\<rparr>"

definition demoEntry2 :: analysisSource where
  "demoEntry2 = demoEntry\<lparr>asID := rnID demoObservation @ ''-2''\<rparr>"

definition demoInput :: "analysisSource list \<Rightarrow> analysisInput" where
  "demoInput ss = \<lparr>aiTarget = ''a'', aiTargetType = ''domain'', aiStatus = ''complete'', aiPartial = False, aiCoverage = False,
     aiTruncated = False, aiOmitted = 0, aiSources = ss, aiRecords = [], aiCorrelations = [], aiWarnings = [], aiErrors = []\<rparr>"

lemma demo_safe: "safeText ''s'' = ''s''" "safeText ''a'' = ''a''" "rSource reportDemoRow = ''s''" "isCrypto ''domain'' = False"
  "rSourceType reportDemoRow = []" "SourceAPI \<noteq> []" "SourceLocal \<noteq> []" "SourceWebsite \<noteq> []"
  by code_simp+

lemma demo_entries:
  "map (sourceEntry False) demoResults = [demoEntry, demoEntry2]" "map (rowRecords False) demoResults = [[], []]"
  "map (sourceName False) demoResults = [''s'', ''s'']"
  using demo_safe by (simp_all add: demoResults_def sourceEntry_def sourceName_def demo_row demo_parts demoEntry_def demoEntry2_def
    Let_def rowRecords_def evidenceRecords_def metadataRecords_def)

lemma demo_input_small: "ss \<in> {[demoEntry], [demoEntry, demoEntry2]} \<Longrightarrow> inputSize (demoInput ss) \<le> 65280"
proof -
  assume "ss \<in> {[demoEntry], [demoEntry, demoEntry2]}"
  moreover have "itoa 0 = ''0''" "length StatusNotFound = 9" by code_simp+
  ultimately have "jsonBound (analysisInputJSON (demoInput ss)) \<le> 65280"
    by (auto simp: demoInput_def analysisInputJSON_def demoEntry_def demoEntry2_def analysisSourceJSON_def strList_def demo_row)
  then show ?thesis using length_jsonText le_trans unfolding inputSize_def by blast
qed

lemma demo_input_same:
  "(demoInput ss)\<lparr>aiOmitted := 0\<rparr> = demoInput ss" "aiRecords (demoInput ss) = []" "aiTruncated (demoInput ss) = False"
  "aiOmitted (demoInput ss) = 0" "(demoInput ss)\<lparr>aiTruncated := False\<rparr> = demoInput ss"
  by (simp_all add: demoInput_def)

lemma demo_prepared:
  "Prepare uni parse (Some (demoDocument\<lparr>rdID := j\<rparr>)) 65536
    = Inr (demoInput [demoEntry, demoEntry2], jsonText (analysisInputJSON (demoInput [demoEntry, demoEntry2])))"
proof -
  have empty: "emptyInput uni parse (demoDocument\<lparr>rdID := j\<rparr>) = demoInput []"
    using demo_safe demo_parts(2) by (simp add: emptyInput_def demoDocument_def demoInput_def Let_def MaxAnalysisField_def)
  have "sourcesLoop uni parse False False 65536 demoResults (demoInput [], False) = demoInput [demoEntry, demoEntry2]"
    using demo_entries demo_input_small [of "[demoEntry]"] demo_input_small [of "[demoEntry, demoEntry2]"]
    by (simp add: demoResults_def Let_def MaxSources_def) (simp add: demoInput_def)
  moreover have "totalRecords (demoDocument\<lparr>rdID := j\<rparr>) = 0"
    by (simp add: totalRecords_def demoDocument_def demoResults_def demo_row demo_parts)
  moreover have "length (jsonText (analysisInputJSON (demoInput [demoEntry, demoEntry2]))) \<le> 65536"
    using demo_input_small [of "[demoEntry, demoEntry2]"] by (simp add: inputSize_def)
  moreover have "rdTargetType (demoDocument\<lparr>rdID := j\<rparr>) = ''domain''" "rdResults (demoDocument\<lparr>rdID := j\<rparr>) = demoResults"
    by (simp_all add: demoDocument_def)
  ultimately show ?thesis using demo_safe demo_parts(2) by (simp add: Prepare_def empty Let_def MaxAnalysisInput_def demo_input_same)
qed

theorem prepare_faithful_witness:
  "\<exists>i raw. Prepare (\<lambda>s. s) (\<lambda>_. None) (Some (demoDocument\<lparr>rdID := digest (documentJSON demoDocument)\<rparr>)) 65536 = Inr (i, raw)
    \<and> length (aiSources i) = 2 \<and> length raw \<le> 65536 \<and> distinct (map arID (aiRecords i))"
  using prepare_faithful [OF demo_report demo_prepared] demo_prepared [of "\<lambda>s. s" "\<lambda>_. None"] by (auto simp: demoInput_def)

section \<open>The service\<close>

lemma Failed_sel [simp]: "anStatus (Failed e) = ''failed''" "anError (Failed e) = e" "claimsOf (Failed e) = []"
  by (simp_all add: Failed_def)

definition failedWith :: "Analysis \<Rightarrow> bool" where
  "failedWith a \<longleftrightarrow> anStatus a = ''failed'' \<and> anError a \<in> set errorCodes \<and> claimsOf a = []"

lemma errorCodes_in: "''internal_error'' \<in> set errorCodes" "''input_too_large'' \<in> set errorCodes" "''ai_not_configured'' \<in> set errorCodes"
  "''provider_unavailable'' \<in> set errorCodes" "''timeout'' \<in> set errorCodes" "''cancelled'' \<in> set errorCodes"
  by (simp_all add: errorCodes_def)

lemma analysisCategory_in: "analysisCategory e \<in> set errorCodes"
  by (auto simp: analysisCategory_def errorCodes_in split: option.splits)

lemma failedWith_Failed [simp]: "failedWith (Failed e) \<longleftrightarrow> e \<in> set errorCodes"
  by (simp add: failedWith_def)

lemma failedWith_code [simp]: "failedWith (out\<lparr>anError := analysisCategory e\<rparr>) \<longleftrightarrow> anStatus out = ''failed'' \<and> claimsOf out = []"
  by (simp add: failedWith_def analysisCategory_in)

text \<open>What a completed analysis is: grounded in the input that was sent.\<close>

definition completedFor :: "analysisDecoder \<Rightarrow> analysisInput \<Rightarrow> string \<Rightarrow> Analysis \<Rightarrow> bool" where
  "completedFor ad i raw a \<longleftrightarrow> anStatus a = ''completed'' \<and> anError a = [] \<and> anSent a = length (aiRecords i)
     \<and> anTruncated a = aiTruncated i \<and> anDigest a = encodeToString (sha256 (bytesOf raw))
     \<and> (\<forall>f \<in> set (claimsOf a). grounded (adUni ad) (adParse ad) i f)
     \<and> (\<forall>f \<in> set (anHypotheses a). afClass f = ''hypothesis'') \<and> length (claimsOf a) \<le> MaxClaims"

lemma askProvider_result: "failedWith (askProvider ad ctx s p i raw) \<or> completedFor ad i raw (askProvider ad ctx s p i raw)"
proof -
  define out where "out = (Failed ''provider_unavailable'')\<lparr>anDigest := encodeToString (sha256 (bytesOf raw)),
    anTruncated := aiTruncated i, anSent := length (aiRecords i)\<rparr>"
  have out: "anStatus out = ''failed''" "claimsOf out = []" by (simp_all add: out_def Failed_def)
  have ans: "failedWith (case Parse (adUni ad) (adParse ad) (adAnswer ad) r i of
        Inl e \<Rightarrow> out\<lparr>anError := analysisCategory (codeError e)\<rparr> | Inr a \<Rightarrow> finishAnalysis s i out a)
    \<or> completedFor ad i raw (case Parse (adUni ad) (adParse ad) (adAnswer ad) r i of
        Inl e \<Rightarrow> out\<lparr>anError := analysisCategory (codeError e)\<rparr> | Inr a \<Rightarrow> finishAnalysis s i out a)" for r
  proof (cases "Parse (adUni ad) (adParse ad) (adAnswer ad) r i")
    case (Inl e)
    then show ?thesis using out by simp
  next
    case (Inr a)
    show ?thesis using Parse_grounded [OF Inr]
      by (simp add: Inr completedFor_def finishAnalysis_def) (simp add: out_def)
  qed
  show ?thesis
    using out ans errorCodes_in by (auto simp: askProvider_def Let_def unlessDone_def simp flip: out_def split: option.splits providerCall.splits)
qed

text \<open>C22: whatever the provider and the context do, an analysis either fails with one of the ten codes and without any
  claim, or it is complete and grounded: every claim cites one to eight distinct records of the input that was sent, a claim
  is observed or correlated only when it quotes one such record of that class, hypotheses are marked as such, and the digest
  is that of the text that was sent.\<close>

theorem analysis_grounded:
  assumes "\<forall>s. service = Some s \<longrightarrow> svUnavailable s = [] \<or> svUnavailable s \<in> set errorCodes"
  shows "failedWith (AnalyzeReport ad ctx service rep)
    \<or> (\<exists>s p prepared i raw. service = Some s \<and> svProvider s = Some p
        \<and> Prepare (adUni ad) (adParse ad) rep (svInputLimit s) = Inr prepared
        \<and> sanitizeInput ad (svInputLimit s) p prepared = Some (i, raw)
        \<and> completedFor ad i raw (AnalyzeReport ad ctx service rep))"
  using assms askProvider_result errorCodes_in
  by (auto simp: AnalyzeReport_def analysisCategory_in split: option.splits sum.splits)

definition quietDecoder :: analysisDecoder where
  "quietDecoder = \<lparr>adUni = (\<lambda>s. s), adParse = (\<lambda>s. if s = ''x'' then Some JNull else None),
     adAnswer = (\<lambda>_. Some \<lparr>mrFindings = Some [\<lparr>afTitle = ''T'', afDescription = ''v'', afClass = ''observed'', afRefs = [''r/e/0''], afCaveat = []\<rparr>],
       mrHypotheses = Some [], mrAnomalies = Some [], mrRelationships = Some [], mrQuestions = Some [], mrLimitations = Some []\<rparr>),
     adInput = (\<lambda>i _. Some (i\<lparr>aiRecords := [\<lparr>arID = ''r/e/0'', arSource = ''r'', arKind = ''k'', arValue = ''v'', arClass = ''observed''\<rparr>]\<rparr>))\<rparr>"

definition quietService :: analysisService where
  "quietService = \<lparr>svProvider = Some \<lparr>pvSanitize = Some (\<lambda>_. ''x''), pvGenerate = (\<lambda>_. Answer ''x'')\<rparr>, svModel = ''m'', svInputLimit = 65536,
     svUnavailable = [], svProviderName = []\<rparr>"

definition quietRecord :: analysisRecord where
  "quietRecord = \<lparr>arID = ''r/e/0'', arSource = ''r'', arKind = ''k'', arValue = ''v'', arClass = ''observed''\<rparr>"

lemma quiet_texts:
  "safeText ''Quotation of evidence r/e/0'' = ''Quotation of evidence r/e/0''" "cleanText False ''v'' = ''v''"
  "safeText ''Exact source quotation; not independent verification or ownership attribution.''
     = ''Exact source quotation; not independent verification or ownership attribution.''"
  "utf8Valid ''x''" "trimSpace ''T'' = ''T''" "toLower (\<lambda>s. s) ''T'' = ''t''"
  by code_simp+

lemma quiet_claim:
  "cleanClaim (\<lambda>s. s) (adParse quietDecoder) ((demoInput ss)\<lparr>aiRecords := [quietRecord]\<rparr>) False
     \<lparr>afTitle = ''T'', afDescription = ''v'', afClass = ''observed'', afRefs = [''r/e/0''], afCaveat = []\<rparr>
   = \<lparr>afTitle = ''Quotation of evidence r/e/0'', afDescription = ''v'', afClass = ''observed'', afRefs = [''r/e/0''],
      afCaveat = ''Exact source quotation; not independent verification or ownership attribution.''\<rparr>"
  using quiet_texts demo_safe(4)
  by (simp add: cleanClaim_def groundClaim_def recordOf_def demoInput_def quietRecord_def Let_def cleanField_def quietDecoder_def)

lemma quiet_parse:
  "\<exists>a f. Parse (\<lambda>s. s) (adParse quietDecoder) (adAnswer quietDecoder) ''x'' ((demoInput ss)\<lparr>aiRecords := [quietRecord]\<rparr>) = Inr a
    \<and> anFindings a = [f] \<and> afClass f = ''observed'' \<and> anStatus a = ''completed''"
proof -
  have "StrictJSON (adParse quietDecoder) (adAnswer quietDecoder) ''x'' = Inr (the (adAnswer quietDecoder ''x''))"
    using quiet_texts by (simp add: StrictJSON_def quietDecoder_def MaxAnalysisOutput_def)
  then show ?thesis using quiet_claim [of ss]
    by (simp add: Parse_def, simp add: quietDecoder_def parseGroups_def claimGroup_def checkClaim_def Let_def cleanTexts_def res_simps
      badShape_def knownClass_def recordOf_def quietRecord_def MaxClaims_def MaxTotalRefs_def MaxFindings_def MaxHypotheses_def
      MaxQuestions_def MaxRefs_def MaxAnalysisField_def)
qed

lemma quiet_service:
  "\<exists>f. anFindings (AnalyzeReport quietDecoder (\<lambda>_. None) (Some quietService) (Some (demoDocument\<lparr>rdID := j\<rparr>))) = [f] \<and> afClass f = ''observed''
    \<and> anStatus (AnalyzeReport quietDecoder (\<lambda>_. None) (Some quietService) (Some (demoDocument\<lparr>rdID := j\<rparr>))) = ''completed''"
proof -
  obtain a f where a: "Parse (\<lambda>s. s) (adParse quietDecoder) (adAnswer quietDecoder) ''x'' ((demoInput [demoEntry, demoEntry2])\<lparr>aiRecords := [quietRecord]\<rparr>) = Inr a"
    "anFindings a = [f]" "afClass f = ''observed''" "anStatus a = ''completed''" using quiet_parse by blast
  have q: "adUni quietDecoder = (\<lambda>s. s)" "adInput quietDecoder i r = Some (i\<lparr>aiRecords := [quietRecord]\<rparr>)" "svInputLimit quietService = 65536"
    "svProvider quietService = Some \<lparr>pvSanitize = Some (\<lambda>_. ''x''), pvGenerate = (\<lambda>_. Answer ''x'')\<rparr>" for i r
    by (simp_all add: quietDecoder_def quietService_def quietRecord_def)
  have "AnalyzeReport quietDecoder (\<lambda>_. None) (Some quietService) (Some (demoDocument\<lparr>rdID := j\<rparr>))
    = askProvider quietDecoder (\<lambda>_. None) quietService \<lparr>pvSanitize = Some (\<lambda>_. ''x''), pvGenerate = (\<lambda>_. Answer ''x'')\<rparr>
        ((demoInput [demoEntry, demoEntry2])\<lparr>aiRecords := [quietRecord]\<rparr>) ''x''"
    by (simp add: AnalyzeReport_def q demo_prepared sanitizeInput_def)
  then show ?thesis using a by (simp add: askProvider_def Let_def unlessDone_def finishAnalysis_def q)
qed

theorem analysis_grounded_witness:
  "\<exists>f i raw. anFindings (AnalyzeReport quietDecoder (\<lambda>_. None) (Some quietService) (Some demoDocument)) = [f] \<and> afClass f = ''observed''
    \<and> completedFor quietDecoder i raw (AnalyzeReport quietDecoder (\<lambda>_. None) (Some quietService) (Some demoDocument))"
proof -
  have "demoDocument\<lparr>rdID := []\<rparr> = demoDocument" by (simp add: demoDocument_def)
  moreover have "svUnavailable quietService = []" by (simp add: quietService_def)
  ultimately show ?thesis
    using analysis_grounded [of "Some quietService" quietDecoder "\<lambda>_. None" "Some demoDocument"] quiet_service [of "[]"]
    by (auto simp: failedWith_def)
qed

end
