(* ===== verification/HttpRequest.thy ===== *)
theory HttpRequest
  imports BitcoinAddr Json
begin

text \<open>
  A search request on its way to a target (\<open>src/internal/httpapi/request.go\<close>, \<open>app/search_service.go\<close>, and
  \<open>NewEmailTarget\<close> of \<open>models/target.go\<close>).  The decoder of \<open>encoding/json\<close> and the parsers of \<open>net/netip\<close> and
  \<open>net/mail\<close> are arguments, as are the letters and digits of \<open>unicode\<close> outside ASCII.  The clearing of buffers is not
  modelled.
\<close>

section \<open>Runes\<close>

text \<open>The characters of a string as \<open>range\<close> visits them; a byte that is not UTF-8 is one character.\<close>

function runesOf :: "string \<Rightarrow> string list" where
  "runesOf s = (if s = [] then [] else let n = max 1 (utf8Len s) in take n s # runesOf (drop n s))"
  by pat_completeness auto
termination by (relation "measure length") (auto simp: Let_def)

declare runesOf.simps [simp del]

definition asciiRune :: "(char \<Rightarrow> bool) \<Rightarrow> string \<Rightarrow> bool" where
  "asciiRune P r = (case r of [c] \<Rightarrow> isAsciiC c \<and> P c | _ \<Rightarrow> False)"

text \<open>\<open>unicode.IsSpace\<close> or \<open>unicode.IsControl\<close>.\<close>

definition spaceOrControl :: "string \<Rightarrow> bool" where
  "spaceOrControl r \<longleftrightarrow> asciiRune (\<lambda>c. byteVal c < 33 \<or> byteVal c = 127) r \<or> r \<in> set spaceEncodings
     \<or> (case r of [a, b] \<Rightarrow> byteVal a = 194 \<and> 128 \<le> byteVal b \<and> byteVal b \<le> 159 | _ \<Rightarrow> False)"

text \<open>\<open>unicode.IsControl\<close>.\<close>

definition controlRune :: "string \<Rightarrow> bool" where
  "controlRune r \<longleftrightarrow> asciiRune (\<lambda>c. byteVal c < 32 \<or> byteVal c = 127) r
     \<or> (case r of [a, b] \<Rightarrow> byteVal a = 194 \<and> 128 \<le> byteVal b \<and> byteVal b \<le> 159 | _ \<Rightarrow> False)"

text \<open>What an invalid byte is written as.\<close>

definition replacementRune :: string where
  "replacementRune = [char_of (239 :: nat), char_of (191 :: nat), char_of (189 :: nat)]"

section \<open>Targets of a request\<close>

record targetParsers =
  tpLower :: "string \<Rightarrow> string"                          \<comment> \<open>\<open>strings.ToLower\<close> outside ASCII\<close>
  tpUpper :: "string \<Rightarrow> string"
  tpAddr :: "string \<Rightarrow> (string \<times> string) option"        \<comment> \<open>\<open>netip.ParseAddr\<close>: zone and canonical text\<close>
  tpMail :: "string \<Rightarrow> (string \<times> string) option"        \<comment> \<open>\<open>mail.ParseAddress\<close>: address and display name\<close>
  tpLetter :: "string \<Rightarrow> bool"                           \<comment> \<open>\<open>unicode.IsLetter\<close> or \<open>IsDigit\<close> outside ASCII\<close>

definition invalidEmail :: string where
  "invalidEmail = ''invalid email address; provide one bare address without a display name''"

definition NewEmailTarget :: "targetParsers \<Rightarrow> string \<Rightarrow> string + Target" where
  "NewEmailTarget tp raw =
     (let v = trimSpace raw in
      failIf (v = [] \<or> length v > 254 \<or> CHR ''<'' \<in> set v \<or> CHR ''>'' \<in> set v) invalidEmail
      (failIf (list_ex spaceOrControl (runesOf v)) invalidEmail
      (failIf (tpMail tp v \<noteq> Some (v, [])) invalidEmail
      (Inr (plainTarget TargetEmail v)))))"

definition MaxUsernameBytes :: nat where "MaxUsernameBytes = 256"
definition MaxPasswordBytes :: nat where "MaxPasswordBytes = 4096"

definition ErrInvalidSearch :: string where "ErrInvalidSearch = ''invalid search request''"

definition usernameRune :: "targetParsers \<Rightarrow> string \<Rightarrow> bool" where
  "usernameRune tp r \<longleftrightarrow> asciiRune (\<lambda>c. isLowerC c \<or> isUpperC c \<or> isDigitC c \<or> c \<in> set ''_-.'') r
     \<or> \<not> asciiRune (\<lambda>_. True) r \<and> tpLetter tp r"

text \<open>Every error of a constructor becomes the one error of the transport.\<close>

definition anyInvalid :: "'e + Target \<Rightarrow> string + Target" where
  "anyInvalid r = (case r of Inl _ \<Rightarrow> Inl ErrInvalidSearch | Inr t \<Rightarrow> Inr t)"

text \<open>\<open>ref\<close> is the fresh buffer that takes over the bytes of a password.\<close>

definition NewSearchTarget :: "targetParsers \<Rightarrow> secretStore \<Rightarrow> nat \<Rightarrow> string \<Rightarrow> string \<Rightarrow> string \<Rightarrow> (string + Target) \<times> secretStore" where
  "NewSearchTarget tp st ref kind value password =
     (if kind = TargetPassword then
        if value \<noteq> [] \<or> password = [] \<or> length password > MaxPasswordBytes \<or> \<not> utf8Valid password then (Inl ErrInvalidSearch, st)
        else (let st' = st(ref := password) in
          case NewSensitiveTarget st' TargetPassword (Some ref) of
            Inl _ \<Rightarrow> (Inl ErrInvalidSearch, Destroy st' (Some ref))
          | Inr t \<Rightarrow> (Inr t, st'))
      else if kind = TargetUsername then
        if password \<noteq> [] \<or> value = [] \<or> length value > MaxUsernameBytes \<or> \<not> utf8Valid value \<or> value = ''.'' \<or> value = ''..''
           \<or> \<not> list_all (usernameRune tp) (runesOf value) then (Inl ErrInvalidSearch, st)
        else (Inr (plainTarget TargetUsername value), st)
      else if password \<noteq> [] then (Inl ErrInvalidSearch, st)
      else if kind = TargetBitcoinTransaction then (anyInvalid (NewBitcoinTransactionTarget (tpLower tp) value), st)
      else if kind = TargetBitcoin then (anyInvalid (NewBitcoinTarget (tpLower tp) (tpUpper tp) value), st)
      else if kind = TargetIP then (anyInvalid (NewIPTarget (tpAddr tp) value), st)
      else if kind = TargetDomain then (anyInvalid (NewDomainTarget (tpLower tp) (\<lambda>v. tpAddr tp v \<noteq> None) value), st)
      else if kind = TargetEmail then (anyInvalid (NewEmailTarget tp value), st)
      else (Inl ErrInvalidSearch, st))"

section \<open>Escapes of a password\<close>

definition hexVal :: "char \<Rightarrow> nat option" where
  "hexVal c =
     (if isDigitC c then Some (byteVal c - 48)
      else if 97 \<le> byteVal c \<and> byteVal c \<le> 102 then Some (byteVal c - 87)
      else if 65 \<le> byteVal c \<and> byteVal c \<le> 70 then Some (byteVal c - 55) else None)"

text \<open>\<open>strconv.ParseUint(s, 16, 16)\<close> of four characters.\<close>

fun parseHex :: "nat \<Rightarrow> string \<Rightarrow> nat option" where
  "parseHex a [] = Some a"
| "parseHex a (c # s) = (case hexVal c of None \<Rightarrow> None | Some v \<Rightarrow> parseHex (16 * a + v) s)"

text \<open>
  The loop of \<open>validPasswordEscapes\<close> on what remains of the raw string with its closing quote; \<open>None\<close> is an index
  out of range, which panics.
\<close>

function escapesValid :: "string \<Rightarrow> bool option" where
  "escapesValid s =
     (if length s \<le> 1 then Some True
      else if hd s \<noteq> CHR 0x5C then escapesValid (tl s)
      else if s ! 1 \<noteq> CHR ''u'' then escapesValid (drop 2 s)
      else if length s < 6 then None
      else case parseHex 0 (take 4 (drop 2 s)) of None \<Rightarrow> Some False
        | Some v \<Rightarrow>
            if 0xDC00 \<le> v \<and> v \<le> 0xDFFF then Some False
            else if v < 0xD800 \<or> 0xDBFF < v then escapesValid (drop 6 s)
            else if length s \<le> 11 \<or> s ! 6 \<noteq> CHR 0x5C \<or> s ! 7 \<noteq> CHR ''u'' then Some False
            else case parseHex 0 (take 4 (drop 8 s)) of None \<Rightarrow> Some False
              | Some low \<Rightarrow> if low < 0xDC00 \<or> 0xDFFF < low then Some False else escapesValid (drop 12 s))"
  by pat_completeness auto
termination by (relation "measure length") auto

declare escapesValid.simps [simp del]

definition validPasswordEscapes :: "string \<Rightarrow> bool option" where
  "validPasswordEscapes raw = escapesValid (tl raw)"

section \<open>The body\<close>

definition MaxBodyBytes :: nat where "MaxBodyBytes = 32768"

text \<open>
  What the decoder gives: the members of a text that is one JSON object, in order, each with its decoded name and
  the text of its value, and a value read into a string (\<open>null\<close> leaves the empty string).
\<close>

record requestDecoder =
  rdMembers :: "string \<Rightarrow> (string \<times> string) list option"
  rdText :: "string \<Rightarrow> string option"

fun requestFields :: "(string \<times> string) list \<Rightarrow> (string \<times> string) list \<Rightarrow> (string \<times> string) list option" where
  "requestFields [] seen = Some seen"
| "requestFields ((name, value) # rest) seen =
     (if name \<notin> set [''type'', ''target'', ''password'', ''analysis''] \<or> map_of seen name \<noteq> None then None
      else requestFields rest (seen @ [(name, value)]))"

definition fieldText :: "requestDecoder \<Rightarrow> (string \<times> string) list \<Rightarrow> string \<Rightarrow> string option" where
  "fieldText rd fs name = (case map_of fs name of None \<Rightarrow> None | Some v \<Rightarrow> rdText rd v)"

text \<open>The flag for an analysis; \<open>None\<close> is a value that is no boolean.\<close>

definition analysisFlag :: "(string \<times> string) list \<Rightarrow> bool option" where
  "analysisFlag fs =
     (case map_of fs ''analysis'' of None \<Rightarrow> Some False
      | Some v \<Rightarrow> if trimSpace v = ''true'' then Some True else if trimSpace v = ''false'' then Some False else None)"

text \<open>A password that the decoder read is a JSON string or \<open>null\<close>, on which the check of the escapes does not panic.\<close>

definition decodeRequest :: "targetParsers \<Rightarrow> requestDecoder \<Rightarrow> secretStore \<Rightarrow> nat \<Rightarrow> string \<Rightarrow> (string + Target \<times> bool) \<times> secretStore" where
  "decodeRequest tp rd st ref raw =
     (let invalid = (Inl ErrInvalidSearch, st) in
      if \<not> utf8Valid raw then invalid
      else case rdMembers rd raw of None \<Rightarrow> invalid
      | Some members \<Rightarrow> (case requestFields members [] of None \<Rightarrow> invalid
      | Some fs \<Rightarrow> (case analysisFlag fs of None \<Rightarrow> invalid
      | Some flag \<Rightarrow> (case fieldText rd fs ''type'' of None \<Rightarrow> invalid
      | Some kind \<Rightarrow>
          if kind = ''password'' then
            if map_of fs ''target'' \<noteq> None then invalid
            else (case map_of fs ''password'' of None \<Rightarrow> invalid
              | Some v \<Rightarrow> (case rdText rd v of None \<Rightarrow> invalid
                  | Some password \<Rightarrow>
                      if validPasswordEscapes v \<noteq> Some True then invalid
                      else let (r, st') = NewSearchTarget tp st ref kind [] password
                           in (andThen r (\<lambda>t. Inr (t, flag)), st')))
          else if map_of fs ''password'' \<noteq> None then invalid
          else (case fieldText rd fs ''target'' of None \<Rightarrow> invalid
            | Some value \<Rightarrow> let (r, st') = NewSearchTarget tp st ref kind value []
                in (andThen r (\<lambda>t. Inr (t, flag)), st'))))))"

section \<open>Escapes, as a reference\<close>

text \<open>The content of a JSON string: plain characters, short escapes and \<open>\u\<close> escapes with their four hexadecimal digits.\<close>

datatype jsonToken = Plain char | Short char | Unit string

definition tokenOK :: "jsonToken \<Rightarrow> bool" where
  "tokenOK t = (case t of Plain c \<Rightarrow> c \<noteq> CHR 0x5C | Short c \<Rightarrow> c \<noteq> CHR ''u''
     | Unit ds \<Rightarrow> length ds = 4 \<and> list_all (\<lambda>c. hexVal c \<noteq> None) ds)"

primrec tokenText :: "jsonToken \<Rightarrow> string" where
  "tokenText (Plain c) = [c]"
| "tokenText (Short c) = [CHR 0x5C, c]"
| "tokenText (Unit ds) = [CHR 0x5C, CHR ''u''] @ ds"

definition unitValue :: "jsonToken \<Rightarrow> nat" where
  "unitValue t = (case t of Unit ds \<Rightarrow> the (parseHex 0 ds) | _ \<Rightarrow> 0)"

definition highUnit :: "jsonToken \<Rightarrow> bool" where "highUnit t \<longleftrightarrow> 0xD800 \<le> unitValue t \<and> unitValue t \<le> 0xDBFF"
definition lowUnit :: "jsonToken \<Rightarrow> bool" where "lowUnit t \<longleftrightarrow> 0xDC00 \<le> unitValue t \<and> unitValue t \<le> 0xDFFF"

text \<open>UTF-16: every high surrogate is followed by a low one, and every low one follows a high one.\<close>

fun paired :: "jsonToken list \<Rightarrow> bool" where
  "paired [] \<longleftrightarrow> True"
| "paired (t # ts) \<longleftrightarrow>
     (if lowUnit t then False
      else if highUnit t then (case ts of u # us \<Rightarrow> lowUnit u \<and> paired us | [] \<Rightarrow> False)
      else paired ts)"

lemma parseHex_digits: "list_all (\<lambda>c. hexVal c \<noteq> None) ds \<Longrightarrow> parseHex a ds \<noteq> None"
  by (induction ds arbitrary: a) auto

lemma unit_parse: "tokenOK (Unit ds) \<Longrightarrow> parseHex 0 ds = Some (unitValue (Unit ds))"
  using parseHex_digits [of ds 0] by (auto simp: tokenOK_def unitValue_def)

lemma not_unit_value: "\<not> (\<exists>ds. t = Unit ds) \<Longrightarrow> \<not> highUnit t \<and> \<not> lowUnit t"
  by (cases t) (auto simp: highUnit_def lowUnit_def unitValue_def)

lemma tokens_end: "tokenOK t \<Longrightarrow> 1 \<le> length (tokenText t)"
  by (cases t) (auto simp: tokenOK_def)

lemma escapes_step:
  assumes "hd s = CHR 0x5C" and "s ! 1 = CHR ''u''" and "6 \<le> length s" and "parseHex 0 (take 4 (drop 2 s)) = Some v"
  shows "escapesValid s =
     (if 0xDC00 \<le> v \<and> v \<le> 0xDFFF then Some False
      else if v < 0xD800 \<or> 0xDBFF < v then escapesValid (drop 6 s)
      else if length s \<le> 11 \<or> s ! 6 \<noteq> CHR 0x5C \<or> s ! 7 \<noteq> CHR ''u'' then Some False
      else case parseHex 0 (take 4 (drop 8 s)) of None \<Rightarrow> Some False
        | Some low \<Rightarrow> if low < 0xDC00 \<or> 0xDFFF < low then Some False else escapesValid (drop 12 s))"
  using assms by (subst escapesValid.simps) simp

lemma escapes_unit:
  assumes "tokenOK (Unit ds)"
  shows "escapesValid (tokenText (Unit ds) @ x) =
     (if lowUnit (Unit ds) then Some False
      else if \<not> highUnit (Unit ds) then escapesValid x
      else if length x \<le> 5 \<or> x ! 0 \<noteq> CHR 0x5C \<or> x ! 1 \<noteq> CHR ''u'' then Some False
      else case parseHex 0 (take 4 (drop 2 x)) of None \<Rightarrow> Some False
        | Some low \<Rightarrow> if low < 0xDC00 \<or> 0xDFFF < low then Some False else escapesValid (drop 6 x))"
proof -
  have len: "length ds = 4" using assms by (simp add: tokenOK_def)
  let ?s = "tokenText (Unit ds) @ x"
  have step: "escapesValid ?s = (if 0xDC00 \<le> unitValue (Unit ds) \<and> unitValue (Unit ds) \<le> 0xDFFF then Some False
      else if unitValue (Unit ds) < 0xD800 \<or> 0xDBFF < unitValue (Unit ds) then escapesValid (drop 6 ?s)
      else if length ?s \<le> 11 \<or> ?s ! 6 \<noteq> CHR 0x5C \<or> ?s ! 7 \<noteq> CHR ''u'' then Some False
      else case parseHex 0 (take 4 (drop 8 ?s)) of None \<Rightarrow> Some False
        | Some low \<Rightarrow> if low < 0xDC00 \<or> 0xDFFF < low then Some False else escapesValid (drop 12 ?s))"
    by (rule escapes_step) (use len unit_parse [OF assms] in simp_all)
  have parts: "drop 6 ?s = x" "drop 12 ?s = drop 6 x" "drop 8 ?s = drop 2 x" "length ?s = length x + 6"
      "?s ! 6 = x ! 0" "?s ! 7 = x ! 1" using len by (simp_all add: nth_append)
  show ?thesis using step unfolding parts lowUnit_def highUnit_def by (simp add: not_le del: tokenText.simps)
qed

text \<open>What follows a high surrogate.\<close>

lemma escapes_low:
  assumes "tokenOK (Unit ds)" and "highUnit (Unit ds)" and "tokenOK u"
  shows "escapesValid (tokenText (Unit ds) @ tokenText u @ rest @ [q])
    = (if lowUnit u then escapesValid (rest @ [q]) else Some False)"
proof -
  have hi: "\<not> lowUnit (Unit ds)" using assms(2) by (auto simp: highUnit_def lowUnit_def)
  show ?thesis
  proof (cases u)
    case (Unit es)
    have "length es = 4" using assms(3) Unit by (simp add: tokenOK_def)
    then show ?thesis using unit_parse assms hi Unit unfolding escapes_unit [OF assms(1)]
      by (auto simp: lowUnit_def)
  next
    case (Plain c)
    then have "c \<noteq> CHR 0x5C" "\<not> lowUnit u" using assms(3) not_unit_value [of u] by (auto simp: tokenOK_def)
    then show ?thesis using assms hi Plain unfolding escapes_unit [OF assms(1)] by simp
  next
    case (Short c)
    then have "c \<noteq> CHR ''u''" "\<not> lowUnit u" using assms(3) not_unit_value [of u] by (auto simp: tokenOK_def)
    then show ?thesis using assms hi Short unfolding escapes_unit [OF assms(1)] by simp
  qed
qed

lemma escapes_other:
  assumes "tokenOK t" and "\<not> highUnit t"
  shows "escapesValid (tokenText t @ rest @ [q]) = (if lowUnit t then Some False else escapesValid (rest @ [q]))"
proof (cases t)
  case (Plain c)
  then show ?thesis using assms not_unit_value [of t] by (subst escapesValid.simps) (auto simp: tokenOK_def)
next
  case (Short c)
  then show ?thesis using assms not_unit_value [of t] by (subst escapesValid.simps) (auto simp: tokenOK_def)
next
  case (Unit ds)
  then show ?thesis using assms escapes_unit [of ds "rest @ [q]"] by simp
qed

lemma escapes_high_last:
  assumes "tokenOK (Unit ds)" and "highUnit (Unit ds)"
  shows "escapesValid (tokenText (Unit ds) @ [q]) = Some False"
  unfolding escapes_unit [OF assms(1)] using assms(2) by simp

lemma escapes_paired: "list_all tokenOK ts \<Longrightarrow> escapesValid (concat (map tokenText ts) @ [q]) = Some (paired ts)"
proof (induction ts rule: paired.induct)
  case 1
  then show ?case by (simp add: escapesValid.simps)
next
  case (2 t ts)
  show ?case
  proof (cases "highUnit t")
    case False
    then show ?thesis using 2 escapes_other [of t "concat (map tokenText ts)" q] by auto
  next
    case True
    then obtain ds where t: "t = Unit ds" using not_unit_value by blast
    have low: "\<not> lowUnit t" using True by (auto simp: highUnit_def lowUnit_def)
    show ?thesis
    proof (cases ts)
      case Nil
      then show ?thesis using True t low "2.prems" escapes_high_last [of ds q] by simp
    next
      case (Cons u us)
      have "escapesValid (concat (map tokenText us) @ [q]) = Some (paired us)"
        using "2.IH"(1) [OF low True Cons] "2.prems" Cons by simp
      then show ?thesis using escapes_low [of ds u "concat (map tokenText us)" q] True t low "2.prems" Cons
        by (simp del: tokenText.simps)
    qed
  qed
qed

text \<open>C23: the check of a password's escapes decides exactly whether the UTF-16 units of its escapes are paired, and never
  reads out of range: on every JSON string, whatever its content, it answers what the reference on its tokens answers.\<close>

theorem password_escapes_exact:
  assumes "list_all tokenOK ts"
  shows "validPasswordEscapes (CHR 0x22 # concat (map tokenText ts) @ [CHR 0x22]) = Some (paired ts)"
  using escapes_paired [OF assms] by (simp add: validPasswordEscapes_def)

theorem password_escapes_exact_witness:
  "validPasswordEscapes (CHR 0x22 # concat (map tokenText [Plain CHR ''a'', Unit ''d83d'', Unit ''DE00'', Short CHR ''n'']) @ [CHR 0x22]) = Some True
    \<and> validPasswordEscapes (CHR 0x22 # concat (map tokenText [Unit ''d83d'', Plain CHR ''a'']) @ [CHR 0x22]) = Some False"
proof -
  have "list_all tokenOK [Plain CHR ''a'', Unit ''d83d'', Unit ''DE00'', Short CHR ''n'']" "list_all tokenOK [Unit ''d83d'', Plain CHR ''a'']"
    "paired [Plain CHR ''a'', Unit ''d83d'', Unit ''DE00'', Short CHR ''n'']" "\<not> paired [Unit ''d83d'', Plain CHR ''a'']" by code_simp+
  then show ?thesis by (simp only: password_escapes_exact)
qed

end
