(* ===== verification/ReportAttach.thy ===== *)
theory ReportAttach
  imports AnalysisParse
begin

text \<open>
  The attachment of an analysis to a report (\<open>src/internal/report/analysis.go\<close>).  A report with its analysis is a pair;
  \<open>decode\<close> reads an analysis back from its JSON.  \<open>validate\<close> only asks for the schema version that \<open>New\<close> writes
  into every document.
\<close>

definition findingJSON :: "AnalysisFinding \<Rightarrow> json" where
  "findingJSON f = JObj
     [(''title'', JStr (afTitle f)), (''description'', JStr (afDescription f)), (''classification'', JStr (afClass f)),
      (''evidence_refs'', strList (afRefs f)), (''caveat'', JStr (afCaveat f))]"

definition analysisJSON :: "Analysis \<Rightarrow> json" where
  "analysisJSON a = JObj
     ([(''status'', JStr (anStatus a))] @ omitEmpty ''error_code'' (anError a) @ [(''mode'', JStr ''investigation'')]
      @ omitEmpty ''provider'' (anProvider a) @ omitEmpty ''model'' (anModel a) @ omitEmpty ''input_digest'' (anDigest a)
      @ [(''input_truncated'', JBool (anTruncated a)), (''records_sent'', JInt (int (anSent a))), (''summary'', JStr (anSummary a)),
         (''findings'', JArr (map findingJSON (anFindings a))), (''hypotheses'', JArr (map findingJSON (anHypotheses a))),
         (''anomalies'', JArr (map findingJSON (anAnomalies a))), (''relationships'', JArr (map findingJSON (anRelationships a))),
         (''unanswered_questions'', strList (anQuestions a)), (''limitations'', strList (anLimitations a))])"

definition WithAnalysis :: "reportCodec \<Rightarrow> (string \<Rightarrow> Analysis option) \<Rightarrow> reportDocument \<Rightarrow> Analysis \<Rightarrow> string + reportDocument \<times> Analysis" where
  "WithAnalysis rc decode d a =
     (let raw = jsonText (analysisJSON a) in
      failIf (length raw > 65536) ''invalid analysis attachment''
      (andThen (cleanValue (rcUni rc) (rcParse rc) [] raw) (\<lambda>clean.
         case decode clean of None \<Rightarrow> Inl ''malformed analysis attachment'' | Some copied \<Rightarrow> Inr (d, copied))))"

lemma WithAnalysis_keeps: "WithAnalysis rc decode d a = Inr (d', a') \<Longrightarrow> d' = d"
  by (auto simp: WithAnalysis_def Let_def res_simps split: option.splits)

end
