(* ===== verification/HttpApi.thy ===== *)
theory HttpApi
  imports HttpRequest ReportAttach Diagnostics
begin

text \<open>
  The HTTP service (\<open>src/internal/httpapi/handler.go\<close>, \<open>diagnostics.go\<close>): routing, authorization, admission, the body,
  the search and the reply.  A request comes with what \<open>net/http\<close> and \<open>mime\<close> made of it.  The search is an interaction
  tree that emits rows, sees whether the collector refused one, and returns an error or panics.  Clocks, logging of lines,
  write errors and the read deadline are not modelled.
\<close>

section \<open>Handler and requests\<close>

record httpHandler =
  hhTokenHash :: bytes
  hhMaxConcurrent :: nat
  hhAnalyzer :: "analysisService option"

text \<open>\<open>New\<close>; \<open>valid\<close> is the validity of the server settings.\<close>

definition tokenFormat :: "string \<Rightarrow> string + unit" where
  "tokenFormat b =
     failIf (length b < 32 \<or> length b > 4096) ''bearer token must contain 32 to 4096 printable non-space ASCII bytes''
     (failIf (list_ex (\<lambda>c. byteVal c < 33 \<or> byteVal c > 126) b) ''invalid bearer token format'' (Inr ()))"

definition NewHandler :: "bool \<Rightarrow> nat \<Rightarrow> analysisService option \<Rightarrow> secretStore \<Rightarrow> secret \<Rightarrow> (string + httpHandler) \<times> secretStore" where
  "NewHandler valid maxConcurrent analyzer st token =
     (if \<not> valid then (Inl ''invalid HTTP service configuration'', Destroy st token)
      else case Consume st token (\<lambda>b. andThen (tokenFormat b) (\<lambda>_. Inr (sha256 (bytesOf b)))) of
        (Inl _, st') \<Rightarrow> (Inl ''valid API bearer token required from the configured environment variable'', Destroy st' token)
      | (Inr h, st') \<Rightarrow> (Inr \<lparr>hhTokenHash = h, hhMaxConcurrent = maxConcurrent, hhAnalyzer = analyzer\<rparr>, Destroy st' token))"

text \<open>The body as it is read: everything, or a fault that is or is not a time-out.\<close>

datatype bodyRead = BodyAll string | BodyFault bool

record httpRequest =
  hqPath :: string
  hqMethod :: string
  hqAuthorization :: "string list"
  hqQuery :: bool                              \<comment> \<open>\<open>RawQuery != ""\<close> or \<open>ForceQuery\<close>\<close>
  hqMedia :: "(string \<times> string) option"      \<comment> \<open>\<open>mime.ParseMediaType\<close>: media type and charset\<close>
  hqEncoding :: string
  hqBody :: bodyRead

definition authorized :: "httpHandler \<Rightarrow> httpRequest \<Rightarrow> bool" where
  "authorized h q =
     (case hqAuthorization q of
        [v] \<Rightarrow> length v \<le> 4103 \<and> hasPrefix v ''Bearer '' \<and> sha256 (bytesOf (drop 7 v)) = hhTokenHash h
      | _ \<Rightarrow> False)"

section \<open>Searches\<close>

text \<open>What the handler finds in the error of a search; the provider error has a kind and a delay in nanoseconds.\<close>

record runError =
  seCanceled :: bool
  seDeadline :: bool
  seUnavailable :: bool
  seProvider :: "(string \<times> int) option"

datatype searchRun = SearchReturn "runError option" | SearchRow Result "bool \<Rightarrow> searchRun" | SearchPanic

datatype searchEnd = SearchEnded "runError option" | SearchDied

text \<open>The collector: after ten thousand rows it refuses, and remembers that it did.\<close>

primrec collectSearch :: "(string \<Rightarrow> string) \<Rightarrow> searchRun \<Rightarrow> Result list \<times> bool \<times> Summary \<Rightarrow> searchEnd \<times> Result list \<times> bool \<times> Summary" where
  "collectSearch uni (SearchReturn e) acc = (SearchEnded e, acc)"
| "collectSearch uni SearchPanic acc = (SearchDied, acc)"
| "collectSearch uni (SearchRow r k) acc =
     (case acc of (rows, limited, summary) \<Rightarrow>
        if length rows \<ge> 10000 then collectSearch uni (k True) (rows, True, summary)
        else collectSearch uni (k False) (rows @ [Normalized uni r], limited, Observe r summary))"

section \<open>Classification\<close>

definition providerRow :: "string \<times> int \<Rightarrow> Result" where
  "providerRow p = (case p of (kind, retry) \<Rightarrow>
     emptyResult\<lparr>rStatus := StatusError, rMetadata := [(''error_kind'', kind)]
       @ (if retry > 0 then [(''retry_after_seconds'', itoa ((retry - 1) div 1000000000 + 1))] else [])\<rparr>)"

text \<open>One row of the loop: its source decides first, then its error kind.\<close>

definition classifySource :: "Result \<Rightarrow> nat \<times> string \<Rightarrow> nat \<times> string" where
  "classifySource r p =
     (if rSourceType r = SourceLocal then (503, ''service_unavailable'')
      else if fst p = 200 then (502, ''upstream_failure'') else p)"

definition classifyKind :: "string \<Rightarrow> nat \<times> string \<Rightarrow> nat \<times> string" where
  "classifyKind kind p =
     (if kind = ''rate_limited'' then (429, ''rate_limited'')
      else if kind = ''timeout'' then (if fst p \<noteq> 429 then (504, ''timeout'') else p)
      else if kind = ''cancelled'' then (if fst p \<noteq> 429 then (408, ''cancelled'') else p)
      else if kind \<in> set [''service_unavailable'', ''unauthorized'', ''forbidden'', ''missing_api_key''] then
        (if fst p = 502 then (503, ''service_unavailable'') else p)
      else p)"

definition classifyRow :: "Result \<Rightarrow> (nat \<times> string) \<times> nat \<Rightarrow> (nat \<times> string) \<times> nat" where
  "classifyRow r = (\<lambda>(p, retry).
     if rStatus r \<noteq> StatusError then (p, retry)
     else (classifyKind (metadataGet (rMetadata r) ''error_kind'') (classifySource r p),
           case parseUint64 (metadataGet (rMetadata r) ''retry_after_seconds'') of Some seconds \<Rightarrow> max retry seconds | None \<Rightarrow> retry))"

text \<open>The rows with a row for the provider error: status, the error as code and message, and the text of \<open>Retry-After\<close>.\<close>

definition providerRows :: "runError option \<Rightarrow> Result list" where
  "providerRows err = (case err of Some e \<Rightarrow> (case seProvider e of Some p \<Rightarrow> [providerRow p] | None \<Rightarrow> []) | None \<Rightarrow> [])"

definition classifyRows :: "runError option \<Rightarrow> Result list \<Rightarrow> nat \<times> (string \<times> string) option \<times> string" where
  "classifyRows err rows =
     (let (p, retry) = fold classifyRow (rows @ providerRows err) ((200, []), 0);
          p = (if fst p = 200 \<and> err \<noteq> None then (502, ''upstream_failure'') else p)
      in if fst p = 200 then (200, None, [])
         else (fst p, Some (snd p, ''search could not be completed''), if retry > 0 then itoa (int retry) else []))"

text \<open>The errors of the context and of the search come first; the context is checked twice.\<close>

definition deadlineHit :: "analysisError option \<Rightarrow> runError option \<Rightarrow> bool" where
  "deadlineHit ctx err \<longleftrightarrow> (case ctx of Some e \<Rightarrow> aeDeadline e | None \<Rightarrow> False) \<or> (case err of Some e \<Rightarrow> seDeadline e | None \<Rightarrow> False)"

definition cancelHit :: "analysisError option \<Rightarrow> runError option \<Rightarrow> bool" where
  "cancelHit ctx err \<longleftrightarrow> (case ctx of Some e \<Rightarrow> aeCanceled e | None \<Rightarrow> False) \<or> (case err of Some e \<Rightarrow> seCanceled e | None \<Rightarrow> False)"

definition unavailableHit :: "runError option \<Rightarrow> bool" where
  "unavailableHit err \<longleftrightarrow> (case err of Some e \<Rightarrow> seUnavailable e | None \<Rightarrow> False)"

definition classify :: "analysisError option \<Rightarrow> analysisError option \<Rightarrow> runError option \<Rightarrow> Result list
    \<Rightarrow> nat \<times> (string \<times> string) option \<times> string" where
  "classify ctx1 ctx2 err rows =
     (if deadlineHit ctx1 err then (504, Some (''timeout'', ''search timed out''), [])
      else if cancelHit ctx2 err then (408, Some (''cancelled'', ''search cancelled''), [])
      else if unavailableHit err then (503, Some (''service_unavailable'', ''search type is unavailable''), [])
      else classifyRows err rows)"

section \<open>Replies\<close>

text \<open>\<open>PayloadRows\<close>: rows, error, analysis, and the report with the analysis attached.\<close>

datatype httpPayload =
    PayloadHealth
  | PayloadRows "Result list" "(string \<times> string) option" "Analysis option" "(reportDocument \<times> Analysis) option"

record apiReply =
  hrStatus :: nat
  hrHeaders :: "(string \<times> string) list"
  hrPayload :: httpPayload

definition failReply :: "(string \<times> string) list \<Rightarrow> nat \<Rightarrow> string \<Rightarrow> string \<Rightarrow> apiReply" where
  "failReply headers status code message =
     \<lparr>hrStatus = status, hrHeaders = headers, hrPayload = PayloadRows [] (Some (code, message)) None None\<rparr>"

definition errorCodeOf :: "apiReply \<Rightarrow> string" where
  "errorCodeOf r = (case hrPayload r of PayloadRows _ (Some (code, _)) _ _ \<Rightarrow> code | _ \<Rightarrow> [])"

text \<open>A failed row keeps its source and target, and nothing else of the provider.\<close>

definition publicRow :: "(string \<Rightarrow> string) \<Rightarrow> Result \<Rightarrow> Result" where
  "publicRow uni r =
     (if rStatus r = StatusError then
        Normalized uni (emptyResult\<lparr>rSource := rSource r, rSourceType := rSourceType r, rSiteName := rSiteName r, rTarget := rTarget r,
          rTargetType := rTargetType r, rStatus := StatusError, rDuration := rDuration r, rError := ''source lookup failed''\<rparr>)
      else r)"

section \<open>The environment of a request\<close>

record httpEnv =
  enRandom :: bool                                        \<comment> \<open>random bytes for the request identity\<close>
  enCtx :: "nat \<Rightarrow> analysisError option"               \<comment> \<open>the context at its checks\<close>
  enParsers :: targetParsers
  enDecoder :: requestDecoder
  enSearch :: "Target \<Rightarrow> secretStore \<Rightarrow> searchRun"
  enCodec :: reportCodec
  enAnalysis :: analysisDecoder
  enAnalysisCtx :: "nat \<Rightarrow> analysisError option"
  enAttach :: "string \<Rightarrow> Analysis option"
  enOptions :: "bool \<Rightarrow> reportOptions"                 \<comment> \<open>start and duration of the search; partial when it failed\<close>

text \<open>The analysis of a search that asked for one.\<close>

definition interpretRows :: "httpHandler \<Rightarrow> httpEnv \<Rightarrow> Target \<Rightarrow> Result list \<Rightarrow> bool \<Rightarrow> Analysis \<times> (reportDocument \<times> Analysis) option" where
  "interpretRows h en t rows failed =
     (case NewReport (enCodec en) (tKind t) (TargetString t) rows (enOptions en failed) of
        Inl _ \<Rightarrow> (Failed ''input_too_large'', None)
      | Inr d \<Rightarrow>
          let a = AnalyzeReport (enAnalysis en) (enAnalysisCtx en) (hhAnalyzer h) (Some d)
          in (a, case WithAnalysis (enCodec en) (enAttach en) d a of Inl _ \<Rightarrow> None | Inr da \<Rightarrow> Some da))"

text \<open>From a decoded target on: search, classification and reply.\<close>

definition searchReply :: "httpHandler \<Rightarrow> httpEnv \<Rightarrow> (string \<times> string) list \<Rightarrow> secretStore \<Rightarrow> Target \<Rightarrow> bool \<Rightarrow> apiReply \<times> Summary" where
  "searchReply h en headers st t wantAnalysis =
     (case collectSearch (tpLower (enParsers en)) (enSearch en t st) ([], False, newSummary) of
        (SearchDied, _, _, summary) \<Rightarrow> (failReply headers 500 ''internal_error'' ''request failed'', summary)
      | (SearchEnded err, rows, limited, summary) \<Rightarrow>
          let summary = (case err of Some e \<Rightarrow> (case seProvider e of
                  Some (kind, _) \<Rightarrow> Observe (emptyResult\<lparr>rStatus := StatusError, rMetadata := [(''error_kind'', kind)]\<rparr>) summary
                | None \<Rightarrow> summary) | None \<Rightarrow> summary)
          in (if limited then failReply headers 503 ''result_limit'' ''configured search exceeds result limit''
              else
                let (status, apiErr, retry) = classify (enCtx en 3) (enCtx en 4) err rows;
                    headers = (if retry = [] then headers else headers @ [(''Retry-After'', retry)]);
                    rows = map (publicRow (tpLower (enParsers en))) rows;
                    (interpretation, canonical) = (if wantAnalysis then
                        (let (a, c) = interpretRows h en t rows (apiErr \<noteq> None) in (Some a, c)) else (None, None))
                in \<lparr>hrStatus = status, hrHeaders = headers, hrPayload = PayloadRows rows apiErr interpretation canonical\<rparr>, summary))"

text \<open>A refusal: further headers, status, code and message.\<close>

type_synonym refusal = "(string \<times> string) list \<times> nat \<times> string \<times> string"

text \<open>\<open>search\<close> up to the body, in its order; \<open>held\<close> is the number of admitted searches.\<close>

definition admitBody :: "httpHandler \<Rightarrow> httpEnv \<Rightarrow> nat \<Rightarrow> httpRequest \<Rightarrow> refusal + string" where
  "admitBody h en held q =
     (case enCtx en 0 of
        Some e \<Rightarrow> if aeDeadline e then Inl ([], 504, ''timeout'', ''search timed out'') else Inl ([], 408, ''cancelled'', ''request cancelled'')
      | None \<Rightarrow>
          if held \<ge> hhMaxConcurrent h then Inl ([(''Retry-After'', ''1'')], 429, ''too_many_requests'', ''server is busy'')
          else if (case hqMedia q of None \<Rightarrow> True
              | Some (media, charset) \<Rightarrow> media \<noteq> ''application/json'' \<or> charset \<noteq> [] \<and> map lowerC charset \<noteq> ''utf-8'')
              \<or> hqEncoding q \<noteq> [] then
            Inl ([], 415, ''unsupported_media_type'', ''use uncompressed UTF-8 application/json'')
          else (case hqBody q of
            BodyFault timedOut \<Rightarrow>
              if (case enCtx en 1 of Some e \<Rightarrow> aeDeadline e | None \<Rightarrow> False) \<or> timedOut then
                Inl ([], 408, ''request_timeout'', ''request body timed out'')
              else if enCtx en 2 \<noteq> None then Inl ([], 408, ''cancelled'', ''request body unavailable'')
              else Inl ([], 400, ''invalid_request'', ''request body unavailable'')
          | BodyAll raw \<Rightarrow>
              if length raw > MaxBodyBytes then Inl ([], 413, ''request_too_large'', ''request body exceeds limit'') else Inr raw))"

text \<open>The whole of \<open>search\<close>.  The result names the target the searcher was called with.\<close>

definition searchRequest :: "httpHandler \<Rightarrow> httpEnv \<Rightarrow> nat \<Rightarrow> (string \<times> string) list \<Rightarrow> secretStore \<Rightarrow> nat \<Rightarrow> httpRequest
    \<Rightarrow> apiReply \<times> Summary \<times> Target option \<times> secretStore" where
  "searchRequest h en held headers st ref q =
     (case admitBody h en held q of
        Inl (extra, status, code, message) \<Rightarrow> (failReply (headers @ extra) status code message, newSummary, None, st)
      | Inr raw \<Rightarrow>
          (case decodeRequest (enParsers en) (enDecoder en) st ref raw of
             (Inl _, st') \<Rightarrow> (failReply headers 400 ''invalid_request'' ''invalid search request'', newSummary, None, st')
           | (Inr (t, wantAnalysis), st') \<Rightarrow>
               let (reply, summary) = searchReply h en headers st' t wantAnalysis
               in (reply, summary, Some t, if Sensitive (tKind t) then Destroy st' (tSecret t) else st')))"

definition baseHeaders :: "(string \<times> string) list" where
  "baseHeaders = [(''Cache-Control'', ''no-store''), (''X-Content-Type-Options'', ''nosniff'')]"

text \<open>The routes: \<open>True\<close> is the search, \<open>False\<close> the health check.\<close>

definition routeRequest :: "httpHandler \<Rightarrow> httpRequest \<Rightarrow> refusal + bool" where
  "routeRequest h q =
     (if hqPath q = ''/health'' then
        if hqMethod q \<noteq> ''GET'' then Inl ([(''Allow'', ''GET'')], 405, ''method_not_allowed'', ''use GET'')
        else if hqQuery q then Inl ([], 400, ''invalid_request'', ''query parameters are not accepted'')
        else Inr False
      else if hqPath q = ''/api/v1/search'' then
        if hqMethod q \<noteq> ''POST'' then Inl ([(''Allow'', ''POST'')], 405, ''method_not_allowed'', ''use POST with a JSON body'')
        else if \<not> authorized h q then Inl ([(''WWW-Authenticate'', ''Bearer'')], 401, ''unauthorized'', ''valid bearer token required'')
        else if hqQuery q then Inl ([], 400, ''invalid_request'', ''query parameters are not accepted'')
        else Inr True
      else Inl ([], 404, ''not_found'', ''endpoint not found''))"

definition ServeHTTP :: "httpHandler \<Rightarrow> httpEnv \<Rightarrow> nat \<Rightarrow> secretStore \<Rightarrow> nat \<Rightarrow> string \<Rightarrow> httpRequest
    \<Rightarrow> apiReply \<times> Summary \<times> Target option \<times> secretStore" where
  "ServeHTTP h en held st ref requestID q =
     (if \<not> enRandom en then (failReply baseHeaders 500 ''internal_error'' ''request failed'', newSummary, None, st)
      else
        let headers = baseHeaders @ [(''X-Request-ID'', requestID)] in
        case routeRequest h q of
          Inl (extra, status, code, message) \<Rightarrow> (failReply (headers @ extra) status code message, newSummary, None, st)
        | Inr False \<Rightarrow> (\<lparr>hrStatus = 200, hrHeaders = headers, hrPayload = PayloadHealth\<rparr>, newSummary, None, st)
        | Inr True \<Rightarrow> searchRequest h en held headers st ref q)"

section \<open>What is logged\<close>

definition diagnosticMethod :: "string \<Rightarrow> string" where
  "diagnosticMethod m =
     (if m \<in> set [''GET'', ''HEAD'', ''POST'', ''PUT'', ''PATCH'', ''DELETE'', ''OPTIONS'', ''CONNECT'', ''TRACE''] then m else ''OTHER'')"

text \<open>\<open>ctx\<close> is the context of the request, not the one with the deadline of the search.\<close>

definition diagnosticOutcome :: "goError option \<Rightarrow> nat \<Rightarrow> string \<Rightarrow> Summary \<Rightarrow> Outcome" where
  "diagnosticOutcome ctx status code summary =
     (if status < 400 then Finish summary ctx None
      else if code = ''internal_error'' then Failure ''internal_error''
      else if code \<in> set [''too_many_requests'', ''request_too_large'', ''result_limit''] then
        \<lparr>oOutcome = ''rejected'', oCategory = ''resource_limit''\<rparr>
      else if code = ''unauthorized'' then \<lparr>oOutcome = ''rejected'', oCategory = ''authentication''\<rparr>
      else if code \<in> set [''invalid_request'', ''method_not_allowed'', ''not_found'', ''unsupported_media_type''] then
        \<lparr>oOutcome = ''rejected'', oCategory = ''invalid_request''\<rparr>
      else if code = ''cancelled'' then Failure (ErrorCategory ctx ''canceled'')
      else if code \<in> set [''timeout'', ''request_timeout''] then Failure ''deadline_exceeded''
      else if code = ''rate_limited'' then Failure ''rate_limited''
      else if oCategory (Finish summary ctx None) \<noteq> ''none'' then Finish summary ctx None
      else if status \<ge> 500 then Failure ''provider_error''
      else \<lparr>oOutcome = ''rejected'', oCategory = ''invalid_request''\<rparr>)"

end
