(* ===== verification/HttpApiInv.thy ===== *)
theory HttpApiInv
  imports HttpApi
begin

text \<open>What the HTTP service guarantees: who reaches a search, what a reply may say, and what happens to a password.\<close>

section \<open>The collector\<close>

lemma collect_rows:
  "collectSearch uni run (rows, limited, summary) = (fin, rows', limited', summary') \<Longrightarrow> length rows \<le> 10000 \<Longrightarrow>
   length rows' \<le> 10000"
proof (induction run arbitrary: rows limited summary)
  case (SearchRow r k)
  show ?case
  proof (cases "length rows \<ge> 10000")
    case True
    then show ?thesis using SearchRow.IH [OF rangeI, of True] SearchRow.prems by simp
  next
    case False
    then show ?thesis using SearchRow.IH [OF rangeI, of False] SearchRow.prems by simp
  qed
qed auto

section \<open>Classification\<close>

text \<open>The pairs of status and code that a search may end with.\<close>

definition searchStatuses :: "(nat \<times> string) set" where
  "searchStatuses = {(502, ''upstream_failure''), (503, ''service_unavailable''), (429, ''rate_limited''), (504, ''timeout''), (408, ''cancelled'')}"

lemma classifySource_in: "p \<in> insert (200, []) searchStatuses \<Longrightarrow> classifySource r p \<in> searchStatuses"
  by (auto simp: classifySource_def searchStatuses_def)

lemma classifyKind_in: "p \<in> searchStatuses \<Longrightarrow> classifyKind kind p \<in> searchStatuses"
  by (auto simp: classifyKind_def searchStatuses_def)

lemma classifyRow_error:
  "rStatus r = StatusError \<Longrightarrow> fst acc \<in> insert (200, []) searchStatuses \<Longrightarrow> fst (classifyRow r acc) \<in> searchStatuses"
  using classifyKind_in [OF classifySource_in] by (simp add: classifyRow_def case_prod_unfold)

lemma classifyRow_other: "rStatus r \<noteq> StatusError \<Longrightarrow> classifyRow r acc = acc"
  by (simp add: classifyRow_def case_prod_unfold)

lemma classify_fold:
  "fst acc \<in> insert (200, []) searchStatuses \<Longrightarrow>
   (if list_ex (\<lambda>r. rStatus r = StatusError) rows then fst (fold classifyRow rows acc) \<in> searchStatuses else fold classifyRow rows acc = acc)"
proof (induction rows arbitrary: acc)
  case (Cons r rows)
  show ?case
  proof (cases "rStatus r = StatusError")
    case True
    then have "fst (classifyRow r acc) \<in> searchStatuses" using classifyRow_error Cons.prems by blast
    then show ?thesis using Cons.IH [of "classifyRow r acc"] True by (auto split: if_splits)
  next
    case False
    then show ?thesis using Cons.IH [OF Cons.prems] classifyRow_other by simp
  qed
qed simp

text \<open>The delay that is passed on is the largest one any failed row asks for.\<close>

definition retryOf :: "Result \<Rightarrow> nat" where
  "retryOf r = (if rStatus r = StatusError then
     (case parseUint64 (metadataGet (rMetadata r) ''retry_after_seconds'') of Some s \<Rightarrow> s | None \<Rightarrow> 0) else 0)"

lemma classifyRow_retry: "snd (classifyRow r acc) = max (retryOf r) (snd acc)"
  by (cases acc) (auto simp: classifyRow_def retryOf_def split: option.splits)

lemma fold_retry: "snd (fold classifyRow rows acc) = fold max (map retryOf rows) (snd acc)"
  by (induction rows arbitrary: acc) (simp_all add: classifyRow_retry)

lemma providerRow_failed: "rStatus (providerRow p) = StatusError"
  by (simp add: providerRow_def split: prod.splits)

lemma providerRows_failed: "list_ex (\<lambda>r. rStatus r = StatusError) (providerRows err) \<longleftrightarrow> providerRows err \<noteq> []"
  by (auto simp: providerRows_def providerRow_failed split: option.splits)

lemma no200: "p \<in> searchStatuses \<Longrightarrow> fst p \<noteq> 200"
  by (auto simp: searchStatuses_def)

lemma fold_zero: "fold max (map retryOf rs) (0 :: nat) = 0 \<or> list_ex (\<lambda>r. rStatus r = StatusError) rs"
proof (cases "list_ex (\<lambda>r. rStatus r = StatusError) rs")
  case False
  then have "map retryOf rs = map (\<lambda>_. 0) rs" by (auto simp: retryOf_def list_ex_iff)
  moreover have "fold max (map (\<lambda>_. 0) rs) (0 :: nat) = 0" by (induction rs) auto
  ultimately show ?thesis by metis
qed simp

lemma classifyRows_exact:
  assumes "classifyRows err rows = (status, apiErr, retry)"
  defines "rs \<equiv> rows @ providerRows err"
  shows "(status = 200 \<longleftrightarrow> err = None \<and> \<not> list_ex (\<lambda>r. rStatus r = StatusError) rows)
    \<and> (status = 200 \<longrightarrow> apiErr = None \<and> retry = [])
    \<and> (status \<noteq> 200 \<longrightarrow> (\<exists>code message. apiErr = Some (code, message) \<and> (status, code) \<in> searchStatuses)
         \<and> retry = (if fold max (map retryOf rs) 0 > 0 then itoa (int (fold max (map retryOf rs) 0)) else []))"
proof -
  obtain p n where acc: "fold classifyRow rs ((200, []), 0) = (p, n)" by fastforce
  have n: "n = fold max (map retryOf rs) 0" using fold_retry [of rs "((200, []), 0)"] by (simp add: acc)
  have f: "if list_ex (\<lambda>r. rStatus r = StatusError) rs then p \<in> searchStatuses else p = (200, []) \<and> n = 0"
    using classify_fold [of "((200, []), 0)" rs] by (auto simp: acc split: if_splits)
  have ex: "list_ex (\<lambda>r. rStatus r = StatusError) rs \<longleftrightarrow> list_ex (\<lambda>r. rStatus r = StatusError) rows \<or> providerRows err \<noteq> []"
    by (simp add: rs_def providerRows_failed)
  have none: "err = None \<Longrightarrow> providerRows err = []" by (simp add: providerRows_def)
  have r: "(status, apiErr, retry) =
      (let p = (if fst p = 200 \<and> err \<noteq> None then (502, ''upstream_failure'') else p)
       in if fst p = 200 then (200, None, [])
          else (fst p, Some (snd p, ''search could not be completed''), if n > 0 then itoa (int n) else []))"
    using assms(1) acc by (simp add: classifyRows_def rs_def)
  show ?thesis
  proof (cases "list_ex (\<lambda>r. rStatus r = StatusError) rs")
    case True
    then have p: "p \<in> searchStatuses" "fst p \<noteq> 200" using f no200 by auto
    then have "status = fst p" "apiErr = Some (snd p, ''search could not be completed'')" "retry = (if n > 0 then itoa (int n) else [])"
      using r by simp_all
    then show ?thesis using p True ex none n by (cases err) auto
  next
    case False
    then have "p = (200, [])" "n = 0" using f by simp_all
    then show ?thesis using False ex none n r by (cases "err = None") (auto simp: searchStatuses_def)
  qed
qed

lemma classify_rows_facts:
  assumes "classify ctx1 ctx2 err rows = (status, apiErr, retry)"
  shows "(status = 200 \<longrightarrow> apiErr = None \<and> \<not> list_ex (\<lambda>r. rStatus r = StatusError) rows)
    \<and> (status \<noteq> 200 \<longrightarrow> (\<exists>code message. apiErr = Some (code, message) \<and> (status, code) \<in> searchStatuses))"
proof (cases "deadlineHit ctx1 err \<or> cancelHit ctx2 err \<or> unavailableHit err")
  case True
  then show ?thesis using assms by (auto simp: classify_def searchStatuses_def split: if_splits)
next
  case False
  then have "classifyRows err rows = (status, apiErr, retry)" using assms by (simp add: classify_def)
  from classifyRows_exact [OF this] show ?thesis by blast
qed

section \<open>The status of a search\<close>

text \<open>The status of a search is exact: it is 200, without an error and without a delay, exactly when the context held, the
  search returned no error and no row failed; otherwise status and code are one of five fixed pairs, the context errors come
  first, and after a search that was not cut off the delay is the largest one that any failed row or the provider asks for.\<close>

theorem classify_exact:
  assumes "classify ctx1 ctx2 err rows = (status, apiErr, retry)"
  shows "(status = 200 \<longleftrightarrow> \<not> deadlineHit ctx1 err \<and> \<not> cancelHit ctx2 err \<and> err = None \<and> \<not> list_ex (\<lambda>r. rStatus r = StatusError) rows)
    \<and> (status = 200 \<longrightarrow> apiErr = None \<and> retry = [])
    \<and> (status \<noteq> 200 \<longrightarrow> (\<exists>code message. apiErr = Some (code, message) \<and> (status, code) \<in> searchStatuses))
    \<and> (deadlineHit ctx1 err \<longrightarrow> status = 504)
    \<and> (\<not> deadlineHit ctx1 err \<and> cancelHit ctx2 err \<longrightarrow> status = 408)
    \<and> (\<not> deadlineHit ctx1 err \<and> \<not> cancelHit ctx2 err \<and> \<not> unavailableHit err \<and> status \<noteq> 200 \<longrightarrow>
         retry = (let n = fold max (map retryOf (rows @ providerRows err)) 0 in if n > 0 then itoa (int n) else []))"
proof (cases "deadlineHit ctx1 err \<or> cancelHit ctx2 err \<or> unavailableHit err")
  case True
  then show ?thesis using assms by (auto simp: classify_def searchStatuses_def unavailableHit_def split: if_splits option.splits)
next
  case False
  then have "classifyRows err rows = (status, apiErr, retry)" using assms by (simp add: classify_def)
  from classifyRows_exact [OF this] show ?thesis using False by (simp add: Let_def)
qed

theorem classify_exact_witness:
  "classify None None (Some \<lparr>seCanceled = False, seDeadline = False, seUnavailable = False, seProvider = Some (''rate_limited'', 1500000000)\<rparr>) []
     = (429, Some (''rate_limited'', ''search could not be completed''), ''2'')
   \<and> \<not> deadlineHit None (Some \<lparr>seCanceled = False, seDeadline = False, seUnavailable = False, seProvider = Some (''rate_limited'', 1500000000)\<rparr>)"
proof -
  have "classify None None (Some \<lparr>seCanceled = False, seDeadline = False, seUnavailable = False, seProvider = Some (''rate_limited'', 1500000000)\<rparr>) []
     = (429, Some (''rate_limited'', ''search could not be completed''), ''2'')" by code_simp
  from this classify_exact [OF this] show ?thesis by simp
qed

section \<open>Replies\<close>

lemma replaceRx_Nil [simp]: "replaceRx g t r [] = []"
  by (simp add: replaceRx.simps)

lemma redactSecret_Nil [simp]: "redactSecret secret [] = []"
  by (simp add: redactSecret_def)

lemma Redact_Nil [simp]: "Redact [] secrets = []"
proof -
  have "fold redactSecret secrets [] = []" by (induction secrets) simp_all
  then show ?thesis by (simp add: Redact_def Let_def)
qed

text \<open>A row that says nothing of its provider but the source.\<close>

definition bareRow :: "Result \<Rightarrow> bool" where
  "bareRow r \<longleftrightarrow> rEvidence r = [] \<and> rMetadata r = [] \<and> rURL r = [] \<and> rFinalURL r = [] \<and> rConfidence r = 0
     \<and> (\<exists>ss. rError r = Redact ''source lookup failed'' ss)"

lemma publicRow_bare: "rStatus (publicRow uni r) = StatusError \<Longrightarrow> bareRow (publicRow uni r)"
  by (auto simp: publicRow_def bareRow_def Normalized_def normalized_sel Redacted_sel)
    (auto simp: RedactedResult_def Fields_def emptyResult_def Let_def)

text \<open>What a reply may say.\<close>

definition refusals :: "(nat \<times> string) set" where
  "refusals = {(500, ''internal_error''), (405, ''method_not_allowed''), (400, ''invalid_request''), (401, ''unauthorized''),
     (404, ''not_found''), (504, ''timeout''), (408, ''cancelled''), (429, ''too_many_requests''), (415, ''unsupported_media_type''),
     (408, ''request_timeout''), (413, ''request_too_large''), (503, ''result_limit'')}"

definition refused :: "apiReply \<Rightarrow> bool" where
  "refused reply \<longleftrightarrow> (\<exists>code message. hrPayload reply = PayloadRows [] (Some (code, message)) None None \<and> (hrStatus reply, code) \<in> refusals)"

definition answered :: "apiReply \<Rightarrow> bool" where
  "answered reply \<longleftrightarrow> (\<exists>rows apiErr a da. hrPayload reply = PayloadRows rows apiErr a da \<and> length rows \<le> 10000
     \<and> (\<forall>r \<in> set rows. rStatus r = StatusError \<longrightarrow> bareRow r)
     \<and> (if hrStatus reply = 200 then apiErr = None \<and> (\<forall>r \<in> set rows. rStatus r \<noteq> StatusError)
        else \<exists>code message. apiErr = Some (code, message) \<and> (hrStatus reply, code) \<in> searchStatuses))"

lemma refused_fail: "refused (failReply headers status code message) \<longleftrightarrow> (status, code) \<in> refusals"
  by (simp add: refused_def failReply_def)

lemma publicRow_status: "rStatus (publicRow uni r) = rStatus r"
  by (simp add: publicRow_def Normalized_status StatusError_def)

lemma searchReply_safe:
  assumes "searchReply h en headers st t want = (reply, summary)"
  shows "refused reply \<or> answered reply"
proof -
  obtain fin rows limited sm where run: "collectSearch (tpLower (enParsers en)) (enSearch en t st) ([], False, newSummary) = (fin, rows, limited, sm)"
    by (cases "collectSearch (tpLower (enParsers en)) (enSearch en t st) ([], False, newSummary)") auto
  have len: "length rows \<le> 10000" using collect_rows [OF run] by simp
  show ?thesis
  proof (cases fin)
    case SearchDied
    then show ?thesis using assms run by (auto simp: searchReply_def refused_fail refusals_def)
  next
    case (SearchEnded err)
    obtain status apiErr retry where c: "classify (enCtx en 3) (enCtx en 4) err rows = (status, apiErr, retry)"
      by (cases "classify (enCtx en 3) (enCtx en 4) err rows") auto
    note exact = classify_rows_facts [OF c]
    show ?thesis
    proof (cases limited)
      case True
      then show ?thesis using assms run SearchEnded by (auto simp: searchReply_def Let_def refused_fail refusals_def)
    next
      case False
      let ?rows = "map (publicRow (tpLower (enParsers en))) rows"
      obtain hs a da where reply: "reply = \<lparr>hrStatus = status, hrHeaders = hs, hrPayload = PayloadRows ?rows apiErr a da\<rparr>"
        using assms run SearchEnded False c unfolding searchReply_def by (auto simp: Let_def split: prod.splits)
      have "\<forall>r \<in> set ?rows. rStatus r = StatusError \<longrightarrow> bareRow r" using publicRow_bare by auto
      moreover have "status = 200 \<Longrightarrow> apiErr = None \<and> (\<forall>r \<in> set ?rows. rStatus r \<noteq> StatusError)"
        using exact by (auto simp: publicRow_status list_ex_iff)
      moreover have "status \<noteq> 200 \<Longrightarrow> \<exists>code message. apiErr = Some (code, message) \<and> (status, code) \<in> searchStatuses"
        using exact by auto
      ultimately have "answered reply" using len by (simp add: answered_def reply)
      then show ?thesis by simp
    qed
  qed
qed

lemma searchReply_headers:
  assumes "searchReply h en headers st t want = (reply, summary)"
  shows "set headers \<subseteq> set (hrHeaders reply)"
  using assms by (auto simp: searchReply_def failReply_def Let_def split: prod.splits searchEnd.splits if_splits)

lemma admitBody_Inl: "admitBody h en held q = Inl (extra, status, code, message) \<Longrightarrow> (status, code) \<in> refusals"
  unfolding admitBody_def refusals_def by (auto split: if_splits option.splits bodyRead.splits)

lemma admitBody_Inr:
  "admitBody h en held q = Inr raw \<Longrightarrow> enCtx en 0 = None \<and> held < hhMaxConcurrent h \<and> hqBody q = BodyAll raw \<and> length raw \<le> MaxBodyBytes"
  unfolding admitBody_def by (auto split: if_splits option.splits bodyRead.splits)

lemma routeRequest_Inl: "routeRequest h q = Inl (extra, status, code, message) \<Longrightarrow> (status, code) \<in> refusals"
  unfolding routeRequest_def refusals_def by (auto split: if_splits)

lemma routeRequest_Inr:
  "routeRequest h q = Inr b \<Longrightarrow> \<not> hqQuery q \<and> (if b then hqPath q = ''/api/v1/search'' \<and> hqMethod q = ''POST'' \<and> authorized h q
     else hqPath q = ''/health'' \<and> hqMethod q = ''GET'')"
  unfolding routeRequest_def by (auto split: if_splits)

text \<open>What is known when the searcher was called.\<close>

definition admittedFor :: "httpHandler \<Rightarrow> httpEnv \<Rightarrow> nat \<Rightarrow> secretStore \<Rightarrow> nat \<Rightarrow> httpRequest \<Rightarrow> Target \<Rightarrow> apiReply \<Rightarrow> secretStore \<Rightarrow> bool" where
  "admittedFor h en held st ref q t reply st' \<longleftrightarrow> held < hhMaxConcurrent h
     \<and> (\<exists>raw want st2 headers summary. hqBody q = BodyAll raw \<and> length raw \<le> MaxBodyBytes
          \<and> decodeRequest (enParsers en) (enDecoder en) st ref raw = (Inr (t, want), st2)
          \<and> searchReply h en headers st2 t want = (reply, summary)
          \<and> st' = (if Sensitive (tKind t) then Destroy st2 (tSecret t) else st2))"

lemma searchRequest_cases:
  assumes "searchRequest h en held headers st ref q = (reply, summary, invoked, st')"
  shows "(case invoked of None \<Rightarrow> refused reply | Some t \<Rightarrow> admittedFor h en held st ref q t reply st') \<and> set headers \<subseteq> set (hrHeaders reply)"
proof (cases "admitBody h en held q")
  case (Inl x)
  obtain extra status code message where x: "x = (extra, status, code, message)" by (cases x)
  have "reply = failReply (headers @ extra) status code message" "invoked = None" using assms Inl x by (auto simp: searchRequest_def)
  then show ?thesis using admitBody_Inl [of h en held q extra status code message] Inl x by (simp add: refused_fail) (simp add: failReply_def)
next
  case (Inr raw)
  note facts = admitBody_Inr [OF Inr]
  obtain r st2 where d: "decodeRequest (enParsers en) (enDecoder en) st ref raw = (r, st2)" by fastforce
  show ?thesis
  proof (cases r)
    case (Inl e)
    then have "reply = failReply headers 400 ''invalid_request'' ''invalid search request''" "invoked = None"
      using assms Inr d by (auto simp: searchRequest_def)
    then show ?thesis by (simp add: refused_fail refusals_def) (simp add: failReply_def)
  next
    case r: (Inr tw)
    obtain t want where tw: "tw = (t, want)" by (cases tw)
    obtain rp sm where sr: "searchReply h en headers st2 t want = (rp, sm)" by fastforce
    have "reply = rp" "summary = sm" "invoked = Some t" "st' = (if Sensitive (tKind t) then Destroy st2 (tSecret t) else st2)"
      using assms Inr d r tw sr by (auto simp: searchRequest_def)
    then show ?thesis using facts d r tw sr searchReply_headers [OF sr] by (auto simp: admittedFor_def)
  qed
qed

lemma ServeHTTP_cases:
  assumes "ServeHTTP h en held st ref rid q = (reply, summary, invoked, st')"
  shows "(case invoked of
      None \<Rightarrow> refused reply \<or> hrStatus reply = 200 \<and> hrPayload reply = PayloadHealth \<and> routeRequest h q = Inr False
    | Some t \<Rightarrow> routeRequest h q = Inr True \<and> admittedFor h en held st ref q t reply st') \<and> set baseHeaders \<subseteq> set (hrHeaders reply)"
proof (cases "enRandom en")
  case False
  then have "reply = failReply baseHeaders 500 ''internal_error'' ''request failed''" "invoked = None" using assms by (auto simp: ServeHTTP_def)
  then show ?thesis by (simp add: refused_fail refusals_def) (simp add: failReply_def)
next
  case rnd: True
  let ?headers = "baseHeaders @ [(''X-Request-ID'', rid)]"
  show ?thesis
  proof (cases "routeRequest h q")
    case (Inl x)
    obtain extra status code message where x: "x = (extra, status, code, message)" by (cases x)
    have "reply = failReply (?headers @ extra) status code message" "invoked = None" using assms rnd Inl x by (auto simp: ServeHTTP_def Let_def)
    then show ?thesis using routeRequest_Inl [of h q extra status code message] Inl x by (simp add: refused_fail) (auto simp: failReply_def)
  next
    case (Inr b)
    show ?thesis
    proof (cases b)
      case False
      then show ?thesis using assms rnd Inr by (auto simp: ServeHTTP_def Let_def)
    next
      case True
      then have "searchRequest h en held ?headers st ref q = (reply, summary, invoked, st')" using assms rnd Inr by (simp add: ServeHTTP_def Let_def)
      from searchRequest_cases [OF this] show ?thesis using Inr True by (auto split: option.splits)
    qed
  qed
qed

section \<open>A concrete service\<close>

definition demoBody :: string where
  "demoBody = ''{\"type\":\"username\",\"target\":\"bob\"}''"

definition demoToken :: string where "demoToken = replicate 32 CHR ''k''"

definition demoHandler :: httpHandler where
  "demoHandler = \<lparr>hhTokenHash = sha256 (bytesOf demoToken), hhMaxConcurrent = 8, hhAnalyzer = None\<rparr>"

definition serviceEnv :: httpEnv where
  "serviceEnv = \<lparr>enRandom = True, enCtx = (\<lambda>_. None),
     enParsers = \<lparr>tpLower = (\<lambda>s. s), tpUpper = (\<lambda>s. s), tpAddr = (\<lambda>_. None), tpMail = (\<lambda>_. None), tpLetter = (\<lambda>_. False)\<rparr>,
     enDecoder = \<lparr>rdMembers = (\<lambda>s. if s = demoBody then Some [(''type'', ''T''), (''target'', ''V'')] else None),
       rdText = (\<lambda>v. Some (if v = ''T'' then ''username'' else ''bob''))\<rparr>,
     enSearch = (\<lambda>_ _. SearchReturn None), enCodec = plainCodec,
     enAnalysis = \<lparr>adUni = (\<lambda>s. s), adParse = (\<lambda>_. None), adAnswer = (\<lambda>_. None), adInput = (\<lambda>_ _. None)\<rparr>,
     enAnalysisCtx = (\<lambda>_. None), enAttach = (\<lambda>_. None), enOptions = (\<lambda>_. noOptions)\<rparr>"

definition demoRequest :: httpRequest where
  "demoRequest = \<lparr>hqPath = ''/api/v1/search'', hqMethod = ''POST'', hqAuthorization = [''Bearer '' @ demoToken], hqQuery = False,
     hqMedia = Some (''application/json'', []), hqEncoding = [], hqBody = BodyAll demoBody\<rparr>"

lemma demo_decoded:
  "decodeRequest (enParsers serviceEnv) (enDecoder serviceEnv) st ref demoBody = (Inr (plainTarget TargetUsername ''bob'', False), st)"
proof -
  have facts: "utf8Valid demoBody" "utf8Valid ''bob''" "runesOf ''bob'' = [''b'', ''o'', ''b'']" by code_simp+
  have name: "list_all (usernameRune (enParsers serviceEnv)) [''b'', ''o'', ''b'']" unfolding serviceEnv_def by code_simp
  show ?thesis using facts name
    by (simp add: decodeRequest_def serviceEnv_def analysisFlag_def fieldText_def NewSearchTarget_def TargetUsername_def TargetPassword_def
        MaxUsernameBytes_def res_simps)
qed

lemma demo_routed: "routeRequest demoHandler demoRequest = Inr True"
  by (simp add: routeRequest_def demoRequest_def demoHandler_def authorized_def demoToken_def hasPrefix_iff)

lemma demo_admitted: "admitBody demoHandler serviceEnv 0 demoRequest = Inr demoBody"
  by (simp add: admitBody_def serviceEnv_def demoHandler_def demoRequest_def demoBody_def MaxBodyBytes_def)

lemma demo_served:
  "\<exists>reply summary. ServeHTTP demoHandler serviceEnv 0 st ref rid demoRequest = (reply, summary, Some (plainTarget TargetUsername ''bob''), st)"
proof -
  obtain reply summary where "searchReply demoHandler serviceEnv (baseHeaders @ [(''X-Request-ID'', rid)]) st (plainTarget TargetUsername ''bob'') False
      = (reply, summary)" by fastforce
  moreover have "enRandom serviceEnv" "\<not> Sensitive (tKind (plainTarget TargetUsername ''bob''))"
    by (simp_all add: serviceEnv_def plainTarget_def TargetUsername_def Sensitive_def TargetPassword_def TargetPasswordHash_def)
  ultimately show ?thesis using demo_routed demo_admitted demo_decoded [of st ref] by (simp add: ServeHTTP_def searchRequest_def)
qed

lemma demo_made:
  "NewHandler True 8 None (\<lambda>r. if r = 1 then demoToken else []) (Some 1) = (Inr demoHandler, \<lambda>r. [])"
proof -
  have "tokenFormat demoToken = Inr ()" by code_simp
  moreover have "demoToken \<noteq> []" by (simp add: demoToken_def)
  ultimately show ?thesis by (auto simp: NewHandler_def Consume_def Destroy_def demoHandler_def res_simps)
qed

section \<open>Properties\<close>

lemma authorized_token:
  assumes "authorized h q"
  shows "\<exists>tok. hqAuthorization q = [''Bearer '' @ tok] \<and> sha256 (bytesOf tok) = hhTokenHash h"
proof -
  obtain v where v: "hqAuthorization q = [v]" "hasPrefix v ''Bearer ''" "sha256 (bytesOf (drop 7 v)) = hhTokenHash h"
    using assms by (auto simp: authorized_def split: list.splits)
  obtain tok where "v = ''Bearer '' @ tok" using v(2) by (auto simp: hasPrefix_iff)
  then show ?thesis using v by auto
qed

lemma NewHandler_Inr:
  assumes "NewHandler valid cap analyzer st token = (Inr h, st1)"
  shows "valid \<and> hhTokenHash h = sha256 (bytesOf (Reveal st token)) \<and> hhMaxConcurrent h = cap \<and> 32 \<le> length (Reveal st token)
    \<and> Reveal st1 token = []"
  using assms
  by (cases token) (auto simp: NewHandler_def Consume_def Destroy_def Reveal_def tokenFormat_def res_simps split: if_splits sum.splits)

lemma Destroy_Reveal: "Reveal (Destroy st s) s = []"
  by (cases s) (simp_all add: Destroy_def Reveal_def)

text \<open>C24: only an authorized and admitted request reaches a search: the searcher is called only for a POST to the search route
  without a query whose one authorization header bears the token the handler was made with (or a SHA-256 collision with it),
  while fewer searches are admitted than the limit, and only with the target that the strict decoder reads from a body within
  the limit; a password is destroyed when the request ends, and the token as soon as the handler is made.\<close>

theorem search_guarded:
  assumes handler: "NewHandler valid cap analyzer st0 token = (Inr h, st1)"
    and served: "ServeHTTP h en held st ref rid q = (reply, summary, Some t, st')"
  shows "hqPath q = ''/api/v1/search'' \<and> hqMethod q = ''POST'' \<and> \<not> hqQuery q
    \<and> (\<exists>tok. hqAuthorization q = [''Bearer '' @ tok] \<and> sha256 (bytesOf tok) = sha256 (bytesOf (Reveal st0 token)))
    \<and> 32 \<le> length (Reveal st0 token) \<and> Reveal st1 token = [] \<and> held < cap
    \<and> (\<exists>raw want st2. hqBody q = BodyAll raw \<and> length raw \<le> MaxBodyBytes
         \<and> decodeRequest (enParsers en) (enDecoder en) st ref raw = (Inr (t, want), st2))
    \<and> (Sensitive (tKind t) \<longrightarrow> Reveal st' (tSecret t) = [])"
proof -
  have r: "routeRequest h q = Inr True" and a: "admittedFor h en held st ref q t reply st'" using ServeHTTP_cases [OF served] by auto
  note route = routeRequest_Inr [OF r]
  have auth: "authorized h q" using route by simp
  show ?thesis using route authorized_token [OF auth] NewHandler_Inr [OF handler] a Destroy_Reveal
    by (auto simp: admittedFor_def)
qed

theorem search_guarded_witness:
  "\<exists>reply summary. ServeHTTP demoHandler serviceEnv 0 (\<lambda>_. []) 7 ''id'' demoRequest
      = (reply, summary, Some (plainTarget TargetUsername ''bob''), \<lambda>_. [])
    \<and> hqMethod demoRequest = ''POST'' \<and> 32 \<le> length (Reveal (\<lambda>r. if r = 1 then demoToken else []) (Some 1)) \<and> (0::nat) < 8"
proof -
  obtain reply summary where s: "ServeHTTP demoHandler serviceEnv 0 (\<lambda>_. []) 7 ''id'' demoRequest
      = (reply, summary, Some (plainTarget TargetUsername ''bob''), \<lambda>_. [])" using demo_served by blast
  from search_guarded [OF demo_made s] s show ?thesis by blast
qed

text \<open>A reply says nothing of a provider's failure: every reply has the two protective headers and is the health check, a
  refusal with one of twelve fixed pairs of status and code and no data, or the answer of a search: at most ten thousand rows,
  of which the failed ones keep only their source and target, and a status of 200 only without any failed row.\<close>

theorem replies_safe:
  assumes "ServeHTTP h en held st ref rid q = (reply, summary, invoked, st')"
  shows "set baseHeaders \<subseteq> set (hrHeaders reply)
    \<and> (hrPayload reply = PayloadHealth \<and> hrStatus reply = 200 \<and> invoked = None \<or> refused reply \<or> answered reply \<and> invoked \<noteq> None)"
proof (cases invoked)
  case None
  then show ?thesis using ServeHTTP_cases [OF assms] by auto
next
  case (Some t)
  then obtain headers st2 want sm where "searchReply h en headers st2 t want = (reply, sm)"
    using ServeHTTP_cases [OF assms] by (auto simp: admittedFor_def)
  then have "refused reply \<or> answered reply" by (rule searchReply_safe)
  then show ?thesis using Some ServeHTTP_cases [OF assms] by auto
qed

theorem replies_safe_witness:
  "\<exists>reply. ServeHTTP demoHandler serviceEnv 0 (\<lambda>_. []) 7 ''id'' (demoRequest\<lparr>hqMethod := ''GET''\<rparr>) = (reply, newSummary, None, \<lambda>_. [])
    \<and> hrStatus reply = 405 \<and> set baseHeaders \<subseteq> set (hrHeaders reply)"
proof -
  obtain reply where s: "ServeHTTP demoHandler serviceEnv 0 (\<lambda>_. []) 7 ''id'' (demoRequest\<lparr>hqMethod := ''GET''\<rparr>) = (reply, newSummary, None, \<lambda>_. [])"
      and "hrStatus reply = 405"
    by (simp add: ServeHTTP_def serviceEnv_def routeRequest_def demoRequest_def failReply_def)
  then show ?thesis using replies_safe [OF s] by blast
qed

end
