(* ===== verification/GoFlag.thy ===== *)
theory GoFlag
  imports Security
begin

text \<open>
  The parts of \<open>flag\<close>, \<open>strconv\<close> and \<open>net\<close> that the command lines use (\<open>src/internal/config/config.go\<close>,
  \<open>server.go\<close>): a flag set with its values, the flags that were given and the password flag with its buffer.
  \<open>time.ParseDuration\<close>, whose fractions are floating-point, is an argument that gives nanoseconds.
\<close>

section \<open>Numbers\<close>

definition parseBool :: "string \<Rightarrow> bool option" where
  "parseBool s =
     (if s \<in> set [''1'', ''t'', ''T'', ''TRUE'', ''true'', ''True''] then Some True
      else if s \<in> set [''0'', ''f'', ''F'', ''FALSE'', ''false'', ''False''] then Some False else None)"

definition digitValue :: "char \<Rightarrow> nat option" where
  "digitValue c =
     (if isDigitC c then Some (byteVal c - 48)
      else if isLowerC (lowerC c) then Some (byteVal (lowerC c) - 97 + 10) else None)"

text \<open>The digits of a number in base \<open>b\<close>; underscores are skipped.\<close>

fun baseDigits :: "nat \<Rightarrow> nat \<Rightarrow> string \<Rightarrow> nat option" where
  "baseDigits b a [] = Some a"
| "baseDigits b a (c # s) =
     (if c = CHR ''_'' then baseDigits b a s
      else case digitValue c of None \<Rightarrow> None | Some d \<Rightarrow> if d \<ge> b then None else baseDigits b (b * a + d) s)"

text \<open>\<open>underscoreOK\<close>: an underscore stands between digits, or between the prefix and a digit.  \<open>prev\<close> is the class of
  the last character: \<open>CHR ''0''\<close> a digit, \<open>CHR ''_''\<close> an underscore, anything else other.\<close>

fun underscores :: "bool \<Rightarrow> char \<Rightarrow> string \<Rightarrow> bool" where
  "underscores hex prev [] \<longleftrightarrow> prev \<noteq> CHR ''_''"
| "underscores hex prev (c # s) \<longleftrightarrow>
     (if isDigitC c \<or> hex \<and> 97 \<le> byteVal (lowerC c) \<and> byteVal (lowerC c) \<le> 102 then underscores hex (CHR ''0'') s
      else if c = CHR ''_'' then prev = CHR ''0'' \<and> underscores hex (CHR ''_'') s
      else prev \<noteq> CHR ''_'' \<and> underscores hex (CHR ''!'') s)"

definition underscoreOK :: "string \<Rightarrow> bool" where
  "underscoreOK s =
     (if 2 \<le> length s \<and> hd s = CHR ''0'' \<and> lowerC (s ! 1) \<in> set ''box''
      then underscores (lowerC (s ! 1) = CHR ''x'') (CHR ''0'') (drop 2 s) else underscores False (CHR ''^'') s)"

text \<open>\<open>ParseUint\<close> with base 0, without its bound.\<close>

definition parseNat0 :: "string \<Rightarrow> nat option" where
  "parseNat0 s =
     (if s = [] then None
      else let (b, digits) =
          (if hd s \<noteq> CHR ''0'' then (10, s)
           else if 3 \<le> length s \<and> lowerC (s ! 1) = CHR ''b'' then (2, drop 2 s)
           else if 3 \<le> length s \<and> lowerC (s ! 1) = CHR ''o'' then (8, drop 2 s)
           else if 3 \<le> length s \<and> lowerC (s ! 1) = CHR ''x'' then (16, drop 2 s)
           else (8, tl s))
        in case baseDigits b 0 digits of None \<Rightarrow> None
           | Some n \<Rightarrow> if CHR ''_'' \<in> set digits \<and> \<not> underscoreOK s then None else Some n)"

text \<open>\<open>ParseInt(s, 0, 64)\<close>.\<close>

definition parseInt0 :: "string \<Rightarrow> int option" where
  "parseInt0 s =
     (let neg = (s \<noteq> [] \<and> hd s = CHR ''-'');
          body = (if s \<noteq> [] \<and> hd s \<in> set ''+-'' then tl s else s)
      in case parseNat0 body of None \<Rightarrow> None
         | Some n \<Rightarrow> if neg then (if n \<le> 2 ^ 63 then Some (- int n) else None) else if n < 2 ^ 63 then Some (int n) else None)"

section \<open>Flag sets\<close>

text \<open>\<open>FlagOnce\<close> is a string that may be given once, \<open>FlagSecret\<close> one whose value goes to a fresh buffer.\<close>

datatype flagKind = FlagBool | FlagInt | FlagDuration | FlagString | FlagOnce | FlagSecret

datatype flagValue = ValBool bool | ValInt int | ValDuration int | ValString string

datatype flagError = FlagHelp | FlagInvalid

record flagState =
  fsValue :: "string \<Rightarrow> flagValue option"
  fsActual :: "string list"                    \<comment> \<open>the flags that were given\<close>
  fsStore :: secretStore
  fsSecret :: secret

type_synonym flagSpec = "(string \<times> flagKind \<times> flagValue) list"

definition initialFlags :: "flagSpec \<Rightarrow> secretStore \<Rightarrow> flagState" where
  "initialFlags spec st = \<lparr>fsValue = map_of (map (\<lambda>(n, k, v). (n, v)) spec), fsActual = [], fsStore = st, fsSecret = None\<rparr>"

text \<open>\<open>Value.Set\<close> and the entry in the given flags; \<open>ref\<close> is the fresh buffer of a secret.\<close>

definition plainValue :: "(string \<Rightarrow> int option) \<Rightarrow> flagKind \<Rightarrow> string \<Rightarrow> flagValue option" where
  "plainValue dur k v =
     (case k of FlagBool \<Rightarrow> map_option ValBool (parseBool v)
      | FlagInt \<Rightarrow> map_option ValInt (parseInt0 v)
      | FlagDuration \<Rightarrow> map_option ValDuration (dur v)
      | _ \<Rightarrow> Some (ValString v))"

definition setFlag :: "(string \<Rightarrow> int option) \<Rightarrow> nat \<Rightarrow> string \<Rightarrow> flagKind \<Rightarrow> string \<Rightarrow> flagState \<Rightarrow> flagState option" where
  "setFlag dur ref n k v fs =
     (if k \<in> set [FlagOnce, FlagSecret] \<and> n \<in> set (fsActual fs) then None
      else if k = FlagSecret then
        Some (fs\<lparr>fsActual := n # fsActual fs, fsStore := (fsStore fs)(ref := v), fsSecret := Some ref\<rparr>)
      else case plainValue dur k v of None \<Rightarrow> None
        | Some w \<Rightarrow> Some (fs\<lparr>fsValue := (fsValue fs)(n \<mapsto> w), fsActual := n # fsActual fs\<rparr>))"

text \<open>The name of an argument, and its value after the first equals sign that is not the first character.\<close>

definition cutFlag :: "string \<Rightarrow> string \<times> string option" where
  "cutFlag s =
     (let n = takeWhile (\<lambda>c. c \<noteq> CHR ''='') (tl s); rest = dropWhile (\<lambda>c. c \<noteq> CHR ''='') (tl s)
      in (hd s # n, if rest = [] then None else Some (tl rest)))"

text \<open>One argument (\<open>parseOne\<close>): the flags end with the arguments that are left, fail, or one is set.\<close>

datatype flagArg = ArgStop "string list" | ArgFail flagError | ArgSet string flagKind string "string list"

definition parseOne :: "flagSpec \<Rightarrow> string \<Rightarrow> string list \<Rightarrow> flagArg" where
  "parseOne spec s rest =
     (if length s < 2 \<or> hd s \<noteq> CHR ''-'' then ArgStop (s # rest)
      else if s = ''--'' then ArgStop rest
      else let name = drop (if s ! 1 = CHR ''-'' then 2 else 1) s in
        if hd name \<in> set ''-='' then ArgFail FlagInvalid
        else let (n, value) = cutFlag name in
        case map_of spec n of
          None \<Rightarrow> ArgFail (if n \<in> set [''help'', ''h''] then FlagHelp else FlagInvalid)
        | Some (k, _) \<Rightarrow>
            (case value of
               Some v \<Rightarrow> ArgSet n k v rest
             | None \<Rightarrow> if k = FlagBool then ArgSet n k ''true'' rest
                 else (case rest of [] \<Rightarrow> ArgFail FlagInvalid | v # rest' \<Rightarrow> ArgSet n k v rest')))"

lemma parseOne_set: "parseOne spec s rest = ArgSet n k v rest' \<Longrightarrow> length rest' \<le> length rest \<and> (\<exists>d. map_of spec n = Some (k, d))"
  by (auto simp: parseOne_def Let_def split: if_splits prod.splits option.splits list.splits)

text \<open>\<open>FlagSet.Parse\<close>: the arguments that are left.\<close>

function parseFlags :: "(string \<Rightarrow> int option) \<Rightarrow> flagSpec \<Rightarrow> nat \<Rightarrow> string list \<Rightarrow> flagState \<Rightarrow> (flagError + string list) \<times> flagState" where
  "parseFlags dur spec ref [] fs = (Inr [], fs)"
| "parseFlags dur spec ref (s # rest) fs =
     (case parseOne spec s rest of
        ArgStop left \<Rightarrow> (Inr left, fs)
      | ArgFail e \<Rightarrow> (Inl e, fs)
      | ArgSet n k v rest' \<Rightarrow>
          (case setFlag dur ref n k v fs of None \<Rightarrow> (Inl FlagInvalid, fs) | Some fs' \<Rightarrow> parseFlags dur spec ref rest' fs'))"
  by pat_completeness auto
termination by (relation "measure (\<lambda>(_, _, _, args, _). length args)") (auto dest: parseOne_set)

text \<open>\<open>Visit\<close>: the given flags, in the order of their names.  The specifications list them in this order.\<close>

definition visitFlags :: "flagSpec \<Rightarrow> flagState \<Rightarrow> string list" where
  "visitFlags spec fs = filter (\<lambda>n. n \<in> set (fsActual fs)) (map fst spec)"

definition flagStr :: "flagState \<Rightarrow> string \<Rightarrow> string" where
  "flagStr fs n = (case fsValue fs n of Some (ValString s) \<Rightarrow> s | _ \<Rightarrow> [])"

definition flagInt :: "flagState \<Rightarrow> string \<Rightarrow> int" where
  "flagInt fs n = (case fsValue fs n of Some (ValInt i) \<Rightarrow> i | Some (ValDuration i) \<Rightarrow> i | _ \<Rightarrow> 0)"

definition flagBool :: "flagState \<Rightarrow> string \<Rightarrow> bool" where
  "flagBool fs n \<longleftrightarrow> fsValue fs n = Some (ValBool True)"

section \<open>What parsing keeps\<close>

text \<open>Flags that were not given have their defaults, given flags are known, and only a given secret has a buffer.\<close>

definition flagsOK :: "flagSpec \<Rightarrow> secretStore \<Rightarrow> nat \<Rightarrow> flagState \<Rightarrow> bool" where
  "flagsOK spec st ref fs \<longleftrightarrow>
     (\<forall>n. n \<notin> set (fsActual fs) \<longrightarrow> fsValue fs n = fsValue (initialFlags spec st) n)
     \<and> set (fsActual fs) \<subseteq> set (map fst spec)
     \<and> (fsSecret fs = None \<and> fsStore fs = st \<and> (\<forall>n d. (n, FlagSecret, d) \<in> set spec \<longrightarrow> n \<notin> set (fsActual fs))
        \<or> fsSecret fs = Some ref \<and> (\<exists>v. fsStore fs = st(ref := v)) \<and> (\<exists>n d. (n, FlagSecret, d) \<in> set spec \<and> n \<in> set (fsActual fs)))"

lemma flagsOK_initial: "flagsOK spec st ref (initialFlags spec st)"
  by (simp add: flagsOK_def initialFlags_def)

lemma flagsOK_set:
  assumes "flagsOK spec st ref fs" and "map_of spec n = Some (k, d)" and "setFlag dur ref n k v fs = Some fs'"
    and single: "\<And>m d'. (m, FlagSecret, d') \<in> set spec \<Longrightarrow> map_of spec m = Some (FlagSecret, d')"
  shows "flagsOK spec st ref fs'"
proof (cases "k = FlagSecret")
  case True
  have "(n, FlagSecret, d) \<in> set spec" "n \<in> set (map fst spec)" using assms(2) True by (auto dest: map_of_SomeD simp: rev_image_eqI)
  moreover have "fs' = fs\<lparr>fsActual := n # fsActual fs, fsStore := (fsStore fs)(ref := v), fsSecret := Some ref\<rparr>"
    using assms(3) True by (auto simp: setFlag_def split: if_splits)
  ultimately show ?thesis using assms(1) by (auto simp: flagsOK_def)
next
  case False
  have n: "n \<in> set (map fst spec)" using assms(2) by (auto dest: map_of_SomeD simp: rev_image_eqI)
  have new: "(n, FlagSecret, d') \<notin> set spec" for d' using single [of n d'] assms(2) False by auto
  obtain w where "fs' = fs\<lparr>fsValue := (fsValue fs)(n \<mapsto> w), fsActual := n # fsActual fs\<rparr>"
    using assms(3) False by (auto simp: setFlag_def split: if_splits option.splits)
  then show ?thesis using assms(1) n new by (auto simp: flagsOK_def)
qed

definition secretSpec :: "flagSpec \<Rightarrow> bool" where
  "secretSpec spec \<longleftrightarrow> list_all (\<lambda>(n, k, d). k = FlagSecret \<longrightarrow> map_of spec n = Some (FlagSecret, d)) spec"

lemma parseFlags_OK: "secretSpec spec \<Longrightarrow> flagsOK spec st ref fs \<Longrightarrow> flagsOK spec st ref (snd (parseFlags dur spec ref args fs))"
proof (induction dur spec ref args fs rule: parseFlags.induct)
  case (1 dur spec ref fs)
  then show ?case by simp
next
  case (2 dur spec ref s rest fs)
  show ?case
  proof (cases "parseOne spec s rest")
    case (ArgSet n k v rest')
    obtain d where d: "map_of spec n = Some (k, d)" using parseOne_set [OF ArgSet] by blast
    show ?thesis
    proof (cases "setFlag dur ref n k v fs")
      case (Some fs')
      have "flagsOK spec st ref fs'"
        by (rule flagsOK_set [OF "2.prems"(2) d Some]) (use "2.prems"(1) in \<open>fastforce simp: secretSpec_def list_all_iff\<close>)
      then show ?thesis using "2.IH" [OF ArgSet Some "2.prems"(1)] ArgSet Some by simp
    qed (use ArgSet 2 in simp)
  qed (use 2 in simp_all)
qed

end
