(* ===== verification/CliConfig.thy ===== *)
theory CliConfig
  imports GoFlag HttpRequest
begin

text \<open>
  The two command lines (\<open>src/internal/config/config.go\<close>, \<open>server.go\<close>) and the services file (\<open>services.go\<close>): the
  flags, the choice of exactly one mode, and the settings.  Files are a map from paths to contents, the strict YAML
  decoder is an argument, and the texts of \<open>flag\<close>'s own errors are not modelled.
\<close>

section \<open>Services\<close>

record ServiceConfig =
  svcMinInterval :: string
  svcPasswordsPath :: string
  svcPasswordsURL :: string
  svcEnabled :: bool
  svcAPIURL :: string
  svcKeyEnv :: string

definition noService :: ServiceConfig where
  "noService = \<lparr>svcMinInterval = [], svcPasswordsPath = [], svcPasswordsURL = [], svcEnabled = False, svcAPIURL = [], svcKeyEnv = []\<rparr>"

type_synonym servicesConfig = "(string \<times> ServiceConfig) list"

definition serviceOf :: "servicesConfig \<Rightarrow> string \<Rightarrow> ServiceConfig" where
  "serviceOf cfg n = (case map_of cfg n of Some s \<Rightarrow> s | None \<Rightarrow> noService)"

definition envStart :: "char \<Rightarrow> bool" where "envStart c \<longleftrightarrow> isLowerC c \<or> isUpperC c \<or> c = CHR ''_''"

definition envName :: "string \<Rightarrow> bool" where
  "envName s \<longleftrightarrow> s \<noteq> [] \<and> envStart (hd s) \<and> list_all (\<lambda>c. envStart c \<or> isDigitC c) (tl s)"

text \<open>The environment: \<open>ceYaml\<close> gives the first document and whether the text ends after it.\<close>

record cliEnv =
  ceParsers :: targetParsers
  ceDuration :: "string \<Rightarrow> int option"
  ceFile :: "string \<Rightarrow> string option"
  ceYaml :: "string \<Rightarrow> (servicesConfig \<times> bool) option"

definition LoadServices :: "cliEnv \<Rightarrow> string \<Rightarrow> string + servicesConfig" where
  "LoadServices ce path =
     (case ceFile ce path of None \<Rightarrow> Inl ''read services''
      | Some raw \<Rightarrow> (case ceYaml ce raw of
          None \<Rightarrow> Inl ''invalid services configuration (only environment variable references are supported)''
        | Some (cfg, ended) \<Rightarrow>
            failIf (\<not> ended) ''services configuration must contain one document''
            (failIf (list_ex (\<lambda>(n, s). svcKeyEnv s \<noteq> [] \<and> \<not> envName (svcKeyEnv s)) cfg) ''invalid API key environment variable name''
            (Inr cfg))))"

section \<open>Settings\<close>

definition ModeWatch :: string where "ModeWatch = ''watch''"
definition ModeWebsites :: string where "ModeWebsites = []"
definition ModeEmail :: string where "ModeEmail = ''email''"
definition ModeBitcoinTransaction :: string where "ModeBitcoinTransaction = ''bitcoin_tx''"
definition ModeBitcoin :: string where "ModeBitcoin = ''bitcoin''"
definition ModeIP :: string where "ModeIP = ''ip''"
definition ModeDomain :: string where "ModeDomain = ''domain''"
definition ModePassword :: string where "ModePassword = ''password''"

definition PasswordBackendAPI :: string where "PasswordBackendAPI = ''api''"
definition PasswordBackendLocal :: string where "PasswordBackendLocal = ''local''"

record AppConfig =
  cfAI :: bool
  cfAIConfig :: string
  cfWatchFile :: string
  cfWatchStateDir :: string
  cfWatchInterval :: int
  cfWatchConcurrency :: int
  cfMode :: string
  cfPassword :: secret
  cfPasswordPrompt :: bool
  cfPasswordBackend :: string
  cfPasswordDatabasePath :: string
  cfServicesFile :: string
  cfTargets :: "string list"
  cfSitesFile :: string
  cfProxiesFile :: string
  cfOutputDir :: string
  cfOutputFormats :: "string list"
  cfReportFormats :: "string list"
  cfWorkers :: int
  cfRequestTimeout :: int
  cfTotalTimeout :: int
  cfMaxIdleConns :: int
  cfMaxIdleConnsPerHost :: int
  cfRateLimitPerHost :: int
  cfUserAgentFile :: string
  cfDeepSearch :: bool
  cfUseUTLS :: bool
  cfMaxRetries :: int

definition zeroConfig :: AppConfig where
  "zeroConfig = \<lparr>cfAI = False, cfAIConfig = [], cfWatchFile = [], cfWatchStateDir = [], cfWatchInterval = 0, cfWatchConcurrency = 0,
     cfMode = [], cfPassword = None, cfPasswordPrompt = False, cfPasswordBackend = [], cfPasswordDatabasePath = [], cfServicesFile = [],
     cfTargets = [], cfSitesFile = [], cfProxiesFile = [], cfOutputDir = [], cfOutputFormats = [], cfReportFormats = [], cfWorkers = 0,
     cfRequestTimeout = 0, cfTotalTimeout = 0, cfMaxIdleConns = 0, cfMaxIdleConnsPerHost = 0, cfRateLimitPerHost = 0,
     cfUserAgentFile = [], cfDeepSearch = False, cfUseUTLS = False, cfMaxRetries = 0\<rparr>"

definition LocalPasswordPath :: "cliEnv \<Rightarrow> AppConfig \<Rightarrow> string + string" where
  "LocalPasswordPath ce cfg =
     andThen (if cfServicesFile cfg \<noteq> [] then
         (case LoadServices ce (cfServicesFile cfg) of Inl _ \<Rightarrow> Inl ''invalid local password services configuration''
          | Inr services \<Rightarrow> Inr (if cfPasswordDatabasePath cfg = [] then svcPasswordsPath (serviceOf services ''hibp'') else cfPasswordDatabasePath cfg))
       else Inr (cfPasswordDatabasePath cfg)) (\<lambda>path.
     failIf (path = []) ''local password backend requires a database path'' (Inr path))"

section \<open>Flags\<close>

definition second_ns :: int where "second_ns = 1000000000"

text \<open>The flags of \<open>agentsearch\<close>, in the order of their names.\<close>

definition cliSpec :: flagSpec where
  "cliSpec =
     [(''ai'', FlagBool, ValBool False),
      (''ai-config'', FlagString, ValString ''configs/ai.yaml''),
      (''bitcoin'', FlagString, ValString []),
      (''bitcoin-tx'', FlagString, ValString []),
      (''d'', FlagBool, ValBool False),
      (''domain'', FlagString, ValString []),
      (''email'', FlagString, ValString []),
      (''f'', FlagString, ValString []),
      (''ip'', FlagString, ValString []),
      (''mc'', FlagInt, ValInt 500),
      (''mch'', FlagInt, ValInt 100),
      (''o'', FlagString, ValString ''output''),
      (''of'', FlagString, ValString ''json,csv,txt''),
      (''p'', FlagString, ValString []),
      (''password'', FlagSecret, ValString []),
      (''password-backend'', FlagOnce, ValString PasswordBackendAPI),
      (''password-db'', FlagOnce, ValString []),
      (''password-prompt'', FlagBool, ValBool False),
      (''retries'', FlagInt, ValInt 2),
      (''rf'', FlagString, ValString ''cli,html''),
      (''rl'', FlagDuration, ValDuration 500000000),
      (''rt'', FlagDuration, ValDuration (15 * second_ns)),
      (''s'', FlagString, ValString ''configs/sites.yaml''),
      (''services'', FlagString, ValString ''configs/services.yaml''),
      (''tt'', FlagDuration, ValDuration (600 * second_ns)),
      (''u'', FlagString, ValString []),
      (''ua'', FlagString, ValString []),
      (''utls'', FlagBool, ValBool False),
      (''w'', FlagInt, ValInt 50),
      (''watch-concurrency'', FlagInt, ValInt 4),
      (''watch-file'', FlagString, ValString []),
      (''watch-interval'', FlagDuration, ValDuration (60 * second_ns)),
      (''watch-state-dir'', FlagString, ValString ''agentsearch-watch'')]"

definition given :: "flagState \<Rightarrow> string \<Rightarrow> bool" where
  "given fs n \<longleftrightarrow> n \<in> set (visitFlags cliSpec fs)"

text \<open>The scan of the arguments before they are parsed.\<close>

definition sensitiveArg :: "string \<Rightarrow> bool" where
  "sensitiveArg arg \<longleftrightarrow> hasPrefix arg ''-''
     \<and> takeWhile (\<lambda>c. c \<noteq> CHR ''='') (dropWhile (\<lambda>c. c = CHR ''-'') arg) \<in> set [''password'', ''password-prompt'']"

datatype cliError = CliHelp | CliFlag | CliError string

section \<open>Modes\<close>

definition watchAllowed :: "string list" where
  "watchAllowed = [''watch-file'', ''watch-interval'', ''watch-state-dir'', ''watch-concurrency'', ''s'', ''services'', ''rt'', ''tt'']"

definition invalidFlags :: "string list \<Rightarrow> flagState \<Rightarrow> string list" where
  "invalidFlags allowed fs = filter (\<lambda>n. n \<notin> set allowed) (visitFlags cliSpec fs)"

definition watchConfig :: "flagState \<Rightarrow> string list \<Rightarrow> string + AppConfig" where
  "watchConfig fs left =
     failIf (invalidFlags watchAllowed fs \<noteq> [] \<or> left \<noteq> []
         \<or> flagStr fs ''watch-file'' = [] \<or> length (flagStr fs ''watch-file'') > 4096
         \<or> flagStr fs ''watch-state-dir'' = [] \<or> length (flagStr fs ''watch-state-dir'') > 4096
         \<or> flagInt fs ''watch-interval'' < 30 * second_ns \<or> flagInt fs ''watch-interval'' > 299 * second_ns
         \<or> flagInt fs ''watch-concurrency'' < 1 \<or> flagInt fs ''watch-concurrency'' > 4
         \<or> flagInt fs ''rt'' \<le> 0 \<or> flagInt fs ''rt'' > 15 * second_ns
         \<or> flagInt fs ''tt'' \<le> 0 \<or> flagInt fs ''tt'' > 600 * second_ns)
       ''invalid watch options; interval 30s-299s, concurrency 1-4, request timeout <=15s, cycle timeout <=10m''
       (Inr (zeroConfig\<lparr>cfMode := ModeWatch, cfWatchFile := flagStr fs ''watch-file'', cfWatchStateDir := flagStr fs ''watch-state-dir'',
          cfWatchInterval := flagInt fs ''watch-interval'', cfWatchConcurrency := flagInt fs ''watch-concurrency'',
          cfServicesFile := flagStr fs ''services'', cfSitesFile := flagStr fs ''s'', cfRequestTimeout := flagInt fs ''rt'',
          cfTotalTimeout := flagInt fs ''tt'', cfWorkers := 4, cfMaxIdleConns := 32, cfMaxIdleConnsPerHost := 4,
          cfRateLimitPerHost := second_ns, cfMaxRetries := 0\<rparr>))"

definition commonAllowed :: "string list" where
  "commonAllowed = [''services'', ''rt'', ''tt'', ''o'', ''of'', ''rf'', ''ai'', ''ai-config'']"

text \<open>The check of one provider mode: its flags, no positional argument, positive timeouts.\<close>

definition modeCheck :: "flagState \<Rightarrow> string list \<Rightarrow> string list \<Rightarrow> string \<Rightarrow> string \<Rightarrow> string + unit" where
  "modeCheck fs left allowed message timeouts =
     failIf (invalidFlags allowed fs \<noteq> [] \<or> left \<noteq> []) message
     (failIf (flagInt fs ''rt'' \<le> 0 \<or> flagInt fs ''tt'' \<le> 0) timeouts (Inr ()))"

definition passwordCheck :: "flagState \<Rightarrow> string list \<Rightarrow> string + unit" where
  "passwordCheck fs left =
     failIf (given fs ''password'' \<and> given fs ''password-prompt'' \<or> given fs ''password-prompt'' \<and> \<not> flagBool fs ''password-prompt'')
       ''choose exactly one of -password or -password-prompt''
     (failIf (given fs ''password'' \<and> SecretEmpty (fsStore fs) (fsSecret fs)) ''password input must not be empty''
     (modeCheck fs left ([''password'', ''password-prompt'', ''password-backend'', ''password-db''] @ commonAllowed)
        ''password mode accepts one input and only backend, database, services, timeout, output and report options''
        ''password lookup timeouts must be positive''))"

definition emailCheck :: "flagState \<Rightarrow> string list \<Rightarrow> string + unit" where
  "emailCheck fs left =
     (let bad = invalidFlags (''email'' # commonAllowed) fs in
      failIf (bad \<noteq> []) (''-'' @ last bad @ '' is a website option and cannot be combined with -email'')
      (failIf (left \<noteq> []) ''-email accepts one address; unexpected positional arguments''
      (failIf (flagInt fs ''rt'' \<le> 0 \<or> flagInt fs ''tt'' \<le> 0) ''email lookup timeouts must be positive'' (Inr ()))))"

definition selectedPassword :: "flagState \<Rightarrow> bool" where
  "selectedPassword fs \<longleftrightarrow> given fs ''password'' \<or> given fs ''password-prompt''"

definition checkBackend :: "flagState \<Rightarrow> string + unit" where
  "checkBackend fs =
     (let used = given fs ''password-backend''; db = given fs ''password-db''; backend = flagStr fs ''password-backend'' in
      failIf (\<not> selectedPassword fs \<and> (used \<or> db)) ''password backend options require password mode''
      (failIf (selectedPassword fs \<and> backend \<noteq> PasswordBackendAPI \<and> backend \<noteq> PasswordBackendLocal) ''password backend must be api or local''
      (failIf (selectedPassword fs \<and> db \<and> (backend \<noteq> PasswordBackendLocal \<or> flagStr fs ''password-db'' = []))
         ''password database requires explicit local mode and a nonempty path'' (Inr ()))))"

definition checkMode :: "flagState \<Rightarrow> string list \<Rightarrow> string + unit" where
  "checkMode fs left =
     (if selectedPassword fs then passwordCheck fs left
      else if given fs ''bitcoin-tx'' then
        modeCheck fs left (''bitcoin-tx'' # commonAllowed) ''Bitcoin transaction mode accepts one TXID and only services, timeout, output and report options''
          ''Bitcoin lookup timeouts must be positive''
      else if given fs ''bitcoin'' then
        modeCheck fs left (''bitcoin'' # commonAllowed) ''Bitcoin mode accepts one address and only services, timeout, output and report options''
          ''Bitcoin lookup timeouts must be positive''
      else if given fs ''ip'' then
        modeCheck fs left (''ip'' # commonAllowed) ''IP mode accepts one address and only services, timeout, output and report options''
          ''IP lookup timeouts must be positive''
      else if given fs ''domain'' then
        modeCheck fs left (''domain'' # commonAllowed) ''domain mode accepts one hostname and only services, timeout, output and report options''
          ''domain lookup timeouts must be positive''
      else if given fs ''email'' then emailCheck fs left
      else failIf (given fs ''services'') ''-services is only used with -email, -domain, -ip, -bitcoin, -bitcoin-tx or password mode'' (Inr ()))"

definition usageText :: string where
  "usageText = ''usage: agentsearch -u TARGET OR -f FILE OR -email ADDRESS OR -domain HOSTNAME OR -ip ADDRESS OR -bitcoin ADDRESS OR -bitcoin-tx TXID OR -password VALUE OR -password-prompt''"

definition checkSelected :: "flagState \<Rightarrow> string + unit" where
  "checkSelected fs =
     failIf (\<not> given fs ''email'' \<and> \<not> given fs ''domain'' \<and> \<not> given fs ''ip'' \<and> \<not> given fs ''bitcoin'' \<and> \<not> given fs ''bitcoin-tx''
         \<and> \<not> selectedPassword fs \<and> flagStr fs ''u'' = [] \<and> flagStr fs ''f'' = []) usageText (Inr ())"

section \<open>The configuration\<close>

definition baseConfig :: "flagState \<Rightarrow> AppConfig" where
  "baseConfig fs = zeroConfig\<lparr>cfAI := flagBool fs ''ai'', cfAIConfig := flagStr fs ''ai-config'', cfSitesFile := flagStr fs ''s'',
     cfProxiesFile := flagStr fs ''p'', cfOutputDir := flagStr fs ''o'', cfWorkers := flagInt fs ''w'', cfRequestTimeout := flagInt fs ''rt'',
     cfTotalTimeout := flagInt fs ''tt'', cfMaxIdleConns := flagInt fs ''mc'', cfMaxIdleConnsPerHost := flagInt fs ''mch'',
     cfRateLimitPerHost := flagInt fs ''rl'', cfUserAgentFile := flagStr fs ''ua'', cfDeepSearch := flagBool fs ''d'',
     cfUseUTLS := flagBool fs ''utls'', cfMaxRetries := flagInt fs ''retries''\<rparr>"

definition withPassword :: "flagState \<Rightarrow> AppConfig \<Rightarrow> AppConfig" where
  "withPassword fs cfg =
     (if selectedPassword fs then
        (let cfg = cfg\<lparr>cfMode := ModePassword, cfPassword := fsSecret fs, cfPasswordPrompt := flagBool fs ''password-prompt'',
           cfPasswordBackend := flagStr fs ''password-backend'', cfPasswordDatabasePath := flagStr fs ''password-db''\<rparr>
         in if given fs ''services'' then cfg\<lparr>cfServicesFile := flagStr fs ''services''\<rparr> else cfg)
      else cfg)"

text \<open>One provider mode: its target is read, and takes the place of the targets.\<close>

definition withTarget :: "flagState \<Rightarrow> string \<Rightarrow> string \<Rightarrow> (string \<Rightarrow> string + Target) \<Rightarrow> AppConfig \<Rightarrow> string + AppConfig" where
  "withTarget fs n mode read cfg =
     (if given fs n then
        andThen (read (flagStr fs n)) (\<lambda>t.
          Inr (cfg\<lparr>cfMode := mode, cfServicesFile := flagStr fs ''services'', cfTargets := [tValue t]\<rparr>))
      else Inr cfg)"

definition readBitcoin :: "targetParsers \<Rightarrow> string \<Rightarrow> string + Target" where
  "readBitcoin tp v = (case NewBitcoinTarget (tpLower tp) (tpUpper tp) v of Inl e \<Rightarrow> Inl (addrMessage e) | Inr t \<Rightarrow> Inr t)"

definition selectTarget :: "cliEnv \<Rightarrow> flagState \<Rightarrow> AppConfig \<Rightarrow> string + AppConfig" where
  "selectTarget ce fs cfg =
     (let tp = ceParsers ce in
      andThen (withTarget fs ''bitcoin-tx'' ModeBitcoinTransaction (NewBitcoinTransactionTarget (tpLower tp)) (withPassword fs cfg)) (\<lambda>cfg.
      andThen (withTarget fs ''bitcoin'' ModeBitcoin (readBitcoin tp) cfg) (\<lambda>cfg.
      andThen (withTarget fs ''ip'' ModeIP (NewIPTarget (tpAddr tp)) cfg) (\<lambda>cfg.
      andThen (withTarget fs ''domain'' ModeDomain (NewDomainTarget (tpLower tp) (\<lambda>v. tpAddr tp v \<noteq> None)) cfg) (\<lambda>cfg.
      withTarget fs ''email'' ModeEmail (NewEmailTarget tp) cfg)))))"

definition targetLines :: "string \<Rightarrow> string list" where
  "targetLines raw = filter (\<lambda>line. line \<noteq> [] \<and> \<not> hasPrefix line ''#'') (map trimSpace (splitOn (CHR 0x0A) raw))"

definition addTargets :: "cliEnv \<Rightarrow> flagState \<Rightarrow> AppConfig \<Rightarrow> string + AppConfig" where
  "addTargets ce fs cfg =
     (let cfg = (if flagStr fs ''u'' \<noteq> [] then cfg\<lparr>cfTargets := cfTargets cfg @ [flagStr fs ''u'']\<rparr> else cfg) in
      if flagStr fs ''f'' \<noteq> [] then
        (case ceFile ce (flagStr fs ''f'') of None \<Rightarrow> Inl ''read targets file''
         | Some raw \<Rightarrow> Inr (cfg\<lparr>cfTargets := cfTargets cfg @ targetLines raw\<rparr>))
      else Inr cfg)"

definition formatList :: "(string \<Rightarrow> string) \<Rightarrow> string \<Rightarrow> string list" where
  "formatList uni s = filter (\<lambda>v. v \<noteq> []) (map (\<lambda>v. trimSpace (toLower uni v)) (splitOn (CHR '','') s))"

definition validFormat :: "string \<Rightarrow> bool" where
  "validFormat v \<longleftrightarrow> v \<in> set [''json'', ''csv'', ''txt'', ''html'', ''pdf'', ''docx'']"

definition withFormats :: "cliEnv \<Rightarrow> flagState \<Rightarrow> AppConfig \<Rightarrow> AppConfig" where
  "withFormats ce fs cfg = cfg\<lparr>cfOutputFormats := formatList (tpLower (ceParsers ce)) (flagStr fs ''of''),
     cfReportFormats := formatList (tpLower (ceParsers ce)) (flagStr fs ''rf'')\<rparr>"

definition withLocalPath :: "cliEnv \<Rightarrow> AppConfig \<Rightarrow> string + AppConfig" where
  "withLocalPath ce cfg =
     (if cfMode cfg = ModePassword \<and> cfPasswordBackend cfg = PasswordBackendLocal then
        andThen (LocalPasswordPath ce cfg) (\<lambda>path. Inr (cfg\<lparr>cfPasswordDatabasePath := path\<rparr>))
      else Inr cfg)"

definition checkFormats :: "AppConfig \<Rightarrow> string + AppConfig" where
  "checkFormats cfg =
     failIf (list_ex (\<lambda>v. \<not> validFormat v) (cfOutputFormats cfg)) ''invalid output format; choose json,csv,txt,html,pdf,docx''
     (failIf (list_ex (\<lambda>v. v \<noteq> ''cli'' \<and> \<not> validFormat v) (cfReportFormats cfg)) ''invalid report format''
     (failIf (cfAI cfg \<and> cfOutputFormats cfg = [] \<and> cfReportFormats cfg = []) ''AI analysis requires at least one report/output format''
     (Inr cfg)))"

definition searchConfig :: "cliEnv \<Rightarrow> flagState \<Rightarrow> string list \<Rightarrow> string + AppConfig" where
  "searchConfig ce fs left =
     andThen (checkBackend fs) (\<lambda>_.
     andThen (checkMode fs left) (\<lambda>_.
     andThen (checkSelected fs) (\<lambda>_.
     andThen (selectTarget ce fs (baseConfig fs)) (\<lambda>cfg.
     andThen (addTargets ce fs cfg) (\<lambda>cfg.
     andThen (withLocalPath ce (withFormats ce fs cfg)) checkFormats)))))"

definition flagConfig :: "cliEnv \<Rightarrow> flagState \<Rightarrow> string list \<Rightarrow> string + AppConfig" where
  "flagConfig ce fs left =
     (let watchUsed = given fs ''watch-file''; watchOptions = list_ex (\<lambda>n. hasPrefix n ''watch-'') (visitFlags cliSpec fs) in
      if watchOptions \<and> \<not> watchUsed then Inl ''watch options require -watch-file''
      else if watchUsed then watchConfig fs left
      else searchConfig ce fs left)"

text \<open>\<open>ref\<close> is the buffer that a password gets; it is destroyed with every error.\<close>

definition ParseArgs :: "cliEnv \<Rightarrow> secretStore \<Rightarrow> nat \<Rightarrow> string list \<Rightarrow> (cliError + AppConfig) \<times> secretStore" where
  "ParseArgs ce st ref args =
     (case parseFlags (ceDuration ce) cliSpec ref args (initialFlags cliSpec st) of
        (Inl FlagHelp, fs) \<Rightarrow> (Inl CliHelp, Destroy (fsStore fs) (fsSecret fs))
      | (Inl FlagInvalid, fs) \<Rightarrow>
          (Inl (if list_ex sensitiveArg args then CliError ''invalid password lookup arguments; use -h for options'' else CliFlag),
           Destroy (fsStore fs) (fsSecret fs))
      | (Inr left, fs) \<Rightarrow>
          (case flagConfig ce fs left of
             Inl e \<Rightarrow> (Inl (CliError e), Destroy (fsStore fs) (fsSecret fs))
           | Inr cfg \<Rightarrow> (Inr cfg, fsStore fs)))"

section \<open>The server\<close>

record ServerConfig =
  scfAIConfig :: string
  scfShutdownTimeout :: int
  scfListen :: string
  scfTokenEnv :: string
  scfReadTimeout :: int
  scfWriteTimeout :: int
  scfIdleTimeout :: int
  scfRequestTimeout :: int
  scfMaxConcurrent :: int
  scfEngine :: AppConfig

definition DefaultServerConfig :: ServerConfig where
  "DefaultServerConfig = \<lparr>scfAIConfig = [], scfShutdownTimeout = 10 * second_ns, scfListen = ''127.0.0.1:8080'', scfTokenEnv = ''AGENTSEARCH_API_TOKEN'',
     scfReadTimeout = 15 * second_ns, scfWriteTimeout = 75 * second_ns, scfIdleTimeout = 60 * second_ns, scfRequestTimeout = 60 * second_ns,
     scfMaxConcurrent = 8,
     scfEngine = zeroConfig\<lparr>cfSitesFile := ''configs/sites.yaml'', cfWorkers := 10, cfRequestTimeout := 15 * second_ns, cfMaxIdleConns := 128,
       cfMaxIdleConnsPerHost := 16, cfRateLimitPerHost := 500000000, cfMaxRetries := 2, cfPasswordBackend := PasswordBackendAPI\<rparr>\<rparr>"

text \<open>The port of \<open>net.SplitHostPort\<close>.\<close>

definition hostPortOK :: "string \<Rightarrow> string \<Rightarrow> bool" where
  "hostPortOK host port \<longleftrightarrow>
     (if host \<noteq> [] \<and> hd host = CHR ''['' then
        2 \<le> length host \<and> last host = CHR '']'' \<and> CHR '']'' \<notin> set (butlast host) \<and> CHR ''['' \<notin> set (tl host)
      else CHR '':'' \<notin> set host \<and> CHR ''['' \<notin> set host \<and> CHR '']'' \<notin> set host)
     \<and> CHR ''['' \<notin> set port \<and> CHR '']'' \<notin> set port"

definition splitPort :: "string \<Rightarrow> string option" where
  "splitPort s =
     (let port = rev (takeWhile (\<lambda>c. c \<noteq> CHR '':'') (rev s)); host = take (length s - length port - 1) s
      in if CHR '':'' \<notin> set s \<or> \<not> hostPortOK host port then None else Some port)"

definition portOK :: "string \<Rightarrow> bool" where
  "portOK listen \<longleftrightarrow> (case splitPort listen of None \<Rightarrow> False | Some port \<Rightarrow> (case atoi port of None \<Rightarrow> False | Some n \<Rightarrow> 0 \<le> n \<and> n \<le> 65535))"

definition ValidateServer :: "ServerConfig \<Rightarrow> string + unit" where
  "ValidateServer c =
     (let e = scfEngine c in
      failIf (\<not> portOK (scfListen c) \<or> \<not> envName (scfTokenEnv c)) ''invalid listen address or token environment name''
      (failIf (scfShutdownTimeout c \<le> 0 \<or> scfReadTimeout c \<le> 0 \<or> scfWriteTimeout c \<le> scfRequestTimeout c \<or> scfIdleTimeout c \<le> 0
          \<or> scfRequestTimeout c \<le> 0 \<or> scfMaxConcurrent c < 1 \<or> scfMaxConcurrent c > 128) ''invalid HTTP timeout or concurrency settings''
      (failIf (cfWorkers e < 1 \<or> cfWorkers e > 256 \<or> cfRequestTimeout e \<le> 0 \<or> cfRateLimitPerHost e < 0 \<or> cfMaxRetries e < 0)
          ''invalid provider resource settings''
      (failIf (cfPasswordBackend e \<noteq> PasswordBackendAPI \<and> cfPasswordBackend e \<noteq> PasswordBackendLocal) ''password backend must be api or local''
      (failIf (cfPasswordBackend e = PasswordBackendAPI \<and> cfPasswordDatabasePath e \<noteq> []) ''database path requires local password backend''
      (Inr ()))))))"

text \<open>The flags of \<open>agentsearch-server\<close>, in the order of their names.\<close>

definition serverSpec :: flagSpec where
  "serverSpec =
     (let c = DefaultServerConfig; e = scfEngine c in
     [(''ai-config'', FlagString, ValString []),
      (''idle-timeout'', FlagDuration, ValDuration (scfIdleTimeout c)),
      (''listen'', FlagString, ValString (scfListen c)),
      (''max-concurrent'', FlagInt, ValInt (scfMaxConcurrent c)),
      (''p'', FlagString, ValString []),
      (''password-backend'', FlagString, ValString PasswordBackendAPI),
      (''password-db'', FlagString, ValString []),
      (''read-timeout'', FlagDuration, ValDuration (scfReadTimeout c)),
      (''request-timeout'', FlagDuration, ValDuration (scfRequestTimeout c)),
      (''retries'', FlagInt, ValInt (cfMaxRetries e)),
      (''rl'', FlagDuration, ValDuration (cfRateLimitPerHost e)),
      (''rt'', FlagDuration, ValDuration (cfRequestTimeout e)),
      (''s'', FlagString, ValString (cfSitesFile e)),
      (''services'', FlagString, ValString []),
      (''shutdown-timeout'', FlagDuration, ValDuration (scfShutdownTimeout c)),
      (''token-env'', FlagString, ValString (scfTokenEnv c)),
      (''ua'', FlagString, ValString []),
      (''utls'', FlagBool, ValBool False),
      (''w'', FlagInt, ValInt (cfWorkers e)),
      (''write-timeout'', FlagDuration, ValDuration (scfWriteTimeout c))])"

definition serverConfig :: "flagState \<Rightarrow> ServerConfig" where
  "serverConfig fs = \<lparr>scfAIConfig = flagStr fs ''ai-config'', scfShutdownTimeout = flagInt fs ''shutdown-timeout'', scfListen = flagStr fs ''listen'',
     scfTokenEnv = flagStr fs ''token-env'', scfReadTimeout = flagInt fs ''read-timeout'', scfWriteTimeout = flagInt fs ''write-timeout'',
     scfIdleTimeout = flagInt fs ''idle-timeout'', scfRequestTimeout = flagInt fs ''request-timeout'', scfMaxConcurrent = flagInt fs ''max-concurrent'',
     scfEngine = (scfEngine DefaultServerConfig)\<lparr>cfSitesFile := flagStr fs ''s'', cfServicesFile := flagStr fs ''services'',
       cfPasswordBackend := flagStr fs ''password-backend'', cfPasswordDatabasePath := flagStr fs ''password-db'', cfWorkers := flagInt fs ''w'',
       cfProxiesFile := flagStr fs ''p'', cfUserAgentFile := flagStr fs ''ua'', cfRateLimitPerHost := flagInt fs ''rl'',
       cfRequestTimeout := flagInt fs ''rt'', cfMaxRetries := flagInt fs ''retries'', cfUseUTLS := flagBool fs ''utls''\<rparr>\<rparr>"

definition ParseServerArgs :: "cliEnv \<Rightarrow> string list \<Rightarrow> cliError + ServerConfig" where
  "ParseServerArgs ce args =
     (case fst (parseFlags (ceDuration ce) serverSpec 0 args (initialFlags serverSpec (\<lambda>_. []))) of
        Inl FlagHelp \<Rightarrow> Inl CliHelp
      | Inl FlagInvalid \<Rightarrow> Inl (CliError ''invalid server arguments; use -h'')
      | Inr left \<Rightarrow>
          if left \<noteq> [] then Inl (CliError ''unexpected server arguments'')
          else
            let cfg = serverConfig (snd (parseFlags (ceDuration ce) serverSpec 0 args (initialFlags serverSpec (\<lambda>_. [])))) in
            (case ValidateServer cfg of Inl e \<Rightarrow> Inl (CliError e)
             | Inr _ \<Rightarrow>
                 if cfPasswordBackend (scfEngine cfg) = PasswordBackendLocal then
                   (case LocalPasswordPath ce (scfEngine cfg) of Inl e \<Rightarrow> Inl (CliError e)
                    | Inr path \<Rightarrow> Inr (cfg\<lparr>scfEngine := (scfEngine cfg)\<lparr>cfPasswordDatabasePath := path\<rparr>\<rparr>))
                 else Inr cfg))"

end
