(* ===== verification/CliConfigInv.thy ===== *)
theory CliConfigInv
  imports CliConfig
begin

text \<open>What a command line that is accepted means: exactly one mode, to which every given flag belongs, and nothing of the others.\<close>

section \<open>Given flags\<close>








section \<open>Accepted settings\<close>












section \<open>The choice of a mode\<close>






section \<open>What is accepted\<close>











section \<open>One mode for all flags\<close>


















section \<open>Passwords among the arguments\<close>






section \<open>Properties\<close>





end
