(* ===== verification/Sha1.thy ===== *)
theory Sha1
  imports Sha256
begin

text \<open>SHA-1 (Go's \<open>crypto/sha1\<close>, FIPS 180-4) as an executable function on buffers; padding and blocks are those of SHA-256.\<close>

type_synonym sha1_state = "u32 \<times> u32 \<times> u32 \<times> u32 \<times> u32"

definition sha1Init :: sha1_state where
  "sha1Init = (0x67452301, 0xEFCDAB89, 0x98BADCFE, 0x10325476, 0xC3D2E1F0)"

text \<open>The message schedule, newest word first.\<close>

fun extendSchedule1 :: "nat \<Rightarrow> u32 list \<Rightarrow> u32 list" where
  "extendSchedule1 0 w = w"
| "extendSchedule1 (Suc k) w = extendSchedule1 k (word_rotl 1 (w ! 2 XOR w ! 7 XOR w ! 13 XOR w ! 15) # w)"

definition sha1Mix :: "nat \<Rightarrow> u32 \<Rightarrow> u32 \<Rightarrow> u32 \<Rightarrow> u32" where
  "sha1Mix t b c d =
     (if t < 20 then chooseBits b c d + 0x5A827999
      else if t < 40 then (b XOR c XOR d) + 0x6ED9EBA1
      else if t < 60 then majorityBits b c d + 0x8F1BBCDC
      else (b XOR c XOR d) + 0xCA62C1D6)"

fun sha1Round :: "nat \<times> u32 \<Rightarrow> sha1_state \<Rightarrow> sha1_state" where
  "sha1Round (t, w) (a, b, c, d, e) = (word_rotl 5 a + sha1Mix t b c d + e + w, a, word_rotl 30 b, c, d)"

fun addState1 :: "sha1_state \<Rightarrow> sha1_state \<Rightarrow> sha1_state" where
  "addState1 (a, b, c, d, e) (a', b', c', d', e') = (a + a', b + b', c + c', d + d', e + e')"

definition sha1Block :: "bytes \<Rightarrow> sha1_state \<Rightarrow> sha1_state" where
  "sha1Block blk s =
     (let w = rev (extendSchedule1 64 (rev (map getBE (blocks 16 4 blk))))
      in addState1 s (fold sha1Round (zip [0..<80] w) s))"

definition sha1 :: "bytes \<Rightarrow> bytes" where
  "sha1 m =
     (let p = sha256Pad m in
      case fold sha1Block (blocks (length p div 64) 64 p) sha1Init of
        (a, b, c, d, e) \<Rightarrow> concat (map (putBE 4) [a, b, c, d, e]))"

lemma length_sha1 [simp]: "length (sha1 m) = 20"
  by (simp add: sha1_def Let_def split: prod.split)

end
