(* ===== verification/ApiSource.thy ===== *)
theory ApiSource
  imports HttpExchange Sources HttpRequest
begin

text \<open>
  What the sources over a web service share (\<open>src/internal/sources/ipinfo\<close>, \<open>securitytrails\<close>, \<open>bitcoinlabels\<close>,
  \<open>hibp\<close>): the world of one lookup, the shape of the scripts, and two contracts as locales, which the sources interpret.
  A request is its URL and its headers.
\<close>

section \<open>The world of a lookup\<close>

type_synonym sentRequest = "string \<times> (string \<times> string) list"

record apiEnv =
  hvBase :: string
  hvNet :: "sentRequest \<Rightarrow> exchange"
  hvCtx :: "nat \<Rightarrow> goError option"            \<comment> \<open>the context at its checks\<close>
  hvTimedOut :: "goError \<Rightarrow> bool"
  hvParseTime :: "string \<Rightarrow> int option"       \<comment> \<open>\<open>http.ParseTime\<close>, in nanoseconds\<close>
  hvNow :: int

definition apiAgent :: string where
  "apiAgent = ''AgentSearch (https://github.com/johan-larp/AgentSearch)''"

text \<open>A script that emits one row; the error of the consumer comes before its own.\<close>

definition oneRow :: "(Result \<Rightarrow> Result) \<Rightarrow> Result \<times> goError option \<Rightarrow> script" where
  "oneRow out p = EmitRow (out (fst p)) (\<lambda>answer. Return (case answer of Some e \<Rightarrow> Some e | None \<Rightarrow> snd p))"

section \<open>Rows that may be emitted\<close>

inductive emits :: "script \<Rightarrow> Result \<Rightarrow> bool" where
  emits_row: "emits (EmitRow r k) r"
| emits_later: "emits (k a) x \<Longrightarrow> emits (EmitRow r k) x"
| emits_secret: "emits (k w) x \<Longrightarrow> emits (ConsumeSecret k) x"

inductive_simps emits_simps [simp]: "emits (Return e) x" "emits (EmitRow r k) x" "emits (ConsumeSecret k) x"

lemma emits_oneRow [simp]: "emits (oneRow out p) x \<longleftrightarrow> x = out (fst p)"
  by (auto simp: oneRow_def)

lemma keyed_row:
  assumes "emits (if nilEmit then Return e else oneRow (\<lambda>r. Normalized uni (RedactedResult uni [key, toLower uni key] r)) p) x"
  shows "\<exists>ss y. key \<in> set ss \<and> x = Normalized uni (RedactedResult uni ss y)"
  using assms by (cases nilEmit) (auto intro!: exI [of _ "[key, toLower uni key]"])

text \<open>A source that holds a key passes every row through the redaction of the key.\<close>

locale keyed_source =
  fixes search :: "string \<Rightarrow> script" and uni :: "string \<Rightarrow> string" and key :: string
  assumes redacted: "emits (search target) r \<Longrightarrow> \<exists>ss x. key \<in> set ss \<and> r = Normalized uni (RedactedResult uni ss x)"
begin

lemma key_hidden:
  assumes "emits (search target) r" and "key \<noteq> []" and "set key \<inter> set Redacted = {}" and "t \<in> set (resultTexts r)"
  shows "\<not> containsStr t key"
  using redacted [OF assms(1)] clean_texts [OF assms(2,3)] assms(4) by blast

end

section \<open>One row and one error\<close>

lemma RedactedResult_status [simp]: "rStatus (RedactedResult uni ss r) = rStatus r"
  by (rule Redacted_sel)

lemma stamp_status [simp]: "rStatus (stamp uni st t s r) = rStatus r"
  by (simp add: stamp_def Let_def)

text \<open>The outcome of a lookup is an error exactly when its row says so.\<close>

locale single_row =
  fixes outcome :: "'a \<Rightarrow> Result \<times> goError option"
  assumes failed: "snd (outcome x) \<noteq> None \<longleftrightarrow> rStatus (fst (outcome x)) = StatusError"
    and status: "rStatus (fst (outcome x)) \<noteq> []"
begin

text \<open>Run by the dispatcher, it delivers one row, and without a consumer's error it fails exactly when the row does.\<close>

lemma run_one:
  assumes "runScript uni emit t s (oneRow out (outcome x)) p = (e, p')" and "pgConsumerErr p = None"
    and out: "\<And>r. rStatus r \<noteq> [] \<Longrightarrow> rStatus (out r) = rStatus r"
  shows "length (pgRows p') = Suc (length (pgRows p)) \<and> take (length (pgRows p)) (pgRows p') = pgRows p
    \<and> (if pgConsumerErr p' = None then e \<noteq> None \<longleftrightarrow> rStatus (last (pgRows p')) = StatusError else e = pgConsumerErr p')"
proof -
  let ?row = "stamp uni (pgStore p) t s (out (fst (outcome x)))"
  have row: "rStatus (Normalized uni ?row) = rStatus (fst (outcome x))"
    using status [of x] out [OF status] by (simp add: Normalized_status)
  show ?thesis using assms(1,2) row failed [of x]
    by (auto simp: oneRow_def deliver_def Let_def)
qed

end

end
