(* ===== verification/Hibp.thy ===== *)
theory Hibp
  imports Sha1 ApiSource PwReader
begin

text \<open>
  The Have I Been Pwned sources (\<open>src/internal/sources/hibp\<close>): the errors, the two clients, the range protocol for
  passwords, the offline source over a database snapshot, and the breaches of an e-mail address.  The decoder of
  \<open>encoding/json\<close> is an argument.  Durations are nanoseconds.
\<close>

section \<open>Errors\<close>

record hibpError =
  heKind :: string
  heStatus :: int
  heRetry :: int

definition hibpKind :: "string \<Rightarrow> hibpError" where
  "hibpKind k = \<lparr>heKind = k, heStatus = 0, heRetry = 0\<rparr>"

definition hibpText :: "string \<Rightarrow> string" where
  "hibpText k =
     (if k = ''missing_api_key'' then ''HIBP email lookup requires an API key from the configured environment variable''
      else if k = ''unauthorized'' then ''HIBP denied authorization for this request''
      else if k = ''forbidden'' then ''HIBP denied access to this request''
      else if k = ''rate_limited'' then ''HIBP request was rate limited''
      else if k = ''bad_request'' then ''HIBP rejected the request; check the input''
      else if k = ''service_unavailable'' then ''HIBP service is unavailable''
      else if k = ''timeout'' then ''HIBP request timed out''
      else if k = ''network_failure'' then ''HIBP request failed due to a network or response-read error''
      else if k = ''cancelled'' then ''HIBP request was cancelled''
      else if k = ''invalid_response'' then ''HIBP returned an invalid or oversized response''
      else ''HIBP returned an unexpected HTTP status'')"

text \<open>The error as the callers see it through \<open>Unwrap\<close>.\<close>

definition hibpGo :: "hibpError \<Rightarrow> goError" where
  "hibpGo e = \<lparr>eText = hibpText (heKind e), eCanceled = (heKind e = ''cancelled''), eDeadline = (heKind e = ''timeout'')\<rparr>"

definition hibpRequestError :: "(goError \<Rightarrow> bool) \<Rightarrow> goError option \<Rightarrow> goError \<Rightarrow> hibpError" where
  "hibpRequestError timedOut ctxErr err =
     (if isCanceled ctxErr \<or> eCanceled err then hibpKind ''cancelled''
      else if isDeadline ctxErr \<or> eDeadline err \<or> timedOut err then hibpKind ''timeout''
      else hibpKind ''network_failure'')"

definition hibpRetryAfter :: "(string \<Rightarrow> int option) \<Rightarrow> int \<Rightarrow> string \<Rightarrow> int" where
  "hibpRetryAfter parseTime now value =
     (case atoi value of
        Some seconds \<Rightarrow> if 0 \<le> seconds \<and> seconds \<le> (2 ^ 63 - 1) div 1000000000 then seconds * 1000000000 else 0
      | None \<Rightarrow> (case parseTime value of Some t \<Rightarrow> if t > now then t - now else 0 | None \<Rightarrow> 0))"

definition hibpStatusError :: "(string \<Rightarrow> int option) \<Rightarrow> int \<Rightarrow> int \<Rightarrow> string \<Rightarrow> hibpError" where
  "hibpStatusError parseTime now code retryAfter =
     \<lparr>heKind = (if code = 400 then ''bad_request'' else if code = 401 then ''unauthorized'' else if code = 403 then ''forbidden''
         else if code = 429 then ''rate_limited'' else if code \<ge> 500 then ''service_unavailable'' else ''unexpected_status''),
      heStatus = code, heRetry = (if code = 429 \<or> code = 503 then hibpRetryAfter parseTime now retryAfter else 0)\<rparr>"

definition hibpMetadata :: "hibpError \<Rightarrow> (string \<times> string) list" where
  "hibpMetadata e = [(''error_kind'', heKind e)]
     @ (if heStatus e \<noteq> 0 then [(''http_status'', itoa (heStatus e))] else [])
     @ (if heRetry e > 0 then [(''retry_after_seconds'', itoa ((heRetry e - 1) div 1000000000 + 1))] else [])"

section \<open>Clients\<close>

text \<open>One request: the reply, and what was sent.\<close>

definition hibpGet :: "apiEnv \<Rightarrow> string \<Rightarrow> (string \<times> string) list \<Rightarrow> (hibpError + httpReply) \<times> sentRequest list" where
  "hibpGet hv path headers =
     (case hvCtx hv 0 of
        Some e \<Rightarrow> (Inl (hibpRequestError (hvTimedOut hv) (Some e) e), [])
      | None \<Rightarrow>
          let req = (hvBase hv @ path, headers @ [(''User-Agent'', apiAgent)]) in
          (case hvNet hv req of
             BadRequest \<Rightarrow> (Inl (hibpKind ''bad_request''), [])
           | NoReply e \<Rightarrow> (Inl (hibpRequestError (hvTimedOut hv) (hvCtx hv 1) e), [req])
           | Reply r \<Rightarrow> (Inr r, [req])))"

definition hibpRead :: "apiEnv \<Rightarrow> nat \<Rightarrow> httpReply \<Rightarrow> hibpError + string" where
  "hibpRead hv limit r =
     (case readBody (limit + 1) r of
        Inl e \<Rightarrow> Inl (hibpRequestError (hvTimedOut hv) (hvCtx hv 1) e)
      | Inr raw \<Rightarrow> if length raw > limit then Inl ((hibpKind ''invalid_response'')\<lparr>heStatus := rpStatus r\<rparr>) else Inr raw)"

section \<open>Password ranges\<close>

definition hashHex :: "string \<Rightarrow> string" where
  "hashHex password = map upperC (encodeToString (sha1 (bytesOf password)))"

definition passwordSHA1 :: "string \<Rightarrow> string \<times> string" where
  "passwordSHA1 password = (take 5 (hashHex password), drop 5 (hashHex password))"

definition validHex :: "string \<Rightarrow> nat \<Rightarrow> bool" where
  "validHex v n \<longleftrightarrow> length v = n \<and> list_all hexChar v"

text \<open>
  \<open>bufio.Scanner\<close> over a buffer of 128 bytes: the lines without their line ends; a line of 128 bytes fails the scan.
  All failures of the parser are the same error, so that the point of the failure does not matter.
\<close>

definition dropCR :: "string \<Rightarrow> string" where
  "dropCR l = (if l \<noteq> [] \<and> last l = CHR 0x0D then butlast l else l)"

definition scanLines :: "string \<Rightarrow> string list option" where
  "scanLines raw =
     (let ls = splitOn (CHR 0x0A) raw in
      if list_ex (\<lambda>l. length l \<ge> 128) ls then None else Some (map dropCR ls))"

text \<open>One line, cut at its first colon.\<close>

definition rangeLine :: "string \<Rightarrow> (string \<times> nat) option" where
  "rangeLine line =
     (let suffix = takeWhile (\<lambda>c. c \<noteq> CHR '':'') line; rest = dropWhile (\<lambda>c. c \<noteq> CHR '':'') line in
      if rest = [] \<or> \<not> validHex suffix 35 then None
      else case parseUint64 (tl rest) of None \<Rightarrow> None | Some n \<Rightarrow> Some (map upperC suffix, n))"

fun rangeLoop :: "string \<Rightarrow> string list \<Rightarrow> string list \<Rightarrow> nat \<Rightarrow> nat option" where
  "rangeLoop want [] seen n = (if seen = [] then None else Some n)"
| "rangeLoop want (line # ls) seen n =
     (if line = [] then rangeLoop want ls seen n
      else case rangeLine line of None \<Rightarrow> None
        | Some (suffix, m) \<Rightarrow>
            if suffix \<in> set seen then None
            else rangeLoop want ls (suffix # seen) (if suffix = want then m else n))"

definition matchRange :: "string \<Rightarrow> string \<Rightarrow> hibpError + nat" where
  "matchRange raw localSuffix =
     (let bad = Inl ((hibpKind ''invalid_response'')\<lparr>heStatus := 200\<rparr>) in
      if \<not> validHex localSuffix 35 then bad
      else case scanLines raw of None \<Rightarrow> bad
        | Some ls \<Rightarrow> (case rangeLoop (map upperC localSuffix) ls [] 0 of None \<Rightarrow> bad | Some n \<Rightarrow> Inr n))"

definition maxRangeResponse :: nat where "maxRangeResponse = 2097152"

definition getRange :: "apiEnv \<Rightarrow> string \<Rightarrow> (hibpError + httpReply) \<times> sentRequest list" where
  "getRange hv pre =
     (if \<not> validHex pre 5 then (Inl (hibpKind ''bad_request''), [])
      else hibpGet hv (CHR ''/'' # map upperC pre) [(''Accept'', ''text/plain''), (''Add-Padding'', ''true'')])"

definition rangeReply :: "apiEnv \<Rightarrow> string \<Rightarrow> httpReply \<Rightarrow> hibpError + nat" where
  "rangeReply hv suffix r =
     (if rpStatus r \<noteq> 200 then Inl (hibpStatusError (hvParseTime hv) (hvNow hv) (rpStatus r) (rpRetryAfter r))
      else andThen (hibpRead hv maxRangeResponse r) (\<lambda>raw. matchRange raw suffix))"

definition rangeLookup :: "apiEnv \<Rightarrow> string \<Rightarrow> string \<Rightarrow> (hibpError + nat) \<times> sentRequest list" where
  "rangeLookup hv pre suffix =
     (if \<not> validHex suffix 35 then (Inl (hibpKind ''bad_request''), [])
      else let (got, sent) = getRange hv pre in (andThen got (rangeReply hv suffix), sent))"

section \<open>The online password source\<close>

text \<open>An empty secret cannot be consumed.\<close>

definition passwordLookup :: "apiEnv \<Rightarrow> string \<Rightarrow> (hibpError + nat) \<times> sentRequest list" where
  "passwordLookup hv password =
     (if password = [] then (Inl (hibpKind ''bad_request''), [])
      else rangeLookup hv (fst (passwordSHA1 password)) (snd (passwordSHA1 password)))"

definition countMeta :: "nat \<Rightarrow> Result \<Rightarrow> Result" where
  "countMeta n r = setMeta ''occurrences'' (itoa (int n)) (setMeta ''pwned'' (boolText (n > 0)) r)"

definition onlineBase :: Result where
  "onlineBase = emptyResult\<lparr>rSource := ''pwned-passwords'', rSourceType := SourceAPI, rTargetType := TargetPassword, rTarget := Redacted,
     rSiteName := ''Have I Been Pwned / Pwned Passwords'', rURL := ''https://haveibeenpwned.com/Passwords'',
     rMetadata := [(''method'', ''sha1-k-anonymity'')]\<rparr>"

definition onlineRow :: "hibpError + nat \<Rightarrow> Result \<times> goError option" where
  "onlineRow got =
     (case got of
        Inl e \<Rightarrow> (onlineBase\<lparr>rStatus := StatusError, rError := hibpText (heKind e), rMetadata := rMetadata onlineBase @ hibpMetadata e\<rparr>,
            Some (hibpGo e))
      | Inr n \<Rightarrow> (countMeta n (if n > 0 then onlineBase\<lparr>rStatus := StatusFound, rConfidence := 100\<rparr> else onlineBase\<lparr>rStatus := StatusNotFound\<rparr>), None))"

definition SearchPasswordOnline :: "(string \<Rightarrow> string) \<Rightarrow> apiEnv \<Rightarrow> bool \<Rightarrow> script" where
  "SearchPasswordOnline uni hv nilEmit =
     (if nilEmit then Return (Some (plainError ''Pwned Passwords source requires a result consumer''))
      else ConsumeSecret (\<lambda>password.
        oneRow (Normalized uni) (onlineRow (fst (passwordLookup hv password)))))"

section \<open>The offline password source\<close>

record localInfo =
  liDataset :: string
  liAcquired :: string
  liRecovered :: bool

definition localGo :: "go_err \<Rightarrow> goError" where
  "localGo e = \<lparr>eText = ''offline password database: '' @ ErrorKind (Some e),
     eCanceled = (case SafeError e of OwnError _ (Some Canceled) \<Rightarrow> True | _ \<Rightarrow> False),
     eDeadline = (case SafeError e of OwnError _ (Some DeadlineExceeded) \<Rightarrow> True | _ \<Rightarrow> False)\<rparr>"

text \<open>The context is checked before the lookup, twice in it, and after it.\<close>

definition localLookup :: "snapshot \<Rightarrow> ctx \<Rightarrow> string \<Rightarrow> go_err + nat" where
  "localLookup s ctx password =
     (if password = [] then Inl (SafeError (ErrOther ''secret input is empty or already consumed''))
      else case ctx 0 of Some e \<Rightarrow> Inl (SafeError (CtxError e))
      | None \<Rightarrow> (case Lookup s (\<lambda>n. ctx (n + 1)) (sha1 (bytesOf password)) of
          Inl e \<Rightarrow> Inl (SafeError e)
        | Inr m \<Rightarrow> (case ctx 3 of Some e \<Rightarrow> Inl (SafeError (CtxError e)) | None \<Rightarrow> Inr (unat m))))"

definition localBase :: "localInfo \<Rightarrow> Result" where
  "localBase li = emptyResult\<lparr>rSource := ''pwned-passwords-local'', rSourceType := SourceLocal, rTargetType := TargetPassword, rTarget := Redacted,
     rSiteName := ''Have I Been Pwned / Pwned Passwords (local)'', rURL := ''https://haveibeenpwned.com/Passwords'',
     rMetadata := [(''method'', ''sha1-offline''), (''dataset_id'', liDataset li), (''acquired_at'', liAcquired li)]
       @ (if liRecovered li then [(''activation_recovered'', ''true'')] else [])\<rparr>"

definition localRow :: "localInfo \<Rightarrow> go_err + nat \<Rightarrow> Result \<times> goError option" where
  "localRow li got =
     (case got of
        Inl e \<Rightarrow> (setMeta ''error_kind'' (ErrorKind (Some e)) ((localBase li)\<lparr>rStatus := StatusError, rError := eText (localGo e)\<rparr>), Some (localGo e))
      | Inr n \<Rightarrow> (countMeta n ((localBase li)\<lparr>rStatus := (if n > 0 then StatusFound else StatusNotFound), rConfidence := 100\<rparr>), None))"

definition SearchPasswordLocal :: "(string \<Rightarrow> string) \<Rightarrow> snapshot \<Rightarrow> localInfo \<Rightarrow> ctx \<Rightarrow> bool \<Rightarrow> script" where
  "SearchPasswordLocal uni s li ctx nilEmit =
     (if nilEmit then Return (Some (plainError ''local password source requires a result consumer''))
      else ConsumeSecret (\<lambda>password.
        let (row, err) = localRow li (localLookup s ctx password) in
        EmitRow (Normalized uni row) (\<lambda>answer. Return
          (case answer of Some _ \<Rightarrow> Some (plainError ''local password result consumer failed'') | None \<Rightarrow> err))))"

section \<open>Breaches of an address\<close>

record Breach =
  brName :: string
  brTitle :: string
  brDomain :: string
  brBreachDate :: string
  brAddedDate :: string
  brModifiedDate :: string
  brVerified :: bool
  brFabricated :: bool
  brClasses :: "string list"

definition maxBreachResponse :: nat where "maxBreachResponse = 2097152"

text \<open>\<open>decode\<close> is \<open>None\<close> for a text that is no list of breaches, also for \<open>null\<close>.\<close>

definition breachReply :: "apiEnv \<Rightarrow> (string \<Rightarrow> Breach list option) \<Rightarrow> httpReply \<Rightarrow> hibpError + Breach list" where
  "breachReply hv decode r =
     (let bad = Inl ((hibpKind ''invalid_response'')\<lparr>heStatus := rpStatus r\<rparr>) in
      if rpStatus r = 404 then Inr []
      else if rpStatus r \<noteq> 200 then Inl (hibpStatusError (hvParseTime hv) (hvNow hv) (rpStatus r) (rpRetryAfter r))
      else andThen (hibpRead hv maxBreachResponse r) (\<lambda>raw.
        case decode raw of None \<Rightarrow> bad
        | Some bs \<Rightarrow> if list_ex (\<lambda>b. trimSpace (brName b) = []) bs then bad else Inr bs))"

definition Breaches :: "targetParsers \<Rightarrow> apiEnv \<Rightarrow> (string \<Rightarrow> Breach list option) \<Rightarrow> string \<Rightarrow> string \<Rightarrow> (hibpError + Breach list) \<times> sentRequest list" where
  "Breaches tp hv decode key email =
     (case NewEmailTarget tp email of
        Inl _ \<Rightarrow> (Inl (hibpKind ''bad_request''), [])
      | Inr t \<Rightarrow>
          let (got, sent) = hibpGet hv (''/breachedaccount/'' @ pathEscape (tValue t) @ ''?truncateResponse=false'')
                [(''Hibp-Api-Key'', key), (''Accept'', ''application/json'')]
          in (andThen got (breachReply hv decode), sent))"

definition breachRow :: "nat \<Rightarrow> Result \<Rightarrow> Breach \<Rightarrow> Result" where
  "breachRow tot r b =
     r\<lparr>rStatus := StatusFound, rConfidence := 100, rSiteName := ''Have I Been Pwned / '' @ brName b,
       rMetadata := [(''breach_name'', brName b), (''breach_title'', brTitle b), (''domain'', brDomain b), (''breach_date'', brBreachDate b),
         (''added_date'', brAddedDate b), (''modified_date'', brModifiedDate b), (''verified'', boolText (brVerified b)),
         (''fabricated'', boolText (brFabricated b)), (''breach_count'', itoa (int tot))],
       rEvidence := map (\<lambda>c. \<lparr>evKind = ''compromised_data_class'', evValue = c\<rparr>) (brClasses b)\<rparr>"

text \<open>The rows in order; the context is checked before each, the \<open>n\<close>-th time.\<close>

primrec breachRows :: "(Result \<Rightarrow> Result) \<Rightarrow> apiEnv \<Rightarrow> nat \<Rightarrow> Result \<Rightarrow> nat \<Rightarrow> Breach list \<Rightarrow> script" where
  "breachRows out hv tot r n [] = Return None"
| "breachRows out hv tot r n (b # bs) =
     (case hvCtx hv n of
        Some e \<Rightarrow> Return (Some (hibpGo (hibpRequestError (hvTimedOut hv) (Some e) e)))
      | None \<Rightarrow> EmitRow (out (breachRow tot r b)) (\<lambda>answer.
          case answer of Some e \<Rightarrow> Return (Some e) | None \<Rightarrow> breachRows out hv tot r (Suc n) bs))"

definition emailBase :: "targetParsers \<Rightarrow> string \<Rightarrow> Result" where
  "emailBase tp email =
     (case NewEmailTarget tp email of
        Inl _ \<Rightarrow> emptyResult\<lparr>rSource := ''hibp'', rSourceType := SourceAPI, rTargetType := TargetEmail\<rparr>
      | Inr t \<Rightarrow> NewResult ''hibp'' SourceAPI t)\<lparr>rURL := ''https://haveibeenpwned.com/'', rSiteName := ''Have I Been Pwned''\<rparr>"

definition SearchEmail :: "targetParsers \<Rightarrow> apiEnv \<Rightarrow> (string \<Rightarrow> Breach list option) \<Rightarrow> string \<Rightarrow> bool \<Rightarrow> string \<Rightarrow> script" where
  "SearchEmail tp hv decode key nilEmit email =
     (let uni = tpLower tp; out = (\<lambda>r. Normalized uni (RedactedResult uni [key] r)); r = emailBase tp email in
      if nilEmit then Return (Some (plainError ''HIBP source requires a result consumer''))
      else case fst (Breaches tp hv decode key email) of
        Inl e \<Rightarrow> EmitRow (out (r\<lparr>rStatus := StatusError, rError := hibpText (heKind e), rMetadata := hibpMetadata e\<rparr>))
            (\<lambda>answer. Return (case answer of Some x \<Rightarrow> Some x | None \<Rightarrow> Some (hibpGo e)))
      | Inr [] \<Rightarrow> EmitRow (out (r\<lparr>rStatus := StatusNotFound, rMetadata := [(''breach_count'', ''0'')]\<rparr>)) Return
      | Inr bs \<Rightarrow> breachRows out hv (length bs) r 2 bs)"

section \<open>The contracts of the rows\<close>

interpretation online_row: single_row onlineRow
  by unfold_locales (auto simp: onlineRow_def countMeta_def setMeta_def onlineBase_def StatusError_def StatusFound_def StatusNotFound_def
      split: sum.splits)

interpretation local_row: single_row "localRow li" for li
  by unfold_locales (auto simp: localRow_def countMeta_def setMeta_def localBase_def StatusError_def StatusFound_def StatusNotFound_def
      split: sum.splits)

lemma emits_breachRows: "emits (breachRows out hv tot r n bs) x \<Longrightarrow> \<exists>y. x = out y"
  by (induction bs arbitrary: n) (auto split: option.splits)

interpretation hibp_email: keyed_source "SearchEmail tp hv decode key nilEmit" "tpLower tp" key for tp hv decode key nilEmit
proof unfold_locales
  fix target x
  assume "emits (SearchEmail tp hv decode key nilEmit target) x"
  then have "\<exists>y. x = Normalized (tpLower tp) (RedactedResult (tpLower tp) [key] y)"
    by (auto simp: SearchEmail_def Let_def simp del: breachRows.simps split: if_splits sum.splits list.splits dest!: emits_breachRows)
  then show "\<exists>ss y. key \<in> set ss \<and> x = Normalized (tpLower tp) (RedactedResult (tpLower tp) ss y)"
    by (metis list.set_intros(1))
qed

end
