(* ===== verification/HibpInv.thy ===== *)
theory HibpInv
  imports Hibp PwStore
begin

text \<open>What the password sources guarantee: the range parser against a reference, what leaves the machine, and that both answer alike.\<close>

section \<open>The range parser\<close>

text \<open>The entries of a text, all or none, and the answer to a search for a suffix in them.\<close>

definition rangeEntries :: "string \<Rightarrow> (string \<times> nat) list option" where
  "rangeEntries raw = (case scanLines raw of None \<Rightarrow> None | Some ls \<Rightarrow> those (map rangeLine (filter (\<lambda>l. l \<noteq> []) ls)))"

definition rangeAnswer :: "(string \<times> nat) list \<Rightarrow> string \<Rightarrow> nat" where
  "rangeAnswer es want = (case map_of es want of Some n \<Rightarrow> n | None \<Rightarrow> 0)"

lemma rangeLoop_reference:
  "rangeLoop want ls seen n =
     (case those (map rangeLine (filter (\<lambda>l. l \<noteq> []) ls)) of None \<Rightarrow> None
      | Some es \<Rightarrow>
          if distinct (map fst es) \<and> set (map fst es) \<inter> set seen = {} \<and> (seen \<noteq> [] \<or> es \<noteq> [])
          then Some (case map_of es want of Some m \<Rightarrow> m | None \<Rightarrow> n) else None)"
proof (induction want ls seen n rule: rangeLoop.induct)
  case (1 want seen n)
  then show ?case by simp
next
  case (2 want line ls seen n)
  show ?case
  proof (cases "line = []")
    case True
    then show ?thesis using "2.IH"(1) by simp
  next
    case False
    show ?thesis
    proof (cases "rangeLine line")
      case None
      then show ?thesis using False by simp
    next
      case (Some e)
      obtain s m where e: "e = (s, m)" by (cases e)
      show ?thesis
      proof (cases "s \<in> set seen")
        case True
        then show ?thesis using False Some e by (auto split: option.split)
      next
        case new: False
        have IH: "rangeLoop want ls (s # seen) (if s = want then m else n) =
            (case those (map rangeLine (filter (\<lambda>l. l \<noteq> []) ls)) of None \<Rightarrow> None
             | Some es \<Rightarrow> if distinct (map fst es) \<and> set (map fst es) \<inter> set (s # seen) = {} \<and> (s # seen \<noteq> [] \<or> es \<noteq> [])
                 then Some (case map_of es want of Some k \<Rightarrow> k | None \<Rightarrow> (if s = want then m else n)) else None)"
          using "2.IH"(2) [OF False Some] e new by simp
        have "map_of es want = None" if "s = want" "s \<notin> set (map fst es)" for es :: "(string \<times> nat) list"
          using that by (simp add: map_of_eq_None_iff)
        then show ?thesis using False Some e new IH by (auto split: option.split)
      qed
    qed
  qed
qed

lemma matchRange_reference:
  "matchRange raw want =
     (if validHex want 35 then
        (case rangeEntries raw of
           Some es \<Rightarrow> if es \<noteq> [] \<and> distinct (map fst es) then Inr (rangeAnswer es (map upperC want))
             else Inl ((hibpKind ''invalid_response'')\<lparr>heStatus := 200\<rparr>)
         | None \<Rightarrow> Inl ((hibpKind ''invalid_response'')\<lparr>heStatus := 200\<rparr>))
      else Inl ((hibpKind ''invalid_response'')\<lparr>heStatus := 200\<rparr>))"
  by (auto simp: matchRange_def rangeEntries_def rangeLoop_reference rangeAnswer_def Let_def split: option.split)

section \<open>Texts of ranges\<close>

text \<open>The text of entries, with either line end.\<close>

definition entryLine :: "string \<times> nat \<Rightarrow> string" where
  "entryLine e = fst e @ CHR '':'' # natDigits (snd e)"

definition rangeText :: "bool \<Rightarrow> (string \<times> nat) list \<Rightarrow> string" where
  "rangeText cr es = concat (map (\<lambda>e. entryLine e @ (if cr then [CHR 0x0D] else []) @ [CHR 0x0A]) es)"

definition entryOK :: "string \<times> nat \<Rightarrow> bool" where
  "entryOK e \<longleftrightarrow> validHex (fst e) 35 \<and> map upperC (fst e) = fst e \<and> snd e < 2 ^ 64"

lemma hexChar_not: "hexChar c \<Longrightarrow> c \<notin> {CHR '':'', CHR 0x0A, CHR 0x0D}"
  by (auto simp: hexChar_def isDigitC_def byteVal_def)

lemma digit_not: "isDigitC c \<Longrightarrow> c \<notin> {CHR '':'', CHR 0x0A, CHR 0x0D}"
  by (auto simp: isDigitC_def byteVal_def)

lemma natDigits_plain: "c \<in> {CHR '':'', CHR 0x0A, CHR 0x0D} \<Longrightarrow> c \<notin> set (natDigits n)"
  using digit_not natDigits_digits by blast

lemma entryLine_chars:
  assumes "entryOK e"
  shows "CHR 0x0A \<notin> set (entryLine e)" and "entryLine e \<noteq> []" and "last (entryLine e) \<noteq> CHR 0x0D" and "length (entryLine e) \<le> 56"
proof -
  have hex: "\<forall>c \<in> set (fst e). hexChar c" and len: "length (fst e) = 35" using assms by (simp_all add: entryOK_def validHex_def list_all_iff)
  have "snd e < 10 ^ Suc 19" using assms by (simp add: entryOK_def)
  then have "length (natDigits (snd e)) \<le> Suc 19" by (rule length_natDigits)
  then show "length (entryLine e) \<le> 56" using len by (simp add: entryLine_def)
  have "CHR 0x0A \<notin> set (fst e)" using hex hexChar_not by blast
  then show "CHR 0x0A \<notin> set (entryLine e)" using natDigits_plain by (simp add: entryLine_def)
  have "last (natDigits (snd e)) \<in> set (natDigits (snd e))" by (rule last_in_set) simp
  then have "last (natDigits (snd e)) \<noteq> CHR 0x0D" using natDigits_plain by blast
  then show "last (entryLine e) \<noteq> CHR 0x0D" by (simp add: entryLine_def)
qed (simp add: entryLine_def)

lemma rangeLine_entry:
  assumes "entryOK e"
  shows "rangeLine (entryLine e) = Some e"
proof -
  have hex: "\<forall>c \<in> set (fst e). c \<noteq> CHR '':''" using assms hexChar_not by (auto simp: entryOK_def validHex_def list_all_iff)
  have cut: "takeWhile (\<lambda>c. c \<noteq> CHR '':'') (entryLine e) = fst e" "dropWhile (\<lambda>c. c \<noteq> CHR '':'') (entryLine e) = CHR '':'' # natDigits (snd e)"
    using hex by (simp_all add: entryLine_def takeWhile_append2 dropWhile_append2)
  have "parseUint64 (natDigits (snd e)) = Some (snd e)"
    using assms natDigits_digits by (simp add: parseUint64_def entryOK_def list_all_iff)
  then show ?thesis unfolding rangeLine_def Let_def cut using assms by (simp add: entryOK_def)
qed

lemma scanLines_text:
  assumes "\<forall>e \<in> set es. entryOK e"
  shows "scanLines (rangeText cr es) = Some (map entryLine es @ [[]])"
proof -
  let ?line = "\<lambda>e. entryLine e @ (if cr then [CHR 0x0D] else [])"
  have whole: "rangeText cr es = concat (map (\<lambda>l. l @ [CHR 0x0A]) (map ?line es))" by (simp add: rangeText_def comp_def)
  have cut: "splitOn (CHR 0x0A) (rangeText cr es) = map ?line es @ [[]]"
    unfolding whole by (rule splitOn_lines) (use assms entryLine_chars(1) in auto)
  have "\<not> list_ex (\<lambda>l. length l \<ge> 128) (map ?line es @ [[]])"
  proof -
    have "length (?line e) < 128" if "e \<in> set es" for e using entryLine_chars(4) [of e] assms that by simp
    then show ?thesis by (auto simp: list_ex_iff not_le)
  qed
  moreover have "map dropCR (map ?line es @ [[]]) = map entryLine es @ [[]]"
    using assms entryLine_chars(2,3) by (auto simp: dropCR_def)
  ultimately show ?thesis by (simp add: scanLines_def cut)
qed

lemma rangeEntries_text:
  assumes "\<forall>e \<in> set es. entryOK e"
  shows "rangeEntries (rangeText cr es) = Some es"
proof -
  have "filter (\<lambda>l. l \<noteq> []) (map entryLine es) = map entryLine es" using assms entryLine_chars(2) by (simp add: filter_id_conv)
  moreover have "those (map (\<lambda>e. rangeLine (entryLine e)) es) = Some es" using assms
  proof (induction es)
    case (Cons e es)
    then show ?case using rangeLine_entry [of e] by simp
  qed simp
  ultimately show ?thesis using scanLines_text [OF assms] by (simp add: rangeEntries_def comp_def)
qed

section \<open>Hashes\<close>

definition upHex :: "bytes \<Rightarrow> string" where
  "upHex key = map upperC (encodeToString key)"

lemma hashHex_upper: "hashHex password = upHex (sha1 (bytesOf password))"
  by (simp add: hashHex_def upHex_def)

lemma upperC_hex:
  assumes "isDigitC c \<or> 97 \<le> byteVal c \<and> byteVal c \<le> 102"
  shows "hexChar (upperC c)" and "upperC (upperC c) = upperC c" and "lowerC (upperC c) = c"
proof -
  have "byteVal c < 256" by (simp add: byteVal_def nat_of_char_less_256)
  then have up: "byteVal (upperC c) = (if isLowerC c then byteVal c - 32 else byteVal c)" by (simp add: upperC_def byteVal_def less_imp_diff_less nat_of_char_less_256)
  show "hexChar (upperC c)" using assms up by (auto simp: hexChar_def isDigitC_def isLowerC_def)
  have "\<not> isLowerC (upperC c)" using assms up by (auto simp: isDigitC_def isLowerC_def)
  then show "upperC (upperC c) = upperC c" by (simp add: upperC_def [of "upperC c"])
  have "lowerC (upperC c) = (if isLowerC c then char_of (byteVal c - 32 + 32) else c)"
    using assms up by (auto simp: lowerC_def isUpperC_def isLowerC_def isDigitC_def upperC_def)
  then show "lowerC (upperC c) = c" by (auto simp: isLowerC_def byteVal_def)
qed

lemma upHex_valid: "length key = 20 \<Longrightarrow> validHex (take 5 (upHex key)) 5 \<and> validHex (drop 5 (upHex key)) 35"
  using encodeToString_chars [of _ key] upperC_hex(1)
  by (auto simp: validHex_def upHex_def list_all_iff dest!: in_set_takeD in_set_dropD)

lemma upHex_idem: "map upperC (upHex key) = upHex key"
  using encodeToString_chars [of _ key] upperC_hex(2) by (auto simp: upHex_def)

lemma upHex_inj: "upHex a = upHex b \<longleftrightarrow> a = b"
proof
  have low: "map lowerC (upHex k) = encodeToString k" for k
    using encodeToString_chars [of _ k] upperC_hex(3) by (auto simp: upHex_def comp_def intro: map_idI)
  assume "upHex a = upHex b"
  then have "map lowerC (upHex a) = map lowerC (upHex b)" by simp
  then show "a = b" by (simp add: low encodeToString_inj)
qed simp

lemma upHex_parts: "take 5 (upHex a) = take 5 (upHex b) \<Longrightarrow> drop 5 (upHex a) = drop 5 (upHex b) \<longleftrightarrow> a = b"
  using upHex_inj by (metis append_take_drop_id)

section \<open>The answer of a service over records\<close>

definition servedEntries :: "bytes list \<Rightarrow> string \<Rightarrow> (string \<times> nat) list" where
  "servedEntries F pre5 =
     map (\<lambda>r. (drop 5 (upHex (keyOf r)), unat (countOf r))) (filter (\<lambda>r. take 5 (upHex (keyOf r)) = pre5) F)"

lemma served_OK:
  assumes "\<forall>r \<in> set F. length (keyOf r) = 20"
  shows "\<forall>e \<in> set (servedEntries F pre5). entryOK e"
proof -
  have "map upperC (drop 5 (upHex k)) = drop 5 (upHex k)" for k by (simp flip: drop_map add: upHex_idem)
  moreover have "unat (n :: u64) < 2 ^ 64" for n using unsigned_less [of n, where ?'a = nat] by simp
  ultimately show ?thesis using assms upHex_valid by (auto simp: servedEntries_def entryOK_def)
qed

lemma served_distinct:
  assumes "distinct (map keyOf F)"
  shows "distinct (map fst (servedEntries F pre5))"
  using assms upHex_parts by (induction F) (auto simp: servedEntries_def)

lemma served_lookup:
  "map_of (servedEntries F (take 5 (upHex key))) (drop 5 (upHex key))
     = map_option unat (map_of (map (\<lambda>r. (keyOf r, countOf r)) F) key)"
proof (induction F)
  case (Cons r F)
  show ?case
  proof (cases "keyOf r = key")
    case False
    then have "take 5 (upHex (keyOf r)) = take 5 (upHex key) \<Longrightarrow> drop 5 (upHex (keyOf r)) \<noteq> drop 5 (upHex key)"
      using upHex_parts by blast
    then show ?thesis using False Cons.IH by (auto simp: servedEntries_def)
  qed (simp add: servedEntries_def)
qed (simp add: servedEntries_def)

text \<open>The service answers the one request for a prefix with the entries of the records under it, padded with entries of count
  zero, in lines of either kind.\<close>

definition serves :: "apiEnv \<Rightarrow> bytes list \<Rightarrow> string \<Rightarrow> bool" where
  "serves hv F pre5 \<longleftrightarrow> hvCtx hv 0 = None \<and>
     (\<exists>cr padding retry. let es = servedEntries F pre5 @ padding in
        hvNet hv (hvBase hv @ CHR ''/'' # pre5, [(''Accept'', ''text/plain''), (''Add-Padding'', ''true''), (''User-Agent'', apiAgent)])
          = Reply \<lparr>rpStatus = 200, rpRetryAfter = retry, rpBody = rangeText cr es, rpReadErr = None\<rparr>
        \<and> length (rangeText cr es) \<le> maxRangeResponse \<and> es \<noteq> [] \<and> distinct (map fst es)
        \<and> (\<forall>e \<in> set padding. entryOK e \<and> snd e = 0))"

lemma map_of_padding:
  assumes "\<forall>e \<in> set padding. snd e = 0" and "distinct (map fst (es @ padding))"
  shows "rangeAnswer (es @ padding) want = rangeAnswer es want"
proof (cases "map_of es want")
  case None
  have "map_of padding want = None \<or> map_of padding want = Some 0" using assms(1) by (metis map_of_SomeD not_Some_eq snd_conv)
  then show ?thesis using None by (auto simp: rangeAnswer_def map_add_def)
next
  case (Some n)
  have "want \<in> set (map fst es)" using map_of_SomeD [OF Some] by (simp add: rev_image_eqI)
  moreover have "set (map fst es) \<inter> set (map fst padding) = {}" using assms(2) by (simp only: map_append distinct_append)
  ultimately have "want \<notin> set (map fst padding)" by blast
  then have "map_of padding want = None" by (simp add: map_of_eq_None_iff)
  then show ?thesis using Some by (simp add: rangeAnswer_def map_add_def)
qed

lemma online_lookup:
  assumes "serves hv F (fst (passwordSHA1 password))" and "password \<noteq> []" and "\<forall>r \<in> set F. length (keyOf r) = 20"
  shows "fst (passwordLookup hv password) = Inr (unat (countIn F (sha1 (bytesOf password))))"
proof -
  let ?key = "sha1 (bytesOf password)"
  let ?pre = "take 5 (upHex ?key)" and ?suf = "drop 5 (upHex ?key)"
  have parts: "passwordSHA1 password = (?pre, ?suf)" by (simp add: passwordSHA1_def hashHex_upper)
  have valid: "validHex ?pre 5" "validHex ?suf 35" using upHex_valid [of ?key] by simp_all
  have same: "map upperC ?pre = ?pre" "map upperC ?suf = ?suf" by (simp_all flip: take_map drop_map add: upHex_idem)
  obtain cr padding retry where s: "hvCtx hv 0 = None"
      "hvNet hv (hvBase hv @ CHR ''/'' # ?pre, [(''Accept'', ''text/plain''), (''Add-Padding'', ''true''), (''User-Agent'', apiAgent)])
        = Reply \<lparr>rpStatus = 200, rpRetryAfter = retry, rpBody = rangeText cr (servedEntries F ?pre @ padding), rpReadErr = None\<rparr>"
      "length (rangeText cr (servedEntries F ?pre @ padding)) \<le> maxRangeResponse" "servedEntries F ?pre @ padding \<noteq> []"
      "distinct (map fst (servedEntries F ?pre @ padding))" "\<forall>e \<in> set padding. entryOK e \<and> snd e = 0"
    using assms(1) unfolding serves_def parts fst_conv Let_def by blast
  let ?es = "servedEntries F ?pre @ padding"
  have ok: "\<forall>e \<in> set ?es. entryOK e" using served_OK [OF assms(3)] s(6) by auto
  have "rangeAnswer ?es ?suf = unat (countIn F ?key)"
    unfolding map_of_padding [OF _ s(5)] using map_of_padding [OF _ s(5), of ?suf] s(6)
    by (simp add: rangeAnswer_def served_lookup countIn_def split: option.split)
  then have "matchRange (rangeText cr ?es) ?suf = Inr (unat (countIn F ?key))"
    using valid s(4,5) by (simp add: matchRange_reference rangeEntries_text [OF ok] same)
  then show ?thesis using assms(2) valid s(1,2,3)
    by (simp add: passwordLookup_def parts rangeLookup_def getRange_def hibpGet_def same rangeReply_def hibpRead_def readBody_def Let_def)
qed

lemma local_lookup:
  assumes "represents F g" and "password \<noteq> []" and "ctx 0 = None" "ctx 1 = None" "ctx 2 = None" "ctx 3 = None"
  shows "localLookup (snapshotOf g) ctx password = Inr (unat (countIn F (sha1 (bytesOf password))))"
  using assms Lookup_represents [OF assms(1), of "\<lambda>n. ctx (n + 1)" "sha1 (bytesOf password)"]
  by (simp add: localLookup_def numeral_2_eq_2)

section \<open>Properties\<close>

text \<open>C26: a range in text is read back exactly: entries with distinct upper-case suffixes and 64-bit counts, written in lines
  of either kind, give for every suffix the count of its entry, or zero when it is in none.\<close>

theorem range_roundtrip:
  assumes "\<forall>e \<in> set es. entryOK e" and "es \<noteq> []" and "distinct (map fst es)" and "validHex want 35"
  shows "matchRange (rangeText cr es) want = Inr (rangeAnswer es (map upperC want))"
  using assms by (simp add: matchRange_reference rangeEntries_text)

theorem range_roundtrip_witness:
  "matchRange (rangeText True [(replicate 35 CHR ''A'', 7), (replicate 35 CHR ''0'', 0)]) (replicate 35 CHR ''a'') = Inr 7"
proof -
  have "\<forall>e \<in> set [(replicate 35 CHR ''A'', 7), (replicate 35 CHR ''0'', 0)]. entryOK e" "validHex (replicate 35 CHR ''a'') 35" by code_simp+
  moreover have "rangeAnswer [(replicate 35 CHR ''A'', 7), (replicate 35 CHR ''0'', 0)] (map upperC (replicate 35 CHR ''a'')) = 7" by code_simp
  moreover have "distinct (map fst [(replicate 35 CHR ''A'', 7), (replicate 35 CHR ''0'', 0)])" by code_simp
  ultimately show ?thesis using range_roundtrip [of "[(replicate 35 CHR ''A'', 7), (replicate 35 CHR ''0'', 0)]"] by simp
qed

text \<open>The range parser accepts nothing else: an answer is given only for a text whose lines are all entries with
  distinct suffixes, at least one, and it is the count of the searched suffix among them; every other text is the one error
  for an invalid response.\<close>

theorem range_exact:
  "matchRange raw want =
     (case (if validHex want 35 then rangeEntries raw else None) of
        Some es \<Rightarrow> if es \<noteq> [] \<and> distinct (map fst es) then Inr (rangeAnswer es (map upperC want))
          else Inl ((hibpKind ''invalid_response'')\<lparr>heStatus := 200\<rparr>)
      | None \<Rightarrow> Inl ((hibpKind ''invalid_response'')\<lparr>heStatus := 200\<rparr>))"
  by (simp add: matchRange_reference)

lemma passwordLookup_sent:
  "snd (passwordLookup hv password) =
     (if password = [] \<or> hvCtx hv 0 \<noteq> None then []
      else let req = (hvBase hv @ CHR ''/'' # fst (passwordSHA1 password),
             [(''Accept'', ''text/plain''), (''Add-Padding'', ''true''), (''User-Agent'', apiAgent)])
        in if hvNet hv req = BadRequest then [] else [req])"
proof -
  let ?key = "sha1 (bytesOf password)"
  have valid: "validHex (take 5 (upHex ?key)) 5" "validHex (drop 5 (upHex ?key)) 35" using upHex_valid [of ?key] by simp_all
  have same: "map upperC (take 5 (upHex ?key)) = take 5 (upHex ?key)" by (simp flip: take_map add: upHex_idem)
  show ?thesis using valid
    by (simp add: passwordLookup_def rangeLookup_def getRange_def hibpGet_def passwordSHA1_def hashHex_upper same Let_def
        split: option.split exchange.split prod.split)
qed

text \<open>C27: a password is looked up anonymously: the script consumes the secret before anything else and it is empty
  afterwards, whatever the consumer does; and what is sent is nothing, or one request whose URL ends in the first five
  characters of the hash and whose headers are fixed, so that it depends on the password only through these five characters.\<close>

theorem password_k_anonymous:
  "Reveal (pgStore (snd (runScript uni emit t s (SearchPasswordOnline uni' hv False) p))) (tSecret t) = []
    \<and> length (fst (passwordSHA1 password)) = 5
    \<and> snd (passwordLookup hv password) =
        (case hvCtx hv 0 of Some e \<Rightarrow> []
         | None \<Rightarrow> if password = [] then []
             else let req = (hvBase hv @ CHR ''/'' # fst (passwordSHA1 password),
                [(''Accept'', ''text/plain''), (''Add-Padding'', ''true''), (''User-Agent'', apiAgent)])
           in if hvNet hv req = BadRequest then [] else [req])"
proof -
  have gone: "Reveal (Destroy st x) x = []" for st x by (cases x) (simp_all add: Reveal_def Destroy_def)
  have "length (hashHex password) = 40" by (simp add: hashHex_def)
  then show ?thesis using gone unfolding passwordLookup_sent
    by (simp add: SearchPasswordOnline_def oneRow_def deliver_def Let_def split_beta passwordSHA1_def split: option.split)
qed

lemma represents_keys: "represents F g \<Longrightarrow> \<forall>r \<in> set F. length (keyOf r) = 20"
  by (auto simp: represents_def Let_def flushedOK_def wfRec_def RecordSize_def)

lemma rows_agree:
  "rStatus (fst (onlineRow (Inr n))) = rStatus (fst (localRow li (Inr n)))"
  "map_of (rMetadata (fst (onlineRow (Inr n)))) ''occurrences'' = Some (itoa (int n))"
  "map_of (rMetadata (fst (localRow li (Inr n)))) ''occurrences'' = Some (itoa (int n))"
  by (simp_all add: onlineRow_def localRow_def countMeta_def setMeta_def onlineBase_def localBase_def update_conv)

text \<open>C28: online and offline agree: when a database was imported from a corpus and the service serves the records of the same
  corpus under the prefix, padded or not, the two password sources find the same count for every password, the count that the
  corpus gives its SHA-1 hash, and their rows have the same status and the same number of occurrences.\<close>

theorem sources_agree:
  assumes "Import ctxI ctxL ctxS opt inp free random now = Inr g"
    and "serves hv (inputRecords inp) (fst (passwordSHA1 password))" and "password \<noteq> []"
    and "ctx 0 = None" "ctx 1 = None" "ctx 2 = None" "ctx 3 = None"
  shows "\<exists>s n. loadFiles background (encodeToString random) (gManifest g) (gIndex g) (gData g) = Inr s
    \<and> n = unat (countIn (inputRecords inp) (sha1 (bytesOf password)))
    \<and> fst (passwordLookup hv password) = Inr n \<and> localLookup s ctx password = Inr n
    \<and> rStatus (fst (onlineRow (Inr n))) = rStatus (fst (localRow li (Inr n)))
    \<and> map_of (rMetadata (fst (onlineRow (Inr n)))) ''occurrences'' = map_of (rMetadata (fst (localRow li (Inr n)))) ''occurrences''"
proof -
  obtain F where F: "represents F g" "mset F = mset (inputRecords inp)" "mDatasetID (gManifest g) = encodeToString random"
    using Import_represents [OF assms(1)] by blast
  have count: "countIn F key = countIn (inputRecords inp) key" for key
    using countIn_cong [OF F(2)] represents_distinct [OF F(1)] by blast
  have keys: "\<forall>r \<in> set (inputRecords inp). length (keyOf r) = 20" using represents_keys [OF F(1)] mset_eq_setD [OF F(2)] by simp
  have "loadFiles background (encodeToString random) (gManifest g) (gIndex g) (gData g) = Inr (snapshotOf g)"
    using loadFiles_represents [OF F(1), of background] F(3) by (simp add: background_def)
  then show ?thesis using online_lookup [OF assms(2,3) keys] local_lookup [OF F(1) assms(3-7)] rows_agree by (simp add: count)
qed

definition demoPadding :: "(string \<times> nat) list" where
  "demoPadding = [(replicate 35 CHR ''0'', 0)]"

definition demoService :: apiEnv where
  "demoService = \<lparr>hvBase = ''https://h/range'',
     hvNet = (\<lambda>_. Reply \<lparr>rpStatus = 200, rpRetryAfter = [],
       rpBody = rangeText True (servedEntries [demoRec] (fst (passwordSHA1 ''pw'')) @ demoPadding), rpReadErr = None\<rparr>),
     hvCtx = (\<lambda>_. None), hvTimedOut = (\<lambda>_. False), hvParseTime = (\<lambda>_. None), hvNow = 0\<rparr>"

lemma demo_serves: "serves demoService [demoRec] (fst (passwordSHA1 ''pw''))"
proof -
  let ?pre = "fst (passwordSHA1 ''pw'')"
  have entry: "drop 5 (upHex demoKey) = replicate 35 CHR ''A''" by code_simp
  have pad: "entryOK (replicate 35 CHR ''0'', 0)" by code_simp
  have key: "keyOf demoRec = demoKey" by (simp add: demoRec_def demoKey_def)
  have es: "servedEntries [demoRec] ?pre = [] \<or> servedEntries [demoRec] ?pre = [(replicate 35 CHR ''A'', unat (countOf demoRec))]"
    by (simp add: servedEntries_def key entry)
  have "unat (countOf demoRec) = 5" by (simp add: demoRec_def demoKey_def)
  moreover have "natDigits 5 = ''5''" "natDigits 0 = ''0''" by code_simp+
  ultimately have "length (rangeText True (servedEntries [demoRec] ?pre @ demoPadding)) \<le> maxRangeResponse"
    using es by (auto simp: demoPadding_def rangeText_def entryLine_def maxRangeResponse_def)
  moreover have "distinct (map fst (servedEntries [demoRec] ?pre @ demoPadding))" using es by (auto simp: demoPadding_def)
  ultimately show ?thesis using pad unfolding serves_def Let_def
    by (intro conjI exI [of _ True] exI [of _ demoPadding] exI [of _ "[]"]) (simp_all add: demoService_def demoPadding_def)
qed

theorem sources_agree_witness:
  "\<exists>n g. fst (passwordLookup demoService ''pw'') = Inr n \<and> localLookup g background ''pw'' = Inr n"
proof -
  obtain g where g: "Import background background background demoOpt demoLine (2 ^ 40) demoRandom [] = Inr g" using demo_Import by blast
  have "serves demoService (inputRecords demoLine) (fst (passwordSHA1 ''pw''))" using demo_serves by (simp add: demo_records)
  from sources_agree [OF g this, of background undefined] show ?thesis unfolding background_def by blast
qed

end
