(* ===== verification/ProviderClients.thy ===== *)
theory ProviderClients
  imports RateLimit Security
begin

text \<open>
  The construction of the clients of the providers (\<open>NewClient\<close>, \<open>NewPasswordClient\<close>, \<open>New\<close> under
  \<open>src/internal/sources\<close>): which endpoints and which keys they accept, and what becomes of a key that is refused.
  \<open>url.Parse\<close> and the tests for a literal loopback address are arguments; an HTTP client is its timeout.
\<close>

section \<open>Endpoints\<close>

record parsedURL =
  puScheme :: string
  puHostname :: string
  puUser :: bool
  puRawQuery :: string
  puForceQuery :: bool
  puFragment :: string
  puRawFragment :: string
  puPath :: string
  puRawPath :: string
  puText :: string

record urlEnv =
  ueParse :: "string \<Rightarrow> parsedURL option"
  ueLoopIP :: "string \<Rightarrow> bool"        \<comment> \<open>\<open>net.ParseIP\<close> gives a loopback address\<close>
  ueLoopAddr :: "string \<Rightarrow> bool"      \<comment> \<open>\<open>netip.ParseAddr\<close> gives one without a zone\<close>

definition bareURL :: "parsedURL \<Rightarrow> bool" where
  "bareURL u \<longleftrightarrow> puHostname u \<noteq> [] \<and> \<not> puUser u \<and> puRawQuery u = [] \<and> \<not> puForceQuery u \<and> puFragment u = []"

definition secureURL :: "(string \<Rightarrow> bool) \<Rightarrow> parsedURL \<Rightarrow> bool" where
  "secureURL loopback u \<longleftrightarrow> puScheme u = ''https'' \<or> puScheme u = ''http'' \<and> loopback (puHostname u)"

definition trimSlashes :: "string \<Rightarrow> string" where
  "trimSlashes s = rev (dropWhile (\<lambda>c. c = CHR ''/'') (rev s))"

definition hasTimeout :: "int option \<Rightarrow> bool" where
  "hasTimeout timeout \<longleftrightarrow> (case timeout of None \<Rightarrow> False | Some d \<Rightarrow> 0 < d)"

definition orDefault :: "string \<Rightarrow> string \<Rightarrow> string" where
  "orDefault s d = (if s = [] then d else s)"

section \<open>Have I Been Pwned\<close>

definition newHTTPEndpoint :: "urlEnv \<Rightarrow> string \<Rightarrow> int option \<Rightarrow> string + string" where
  "newHTTPEndpoint ue base timeout =
     (if \<not> hasTimeout timeout then Inl ''HIBP requires an HTTP client with a positive timeout''
      else case ueParse ue base of None \<Rightarrow> Inl ''invalid HIBP base URL; credentials, queries and fragments are not allowed''
      | Some u \<Rightarrow>
          if \<not> bareURL u then Inl ''invalid HIBP base URL; credentials, queries and fragments are not allowed''
          else if \<not> secureURL (ueLoopIP ue) u then Inl ''HIBP requires HTTPS; HTTP is allowed only for literal loopback test endpoints''
          else Inr (trimSlashes (puText u)))"

definition NewHibpClient :: "urlEnv \<Rightarrow> string \<Rightarrow> string \<Rightarrow> int option \<Rightarrow> string + string" where
  "NewHibpClient ue base key timeout =
     (if trimSpace key = [] then Inl ''HIBP email lookup requires an API key from the configured environment variable''
      else if list_ex (\<lambda>c. c \<in> {CHR 0x0D, CHR 0x0A}) key then Inl ''HIBP denied authorization for this request''
      else newHTTPEndpoint ue (orDefault base ''https://haveibeenpwned.com/api/v3'') timeout)"

definition NewPasswordClient :: "urlEnv \<Rightarrow> string \<Rightarrow> int option \<Rightarrow> string + string" where
  "NewPasswordClient ue rangeURL timeout =
     (case newHTTPEndpoint ue (orDefault rangeURL ''https://api.pwnedpasswords.com/range'') timeout of
        Inl e \<Rightarrow> Inl e
      | Inr base \<Rightarrow>
          (case ueParse ue base of None \<Rightarrow> Inl ''Pwned Passwords endpoint must end with /range''
           | Some u \<Rightarrow> if puPath u \<noteq> ''/range'' \<or> puRawPath u \<noteq> [] then Inl ''Pwned Passwords endpoint must end with /range'' else Inr base))"

section \<open>Clients that own their key\<close>

text \<open>A key of visible ASCII characters, which cannot change a header; the error otherwise.\<close>

definition graphicKey :: "string \<Rightarrow> bool" where
  "graphicKey key \<longleftrightarrow> list_all (\<lambda>c. 33 \<le> byteVal c \<and> byteVal c \<le> 126) key"

definition ipEndpoint :: "urlEnv \<Rightarrow> string \<Rightarrow> string \<Rightarrow> int option \<Rightarrow> string + string" where
  "ipEndpoint ue endpoint key timeout =
     (if key = [] \<or> length key > 4096 then Inl ''IPinfo lookup failed (missing_api_key)''
      else if \<not> graphicKey key then Inl ''IPinfo lookup failed (unauthorized)''
      else case ueParse ue (orDefault endpoint ''https://api.ipinfo.io/lite'') of None \<Rightarrow> Inl ''invalid IPinfo Lite endpoint''
      | Some u \<Rightarrow>
          if \<not> bareURL u \<or> puRawFragment u \<noteq> [] \<or> puRawPath u \<noteq> [] \<or> puPath u \<noteq> ''/lite'' then Inl ''invalid IPinfo Lite endpoint''
          else if \<not> secureURL (ueLoopAddr ue) u then Inl ''IPinfo requires HTTPS; HTTP is only allowed for literal loopback fixtures''
          else if \<not> hasTimeout timeout then Inl ''IPinfo requires a client with a positive timeout''
          else Inr (puText u))"

definition trailsEndpoint :: "urlEnv \<Rightarrow> string \<Rightarrow> string \<Rightarrow> int option \<Rightarrow> int \<Rightarrow> string + string" where
  "trailsEndpoint ue base key timeout interval =
     (if key = [] then Inl ''SecurityTrails lookup failed (missing_api_key)''
      else if length key > 4096 \<or> \<not> graphicKey key then Inl ''SecurityTrails lookup failed (unauthorized)''
      else if \<not> hasTimeout timeout \<or> interval \<le> 0 then Inl ''SecurityTrails requires positive HTTP timeout and request interval''
      else case ueParse ue (orDefault base ''https://api.securitytrails.com/v1'') of
        None \<Rightarrow> Inl ''invalid SecurityTrails endpoint; use an API base ending in /v1''
      | Some u \<Rightarrow>
          if \<not> bareURL u \<or> puRawPath u \<noteq> [] \<or> trimSlashes (puPath u) \<noteq> ''/v1'' then Inl ''invalid SecurityTrails endpoint; use an API base ending in /v1''
          else if \<not> secureURL (ueLoopIP ue) u then Inl ''SecurityTrails requires HTTPS except literal loopback tests''
          else Inr (trimSlashes (puText u)))"

text \<open>The key is destroyed when the construction fails.\<close>

definition orDestroy :: "(string + string) \<Rightarrow> secret \<Rightarrow> secretStore \<Rightarrow> (string + string) \<times> secretStore" where
  "orDestroy got key st = (got, case got of Inl _ \<Rightarrow> Destroy st key | Inr _ \<Rightarrow> st)"

definition NewIPClient :: "urlEnv \<Rightarrow> string \<Rightarrow> secret \<Rightarrow> int option \<Rightarrow> secretStore \<Rightarrow> (string + string) \<times> secretStore" where
  "NewIPClient ue endpoint key timeout st = orDestroy (ipEndpoint ue endpoint (Reveal st key) timeout) key st"

definition NewTrailsClient :: "urlEnv \<Rightarrow> string \<Rightarrow> secret \<Rightarrow> int option \<Rightarrow> int \<Rightarrow> secretStore \<Rightarrow> (string + string) \<times> secretStore" where
  "NewTrailsClient ue base key timeout interval st = orDestroy (trailsEndpoint ue base (Reveal st key) timeout interval) key st"

section \<open>Clients without a key\<close>

record pacedClient =
  pcBase :: string
  pcTimeout :: int
  pcLimiter :: limiter

definition requestTimeout :: int where "requestTimeout = 15000000000"
definition maxInterval :: int where "maxInterval = 30000000000"

definition newPaced :: "urlEnv \<Rightarrow> string \<Rightarrow> string \<Rightarrow> string \<times> string \<times> string \<Rightarrow> int option \<Rightarrow> int \<Rightarrow> string + pacedClient" where
  "newPaced ue endpoint path errs timeout interval =
     (case ueParse ue endpoint of None \<Rightarrow> Inl (fst errs)
      | Some u \<Rightarrow>
          if \<not> bareURL u \<or> puRawPath u \<noteq> [] \<or> puPath u \<noteq> path then Inl (fst errs)
          else if \<not> secureURL (ueLoopAddr ue) u then Inl (fst (snd errs))
          else (case timeout of None \<Rightarrow> Inl (snd (snd errs))
            | Some d \<Rightarrow> if d \<le> 0 \<or> interval \<le> 0 \<or> interval > maxInterval then Inl (snd (snd errs))
                else Inr \<lparr>pcBase = puText u, pcTimeout = min d requestTimeout, pcLimiter = NewHostLimiter interval\<rparr>))"

definition NewBitcoinClient :: "urlEnv \<Rightarrow> string \<Rightarrow> int option \<Rightarrow> int \<Rightarrow> string + pacedClient" where
  "NewBitcoinClient ue endpoint = newPaced ue (orDefault endpoint ''https://blockstream.info/api'') ''/api''
     (''invalid Bitcoin endpoint; expected an API base ending in /api'', ''Bitcoin requires HTTPS except literal loopback fixtures'',
      ''Bitcoin requires a positive client timeout and bounded pacing interval'')"

definition NewLabelClient :: "urlEnv \<Rightarrow> string \<Rightarrow> int option \<Rightarrow> int \<Rightarrow> string + pacedClient" where
  "NewLabelClient ue endpoint = newPaced ue (orDefault endpoint ''https://www.walletexplorer.com/api/1/address-lookup'') ''/api/1/address-lookup''
     (''invalid WalletExplorer address-lookup endpoint'', ''WalletExplorer requires HTTPS except literal loopback fixtures'',
      ''WalletExplorer requires a positive bounded timeout and pacing interval'')"

section \<open>The contract of the constructors\<close>

text \<open>
  What every constructor promises: the base it keeps is the text of the URL that it was given, or of its default, which is
  bare and either HTTPS or a literal loopback address.
\<close>

definition accepted :: "'e + 'b \<Rightarrow> 'b option" where
  "accepted r = (case r of Inl _ \<Rightarrow> None | Inr b \<Rightarrow> Some b)"

locale client_endpoint =
  fixes make :: "string \<Rightarrow> string option" and ue :: urlEnv and dflt :: string and loopback :: "string \<Rightarrow> bool"
  assumes kept: "make e = Some base \<Longrightarrow>
      \<exists>u. ueParse ue (orDefault e dflt) = Some u \<and> bareURL u \<and> secureURL loopback u \<and> base \<in> {puText u, trimSlashes (puText u)}"
begin

lemma encrypted:
  assumes "make e = Some base"
  shows "\<exists>u. ueParse ue (orDefault e dflt) = Some u \<and> bareURL u \<and> base \<in> {puText u, trimSlashes (puText u)}
    \<and> (puScheme u = ''https'' \<or> puScheme u = ''http'' \<and> loopback (puHostname u))"
  using kept [OF assms] unfolding secureURL_def by blast

end

lemma newHTTPEndpoint_accepts:
  assumes "newHTTPEndpoint ue e timeout = Inr base"
  shows "\<exists>u. ueParse ue e = Some u \<and> bareURL u \<and> secureURL (ueLoopIP ue) u \<and> base = trimSlashes (puText u)"
  using assms by (auto simp: newHTTPEndpoint_def split: if_splits option.splits)

interpretation hibp_client: client_endpoint "\<lambda>e. accepted (NewHibpClient ue e key timeout)" ue "''https://haveibeenpwned.com/api/v3''" "ueLoopIP ue"
  for ue key timeout
  by unfold_locales (auto simp: accepted_def NewHibpClient_def split: sum.splits if_splits dest!: newHTTPEndpoint_accepts)

interpretation range_client: client_endpoint "\<lambda>e. accepted (NewPasswordClient ue e timeout)" ue "''https://api.pwnedpasswords.com/range''" "ueLoopIP ue"
  for ue timeout
  by unfold_locales (auto simp: accepted_def NewPasswordClient_def split: sum.splits if_splits option.splits dest!: newHTTPEndpoint_accepts)

interpretation ip_client: client_endpoint "\<lambda>e. accepted (ipEndpoint ue e key timeout)" ue "''https://api.ipinfo.io/lite''" "ueLoopAddr ue"
  for ue key timeout
  by unfold_locales (auto simp: accepted_def ipEndpoint_def split: sum.splits if_splits option.splits)

interpretation trails_client: client_endpoint "\<lambda>e. accepted (trailsEndpoint ue e key timeout interval)" ue
    "''https://api.securitytrails.com/v1''" "ueLoopIP ue" for ue key timeout interval
  by unfold_locales (auto simp: accepted_def trailsEndpoint_def split: sum.splits if_splits option.splits)

lemma newPaced_accepts:
  assumes "newPaced ue e path errs timeout interval = Inr c"
  shows "\<exists>u. ueParse ue e = Some u \<and> bareURL u \<and> secureURL (ueLoopAddr ue) u \<and> pcBase c = puText u"
  using assms by (auto simp: newPaced_def split: if_splits option.splits)

interpretation bitcoin_client: client_endpoint "\<lambda>e. map_option pcBase (accepted (NewBitcoinClient ue e timeout interval))" ue
    "''https://blockstream.info/api''" "ueLoopAddr ue" for ue timeout interval
  by unfold_locales (auto simp: accepted_def NewBitcoinClient_def split: sum.splits dest!: newPaced_accepts)

interpretation label_client: client_endpoint "\<lambda>e. map_option pcBase (accepted (NewLabelClient ue e timeout interval))" ue
    "''https://www.walletexplorer.com/api/1/address-lookup''" "ueLoopAddr ue" for ue timeout interval
  by unfold_locales (auto simp: accepted_def NewLabelClient_def split: sum.splits dest!: newPaced_accepts)

text \<open>A key that a client keeps cannot break out of its header; a refused one is destroyed.\<close>

lemma graphicKey_plain: "graphicKey key \<Longrightarrow> c \<in> set key \<Longrightarrow> c \<notin> {CHR 0x0A, CHR 0x0D, CHR '' ''}"
  by (auto simp: graphicKey_def list_all_iff byteVal_def)

lemma NewIPClient_accepts:
  assumes "NewIPClient ue e h timeout st = (Inr base, st')"
  shows "st' = st \<and> accepted (ipEndpoint ue e (Reveal st h) timeout) = Some base \<and> Reveal st h \<noteq> [] \<and> graphicKey (Reveal st h)"
  using assms by (auto simp: NewIPClient_def orDestroy_def ipEndpoint_def accepted_def split: if_splits)

lemma NewTrailsClient_accepts:
  assumes "NewTrailsClient ue e h timeout interval st = (Inr base, st')"
  shows "st' = st \<and> accepted (trailsEndpoint ue e (Reveal st h) timeout interval) = Some base \<and> Reveal st h \<noteq> [] \<and> graphicKey (Reveal st h)"
  using assms by (auto simp: NewTrailsClient_def orDestroy_def trailsEndpoint_def accepted_def split: if_splits)

lemma refused_key:
  "NewIPClient ue e h timeout st = (Inl x, st') \<Longrightarrow> Reveal st' h = []"
  "NewTrailsClient ue e h timeout interval st = (Inl x, st') \<Longrightarrow> Reveal st' h = []"
  by (auto simp: NewIPClient_def NewTrailsClient_def orDestroy_def Reveal_def Destroy_def split: sum.splits option.splits)

end
