(* ===== verification/Ipinfo.thy ===== *)
theory Ipinfo
  imports ApiSource ProviderClients
begin

text \<open>
  The IPinfo source (\<open>src/internal/sources/ipinfo\<close>): one bounded request for the profile of an address, its strict
  validation, and the one row of the source.  The decoder of \<open>encoding/json\<close> is an argument; durations of rows are not modelled.
\<close>

section \<open>Errors\<close>

record ipError =
  ieKind :: string
  ieStatus :: int
  ieRetry :: nat

definition ipKind :: "string \<Rightarrow> ipError" where
  "ipKind k = \<lparr>ieKind = k, ieStatus = 0, ieRetry = 0\<rparr>"

definition ipSafeKind :: "string \<Rightarrow> string" where
  "ipSafeKind kind =
     (if kind \<in> {''missing_api_key'', ''unauthorized'', ''forbidden'', ''bad_request'', ''rate_limited'', ''service_unavailable'',
          ''timeout'', ''cancelled'', ''network_failure'', ''invalid_response''} then kind else ''unexpected_status'')"

definition ipErrorText :: "ipError \<Rightarrow> string" where
  "ipErrorText e = ''IPinfo lookup failed ('' @ ipSafeKind (ieKind e) @ '')''"

definition ipGo :: "ipError \<Rightarrow> goError" where
  "ipGo e = \<lparr>eText = ipErrorText e, eCanceled = (ieKind e = ''cancelled''), eDeadline = (ieKind e = ''timeout'')\<rparr>"

definition ipRequestError :: "(goError \<Rightarrow> bool) \<Rightarrow> goError option \<Rightarrow> goError \<Rightarrow> ipError" where
  "ipRequestError timedOut ctxErr err =
     (if isDeadline ctxErr \<or> eDeadline err then ipKind ''timeout''
      else if isCanceled ctxErr \<or> eCanceled err then ipKind ''cancelled''
      else if timedOut err then ipKind ''timeout''
      else ipKind ''network_failure'')"

definition ipStatusError :: "int \<Rightarrow> string \<Rightarrow> ipError" where
  "ipStatusError code retry =
     \<lparr>ieKind = (if code = 400 then ''bad_request'' else if code = 401 then ''unauthorized'' else if code = 403 then ''forbidden''
         else if code = 429 then ''rate_limited'' else if code \<ge> 500 then ''service_unavailable'' else ''unexpected_status''),
      ieStatus = code,
      ieRetry = (if code = 429 \<or> code = 503 then (case parseUint64 retry of Some n \<Rightarrow> if n \<le> 86400 then n else 0 | None \<Rightarrow> 0) else 0)\<rparr>"

section \<open>Profiles\<close>

record ipProfile =
  ipIP :: string
  ipASN :: string
  ipASName :: string
  ipASDomain :: string
  ipCountryCode :: string
  ipCountry :: string
  ipContinentCode :: string
  ipContinent :: string
  ipBogon :: "bool option"

definition ipValidText :: "string \<Rightarrow> bool" where
  "ipValidText s \<longleftrightarrow> length s \<le> 256 \<and> utf8Valid s \<and> \<not> list_ex controlRune (runesOf s)"

definition asnOK :: "string \<Rightarrow> bool" where
  "asnOK s \<longleftrightarrow> s = [] \<or> hasPrefix s ''AS'' \<and> (case parseUint32 (trimPrefix s ''AS'') of Some n \<Rightarrow> n \<noteq> 0 | None \<Rightarrow> False)"

definition countryOK :: "string \<Rightarrow> bool" where
  "countryOK s \<longleftrightarrow> s = [] \<or> length s = 2 \<and> list_all isUpperC s"

definition parseProfile :: "targetParsers \<Rightarrow> (string \<Rightarrow> ipProfile option) \<Rightarrow> string \<Rightarrow> string \<Rightarrow> ipError + ipProfile" where
  "parseProfile tp decode raw target =
     (let bad = Inl (ipKind ''invalid_response'') in
      if \<not> utf8Valid raw then bad
      else case decode raw of None \<Rightarrow> bad
      | Some p \<Rightarrow>
        (case NewIPTarget (tpAddr tp) (ipIP p) of Inl _ \<Rightarrow> bad
         | Inr ip \<Rightarrow>
             if tValue ip \<noteq> target then bad
             else if \<not> list_all ipValidText [ipASN p, ipASName p, ipASDomain p, ipCountryCode p, ipCountry p, ipContinentCode p, ipContinent p] then bad
             else if \<not> asnOK (ipASN p) then bad
             else if ipASDomain p \<noteq> [] \<and> accepted (NewDomainTarget (tpLower tp) (\<lambda>v. tpAddr tp v \<noteq> None) (ipASDomain p)) = None then bad
             else if \<not> countryOK (ipCountryCode p) then bad
             else if ipContinentCode p \<noteq> [] \<and> ipContinentCode p \<notin> {''AF'', ''AN'', ''AS'', ''EU'', ''NA'', ''OC'', ''SA''} then bad
             else Inr (p\<lparr>ipIP := tValue ip\<rparr>)))"

section \<open>The lookup\<close>

definition maxProfileBytes :: nat where "maxProfileBytes = 65536"

definition ipReply :: "targetParsers \<Rightarrow> apiEnv \<Rightarrow> (string \<Rightarrow> ipProfile option) \<Rightarrow> string \<Rightarrow> httpReply \<Rightarrow> ipError + ipProfile" where
  "ipReply tp hv decode target r =
     (if rpStatus r \<noteq> 200 then Inl (ipStatusError (rpStatus r) (rpRetryAfter r))
      else case readBody (maxProfileBytes + 1) r of
        Inl e \<Rightarrow> Inl (ipRequestError (hvTimedOut hv) (hvCtx hv 2) e)
      | Inr raw \<Rightarrow>
          if length raw > maxProfileBytes then Inl (ipKind ''invalid_response'')
          else case hvCtx hv 2 of Some e \<Rightarrow> Inl (ipRequestError (hvTimedOut hv) (Some e) e)
          | None \<Rightarrow> parseProfile tp decode raw target)"

definition ipLookup :: "targetParsers \<Rightarrow> apiEnv \<Rightarrow> (string \<Rightarrow> ipProfile option) \<Rightarrow> string \<Rightarrow> string \<Rightarrow> (ipError + ipProfile) \<times> sentRequest list" where
  "ipLookup tp hv decode key ip =
     (case NewIPTarget (tpAddr tp) ip of Inl _ \<Rightarrow> (Inl (ipKind ''bad_request''), [])
      | Inr target \<Rightarrow>
        (case hvCtx hv 0 of Some e \<Rightarrow> (Inl (ipRequestError (hvTimedOut hv) (Some e) e), [])
         | None \<Rightarrow>
            let req = (hvBase hv @ CHR ''/'' # tValue target,
                  [(''Authorization'', ''Bearer '' @ key), (''Accept'', ''application/json''), (''User-Agent'', apiAgent)]) in
            (case hvNet hv req of
               BadRequest \<Rightarrow> (Inl (ipKind ''bad_request''), [])
             | NoReply e \<Rightarrow> (Inl (ipRequestError (hvTimedOut hv) (hvCtx hv 1) e), [req])
             | Reply r \<Rightarrow> (ipReply tp hv decode (tValue target) r, [req]))))"

section \<open>The source\<close>

definition ipErrorMeta :: "ipError \<Rightarrow> (string \<times> string) list" where
  "ipErrorMeta e = [(''error_kind'', ipSafeKind (ieKind e))]
     @ (if ieStatus e \<noteq> 0 then [(''http_status'', itoa (ieStatus e))] else [])
     @ (if ieRetry e > 0 then [(''retry_after_seconds'', natDigits (ieRetry e))] else [])"

definition profileFields :: "ipProfile \<Rightarrow> (string \<times> string) list" where
  "profileFields p = filter (\<lambda>f. snd f \<noteq> [])
     [(''asn'', ipASN p), (''as_name'', ipASName p), (''as_domain'', ipASDomain p), (''country_code'', ipCountryCode p),
      (''country'', ipCountry p), (''continent_code'', ipContinentCode p), (''continent'', ipContinent p)]
     @ (case ipBogon p of None \<Rightarrow> [] | Some b \<Rightarrow> [(''bogon'', boolText b)])"

definition ipBase :: "targetParsers \<Rightarrow> string \<Rightarrow> Result" where
  "ipBase tp ip =
     (case NewIPTarget (tpAddr tp) ip of
        Inl _ \<Rightarrow> emptyResult\<lparr>rSource := ''ipinfo'', rSourceType := SourceAPI\<rparr>
      | Inr t \<Rightarrow> NewResult ''ipinfo'' SourceAPI t)
     \<lparr>rTargetType := TargetIP, rSiteName := ''IPinfo Lite'', rURL := ''https://ipinfo.io/''\<rparr>"

definition ipRow :: "Result \<Rightarrow> ipError + ipProfile \<Rightarrow> Result \<times> goError option" where
  "ipRow base got =
     (case got of
        Inl e \<Rightarrow> (base\<lparr>rStatus := StatusError, rError := ipErrorText e, rMetadata := ipErrorMeta e\<rparr>, Some (ipGo e))
      | Inr p \<Rightarrow> (base\<lparr>rStatus := StatusFound, rConfidence := 100,
           rMetadata := [(''method'', ''ipinfo-lite''), (''scope'', ''provider_observation'')] @ profileFields p,
           rEvidence := map (\<lambda>(k, v). \<lparr>evKind = k, evValue = v\<rparr>) ((''ip'', ipIP p) # profileFields p)\<rparr>, None))"

definition SearchIP :: "targetParsers \<Rightarrow> apiEnv \<Rightarrow> (string \<Rightarrow> ipProfile option) \<Rightarrow> string \<Rightarrow> bool \<Rightarrow> string \<Rightarrow> script" where
  "SearchIP tp hv decode key nilEmit ip =
     (if nilEmit then Return (Some (plainError ''IPinfo source requires a result consumer''))
      else oneRow (\<lambda>r. Normalized (tpLower tp) (RedactedResult (tpLower tp) [key, toLower (tpLower tp) key] r))
        (ipRow (ipBase tp ip)
          (case NewIPTarget (tpAddr tp) ip of Inl _ \<Rightarrow> Inl (ipKind ''bad_request'')
           | Inr t \<Rightarrow> fst (ipLookup tp hv decode key (tValue t)))))"

section \<open>Facts\<close>

interpretation ip_row: single_row "ipRow base" for base
  by unfold_locales (auto simp: ipRow_def StatusError_def StatusFound_def split: sum.splits)

interpretation ip_source: keyed_source "SearchIP tp hv decode key nilEmit" "tpLower tp" key for tp hv decode key nilEmit
  by unfold_locales (unfold SearchIP_def, rule keyed_row)

end
