(* ===== verification/SecurityTrails.thy ===== *)
theory SecurityTrails
  imports ApiSource ProviderClients GoSort
begin

text \<open>
  The SecurityTrails source (\<open>src/internal/sources/securitytrails\<close>): the pacing of request starts, one bounded request,
  and the DNS records of the reply.  The decoders of \<open>encoding/json\<close> and \<open>netip.ParseAddr\<close> with the class of the address
  are arguments.  Durations are nanoseconds; durations of rows are not modelled.
\<close>

section \<open>Errors\<close>

record trailsError =
  teKind :: string
  teStatus :: int
  teRetry :: int

definition trailsKind :: "string \<Rightarrow> trailsError" where
  "trailsKind k = \<lparr>teKind = k, teStatus = 0, teRetry = 0\<rparr>"

definition trailsSafeKind :: "string \<Rightarrow> string" where
  "trailsSafeKind kind =
     (if kind \<in> {''missing_api_key'', ''unauthorized'', ''forbidden'', ''rate_limited'', ''bad_request'', ''service_unavailable'',
          ''timeout'', ''cancelled'', ''network_failure'', ''invalid_response'', ''unexpected_status''} then kind else ''unexpected_status'')"

definition trailsText :: "trailsError \<Rightarrow> string" where
  "trailsText e = ''SecurityTrails lookup failed ('' @ trailsSafeKind (teKind e) @ '')''"

definition trailsGo :: "trailsError \<Rightarrow> goError" where
  "trailsGo e = \<lparr>eText = trailsText e, eCanceled = (teKind e = ''cancelled''), eDeadline = (teKind e = ''timeout'')\<rparr>"

definition trailsRequestError :: "(goError \<Rightarrow> bool) \<Rightarrow> goError option \<Rightarrow> goError \<Rightarrow> trailsError" where
  "trailsRequestError timedOut ctxErr err =
     (if isCanceled ctxErr \<or> eCanceled err then trailsKind ''cancelled''
      else if isDeadline ctxErr \<or> eDeadline err \<or> timedOut err then trailsKind ''timeout''
      else trailsKind ''network_failure'')"

definition oneSecond :: int where "oneSecond = 1000000000"

definition trailsRetry :: "(string \<Rightarrow> int option) \<Rightarrow> int \<Rightarrow> int \<Rightarrow> string \<Rightarrow> int" where
  "trailsRetry parseTime now code h =
     (let dated = (case parseTime h of Some t \<Rightarrow> if t > now then t - now else 0 | None \<Rightarrow> 0);
          d = (if code = 429 \<or> code = 503 then
                 (case atoi h of Some s \<Rightarrow> if 0 \<le> s \<and> s \<le> (2 ^ 63 - 1) div oneSecond then s * oneSecond else dated
                  | None \<Rightarrow> dated)
               else 0)
      in if code = 429 \<and> d < oneSecond then oneSecond else d)"

definition trailsStatusError :: "(string \<Rightarrow> int option) \<Rightarrow> int \<Rightarrow> int \<Rightarrow> string \<Rightarrow> trailsError" where
  "trailsStatusError parseTime now code h =
     \<lparr>teKind = (if code = 400 then ''bad_request'' else if code = 401 then ''unauthorized'' else if code = 403 then ''forbidden''
         else if code = 429 then ''rate_limited'' else if code \<ge> 500 then ''service_unavailable'' else ''unexpected_status''),
      teStatus = code, teRetry = trailsRetry parseTime now code h\<rparr>"

definition trailsMeta :: "trailsError \<Rightarrow> (string \<times> string) list" where
  "trailsMeta e = [(''error_kind'', trailsSafeKind (teKind e))]
     @ (if teStatus e \<noteq> 0 then [(''http_status'', itoa (teStatus e))] else [])
     @ (if teRetry e > 0 then [(''retry_after_seconds'', itoa ((teRetry e - 1) div oneSecond + 1))] else [])"

section \<open>Pacing\<close>

text \<open>
  The shared client's state is the time of its next slot; \<open>None\<close> is Go's zero time, which has passed.  The critical section
  of one round, and what a deferral does.
\<close>

type_synonym slotTime = "int option"

definition slotTake :: "int \<Rightarrow> int \<Rightarrow> int \<Rightarrow> slotTime \<Rightarrow> int option \<times> slotTime" where
  "slotTake interval now stored s =
     (let delay = (case s of None \<Rightarrow> 0 | Some t \<Rightarrow> t - now)
      in if delay \<le> 0 then (None, Some (stored + interval)) else (Some delay, s))"

definition deferRequests :: "int \<Rightarrow> int \<Rightarrow> slotTime \<Rightarrow> slotTime" where
  "deferRequests now delay s =
     (case s of None \<Rightarrow> Some (now + delay) | Some t \<Rightarrow> if now + delay > t then Some (now + delay) else s)"

record poll =
  poCtx :: "goError option"               \<comment> \<open>\<open>ctx.Err()\<close> at the top of the loop\<close>
  poOthers :: "slotTime \<Rightarrow> slotTime"       \<comment> \<open>what other goroutines did meanwhile\<close>
  poNow :: int
  poStored :: int
  poDone :: "goError option"              \<comment> \<open>the context is done before the timer fires\<close>

text \<open>\<open>None\<close> is a loop that has not returned after the given rounds.\<close>

fun waitSlot :: "(goError \<Rightarrow> bool) \<Rightarrow> int \<Rightarrow> poll list \<Rightarrow> slotTime \<Rightarrow> trailsError option option \<times> slotTime" where
  "waitSlot timedOut interval [] s = (None, s)"
| "waitSlot timedOut interval (p # ps) s =
     (case poCtx p of Some e \<Rightarrow> (Some (Some (trailsRequestError timedOut (Some e) e)), s)
      | None \<Rightarrow>
        (case slotTake interval (poNow p) (poStored p) (poOthers p s) of
           (None, s') \<Rightarrow> (Some None, s')
         | (Some d, s') \<Rightarrow>
             (case poDone p of Some e \<Rightarrow> (Some (Some (trailsRequestError timedOut (Some e) e)), s')
              | None \<Rightarrow> waitSlot timedOut interval ps s')))"

section \<open>Records\<close>

record dnsRecord =
  drKind :: string
  drValue :: string

datatype addrClass = V4 | V6 | V4in6

record trailsDecoders =
  tdDomain :: "string \<Rightarrow> (string \<times> (string \<times> string) list option) option"   \<comment> \<open>host name, and families as raw texts\<close>
  tdSet :: "string \<Rightarrow> string list option option"                                \<comment> \<open>the values of a family\<close>
  tdAddr :: "string \<Rightarrow> string option"
  tdMX :: "string \<Rightarrow> (string \<times> int option) option"
  tdNS :: "string \<Rightarrow> string option"
  tdClass :: "string \<Rightarrow> addrClass"

definition domainOf :: "targetParsers \<Rightarrow> string \<Rightarrow> string + Target" where
  "domainOf tp = NewDomainTarget (tpLower tp) (\<lambda>v. tpAddr tp v \<noteq> None)"

definition addrRecord :: "targetParsers \<Rightarrow> trailsDecoders \<Rightarrow> string \<Rightarrow> string \<Rightarrow> string option" where
  "addrRecord tp td kind raw =
     (case tdAddr td raw of None \<Rightarrow> None
      | Some ip \<Rightarrow> (case tpAddr tp ip of None \<Rightarrow> None
          | Some (zone, canonical) \<Rightarrow>
              if zone \<noteq> [] \<or> (kind = ''a'' \<and> tdClass td ip \<noteq> V4) \<or> (kind = ''aaaa'' \<and> tdClass td ip \<noteq> V6) then None else Some canonical))"

definition mxRecord :: "targetParsers \<Rightarrow> trailsDecoders \<Rightarrow> string \<Rightarrow> string option" where
  "mxRecord tp td raw =
     (case tdMX td raw of Some (host, Some prio) \<Rightarrow>
        if prio < 0 \<or> prio > 65535 then None
        else if host = ''.'' \<and> prio = 0 then Some ''0 .''
        else map_option (\<lambda>t. itoa prio @ CHR '' '' # tValue t) (accepted (domainOf tp host))
      | _ \<Rightarrow> None)"

definition nsRecord :: "targetParsers \<Rightarrow> trailsDecoders \<Rightarrow> string \<Rightarrow> string option" where
  "nsRecord tp td raw =
     (case tdNS td raw of None \<Rightarrow> None | Some host \<Rightarrow> map_option tValue (accepted (domainOf tp host)))"

definition dnsRecordOf :: "targetParsers \<Rightarrow> trailsDecoders \<Rightarrow> string \<Rightarrow> string \<Rightarrow> dnsRecord option" where
  "dnsRecordOf tp td kind raw =
     map_option (\<lambda>v. \<lparr>drKind = ''dns_'' @ kind, drValue = v\<rparr>)
       (if kind = ''mx'' then mxRecord tp td raw else if kind = ''ns'' then nsRecord tp td raw else addrRecord tp td kind raw)"

definition maxDnsRecords :: nat where "maxDnsRecords = 2048"

text \<open>The families in their order, with the records so far; all failures are the same error.\<close>

fun familyLoop :: "targetParsers \<Rightarrow> trailsDecoders \<Rightarrow> (string \<times> string) list \<Rightarrow> string list \<Rightarrow> dnsRecord list \<Rightarrow> dnsRecord list option" where
  "familyLoop tp td dns [] got = Some got"
| "familyLoop tp td dns (kind # kinds) got =
     (case map_of dns kind of None \<Rightarrow> familyLoop tp td dns kinds got
      | Some raw \<Rightarrow>
          if trimSpace raw = ''null'' then familyLoop tp td dns kinds got
          else (case tdSet td raw of Some (Some values) \<Rightarrow>
                  if length got + length values > maxDnsRecords then None
                  else (case those (map (dnsRecordOf tp td kind) values) of None \<Rightarrow> None
                    | Some rs \<Rightarrow> familyLoop tp td dns kinds (got @ rs))
                | _ \<Rightarrow> None))"

definition recordLess :: "dnsRecord \<Rightarrow> dnsRecord \<Rightarrow> bool" where
  "recordLess a b = (if drKind a \<noteq> drKind b then drKind a < drKind b else drValue a < drValue b)"

definition parseDomain :: "targetParsers \<Rightarrow> trailsDecoders \<Rightarrow> string \<Rightarrow> string \<Rightarrow> trailsError + dnsRecord list" where
  "parseDomain tp td raw expected =
     (let bad = Inl ((trailsKind ''invalid_response'')\<lparr>teStatus := 200\<rparr>) in
      case tdDomain td raw of Some (host, Some dns) \<Rightarrow>
        if map_option tValue (accepted (domainOf tp host)) \<noteq> Some expected then bad
        else (case familyLoop tp td dns [''a'', ''aaaa'', ''mx'', ''ns''] [] of None \<Rightarrow> bad | Some rs \<Rightarrow> Inr (sortBy recordLess rs))
      | _ \<Rightarrow> bad)"

section \<open>The lookup\<close>

record trailsEnv = apiEnv +
  tvInterval :: int
  tvPolls :: "poll list"
  tvLater :: "slotTime \<Rightarrow> slotTime"       \<comment> \<open>what other goroutines did during the request\<close>

definition maxDomainBytes :: nat where "maxDomainBytes = 2097152"

definition trailsReply :: "targetParsers \<Rightarrow> trailsEnv \<Rightarrow> trailsDecoders \<Rightarrow> string \<Rightarrow> httpReply \<Rightarrow> trailsError + dnsRecord list" where
  "trailsReply tp tv td target r =
     (if rpStatus r \<noteq> 200 then Inl (trailsStatusError (hvParseTime tv) (hvNow tv) (rpStatus r) (rpRetryAfter r))
      else case readBody (maxDomainBytes + 1) r of
        Inl e \<Rightarrow> Inl (trailsRequestError (hvTimedOut tv) (hvCtx tv 1) e)
      | Inr raw \<Rightarrow>
          if length raw > maxDomainBytes then Inl ((trailsKind ''invalid_response'')\<lparr>teStatus := 200\<rparr>)
          else (case hvCtx tv 1 of Some e \<Rightarrow> Inl (trailsRequestError (hvTimedOut tv) (Some e) e)
                | None \<Rightarrow> parseDomain tp td raw target))"

text \<open>The slot after a reply: too many requests defer the next one.\<close>

definition slotAfter :: "trailsEnv \<Rightarrow> httpReply \<Rightarrow> slotTime \<Rightarrow> slotTime" where
  "slotAfter tv r s =
     (if rpStatus r = 429
      then deferRequests (hvNow tv) (teRetry (trailsStatusError (hvParseTime tv) (hvNow tv) 429 (rpRetryAfter r))) (tvLater tv s) else s)"

definition trailsSend :: "targetParsers \<Rightarrow> trailsEnv \<Rightarrow> trailsDecoders \<Rightarrow> string \<Rightarrow> string \<Rightarrow> slotTime
    \<Rightarrow> (trailsError + dnsRecord list) \<times> sentRequest list \<times> slotTime" where
  "trailsSend tp tv td key target s =
     (if key = [] then (Inl (trailsKind ''missing_api_key''), [], s)
      else let req = (hvBase tv @ ''/domain/'' @ pathEscape target,
             [(''Apikey'', key), (''Accept'', ''application/json''), (''User-Agent'', apiAgent)]) in
        (case hvNet tv req of
           BadRequest \<Rightarrow> (Inl (trailsKind ''bad_request''), [], s)
         | NoReply e \<Rightarrow> (Inl (trailsRequestError (hvTimedOut tv) (hvCtx tv 0) e), [req], s)
         | Reply r \<Rightarrow> (trailsReply tp tv td target r, [req], slotAfter tv r s)))"

text \<open>\<open>None\<close> is a lookup that still waits for its slot.\<close>

definition trailsLookup :: "targetParsers \<Rightarrow> trailsEnv \<Rightarrow> trailsDecoders \<Rightarrow> string \<Rightarrow> string \<Rightarrow> slotTime
    \<Rightarrow> ((trailsError + dnsRecord list) \<times> sentRequest list \<times> slotTime) option" where
  "trailsLookup tp tv td key domain s =
     (case domainOf tp domain of Inl _ \<Rightarrow> Some (Inl (trailsKind ''bad_request''), [], s)
      | Inr target \<Rightarrow>
        (case waitSlot (hvTimedOut tv) (tvInterval tv) (tvPolls tv) s of
           (None, _) \<Rightarrow> None
         | (Some (Some e), s') \<Rightarrow> Some (Inl e, [], s')
         | (Some None, s') \<Rightarrow> Some (trailsSend tp tv td key (tValue target) s')))"

section \<open>The source\<close>

definition trailsBase :: "targetParsers \<Rightarrow> string \<Rightarrow> Result" where
  "trailsBase tp domain =
     (case domainOf tp domain of
        Inl _ \<Rightarrow> emptyResult\<lparr>rSource := ''securitytrails'', rSourceType := SourceAPI\<rparr>
      | Inr t \<Rightarrow> NewResult ''securitytrails'' SourceAPI t)
     \<lparr>rTargetType := TargetDomain, rSiteName := ''SecurityTrails'', rURL := ''https://securitytrails.com/''\<rparr>"

definition trailsRow :: "Result \<times> string \<Rightarrow> trailsError + dnsRecord list \<Rightarrow> Result \<times> goError option" where
  "trailsRow base got =
     (case got of
        Inl e \<Rightarrow> ((fst base)\<lparr>rStatus := StatusError, rError := trailsText e, rMetadata := trailsMeta e\<rparr>, Some (trailsGo e))
      | Inr rs \<Rightarrow> ((fst base)\<lparr>rStatus := StatusFound, rConfidence := 100,
           rMetadata := [(''method'', ''domain-current-dns''), (''scope'', ''provider_observation''), (''dns_record_count'', itoa (int (length rs)))],
           rEvidence := \<lparr>evKind = ''domain'', evValue = snd base\<rparr> # map (\<lambda>r. \<lparr>evKind = drKind r, evValue = drValue r\<rparr>) rs\<rparr>, None))"

text \<open>The script of a search whose lookup ended with \<open>got\<close>.\<close>

definition trailsScript :: "targetParsers \<Rightarrow> string \<Rightarrow> bool \<Rightarrow> (trailsError + dnsRecord list) \<Rightarrow> string \<Rightarrow> script" where
  "trailsScript tp key nilEmit got domain =
     (if nilEmit then Return (Some (plainError ''SecurityTrails source requires a result consumer''))
      else oneRow (\<lambda>r. Normalized (tpLower tp) (RedactedResult (tpLower tp) [key, toLower (tpLower tp) key] r))
        (trailsRow (trailsBase tp domain, case domainOf tp domain of Inl _ \<Rightarrow> [] | Inr t \<Rightarrow> tValue t)
          (case domainOf tp domain of Inl _ \<Rightarrow> Inl (trailsKind ''bad_request'') | Inr t \<Rightarrow> got)))"

definition SearchDomain :: "targetParsers \<Rightarrow> trailsEnv \<Rightarrow> trailsDecoders \<Rightarrow> string \<Rightarrow> slotTime \<Rightarrow> bool \<Rightarrow> string \<Rightarrow> script option" where
  "SearchDomain tp tv td key s nilEmit domain =
     map_option (\<lambda>(got, _). trailsScript tp key nilEmit got domain)
       (case domainOf tp domain of Inl _ \<Rightarrow> Some (Inl (trailsKind ''bad_request''), [], s)
        | Inr t \<Rightarrow> trailsLookup tp tv td key (tValue t) s)"

section \<open>Facts\<close>

interpretation trails_row: single_row "trailsRow base" for base
  by unfold_locales (auto simp: trailsRow_def StatusError_def StatusFound_def split: sum.splits)

interpretation trails_source: keyed_source "trailsScript tp key nilEmit got" "tpLower tp" key for tp key nilEmit got
  by unfold_locales (unfold trailsScript_def, rule keyed_row)

end
