(* ===== verification/BitcoinLabels.thy ===== *)
theory BitcoinLabels
  imports BitcoinClient BitcoinAddr ApiSource
begin

text \<open>
  The address labels of a provider (\<open>src/internal/sources/bitcoinlabels\<close>): the strict reading of one JSON object, one paced
  request, and the row.  The failures and the classification of a broken request are those of \<open>BitcoinClient\<close>, whose code
  is repeated there.  \<open>encoding/json\<close> is an argument: the members of the outer object as far as they could be read and whether
  the text ended properly after them, and the scalars inside.  Durations of rows are not modelled.
\<close>

section \<open>The answer\<close>

record association =
  asLabel :: string
  asCategory :: string
  asWalletID :: string

record labelDoc =
  ldMembers :: "(string \<times> string) list"
  ldClosed :: bool

record labelDecoders =
  lbDoc :: "string \<Rightarrow> labelDoc option"            \<comment> \<open>\<open>None\<close>: the text does not begin with an object\<close>
  lbBool :: "string \<Rightarrow> bool option option"        \<comment> \<open>a nullable value; the outer \<open>None\<close> is a failure\<close>
  lbInt :: "string \<Rightarrow> int option option"
  lbString :: "string \<Rightarrow> string option"           \<comment> \<open>\<open>null\<close> leaves the empty text\<close>
  lbFormat :: "string \<Rightarrow> bool"                    \<comment> \<open>a rune of category Cf, Zl or Zp\<close>

definition maxLabelResponse :: nat where "maxLabelResponse = 262144"
definition MaxLabelBytes :: nat where "MaxLabelBytes = 256"
definition MaxIdentifierBytes :: nat where "MaxIdentifierBytes = 64"

definition labelSafeText :: "labelDecoders \<Rightarrow> string \<Rightarrow> nat \<Rightarrow> bool" where
  "labelSafeText ld s n \<longleftrightarrow> length s \<le> n \<and> utf8Valid s \<and> Redact s [] = s
     \<and> \<not> list_ex (\<lambda>r. controlRune r \<or> lbFormat ld r \<or> r = replacementRune) (runesOf s)"

definition badLabel :: "failure + 'a" where
  "badLabel = Inl (failureKind ''invalid_response'')"

definition unsupportedLabel :: "failure + 'a" where
  "unsupportedLabel = Inl (failureKind ''unsupported_response'')"

text \<open>The members of the object; the ones before a failure have been read by then.\<close>

fun memberLoop :: "(string \<times> string) list \<Rightarrow> (string \<times> string) list \<Rightarrow> failure + (string \<times> string) list" where
  "memberLoop [] got = Inr got"
| "memberLoop ((k, v) # ms) got =
     (if k \<in> fst ` set got then badLabel
      else if length got + 1 > 32 then unsupportedLabel
      else memberLoop ms (got @ [(k, v)]))"

definition nestedValue :: "string \<Rightarrow> bool" where
  "nestedValue v \<longleftrightarrow> v \<noteq> [] \<and> hd v \<in> set ''{[''"

definition labelText :: "labelDecoders \<Rightarrow> (string \<times> string) list \<Rightarrow> string \<Rightarrow> nat \<Rightarrow> failure + string" where
  "labelText ld ms k n =
     (case map_of ms k of None \<Rightarrow> Inr []
      | Some raw \<Rightarrow>
          let v = trimSpace raw in
          if nestedValue v then unsupportedLabel
          else if v = ''null'' then badLabel
          else (case lbString ld v of None \<Rightarrow> badLabel
            | Some s \<Rightarrow> if \<not> labelSafeText ld s n \<or> (s \<noteq> [] \<and> trimSpace s = []) then badLabel else Inr s))"

definition heightOK :: "labelDecoders \<Rightarrow> (string \<times> string) list \<Rightarrow> bool" where
  "heightOK ld ms \<longleftrightarrow>
     (case map_of ms ''updated_to_block'' of None \<Rightarrow> True
      | Some v \<Rightarrow> (case lbInt ld v of Some (Some h) \<Rightarrow> 0 \<le> h \<and> h \<le> 2147483647 | _ \<Rightarrow> False))"

definition associationOf :: "bool \<Rightarrow> string \<Rightarrow> string \<Rightarrow> string \<Rightarrow> failure + association" where
  "associationOf found l c w =
     (if \<not> found then (if l = [] \<and> c = [] \<and> w = [] then Inr \<lparr>asLabel = [], asCategory = [], asWalletID = []\<rparr> else badLabel)
      else if w = [] \<or> \<not> list_all hexChar w then badLabel
      else if l = [] \<and> c \<noteq> [] then unsupportedLabel
      else Inr \<lparr>asLabel = l, asCategory = c, asWalletID = map lowerC w\<rparr>)"

definition labelFound :: "labelDecoders \<Rightarrow> (string \<times> string) list \<Rightarrow> bool \<Rightarrow> failure + association" where
  "labelFound ld ms found =
     andThen (labelText ld ms ''label'' MaxLabelBytes) (\<lambda>l.
     andThen (labelText ld ms ''category'' MaxLabelBytes) (\<lambda>c.
     andThen (labelText ld ms ''wallet_id'' MaxIdentifierBytes) (\<lambda>w.
       if \<not> heightOK ld ms then badLabel else associationOf found l c w)))"

definition labelMembers :: "labelDecoders \<Rightarrow> (string \<times> string) list \<Rightarrow> failure + association" where
  "labelMembers ld ms =
     (if list_ex (\<lambda>(k, v). k \<notin> {''found'', ''error'', ''label'', ''wallet_id'', ''category'', ''updated_to_block''} \<and> nestedValue (trimSpace v)) ms
      then unsupportedLabel
      else case (case map_of ms ''found'' of None \<Rightarrow> Some None | Some v \<Rightarrow> lbBool ld v) of
        None \<Rightarrow> badLabel
      | Some found \<Rightarrow>
          (case map_of ms ''error'' of
             Some v \<Rightarrow> (case lbString ld v of None \<Rightarrow> badLabel
               | Some s \<Rightarrow> if \<not> labelSafeText ld s MaxLabelBytes \<or> s = [] \<or> found = Some True then badLabel
                   else Inl (failureKind ''provider_error''))
           | None \<Rightarrow> (case found of None \<Rightarrow> badLabel | Some f \<Rightarrow> labelFound ld ms f)))"

definition parseLabel :: "labelDecoders \<Rightarrow> string \<Rightarrow> failure + association" where
  "parseLabel ld raw =
     (if length raw > maxLabelResponse \<or> \<not> utf8Valid raw then badLabel
      else case lbDoc ld raw of None \<Rightarrow> badLabel
      | Some doc \<Rightarrow> andThen (memberLoop (ldMembers doc) []) (\<lambda>ms. if \<not> ldClosed doc then badLabel else labelMembers ld ms))"

section \<open>The lookup\<close>

definition labelURL :: "clientEnv \<Rightarrow> string \<Rightarrow> string" where
  "labelURL env address = ceBase env @ ''?address='' @ queryEscape address"

definition labelHTTPFailure :: "clientEnv \<Rightarrow> attempt \<Rightarrow> httpReply \<Rightarrow> limiter \<Rightarrow> failure \<times> limiter" where
  "labelHTTPFailure env a r rl =
     (let e = (failureKind ''http_error'')\<lparr>fStatus := rpStatus r\<rparr> in
      if rpStatus r = 429 \<or> rpStatus r = 503 then
        let delay = retryDelay (ceParseTime env) (atNow a) (rpRetryAfter r) in
        ((if rpStatus r = 429 then e\<lparr>fKind := ''rate_limited''\<rparr> else e)\<lparr>fRetry := nat ((delay + second - 1) div second)\<rparr>,
         Defer (ceHost env) (atNow a) (ceBase env) delay rl)
      else (e, rl))"

definition labelReply :: "clientEnv \<Rightarrow> labelDecoders \<Rightarrow> attempt \<Rightarrow> httpReply \<Rightarrow> limiter \<Rightarrow> (failure + association) \<times> limiter" where
  "labelReply env ld a r rl =
     (if rpStatus r \<noteq> 200 then (let (e, rl') = labelHTTPFailure env a r rl in (Inl e, rl'))
      else (case readBody (maxLabelResponse + 1) r of
          Inl e \<Rightarrow> Inl (requestFailure (ceTimedOut env) (atCtx a) e)
        | Inr raw \<Rightarrow>
            if length raw > maxLabelResponse then Inl (failureKind ''response_too_large'')
            else case atCtx a of Some e \<Rightarrow> Inl (requestFailure (ceTimedOut env) (Some e) e) | None \<Rightarrow> parseLabel ld raw, rl))"

definition labelLookup :: "clientEnv \<Rightarrow> labelDecoders \<Rightarrow> string \<Rightarrow> limiter \<Rightarrow> (failure + association) \<times> limiter" where
  "labelLookup env ld address rl =
     (let a = ceNet env 0 (labelURL env address); failed = requestFailure (ceTimedOut env) (atCtx a) in
      case atWait a of Some e \<Rightarrow> (Inl (failed e), rl)
      | None \<Rightarrow>
        (case atExchange a of
           BadRequest \<Rightarrow> (Inl (failureKind ''bad_request''), rl)
         | NoReply e \<Rightarrow> (Inl (failed e), rl)
         | Reply r \<Rightarrow> labelReply env ld a r rl))"

section \<open>The source\<close>

definition labelErrorText :: "failure \<Rightarrow> string" where
  "labelErrorText e = ''WalletExplorer label lookup failed ('' @ fKind e @ '')''"

definition labelGo :: "failure \<Rightarrow> goError" where
  "labelGo e = \<lparr>eText = labelErrorText e, eCanceled = (fKind e = ''cancelled''), eDeadline = (fKind e = ''timeout'')\<rparr>"

definition labelBase :: "clientEnv \<Rightarrow> Target \<Rightarrow> Result" where
  "labelBase env t = (NewResult ''bitcoin-labels'' SourceAPI t)
     \<lparr>rSiteName := ''WalletExplorer provider associations (not verified ownership)'', rURL := labelURL env (tValue t),
      rMetadata := [(''provider'', ''WalletExplorer''), (''scope'', ''external_provider_association''),
        (''confidence_basis'', ''provider-reported; not scored''), (''ownership'', ''not independently verified''), (''label_age'', ''unknown'')]\<rparr>"

definition associationJSON :: "association \<Rightarrow> json" where
  "associationJSON a = JObj (omitEmpty ''label'' (asLabel a) @ omitEmpty ''category'' (asCategory a)
     @ omitEmpty ''provider_wallet_id'' (asWalletID a))"

definition labelErrorMeta :: "failure \<Rightarrow> (string \<times> string) list" where
  "labelErrorMeta e = [(''label_status'', ''unavailable''), (''error_kind'', fKind e)]
     @ (if fStatus e \<noteq> 0 then [(''http_status'', itoa (fStatus e))] else [])
     @ (if fRetry e > 0 then [(''retry_after_seconds'', natDigits (fRetry e))] else [])"

definition labelRow :: "Result \<Rightarrow> failure + association \<Rightarrow> Result \<times> goError option" where
  "labelRow base got =
     (case got of
        Inl e \<Rightarrow> (base\<lparr>rStatus := StatusError, rError := labelErrorText e, rMetadata := rMetadata base @ labelErrorMeta e\<rparr>, Some (labelGo e))
      | Inr a \<Rightarrow> (base\<lparr>rStatus := (if asLabel a \<noteq> [] then StatusFound else StatusNotFound),
           rMetadata := rMetadata base @ [(''label_status'', if asLabel a \<noteq> [] then ''provider_label'' else ''no_label'')],
           rEvidence := (if asWalletID a \<noteq> [] then [\<lparr>evKind = ''crypto_provider_association'', evValue = jsonText (associationJSON a)\<rparr>] else [])\<rparr>,
         None))"

definition SearchLabels :: "targetParsers \<Rightarrow> clientEnv \<Rightarrow> labelDecoders \<Rightarrow> bool \<Rightarrow> string \<Rightarrow> limiter \<Rightarrow> script \<times> limiter" where
  "SearchLabels tp env ld nilEmit value rl =
     (if nilEmit then (Return (Some (plainError ''WalletExplorer requires a result consumer'')), rl)
      else case NewBitcoinTarget (tpLower tp) (tpUpper tp) value of
        Inl e \<Rightarrow> (Return (Some (plainError (addrMessage e))), rl)
      | Inr t \<Rightarrow>
          let (got, rl') = labelLookup env ld (tValue t) rl in
          (oneRow (Normalized (tpLower tp)) (labelRow (labelBase env t) got), rl'))"

interpretation label_row: single_row "labelRow base" for base
  by unfold_locales (auto simp: labelRow_def StatusError_def StatusFound_def StatusNotFound_def split: sum.splits)

end
