(* ===== verification/ProvidersInv.thy ===== *)
theory ProvidersInv
  imports Hibp Ipinfo SecurityTrails BitcoinLabels
begin

text \<open>
  What the sources over web services guarantee: keys stay in one header of one request to the configured endpoint and out of the
  rows, profiles and labels say no more than an accepted answer, records do not depend on the order of an answer, and the
  pacing of requests is that of the host limiter.
\<close>

section \<open>DNS records\<close>

text \<open>The values of a family: none when it is missing or null, and no answer when it is malformed.\<close>

definition familyValues :: "trailsDecoders \<Rightarrow> (string \<times> string) list \<Rightarrow> string \<Rightarrow> string list option" where
  "familyValues td dns kind =
     (case map_of dns kind of None \<Rightarrow> Some []
      | Some raw \<Rightarrow> if trimSpace raw = ''null'' then Some []
          else (case tdSet td raw of Some (Some vs) \<Rightarrow> Some vs | _ \<Rightarrow> None))"

lemma familyLoop_values:
  assumes "length got \<le> maxDnsRecords"
  shows "familyLoop tp td dns (kind # kinds) got =
    (case familyValues td dns kind of None \<Rightarrow> None
     | Some vs \<Rightarrow> if length got + length vs > maxDnsRecords then None
         else (case those (map (dnsRecordOf tp td kind) vs) of None \<Rightarrow> None | Some rs \<Rightarrow> familyLoop tp td dns kinds (got @ rs)))"
  using assms by (auto simp: familyValues_def split: option.splits)

lemma those_map:
  "those (map f xs) = (if \<forall>x \<in> set xs. f x \<noteq> None then Some (map (the \<circ> f) xs) else None)"
  by (induction xs) (auto split: option.splits)

definition sameFamilies :: "trailsDecoders \<Rightarrow> string list \<Rightarrow> (string \<times> string) list \<Rightarrow> (string \<times> string) list \<Rightarrow> bool" where
  "sameFamilies td kinds dns dns' \<longleftrightarrow>
     (\<forall>kind \<in> set kinds. map_option mset (familyValues td dns kind) = map_option mset (familyValues td dns' kind))"

lemma familyLoop_order:
  assumes "sameFamilies td kinds dns dns'" and "length got \<le> maxDnsRecords" and "mset got = mset got'"
  shows "map_option mset (familyLoop tp td dns kinds got) = map_option mset (familyLoop tp td dns' kinds got')"
  using assms
proof (induction kinds arbitrary: got got')
  case Nil
  then show ?case by simp
next
  case (Cons kind kinds)
  have len: "length got = length got'" using Cons.prems(3) by (metis size_mset)
  have rest: "sameFamilies td kinds dns dns'" using Cons.prems(1) by (simp add: sameFamilies_def)
  have head: "map_option mset (familyValues td dns kind) = map_option mset (familyValues td dns' kind)"
    using Cons.prems(1) by (simp add: sameFamilies_def)
  show ?case
  proof (cases "familyValues td dns kind")
    case None
    then show ?thesis using head len Cons.prems(2) by (simp add: familyLoop_values del: familyLoop.simps)
  next
    case (Some vs)
    then obtain vs' where vs': "familyValues td dns' kind = Some vs'" "mset vs = mset vs'" using head by (auto simp: map_option_case split: option.splits)
    have "length vs = length vs'" "set vs = set vs'" using vs'(2) by (metis size_mset, metis set_mset_mset)
    moreover have "mset (map f vs) = mset (map f vs')" for f :: "string \<Rightarrow> dnsRecord" using vs'(2) by simp
    ultimately show ?thesis using Some vs' len Cons.prems(2,3) Cons.IH [OF rest]
      by (auto simp: familyLoop_values those_map simp del: familyLoop.simps)
  qed
qed

lemma recordLess_order: "orderOn recordLess A"
  unfolding orderOn_def recordLess_def by (auto split: if_splits)

lemma sort_records: "map_option mset x = map_option mset y \<Longrightarrow> map_option (sortBy recordLess) x = map_option (sortBy recordLess) y"
  by (cases x; cases y) (auto intro: sortBy_unique [OF recordLess_order])

lemma familyLoop_length:
  assumes "familyLoop tp td dns kinds got = Some rs" and "length got \<le> maxDnsRecords"
  shows "length rs \<le> maxDnsRecords"
  using assms
proof (induction kinds arbitrary: got)
  case Nil
  then show ?case by simp
next
  case (Cons kind kinds)
  then show ?case
    by (auto simp: familyLoop_values those_map simp del: familyLoop.simps split: option.splits if_splits)
qed

lemma parseDomain_loop:
  assumes "tdDomain td raw = Some (host, Some dns)"
  shows "parseDomain tp td raw expected =
    (if map_option tValue (accepted (domainOf tp host)) \<noteq> Some expected then Inl ((trailsKind ''invalid_response'')\<lparr>teStatus := 200\<rparr>)
     else case map_option (sortBy recordLess) (familyLoop tp td dns [''a'', ''aaaa'', ''mx'', ''ns''] []) of
       None \<Rightarrow> Inl ((trailsKind ''invalid_response'')\<lparr>teStatus := 200\<rparr>) | Some rs \<Rightarrow> Inr rs)"
  by (cases "familyLoop tp td dns [''a'', ''aaaa'', ''mx'', ''ns''] []") (simp_all add: parseDomain_def Let_def assms del: familyLoop.simps)

section \<open>Pacing\<close>

text \<open>The shared client and its users, one critical section at a time.\<close>

record slotSystem =
  slSlot :: slotTime
  slClock :: int
  slLog :: "event list"

inductive slotStep :: "string \<Rightarrow> int \<Rightarrow> slotSystem \<Rightarrow> slotSystem \<Rightarrow> bool" for host interval where
  slot_time: "slClock s < now \<Longrightarrow> slotStep host interval s (s\<lparr>slClock := now\<rparr>)"
| slot_granted: "slClock s \<le> now \<Longrightarrow> now \<le> stored \<Longrightarrow> slotTake interval now stored (slSlot s) = (None, t) \<Longrightarrow>
    slotStep host interval s (s\<lparr>slSlot := t, slClock := stored, slLog := slLog s @ [Granted host stored]\<rparr>)"
| slot_refused: "slClock s \<le> now \<Longrightarrow> slotTake interval now stored (slSlot s) = (Some d, t) \<Longrightarrow>
    slotStep host interval s (s\<lparr>slSlot := t, slClock := now\<rparr>)"
| slot_deferred: "slClock s \<le> now \<Longrightarrow> 0 < d \<Longrightarrow>
    slotStep host interval s (s\<lparr>slSlot := deferRequests now d (slSlot s), slClock := now, slLog := slLog s @ [Deferred host now d]\<rparr>)"

definition freshSlot :: "int \<Rightarrow> slotSystem" where
  "freshSlot now = \<lparr>slSlot = None, slClock = now, slLog = []\<rparr>"

text \<open>The limiter of one host that the slot stands for.\<close>

definition slotLimiter :: "string \<Rightarrow> int \<Rightarrow> slotTime \<Rightarrow> limiter" where
  "slotLimiter host interval s = \<lparr>lDelay = interval, lLast = (case s of None \<Rightarrow> Map.empty | Some t \<Rightarrow> [host \<mapsto> t - interval])\<rparr>"

definition slotAbs :: "string \<Rightarrow> int \<Rightarrow> slotSystem \<Rightarrow> system" where
  "slotAbs host interval s = \<lparr>yLimiter = slotLimiter host interval (slSlot s), yClock = slClock s, yLog = slLog s\<rparr>"

lemma slotTake_acquire:
  "acquire host now stored (slotLimiter host interval s) =
     (fst (slotTake interval now stored s), slotLimiter host interval (snd (slotTake interval now stored s)))"
  by (auto simp: acquire_def slotTake_def slotLimiter_def Let_def split: option.splits)

lemma deferRequests_Defer:
  assumes "0 < d" and "host \<noteq> []"
  shows "Defer (\<lambda>_. Some host) now url d (slotLimiter host interval s) = slotLimiter host interval (deferRequests now d s)"
  using assms by (auto simp: Defer_def deferRequests_def slotLimiter_def Let_def split: option.splits)

lemma slotStep_simulated:
  assumes "slotStep host interval s t" and "host \<noteq> []"
  shows "limiterStep (\<lambda>_. Some host) (slotAbs host interval s) (slotAbs host interval t)"
  using assms(1)
proof cases
  case (slot_time now)
  then show ?thesis using limiterStep.time_passes [of "slotAbs host interval s" now] by (simp add: slotAbs_def)
next
  case (slot_granted now stored u)
  have "acquire host now stored (yLimiter (slotAbs host interval s)) = (None, slotLimiter host interval u)"
    using slot_granted(4) by (simp add: slotAbs_def slotTake_acquire)
  from limiterStep.grant [OF _ assms(2) _ slot_granted(3) this, of "\<lambda>_. Some host" undefined] slot_granted
  show ?thesis by (simp add: slotAbs_def)
next
  case (slot_refused now stored d u)
  have "acquire host now stored (yLimiter (slotAbs host interval s)) = (Some d, slotLimiter host interval u)"
    using slot_refused(3) by (simp add: slotAbs_def slotTake_acquire)
  from limiterStep.refuse [OF _ assms(2) _ this, of "\<lambda>_. Some host" undefined] slot_refused
  show ?thesis by (simp add: slotAbs_def)
next
  case (slot_deferred now d)
  from limiterStep.postpone [of "\<lambda>_. Some host" undefined host d "slotAbs host interval s" now] assms(2) slot_deferred
  show ?thesis by (simp add: slotAbs_def deferRequests_Defer)
qed

lemma slot_reachable:
  assumes "reachable (\<lambda>s. \<exists>now. s = freshSlot now) (slotStep host interval) s" and "host \<noteq> []"
  shows "reachable (\<lambda>s. \<exists>now. s = freshSystem interval now) (limiterStep (\<lambda>_. Some host)) (slotAbs host interval s)"
  using assms(1)
proof (induction rule: reachable.induct)
  case (start s)
  then show ?case
    by (intro reachable.start) (auto simp: freshSlot_def slotAbs_def slotLimiter_def freshSystem_def NewHostLimiter_def)
next
  case (next_state s t)
  then show ?case using slotStep_simulated assms(2) reachable.next_state by metis
qed

lemma at_least: "x \<le> (if d < x then x else (d :: int))"
  by simp

lemma trailsRetry_min: "oneSecond \<le> trailsRetry parseTime now 429 h"
  unfolding trailsRetry_def Let_def by (simp only: simp_thms at_least)

lemma deferRequests_min: "\<exists>t. deferRequests now d s = Some t \<and> now + d \<le> t"
  by (auto simp: deferRequests_def split: option.split)

text \<open>A cancelled wait takes no slot.\<close>

lemma waitSlot_cancelled:
  "waitSlot timedOut interval ps s = (Some (Some e), s') \<Longrightarrow> \<forall>p \<in> set ps. poOthers p = id \<Longrightarrow> s' = s"
  by (induction timedOut interval ps s rule: waitSlot.induct) (auto simp: slotTake_def Let_def split: option.splits if_splits)

section \<open>Labels\<close>

lemma memberLoop_reads:
  assumes "memberLoop ms got = Inr out" and "distinct (map fst got)" and "length got \<le> 32"
  shows "out = got @ ms \<and> distinct (map fst out) \<and> length out \<le> 32"
  using assms by (induction ms got rule: memberLoop.induct) (auto simp: badLabel_def unsupportedLabel_def image_iff split: if_splits, force+)

lemma labelText_sound:
  assumes "labelText ld ms k n = Inr s" and "labelSafeText ld [] n"
  shows "labelSafeText ld s n"
  using assms by (auto simp: labelText_def badLabel_def unsupportedLabel_def Let_def split: option.splits if_splits)

lemma empty_safe: "labelSafeText ld [] n"
proof -
  have "Redact [] [] = []" by code_simp
  then show ?thesis by (simp add: labelSafeText_def runesOf.simps utf8Valid.simps)
qed

text \<open>An association that may be reported.\<close>

definition associationOK :: "labelDecoders \<Rightarrow> association \<Rightarrow> bool" where
  "associationOK ld a \<longleftrightarrow> labelSafeText ld (asLabel a) MaxLabelBytes \<and> labelSafeText ld (asCategory a) MaxLabelBytes
     \<and> (asLabel a = [] \<longrightarrow> asCategory a = []) \<and> (asWalletID a = [] \<longrightarrow> asLabel a = [])
     \<and> length (asWalletID a) \<le> MaxIdentifierBytes \<and> list_all (\<lambda>c. hexChar c \<and> lowerC c = c) (asWalletID a)"

lemma hexChar_lower: "hexChar c \<Longrightarrow> hexChar (lowerC c)"
  by (auto simp: hexChar_def byteVal_lowerC isDigitC_def isUpperC_def)

lemma associationOf_sound:
  assumes "associationOf found l c w = Inr a" and "labelSafeText ld l MaxLabelBytes" "labelSafeText ld c MaxLabelBytes"
    and "labelSafeText ld w MaxIdentifierBytes"
  shows "associationOK ld a \<and> (found \<longleftrightarrow> asWalletID a \<noteq> [])"
  using assms hexChar_lower empty_safe
  by (auto simp: associationOf_def associationOK_def badLabel_def unsupportedLabel_def list_all_iff labelSafeText_def [of _ w] split: if_splits)

lemma labelMembers_sound:
  assumes "labelMembers ld ms = Inr a"
  shows "associationOK ld a \<and> map_of ms ''error'' = None
    \<and> (\<exists>v. map_of ms ''found'' = Some v \<and> lbBool ld v = Some (Some (asWalletID a \<noteq> [])))"
proof -
  obtain f where f: "map_of ms ''error'' = None" "labelFound ld ms f = Inr a"
      "\<exists>v. map_of ms ''found'' = Some v \<and> lbBool ld v = Some (Some f)"
    using assms by (auto simp: labelMembers_def badLabel_def unsupportedLabel_def split: if_splits option.splits)
  obtain l c w where "labelText ld ms ''label'' MaxLabelBytes = Inr l" "labelText ld ms ''category'' MaxLabelBytes = Inr c"
      "labelText ld ms ''wallet_id'' MaxIdentifierBytes = Inr w" "associationOf f l c w = Inr a"
    using f(2) by (auto simp: labelFound_def andThen_def badLabel_def split: sum.splits if_splits)
  then have "associationOK ld a \<and> (f \<longleftrightarrow> asWalletID a \<noteq> [])"
    using associationOf_sound labelText_sound empty_safe by metis
  then show ?thesis using f by auto
qed

text \<open>The text of a member as the decoder reads it, empty when the object does not have it; and an association of these texts.\<close>

definition memberText :: "labelDecoders \<Rightarrow> (string \<times> string) list \<Rightarrow> string \<Rightarrow> string option" where
  "memberText ld ms k = (case map_of ms k of None \<Rightarrow> Some [] | Some raw \<Rightarrow> lbString ld (trimSpace raw))"

definition givenTexts :: "labelDecoders \<Rightarrow> (string \<times> string) list \<Rightarrow> association \<Rightarrow> bool" where
  "givenTexts ld ms a \<longleftrightarrow> memberText ld ms ''label'' = Some (asLabel a) \<and> memberText ld ms ''category'' = Some (asCategory a)
     \<and> map_option (map lowerC) (memberText ld ms ''wallet_id'') = Some (asWalletID a)"

lemma labelText_given: "labelText ld ms k n = Inr s \<Longrightarrow> memberText ld ms k = Some s"
  by (auto simp: labelText_def memberText_def badLabel_def unsupportedLabel_def Let_def split: option.splits if_splits)

lemma associationOf_given:
  "associationOf found l c w = Inr a \<Longrightarrow> asLabel a = l \<and> asCategory a = c \<and> asWalletID a = map lowerC w"
  by (auto simp: associationOf_def badLabel_def unsupportedLabel_def split: if_splits)

lemma labelMembers_given:
  assumes "labelMembers ld ms = Inr a"
  shows "givenTexts ld ms a"
proof -
  obtain f where "labelFound ld ms f = Inr a"
    using assms by (auto simp: labelMembers_def badLabel_def unsupportedLabel_def split: if_splits option.splits)
  then obtain l c w where "labelText ld ms ''label'' MaxLabelBytes = Inr l" "labelText ld ms ''category'' MaxLabelBytes = Inr c"
      "labelText ld ms ''wallet_id'' MaxIdentifierBytes = Inr w" "associationOf f l c w = Inr a"
    by (auto simp: labelFound_def andThen_def badLabel_def split: sum.splits if_splits)
  then show ?thesis using labelText_given associationOf_given unfolding givenTexts_def by fastforce
qed

lemma parseLabel_sound:
  assumes "parseLabel ld raw = Inr a"
  shows "\<exists>doc. lbDoc ld raw = Some doc \<and> ldClosed doc \<and> distinct (map fst (ldMembers doc)) \<and> length (ldMembers doc) \<le> 32
    \<and> labelMembers ld (ldMembers doc) = Inr a"
proof -
  obtain doc ms where doc: "lbDoc ld raw = Some doc" "memberLoop (ldMembers doc) [] = Inr ms" "ldClosed doc" "labelMembers ld ms = Inr a"
    using assms by (auto simp: parseLabel_def andThen_def badLabel_def split: if_splits option.splits sum.splits)
  then show ?thesis using memberLoop_reads [OF doc(2)] by auto
qed

lemma labelLookup_sound:
  assumes "labelLookup env ld address rl = (Inr a, rl')"
  shows "rl' = rl \<and> (\<exists>r. atExchange (ceNet env 0 (labelURL env address)) = Reply r \<and> rpStatus r = 200
    \<and> length (rpBody r) \<le> maxLabelResponse \<and> parseLabel ld (rpBody r) = Inr a)"
proof -
  let ?a = "ceNet env 0 (labelURL env address)"
  obtain r where r: "atExchange ?a = Reply r" "labelReply env ld ?a r rl = (Inr a, rl')"
    using assms by (auto simp: labelLookup_def Let_def split: option.splits exchange.splits)
  obtain raw where raw: "rpStatus r = 200" "readBody (maxLabelResponse + 1) r = Inr raw" "length raw \<le> maxLabelResponse"
      "parseLabel ld raw = Inr a" "rl' = rl"
    using r(2) by (auto simp: labelReply_def split: if_splits sum.splits option.splits prod.splits)
  have "raw = take (maxLabelResponse + 1) (rpBody r)" using raw(2) by (auto simp: readBody_def split: option.splits if_splits)
  then have "raw = rpBody r" using raw(3) by (simp add: min_def split: if_splits)
  then show ?thesis using r raw by auto
qed

section \<open>Keys\<close>



lemma ip_unsent: "NewIPTarget (tpAddr tp) ip = Inl e \<Longrightarrow> snd (ipLookup tp hv decode key ip) = []"
  by (simp add: ipLookup_def)


section \<open>Properties\<close>


text \<open>C30: an address profile is what the provider said of this very address: a lookup that succeeds has sent one request for the
  canonical address, got status 200 with a complete body of at most 64 KiB in valid UTF-8, and the decoded profile names the
  same address; every reported field is at most 256 bytes of valid UTF-8 without control characters, and the row is a find.\<close>

theorem ip_profile_sound:
  assumes "ipLookup tp hv decode key ip = (Inr p, sent)"
  shows "\<exists>t req r q. NewIPTarget (tpAddr tp) ip = Inr t \<and> sent = [req] \<and> fst req = hvBase hv @ CHR ''/'' # tValue t
    \<and> hvNet hv req = Reply r \<and> rpStatus r = 200 \<and> length (rpBody r) \<le> maxProfileBytes \<and> utf8Valid (rpBody r)
    \<and> decode (rpBody r) = Some q \<and> NewIPTarget (tpAddr tp) (ipIP q) = Inr t \<and> p = q\<lparr>ipIP := tValue t\<rparr>
    \<and> (\<forall>f \<in> set (profileFields p). length (snd f) \<le> 256 \<and> utf8Valid (snd f) \<and> \<not> list_ex controlRune (runesOf (snd f)))
    \<and> (\<forall>base. rStatus (fst (ipRow base (Inr p))) = StatusFound \<and> snd (ipRow base (Inr p)) = None)"
proof -
  obtain t req r where t: "NewIPTarget (tpAddr tp) ip = Inr t" "sent = [req]" "fst req = hvBase hv @ CHR ''/'' # tValue t"
      "hvNet hv req = Reply r" "ipReply tp hv decode (tValue t) r = Inr p"
    using assms by (auto simp: ipLookup_def Let_def split: sum.splits option.splits exchange.splits)
  obtain raw where raw: "rpStatus r = 200" "readBody (maxProfileBytes + 1) r = Inr raw" "length raw \<le> maxProfileBytes"
      "parseProfile tp decode raw (tValue t) = Inr p"
    using t(5) by (auto simp: ipReply_def split: if_splits sum.splits option.splits)
  have "raw = take (maxProfileBytes + 1) (rpBody r)" using raw(2) by (auto simp: readBody_def split: option.splits if_splits)
  then have body: "raw = rpBody r" using raw(3) by (simp add: min_def split: if_splits)
  obtain q t' where q: "utf8Valid raw" "decode raw = Some q" "NewIPTarget (tpAddr tp) (ipIP q) = Inr t'" "tValue t' = tValue t"
      "list_all ipValidText [ipASN q, ipASName q, ipASDomain q, ipCountryCode q, ipCountry q, ipContinentCode q, ipContinent q]"
      "p = q\<lparr>ipIP := tValue t'\<rparr>"
    using raw(4) unfolding parseProfile_def Let_def by (auto split: if_splits option.splits sum.splits)
  have same: "t' = t" using q(3,4) t(1)
    by (auto simp: NewIPTarget_def Let_def failIf_def plainTarget_def split: if_splits option.splits prod.splits)
  have "ipValidText ''true''" "ipValidText ''false''" by code_simp+
  then have "ipValidText (boolText b)" for b by (simp add: boolText_def)
  then have "\<forall>f \<in> set (profileFields p). ipValidText (snd f)"
    using q(5,6) by (auto simp: profileFields_def split: option.splits)
  moreover have "rStatus (fst (ipRow base (Inr p))) = StatusFound \<and> snd (ipRow base (Inr p)) = None" for base by (simp add: ipRow_def)
  ultimately show ?thesis using t(1-4) raw(1,3) q(1,2,3,6) same body unfolding ipValidText_def
    by (intro exI [of _ t] exI [of _ req] exI [of _ r] exI [of _ q]) blast
qed

text \<open>C31: the DNS records of a domain do not depend on the order of the answer: two answers whose families have the same values, in
  whatever order of values and of families, give the same records or the same error; records are sorted and at most 2048.\<close>

theorem dns_order_independent:
  assumes "tdDomain td raw = Some (host, Some dns)" and "tdDomain td raw' = Some (host, Some dns')"
    and "sameFamilies td [''a'', ''aaaa'', ''mx'', ''ns''] dns dns'"
  shows "parseDomain tp td raw expected = parseDomain tp td raw' expected
    \<and> (\<forall>rs. parseDomain tp td raw expected = Inr rs \<longrightarrow> length rs \<le> maxDnsRecords \<and> sorted_wrt (\<lambda>a b. \<not> recordLess b a) rs)"
proof -
  let ?kinds = "[''a'', ''aaaa'', ''mx'', ''ns'']"
  let ?l = "familyLoop tp td dns ?kinds []" and ?l' = "familyLoop tp td dns' ?kinds []"
  have rs: "map_option (sortBy recordLess) ?l = map_option (sortBy recordLess) ?l'"
    by (rule sort_records, rule familyLoop_order [OF assms(3)]) simp_all
  have eq: "parseDomain tp td raw expected = parseDomain tp td raw' expected"
    unfolding parseDomain_loop [OF assms(1)] parseDomain_loop [OF assms(2)] rs ..
  have "length rs \<le> maxDnsRecords \<and> sorted_wrt (\<lambda>a b. \<not> recordLess b a) rs" if "parseDomain tp td raw expected = Inr rs" for rs
  proof -
    from that obtain us where us: "?l = Some us" "rs = sortBy recordLess us"
      unfolding parseDomain_loop [OF assms(1)] by (auto simp del: familyLoop.simps split: if_splits option.splits)
    show ?thesis using familyLoop_length [OF us(1)] us(2) sorted_sortBy [OF recordLess_order] by simp
  qed
  then show ?thesis using eq by blast
qed

text \<open>C32: the pacing of SecurityTrails refines the host limiter for one host: every critical section is one of the limiter, reachable
  states stand for reachable limiters, so that request starts are an interval apart and a deferral holds; a cancelled wait
  takes no slot, and an answer of too many requests defers by at least one second.\<close>

theorem slot_refines_limiter:
  assumes "0 < interval" and "host \<noteq> []" and "reachable (\<lambda>s. \<exists>now. s = freshSlot now) (slotStep host interval) s"
  shows "reachable (\<lambda>s. \<exists>now. s = freshSystem interval now) (limiterStep (\<lambda>_. Some host)) (slotAbs host interval s)
    \<and> (slotStep host interval s u \<longrightarrow> limiterStep (\<lambda>_. Some host) (slotAbs host interval s) (slotAbs host interval u))
    \<and> sorted_wrt (obeys interval) (slLog s)
    \<and> (waitSlot timedOut interval ps sl = (Some (Some e), sl') \<longrightarrow> (\<forall>p \<in> set ps. poOthers p = id) \<longrightarrow> sl' = sl)
    \<and> (rpStatus r = 429 \<longrightarrow> (\<exists>t. slotAfter tv r sl = Some t \<and> hvNow tv + oneSecond \<le> t))"
proof -
  have r: "reachable (\<lambda>s. \<exists>now. s = freshSystem interval now) (limiterStep (\<lambda>_. Some host)) (slotAbs host interval s)"
    using slot_reachable [OF assms(3,2)] .
  have "(\<lambda>s. 0 < interval \<and> (\<exists>now. s = freshSystem interval now)) = (\<lambda>s. \<exists>now. s = freshSystem interval now)"
    using assms(1) by simp
  then have "spacedInv interval (slotAbs host interval s)" using limits.reachable_inv [of interval "\<lambda>_. Some host"] r by simp
  then have "sorted_wrt (obeys interval) (slLog s)" by (simp add: spacedInv_def slotAbs_def)
  moreover have "\<exists>t. slotAfter tv r sl = Some t \<and> hvNow tv + oneSecond \<le> t" if "rpStatus r = 429"
  proof -
    let ?d = "trailsRetry (hvParseTime tv) (hvNow tv) 429 (rpRetryAfter r)"
    have "slotAfter tv r sl = deferRequests (hvNow tv) ?d (tvLater tv sl)" using that by (simp add: slotAfter_def trailsStatusError_def)
    then show ?thesis using deferRequests_min [of "hvNow tv" ?d "tvLater tv sl"] trailsRetry_min [of "hvParseTime tv" "hvNow tv" "rpRetryAfter r"]
      by fastforce
  qed
  ultimately show ?thesis using r slotStep_simulated [OF _ assms(2)] waitSlot_cancelled by blast
qed

text \<open>C33: a label is only reported when the provider gave it, and as the provider gave it: a lookup that succeeds got status 200 with a
  complete body, one closed object with at most 32 distinct members, no error and an explicit answer, which is positive exactly when
  there is a wallet; the label and the category are the decoded texts of the members \<open>label\<close> and \<open>category\<close> (empty when
  absent), and the wallet is the lower-cased text of \<open>wallet_id\<close>; they are safe text, a label has a wallet, a category has a label, and the
  wallet is hexadecimal.  The row is a find exactly for a label, an error exactly for a failure, and its evidence is, exactly when
  there is a wallet, the one object of these three texts.\<close>

theorem label_sound:
  assumes "labelLookup env ld address rl = (got, rl')" and "rEvidence base = []"
  shows "(rStatus (fst (labelRow base got)) = StatusError \<longleftrightarrow> (\<exists>e. got = Inl e))
    \<and> (rStatus (fst (labelRow base got)) = StatusFound \<longleftrightarrow> (\<exists>a. got = Inr a \<and> asLabel a \<noteq> []))
    \<and> rEvidence (fst (labelRow base got)) = (case got of Inl _ \<Rightarrow> [] | Inr a \<Rightarrow> if asWalletID a = [] then [] else
        [\<lparr>evKind = ''crypto_provider_association'', evValue = jsonText (JObj (omitEmpty ''label'' (asLabel a)
           @ omitEmpty ''category'' (asCategory a) @ omitEmpty ''provider_wallet_id'' (asWalletID a)))\<rparr>])
    \<and> (\<forall>a. got = Inr a \<longrightarrow> rl' = rl \<and> associationOK ld a
        \<and> (\<exists>r doc v. atExchange (ceNet env 0 (labelURL env address)) = Reply r \<and> rpStatus r = 200 \<and> length (rpBody r) \<le> maxLabelResponse
            \<and> lbDoc ld (rpBody r) = Some doc \<and> ldClosed doc \<and> distinct (map fst (ldMembers doc)) \<and> length (ldMembers doc) \<le> 32
            \<and> map_of (ldMembers doc) ''error'' = None \<and> map_of (ldMembers doc) ''found'' = Some v \<and> lbBool ld v = Some (Some (asWalletID a \<noteq> []))
            \<and> givenTexts ld (ldMembers doc) a))"
proof -
  have "rl' = rl \<and> associationOK ld a
      \<and> (\<exists>r doc v. atExchange (ceNet env 0 (labelURL env address)) = Reply r \<and> rpStatus r = 200 \<and> length (rpBody r) \<le> maxLabelResponse
          \<and> lbDoc ld (rpBody r) = Some doc \<and> ldClosed doc \<and> distinct (map fst (ldMembers doc)) \<and> length (ldMembers doc) \<le> 32
          \<and> map_of (ldMembers doc) ''error'' = None \<and> map_of (ldMembers doc) ''found'' = Some v \<and> lbBool ld v = Some (Some (asWalletID a \<noteq> []))
          \<and> givenTexts ld (ldMembers doc) a)"
    if got: "got = Inr a" for a
  proof -
    obtain r where r: "rl' = rl" "atExchange (ceNet env 0 (labelURL env address)) = Reply r" "rpStatus r = 200"
        "length (rpBody r) \<le> maxLabelResponse" "parseLabel ld (rpBody r) = Inr a"
      using labelLookup_sound assms(1) got by blast
    then show ?thesis using parseLabel_sound [OF r(5)] labelMembers_sound labelMembers_given by blast
  qed
  then show ?thesis
    by (cases got) (auto simp: labelRow_def associationJSON_def assms(2) StatusError_def StatusFound_def StatusNotFound_def)
qed

section \<open>Concrete runs\<close>

text \<open>A world with one answer for every request, one key, and addresses that are texts of digits and dots.\<close>

definition demoParsers :: targetParsers where
  "demoParsers = \<lparr>tpLower = (\<lambda>s. s), tpUpper = (\<lambda>s. s), tpAddr = (\<lambda>s. if list_all (\<lambda>c. isDigitC c \<or> c = CHR ''.'') s then Some ([], s) else None),
     tpMail = (\<lambda>_. None), tpLetter = (\<lambda>_. False)\<rparr>"




definition demoReply :: httpReply where
  "demoReply = \<lparr>rpStatus = 200, rpRetryAfter = [], rpBody = ''{}'', rpReadErr = None\<rparr>"

definition demoApi :: "string \<Rightarrow> apiEnv" where
  "demoApi base = \<lparr>hvBase = base, hvNet = (\<lambda>_. Reply demoReply), hvCtx = (\<lambda>_. None), hvTimedOut = (\<lambda>_. False),
     hvParseTime = (\<lambda>_. None), hvNow = 0\<rparr>"


definition demoProfile :: ipProfile where
  "demoProfile = \<lparr>ipIP = ''1.2.3.4'', ipASN = ''AS7'', ipASName = ''N'', ipASDomain = [], ipCountryCode = ''SE'', ipCountry = [],
     ipContinentCode = ''EU'', ipContinent = [], ipBogon = Some False\<rparr>"


lemma demo_ipLookup:
  "ipLookup demoParsers (demoApi ''i'') (\<lambda>_. Some demoProfile) ''k'' ''1.2.3.4'' =
     (Inr demoProfile, [(''i/1.2.3.4'', [(''Authorization'', ''Bearer k''), (''Accept'', ''application/json''), (''User-Agent'', apiAgent)])])"
  by code_simp

theorem ip_profile_sound_witness:
  "\<exists>q. ipIP q = ''1.2.3.4'' \<and> (\<forall>f \<in> set (profileFields q). length (snd f) \<le> 256) \<and> q = demoProfile"
  using ip_profile_sound [OF demo_ipLookup] by (auto simp: demoProfile_def)



definition demoDNS :: trailsDecoders where
  "demoDNS = \<lparr>tdDomain = (\<lambda>s. Some (''a.bc'', Some (if s = ''1'' then [(''a'', ''x''), (''ns'', ''y'')] else [(''ns'', ''y''), (''a'', ''z'')]))),
     tdSet = (\<lambda>s. Some (Some (if s = ''x'' then [''1.1.1.1'', ''2.2.2.2''] else if s = ''z'' then [''2.2.2.2'', ''1.1.1.1''] else [''n.bc'']))),
     tdAddr = Some, tdMX = (\<lambda>_. None), tdNS = Some, tdClass = (\<lambda>_. V4)\<rparr>"

lemma demo_families: "sameFamilies demoDNS [''a'', ''aaaa'', ''mx'', ''ns''] [(''a'', ''x''), (''ns'', ''y'')] [(''ns'', ''y''), (''a'', ''z'')]"
proof -
  have "trimSpace ''x'' \<noteq> ''null''" "trimSpace ''y'' \<noteq> ''null''" "trimSpace ''z'' \<noteq> ''null''" by code_simp+
  then show ?thesis by (simp add: sameFamilies_def familyValues_def demoDNS_def)
qed

lemma demo_dns_records:
  "parseDomain demoParsers demoDNS ''1'' ''a.bc'' = Inr [\<lparr>drKind = ''dns_a'', drValue = ''1.1.1.1''\<rparr>,
     \<lparr>drKind = ''dns_a'', drValue = ''2.2.2.2''\<rparr>, \<lparr>drKind = ''dns_ns'', drValue = ''n.bc''\<rparr>]"
  by code_simp

theorem dns_order_independent_witness:
  "parseDomain demoParsers demoDNS ''2'' ''a.bc'' = Inr [\<lparr>drKind = ''dns_a'', drValue = ''1.1.1.1''\<rparr>,
     \<lparr>drKind = ''dns_a'', drValue = ''2.2.2.2''\<rparr>, \<lparr>drKind = ''dns_ns'', drValue = ''n.bc''\<rparr>]"
  using dns_order_independent [OF _ _ demo_families, of "''1''" "''a.bc''" "''2''" demoParsers "''a.bc''"] demo_dns_records by (simp add: demoDNS_def)

lemma demo_slots:
  "reachable (\<lambda>s. \<exists>now. s = freshSlot now) (slotStep ''h'' 10) \<lparr>slSlot = Some 23, slClock = 13, slLog = [Granted ''h'' 2, Granted ''h'' 13]\<rparr>"
proof -
  let ?r = "reachable (\<lambda>s. \<exists>now. s = freshSlot now) (slotStep ''h'' 10)"
  have own: "?r s \<Longrightarrow> slotStep ''h'' 10 s t' \<Longrightarrow> t' = t \<Longrightarrow> ?r t" for s t' t
    by (drule (1) reachable.next_state, hypsubst)
  have "?r \<lparr>slSlot = None, slClock = 0, slLog = []\<rparr>" by (rule reachable.start) (auto simp: freshSlot_def)
  then have "?r \<lparr>slSlot = Some 12, slClock = 2, slLog = [Granted ''h'' 2]\<rparr>"
    by (rule own) (rule slotStep.slot_granted [where now = 1 and stored = 2], simp_all add: slotTake_def)
  then show ?thesis
    by (rule own) (rule slotStep.slot_granted [where now = 12 and stored = 13], simp_all add: slotTake_def)
qed

theorem slot_refines_limiter_witness: "sorted_wrt (obeys 10) [Granted ''h'' 2, Granted ''h'' 13]"
  using slot_refines_limiter [OF _ _ demo_slots] by simp

definition demoLabels :: labelDecoders where
  "demoLabels = \<lparr>lbDoc = (\<lambda>_. Some \<lparr>ldMembers = [(''found'', ''true''), (''label'', ''X''), (''wallet_id'', ''AB'')], ldClosed = True\<rparr>),
     lbBool = (\<lambda>s. Some (Some (s = ''true''))), lbInt = (\<lambda>_. None), lbString = Some, lbFormat = (\<lambda>_. False)\<rparr>"

definition demoLabelEnv :: clientEnv where
  "demoLabelEnv = \<lparr>ceNet = (\<lambda>_ _. \<lparr>atWait = None, atExchange = Reply demoReply, atCtx = None, atNow = 0\<rparr>), ceTimedOut = (\<lambda>_. False),
     ceParseTime = (\<lambda>_. None), ceHost = (\<lambda>_. None), ceBase = ''https://h''\<rparr>"

lemma demo_label:
  "labelLookup demoLabelEnv demoLabels ''x'' rl = (Inr \<lparr>asLabel = ''X'', asCategory = [], asWalletID = ''ab''\<rparr>, rl)"
proof -
  have "parseLabel demoLabels ''{}'' = Inr \<lparr>asLabel = ''X'', asCategory = [], asWalletID = ''ab''\<rparr>" by code_simp
  then show ?thesis by (simp add: labelLookup_def labelReply_def readBody_def demoLabelEnv_def demoReply_def maxLabelResponse_def)
qed

theorem label_sound_witness:
  "rStatus (fst (labelRow emptyResult (Inr \<lparr>asLabel = ''X'', asCategory = [], asWalletID = ''ab''\<rparr>))) = StatusFound
    \<and> associationOK demoLabels \<lparr>asLabel = ''X'', asCategory = [], asWalletID = ''ab''\<rparr>"
  using label_sound [OF demo_label, of emptyResult] by (simp add: emptyResult_def)

end
