(* ===== verification/ReportText.thy ===== *)
theory ReportText
  imports HttpRequest ReportAttach HttpExchange
begin

text \<open>
  The text of a report (\<open>src/internal/report/render.go\<close>): the view that all readable formats share, what is made
  visible of a text, the wrapping of lines, and the CSV projections.  A report with its analysis is a pair, as in
  \<open>ReportAttach\<close>.  The other renderers (JSON indentation, HTML template, DOCX, PDF) are arguments.
\<close>

section \<open>Visible text\<close>

text \<open>The code point of a character; an invalid byte counts as the replacement character.\<close>

definition runeValue :: "string \<Rightarrow> nat" where
  "runeValue r =
     (case map byteVal r of
        [a] \<Rightarrow> if a < 128 then a else 0xFFFD
      | [a, b] \<Rightarrow> (a - 192) * 64 + (b - 128)
      | [a, b, c] \<Rightarrow> (a - 224) * 4096 + (b - 128) * 64 + (c - 128)
      | [a, b, c, d] \<Rightarrow> (a - 240) * 262144 + (b - 128) * 4096 + (c - 128) * 64 + (d - 128)
      | _ \<Rightarrow> 0xFFFD)"

definition hiddenRune :: "string \<Rightarrow> bool" where
  "hiddenRune r \<longleftrightarrow> (let c = runeValue r in
     c = 0xFFFE \<or> c = 0xFFFF \<or> controlRune r \<or> (0x202A \<le> c \<and> c \<le> 0x202E) \<or> (0x2066 \<le> c \<and> c \<le> 0x2069))"

definition visibleRune :: "string \<Rightarrow> string" where
  "visibleRune r =
     (if r = [CHR 0x0A] then r
      else if r = [CHR 0x09] then replicate 4 CHR '' ''
      else if hiddenRune r then unicodeEscape (runeValue r)
      else if utf8Len r = 0 then replacementRune
      else r)"

definition visible :: "string \<Rightarrow> string" where
  "visible s = concat (map visibleRune (runesOf s))"

section \<open>Wrapping\<close>

definition wrapWidth :: nat where "wrapWidth = 96"

text \<open>Where a line that is too long is broken: at the last space of its second half.\<close>

definition breakAt :: "string list \<Rightarrow> nat" where
  "breakAt rs = (case find (\<lambda>i. rs ! i \<in> set spaceEncodings) (rev [wrapWidth div 2 + 1 ..< wrapWidth + 1]) of
     Some i \<Rightarrow> i | None \<Rightarrow> wrapWidth)"

definition dropBlank :: "string list \<Rightarrow> string list" where
  "dropBlank rs = (case rs of r # rest \<Rightarrow> if r = '' '' then rest else rs | [] \<Rightarrow> [])"

lemma breakAt_pos: "0 < breakAt rs"
  by (auto simp: breakAt_def wrapWidth_def find_Some_iff rev_nth split: option.split)

lemma length_dropBlank: "length (dropBlank rs) \<le> length rs"
  by (simp add: dropBlank_def split: list.split)

function wrapLine :: "string list \<Rightarrow> string list list" where
  "wrapLine rs = (if length rs \<le> wrapWidth then [rs] else take (breakAt rs) rs # wrapLine (dropBlank (drop (breakAt rs) rs)))"
  by pat_completeness auto
termination
proof (relation "measure length", goal_cases)
  case (2 rs)
  then show ?case using breakAt_pos [of rs] length_dropBlank [of "drop (breakAt rs) rs"] by (simp add: not_le)
qed simp

declare wrapLine.simps [simp del]

definition wrap :: "string \<Rightarrow> string list" where
  "wrap s = map concat (concat (map (\<lambda>line. wrapLine (runesOf line)) (splitOn (CHR 0x0A) (visible s))))"

section \<open>The view\<close>

record viewBlock =
  vbHeading :: string
  vbLabel :: string
  vbValue :: string
  vbClass :: string

definition heading :: "string \<Rightarrow> viewBlock" where
  "heading s = \<lparr>vbHeading = s, vbLabel = [], vbValue = [], vbClass = []\<rparr>"

definition fieldOf :: "string \<Rightarrow> string \<Rightarrow> viewBlock" where
  "fieldOf label v = \<lparr>vbHeading = [], vbLabel = label, vbValue = v, vbClass = []\<rparr>"

definition metadataKeys :: "(string \<times> string) list \<Rightarrow> string list" where
  "metadataKeys m = sort (map fst m)"

definition reportConfidence :: "reportObservation \<Rightarrow> string" where
  "reportConfidence ob =
     (if rConfidence (rnResult ob) = 0 \<and> rSourceType (rnResult ob) \<noteq> SourceWebsite \<and> rnKind ob = ObservationUnknown then ''not scored''
      else ConfidenceLabel (rnResult ob))"

definition viewSummary :: "reportDocument \<Rightarrow> viewBlock list" where
  "viewSummary d =
     [heading ''AgentSearch Investigation Report'', fieldOf ''Target'' (rdTarget d), fieldOf ''Type'' (rdTargetType d),
      fieldOf ''Investigation ID'' (rdID d), fieldOf ''Generated (UTC)'' (rdCreatedAt d), fieldOf ''Duration (ns)'' (itoa (rdDuration d)),
      fieldOf ''Status'' (rdStatus d), fieldOf ''Partial'' (boolText (rdPartial d)), fieldOf ''Truncated'' (boolText (rdTruncated d)),
      fieldOf ''Sources'' (natDigits (esSources (rdSummary d))), fieldOf ''Source results'' (natDigits (esResults (rdSummary d))),
      fieldOf ''Evidence count'' (natDigits (esEvidence (rdSummary d))),
      fieldOf ''Successful / failed / partial sources''
        (natDigits (esSuccessful (rdSummary d)) @ '' / '' @ natDigits (esFailed (rdSummary d)) @ '' / '' @ natDigits (esPartial (rdSummary d)))]"

definition viewEvidence :: "reportObservation \<Rightarrow> viewBlock list" where
  "viewEvidence ob = map (\<lambda>(i, e). \<lparr>vbHeading = [], vbLabel = ''Evidence '' @ natDigits i @ '': '' @ evKind e, vbValue = evValue e,
      vbClass = rnClasses ob ! i\<rparr>) (enumerate 0 (rEvidence (rnResult ob)))"

definition viewObservation :: "(string \<Rightarrow> string) \<Rightarrow> reportObservation \<Rightarrow> viewBlock list" where
  "viewObservation uni ob =
     (let s = rnResult ob in
      [heading (''Source: '' @ rSource s), fieldOf ''Result ID'' (rnID ob), fieldOf ''Display name'' (rSiteName s),
       fieldOf ''Source type'' (rSourceType s), fieldOf ''Target'' (rTarget s), fieldOf ''Target type'' (rTargetType s),
       fieldOf ''Status'' (rStatus s), fieldOf ''Outcome'' (OutcomeLabel uni s), fieldOf ''Confidence'' (reportConfidence ob),
       fieldOf ''Duration (ns)'' (itoa (rDuration s)), fieldOf ''Classification'' (rnClass ob),
       fieldOf ''Observation kind'' (kindText (rnKind ob)), fieldOf ''Meaning'' (meaningText (rnMeaning ob)), fieldOf ''Provenance URL'' (rURL s)]
      @ (if rFinalURL s \<noteq> [] then [fieldOf ''Final URL'' (rFinalURL s)] else [])
      @ [fieldOf ''Partial'' (boolText (rnPartial ob)), fieldOf ''Truncated'' (boolText (rnTruncated ob))]
      @ (if rnErrorKind ob \<noteq> [] then [fieldOf ''Error kind'' (rnErrorKind ob)] else [])
      @ (if rError s \<noteq> [] then [fieldOf ''Error'' (rError s)] else [])
      @ viewEvidence ob
      @ map (\<lambda>k. fieldOf (''Metadata: '' @ k) (case map_of (rMetadata s) k of Some v \<Rightarrow> v | None \<Rightarrow> [])) (metadataKeys (rMetadata s)))"

definition orNone :: "viewBlock \<Rightarrow> viewBlock list \<Rightarrow> viewBlock list" where
  "orNone none bs = (if bs = [] then [none] else bs)"

definition viewNotes :: "reportDocument \<Rightarrow> viewBlock list" where
  "viewNotes d =
     [heading ''Correlations'']
     @ orNone (fieldOf ''Correlations'' ''None supplied; no correlations invented.'')
         (map (\<lambda>c. fieldOf ''Correlated evidence reference'' (rfID c @ '' evidence '' @ natDigits (rfIndex c))) (rdCorrelations d))
     @ [heading ''Warnings''] @ orNone (fieldOf ''Warnings'' ''None'') (map (fieldOf ''Warning'') (rdWarnings d))
     @ [heading ''Errors'']
     @ orNone (fieldOf ''Investigation errors'' ''None; source-level errors, if any, are listed above.'') (map (fieldOf ''Error'') (rdErrors d))"

definition viewFindings :: "string \<Rightarrow> AnalysisFinding list \<Rightarrow> viewBlock list" where
  "viewFindings name fs = heading (''AI '' @ name) # concat (map (\<lambda>f.
     [fieldOf (''AI '' @ afClass f @ '': '' @ afTitle f) (afDescription f),
      fieldOf ''AI evidence references'' (joinWith '', '' (afRefs f)), fieldOf ''AI caveat'' (afCaveat f)]) fs)"

definition viewAnalysis :: "Analysis \<Rightarrow> viewBlock list" where
  "viewAnalysis a =
     [heading ''AI Analysis (interpretation, not source evidence)'', fieldOf ''AI status'' (anStatus a), fieldOf ''AI error code'' (anError a),
      fieldOf ''AI provider'' (anProvider a), fieldOf ''AI model'' (anModel a), fieldOf ''AI input digest'' (anDigest a),
      fieldOf ''AI input truncated'' (boolText (anTruncated a)), fieldOf ''AI records sent'' (natDigits (anSent a)),
      fieldOf ''AI summary'' (anSummary a)]
     @ viewFindings ''Findings'' (anFindings a) @ viewFindings ''Hypotheses'' (anHypotheses a)
     @ viewFindings ''Anomalies'' (anAnomalies a) @ viewFindings ''Relationships'' (anRelationships a)
     @ [heading ''AI Unanswered Questions''] @ map (fieldOf ''AI question'') (anQuestions a)
     @ [heading ''AI Limitations''] @ map (fieldOf ''AI limitation'') (anLimitations a)"

definition makeView :: "(string \<Rightarrow> string) \<Rightarrow> reportDocument \<times> Analysis option \<Rightarrow> viewBlock list" where
  "makeView uni r =
     viewSummary (fst r) @ [heading ''Sources and Evidence''] @ concat (map (viewObservation uni) (rdResults (fst r)))
     @ viewNotes (fst r) @ (case snd r of None \<Rightarrow> [] | Some a \<Rightarrow> viewAnalysis a)"

section \<open>The text format\<close>

definition MaxLines :: nat where "MaxLines = 20000"
definition MaxOutputBytes :: nat where "MaxOutputBytes = 33554432"

definition indentRest :: "string list \<Rightarrow> string list" where
  "indentRest ls = (case ls of [] \<Rightarrow> [] | l # rest \<Rightarrow> l # map (\<lambda>x. replicate 4 CHR '' '' @ x) rest)"

definition blockLines :: "viewBlock \<Rightarrow> string list" where
  "blockLines b =
     (if vbHeading b \<noteq> [] then [] # wrap (vbHeading b) @ [replicate 16 CHR ''-'']
      else indentRest (wrap ((if vbClass b \<noteq> [] then ''['' @ vbClass b @ ''] '' else []) @ vbLabel b @ '': '' @ vbValue b)))"

fun linesLoop :: "viewBlock list \<Rightarrow> string list \<Rightarrow> string + string list" where
  "linesLoop [] out = Inr out"
| "linesLoop (b # bs) out = (let out' = out @ blockLines b in if length out' > MaxLines then Inl ErrLimit else linesLoop bs out')"

definition textLines :: "(string \<Rightarrow> string) \<Rightarrow> reportDocument \<times> Analysis option \<Rightarrow> string + string list" where
  "textLines uni r = linesLoop (makeView uni r) []"

definition boundedOutput :: "string \<Rightarrow> string + string" where
  "boundedOutput s = (if length s > MaxOutputBytes then Inl ErrLimit else Inr s)"

definition renderText :: "(string \<Rightarrow> string) \<Rightarrow> reportDocument \<times> Analysis option \<Rightarrow> string + string" where
  "renderText uni r = andThen (textLines uni r) (\<lambda>ls. boundedOutput (joinWith [CHR 0x0A] ls @ [CHR 0x0A]))"

end
