(* ===== verification/ReportMarkup.thy ===== *)
theory ReportMarkup
  imports ReportText
begin

text \<open>
  The formatted documents of a report (\<open>src/internal/report/render.go\<close>, \<open>documents.go\<close>): the HTML template with the escaping that
  \<open>html/template\<close> applies to text and to quoted attributes, the parts of a DOCX file with \<open>xml.EscapeText\<close>, and the lines of a
  PDF.  The ZIP container, the font and the page layout are arguments.
\<close>

section \<open>HTML\<close>

definition htmlChar :: "char \<Rightarrow> string" where
  "htmlChar c =
     (if c = CHR 0x00 then replacementRune
      else if c = CHR 0x22 then ''&#34;''
      else if c = CHR ''&'' then ''&amp;''
      else if c = CHR 0x27 then ''&#39;''
      else if c = CHR ''+'' then ''&#43;''
      else if c = CHR ''<'' then ''&lt;''
      else if c = CHR ''>'' then ''&gt;''
      else [c])"

definition htmlText :: "string \<Rightarrow> string" where
  "htmlText s = concat (map htmlChar s)"

definition htmlOpening :: string where
  "htmlOpening =
     ''<!doctype html>''
     @ [CHR 0x0A]
     @ ''<html lang=\"en\"><head><meta charset=\"utf-8\"><meta name=\"viewport\" content=\"width=device-width,initial-scale=1\">''
     @ ''<meta http-equiv=\"Content-Security-Policy\" content=\"default-src 'none'; style-src 'unsafe-inline'; base-uri 'none'; ''
     @ ''form-action 'none'\"><title>AgentSearch investigation report</title>''
     @ [CHR 0x0A]
     @ ''<style>''
     @ ''body{margin:0;background:#f3f5f8;color:#172536;font:16px system-ui,sans-serif;line-height:1.6}''
     @ ''main{max-width:1100px;margin:auto;padding:24px}''
     @ ''header,section{background:white;border:1px solid #d7dfe8;border-radius:8px;padding:20px;margin:16px 0}h1{font-size:26px}''
     @ ''h2{font-size:21px;border-bottom:2px solid #d7dfe8;padding-bottom:8px}''
     @ ''.field{margin:12px 0;overflow-wrap:anywhere;white-space:pre-wrap}.label{font-weight:650}''
     @ ''.badge{display:inline-block;font:12px system-ui;border:1px solid #567;border-radius:4px;padding:2px ''
     @ ''6px;margin-right:6px}.observed{background:#e3f5ec}.correlated{background:#e5edff}.inferred{background:#fff1d5}''
     @ ''.unknown{background:#eee}code{overflow-wrap:anywhere}@media print{body{background:white}main{padding:0}''
     @ ''h2{break-after:avoid}.field{orphans:3;widows:3}}</style>''"

definition htmlHead :: string where
  "htmlHead = htmlOpening @ ''</head>'' @ [CHR 0x0A]"

definition htmlBlock :: "viewBlock \<Rightarrow> string" where
  "htmlBlock b =
     (if vbHeading b \<noteq> [] then ''<h2>'' @ htmlText (vbHeading b) @ ''</h2>''
      else ''<div class=\"field\">''
        @ (if vbClass b \<noteq> []
           then ''<span class=\"badge '' @ htmlText (vbClass b) @ ''\">'' @ htmlText (vbClass b) @ ''</span>'' else [])
        @ ''<span class=\"label\">'' @ htmlText (vbLabel b) @ '':</span> <span>'' @ htmlText (vbValue b) @ ''</span></div>'')"

definition visibleBlock :: "viewBlock \<Rightarrow> viewBlock" where
  "visibleBlock b = b\<lparr>vbHeading := visible (vbHeading b), vbLabel := visible (vbLabel b), vbValue := visible (vbValue b)\<rparr>"

definition htmlReport :: "string \<Rightarrow> string \<Rightarrow> string \<Rightarrow> viewBlock list \<Rightarrow> string" where
  "htmlReport target reportID status bs =
     htmlHead @ ''<body><main><header><h1>AgentSearch Investigation Report</h1><p class=\"field\">Target: '' @ htmlText target
     @ ''</p><p>Status: <strong>'' @ htmlText status @ ''</strong></p><p class=\"field\">Investigation ID: '' @ htmlText reportID
     @ ''</p></header><section>'' @ [CHR 0x0A] @ concat (map htmlBlock bs) @ [CHR 0x0A] @ ''</section></main></body></html>''"

definition renderHTML :: "(string \<Rightarrow> string) \<Rightarrow> reportDocument \<times> Analysis option \<Rightarrow> string + string" where
  "renderHTML uni r =
     boundedOutput (htmlReport (visible (rdTarget (fst r))) (rdID (fst r)) (rdStatus (fst r)) (map visibleBlock (makeView uni r)))"

section \<open>DOCX\<close>

definition xmlRange :: "nat \<Rightarrow> bool" where
  "xmlRange v \<longleftrightarrow> v = 0x09 \<or> v = 0x0A \<or> v = 0x0D \<or> 0x20 \<le> v \<and> v \<le> 0xD7FF \<or> 0xE000 \<le> v \<and> v \<le> 0xFFFD \<or> 0x10000 \<le> v \<and> v \<le> 0x10FFFF"

definition xmlRune :: "string \<Rightarrow> string" where
  "xmlRune r =
     (if r = [CHR 0x22] then ''&#34;''
      else if r = [CHR 0x27] then ''&#39;''
      else if r = ''&'' then ''&amp;''
      else if r = ''<'' then ''&lt;''
      else if r = ''>'' then ''&gt;''
      else if r = [CHR 0x09] then ''&#x9;''
      else if r = [CHR 0x0A] then ''&#xA;''
      else if r = [CHR 0x0D] then ''&#xD;''
      else if \<not> xmlRange (runeValue r) \<or> utf8Len r = 0 then replacementRune
      else r)"

definition xmlText :: "string \<Rightarrow> string" where
  "xmlText s = concat (map xmlRune (runesOf (visible s)))"

definition docxPrefix :: string where
  "docxPrefix =
     ''<?xml version=\"1.0\" encoding=\"UTF-8\" standalone=\"yes\"?>''
     @ ''<w:document xmlns:w=\"http://schemas.openxmlformats.org/wordprocessingml/2006/main\"><w:body>''"

definition docxSuffix :: string where
  "docxSuffix =
     ''<w:sectPr><w:pgSz w:w=\"11906\" w:h=\"16838\"/>''
     @ ''<w:pgMar w:top=\"1134\" w:right=\"1134\" w:bottom=\"1134\" w:left=\"1134\" w:header=\"500\" w:footer=\"500\" w:gutter=\"0\"/>''
     @ ''</w:sectPr></w:body></w:document>''"

definition docxParagraph :: "nat \<Rightarrow> string \<Rightarrow> string" where
  "docxParagraph i line =
     ''<w:p><w:pPr><w:pStyle w:val=\"'' @ (if i = 1 then ''Title'' else ''Normal'') @ ''\"/></w:pPr><w:r><w:t xml:space=\"preserve\">''
     @ xmlText line @ ''</w:t></w:r></w:p>''"

fun docxLoop :: "nat \<Rightarrow> string list \<Rightarrow> string \<Rightarrow> string + string" where
  "docxLoop i [] body = Inr (body @ docxSuffix)"
| "docxLoop i (l # ls) body =
     (let body' = body @ docxParagraph i l in if length body' > MaxOutputBytes then Inl ErrLimit else docxLoop (i + 1) ls body')"

definition docxTypes :: string where
  "docxTypes =
     ''<?xml version=\"1.0\" encoding=\"UTF-8\"?><Types xmlns=\"http://schemas.openxmlformats.org/package/2006/content-types\">''
     @ ''<Default Extension=\"rels\" ContentType=\"application/vnd.openxmlformats-package.relationships+xml\"/>''
     @ ''<Default Extension=\"xml\" ContentType=\"application/xml\"/>''
     @ ''<Override PartName=\"/word/document.xml\" ''
     @ ''ContentType=\"application/vnd.openxmlformats-officedocument.wordprocessingml.document.main+xml\"/>''
     @ ''<Override PartName=\"/word/styles.xml\" ''
     @ ''ContentType=\"application/vnd.openxmlformats-officedocument.wordprocessingml.styles+xml\"/>''
     @ ''<Override PartName=\"/docProps/core.xml\" ContentType=\"application/vnd.openxmlformats-package.core-properties+xml\"/>''
     @ ''<Override PartName=\"/docProps/app.xml\" ''
     @ ''ContentType=\"application/vnd.openxmlformats-officedocument.extended-properties+xml\"/></Types>''"

definition docxRels :: string where
  "docxRels =
     ''<?xml version=\"1.0\" encoding=\"UTF-8\"?>''
     @ ''<Relationships xmlns=\"http://schemas.openxmlformats.org/package/2006/relationships\">''
     @ ''<Relationship Id=\"rId1\" Type=\"http://schemas.openxmlformats.org/officeDocument/2006/relationships/officeDocument\" ''
     @ ''Target=\"word/document.xml\"/>''
     @ ''<Relationship Id=\"rId2\" Type=\"http://schemas.openxmlformats.org/package/2006/relationships/metadata/core-properties\" ''
     @ ''Target=\"docProps/core.xml\"/>''
     @ ''<Relationship Id=\"rId3\" Type=\"http://schemas.openxmlformats.org/officeDocument/2006/relationships/extended-properties\" ''
     @ ''Target=\"docProps/app.xml\"/></Relationships>''"

definition docxStyles :: string where
  "docxStyles =
     ''<?xml version=\"1.0\" encoding=\"UTF-8\"?><w:styles xmlns:w=\"http://schemas.openxmlformats.org/wordprocessingml/2006/main\">''
     @ ''<w:docDefaults><w:rPrDefault><w:rPr><w:rFonts w:ascii=\"Arial\" w:hAnsi=\"Arial\"/><w:sz w:val=\"20\"/></w:rPr></w:rPrDefault>''
     @ ''<w:pPrDefault><w:pPr><w:spacing w:after=\"80\"/><w:widowControl/></w:pPr></w:pPrDefault></w:docDefaults>''
     @ ''<w:style w:type=\"paragraph\" w:default=\"1\" w:styleId=\"Normal\"><w:name w:val=\"Normal\"/></w:style>''
     @ ''<w:style w:type=\"paragraph\" w:styleId=\"Title\"><w:name w:val=\"Title\"/><w:basedOn w:val=\"Normal\"/><w:pPr><w:keepNext/>''
     @ ''</w:pPr><w:rPr><w:b/><w:sz w:val=\"32\"/></w:rPr></w:style></w:styles>''"

definition docxDocumentRels :: string where
  "docxDocumentRels =
     ''<?xml version=\"1.0\" encoding=\"UTF-8\"?>''
     @ ''<Relationships xmlns=\"http://schemas.openxmlformats.org/package/2006/relationships\">''
     @ ''<Relationship Id=\"rId1\" Type=\"http://schemas.openxmlformats.org/officeDocument/2006/relationships/styles\" ''
     @ ''Target=\"styles.xml\"/></Relationships>''"

definition docxCore :: "string \<Rightarrow> string \<Rightarrow> string" where
  "docxCore reportID created =
     ''<?xml version=\"1.0\" encoding=\"UTF-8\"?>''
     @ ''<cp:coreProperties xmlns:cp=\"http://schemas.openxmlformats.org/package/2006/metadata/core-properties\" ''
     @ ''xmlns:dc=\"http://purl.org/dc/elements/1.1/\" xmlns:dcterms=\"http://purl.org/dc/terms/\" ''
     @ ''xmlns:xsi=\"http://www.w3.org/2001/XMLSchema-instance\"><dc:title>AgentSearch Investigation Report</dc:title><dc:creator>''
     @ ''AgentSearch</dc:creator><dc:identifier>''
     @ reportID @ ''</dc:identifier><dcterms:created xsi:type=\"dcterms:W3CDTF\">''
     @ created @ ''</dcterms:created><dcterms:modified xsi:type=\"dcterms:W3CDTF\">''
     @ created @ ''</dcterms:modified></cp:coreProperties>''"

definition docxApp :: string where
  "docxApp =
     ''<?xml version=\"1.0\" encoding=\"UTF-8\"?>''
     @ ''<Properties xmlns=\"http://schemas.openxmlformats.org/officeDocument/2006/extended-properties\"><Application>''
     @ ''AgentSearch</Application></Properties>''"

definition docxParts :: "reportDocument \<Rightarrow> string \<Rightarrow> (string \<times> string) list" where
  "docxParts d body =
     [(''[Content_Types].xml'', docxTypes), (''_rels/.rels'', docxRels), (''word/document.xml'', body), (''word/styles.xml'', docxStyles),
      (''word/_rels/document.xml.rels'', docxDocumentRels), (''docProps/core.xml'', docxCore (rdID d) (rdCreatedAt d)), (''docProps/app.xml'', docxApp)]"

text \<open>\<open>archive/zip\<close> writes the parts, with a fixed date, into the bounded output.\<close>

definition renderDOCX :: "((string \<times> string) list \<Rightarrow> string + string) \<Rightarrow> (string \<Rightarrow> string) \<Rightarrow> reportDocument \<times> Analysis option \<Rightarrow> string + string" where
  "renderDOCX zipFile uni r =
     andThen (textLines uni r) (\<lambda>ls. andThen (docxLoop 0 ls docxPrefix) (\<lambda>body. andThen (zipFile (docxParts (fst r) body)) boundedOutput))"

section \<open>PDF\<close>

definition MaxPdfPages :: nat where "MaxPdfPages = 512"

definition hexPad :: "nat \<Rightarrow> nat \<Rightarrow> string" where
  "hexPad k n = map (\<lambda>i. upperHex (n div 16 ^ i mod 16)) (rev [0..<k])"

text \<open>What the font has, and what the layout of lines gives: the page after them, an error, the finished file.\<close>

record pdfWriter =
  pwGlyph :: "string \<Rightarrow> bool"
  pwPage :: "string list \<Rightarrow> nat"
  pwError :: "string list \<Rightarrow> bool"
  pwFile :: "string \<Rightarrow> string list \<Rightarrow> string + string"

definition decodedRune :: "string \<Rightarrow> string" where
  "decodedRune r = (if utf8Len r = 0 then replacementRune else r)"

definition escapeGlyphs :: "(string \<Rightarrow> bool) \<Rightarrow> string \<Rightarrow> string" where
  "escapeGlyphs g l = concat (map (\<lambda>r. if g r then r else [CHR 0x5C, CHR ''U''] @ hexPad 8 (runeValue r)) (map decodedRune (runesOf l)))"

definition unsupportedRune :: "string \<Rightarrow> string" where
  "unsupportedRune r =
     (let v = runeValue r in
      ''PDF font does not support U+'' @ hexPad (if v < 0x10000 then 4 else if v < 0x100000 then 5 else 6) v @ ''; use HTML/DOCX instead'')"

text \<open>Only lines of the analysis are escaped.\<close>

fun pdfLines :: "(string \<Rightarrow> bool) \<Rightarrow> nat \<Rightarrow> nat \<Rightarrow> string list \<Rightarrow> string + string list" where
  "pdfLines g start i [] = Inr []"
| "pdfLines g start i (l # ls) =
     (let l' = (if start \<le> i then escapeGlyphs g l else l) in
      case find (\<lambda>r. \<not> g r) (map decodedRune (runesOf l')) of
        Some r \<Rightarrow> Inl (unsupportedRune r)
      | None \<Rightarrow> andThen (pdfLines g start (i + 1) ls) (\<lambda>rest. Inr (l' # rest)))"

fun pdfLoop :: "pdfWriter \<Rightarrow> string \<Rightarrow> string list \<Rightarrow> string list \<Rightarrow> string + string" where
  "pdfLoop pw created written [] = (case pwFile pw created written of Inl e \<Rightarrow> Inl (''PDF finalization failed: '' @ e) | Inr raw \<Rightarrow> boundedOutput raw)"
| "pdfLoop pw created written (l # ls) =
     (let written' = written @ [l] in
      if pwPage pw written' > MaxPdfPages then Inl ErrLimit
      else if pwError pw written' then Inl ''PDF layout generation failed''
      else pdfLoop pw created written' ls)"

text \<open>The line at which the analysis begins.\<close>

definition pdfStart :: "(string \<Rightarrow> string) \<Rightarrow> reportDocument \<times> Analysis option \<Rightarrow> string list \<Rightarrow> string + nat" where
  "pdfStart uni r ls = (case snd r of None \<Rightarrow> Inr (length ls) | Some a \<Rightarrow> andThen (textLines uni (fst r, None)) (\<lambda>base. Inr (length base)))"

definition renderPDF :: "pdfWriter \<Rightarrow> (string \<Rightarrow> string) \<Rightarrow> reportDocument \<times> Analysis option \<Rightarrow> string + string" where
  "renderPDF pw uni r =
     andThen (textLines uni r) (\<lambda>ls. andThen (pdfStart uni r ls) (\<lambda>start.
       andThen (pdfLines (pwGlyph pw) start 0 ls) (pdfLoop pw (rdCreatedAt (fst r)) [])))"

end
