(* ===== verification/ReportTextInv.thy ===== *)
theory ReportTextInv
  imports ReportText
begin

text \<open>
  The text report loses nothing and is bounded: no control character, no embedding, override or isolate of the writing
  direction, lines of bounded length, every block of the view.  The three invisible direction marks are not escaped by the
  code: \<open>direction_marks_shown\<close>.
\<close>

section \<open>Characters\<close>

definition goodRune :: "string \<Rightarrow> bool" where
  "goodRune r \<longleftrightarrow> r \<noteq> [] \<and> utf8Len r = length r"

text \<open>The bounds of the second byte after a given first byte, and the length that the first byte announces.\<close>

definition lowSecond :: "nat \<Rightarrow> nat" where
  "lowSecond b = (if b = 224 then 160 else if b = 240 then 144 else 128)"

definition highSecond :: "nat \<Rightarrow> nat" where
  "highSecond b = (if b = 237 then 159 else if b = 244 then 143 else 191)"

definition leadLen :: "nat \<Rightarrow> nat" where
  "leadLen b = (if b < 128 then 1 else if b < 194 then 0 else if b < 224 then 2 else if b < 240 then 3 else if b < 245 then 4 else 0)"

definition contBytes :: "string \<Rightarrow> nat \<Rightarrow> bool" where
  "contBytes s n \<longleftrightarrow> (2 \<le> n \<longrightarrow> contC (lowSecond (byteVal (hd s))) (highSecond (byteVal (hd s))) s 1)
     \<and> (3 \<le> n \<longrightarrow> contC 128 191 s 2) \<and> (4 \<le> n \<longrightarrow> contC 128 191 s 3)"

lemma utf8Len_lead:
  assumes "s \<noteq> []"
  shows "utf8Len s = (let n = leadLen (byteVal (hd s)) in if contBytes s n then n else 0)"
proof -
  let ?b = "byteVal (hd s)"
  consider "?b < 128" | "128 \<le> ?b" "?b < 194" | "194 \<le> ?b" "?b < 224" | "224 \<le> ?b" "?b < 240" | "240 \<le> ?b" "?b < 245" | "245 \<le> ?b"
    by linarith
  then show ?thesis
  proof cases
    case 1
    then show ?thesis using assms by (simp add: utf8Len_def leadLen_def contBytes_def)
  next
    case 2
    then show ?thesis using assms by (simp add: utf8Len_def leadLen_def)
  next
    case 3
    then have "leadLen ?b = 2" "lowSecond ?b = 128" "highSecond ?b = 191" by (simp_all add: leadLen_def lowSecond_def highSecond_def)
    then show ?thesis using assms 3 by (simp add: utf8Len_def contBytes_def)
  next
    case 4
    then have "leadLen ?b = 3" "lowSecond ?b = (if ?b = 224 then 160 else 128)" "highSecond ?b = (if ?b = 237 then 159 else 191)"
      by (simp_all add: leadLen_def lowSecond_def highSecond_def)
    then show ?thesis using assms 4 by (simp add: utf8Len_def contBytes_def Let_def split del: if_split)
  next
    case 5
    then have "leadLen ?b = 4" "lowSecond ?b = (if ?b = 240 then 144 else 128)" "highSecond ?b = (if ?b = 244 then 143 else 191)"
      by (simp_all add: leadLen_def lowSecond_def highSecond_def)
    then show ?thesis using assms 5 by (simp add: utf8Len_def contBytes_def Let_def conj_assoc split del: if_split)
  next
    case 6
    then show ?thesis using assms by (simp add: utf8Len_def leadLen_def contBytes_def)
  qed
qed

lemma leadLen_le: "leadLen b \<le> 4"
  by (simp add: leadLen_def)

lemma contBytes_length: "contBytes s n \<Longrightarrow> s \<noteq> [] \<Longrightarrow> n \<le> 4 \<Longrightarrow> n \<le> length s"
proof -
  assume c: "contBytes s n" "s \<noteq> []" "n \<le> 4"
  have "2 \<le> n \<longrightarrow> 1 < length s" "3 \<le> n \<longrightarrow> 2 < length s" "4 \<le> n \<longrightarrow> 3 < length s" using c(1) unfolding contBytes_def contC_def by blast+
  moreover have "0 < length s" using c(2) by simp
  ultimately show "n \<le> length s" using c(3) by linarith
qed

lemma utf8Len_le: "utf8Len s \<le> length s"
proof (cases "s = []")
  case False
  then show ?thesis using contBytes_length [OF _ False leadLen_le] by (simp add: utf8Len_lead Let_def)
qed (simp add: utf8Len_def)

lemma contC_take: "i < n \<Longrightarrow> n \<le> length s \<Longrightarrow> contC lo hi (take n s @ t) i \<longleftrightarrow> contC lo hi s i"
  by (auto simp: contC_def nth_append)

lemma utf8Len_take:
  assumes "utf8Len s = n" and "0 < n"
  shows "utf8Len (take n s @ t) = n"
proof -
  have n: "n \<le> length s" using assms utf8Len_le by blast
  then have s: "s \<noteq> []" "take n s @ t \<noteq> []" "hd (take n s @ t) = hd s" using assms(2) by (auto simp: hd_append)
  have lead: "leadLen (byteVal (hd s)) = n" "contBytes s n" using assms s(1) by (auto simp: utf8Len_lead Let_def split: if_splits)
  have "contBytes (take n s @ t) n" using lead(2) contC_take [OF _ n] s(3) by (auto simp: contBytes_def)
  then show ?thesis using lead s by (simp add: utf8Len_lead Let_def)
qed

lemma utf8Len_append: "goodRune r \<Longrightarrow> utf8Len (r @ s) = length r"
  using utf8Len_take [of r "length r" s] by (simp add: goodRune_def)

lemma runesOf_concat: "\<forall>r \<in> set rs. goodRune r \<Longrightarrow> runesOf (concat rs) = rs"
proof (induction rs)
  case Nil
  then show ?case by (simp add: runesOf.simps)
next
  case (Cons r rs)
  then have "utf8Len (r @ concat rs) = length r" "r \<noteq> []" using utf8Len_append by (auto simp: goodRune_def)
  then show ?case using Cons by (subst runesOf.simps) (simp add: Let_def max_def Suc_le_eq)
qed

lemma utf8Valid_concat: "\<forall>r \<in> set rs. goodRune r \<Longrightarrow> utf8Valid (concat rs)"
proof (induction rs)
  case Nil
  then show ?case by (simp add: utf8Valid.simps)
next
  case (Cons r rs)
  then have "utf8Len (r @ concat rs) = length r" "r \<noteq> []" using utf8Len_append by (auto simp: goodRune_def)
  then show ?case using Cons by (subst utf8Valid.simps) simp
qed

lemma runesOf_parts: "r \<in> set (runesOf s) \<Longrightarrow> goodRune r \<or> utf8Len r = 0"
proof (induction s rule: runesOf.induct)
  case (1 s)
  show ?case
  proof (cases "s = []")
    case True
    then show ?thesis using 1 by (simp add: runesOf.simps)
  next
    case False
    let ?n = "max 1 (utf8Len s)"
    have "runesOf s = take ?n s # runesOf (drop ?n s)" using False by (subst runesOf.simps) (simp add: Let_def)
    then consider "r = take ?n s" | "r \<in> set (runesOf (drop ?n s))" using "1.prems" by auto
    then show ?thesis
    proof cases
      case 1
      show ?thesis
      proof (cases "utf8Len s = 0")
        case True
        then have "r = [hd s]" using 1 False by (cases s) simp_all
        then show ?thesis using utf8Len_le [of r] by (cases "utf8Len r") (auto simp: goodRune_def)
      next
        case pos: False
        then have "r = take (utf8Len s) s" using 1 by (simp add: max_def)
        then show ?thesis using utf8Len_take [of s "utf8Len s" "[]"] utf8Len_le [of s] pos False by (auto simp: goodRune_def)
      qed
    next
      case 2
      then show ?thesis using "1.IH" False by simp
    qed
  qed
qed

definition plainRune :: "string \<Rightarrow> bool" where
  "plainRune r \<longleftrightarrow> goodRune r \<and> \<not> hiddenRune r"

lemma plain_ascii: "32 \<le> byteVal c \<Longrightarrow> byteVal c < 127 \<Longrightarrow> plainRune [c]"
  by (auto simp: plainRune_def goodRune_def utf8Len_def hiddenRune_def runeValue_def controlRune_def asciiRune_def isAsciiC_def Let_def)

section \<open>Code points\<close>

lemma goodRune_cases:
  assumes "goodRune r"
  obtains (one) a where "r = [a]" "byteVal a < 128"
  | (two) a b where "r = [a, b]" "194 \<le> byteVal a" "byteVal a < 224" "128 \<le> byteVal b" "byteVal b \<le> 191"
  | (three) a b c where "r = [a, b, c]" "224 \<le> byteVal a" "byteVal a < 240" "lowSecond (byteVal a) \<le> byteVal b" "byteVal b \<le> highSecond (byteVal a)"
      "128 \<le> byteVal c" "byteVal c \<le> 191"
  | (four) a b c d where "r = [a, b, c, d]" "240 \<le> byteVal a" "byteVal a < 245" "lowSecond (byteVal a) \<le> byteVal b" "byteVal b \<le> highSecond (byteVal a)"
      "128 \<le> byteVal c" "byteVal c \<le> 191" "128 \<le> byteVal d" "byteVal d \<le> 191"
proof -
  have r: "r \<noteq> []" "utf8Len r = length r" using assms by (simp_all add: goodRune_def)
  then have lead: "leadLen (byteVal (hd r)) = length r" "contBytes r (length r)" by (auto simp: utf8Len_lead Let_def split: if_splits)
  obtain a s where s: "r = a # s" using r(1) by (cases r) auto
  consider "byteVal a < 128" "length s = 0" | "194 \<le> byteVal a" "byteVal a < 224" "length s = 1"
    | "224 \<le> byteVal a" "byteVal a < 240" "length s = 2" | "240 \<le> byteVal a" "byteVal a < 245" "length s = 3"
    using lead(1) s by (auto simp: leadLen_def split: if_splits)
  then show thesis
  proof cases
    case 1
    then show thesis using one s by simp
  next
    case 2
    then obtain b where "s = [b]" by (cases s) auto
    then show thesis using two 2 s lead(2) by (auto simp: contBytes_def contC_def lowSecond_def highSecond_def)
  next
    case 3
    then obtain b c where "s = [b, c]" by (auto simp: numeral_eq_Suc length_Suc_conv)
    then show thesis using three 3 s lead(2) by (auto simp: contBytes_def contC_def)
  next
    case 4
    then obtain b c d where "s = [b, c, d]" by (auto simp: numeral_eq_Suc length_Suc_conv)
    then show thesis using four 4 s lead(2) by (auto simp: contBytes_def contC_def)
  qed
qed

lemma goodRune_value:
  assumes "goodRune r"
  shows "length r = 1 \<longrightarrow> runeValue r = byteVal (hd r)" and "length r \<noteq> 1 \<longrightarrow> 128 \<le> runeValue r"
    and "runeValue r < 0xD800 \<or> 0xE000 \<le> runeValue r \<and> runeValue r \<le> 0x10FFFF"
  using assms
  by (cases rule: goodRune_cases; auto simp: runeValue_def lowSecond_def highSecond_def split: if_splits)+

text \<open>What the report may show: no control character, no directional embedding, override or isolate (U+202A to U+202E, U+2066 to
  U+2069), not U+FFFE or U+FFFF, and a code point at all.  The direction marks U+200E, U+200F and U+061C are not excluded.\<close>

definition safeRune :: "string \<Rightarrow> bool" where
  "safeRune r \<longleftrightarrow> (let v = runeValue r in
     0x20 \<le> v \<and> (v < 0x7F \<or> 0x9F < v) \<and> (v < 0x202A \<or> 0x202E < v) \<and> (v < 0x2066 \<or> 0x2069 < v)
     \<and> v \<noteq> 0xFFFE \<and> v \<noteq> 0xFFFF \<and> (v < 0xD800 \<or> 0xE000 \<le> v) \<and> v \<le> 0x10FFFF)"

lemma shown_controls:
  assumes "goodRune r" and "\<not> controlRune r"
  shows "0x20 \<le> runeValue r \<and> (runeValue r < 0x7F \<or> 0x9F < runeValue r)"
  using assms(1)
proof (cases rule: goodRune_cases)
  case (one a)
  then show ?thesis using assms(2) by (auto simp: runeValue_def controlRune_def asciiRune_def isAsciiC_def)
next
  case (two a b)
  then have "byteVal a = 194 \<longrightarrow> 160 \<le> byteVal b" using assms(2) by (auto simp: controlRune_def asciiRune_def)
  then show ?thesis using two by (auto simp: runeValue_def)
next
  case (three a b c)
  then show ?thesis by (auto simp: runeValue_def lowSecond_def split: if_splits)
next
  case (four a b c d)
  then show ?thesis by (auto simp: runeValue_def lowSecond_def split: if_splits)
qed

lemma plain_safe: "plainRune r \<Longrightarrow> safeRune r"
proof -
  assume r: "plainRune r"
  then have g: "goodRune r" "\<not> controlRune r" by (auto simp: plainRune_def hiddenRune_def Let_def)
  show "safeRune r" using r shown_controls [OF g] goodRune_value(3) [OF g(1)] unfolding safeRune_def plainRune_def hiddenRune_def Let_def by auto
qed

text \<open>The marks pass: left-to-right (U+200E), right-to-left (U+200F) and Arabic letter mark (U+061C); an override (U+202E) does not.\<close>

lemma direction_marks_shown:
  "list_all (\<lambda>m. visible m = m) [[CHR 0xE2, CHR 0x80, CHR 0x8E], [CHR 0xE2, CHR 0x80, CHR 0x8F], [CHR 0xD8, CHR 0x9C]]
    \<and> map runeValue [[CHR 0xE2, CHR 0x80, CHR 0x8E], [CHR 0xE2, CHR 0x80, CHR 0x8F], [CHR 0xD8, CHR 0x9C]] = [0x200E, 0x200F, 0x061C]
    \<and> visible [CHR 0xE2, CHR 0x80, CHR 0xAE] = CHR 0x5C # ''u202e''"
  by code_simp

text \<open>Every character becomes a list of plain characters, or stays a line feed.\<close>

lemma lowerHex_plain: "n < 16 \<Longrightarrow> plainRune [lowerHex n]"
  by (rule plain_ascii) (auto simp: lowerHex_def)

lemma replacement_plain: "plainRune replacementRune"
  by code_simp

lemma visibleRune_parts:
  assumes "r \<in> set (runesOf s)"
  shows "\<exists>ts. visibleRune r = concat ts \<and> (\<forall>t \<in> set ts. plainRune t \<or> t = [CHR 0x0A])"
proof -
  consider "r = [CHR 0x0A]" | "r \<noteq> [CHR 0x0A]" "r = [CHR 0x09]" | "r \<notin> {[CHR 0x0A], [CHR 0x09]}" "hiddenRune r"
    | "r \<notin> {[CHR 0x0A], [CHR 0x09]}" "\<not> hiddenRune r" "utf8Len r = 0" | "r \<notin> {[CHR 0x0A], [CHR 0x09]}" "\<not> hiddenRune r" "utf8Len r \<noteq> 0" by blast
  then show ?thesis
  proof cases
    case 1
    then show ?thesis by (intro exI [of _ "[r]"]) (simp add: visibleRune_def)
  next
    case 2
    have "plainRune '' ''" by (rule plain_ascii) (simp_all add: byteVal_def)
    then show ?thesis using 2 by (intro exI [of _ "replicate 4 '' ''"]) (simp add: visibleRune_def numeral_eq_Suc)
  next
    case 3
    have "plainRune [CHR 0x5C]" "plainRune ''u''" by (rule plain_ascii; simp add: byteVal_def)+
    then show ?thesis using 3
      by (intro exI [of _ "map (\<lambda>c. [c]) (unicodeEscape (runeValue r))"]) (auto simp: visibleRune_def unicodeEscape_def lowerHex_plain)
  next
    case 4
    then show ?thesis using replacement_plain by (intro exI [of _ "[replacementRune]"]) (simp add: visibleRune_def)
  next
    case 5
    then have "plainRune r" using runesOf_parts [OF assms] by (auto simp: plainRune_def)
    then show ?thesis using 5 by (intro exI [of _ "[r]"]) (simp add: visibleRune_def)
  qed
qed

lemma visible_parts: "\<exists>ts. visible s = concat ts \<and> (\<forall>t \<in> set ts. plainRune t \<or> t = [CHR 0x0A])"
proof -
  have "\<exists>ts. concat (map visibleRune rs) = concat ts \<and> (\<forall>t \<in> set ts. plainRune t \<or> t = [CHR 0x0A])"
    if "set rs \<subseteq> set (runesOf s)" for rs
    using that
  proof (induction rs)
    case Nil
    then show ?case by (intro exI [of _ "[]"]) simp
  next
    case (Cons r rs)
    then obtain ts us where "concat (map visibleRune rs) = concat ts" "\<forall>t \<in> set ts. plainRune t \<or> t = [CHR 0x0A]"
        "visibleRune r = concat us" "\<forall>t \<in> set us. plainRune t \<or> t = [CHR 0x0A]"
      using visibleRune_parts [of r s] by auto
    then show ?case by (intro exI [of _ "us @ ts"]) auto
  qed
  then show ?thesis by (simp add: visible_def)
qed

section \<open>Lines\<close>

lemma goodRune_ascii: "goodRune r \<Longrightarrow> c \<in> set r \<Longrightarrow> byteVal c < 128 \<Longrightarrow> r = [c]"
proof -
  assume r: "goodRune r" "c \<in> set r" "byteVal c < 128"
  obtain i where i: "i < length r" "r ! i = c" using r(2) by (auto simp: in_set_conv_nth)
  have len: "utf8Len r = length r" "r \<noteq> []" using r(1) by (auto simp: goodRune_def)
  show "r = [c]"
  proof (cases "byteVal (hd r) < 128")
    case True
    then have "length r = 1" using len by (simp add: utf8Len_def)
    then show ?thesis using i by (cases r) auto
  next
    case False
    have cont: "contBytes r (length r)" "length r \<le> 4"
      using len leadLen_le [of "byteVal (hd r)"] by (auto simp: utf8Len_lead Let_def split: if_splits)
    have "128 \<le> lowSecond b" for b by (simp add: lowSecond_def)
    then have "128 \<le> byteVal (r ! 1)" if "2 \<le> length r" using cont(1) that by (meson contBytes_def contC_def le_trans)
    moreover have "3 \<le> length r \<longrightarrow> 128 \<le> byteVal (r ! 2)" "4 \<le> length r \<longrightarrow> 128 \<le> byteVal (r ! 3)"
      using cont(1) unfolding contBytes_def contC_def by blast+
    moreover have "128 \<le> byteVal (r ! 0)" using len(2) False by (simp add: hd_conv_nth)
    moreover have "i = 0 \<or> i = 1 \<and> 2 \<le> length r \<or> i = 2 \<and> 3 \<le> length r \<or> i = 3 \<and> 4 \<le> length r" using i(1) cont(2) by linarith
    ultimately have "128 \<le> byteVal (r ! i)" by blast
    then show ?thesis using i(2) r(3) by simp
  qed
qed

lemma plain_no_feed: "plainRune r \<Longrightarrow> CHR 0x0A \<notin> set r"
  using goodRune_ascii [of r "CHR 0x0A"]
  by (auto simp: plainRune_def hiddenRune_def controlRune_def asciiRune_def isAsciiC_def byteVal_def Let_def)

lemma splitOn_prefix: "d \<notin> set t \<Longrightarrow> splitOn d (t @ s) = (t @ hd (splitOn d s)) # tl (splitOn d s)"
proof (induction t)
  case Nil
  then show ?case by (cases "splitOn d s") simp_all
next
  case (Cons c t)
  then show ?case by auto
qed

definition plainLine :: "nat \<Rightarrow> string \<Rightarrow> bool" where
  "plainLine n l \<longleftrightarrow> (\<exists>us. l = concat us \<and> (\<forall>u \<in> set us. plainRune u) \<and> length us \<le> n)"

lemma splitOn_runes:
  "\<forall>t \<in> set ts. plainRune t \<or> t = [CHR 0x0A] \<Longrightarrow>
     \<exists>uss. splitOn (CHR 0x0A) (concat ts) = map concat uss \<and> (\<forall>us \<in> set uss. \<forall>u \<in> set us. plainRune u)"
proof (induction ts)
  case Nil
  then show ?case by (intro exI [of _ "[[]]"]) simp
next
  case (Cons t ts)
  then obtain uss where uss: "splitOn (CHR 0x0A) (concat ts) = map concat uss" "\<forall>us \<in> set uss. \<forall>u \<in> set us. plainRune u" by auto
  show ?case
  proof (cases "t = [CHR 0x0A]")
    case True
    then show ?thesis using uss by (intro exI [of _ "[] # uss"]) simp
  next
    case False
    then have t: "plainRune t" using Cons.prems by simp
    obtain us vss where "uss = us # vss" using uss(1) by (cases uss) (metis list.simps(8) splitOn_ne, blast)
    then show ?thesis using uss t splitOn_prefix [OF plain_no_feed [OF t], of "concat ts"]
      by (intro exI [of _ "(t # us) # vss"]) simp
  qed
qed

lemma breakAt_le: "breakAt rs \<le> wrapWidth"
  by (auto simp: breakAt_def wrapWidth_def find_Some_iff rev_nth split: option.split)

lemma wrapLine_pieces: "p \<in> set (wrapLine rs) \<Longrightarrow> set p \<subseteq> set rs \<and> length p \<le> wrapWidth"
proof (induction rs rule: wrapLine.induct)
  case (1 rs)
  have sub: "set (dropBlank (drop (breakAt rs) rs)) \<subseteq> set rs"
    using set_drop_subset [of "breakAt rs" rs] by (cases "drop (breakAt rs) rs") (auto simp: dropBlank_def)
  show ?case
  proof (cases "length rs \<le> wrapWidth")
    case True
    then show ?thesis using "1.prems" by (simp add: wrapLine.simps [of rs])
  next
    case False
    then consider "p = take (breakAt rs) rs" | "p \<in> set (wrapLine (dropBlank (drop (breakAt rs) rs)))"
      using "1.prems" by (auto simp: wrapLine.simps [of rs])
    then show ?thesis
    proof cases
      case 1
      then show ?thesis using breakAt_le [of rs] set_take_subset [of "breakAt rs" rs] by simp
    next
      case 2
      then show ?thesis using "1.IH" [OF False] sub by blast
    qed
  qed
qed

lemma wrap_plain: "l \<in> set (wrap s) \<Longrightarrow> plainLine wrapWidth l"
proof -
  assume l: "l \<in> set (wrap s)"
  obtain ts where ts: "visible s = concat ts" "\<forall>t \<in> set ts. plainRune t \<or> t = [CHR 0x0A]" using visible_parts by blast
  obtain uss where uss: "splitOn (CHR 0x0A) (visible s) = map concat uss" "\<forall>us \<in> set uss. \<forall>u \<in> set us. plainRune u"
    using splitOn_runes [OF ts(2)] ts(1) by auto
  from l obtain us p where p: "us \<in> set uss" "p \<in> set (wrapLine (runesOf (concat us)))" "l = concat p"
    unfolding wrap_def uss(1) by auto
  have "runesOf (concat us) = us" using runesOf_concat uss(2) p(1) by (simp add: plainRune_def)
  then show ?thesis using p uss(2) wrapLine_pieces [of p us] unfolding plainLine_def by auto
qed

text \<open>Only blanks and line ends are lost.\<close>

definition squeeze :: "string \<Rightarrow> string" where
  "squeeze s = filter (\<lambda>c. c \<noteq> CHR '' '' \<and> c \<noteq> CHR 0x0A) s"

lemma squeeze_append [simp]: "squeeze (s @ t) = squeeze s @ squeeze t" "squeeze [] = []"
  by (simp_all add: squeeze_def)

lemma squeeze_concat: "squeeze (concat xs) = concat (map squeeze xs)"
  by (induction xs) simp_all

lemma squeeze_dropBlank: "squeeze (concat (dropBlank rs)) = squeeze (concat rs)"
  by (cases rs) (auto simp: dropBlank_def squeeze_def)

lemma squeeze_wrapLine: "squeeze (concat (map concat (wrapLine rs))) = squeeze (concat rs)"
proof (induction rs rule: wrapLine.induct)
  case (1 rs)
  show ?case
  proof (cases "length rs \<le> wrapWidth")
    case True
    then show ?thesis by (simp add: wrapLine.simps [of rs])
  next
    case False
    have "concat rs = concat (take (breakAt rs) rs) @ concat (drop (breakAt rs) rs)" by (metis append_take_drop_id concat_append)
    then show ?thesis using "1.IH" [OF False] False squeeze_dropBlank by (simp add: wrapLine.simps [of rs])
  qed
qed

lemma concat_runesOf: "concat (runesOf s) = s"
proof (induction s rule: runesOf.induct)
  case (1 s)
  then show ?case by (subst runesOf.simps) (simp add: Let_def)
qed

lemma squeeze_splitOn: "concat (map squeeze (splitOn (CHR 0x0A) s)) = squeeze s"
proof -
  have "squeeze (joinWith [CHR 0x0A] xs) = concat (map squeeze xs)" for xs
    by (induction xs rule: joinWith.induct [of "\<lambda>_ xs. squeeze (joinWith [CHR 0x0A] xs) = concat (map squeeze xs)" undefined])
      (simp_all add: squeeze_def)
  from this [of "splitOn (CHR 0x0A) s"] show ?thesis by simp
qed

lemma squeeze_wrap: "squeeze (concat (wrap s)) = squeeze (visible s)"
proof -
  have "squeeze (concat (map concat (concat (map (\<lambda>line. wrapLine (runesOf line)) ls)))) = concat (map squeeze ls)" for ls
    by (induction ls) (simp_all add: squeeze_wrapLine concat_runesOf flip: squeeze_concat)
  then show ?thesis unfolding wrap_def using squeeze_splitOn by simp
qed

section \<open>The report\<close>

text \<open>The text of a block before wrapping.\<close>

definition blockText :: "viewBlock \<Rightarrow> string" where
  "blockText b = (if vbHeading b \<noteq> [] then vbHeading b
     else (if vbClass b \<noteq> [] then ''['' @ vbClass b @ ''] '' else []) @ vbLabel b @ '': '' @ vbValue b)"

lemma squeeze_indentRest: "squeeze (concat (indentRest ls)) = squeeze (concat ls)"
proof -
  have "squeeze (replicate 4 CHR '' '') = []" by (simp add: squeeze_def)
  then have "concat (map (squeeze \<circ> (@) (replicate 4 CHR '' '')) xs) = squeeze (concat xs)" for xs
    by (induction xs) (simp_all add: squeeze_concat)
  then show ?thesis by (cases ls) (simp_all add: indentRest_def squeeze_concat)
qed

lemma blockLines_text: "\<exists>v. squeeze (concat (blockLines b)) = squeeze (visible (blockText b)) @ v"
  by (auto simp: blockLines_def blockText_def squeeze_wrap squeeze_indentRest)

lemma plain_more: "plainLine n l \<Longrightarrow> n \<le> m \<Longrightarrow> plainLine m l"
  unfolding plainLine_def by force

lemma blank_line: "plainLine n (replicate n CHR '' '')" and dash_line: "plainLine n (replicate n CHR ''-'')"
proof -
  have "plainRune '' ''" "plainRune ''-''" by (rule plain_ascii; simp add: byteVal_def)+
  moreover have "replicate n c = concat (replicate n [c])" for c :: char by (induction n) simp_all
  ultimately show "plainLine n (replicate n CHR '' '')" "plainLine n (replicate n CHR ''-'')"
    unfolding plainLine_def by (metis in_set_replicate length_replicate order_refl)+
qed

lemma plain_append: "plainLine n s \<Longrightarrow> plainLine m t \<Longrightarrow> plainLine (n + m) (s @ t)"
  unfolding plainLine_def by (elim exE conjE, rule_tac x = "us @ usa" in exI) auto

lemma blockLines_plain: "l \<in> set (blockLines b) \<Longrightarrow> plainLine 100 l"
proof -
  have nil: "plainLine 100 []" unfolding plainLine_def by (intro exI [of _ "[]"]) simp
  have wrapped: "plainLine 100 x" if "x \<in> set (wrap s)" for x s using plain_more [OF wrap_plain [OF that]] by (simp add: wrapWidth_def)
  have indented: "plainLine 100 (replicate 4 CHR '' '' @ x)" if "x \<in> set (wrap s)" for x s
    using plain_append [OF blank_line [of 4] wrap_plain [OF that]] by (simp add: wrapWidth_def)
  have "plainLine 100 (replicate 16 CHR ''-'')" using plain_more [OF dash_line [of 16]] by simp
  moreover assume "l \<in> set (blockLines b)"
  moreover have "plainLine 100 x" if "x \<in> set (indentRest (wrap s))" for x s
    using that wrapped [of _ s] indented [of _ s] unfolding indentRest_def by (cases "wrap s") (auto simp del: replicate.simps)
  ultimately show ?thesis using nil wrapped by (auto simp: blockLines_def simp del: replicate.simps split: if_splits)
qed

lemma linesLoop_lines:
  "linesLoop bs out = Inr ls \<Longrightarrow> length out \<le> MaxLines \<Longrightarrow> ls = out @ concat (map blockLines bs) \<and> length ls \<le> MaxLines"
  by (induction bs out rule: linesLoop.induct) (auto simp: Let_def split: if_splits)

lemma joinWith_lines: "ls \<noteq> [] \<Longrightarrow> joinWith [d] ls @ [d] = concat (map (\<lambda>l. l @ [d]) ls)"
proof (induction ls)
  case (Cons l ls)
  then show ?case by (cases ls) simp_all
qed simp

lemma plainLine_runes:
  assumes "plainLine n l"
  shows "utf8Valid l \<and> length (runesOf l) \<le> n \<and> (\<forall>c \<in> set (runesOf l). safeRune c)"
proof -
  obtain us where us: "l = concat us" "\<forall>u \<in> set us. plainRune u" "length us \<le> n" using assms unfolding plainLine_def by blast
  then have good: "\<forall>u \<in> set us. goodRune u" by (simp add: plainRune_def)
  show ?thesis using us runesOf_concat [OF good] utf8Valid_concat [OF good] plain_safe by simp
qed

lemma squeeze_feeds: "squeeze (concat (map (\<lambda>l. l @ [CHR 0x0A]) ls)) = squeeze (concat ls)"
  by (induction ls) (simp_all add: squeeze_def)

section \<open>Properties\<close>

text \<open>C34: a text report is bounded, escaped and complete: it consists of at most 20000 lines of valid UTF-8 of at most 100 characters each,
  within 32 MiB, in which no control character, no directional embedding, override or isolate (U+202A to U+202E, U+2066 to U+2069)
  and neither U+FFFE nor U+FFFF occurs, whatever the sources and the model have returned (the direction marks U+200E, U+200F and
  U+061C may occur); and except for blanks and line breaks the text of every block of the view is in it.\<close>

theorem text_report_safe:
  assumes "renderText uni r = Inr out"
  shows "\<exists>ls. out = concat (map (\<lambda>l. l @ [CHR 0x0A]) ls) \<and> length ls \<le> MaxLines \<and> length out \<le> MaxOutputBytes
    \<and> (\<forall>l \<in> set ls. utf8Valid l \<and> length (runesOf l) \<le> 100 \<and> (\<forall>c \<in> set (runesOf l). safeRune c))
    \<and> (\<forall>b \<in> set (makeView uni r). containsStr (squeeze out) (squeeze (visible (blockText b))))"
proof -
  obtain ls where ls: "textLines uni r = Inr ls" "out = joinWith [CHR 0x0A] ls @ [CHR 0x0A]" "length out \<le> MaxOutputBytes"
    using assms by (auto simp: renderText_def boundedOutput_def andThen_def split: sum.splits if_splits)
  have "ls = [] @ concat (map blockLines (makeView uni r)) \<and> length ls \<le> MaxLines"
    using ls(1) unfolding textLines_def by (rule linesLoop_lines) simp
  then have lines: "ls = concat (map blockLines (makeView uni r))" "length ls \<le> MaxLines" unfolding append_Nil by blast+
  have "ls \<noteq> []" unfolding lines(1) by (simp add: makeView_def viewSummary_def blockLines_def heading_def)
  then have out: "out = concat (map (\<lambda>l. l @ [CHR 0x0A]) ls)" using ls(2) joinWith_lines by simp
  have plain: "\<forall>l \<in> set ls. plainLine 100 l" using blockLines_plain unfolding lines(1) by auto
  have "containsStr (squeeze out) (squeeze (visible (blockText b)))" if b: "b \<in> set (makeView uni r)" for b
  proof -
    obtain xs ys where "makeView uni r = xs @ b # ys" using b by (meson split_list)
    moreover obtain v where "squeeze (concat (blockLines b)) = squeeze (visible (blockText b)) @ v" using blockLines_text by blast
    ultimately show ?thesis unfolding out squeeze_feeds lines(1) containsStr_iff by auto
  qed
  then show ?thesis using out lines(2) ls(3) plain plainLine_runes by blast
qed

text \<open>A report of short printable blocks is rendered.\<close>

definition printableC :: "char \<Rightarrow> bool" where
  "printableC c \<longleftrightarrow> 32 \<le> byteVal c \<and> byteVal c < 127"

definition shortBlock :: "viewBlock \<Rightarrow> bool" where
  "shortBlock b \<longleftrightarrow> list_all printableC (blockText b) \<and> length (blockText b) \<le> 96"

lemma printable_runes:
  assumes "list_all printableC s"
  shows "runesOf s = map (\<lambda>c. [c]) s" and "visible s = s" and "splitOn (CHR 0x0A) s = [s]"
proof -
  have plain: "\<forall>c \<in> set s. plainRune [c]" using assms plain_ascii by (auto simp: printableC_def list_all_iff)
  have single: "concat (map (\<lambda>c. [c]) s) = s" for s :: string by (induction s) simp_all
  show runes: "runesOf s = map (\<lambda>c. [c]) s"
    using runesOf_concat [of "map (\<lambda>c. [c]) s"] plain by (auto simp: single plainRune_def)
  have "visibleRune [c] = [c]" if "c \<in> set s" for c
    using that plain assms utf8Len_ascii [of c "[]"] by (auto simp: visibleRune_def plainRune_def goodRune_def printableC_def list_all_iff byteVal_def)
  then have "map visibleRune (map (\<lambda>c. [c]) s) = map (\<lambda>c. [c]) s" by simp
  then show "visible s = s" unfolding visible_def runes by (simp only: single)
  have "CHR 0x0A \<notin> set s" using assms by (auto simp: printableC_def list_all_iff byteVal_def)
  then show "splitOn (CHR 0x0A) s = [s]" using splitOn_prefix [of "CHR 0x0A" s "[]"] by simp
qed

lemma shortBlock_lines:
  "shortBlock b \<Longrightarrow> length (blockLines b) \<le> 3 \<and> (\<forall>l \<in> set (blockLines b). length l \<le> 96 \<and> list_all printableC l)"
proof -
  have dash: "list_all printableC (replicate 16 CHR ''-'')" by (simp add: printableC_def byteVal_def list_all_length)
  assume b: "shortBlock b"
  have "wrap (blockText b) = [blockText b]"
    using printable_runes [of "blockText b"] b by (simp add: shortBlock_def wrap_def wrapLine.simps wrapWidth_def)
  then show ?thesis using b dash by (auto simp: blockLines_def indentRest_def shortBlock_def blockText_def split: if_splits)
qed

lemma linesLoop_ok: "length (out @ concat (map blockLines bs)) \<le> MaxLines \<Longrightarrow> linesLoop bs out = Inr (out @ concat (map blockLines bs))"
  by (induction bs out rule: linesLoop.induct) (simp_all add: Let_def)

lemma short_lines:
  assumes "list_all shortBlock (makeView uni r)" and "length (makeView uni r) \<le> 1000"
  shows "\<exists>ls. textLines uni r = Inr ls \<and> ls = concat (map blockLines (makeView uni r)) \<and> length ls \<le> 3000 \<and> (\<forall>l \<in> set ls. length l \<le> 96 \<and> list_all printableC l)"
proof -
  let ?ls = "concat (map blockLines (makeView uni r))"
  have "length (concat (map blockLines bs)) \<le> 3 * length bs \<and> (\<forall>l \<in> set (concat (map blockLines bs)). length l \<le> 96 \<and> list_all printableC l)"
    if "list_all shortBlock bs" for bs
    using that by (induction bs) (use shortBlock_lines in fastforce)+
  then have ls: "length ?ls \<le> 3000" "\<forall>l \<in> set ?ls. length l \<le> 96 \<and> list_all printableC l" using assms by fastforce+
  moreover have "textLines uni r = Inr ?ls" using linesLoop_ok [of "[]" "makeView uni r"] ls(1) by (simp add: textLines_def MaxLines_def)
  ultimately show ?thesis by blast
qed

lemma short_report:
  assumes "list_all shortBlock (makeView uni r)" and "length (makeView uni r) \<le> 1000"
  shows "\<exists>out. renderText uni r = Inr out"
proof -
  obtain ls where ls: "textLines uni r = Inr ls" "length ls \<le> 3000" "\<forall>l \<in> set ls. length l \<le> 96" using short_lines [OF assms] by blast
  have "length (joinWith d xs) \<le> (96 + length d) * length xs" if "\<forall>l \<in> set xs. length l \<le> 96" for d :: string and xs
    using that by (induction d xs rule: joinWith.induct) auto
  from this [OF ls(3), of "[CHR 0x0A]"] have "length (joinWith [CHR 0x0A] ls @ [CHR 0x0A]) \<le> MaxOutputBytes"
    using ls(2) by (simp add: MaxOutputBytes_def)
  then show ?thesis using ls(1) by (simp add: renderText_def boundedOutput_def)
qed

definition demoReport :: reportDocument where
  "demoReport = \<lparr>rdID = ''r1'', rdTargetType = ''username'', rdTarget = ''alice'', rdCreatedAt = [], rdDuration = 0, rdStatus = ''complete'',
     rdSummary = \<lparr>esResults = 0, esSources = 0, esSuccessful = 0, esFailed = 0, esPartial = 0, esEvidence = 0\<rparr>, rdResults = [],
     rdCorrelations = [], rdWarnings = [''w''], rdErrors = [], rdPartial = False, rdTruncated = False\<rparr>"

lemma demo_text: "\<exists>out. renderText (\<lambda>s. s) (demoReport, None) = Inr out"
proof (rule short_report)
  show "list_all shortBlock (makeView (\<lambda>s. s) (demoReport, None))" by code_simp
  show "length (makeView (\<lambda>s. s) (demoReport, None)) \<le> 1000" by code_simp
qed

theorem text_report_safe_witness:
  "\<exists>out. renderText (\<lambda>s. s) (demoReport, None) = Inr out \<and> containsStr (squeeze out) (squeeze (visible ''Target: alice''))"
proof -
  obtain out where out: "renderText (\<lambda>s. s) (demoReport, None) = Inr out" using demo_text by blast
  have "fieldOf ''Target'' ''alice'' \<in> set (makeView (\<lambda>s. s) (demoReport, None))"
    by (simp add: makeView_def viewSummary_def demoReport_def)
  moreover have "blockText (fieldOf ''Target'' ''alice'') = ''Target: alice''"
    by (simp add: blockText_def fieldOf_def)
  ultimately show ?thesis using text_report_safe [OF out] out by metis
qed

end
