(* ===== verification/ReportMarkupInv.thy ===== *)
theory ReportMarkupInv
  imports ReportMarkup ReportTextInv
begin

text \<open>What a reader of the formatted documents sees: a reader of markup finds the tags of the template and, decoded, the texts of the view.\<close>

section \<open>A reader of markup\<close>

datatype markupToken = Tag string | Txt string

definition entities :: "(string \<times> string) list" where
  "entities = [(''&#34;'', [CHR 0x22]), (''&amp;'', ''&''), (''&#39;'', [CHR 0x27]), (''&#43;'', ''+''), (''&lt;'', ''<''), (''&gt;'', ''>''),
     (''&#x9;'', [CHR 0x09]), (''&#xA;'', [CHR 0x0A]), (''&#xD;'', [CHR 0x0D])]"

text \<open>The number counts the bytes of an entity that are still to be skipped.\<close>

fun decodeText :: "nat \<Rightarrow> string \<Rightarrow> string" where
  "decodeText k [] = []"
| "decodeText (Suc k) (c # cs) = decodeText k cs"
| "decodeText 0 (c # cs) =
     (case find (\<lambda>(e, v). hasPrefix (c # cs) e) entities of
        Some (e, v) \<Rightarrow> v @ decodeText (length e - 1) cs
      | None \<Rightarrow> c # decodeText 0 cs)"

definition textToken :: "string \<Rightarrow> markupToken list" where
  "textToken t = (if t = [] then [] else [Txt (decodeText 0 t)])"

text \<open>The tokens so far, whether a tag is open, and the bytes since its start or since the last tag, in reverse.\<close>

definition readByte :: "markupToken list \<times> bool \<times> string \<Rightarrow> char \<Rightarrow> markupToken list \<times> bool \<times> string" where
  "readByte st c = (case st of (ts, tag, acc) \<Rightarrow>
     if tag then (if c = CHR ''>'' then (ts @ [Tag (rev (c # acc))], False, []) else (ts, True, c # acc))
     else if c = CHR ''<'' then (ts @ textToken (rev acc), True, [c])
     else (ts, False, c # acc))"

definition tokensOf :: "string \<Rightarrow> markupToken list" where
  "tokensOf s = (case foldl readByte ([], False, []) s of (ts, tag, acc) \<Rightarrow> ts @ (if tag then [Tag (rev acc)] else textToken (rev acc)))"

definition isTag :: "string \<Rightarrow> bool" where
  "isTag t \<longleftrightarrow> (\<exists>u. t = CHR ''<'' # u @ [CHR ''>''] \<and> CHR ''>'' \<notin> set u)"

text \<open>Markup that is complete at its end.\<close>

definition readsAs :: "string \<Rightarrow> markupToken list \<Rightarrow> bool" where
  "readsAs s ts \<longleftrightarrow> foldl readByte ([], False, []) s = (ts, False, [])"

lemma read_prefix: "foldl readByte (ts @ us, tag, acc) s = (case foldl readByte (us, tag, acc) s of (vs, r) \<Rightarrow> (ts @ vs, r))"
proof (induction s arbitrary: us tag acc)
  case (Cons c s)
  have "readByte (ts @ us, tag, acc) c = (case readByte (us, tag, acc) c of (vs, r) \<Rightarrow> (ts @ vs, r))" by (simp add: readByte_def)
  then show ?case by (cases "readByte (us, tag, acc) c") (simp add: Cons.IH)
qed simp

lemma read_text: "CHR ''<'' \<notin> set t \<Longrightarrow> foldl readByte (ts, False, acc) t = (ts, False, rev t @ acc)"
  by (induction t arbitrary: acc) (auto simp: readByte_def)

lemma read_open: "CHR ''>'' \<notin> set u \<Longrightarrow> foldl readByte (ts, True, acc) u = (ts, True, rev u @ acc)"
  by (induction u arbitrary: acc) (auto simp: readByte_def)

lemma read_tag: "isTag t \<Longrightarrow> foldl readByte (ts, False, acc) t = (ts @ textToken (rev acc) @ [Tag t], False, [])"
  by (auto simp: isTag_def read_open) (simp_all add: readByte_def read_open)

lemma reads_nil: "readsAs [] []"
  by (simp add: readsAs_def)

lemma reads_tag: "isTag t \<Longrightarrow> readsAs s ts \<Longrightarrow> readsAs (t @ s) (Tag t # ts)"
  using read_prefix [of "[Tag t]" "[]" False "[]" s] by (simp add: readsAs_def read_tag textToken_def)

text \<open>A text is followed by a tag.\<close>

lemma reads_before:
  assumes "CHR ''<'' \<notin> set x" and "readsAs s ts" and "s \<noteq> [] \<and> hd s = CHR ''<''"
  shows "readsAs (x @ s) (textToken x @ ts)"
proof -
  obtain s' where s: "s = CHR ''<'' # s'" using assms(3) by (cases s) auto
  then have "foldl readByte ([], True, [CHR ''<'']) s' = (ts, False, [])" using assms(2) by (simp add: readsAs_def readByte_def textToken_def)
  then show ?thesis
    using read_prefix [of "textToken x" "[]" True "[CHR ''<'']" s'] assms(1) by (simp add: readsAs_def s read_text) (simp add: readByte_def)
qed

lemma reads_text: "CHR ''<'' \<notin> set x \<Longrightarrow> isTag t \<Longrightarrow> readsAs s ts \<Longrightarrow> readsAs (x @ t @ s) (textToken x @ Tag t # ts)"
  by (rule reads_before) (auto simp: isTag_def intro: reads_tag)

lemma reads_append: "readsAs s ts \<Longrightarrow> readsAs s' ts' \<Longrightarrow> readsAs (s @ s') (ts @ ts')"
  using read_prefix [of ts "[]" False "[]" s'] by (simp add: readsAs_def)

lemma reads_concat: "(\<And>x. x \<in> set xs \<Longrightarrow> readsAs (f x) (g x)) \<Longrightarrow> readsAs (concat (map f xs)) (concat (map g xs))"
  by (induction xs) (auto intro: reads_append reads_nil)

text \<open>After a beginning that ends with text, what follows is read from its first tag on.\<close>

lemma tokens_after:
  assumes "foldl readByte ([], False, []) s = (ts, False, acc)" and "isTag t" and "readsAs s' ts'"
  shows "tokensOf (s @ t @ s') = tokensOf s @ Tag t # ts'"
  using assms read_prefix [of "ts @ textToken (rev acc) @ [Tag t]" "[]" False "[]" s']
  by (simp add: tokensOf_def read_tag readsAs_def textToken_def)

section \<open>Texts\<close>

lemma decode_skip: "decodeText (length a) (a @ s) = decodeText 0 s"
  by (induction a) simp_all

lemma decode_other: "c \<noteq> CHR ''&'' \<Longrightarrow> decodeText 0 (c # s) = c # decodeText 0 s"
  by (simp add: entities_def hasPrefix_iff)

lemma decode_plain: "CHR ''&'' \<notin> set a \<Longrightarrow> decodeText 0 (a @ s) = a @ decodeText 0 s"
proof (induction a)
  case (Cons c a)
  then have "c \<noteq> CHR ''&''" by auto
  then show ?case using Cons decode_other [of c "a @ s"] by simp
qed simp

lemma decode_entity:
  "decodeText 0 (''&#34;'' @ s) = CHR 0x22 # decodeText 0 s"
  "decodeText 0 (''&amp;'' @ s) = CHR ''&'' # decodeText 0 s"
  "decodeText 0 (''&#39;'' @ s) = CHR 0x27 # decodeText 0 s"
  "decodeText 0 (''&#43;'' @ s) = CHR ''+'' # decodeText 0 s"
  "decodeText 0 (''&lt;'' @ s) = CHR ''<'' # decodeText 0 s"
  "decodeText 0 (''&gt;'' @ s) = CHR ''>'' # decodeText 0 s"
  "decodeText 0 (''&#x9;'' @ s) = CHR 0x09 # decodeText 0 s"
  "decodeText 0 (''&#xA;'' @ s) = CHR 0x0A # decodeText 0 s"
  "decodeText 0 (''&#xD;'' @ s) = CHR 0x0D # decodeText 0 s"
  by (simp_all add: entities_def numeral_eq_Suc)

text \<open>A null byte, which no text that was made visible contains, is shown as the replacement character.\<close>

definition shown :: "string \<Rightarrow> string" where
  "shown s = concat (map (\<lambda>c. if c = CHR 0x00 then replacementRune else [c]) s)"

lemma shown_same: "CHR 0x00 \<notin> set s \<Longrightarrow> shown s = s"
  by (induction s) (auto simp: shown_def)

lemma replacement_bytes: "set replacementRune \<inter> {CHR ''&'', CHR ''<'', CHR ''>'', CHR 0x22} = {}"
  by code_simp

lemma decode_htmlChar: "decodeText 0 (htmlChar c @ s) = (if c = CHR 0x00 then replacementRune else [c]) @ decodeText 0 s"
proof -
  have "CHR ''&'' \<notin> set replacementRune" using replacement_bytes by blast
  then have "decodeText 0 (replacementRune @ s) = replacementRune @ decodeText 0 s" by (rule decode_plain)
  then show ?thesis
    unfolding htmlChar_def by (simp only: decode_entity if_distrib [of "\<lambda>x. decodeText 0 (x @ s)"]) (auto simp: decode_other simp del: decodeText.simps)
qed

lemma decode_htmlText: "decodeText 0 (htmlText x @ s) = shown x @ decodeText 0 s"
  by (induction x) (simp_all add: htmlText_def shown_def decode_htmlChar del: decodeText.simps(3))

lemma htmlText_bytes: "set (htmlText x) \<inter> {CHR ''<'', CHR ''>'', CHR 0x22} = {}"
  using replacement_bytes by (auto simp: htmlText_def htmlChar_def split: if_splits)

section \<open>HTML\<close>

definition textFrom :: "string \<Rightarrow> markupToken list" where
  "textFrom x = (if x = [] then [] else [Txt x])"

lemma token_html: "textToken (htmlText x) = textFrom (shown x)"
  using decode_htmlText [of x "[]"]
  by (cases x) (auto simp: textToken_def textFrom_def htmlText_def shown_def htmlChar_def replacementRune_def)

lemma token_label: "CHR ''&'' \<notin> set a \<Longrightarrow> a \<noteq> [] \<Longrightarrow> textToken (a @ htmlText x) = [Txt (a @ shown x)]"
  using decode_htmlText [of x "[]"] by (simp add: textToken_def decode_plain)

lemma html_text: "CHR ''<'' \<notin> set (htmlText x)" "CHR ''>'' \<notin> set (htmlText x)"
  using htmlText_bytes [of x] by blast+

lemma tag_lit: "CHR ''>'' \<notin> set u \<Longrightarrow> isTag (CHR ''<'' # u @ [CHR ''>''])"
  by (auto simp: isTag_def)

lemma tag_check:
  assumes "t \<noteq> []" and "hd t = CHR ''<''" and "last t = CHR ''>''" and "CHR ''>'' \<notin> set (butlast t)"
  shows "isTag t"
proof -
  obtain u where u: "t = CHR ''<'' # u" "u \<noteq> []" using assms(1,2,3) by (cases t) (auto split: if_splits)
  have "last u = CHR ''>''" using assms(3) u by simp
  from append_butlast_last_id [OF u(2), unfolded this] have v: "butlast u @ [CHR ''>''] = u" .
  have "t = CHR ''<'' # butlast u @ [CHR ''>'']" unfolding v u(1) ..
  moreover have "CHR ''>'' \<notin> set (butlast u)" using assms(4) u by auto
  ultimately show ?thesis unfolding isTag_def by blast
qed

text \<open>What is to be seen of a block.\<close>

definition badgeTag :: "string \<Rightarrow> string" where
  "badgeTag c = ''<span class=\"badge '' @ htmlText c @ ''\">''"

definition blockTokens :: "viewBlock \<Rightarrow> markupToken list" where
  "blockTokens b =
     (if vbHeading b \<noteq> [] then [Tag ''<h2>''] @ textFrom (shown (vbHeading b)) @ [Tag ''</h2>'']
      else [Tag ''<div class=\"field\">'']
        @ (if vbClass b \<noteq> [] then [Tag (badgeTag (vbClass b))] @ textFrom (shown (vbClass b)) @ [Tag ''</span>''] else [])
        @ [Tag ''<span class=\"label\">'', Txt (shown (vbLabel b) @ '':''), Tag ''</span>'', Txt '' '', Tag ''<span>'']
        @ textFrom (shown (vbValue b)) @ [Tag ''</span>'', Tag ''</div>''])"

lemma badge_tag: "isTag (badgeTag c)"
  unfolding badgeTag_def by (rule tag_check) (auto simp: html_text butlast_append)

lemma token_colon: "textToken (htmlText x @ '':'') = [Txt (shown x @ '':'')]"
  using decode_htmlText [of x "'':''"] by (simp add: textToken_def decode_other del: decodeText.simps(3))

lemma tag_literals:
  "isTag ''<h2>''" "isTag ''</h2>''" "isTag ''<div class=\"field\">''" "isTag ''</span>''" "isTag ''<span class=\"label\">''" "isTag ''<span>''" "isTag ''</div>''"
  by (rule tag_check; simp)+

lemma reads_value: "isTag t \<Longrightarrow> readsAs s ts \<Longrightarrow> readsAs (htmlText x @ t @ s) (textFrom (shown x) @ Tag t # ts)"
  unfolding token_html [symmetric] by (rule reads_text) (rule html_text)

lemma block_reads: "readsAs (htmlBlock b) (blockTokens b)"
proof -
  note tag = tag_literals
  have field: "readsAs (''<span class=\"label\">'' @ (htmlText (vbLabel b) @ '':'') @ ''</span>'' @ '' '' @ ''<span>'' @ htmlText (vbValue b) @ ''</span>'' @ ''</div>'' @ [])
      (Tag ''<span class=\"label\">'' # textToken (htmlText (vbLabel b) @ '':'') @ Tag ''</span>'' # textToken '' '' @ Tag ''<span>''
        # textFrom (shown (vbValue b)) @ Tag ''</span>'' # Tag ''</div>'' # [])"
    by (intro reads_tag reads_text reads_value reads_nil tag) (simp_all add: html_text)
  have badge: "readsAs (badgeTag (vbClass b) @ htmlText (vbClass b) @ ''</span>'' @ [])
      (Tag (badgeTag (vbClass b)) # textFrom (shown (vbClass b)) @ Tag ''</span>'' # [])"
    by (intro reads_tag reads_value reads_nil tag badge_tag)
  have head: "readsAs (''<h2>'' @ htmlText (vbHeading b) @ ''</h2>'' @ []) (Tag ''<h2>'' # textFrom (shown (vbHeading b)) @ Tag ''</h2>'' # [])"
    by (intro reads_tag reads_value reads_nil tag)
  have space: "textToken '' '' = [Txt '' '']" by code_simp
  have rest: "readsAs ((if vbClass b \<noteq> [] then badgeTag (vbClass b) @ htmlText (vbClass b) @ ''</span>'' @ [] else [])
        @ ''<span class=\"label\">'' @ (htmlText (vbLabel b) @ '':'') @ ''</span>'' @ '' '' @ ''<span>'' @ htmlText (vbValue b) @ ''</span>'' @ ''</div>'' @ [])
      ((if vbClass b \<noteq> [] then Tag (badgeTag (vbClass b)) # textFrom (shown (vbClass b)) @ Tag ''</span>'' # [] else [])
        @ Tag ''<span class=\"label\">'' # textToken (htmlText (vbLabel b) @ '':'') @ Tag ''</span>'' # textToken '' '' @ Tag ''<span>''
        # textFrom (shown (vbValue b)) @ Tag ''</span>'' # Tag ''</div>'' # [])"
    by (intro reads_append field) (simp add: badge [simplified] reads_nil)
  from reads_tag [OF tag(3) this] head show ?thesis
    by (cases "vbHeading b = []"; cases "vbClass b = []") (simp_all add: htmlBlock_def blockTokens_def token_colon space badgeTag_def)
qed

text \<open>The page around the blocks.\<close>

definition frameTokens :: "string \<Rightarrow> string \<Rightarrow> string \<Rightarrow> markupToken list" where
  "frameTokens target reportID status =
     [Tag ''<body>'', Tag ''<main>'', Tag ''<header>'', Tag ''<h1>'', Txt ''AgentSearch Investigation Report'', Tag ''</h1>'',
      Tag ''<p class=\"field\">'', Txt (''Target: '' @ target), Tag ''</p>'', Tag ''<p>'', Txt ''Status: '', Tag ''<strong>'']
     @ textFrom status @ [Tag ''</strong>'', Tag ''</p>'', Tag ''<p class=\"field\">'', Txt (''Investigation ID: '' @ reportID), Tag ''</p>'',
      Tag ''</header>'', Tag ''<section>'']"

definition endTokens :: "markupToken list" where
  "endTokens = [Tag ''</section>'', Tag ''</main>'', Tag ''</body>'', Tag ''</html>'']"

lemma frame_tags:
  "isTag ''<body>''" "isTag ''<main>''" "isTag ''<header>''" "isTag ''<h1>''" "isTag ''</h1>''" "isTag ''<p class=\"field\">''" "isTag ''</p>''"
  "isTag ''<p>''" "isTag ''<strong>''" "isTag ''</strong>''" "isTag ''</header>''" "isTag ''<section>''" "isTag ''</section>''"
  "isTag ''</main>''" "isTag ''</body>''" "isTag ''</html>''"
  by (rule tag_check; simp)+

lemma feed_token: "textToken [CHR 0x0A] = [Txt [CHR 0x0A]]"
  by code_simp

lemma block_start: "htmlBlock b \<noteq> [] \<and> hd (htmlBlock b) = CHR ''<''"
  by (simp add: htmlBlock_def)

lemma frame_reads:
  assumes "readsAs s ts"
  shows "readsAs (''<main>'' @ ''<header>'' @ ''<h1>'' @ ''AgentSearch Investigation Report'' @ ''</h1>'' @ ''<p class=\"field\">''
      @ (''Target: '' @ htmlText target) @ ''</p>'' @ ''<p>'' @ ''Status: '' @ ''<strong>'' @ htmlText status @ ''</strong>'' @ ''</p>''
      @ ''<p class=\"field\">'' @ (''Investigation ID: '' @ htmlText reportID) @ ''</p>'' @ ''</header>'' @ ''<section>'' @ s)
    (Tag ''<main>'' # Tag ''<header>'' # Tag ''<h1>'' # textToken ''AgentSearch Investigation Report'' @ Tag ''</h1>'' # Tag ''<p class=\"field\">''
      # textToken (''Target: '' @ htmlText target) @ Tag ''</p>'' # Tag ''<p>'' # textToken ''Status: '' @ Tag ''<strong>''
      # textFrom (shown status) @ Tag ''</strong>'' # Tag ''</p>'' # Tag ''<p class=\"field\">''
      # textToken (''Investigation ID: '' @ htmlText reportID) @ Tag ''</p>'' # Tag ''</header>'' # Tag ''<section>'' # ts)"
  by (intro reads_tag reads_text reads_value assms frame_tags) (simp_all add: html_text)

lemma page_reads:
  "readsAs ([CHR 0x0A] @ concat (map htmlBlock (b # bs)) @ [CHR 0x0A] @ ''</section>'' @ ''</main>'' @ ''</body>'' @ ''</html>'' @ [])
    (Txt [CHR 0x0A] # concat (map blockTokens (b # bs)) @ Txt [CHR 0x0A] # endTokens)"
proof -
  have e: "readsAs ([CHR 0x0A] @ ''</section>'' @ ''</main>'' @ ''</body>'' @ ''</html>'' @ [])
      (textToken [CHR 0x0A] @ Tag ''</section>'' # Tag ''</main>'' # Tag ''</body>'' # Tag ''</html>'' # [])"
    by (intro reads_tag reads_text reads_nil frame_tags) simp
  have "readsAs (concat (map htmlBlock (b # bs)) @ [CHR 0x0A] @ ''</section>'' @ ''</main>'' @ ''</body>'' @ ''</html>'' @ [])
      (concat (map blockTokens (b # bs)) @ Txt [CHR 0x0A] # endTokens)"
    by (rule reads_append) (use e feed_token reads_concat [of "b # bs" htmlBlock blockTokens] block_reads in \<open>simp_all add: endTokens_def\<close>)
  from reads_before [OF _ this, of "[CHR 0x0A]"] show ?thesis using block_start [of b] by (simp add: feed_token)
qed

lemma read_mode: "fst (snd (foldl readByte st s)) = foldl (\<lambda>m c. if m then c \<noteq> CHR ''>'' else c = CHR ''<'') (fst (snd st)) s"
proof (induction s arbitrary: st)
  case (Cons c s)
  have "fst (snd (readByte st c)) = (if fst (snd st) then c \<noteq> CHR ''>'' else c = CHR ''<'')" by (auto simp: readByte_def split: prod.split)
  then show ?case by (simp add: Cons.IH)
qed simp

lemma head_open: "\<exists>ts. foldl readByte ([], False, []) htmlHead = (ts, False, [CHR 0x0A])"
proof -
  have "foldl (\<lambda>m c. if m then c \<noteq> CHR ''>'' else c = CHR ''<'') False htmlOpening = False" by code_simp
  then obtain ts acc where a: "foldl readByte ([], False, []) htmlOpening = (ts, False, acc)"
    using read_mode [of "([], False, [])" htmlOpening] by (cases "foldl readByte ([], False, []) htmlOpening") auto
  have "isTag ''</head>''" by (rule tag_check; simp)
  from a read_tag [OF this, of ts acc] show ?thesis by (simp add: htmlHead_def readByte_def)
qed

lemma html_tokens:
  "tokensOf (htmlReport target reportID status (b # bs)) = tokensOf htmlHead @ frameTokens (shown target) (shown reportID) (shown status)
    @ Txt [CHR 0x0A] # concat (map blockTokens (b # bs)) @ Txt [CHR 0x0A] # endTokens"
proof -
  obtain ts where "foldl readByte ([], False, []) htmlHead = (ts, False, [CHR 0x0A])" using head_open by blast
  note a = tokens_after [OF this frame_tags(1) frame_reads [OF page_reads]]
  have texts: "textToken ''AgentSearch Investigation Report'' = [Txt ''AgentSearch Investigation Report'']" "textToken ''Status: '' = [Txt ''Status: '']"
    by code_simp+
  show ?thesis
    using a [of target status reportID b bs] token_label [of "''Target: ''"] token_label [of "''Investigation ID: ''"]
    by (simp add: htmlReport_def frameTokens_def texts)
qed

section \<open>DOCX\<close>

lemma visible_runes: "\<forall>r \<in> set (runesOf (visible s)). plainRune r \<or> r = [CHR 0x0A]"
proof -
  obtain ts where ts: "visible s = concat ts" "\<forall>t \<in> set ts. plainRune t \<or> t = [CHR 0x0A]" using visible_parts by blast
  have "goodRune [CHR 0x0A]" by code_simp
  then have "\<forall>t \<in> set ts. goodRune t" using ts(2) by (auto simp: plainRune_def)
  then show ?thesis using ts runesOf_concat by simp
qed

lemma xml_rune:
  assumes "plainRune r \<or> r = [CHR 0x0A]"
  shows "decodeText 0 (xmlRune r @ t) = r @ decodeText 0 t \<and> set (xmlRune r) \<inter> {CHR ''<'', CHR ''>''} = {}"
proof (cases "r \<in> set (map snd entities)")
  case True
  have x: "xmlRune [CHR 0x22] = ''&#34;''" "xmlRune ''&'' = ''&amp;''" "xmlRune [CHR 0x27] = ''&#39;''" "xmlRune ''+'' = ''+''" "xmlRune ''<'' = ''&lt;''"
    "xmlRune ''>'' = ''&gt;''" "xmlRune [CHR 0x09] = ''&#x9;''" "xmlRune [CHR 0x0A] = ''&#xA;''" "xmlRune [CHR 0x0D] = ''&#xD;''"
    by code_simp+
  have e: "map snd entities = [[CHR 0x22], ''&'', [CHR 0x27], ''+'', ''<'', ''>'', [CHR 0x09], [CHR 0x0A], [CHR 0x0D]]" by (simp add: entities_def)
  have d: "decodeText 0 (''+'' @ t) = ''+'' @ decodeText 0 t" by (rule decode_plain) simp
  from True have "r = [CHR 0x22] \<or> r = ''&'' \<or> r = [CHR 0x27] \<or> r = ''+'' \<or> r = ''<'' \<or> r = ''>'' \<or> r = [CHR 0x09] \<or> r = [CHR 0x0A] \<or> r = [CHR 0x0D]"
    unfolding e by simp
  then show ?thesis using d by (elim disjE; simp only: x decode_entity) simp_all
next
  case False
  then have r: "plainRune r" using assms by (auto simp: entities_def)
  then have good: "goodRune r" "safeRune r" using plain_safe by (auto simp: plainRune_def)
  then have "xmlRange (runeValue r)" "utf8Len r \<noteq> 0" by (auto simp: safeRune_def xmlRange_def Let_def goodRune_def)
  then have x: "xmlRune r = r" using False by (auto simp: xmlRune_def entities_def)
  have "c \<notin> set r" if "c = CHR ''&'' \<or> c = CHR ''<'' \<or> c = CHR ''>''" for c
    using goodRune_ascii [OF good(1), of c] False that by (auto simp: entities_def byteVal_def)
  then show ?thesis using x decode_plain [of r t] by auto
qed

lemma xml_runes:
  assumes "\<forall>r \<in> set rs. plainRune r \<or> r = [CHR 0x0A]"
  shows "decodeText 0 (concat (map xmlRune rs) @ t) = concat rs @ decodeText 0 t \<and> set (concat (map xmlRune rs)) \<inter> {CHR ''<'', CHR ''>''} = {}"
  using assms
proof (induction rs)
  case (Cons r rs)
  then have r: "plainRune r \<or> r = [CHR 0x0A]" by simp
  show ?case using Cons xml_rune [OF r, of "concat (map xmlRune rs) @ t"] by (auto simp del: decodeText.simps)
qed simp

lemma xml_text: "decodeText 0 (xmlText s) = visible s" "set (xmlText s) \<inter> {CHR ''<'', CHR ''>''} = {}"
  using xml_runes [OF visible_runes, of s "[]"] by (simp_all add: xmlText_def concat_runesOf)

lemma token_xml: "textToken (xmlText s) = textFrom (visible s)"
proof -
  have "xmlText s = [] \<longleftrightarrow> visible s = []"
  proof
    assume "xmlText s = []"
    then show "visible s = []" using xml_text(1) [of s] by simp
  next
    assume "visible s = []"
    then show "xmlText s = []" by (simp add: xmlText_def runesOf.simps [of "[]"])
  qed
  then show ?thesis by (simp add: textToken_def textFrom_def xml_text)
qed

definition styleTag :: "nat \<Rightarrow> string" where
  "styleTag i = ''<w:pStyle w:val=\"'' @ (if i = 1 then ''Title'' else ''Normal'') @ ''\"/>''"

definition paragraphTokens :: "nat \<times> string \<Rightarrow> markupToken list" where
  "paragraphTokens p =
     [Tag ''<w:p>'', Tag ''<w:pPr>'', Tag (styleTag (fst p)), Tag ''</w:pPr>'', Tag ''<w:r>'', Tag ''<w:t xml:space=\"preserve\">'']
     @ textFrom (visible (snd p)) @ [Tag ''</w:t>'', Tag ''</w:r>'', Tag ''</w:p>'']"

lemma paragraph_reads: "readsAs (docxParagraph i l) (paragraphTokens (i, l))"
proof -
  have tags: "isTag ''<w:p>''" "isTag ''<w:pPr>''" "isTag (styleTag i)" "isTag ''</w:pPr>''" "isTag ''<w:r>''" "isTag ''<w:t xml:space=\"preserve\">''"
    "isTag ''</w:t>''" "isTag ''</w:r>''" "isTag ''</w:p>''"
    by (rule tag_check; simp add: styleTag_def butlast_append)+
  have x: "CHR ''<'' \<notin> set (xmlText l)" using xml_text(2) by blast
  have "readsAs (''<w:p>'' @ ''<w:pPr>'' @ styleTag i @ ''</w:pPr>'' @ ''<w:r>'' @ ''<w:t xml:space=\"preserve\">'' @ xmlText l @ ''</w:t>'' @ ''</w:r>'' @ ''</w:p>'' @ [])
      (Tag ''<w:p>'' # Tag ''<w:pPr>'' # Tag (styleTag i) # Tag ''</w:pPr>'' # Tag ''<w:r>'' # Tag ''<w:t xml:space=\"preserve\">'' # textToken (xmlText l)
        @ Tag ''</w:t>'' # Tag ''</w:r>'' # Tag ''</w:p>'' # [])"
    by (intro reads_tag reads_text reads_nil tags x)
  then show ?thesis by (simp add: docxParagraph_def paragraphTokens_def styleTag_def token_xml)
qed

lemma docxLoop_body:
  "docxLoop i ls body = Inr out \<Longrightarrow> out = body @ concat (map (\<lambda>(i, l). docxParagraph i l) (enumerate i ls)) @ docxSuffix"
  by (induction i ls body rule: docxLoop.induct) (auto simp: Let_def split: if_splits)

lemma suffix_reads: "\<exists>ts. readsAs docxPrefix ts" "\<exists>ts. readsAs docxSuffix ts"
proof -
  have "snd (foldl readByte ([], False, []) docxPrefix) = (False, [])" "snd (foldl readByte ([], False, []) docxSuffix) = (False, [])" by code_simp+
  then show "\<exists>ts. readsAs docxPrefix ts" "\<exists>ts. readsAs docxSuffix ts" unfolding readsAs_def by (metis prod.collapse)+
qed

lemma reads_tokens: "readsAs s ts \<Longrightarrow> tokensOf s = ts"
  by (simp add: readsAs_def tokensOf_def textToken_def)

lemma body_tokens:
  assumes "docxLoop 0 ls docxPrefix = Inr body"
  shows "tokensOf body = tokensOf docxPrefix @ concat (map paragraphTokens (enumerate 0 ls)) @ tokensOf docxSuffix"
proof -
  obtain ps ss where r: "readsAs docxPrefix ps" "readsAs docxSuffix ss" using suffix_reads by blast
  have "readsAs (concat (map (\<lambda>(i, l). docxParagraph i l) (enumerate 0 ls))) (concat (map paragraphTokens (enumerate 0 ls)))"
    by (rule reads_concat) (use paragraph_reads in auto)
  from reads_append [OF r(1) reads_append [OF this r(2)]] show ?thesis
    unfolding docxLoop_body [OF assms] reads_tokens [OF r(1)] reads_tokens [OF r(2)] by (rule reads_tokens)
qed

section \<open>PDF\<close>

lemma pdfLines_append:
  "pdfLines g start i (xs @ ys) = andThen (pdfLines g start i xs) (\<lambda>a. andThen (pdfLines g start (i + length xs) ys) (\<lambda>b. Inr (a @ b)))"
proof (induction xs arbitrary: i)
  case Nil
  then show ?case by (cases "pdfLines g start i ys") (simp_all add: res_simps)
next
  case (Cons x xs)
  show ?case
    by (cases "pdfLines g start (i + 1) xs"; cases "pdfLines g start (i + 1 + length xs) ys")
      (auto simp: Let_def Cons.IH [of "i + 1", simplified] res_simps split: option.split)
qed

lemma pdfLines_evidence: "pdfLines g start i xs = Inr ys \<Longrightarrow> i + length xs \<le> start \<Longrightarrow> ys = xs"
  by (induction xs arbitrary: i ys) (auto simp: Let_def res_simps andThen_def split: option.splits sum.splits if_splits)

text \<open>A font that has what escapes are written with.\<close>

definition escapeFont :: "(string \<Rightarrow> bool) \<Rightarrow> bool" where
  "escapeFont g \<longleftrightarrow> list_all (\<lambda>c. g [c]) (CHR 0x5C # ''U0123456789ABCDEF'')"

lemma upperHex_chars: "n < 16 \<Longrightarrow> upperHex n \<in> set ''0123456789ABCDEF''"
proof -
  assume "n < 16"
  then have "n \<in> set [0..<16]" by simp
  moreover have "list_all (\<lambda>n. upperHex n \<in> set ''0123456789ABCDEF'') [0..<16]" by code_simp
  ultimately show ?thesis unfolding list_all_iff by blast
qed

lemma escape_chars: "escapeFont g \<Longrightarrow> c \<in> set ([CHR 0x5C, CHR ''U''] @ hexPad k n) \<Longrightarrow> g [c] \<and> goodRune [c]"
proof -
  assume g: "escapeFont g" and c: "c \<in> set ([CHR 0x5C, CHR ''U''] @ hexPad k n)"
  have "set (hexPad k n) \<subseteq> set ''0123456789ABCDEF''" unfolding hexPad_def set_map using upperHex_chars by (intro image_subsetI) simp
  then have "c = CHR 0x5C \<or> c = CHR ''U'' \<or> c \<in> set ''0123456789ABCDEF''" using c unfolding set_append by fastforce
  then have m: "c \<in> set (CHR 0x5C # ''U0123456789ABCDEF'')" by auto
  have "list_all (\<lambda>c. goodRune [c]) (CHR 0x5C # ''U0123456789ABCDEF'')" by code_simp
  then show "g [c] \<and> goodRune [c]" using g m unfolding escapeFont_def list_all_iff by blast
qed

lemma escaped_line:
  assumes "escapeFont g" and "r \<in> set (map decodedRune (runesOf (escapeGlyphs g l)))"
  shows "g r"
proof -
  have "\<exists>ts. concat (map (\<lambda>r. if g r then r else [CHR 0x5C, CHR ''U''] @ hexPad 8 (runeValue r)) rs) = concat ts \<and> (\<forall>t \<in> set ts. goodRune t \<and> g t)"
    if "\<forall>r \<in> set rs. goodRune r" for rs
    using that
  proof (induction rs)
    case Nil
    then show ?case by (intro exI [of _ "[]"]) simp
  next
    case (Cons r rs)
    then obtain ts where ts: "concat (map (\<lambda>r. if g r then r else [CHR 0x5C, CHR ''U''] @ hexPad 8 (runeValue r)) rs) = concat ts" "\<forall>t \<in> set ts. goodRune t \<and> g t" by auto
    let ?e = "[CHR 0x5C, CHR ''U''] @ hexPad 8 (runeValue r)"
    have "concat (map (\<lambda>c. [c]) s) = s" for s :: string by (induction s) simp_all
    moreover have "\<forall>t \<in> set (map (\<lambda>c. [c]) ?e). goodRune t \<and> g t" using escape_chars [OF assms(1)] by (auto simp del: append.simps)
    ultimately show ?case using ts Cons.prems
      by (intro exI [of _ "(if g r then [r] else map (\<lambda>c. [c]) ?e) @ ts"]) (auto simp del: append.simps(2))
  qed
  moreover have "goodRune (decodedRune r)" if "r \<in> set (runesOf l)" for r
  proof -
    have "goodRune replacementRune" by code_simp
    moreover have "goodRune r \<or> utf8Len r = 0" by (rule runesOf_parts [OF that])
    ultimately show ?thesis by (auto simp: decodedRune_def)
  qed
  then have "\<forall>r \<in> set (map decodedRune (runesOf l)). goodRune r" by simp
  ultimately obtain ts where ts: "escapeGlyphs g l = concat ts" "\<forall>t \<in> set ts. goodRune t \<and> g t" unfolding escapeGlyphs_def by blast
  then have "runesOf (escapeGlyphs g l) = ts" using runesOf_concat by simp
  moreover have "decodedRune t = t" if "t \<in> set ts" for t using ts(2) that by (auto simp: decodedRune_def goodRune_def)
  ultimately show ?thesis using assms(2) ts(2) by auto
qed

lemma pdfLines_analysis: "escapeFont g \<Longrightarrow> start \<le> i \<Longrightarrow> pdfLines g start i ls = Inr (map (escapeGlyphs g) ls)"
proof (induction ls arbitrary: i)
  case (Cons l ls)
  have "find (\<lambda>r. \<not> g r) (map decodedRune (runesOf (escapeGlyphs g l))) = None"
    unfolding find_None_iff using escaped_line [OF Cons.prems(1), of _ l] by blast
  then show ?case using Cons by (simp add: Let_def res_simps)
qed simp

lemma analysis_lines:
  assumes "textLines uni (d, None) = Inr base" and "textLines uni (d, Some a) = Inr ls"
  shows "\<exists>rest. ls = base @ rest"
proof -
  have "base = concat (map blockLines (makeView uni (d, None)))" "ls = concat (map blockLines (makeView uni (d, Some a)))"
    using linesLoop_lines [of _ "[]"] assms unfolding textLines_def by (metis append_Nil list.size(3) zero_le)+
  then show ?thesis by (simp add: makeView_def)
qed

text \<open>A line whose characters the font has.\<close>

definition inFont :: "(string \<Rightarrow> bool) \<Rightarrow> string \<Rightarrow> bool" where
  "inFont g l \<longleftrightarrow> list_all g (map decodedRune (runesOf l))"

lemma pdfLines_base:
  "i + length xs \<le> start \<Longrightarrow> if list_all (inFont g) xs then pdfLines g start i xs = Inr xs
     else \<exists>r. \<not> g r \<and> pdfLines g start i xs = Inl (unsupportedRune r)"
proof (induction xs arbitrary: i)
  case (Cons x xs)
  show ?case
  proof (cases "find (\<lambda>r. \<not> g r) (map decodedRune (runesOf x))")
    case None
    then have "inFont g x" by (auto simp: inFont_def list_all_iff find_None_iff)
    then show ?thesis using Cons.IH [of "i + 1"] Cons.prems None by (auto simp: Let_def res_simps split: if_splits)
  next
    case (Some r)
    then obtain k where "k < length (map decodedRune (runesOf x))" "r = map decodedRune (runesOf x) ! k" "\<not> g r"
      unfolding find_Some_iff by blast
    then have "\<not> g r" "\<not> inFont g x" unfolding inFont_def list_all_iff by (blast intro: nth_mem)+
    then show ?thesis using Cons.prems Some by (auto simp: Let_def)
  qed
qed simp

lemma escape_shown: "escapeFont g \<Longrightarrow> inFont g (escapeGlyphs g l)"
  using escaped_line [of g _ l] by (auto simp: inFont_def list_all_iff)

lemma escape_keeps: "plainLine n l \<Longrightarrow> inFont g l \<Longrightarrow> escapeGlyphs g l = l"
proof -
  assume l: "plainLine n l" "inFont g l"
  obtain us where us: "l = concat us" "\<forall>u \<in> set us. goodRune u" using l(1) by (auto simp: plainLine_def plainRune_def)
  have "\<forall>u \<in> set us. decodedRune u = u" using us(2) by (auto simp: decodedRune_def goodRune_def)
  then have "map decodedRune (runesOf l) = us" using runesOf_concat [OF us(2)] us(1) by (simp add: map_idI)
  moreover from this have "map (\<lambda>r. if g r then r else [CHR 0x5C, CHR ''U''] @ hexPad 8 (runeValue r)) us = us"
    using l(2) by (auto simp: inFont_def list_all_iff intro: map_idI)
  ultimately show ?thesis using us(1) by (simp only: escapeGlyphs_def)
qed

lemma textLines_plain: "textLines uni r = Inr ls \<Longrightarrow> l \<in> set ls \<Longrightarrow> plainLine 100 l"
  using linesLoop_lines [of "makeView uni r" "[]" ls] blockLines_plain by (auto simp: textLines_def)

lemma linesLoop_Inl: "linesLoop bs out = Inl e \<Longrightarrow> e = ErrLimit"
  by (induction bs out rule: linesLoop.induct) (auto simp: Let_def split: if_splits)

section \<open>Properties\<close>

lemma visible_shown: "shown (visible s) = visible s"
proof (rule shown_same, rule notI)
  assume z: "CHR 0x00 \<in> set (visible s)"
  then have "CHR 0x00 \<in> set (concat (runesOf (visible s)))" by (simp add: concat_runesOf)
  then obtain r where r: "r \<in> set (runesOf (visible s))" "CHR 0x00 \<in> set r" by auto
  then have p: "plainRune r" using visible_runes [of s] by (auto simp: byteVal_def)
  then have "r = [CHR 0x00]" using goodRune_ascii [of r "CHR 0x00"] r(2) by (auto simp: plainRune_def byteVal_def)
  then show False using plain_safe [OF p] by (simp add: safeRune_def runeValue_def byteVal_def)
qed

text \<open>C38: an HTML report is free of injected markup and faithful: whatever texts the sources, the target and the model have
  supplied, a reader of the page finds exactly the tags of the template, one heading or one field per block of the view in
  order, and their decoded texts are the visible texts of the view, in full.\<close>

theorem html_faithful:
  assumes "renderHTML uni r = Inr out"
  shows "tokensOf out = tokensOf htmlHead @ frameTokens (visible (rdTarget (fst r))) (shown (rdID (fst r))) (shown (rdStatus (fst r)))
    @ Txt [CHR 0x0A] # concat (map (\<lambda>b. blockTokens (visibleBlock b)) (makeView uni r)) @ Txt [CHR 0x0A] # endTokens"
proof -
  obtain b bs where v: "makeView uni r = b # bs" by (simp add: makeView_def viewSummary_def)
  have "out = htmlReport (visible (rdTarget (fst r))) (rdID (fst r)) (rdStatus (fst r)) (visibleBlock b # map visibleBlock bs)"
    using assms by (simp add: renderHTML_def boundedOutput_def v split: if_splits)
  then show ?thesis by (simp add: html_tokens visible_shown v comp_def)
qed

lemma demo_short: "list_all shortBlock (makeView (\<lambda>s. s) (demoReport, None))" "length (makeView (\<lambda>s. s) (demoReport, None)) \<le> 1000"
  by code_simp+

theorem html_faithful_witness:
  "\<exists>out xs ys. renderHTML (\<lambda>s. s) (demoReport, None) = Inr out
    \<and> tokensOf out = xs @ [Tag ''<span class=\"label\">'', Txt ''Type:'', Tag ''</span>'', Txt '' '', Tag ''<span>'', Txt ''username'', Tag ''</span>''] @ ys"
proof -
  let ?v = "makeView (\<lambda>s. s) (demoReport, None)" and ?b = "fieldOf ''Type'' ''username''"
  let ?out = "htmlReport (visible (rdTarget demoReport)) (rdID demoReport) (rdStatus demoReport) (map visibleBlock ?v)"
  have "length ?out \<le> 10000" by code_simp
  then have out: "renderHTML (\<lambda>s. s) (demoReport, None) = Inr ?out" by (simp add: renderHTML_def boundedOutput_def MaxOutputBytes_def)
  have "?b \<in> set ?v" by (simp add: makeView_def viewSummary_def demoReport_def)
  then obtain xs ys where v: "?v = xs @ ?b # ys" by (meson split_list)
  have b: "blockTokens (visibleBlock ?b) = [Tag ''<div class=\"field\">''] @ [Tag ''<span class=\"label\">'', Txt ''Type:'', Tag ''</span>'', Txt '' '',
      Tag ''<span>'', Txt ''username'', Tag ''</span>''] @ [Tag ''</div>'']" by code_simp
  have "concat (map f ?v) = concat (map f xs) @ f ?b @ concat (map f ys)" for f :: "viewBlock \<Rightarrow> markupToken list" by (simp add: v)
  from html_faithful [OF out, unfolded this append.assoc] have "\<exists>us vs. tokensOf ?out = us @ blockTokens (visibleBlock ?b) @ vs"
    by (metis append.assoc append_Cons)
  then obtain us vs where "tokensOf ?out = us @ blockTokens (visibleBlock ?b) @ vs" by blast
  then have "tokensOf ?out = (us @ [Tag ''<div class=\"field\">'']) @ [Tag ''<span class=\"label\">'', Txt ''Type:'', Tag ''</span>'', Txt '' '',
      Tag ''<span>'', Txt ''username'', Tag ''</span>''] @ ([Tag ''</div>''] @ vs)" unfolding b append.assoc .
  with out show ?thesis by blast
qed

text \<open>C39: a DOCX report can be read back: the document part is well-formed markup with one paragraph per line of the text report, in
  order, and the decoded text of each paragraph is the line.\<close>

theorem docx_roundtrip:
  assumes "renderDOCX zipFile uni r = Inr out"
  shows "\<exists>ls body. textLines uni r = Inr ls \<and> zipFile (docxParts (fst r) body) = Inr out
    \<and> tokensOf body = tokensOf docxPrefix @ concat (map paragraphTokens (enumerate 0 ls)) @ tokensOf docxSuffix"
proof -
  obtain ls body where "textLines uni r = Inr ls" "docxLoop 0 ls docxPrefix = Inr body" "zipFile (docxParts (fst r) body) = Inr out"
    using assms by (auto simp: renderDOCX_def andThen_def boundedOutput_def split: sum.splits if_splits)
  then show ?thesis using body_tokens by blast
qed

lemma docxLoop_ok:
  "length (body @ concat (map (\<lambda>(i, l). docxParagraph i l) (enumerate i ls))) \<le> MaxOutputBytes \<Longrightarrow> \<exists>out. docxLoop i ls body = Inr out"
  by (induction i ls body rule: docxLoop.induct) (simp_all add: Let_def)

lemma xmlText_length: "list_all printableC l \<Longrightarrow> length (xmlText l) \<le> 6 * length l"
proof -
  assume l: "list_all printableC l"
  have "length (xmlRune [c]) \<le> 6" for c by (simp add: xmlRune_def replacementRune_def)
  then have "length (concat (map xmlRune (map (\<lambda>c. [c]) x))) \<le> 6 * length x" for x :: string
    by (induction x) (simp_all add: le_add_diff_inverse add_mono)
  then show ?thesis using printable_runes [OF l] by (simp add: xmlText_def)
qed

lemma paragraphs_length:
  "\<forall>l \<in> set ls. length l \<le> 96 \<and> list_all printableC l \<Longrightarrow> length (concat (map (\<lambda>(i, l). docxParagraph i l) (enumerate i ls))) \<le> 1000 * length ls"
proof (induction ls arbitrary: i)
  case (Cons l ls)
  then have "length (docxParagraph i l) \<le> 1000" using xmlText_length [of l] by (simp add: docxParagraph_def)
  then show ?case using Cons.IH [of "Suc i"] Cons.prems by simp
qed simp

theorem docx_roundtrip_witness:
  "\<exists>out ls. renderDOCX (\<lambda>parts. Inr (snd (parts ! 2))) (\<lambda>s. s) (demoReport, None) = Inr out \<and> textLines (\<lambda>s. s) (demoReport, None) = Inr ls
    \<and> tokensOf out = tokensOf docxPrefix @ concat (map paragraphTokens (enumerate 0 ls)) @ tokensOf docxSuffix"
proof -
  obtain ls where ls: "textLines (\<lambda>s. s) (demoReport, None) = Inr ls" "length ls \<le> 3000" "\<forall>l \<in> set ls. length l \<le> 96 \<and> list_all printableC l"
    using short_lines [OF demo_short] by blast
  have "length docxPrefix \<le> 10000" "length docxSuffix \<le> 10000" by code_simp+
  then have short: "length (docxPrefix @ concat (map (\<lambda>(i, l). docxParagraph i l) (enumerate 0 ls)) @ docxSuffix) \<le> MaxOutputBytes"
    using paragraphs_length [OF ls(3), of 0] ls(2) by (simp add: MaxOutputBytes_def)
  then obtain body where body: "docxLoop 0 ls docxPrefix = Inr body" using docxLoop_ok [of docxPrefix 0 ls] by fastforce
  then have "renderDOCX (\<lambda>parts. Inr (snd (parts ! 2))) (\<lambda>s. s) (demoReport, None) = Inr body"
    using short by (simp add: renderDOCX_def ls(1) andThen_def docxParts_def boundedOutput_def docxLoop_body [OF body])
  with docx_roundtrip [OF this] ls(1) show ?thesis by (auto simp: docxParts_def)
qed

text \<open>C40: in a PDF an analysis only adds lines.  With a font that has the characters of an escape, the report with an analysis is laid out from
  the lines of the report without it, unchanged and first, followed by the lines of the analysis, in which the characters
  that the font lacks are replaced by escapes: a line that the font has is unchanged, and none is refused for its characters.  An evidence line that the font
  cannot show refuses both reports with the same error.  What an analysis can add is therefore only length: the report with it
  can still be refused by the bound on lines, or in the layout of the longer list of lines (pages, size, the PDF library).\<close>

theorem analysis_only_adds_lines:
  assumes "textLines uni (d, None) = Inr base" and "escapeFont (pwGlyph pw)"
  shows "case textLines uni (d, Some a) of
      Inl e \<Rightarrow> e = ErrLimit \<and> renderPDF pw uni (d, Some a) = Inl ErrLimit
    | Inr ls \<Rightarrow> \<exists>rest. ls = base @ rest
        \<and> (if list_all (inFont (pwGlyph pw)) base
           then renderPDF pw uni (d, None) = pdfLoop pw (rdCreatedAt d) [] base
             \<and> renderPDF pw uni (d, Some a) = pdfLoop pw (rdCreatedAt d) [] (base @ map (escapeGlyphs (pwGlyph pw)) rest)
           else \<exists>r. \<not> pwGlyph pw r \<and> renderPDF pw uni (d, None) = Inl (unsupportedRune r)
             \<and> renderPDF pw uni (d, Some a) = Inl (unsupportedRune r))
        \<and> list_all (\<lambda>l. inFont (pwGlyph pw) (escapeGlyphs (pwGlyph pw) l) \<and> (inFont (pwGlyph pw) l \<longrightarrow> escapeGlyphs (pwGlyph pw) l = l)) rest"
proof (cases "textLines uni (d, Some a)")
  case (Inl e)
  then have "e = ErrLimit" by (auto simp: textLines_def dest: linesLoop_Inl)
  then show ?thesis using Inl by (simp add: renderPDF_def)
next
  case (Inr ls)
  let ?g = "pwGlyph pw"
  obtain rest where ls: "ls = base @ rest" using analysis_lines [OF assms(1) Inr] by blast
  have "pdfStart uni (d, Some a) ls = Inr (length base)" "pdfStart uni (d, None) base = Inr (length base)"
    using assms(1) by (simp_all add: pdfStart_def)
  then have pdf: "renderPDF pw uni (d, None) = andThen (pdfLines ?g (length base) 0 base) (pdfLoop pw (rdCreatedAt d) [])"
      "renderPDF pw uni (d, Some a) = andThen (andThen (pdfLines ?g (length base) 0 base) (\<lambda>x. Inr (x @ map (escapeGlyphs ?g) rest))) (pdfLoop pw (rdCreatedAt d) [])"
    using assms(1) Inr by (simp_all add: renderPDF_def ls pdfLines_append pdfLines_analysis [OF assms(2)] res_simps)
  have "list_all (\<lambda>l. inFont ?g (escapeGlyphs ?g l) \<and> (inFont ?g l \<longrightarrow> escapeGlyphs ?g l = l)) rest"
    using escape_shown [OF assms(2)] escape_keeps [of 100] textLines_plain [OF Inr] ls unfolding list_all_iff by simp
  then show ?thesis using pdfLines_base [of 0 base "length base" ?g] Inr ls pdf by (auto split: if_splits)
qed

definition asciiFont :: "string \<Rightarrow> bool" where
  "asciiFont r \<longleftrightarrow> length r = 1"

definition demoPdf :: pdfWriter where
  "demoPdf = \<lparr>pwGlyph = asciiFont, pwPage = (\<lambda>ls. 1), pwError = (\<lambda>_. False), pwFile = (\<lambda>_ ls. Inr (concat ls))\<rparr>"

theorem analysis_only_adds_lines_witness:
  "\<exists>base rest. textLines (\<lambda>s. s) (demoReport, None) = Inr base
    \<and> renderPDF demoPdf (\<lambda>s. s) (demoReport, Some (Failed ''timeout''))
        = pdfLoop demoPdf (rdCreatedAt demoReport) [] (base @ map (escapeGlyphs asciiFont) rest)"
proof -
  obtain base where base: "textLines (\<lambda>s. s) (demoReport, None) = Inr base" "\<forall>l \<in> set base. list_all printableC l" using short_lines [OF demo_short] by blast
  have "list_all shortBlock (makeView (\<lambda>s. s) (demoReport, Some (Failed ''timeout'')))" "length (makeView (\<lambda>s. s) (demoReport, Some (Failed ''timeout''))) \<le> 1000"
    by code_simp+
  from short_lines [OF this] obtain ls where ls: "textLines (\<lambda>s. s) (demoReport, Some (Failed ''timeout'')) = Inr ls" by blast
  have font: "escapeFont (pwGlyph demoPdf)" by (simp add: escapeFont_def asciiFont_def demoPdf_def)
  have "asciiFont (decodedRune r)" if lb: "l \<in> set base" and rl: "r \<in> set (runesOf l)" for l r
  proof -
    have l: "list_all printableC l" using lb base(2) by blast
    then obtain c where "r = [c]" "printableC c" using rl by (auto simp: printable_runes(1) [OF l] list_all_iff)
    then show ?thesis using plain_ascii [of c] by (auto simp: asciiFont_def decodedRune_def plainRune_def goodRune_def printableC_def)
  qed
  then have "list_all (inFont (pwGlyph demoPdf)) base" by (auto simp: inFont_def list_all_iff demoPdf_def)
  with analysis_only_adds_lines [OF base(1) font, of "Failed ''timeout''"] ls base(1) show ?thesis by (auto simp: demoPdf_def)
qed

end
