(* ===== verification/ReportOutput.thy ===== *)
theory ReportOutput
  imports ReportMarkup GoSort
begin

text \<open>
  The outputs of a report (\<open>src/internal/report/render.go\<close>, \<open>output.go\<close>, \<open>output_linux.go\<close>, \<open>report.go\<close>): the CSV
  and compatibility projections, the choice of a renderer, file names, the replacement of a file, and the list of files
  of one investigation.  \<open>encoding/csv\<close> is written out; the indentation of JSON and
  \<open>Duration.String\<close> are arguments.
\<close>

section \<open>CSV\<close>

definition csvQuoted :: "string \<Rightarrow> bool" where
  "csvQuoted f \<longleftrightarrow> f \<noteq> [] \<and> (f = [CHR 0x5C, CHR ''.''] \<or> list_ex (\<lambda>c. c \<in> {CHR '','', CHR 0x22, CHR 0x0D, CHR 0x0A}) f
     \<or> list_ex (\<lambda>p. hasPrefix f p) spaceEncodings)"

definition csvField :: "string \<Rightarrow> string" where
  "csvField f =
     (if csvQuoted f then CHR 0x22 # concat (map (\<lambda>c. if c = CHR 0x22 then [c, c] else [c]) f) @ [CHR 0x22] else f)"

definition csvRecord :: "string list \<Rightarrow> string" where
  "csvRecord fs = joinWith '','' (map csvField fs) @ [CHR 0x0A]"

definition csvText :: "string list list \<Rightarrow> string" where
  "csvText rows = concat (map csvRecord rows)"

definition LegacyCSVHeader :: "string list" where
  "LegacyCSVHeader = [''site_name'', ''target'', ''url'', ''found'', ''confidence'', ''status'', ''duration_ms'', ''error'', ''final_url'']"

definition LegacyCSVRecord :: "(string \<Rightarrow> string) \<Rightarrow> Result \<Rightarrow> string list" where
  "LegacyCSVRecord uni r0 =
     (let r = Normalized uni r0 in
      [rSiteName r, rTarget r, rURL r, boolText (rFound r), if UnscoredObservation r then [] else itoa (rConfidence r), rStatus r,
       itoa (if rDuration r < 0 then - ((- rDuration r) div 1000000) else rDuration r div 1000000), rError r, rFinalURL r])"

definition CSVHeader :: "string list" where
  "CSVHeader = [''record_type'', ''investigation_id'', ''target_type'', ''target'', ''result_id'', ''source'', ''source_type'', ''status'',
     ''evidence_type'', ''classification'', ''value'', ''provenance'']"

text \<open>A key of an object set to null, for the slices that the projection clears.\<close>

definition nullField :: "string \<Rightarrow> json \<Rightarrow> json" where
  "nullField k j = (case j of JObj kvs \<Rightarrow> JObj (map (\<lambda>(k', v). if k' = k then (k', JNull) else (k', v)) kvs) | _ \<Rightarrow> j)"

definition analysisField :: "Analysis option \<Rightarrow> json \<Rightarrow> json" where
  "analysisField a j = (case (a, j) of (Some x, JObj kvs) \<Rightarrow> JObj ((''analysis'', analysisJSON x) # kvs) | _ \<Rightarrow> j)"

definition csvProvenance :: "string \<Rightarrow> string \<Rightarrow> string \<Rightarrow> string \<Rightarrow> string \<Rightarrow> json" where
  "csvProvenance url final provider kind meaning =
     JObj [(''URL'', JStr url), (''FinalURL'', JStr final), (''Provider'', JStr provider), (''Kind'', JStr kind), (''Meaning'', JStr meaning)]"

definition csvMetadata :: "reportDocument \<times> Analysis option \<Rightarrow> string list" where
  "csvMetadata r =
     (let d = fst r in
      [''report'', rdID d, rdTargetType d, rdTarget d, [], [], [], [], [], classUnknown,
       jsonText (nullField ''results'' (analysisField (snd r) (documentJSON d))), jsonText (csvProvenance [] [] [] [] [])])"

definition csvObserved :: "reportDocument \<Rightarrow> reportObservation \<Rightarrow> string \<Rightarrow> string \<Rightarrow> string \<Rightarrow> string \<Rightarrow> string list" where
  "csvObserved d ob kind ekind cl v =
     (let s = rnResult ob in
      [kind, rdID d, rdTargetType d, rdTarget d, rnID ob, rSource s, rSourceType s, rStatus s, ekind, cl, v,
       jsonText (csvProvenance (rURL s) (rFinalURL s) (case map_of (rMetadata s) ''provider'' of Some p \<Rightarrow> p | None \<Rightarrow> [])
         (kindText (rnKind ob)) (meaningText (rnMeaning ob)))])"

definition csvResult :: "reportDocument \<Rightarrow> reportObservation \<Rightarrow> string list list" where
  "csvResult d ob =
     csvObserved d ob ''result'' [] (rnClass ob)
       (jsonText (nullField ''evidence_classifications'' (reportObservationJSON (ob\<lparr>rnResult := (rnResult ob)\<lparr>rEvidence := []\<rparr>\<rparr>))))
     # map (\<lambda>(i, e). csvObserved d ob ''evidence'' (evKind e) (rnClasses ob ! i) (evValue e)) (enumerate 0 (rEvidence (rnResult ob)))"

definition csvRows :: "reportDocument \<times> Analysis option \<Rightarrow> string list list" where
  "csvRows r = csvMetadata r # concat (map (csvResult (fst r)) (rdResults (fst r)))"

definition renderCSV :: "reportDocument \<times> Analysis option \<Rightarrow> string + string" where
  "renderCSV r =
     (if length (csvRows r) > MaxResults + MaxReportEvidence + 1 then Inl ErrLimit else boundedOutput (csvText (CSVHeader # csvRows r)))"

definition RenderLegacy :: "(string \<Rightarrow> string) \<Rightarrow> reportDocument \<times> Analysis option \<Rightarrow> string \<Rightarrow> string + string" where
  "RenderLegacy uni r format =
     (let rows = map rnResult (rdResults (fst r)) in
      if format = ''json'' then boundedOutput (jsonText (JArr (map reportResult rows)) @ [CHR 0x0A])
      else if format \<noteq> ''csv'' then Inl ''unsupported compatibility projection''
      else boundedOutput (csvText (LegacyCSVHeader # map (LegacyCSVRecord uni) rows)))"

section \<open>Formats\<close>

definition Formats :: "string list" where
  "Formats = [''json'', ''csv'', ''txt'', ''html'', ''pdf'', ''docx'']"

definition ValidFormat :: "string \<Rightarrow> bool" where
  "ValidFormat s \<longleftrightarrow> list_ex (\<lambda>f. s = f) Formats"

record reportRenderers =
  rrIndent :: "json \<Rightarrow> string"
  rrZip :: "(string \<times> string) list \<Rightarrow> string + string"
  rrPDF :: pdfWriter

definition Render :: "(string \<Rightarrow> string) \<Rightarrow> reportRenderers \<Rightarrow> reportDocument \<times> Analysis option \<Rightarrow> string \<Rightarrow> string + string" where
  "Render uni rr r format =
     (if format = ''json'' then boundedOutput (rrIndent rr (analysisField (snd r) (documentJSON (fst r))) @ [CHR 0x0A])
      else if format = ''csv'' then renderCSV r
      else if format = ''txt'' then renderText uni r
      else if format = ''html'' then renderHTML uni r
      else if format = ''docx'' then renderDOCX (rrZip rr) uni r
      else if format = ''pdf'' then renderPDF (rrPDF rr) uni r
      else Inl ''unsupported report format'')"

section \<open>Names\<close>

definition reservedBase :: "string \<Rightarrow> bool" where
  "reservedBase u \<longleftrightarrow> u \<in> {''CON'', ''PRN'', ''AUX'', ''NUL''}
     \<or> length u = 4 \<and> (hasPrefix u ''COM'' \<or> hasPrefix u ''LPT'') \<and> 49 \<le> byteVal (u ! 3) \<and> byteVal (u ! 3) \<le> 57"

definition wordRune :: "targetParsers \<Rightarrow> string \<Rightarrow> bool" where
  "wordRune tp r \<longleftrightarrow> asciiRune (\<lambda>c. isLowerC c \<or> isUpperC c \<or> isDigitC c) r \<or> (utf8Len r \<ge> 2 \<and> tpLetter tp r)"

definition baseRune :: "targetParsers \<Rightarrow> string \<Rightarrow> bool" where
  "baseRune tp r \<longleftrightarrow> wordRune tp r \<or> asciiRune (\<lambda>c. c \<in> set ''-_.@+[]'') r"

definition safeTarget :: "targetParsers \<Rightarrow> string \<Rightarrow> bool" where
  "safeTarget tp t \<longleftrightarrow> t \<noteq> [] \<and> length t \<le> 120 \<and> \<not> hasPrefix t ''.'' \<and> \<not> hasSuffix t ''.'' \<and> \<not> hasSuffix t '' ''
     \<and> \<not> reservedBase (toUpper (tpUpper tp) (hd (splitOn (CHR ''.'') t))) \<and> list_all (baseRune tp) (runesOf t)"

fun slugLoop :: "targetParsers \<Rightarrow> string list \<Rightarrow> string \<Rightarrow> string" where
  "slugLoop tp [] slug = slug"
| "slugLoop tp (r # rs) slug =
     (if length slug > 60 then slug else slugLoop tp rs (slug @ (if wordRune tp r then r else ''_'')))"

definition SafeBase :: "targetParsers \<Rightarrow> string \<Rightarrow> string" where
  "SafeBase tp target =
     (let t = Redact target [] in
      if safeTarget tp t then t
      else ''target-'' @ slugLoop tp (runesOf t) [] @ ''-'' @ take 16 (encodeToString (sha256 (bytesOf t))))"

section \<open>Files\<close>

text \<open>A directory entry is a regular file or something else; a path is a directory and a name in it.\<close>

datatype outNode = RegularFile string | OtherNode

type_synonym outDisk = "string \<times> string \<Rightarrow> outNode option"

datatype outStep = StMkdir | StLstat | StOpenRoot | StInspect | StCreate | StWrite | StSync | StClose | StOpenDir | StRename | StSyncDir | StRemove

record outEnv =
  oeAbs :: "string \<Rightarrow> string option"
  oeDirectory :: "string \<Rightarrow> bool"          \<comment> \<open>a directory that is not a symbolic link\<close>
  oeTemp :: string                          \<comment> \<open>\<open>rand.Text\<close>\<close>
  oeFails :: "outStep \<Rightarrow> bool"
  oeWritten :: nat                          \<comment> \<open>the bytes of a write that fails\<close>

definition pathDepth :: "string \<Rightarrow> nat" where
  "pathDepth dir = length (filter (\<lambda>x. x \<noteq> []) (splitOn (CHR ''/'') (map (\<lambda>c. if c = CHR 0x5C then CHR ''/'' else c) dir)))"

definition fileNameOK :: "string \<Rightarrow> bool" where
  "fileNameOK name \<longleftrightarrow> name \<noteq> [] \<and> length name \<le> 160 \<and> \<not> list_ex (\<lambda>c. c \<in> {CHR ''/'', CHR 0x5C, CHR 0x00}) name"

text \<open>From the temporary file to its publication: the result, and the states of the disk after each step.\<close>

definition replaceFile :: "outEnv \<Rightarrow> string \<Rightarrow> string \<Rightarrow> string \<Rightarrow> outDisk \<Rightarrow> (string + string) \<times> outDisk list" where
  "replaceFile oe dir name raw disk =
     (let fails = oeFails oe; tmp = (dir, ''.report-'' @ oeTemp oe @ ''.tmp'') in
      if fails StCreate \<or> disk tmp \<noteq> None then (Inl ''create'', [])
      else let d1 = disk(tmp \<mapsto> RegularFile []);
               d2 = d1(tmp \<mapsto> RegularFile (if fails StWrite then take (oeWritten oe) raw else raw));
               gone = (if fails StRemove then d2 else d2(tmp := None)) in
        if fails StWrite \<or> fails StSync \<or> fails StClose then (Inl ''write'', [d1, d2, gone])
        else if fails StOpenDir \<or> fails StRename then (Inl ''publish'', [d1, d2, gone])
        else let d3 = (d2(tmp := None))((dir, name) \<mapsto> RegularFile raw) in
          (if fails StSyncDir then Inl ''publish'' else Inr (dir @ CHR ''/'' # name), [d1, d2, d3]))"

definition writeReportFile :: "outEnv \<Rightarrow> string \<Rightarrow> string \<Rightarrow> string \<Rightarrow> outDisk \<Rightarrow> (string + string) \<times> outDisk list" where
  "writeReportFile oe dir name raw disk =
     (if length raw > MaxOutputBytes then (Inl ErrLimit, [])
      else if \<not> fileNameOK name then (Inl ''invalid report filename'', [])
      else if length dir > 4096 then (Inl ''invalid output directory'', [])
      else case oeAbs oe dir of None \<Rightarrow> (Inl ''abs'', [])
      | Some path \<Rightarrow>
          if pathDepth path > 32 then (Inl ''output path depth exceeds limit'', [])
          else if oeFails oe StMkdir then (Inl ''mkdir'', [])
          else if oeFails oe StLstat \<or> \<not> oeDirectory oe path then (Inl ''output directory must not be a symlink'', [])
          else if oeFails oe StOpenRoot then (Inl ''open'', [])
          else if disk (path, name) = Some OtherNode then (Inl ''refusing nonregular report destination'', [])
          else if oeFails oe StInspect then (Inl ''lstat'', [])
          else replaceFile oe path name raw disk)"

definition PrepareDirectory :: "outEnv \<Rightarrow> string \<Rightarrow> string option" where
  "PrepareDirectory oe dir =
     (if dir = [] \<or> length dir > 4096 then Some ''invalid output directory''
      else case oeAbs oe dir of None \<Rightarrow> Some ''abs''
      | Some path \<Rightarrow>
          if pathDepth path > 32 then Some ''output path depth exceeds limit''
          else if oeFails oe StMkdir then Some ''mkdir''
          else if oeFails oe StLstat then Some ''lstat''
          else if \<not> oeDirectory oe path then Some ''invalid output directory''
          else None)"

section \<open>The summary\<close>

record SiteStat =
  stName :: string
  stFound :: nat
  stBlocked :: nat
  stLatency :: int

record reportSummary =
  smTarget :: string
  smTotal :: nat
  smFound :: nat
  smNotFound :: nat
  smBlocked :: nat
  smErrors :: nat
  smDuration :: int
  smTop :: "SiteStat list"
  smHosts :: "string list"

fun sensitiveSecrets :: "Result list \<Rightarrow> string \<Rightarrow> string list \<Rightarrow> string \<times> string list" where
  "sensitiveSecrets [] target secrets = (target, secrets)"
| "sensitiveSecrets (r # rs) target secrets =
     (if Sensitive (rTargetType r) then sensitiveSecrets rs Redacted (secrets @ [target, rTarget r]) else sensitiveSecrets rs target secrets)"

definition normalizeResults :: "(string \<Rightarrow> string) \<Rightarrow> string \<Rightarrow> Result list \<Rightarrow> string \<times> Result list" where
  "normalizeResults uni target rows =
     (let (target', secrets) = sensitiveSecrets rows target [] in
      (Redact target' secrets, map (\<lambda>r. Normalized uni (RedactedResult uni secrets r)) rows))"

text \<open>The statistics of a site and the number of its rows, added to those of the earlier sites.\<close>

fun noteSite :: "Result \<Rightarrow> (SiteStat \<times> nat) list \<Rightarrow> (SiteStat \<times> nat) list" where
  "noteSite r [] =
     [(\<lparr>stName = rSiteName r, stFound = of_bool (rStatus r = StatusFound), stBlocked = of_bool (rStatus r = StatusBlocked),
        stLatency = rDuration r\<rparr>, 1)]"
| "noteSite r ((st, n) # sites) =
     (if stName st = rSiteName r
      then (st\<lparr>stFound := stFound st + of_bool (rStatus r = StatusFound), stBlocked := stBlocked st + of_bool (rStatus r = StatusBlocked),
             stLatency := stLatency st + rDuration r\<rparr>, n + 1) # sites
      else (st, n) # noteSite r sites)"

definition averageSite :: "SiteStat \<times> nat \<Rightarrow> SiteStat" where
  "averageSite p =
     (let t = stLatency (fst p); n = int (snd p) in (fst p)\<lparr>stLatency := (if t < 0 then - ((- t) div n) else t div n)\<rparr>)"

definition siteLess :: "SiteStat \<Rightarrow> SiteStat \<Rightarrow> bool" where
  "siteLess a b = (if stFound a = stFound b then stName a < stName b else stFound a > stFound b)"

definition BuildSummary :: "(string \<Rightarrow> string) \<Rightarrow> string \<Rightarrow> Result list \<Rightarrow> int \<Rightarrow> reportSummary" where
  "BuildSummary uni target0 rows0 duration =
     (let (target, rows) = normalizeResults uni target0 rows0;
          tally = (\<lambda>st. length (filter (\<lambda>r. rStatus r = st) rows));
          sites = fold noteSite rows [] in
      \<lparr>smTarget = target, smTotal = length rows, smFound = tally StatusFound, smNotFound = tally StatusNotFound,
       smBlocked = tally StatusBlocked, smErrors = tally StatusError, smDuration = duration,
       smTop = sortBy siteLess (map averageSite (filter (\<lambda>(st, n). stFound st > 0 \<or> stBlocked st > 0) sites)),
       smHosts = sort (remdups (map rSiteName (filter (\<lambda>r. rStatus r = StatusBlocked) rows)))\<rparr>)"

definition outSummaryJSON :: "(int \<Rightarrow> string) \<Rightarrow> reportSummary \<Rightarrow> string" where
  "outSummaryJSON durationText s = jsonText (JObj
     [(''target'', JStr (smTarget s)), (''total'', JInt (int (smTotal s))), (''found'', JInt (int (smFound s))),
      (''not_found'', JInt (int (smNotFound s))), (''blocked'', JInt (int (smBlocked s))), (''errors'', JInt (int (smErrors s))),
      (''duration'', JStr (durationText (smDuration s)))])"

section \<open>All outputs\<close>

text \<open>A failure of an output is a rendering that failed, with its format, or anything else; the text that a caller sees of a
  joined failure.\<close>

datatype outputFailure = RenderFailure string string | OtherFailure string

definition failureText :: "outputFailure \<Rightarrow> string" where
  "failureText f = (case f of RenderFailure format e \<Rightarrow> e | OtherFailure e \<Rightarrow> e)"

definition outputErrorText :: "outputFailure list \<Rightarrow> string" where
  "outputErrorText fs =
     (if list_ex (\<lambda>f. failureText f = ErrLimit) fs then ''report output failed: resource limit exceeded''
      else case concat (map (\<lambda>f. case f of RenderFailure format e \<Rightarrow> [format @ '' rendering: '' @ e] | OtherFailure _ \<Rightarrow> []) fs) of
        first # _ \<Rightarrow> ''report output failed: '' @ first
      | [] \<Rightarrow> ''report output failed (invalid input or destination; inspect configuration)'')"

record outJob =
  ojDir :: string
  ojName :: string
  ojFormat :: string
  ojLegacy :: bool

record outState =
  osSeen :: "(string \<times> string \<times> string) list"
  osDisk :: outDisk
  osTrace :: "outDisk list"
  osFailures :: "outputFailure list"
  osPrinted :: "string list"
  osStep :: nat

record outWorld =
  owParsers :: targetParsers
  owRenderers :: reportRenderers
  owEnv :: "nat \<Rightarrow> outEnv"                 \<comment> \<open>the environment of the n-th file\<close>
  owPrintFails :: "nat \<Rightarrow> bool"
  owDuration :: "int \<Rightarrow> string"

definition jobRender :: "outWorld \<Rightarrow> reportDocument \<times> Analysis option \<Rightarrow> outJob \<Rightarrow> string + string" where
  "jobRender ow r j =
     (if ojLegacy j then RenderLegacy (tpLower (owParsers ow)) r (ojFormat j)
      else Render (tpLower (owParsers ow)) (owRenderers ow) r (ojFormat j))"

definition storeFile :: "outWorld \<Rightarrow> string \<Rightarrow> string \<Rightarrow> string \<Rightarrow> outState \<Rightarrow> outState" where
  "storeFile ow dir name raw st =
     (let (res, ds) = writeReportFile (owEnv ow (osStep st)) dir name raw (osDisk st);
          st' = st\<lparr>osDisk := (if ds = [] then osDisk st else last ds), osTrace := osTrace st @ ds, osStep := osStep st + 1\<rparr>
      in case res of Inl e \<Rightarrow> st'\<lparr>osFailures := osFailures st' @ [OtherFailure e]\<rparr> | Inr _ \<Rightarrow> st')"

definition putFile :: "outWorld \<Rightarrow> reportDocument \<times> Analysis option \<Rightarrow> outJob \<Rightarrow> outState \<Rightarrow> outState" where
  "putFile ow r j st =
     (let key = (ojDir j, ojName j, ojFormat j) in
      if key \<in> set (osSeen st) then st
      else let st' = st\<lparr>osSeen := key # osSeen st\<rparr> in
        case jobRender ow r j of
          Inl e \<Rightarrow> st'\<lparr>osFailures := osFailures st' @ [RenderFailure (ojFormat j) e]\<rparr>
        | Inr raw \<Rightarrow> storeFile ow (ojDir j) (ojName j @ ''.'' @ ojFormat j) raw st')"

definition printReport :: "outWorld \<Rightarrow> reportDocument \<times> Analysis option \<Rightarrow> outState \<Rightarrow> outState" where
  "printReport ow r st =
     (case Render (tpLower (owParsers ow)) (owRenderers ow) r ''txt'' of
        Inl e \<Rightarrow> st\<lparr>osFailures := osFailures st @ [OtherFailure e]\<rparr>
      | Inr raw \<Rightarrow> if owPrintFails ow (osStep st) then st\<lparr>osFailures := osFailures st @ [OtherFailure ''stdout'']\<rparr> else st\<lparr>osPrinted := osPrinted st @ [raw]\<rparr>)"

definition formatJobs :: "string \<Rightarrow> string \<Rightarrow> string \<Rightarrow> outJob list" where
  "formatJobs dir base f =
     (if f = ''json'' \<or> f = ''csv''
      then [\<lparr>ojDir = dir, ojName = base, ojFormat = f, ojLegacy = True\<rparr>, \<lparr>ojDir = dir, ojName = base @ ''_report'', ojFormat = f, ojLegacy = False\<rparr>]
      else [\<lparr>ojDir = dir, ojName = base, ojFormat = f, ojLegacy = False\<rparr>])"

definition reportJob :: "string \<Rightarrow> string \<Rightarrow> outJob" where
  "reportJob base f = \<lparr>ojDir = ''output'', ojName = base @ ''_report'', ojFormat = (if f = ''cli'' then ''txt'' else f), ojLegacy = False\<rparr>"

definition reportFormat :: "outWorld \<Rightarrow> reportDocument \<times> Analysis option \<Rightarrow> string \<Rightarrow> string \<Rightarrow> outState \<Rightarrow> outState" where
  "reportFormat ow r base f st = (let st' = putFile ow r (reportJob base f) st in if f = ''cli'' then printReport ow r st' else st')"

definition writeSummary :: "outWorld \<Rightarrow> reportDocument \<times> Analysis option \<Rightarrow> string \<Rightarrow> string \<Rightarrow> outState \<Rightarrow> outState" where
  "writeSummary ow r dir base st =
     storeFile ow dir (base @ ''_summary.json'')
       (outSummaryJSON (owDuration ow) (BuildSummary (tpLower (owParsers ow)) (rdTarget (fst r)) (map rnResult (rdResults (fst r))) (rdDuration (fst r)))) st"

definition WriteOutputs :: "outWorld \<Rightarrow> string \<Rightarrow> string list \<Rightarrow> string list \<Rightarrow> reportDocument \<times> Analysis option \<Rightarrow> outDisk \<Rightarrow> outputFailure list option \<times> outState" where
  "WriteOutputs ow dir formats reportFormats r disk =
     (let st0 = \<lparr>osSeen = [], osDisk = disk, osTrace = [], osFailures = [], osPrinted = [], osStep = 0\<rparr> in
      if \<not> list_all ValidFormat formats then (Some [OtherFailure ''unsupported output format''], st0)
      else if \<not> list_all (\<lambda>f. f = ''cli'' \<or> ValidFormat f) reportFormats then (Some [OtherFailure ''unsupported report format''], st0)
      else
        let base = SafeBase (owParsers ow) (rdTarget (fst r));
            st1 = fold (putFile ow r) (concat (map (formatJobs dir base) formats)) st0;
            st2 = fold (reportFormat ow r base) reportFormats st1;
            st3 = (if reportFormats \<noteq> [] then writeSummary ow r dir base st2 else st2)
        in (if osFailures st3 = [] then None else Some (osFailures st3), st3))"

section \<open>Entry points for single results\<close>

definition WriteReport :: "outWorld \<Rightarrow> string \<Rightarrow> string \<Rightarrow> string \<Rightarrow> reportDocument \<times> Analysis option \<Rightarrow> outDisk \<Rightarrow> (string + string) \<times> outDisk list" where
  "WriteReport ow dir base format r disk =
     (if \<not> ValidFormat format then (Inl ''unsupported output format'', [])
      else case Render (tpLower (owParsers ow)) (owRenderers ow) r format of
        Inl e \<Rightarrow> (Inl e, [])
      | Inr raw \<Rightarrow> writeReportFile (owEnv ow 0) dir (SafeBase (owParsers ow) base @ ''.'' @ format) raw disk)"

definition legacyTargetKind :: "string \<Rightarrow> Result list \<Rightarrow> string" where
  "legacyTargetKind target rows =
     (case find (\<lambda>r. Sensitive (rTargetType r)) rows of
        Some r \<Rightarrow> rTargetType r
      | None \<Rightarrow> if rows \<noteq> [] \<and> rTargetType (hd rows) \<noteq> [] then rTargetType (hd rows) else if target = [] then [] else legacyKind target)"

definition legacyReport :: "reportCodec \<Rightarrow> int \<times> string \<Rightarrow> string \<Rightarrow> Result list \<Rightarrow> int \<Rightarrow> string + reportDocument" where
  "legacyReport rc now target rows duration =
     NewReport rc (legacyTargetKind target rows) target rows
       \<lparr>roCreated = Some now, roDuration = duration, roWarnings = [], roErrors = [], roAnnotations = [], roPartial = False, roTruncated = False\<rparr>"

definition generateLegacy :: "outWorld \<Rightarrow> reportCodec \<Rightarrow> int \<times> string \<Rightarrow> string \<Rightarrow> string \<Rightarrow> Result list \<Rightarrow> int \<Rightarrow> outDisk
    \<Rightarrow> ((string + string) \<times> outDisk list) \<times> string list" where
  "generateLegacy ow rc now format target rows duration disk =
     (case andThen (legacyReport rc now target rows duration) (\<lambda>d. andThen (Render (tpLower (owParsers ow)) (owRenderers ow) (d, None) format) (\<lambda>raw. Inr (d, raw))) of
        Inl e \<Rightarrow> ((Inl e, []), [])
      | Inr (d, raw) \<Rightarrow>
          if format = ''txt'' \<and> owPrintFails ow 0 then ((Inl ''stdout'', []), [])
          else (writeReportFile (owEnv ow 0) ''output'' (SafeBase (owParsers ow) (rdTarget d) @ ''_report.'' @ format) raw disk,
                if format = ''txt'' then [raw] else []))"

definition WriteAll :: "outWorld \<Rightarrow> reportCodec \<Rightarrow> int \<times> string \<Rightarrow> string \<Rightarrow> string list \<Rightarrow> string \<Rightarrow> Result list \<Rightarrow> int \<Rightarrow> outDisk
    \<Rightarrow> (string + outputFailure list option \<times> outState)" where
  "WriteAll ow rc now dir formats target rows duration disk =
     andThen (legacyReport rc now target rows duration) (\<lambda>d. Inr (WriteOutputs ow dir [] formats (d, None) disk))"

end
