(* ===== verification/ReportOutputInv.thy ===== *)
theory ReportOutputInv
  imports ReportOutput ReportTextInv
begin

text \<open>What the outputs guarantee: CSV can be read back, names are single path components, files are replaced as a
  whole and hold what a plan of all files says of their names.\<close>

section \<open>CSV\<close>

text \<open>A reader of CSV by its grammar (RFC 4180 with line feeds): modes, the field so far, the record so far.\<close>

datatype csvMode = FieldStart | Unquoted | Quoted | QuoteSeen

definition csvEnd :: "char \<Rightarrow> bool" where
  "csvEnd c \<longleftrightarrow> c = CHR '','' \<or> c = CHR 0x0A"

fun readCSV :: "csvMode \<Rightarrow> string \<Rightarrow> string list \<Rightarrow> string \<Rightarrow> string list list option" where
  "readCSV m f fs [] = (if m = FieldStart \<and> fs = [] then Some [] else None)"
| "readCSV m f fs (c # cs) =
     (if csvEnd c \<and> m \<noteq> Quoted then
        (if c = CHR '','' then readCSV FieldStart [] (fs @ [f]) cs else map_option (Cons (fs @ [f])) (readCSV FieldStart [] [] cs))
      else if c = CHR 0x22 then
        (case m of FieldStart \<Rightarrow> readCSV Quoted [] fs cs | Unquoted \<Rightarrow> None | Quoted \<Rightarrow> readCSV QuoteSeen f fs cs | QuoteSeen \<Rightarrow> readCSV Quoted (f @ [c]) fs cs)
      else
        (case m of FieldStart \<Rightarrow> readCSV Unquoted [c] fs cs | Unquoted \<Rightarrow> readCSV Unquoted (f @ [c]) fs cs
         | Quoted \<Rightarrow> readCSV Quoted (f @ [c]) fs cs | QuoteSeen \<Rightarrow> None))"

lemma read_unquoted:
  "\<forall>c \<in> set g. \<not> csvEnd c \<and> c \<noteq> CHR 0x22 \<Longrightarrow> readCSV Unquoted f fs (g @ cs) = readCSV Unquoted (f @ g) fs cs"
  by (induction g arbitrary: f) simp_all

lemma read_quoted:
  "readCSV Quoted f fs (concat (map (\<lambda>c. if c = CHR 0x22 then [c, c] else [c]) g) @ cs) = readCSV Quoted (f @ g) fs cs"
proof (induction g arbitrary: f)
  case (Cons c g)
  show ?case by (cases "c = CHR 0x22") (simp_all add: Cons csvEnd_def)
qed simp

text \<open>After a field that was written, its end continues with the field itself.\<close>

definition endField :: "char \<Rightarrow> string \<Rightarrow> string list \<Rightarrow> string \<Rightarrow> string list list option" where
  "endField d f fs cs = (if d = CHR '','' then readCSV FieldStart [] (fs @ [f]) cs else map_option (Cons (fs @ [f])) (readCSV FieldStart [] [] cs))"

lemma read_field:
  assumes "csvEnd d"
  shows "readCSV FieldStart [] fs (csvField f @ d # cs) = endField d f fs cs"
proof (cases "csvQuoted f")
  case True
  then show ?thesis using assms read_quoted [of "[]" fs f "CHR 0x22 # d # cs"] by (simp add: csvField_def endField_def csvEnd_def)
next
  case False
  show ?thesis
  proof (cases f)
    case Nil
    then show ?thesis using assms False by (simp add: csvField_def endField_def)
  next
    case (Cons c g)
    have "\<forall>c \<in> set f. \<not> csvEnd c \<and> c \<noteq> CHR 0x22" using False Cons by (auto simp: csvQuoted_def csvEnd_def list_ex_iff)
    then show ?thesis using assms False Cons read_unquoted [of g "[c]" fs "d # cs"] by (simp add: csvField_def endField_def)
  qed
qed

lemma read_record:
  "r \<noteq> [] \<Longrightarrow> readCSV FieldStart [] fs (csvRecord r @ cs) = map_option (Cons (fs @ r)) (readCSV FieldStart [] [] cs)"
proof (induction r arbitrary: fs)
  case (Cons f r)
  show ?case
  proof (cases r)
    case Nil
    then show ?thesis using read_field [of "CHR 0x0A" fs f cs] by (simp add: csvRecord_def endField_def csvEnd_def)
  next
    case (Cons g r')
    then have "csvRecord (f # r) @ cs = csvField f @ CHR '','' # csvRecord r @ cs" by (simp add: csvRecord_def)
    then show ?thesis using read_field [of "CHR '',''" fs f "csvRecord r @ cs"] Cons Cons.IH by (simp add: endField_def csvEnd_def)
  qed
qed simp

lemma read_csvText: "\<forall>r \<in> set rows. r \<noteq> [] \<Longrightarrow> readCSV FieldStart [] [] (csvText rows) = Some rows"
  by (induction rows) (simp_all add: csvText_def read_record)

lemma csvRows_full: "\<forall>row \<in> set (csvRows r). row \<noteq> []"
  by (auto simp: csvRows_def csvMetadata_def csvResult_def csvObserved_def Let_def)

text \<open>C35: what is written as CSV can be read back: a reader of the format gets exactly the header and the rows of the table, and of the
  compatibility projection, from the file, whatever commas, quotes, line ends or empty fields the observations contain.\<close>

theorem csv_roundtrip:
  "(renderCSV r = Inr raw \<longrightarrow> readCSV FieldStart [] [] raw = Some (CSVHeader # csvRows r))
    \<and> (RenderLegacy uni r ''csv'' = Inr legacy
        \<longrightarrow> readCSV FieldStart [] [] legacy = Some (LegacyCSVHeader # map (\<lambda>ob. LegacyCSVRecord uni (rnResult ob)) (rdResults (fst r))))"
proof -
  have "readCSV FieldStart [] [] (csvText (CSVHeader # csvRows r)) = Some (CSVHeader # csvRows r)"
    using csvRows_full [of r] by (intro read_csvText) (simp add: CSVHeader_def)
  moreover have "readCSV FieldStart [] [] (csvText (LegacyCSVHeader # map (LegacyCSVRecord uni) (map rnResult (rdResults (fst r)))))
      = Some (LegacyCSVHeader # map (LegacyCSVRecord uni) (map rnResult (rdResults (fst r))))"
    by (intro read_csvText) (simp add: LegacyCSVHeader_def LegacyCSVRecord_def Let_def)
  ultimately show ?thesis by (auto simp: renderCSV_def RenderLegacy_def boundedOutput_def comp_def split: if_splits)
qed

theorem csv_roundtrip_witness:
  "\<exists>raw legacy. renderCSV (demoReport, None) = Inr raw \<and> readCSV FieldStart [] [] raw = Some [CSVHeader, csvMetadata (demoReport, None)]
    \<and> RenderLegacy (\<lambda>s. s) (demoReport, None) ''csv'' = Inr legacy \<and> readCSV FieldStart [] [] legacy = Some [LegacyCSVHeader]"
proof -
  let ?r = "(demoReport, None) :: reportDocument \<times> Analysis option"
  have rows: "csvRows ?r = [csvMetadata ?r]" by (simp add: csvRows_def demoReport_def)
  have "length (csvText [CSVHeader, csvMetadata ?r]) \<le> 10000" by code_simp
  then have "renderCSV ?r = Inr (csvText [CSVHeader, csvMetadata ?r])" by (simp add: renderCSV_def boundedOutput_def rows MaxOutputBytes_def MaxResults_def)
  moreover have "length (csvText [LegacyCSVHeader]) \<le> 1000" by code_simp
  then have "RenderLegacy (\<lambda>s. s) ?r ''csv'' = Inr (csvText [LegacyCSVHeader])"
    by (simp add: RenderLegacy_def boundedOutput_def MaxOutputBytes_def demoReport_def)
  ultimately show ?thesis using csv_roundtrip [of ?r "csvText [CSVHeader, csvMetadata ?r]" "\<lambda>s. s" "csvText [LegacyCSVHeader]"]
    by (simp add: rows) (simp add: demoReport_def)
qed

section \<open>Names\<close>

text \<open>The ASCII bytes of a base name.\<close>

definition baseByte :: "char \<Rightarrow> bool" where
  "baseByte c \<longleftrightarrow> \<not> isAsciiC c \<or> isLowerC c \<or> isUpperC c \<or> isDigitC c \<or> c \<in> set ''-_.@+[]''"

lemma baseRune_good:
  assumes "r \<in> set (runesOf s)" and "baseRune tp r"
  shows "goodRune r \<and> length r \<le> 4"
proof -
  have "utf8Len r \<noteq> 0"
    using assms(2) utf8Len_ascii by (auto simp: baseRune_def wordRune_def asciiRune_def split: list.splits)
  then have "goodRune r" using runesOf_parts [OF assms(1)] by simp
  then show ?thesis using leadLen_le [of "byteVal (hd r)"] by (auto simp: goodRune_def utf8Len_lead Let_def split: if_splits)
qed

lemma baseRune_bytes:
  assumes "r \<in> set (runesOf s)" and "baseRune tp r" and "c \<in> set r"
  shows "baseByte c"
proof (cases "isAsciiC c")
  case True
  then have "r = [c]" using goodRune_ascii baseRune_good [OF assms(1,2)] assms(3) by (auto simp: isAsciiC_def)
  then show ?thesis using assms(2) True utf8Len_ascii [of c "[]"] by (auto simp: baseByte_def baseRune_def wordRune_def asciiRune_def)
qed (simp add: baseByte_def)

lemma safe_bytes: "list_all (baseRune tp) (runesOf t) \<Longrightarrow> c \<in> set t \<Longrightarrow> baseByte c"
proof -
  assume t: "list_all (baseRune tp) (runesOf t)" "c \<in> set t"
  have "c \<in> set (concat (runesOf t))" using t(2) by (simp add: concat_runesOf)
  then obtain r where "r \<in> set (runesOf t)" "c \<in> set r" by auto
  then show "baseByte c" using baseRune_bytes t(1) by (auto simp: list_all_iff)
qed

lemma slug_bytes:
  assumes "set rs \<subseteq> set (runesOf t)"
  shows "length (slugLoop tp rs slug) \<le> max (length slug) 64 \<and> (\<forall>c \<in> set (slugLoop tp rs slug). c \<in> set slug \<or> baseByte c \<and> c \<noteq> CHR ''.'')"
  using assms
proof (induction rs arbitrary: slug)
  case Nil
  then show ?case by simp
next
  case (Cons r rs)
  let ?x = "if wordRune tp r then r else ''_''"
  have x: "length ?x \<le> 4 \<and> (\<forall>c \<in> set ?x. baseByte c \<and> c \<noteq> CHR ''.'')"
  proof (cases "wordRune tp r")
    case True
    then have b: "baseRune tp r" by (simp add: baseRune_def)
    have r: "r \<in> set (runesOf t)" using Cons.prems by simp
    have "c \<noteq> CHR ''.''" if "c \<in> set r" for c
    proof
      assume "c = CHR ''.''"
      then have "r = ''.''" using goodRune_ascii [of r c] baseRune_good [OF r b] that by (auto simp: byteVal_def)
      then show False using True utf8Len_ascii [of "CHR ''.''" "[]"]
        by (auto simp: wordRune_def asciiRune_def isAsciiC_def byteVal_def isLowerC_def isUpperC_def isDigitC_def)
    qed
    then show ?thesis using True baseRune_good [OF r b] baseRune_bytes [OF r b] by auto
  qed (simp add: baseByte_def)
  show ?case
  proof (cases "length slug > 60")
    case True
    then show ?thesis by simp
  next
    case False
    have sub: "set rs \<subseteq> set (runesOf t)" using Cons.prems by simp
    have "length (slug @ ?x) \<le> 64" using False x by simp
    then show ?thesis using Cons.IH [OF sub, of "slug @ ?x"] False x by (auto simp: max_def split: if_splits)
  qed
qed

lemma reserved_ascii: "reservedBase u \<Longrightarrow> length u \<le> 4 \<and> hd u \<noteq> CHR ''T''"
  by (auto simp: reservedBase_def hasPrefix_iff)

lemma SafeBase_bytes:
  "SafeBase tp target \<noteq> [] \<and> length (SafeBase tp target) \<le> 120 \<and> (\<forall>c \<in> set (SafeBase tp target). baseByte c)
    \<and> \<not> hasPrefix (SafeBase tp target) ''.'' \<and> \<not> hasSuffix (SafeBase tp target) ''.''"
proof (cases "safeTarget tp (Redact target [])")
  case True
  then show ?thesis using safe_bytes by (auto simp: SafeBase_def Let_def safeTarget_def)
next
  case False
  define t where "t = Redact target []"
  define slug where "slug = slugLoop tp (runesOf t) []"
  define h where "h = take 16 (encodeToString (sha256 (bytesOf t)))"
  have b: "SafeBase tp target = ''target-'' @ slug @ ''-'' @ h" using False by (simp add: SafeBase_def slug_def h_def t_def Let_def)
  have slug: "length slug \<le> 64" "\<forall>c \<in> set slug. baseByte c \<and> c \<noteq> CHR ''.''"
    using slug_bytes [of "runesOf t" t tp "[]"] by (auto simp: slug_def)
  have sub: "set h \<subseteq> set (encodeToString (sha256 (bytesOf t)))" by (simp add: h_def set_take_subset)
  have hex: "isDigitC c \<or> isLowerC c" if "c \<in> set (encodeToString (sha256 (bytesOf t)))" for c
    using encodeToString_chars [OF that] by (auto simp: isLowerC_def)
  have h: "length h = 16" "\<forall>c \<in> set h. isDigitC c \<or> isLowerC c" using sub hex by (auto simp: h_def)
  have "last h \<noteq> CHR ''.''" using h last_in_set [of h] by (fastforce simp: isDigitC_def isLowerC_def byteVal_def)
  then have "\<not> hasSuffix (SafeBase tp target) ''.''"
    using h(1) unfolding b hasSuffix_iff by (metis append_is_Nil_conv last_appendR last_snoc list.size(3) zero_neq_numeral)
  moreover have "\<forall>c \<in> set (SafeBase tp target). baseByte c" using slug(2) h(2) unfolding b by (auto simp: baseByte_def isLowerC_def byteVal_def)
  ultimately show ?thesis using slug(1) h(1) unfolding b by simp
qed

text \<open>C36: a file name is one plain path component: whatever the target, its base name is non-empty, at most 120 bytes long, consists of ASCII
  letters, digits and \<open>-_.@+[]\<close> besides characters outside of ASCII, and neither starts nor ends with a dot; every file that is
  written for it has a name that the writer accepts.\<close>

theorem safe_base_component:
  "SafeBase tp target \<noteq> [] \<and> length (SafeBase tp target) \<le> 120 \<and> (\<forall>c \<in> set (SafeBase tp target). baseByte c)
    \<and> \<not> hasPrefix (SafeBase tp target) ''.'' \<and> \<not> hasSuffix (SafeBase tp target) ''.''
    \<and> (\<forall>f \<in> set Formats. fileNameOK (SafeBase tp target @ ''.'' @ f) \<and> fileNameOK (SafeBase tp target @ ''_report.'' @ f))
    \<and> fileNameOK (SafeBase tp target @ ''_summary.json'')"
proof -
  let ?b = "SafeBase tp target"
  note b = SafeBase_bytes [of tp target]
  have "\<not> list_ex (\<lambda>c. c = CHR ''/'' \<or> c = CHR 0x5C \<or> c = CHR 0x00) ?b"
    using b by (fastforce simp: list_ex_iff baseByte_def isAsciiC_def isLowerC_def isUpperC_def isDigitC_def byteVal_def)
  then show ?thesis using b by (auto simp: fileNameOK_def Formats_def)
qed

definition plainParsers :: targetParsers where
  "plainParsers = \<lparr>tpLower = (\<lambda>s. s), tpUpper = (\<lambda>s. s), tpAddr = (\<lambda>s. None), tpMail = (\<lambda>s. None), tpLetter = (\<lambda>s. False)\<rparr>"

lemma plain_base: "SafeBase plainParsers ''alice'' = ''alice''"
proof -
  have "Redact ''alice'' [] = ''alice''" by code_simp
  moreover have "safeTarget plainParsers ''alice''" by code_simp
  ultimately show ?thesis by (simp add: SafeBase_def Let_def)
qed

theorem safe_base_component_witness: "fileNameOK ''alice.csv'' \<and> fileNameOK ''alice_report.pdf'' \<and> fileNameOK ''alice_summary.json''"
  using safe_base_component [of plainParsers "''alice''"] unfolding plain_base by (simp add: Formats_def)

section \<open>Files\<close>

definition temporaryPath :: "string \<times> string \<Rightarrow> bool" where
  "temporaryPath p \<longleftrightarrow> (\<exists>t. snd p = ''.report-'' @ t @ ''.tmp'')"

text \<open>Between two disks, only temporary files change, and other paths to the whole content that belongs to them.\<close>

type_synonym pathContents = "string \<times> string \<Rightarrow> string \<Rightarrow> bool"

definition wholeChange :: "pathContents \<Rightarrow> outDisk \<Rightarrow> outDisk \<Rightarrow> bool" where
  "wholeChange C disk d \<longleftrightarrow>
     (\<forall>p. temporaryPath p \<or> d p = disk p \<or> disk p \<noteq> Some OtherNode \<and> (\<exists>raw. C p raw \<and> d p = Some (RegularFile raw)))"

lemma replaceFile_whole:
  assumes "replaceFile oe dir name raw disk = (res, ds)" and "disk (dir, name) \<noteq> Some OtherNode" and "d \<in> set ds"
  shows "wholeChange (\<lambda>p x. p = (dir, name) \<and> x = raw) disk d"
proof -
  define tmp where "tmp = (dir, ''.report-'' @ oeTemp oe @ ''.tmp'')"
  have tmp: "temporaryPath tmp" by (auto simp: temporaryPath_def tmp_def)
  have "d p = disk p \<or> p = (dir, name) \<and> d p = Some (RegularFile raw)" if "p \<noteq> tmp" for p
    using assms(1,3) that unfolding replaceFile_def Let_def tmp_def [symmetric] by (auto split: if_splits)
  then show ?thesis using assms(2) tmp unfolding wholeChange_def by metis
qed

lemma replaceFile_success:
  assumes "replaceFile oe dir name raw disk = (Inr x, ds)"
  shows "ds \<noteq> [] \<and> last ds (dir, name) = Some (RegularFile raw)"
  using assms by (auto simp: replaceFile_def Let_def split: if_splits)

lemma writeReportFile_whole:
  assumes "writeReportFile oe dir name raw disk = (res, ds)" and "d \<in> set ds"
  shows "wholeChange (\<lambda>p x. oeAbs oe dir = Some (fst p) \<and> snd p = name \<and> x = raw) disk d"
proof -
  obtain path where path: "oeAbs oe dir = Some path" "disk (path, name) \<noteq> Some OtherNode" "replaceFile oe path name raw disk = (res, ds)"
    using assms by (auto simp: writeReportFile_def split: if_splits option.splits)
  then show ?thesis using replaceFile_whole [OF path(3,2) assms(2)] unfolding wholeChange_def by fastforce
qed

lemma writeReportFile_success:
  assumes "writeReportFile oe dir name raw disk = (Inr x, ds)"
  shows "ds \<noteq> [] \<and> (\<exists>path. oeAbs oe dir = Some path \<and> last ds (path, name) = Some (RegularFile raw))"
  using assms replaceFile_success by (auto simp: writeReportFile_def split: if_splits option.splits)

lemma wholeChange_refl: "wholeChange C d d"
  by (simp add: wholeChange_def)

lemma wholeChange_trans: "wholeChange C d d' \<Longrightarrow> wholeChange C d' d'' \<Longrightarrow> wholeChange C d d''"
  unfolding wholeChange_def by (metis (no_types, lifting) outNode.distinct(1) option.inject)

lemma wholeChange_mono: "wholeChange C d d' \<Longrightarrow> (\<And>p raw. C p raw \<Longrightarrow> D p raw) \<Longrightarrow> wholeChange D d d'"
  unfolding wholeChange_def by blast

section \<open>A plan of files\<close>

text \<open>A plan says what a name in a directory is to hold; on the disk, directories are resolved by the environment of some file.\<close>

type_synonym filePlan = "string \<times> string \<Rightarrow> string + string \<Rightarrow> bool"

definition plannedAt :: "outWorld \<Rightarrow> filePlan \<Rightarrow> pathContents" where
  "plannedAt ow plan p raw \<longleftrightarrow> (\<exists>n dir. oeAbs (owEnv ow n) dir = Some (fst p) \<and> plan (dir, snd p) (Inr raw))"

definition stored :: "outWorld \<Rightarrow> filePlan \<Rightarrow> outDisk \<Rightarrow> string \<times> string \<Rightarrow> bool" where
  "stored ow plan d q \<longleftrightarrow> (\<exists>n path raw. oeAbs (owEnv ow n) (fst q) = Some path \<and> plan q (Inr raw) \<and> d (path, snd q) = Some (RegularFile raw))"

definition plainName :: "string \<Rightarrow> bool" where
  "plainName name \<longleftrightarrow> name \<noteq> [] \<and> \<not> hasPrefix name ''.''"

text \<open>Nothing is torn, and without a failure every file that was tried is there.\<close>

definition outInv :: "outWorld \<Rightarrow> filePlan \<Rightarrow> outDisk \<Rightarrow> outState \<Rightarrow> bool" where
  "outInv ow plan disk st \<longleftrightarrow> (\<forall>d \<in> set (osDisk st # osTrace st). wholeChange (plannedAt ow plan) disk d)
     \<and> (osFailures st = [] \<longrightarrow> (\<forall>(dir, name, f) \<in> set (osSeen st). \<not> plainName name \<or> stored ow plan (osDisk st) (dir, name @ ''.'' @ f)))"

lemma printReport_inv: "outInv ow plan disk st \<Longrightarrow> outInv ow plan disk (printReport ow r st) \<and> osSeen (printReport ow r st) = osSeen st"
  by (auto simp: printReport_def outInv_def split: sum.splits)

definition jobFile :: "outJob \<Rightarrow> string \<times> string" where
  "jobFile j = (ojDir j, ojName j @ ''.'' @ ojFormat j)"

definition jobKey :: "outJob \<Rightarrow> string \<times> string \<times> string" where
  "jobKey j = (ojDir j, ojName j, ojFormat j)"

text \<open>What writing needs of a plan: the content follows from the name, whichever directory it is in.\<close>

locale file_plan =
  fixes ow :: outWorld and r :: "reportDocument \<times> Analysis option" and plan :: filePlan
  assumes one_content: "plan (dir, name) c \<Longrightarrow> plan (dir', name) c' \<Longrightarrow> c = c'"
begin

lemma stored_stays:
  assumes "stored ow plan d (dir, name)" and "wholeChange (plannedAt ow plan) d d'" and "\<not> hasPrefix name ''.''"
  shows "stored ow plan d' (dir, name)"
proof -
  obtain n path raw where s: "oeAbs (owEnv ow n) dir = Some path" "plan (dir, name) (Inr raw)" "d (path, name) = Some (RegularFile raw)"
    using assms(1) unfolding stored_def by auto
  have "\<not> temporaryPath (path, name)" using assms(3) by (auto simp: temporaryPath_def)
  then consider "d' (path, name) = d (path, name)" | raw' where "plannedAt ow plan (path, name) raw'" "d' (path, name) = Some (RegularFile raw')"
    using assms(2) unfolding wholeChange_def by blast
  then have "d' (path, name) = Some (RegularFile raw)"
  proof cases
    case 2
    then obtain dir' where "plan (dir', name) (Inr raw')" by (auto simp: plannedAt_def)
    then show ?thesis using one_content [OF s(2)] 2(2) by auto
  qed (use s in simp)
  then show ?thesis using s unfolding stored_def by auto
qed

lemma storeFile_inv:
  assumes "storeFile ow dir name raw st = st'" and "outInv ow plan disk st" and "plan (dir, name) (Inr raw)"
  shows "outInv ow plan disk st' \<and> osSeen st' = osSeen st \<and> (osFailures st' = [] \<longrightarrow> osFailures st = [] \<and> stored ow plan (osDisk st') (dir, name))"
proof -
  let ?C = "plannedAt ow plan"
  obtain res ds where w: "writeReportFile (owEnv ow (osStep st)) dir name raw (osDisk st) = (res, ds)" by (cases "writeReportFile (owEnv ow (osStep st)) dir name raw (osDisk st)")
  have ds: "wholeChange ?C (osDisk st) d" if "d \<in> set ds" for d
    by (rule wholeChange_mono [OF writeReportFile_whole [OF w that]]) (use assms(3) in \<open>auto simp: plannedAt_def\<close>)
  have disk': "osDisk st' = (if ds = [] then osDisk st else last ds)" "osTrace st' = osTrace st @ ds" "osSeen st' = osSeen st"
    using assms(1) w by (auto simp: storeFile_def Let_def split: sum.splits)
  have fails: "osFailures st' = [] \<longrightarrow> osFailures st = [] \<and> (\<exists>x. res = Inr x)"
    using assms(1) w by (auto simp: storeFile_def Let_def split: sum.splits)
  have whole: "wholeChange ?C (osDisk st) (osDisk st')" using ds wholeChange_refl disk'(1) by simp
  have before: "wholeChange ?C disk (osDisk st)" "\<And>d. d \<in> set (osTrace st) \<Longrightarrow> wholeChange ?C disk d"
    using assms(2) by (simp_all add: outInv_def)
  have "wholeChange ?C disk d" if "d \<in> set ds" for d by (rule wholeChange_trans [OF before(1) ds [OF that]])
  moreover have "wholeChange ?C disk (osDisk st')" by (rule wholeChange_trans [OF before(1) whole])
  ultimately have all: "\<forall>d \<in> set (osDisk st' # osTrace st'). wholeChange ?C disk d"
    using before(2) unfolding disk'(2) by (simp add: ball_Un)
  have st: "osFailures st = [] \<and> stored ow plan (osDisk st') (dir, name)" if none: "osFailures st' = []"
  proof -
    obtain x where x: "osFailures st = []" "res = Inr x" using fails none by blast
    then obtain path where "ds \<noteq> []" "oeAbs (owEnv ow (osStep st)) dir = Some path" "last ds (path, name) = Some (RegularFile raw)"
      using writeReportFile_success w by blast
    then show ?thesis using x(1) assms(3) disk'(1) unfolding stored_def by auto
  qed
  have "stored ow plan (osDisk st') (d, n @ ''.'' @ f)"
    if a: "osFailures st' = []" "(d, n, f) \<in> set (osSeen st')" "plainName n" for d n f
  proof -
    have "stored ow plan (osDisk st) (d, n @ ''.'' @ f)" using assms(2) a fails disk'(3) unfolding outInv_def by fastforce
    then show ?thesis by (rule stored_stays [OF _ whole]) (use a(3) in \<open>cases n; auto simp: plainName_def\<close>)
  qed
  then show ?thesis using all st disk'(3) unfolding outInv_def by blast
qed

lemma putFile_inv:
  assumes "outInv ow plan disk st" and "plan (jobFile j) (jobRender ow r j)"
  shows "outInv ow plan disk (putFile ow r j st) \<and> insert (jobKey j) (set (osSeen st)) \<subseteq> set (osSeen (putFile ow r j st))"
proof (cases "jobKey j \<in> set (osSeen st)")
  case True
  then show ?thesis using assms(1) by (simp add: putFile_def jobKey_def)
next
  case False
  let ?st = "st\<lparr>osSeen := jobKey j # osSeen st\<rparr>"
  show ?thesis
  proof (cases "jobRender ow r j")
    case (Inl e)
    then show ?thesis using assms(1) False by (auto simp: putFile_def Let_def outInv_def jobKey_def)
  next
    case (Inr raw)
    define st1 where "st1 = storeFile ow (ojDir j) (ojName j @ ''.'' @ ojFormat j) raw st"
    have raw: "plan (ojDir j, ojName j @ ''.'' @ ojFormat j) (Inr raw)" using assms(2) Inr by (simp add: jobFile_def)
    note facts = storeFile_inv [OF st1_def [symmetric] assms(1) raw]
    have "putFile ow r j st = storeFile ow (ojDir j) (ojName j @ ''.'' @ ojFormat j) raw ?st"
      using False Inr by (simp add: putFile_def Let_def jobKey_def)
    also have "\<dots> = st1\<lparr>osSeen := jobKey j # osSeen st\<rparr>"
      by (simp add: storeFile_def st1_def Let_def split: prod.split sum.split)
    finally have put: "putFile ow r j st = st1\<lparr>osSeen := jobKey j # osSeen st\<rparr>" .
    show ?thesis unfolding put using facts by (auto simp: outInv_def jobKey_def)
  qed
qed

lemma fold_put_inv:
  assumes "outInv ow plan disk st" and "\<forall>j \<in> set js. plan (jobFile j) (jobRender ow r j)"
  shows "outInv ow plan disk (fold (putFile ow r) js st) \<and> jobKey ` set js \<union> set (osSeen st) \<subseteq> set (osSeen (fold (putFile ow r) js st))"
  using assms
proof (induction js arbitrary: st)
  case (Cons j js)
  then have put: "outInv ow plan disk (putFile ow r j st) \<and> insert (jobKey j) (set (osSeen st)) \<subseteq> set (osSeen (putFile ow r j st))"
    using putFile_inv by simp
  show ?case using Cons.IH [of "putFile ow r j st"] Cons.prems(2) put by auto
qed simp

lemma fold_format_inv:
  assumes "outInv ow plan disk st" and "\<forall>f \<in> set fs. plan (jobFile (reportJob base f)) (jobRender ow r (reportJob base f))"
  shows "outInv ow plan disk (fold (reportFormat ow r base) fs st)
    \<and> (\<lambda>f. jobKey (reportJob base f)) ` set fs \<union> set (osSeen st) \<subseteq> set (osSeen (fold (reportFormat ow r base) fs st))"
  using assms
proof (induction fs arbitrary: st)
  case (Cons f fs)
  then have "outInv ow plan disk (putFile ow r (reportJob base f) st)
      \<and> insert (jobKey (reportJob base f)) (set (osSeen st)) \<subseteq> set (osSeen (putFile ow r (reportJob base f) st))"
    using putFile_inv by simp
  then have "outInv ow plan disk (reportFormat ow r base f st)
      \<and> insert (jobKey (reportJob base f)) (set (osSeen st)) \<subseteq> set (osSeen (reportFormat ow r base f st))"
    using printReport_inv [of ow plan disk "putFile ow r (reportJob base f) st" r] unfolding reportFormat_def Let_def by presburger
  then show ?case using Cons.IH [of "reportFormat ow r base f st"] Cons.prems(2) by auto
qed simp

end

section \<open>All outputs\<close>

text \<open>The text of a report in each format, and what each file that is asked for is to hold: the compatibility projection under the base
  name for JSON and CSV with the full report beside it, the full report otherwise, the reports of the second list in
  \<open>output\<close>, where \<open>cli\<close> stands for text, and with them the summary.\<close>

definition formatText :: "outWorld \<Rightarrow> reportDocument \<times> Analysis option \<Rightarrow> string \<Rightarrow> string + string" where
  "formatText ow r f =
     (let uni = tpLower (owParsers ow); rr = owRenderers ow in
      case map_of [(''json'', boundedOutput (rrIndent rr (analysisField (snd r) (documentJSON (fst r))) @ [CHR 0x0A])),
        (''csv'', renderCSV r), (''txt'', renderText uni r), (''html'', renderHTML uni r), (''pdf'', renderPDF (rrPDF rr) uni r),
        (''docx'', renderDOCX (rrZip rr) uni r)] f of Some c \<Rightarrow> c | None \<Rightarrow> Inl ''unsupported report format'')"

definition legacyText :: "(string \<Rightarrow> string) \<Rightarrow> reportDocument \<times> Analysis option \<Rightarrow> string \<Rightarrow> string + string" where
  "legacyText uni r f =
     (let rows = map rnResult (rdResults (fst r)) in
      boundedOutput (if f = ''json'' then jsonText (JArr (map reportResult rows)) @ [CHR 0x0A]
        else csvText (LegacyCSVHeader # map (LegacyCSVRecord uni) rows)))"

definition askedFor :: "outWorld \<Rightarrow> string \<Rightarrow> string list \<Rightarrow> string list \<Rightarrow> reportDocument \<times> Analysis option \<Rightarrow> filePlan" where
  "askedFor ow dir formats reportFormats r q c \<longleftrightarrow>
     (let base = SafeBase (owParsers ow) (rdTarget (fst r)); uni = tpLower (owParsers ow) in
      (\<exists>f \<in> set formats. q = (dir, base @ ''.'' @ f) \<and> c = (if f \<in> {''json'', ''csv''} then legacyText uni r f else formatText ow r f))
      \<or> (\<exists>f \<in> set formats \<inter> {''json'', ''csv''}. q = (dir, base @ ''_report.'' @ f) \<and> c = formatText ow r f)
      \<or> (\<exists>f \<in> (\<lambda>f. if f = ''cli'' then ''txt'' else f) ` set reportFormats. q = (''output'', base @ ''_report.'' @ f) \<and> c = formatText ow r f)
      \<or> reportFormats \<noteq> [] \<and> q = (dir, base @ ''_summary.json'')
          \<and> c = Inr (outSummaryJSON (owDuration ow) (BuildSummary uni (rdTarget (fst r)) (map rnResult (rdResults (fst r))) (rdDuration (fst r)))))"

lemma formatText_Render: "formatText ow r f = Render (tpLower (owParsers ow)) (owRenderers ow) r f"
  by (simp add: formatText_def Render_def Let_def)

lemma legacyText_Render: "f = ''json'' \<or> f = ''csv'' \<Longrightarrow> legacyText uni r f = RenderLegacy uni r f"
  by (auto simp: legacyText_def RenderLegacy_def Let_def)

text \<open>The name tells the content.\<close>

definition nameFixes :: "string \<Rightarrow> (string \<Rightarrow> 'c) \<Rightarrow> (string \<Rightarrow> 'c) \<Rightarrow> 'c \<Rightarrow> string \<Rightarrow> 'c \<Rightarrow> bool" where
  "nameFixes b first full summary n c \<longleftrightarrow>
     (\<exists>f. n = b @ ''.'' @ f \<and> c = first f) \<or> (\<exists>f. n = b @ ''_report.'' @ f \<and> c = full f) \<or> n = b @ ''_summary.json'' \<and> c = summary"

lemma nameFixes_once: "nameFixes b first full summary n c \<Longrightarrow> nameFixes b first full summary n c' \<Longrightarrow> c = c'"
  unfolding nameFixes_def by (elim disjE exE conjE) simp_all

lemma asked_named:
  "askedFor ow dir formats reportFormats r q c \<Longrightarrow>
     nameFixes (SafeBase (owParsers ow) (rdTarget (fst r))) (\<lambda>f. if f \<in> {''json'', ''csv''} then legacyText (tpLower (owParsers ow)) r f else formatText ow r f)
       (formatText ow r) (Inr (outSummaryJSON (owDuration ow) (BuildSummary (tpLower (owParsers ow)) (rdTarget (fst r)) (map rnResult (rdResults (fst r))) (rdDuration (fst r)))))
       (snd q) c"
  unfolding askedFor_def nameFixes_def Let_def by (elim disjE bexE conjE; hypsubst; unfold snd_conv; blast)

interpretation asked: file_plan ow r "askedFor ow dir formats reportFormats r" for ow dir formats reportFormats r
proof unfold_locales
  fix d d' name c c'
  assume "askedFor ow dir formats reportFormats r (d, name) c" and "askedFor ow dir formats reportFormats r (d', name) c'"
  from this [THEN asked_named] show "c = c'" unfolding snd_conv by (rule nameFixes_once)
qed

text \<open>The files of the plan, one by one.\<close>

lemma asked_first: "f \<in> set formats \<Longrightarrow> askedFor ow dir formats reportFormats r (dir, SafeBase (owParsers ow) (rdTarget (fst r)) @ ''.'' @ f)
    (if f \<in> {''json'', ''csv''} then legacyText (tpLower (owParsers ow)) r f else formatText ow r f)"
  unfolding askedFor_def Let_def by blast

lemma asked_full: "f \<in> set formats \<Longrightarrow> f \<in> {''json'', ''csv''} \<Longrightarrow>
    askedFor ow dir formats reportFormats r (dir, SafeBase (owParsers ow) (rdTarget (fst r)) @ ''_report.'' @ f) (formatText ow r f)"
  unfolding askedFor_def Let_def by blast

lemma asked_report: "f \<in> set reportFormats \<Longrightarrow> g = (if f = ''cli'' then ''txt'' else f) \<Longrightarrow>
    askedFor ow dir formats reportFormats r (''output'', SafeBase (owParsers ow) (rdTarget (fst r)) @ ''_report.'' @ g) (formatText ow r g)"
  unfolding askedFor_def Let_def by blast

lemma asked_summary: "reportFormats \<noteq> [] \<Longrightarrow> askedFor ow dir formats reportFormats r (dir, SafeBase (owParsers ow) (rdTarget (fst r)) @ ''_summary.json'')
    (Inr (outSummaryJSON (owDuration ow) (BuildSummary (tpLower (owParsers ow)) (rdTarget (fst r)) (map rnResult (rdResults (fst r))) (rdDuration (fst r)))))"
  unfolding askedFor_def Let_def by blast

lemma asked_cases:
  assumes "askedFor ow dir formats reportFormats r q c"
  obtains (first) f where "f \<in> set formats" "q = (dir, SafeBase (owParsers ow) (rdTarget (fst r)) @ ''.'' @ f)"
    | (full) f where "f \<in> set formats" "f = ''json'' \<or> f = ''csv''" "q = (dir, SafeBase (owParsers ow) (rdTarget (fst r)) @ ''_report.'' @ f)"
    | (report) f where "f \<in> set reportFormats" "q = (''output'', SafeBase (owParsers ow) (rdTarget (fst r)) @ ''_report.'' @ (if f = ''cli'' then ''txt'' else f))"
    | (summary) "reportFormats \<noteq> []" "q = (dir, SafeBase (owParsers ow) (rdTarget (fst r)) @ ''_summary.json'')"
  using assms unfolding askedFor_def Let_def by blast

text \<open>They are the files of the jobs, and the jobs give them the contents of the plan.\<close>

lemma job_first: "\<exists>j \<in> set (formatJobs dir b f). jobFile j = (dir, b @ ''.'' @ f)"
  by (simp add: formatJobs_def jobFile_def)

lemma job_full: "f = ''json'' \<or> f = ''csv'' \<Longrightarrow> \<exists>j \<in> set (formatJobs dir b f). jobFile j = (dir, b @ ''_report.'' @ f)"
  by (simp add: formatJobs_def jobFile_def)

lemma job_report: "jobFile (reportJob b f) = (''output'', b @ ''_report.'' @ (if f = ''cli'' then ''txt'' else f))"
  by (simp add: reportJob_def jobFile_def)

lemma job_content:
  assumes "j \<in> set (formatJobs dir b f)"
  shows "jobFile j = (dir, b @ ''.'' @ f)
        \<and> jobRender ow r j = (if f \<in> {''json'', ''csv''} then legacyText (tpLower (owParsers ow)) r f else formatText ow r f)
    \<or> f \<in> {''json'', ''csv''} \<and> jobFile j = (dir, b @ ''_report.'' @ f) \<and> jobRender ow r j = formatText ow r f"
proof (cases "f = ''json'' \<or> f = ''csv''")
  case True
  with assms have "j = \<lparr>ojDir = dir, ojName = b, ojFormat = f, ojLegacy = True\<rparr> \<or> j = \<lparr>ojDir = dir, ojName = b @ ''_report'', ojFormat = f, ojLegacy = False\<rparr>"
    by (simp add: formatJobs_def)
  then show ?thesis
  proof
    assume "j = \<lparr>ojDir = dir, ojName = b, ojFormat = f, ojLegacy = True\<rparr>"
    then show ?thesis using True legacyText_Render [OF True] by (simp add: jobFile_def jobRender_def)
  next
    assume "j = \<lparr>ojDir = dir, ojName = b @ ''_report'', ojFormat = f, ojLegacy = False\<rparr>"
    then show ?thesis using True by (simp add: jobFile_def jobRender_def formatText_Render)
  qed
next
  case False
  then have "j = \<lparr>ojDir = dir, ojName = b, ojFormat = f, ojLegacy = False\<rparr>" using assms by (simp add: formatJobs_def)
  then show ?thesis using False by (simp add: jobFile_def jobRender_def formatText_Render)
qed

lemma format_jobs_asked:
  assumes "f \<in> set formats" and "j \<in> set (formatJobs dir (SafeBase (owParsers ow) (rdTarget (fst r))) f)"
  shows "askedFor ow dir formats reportFormats r (jobFile j) (jobRender ow r j)"
  using job_content [OF assms(2), of ow r]
proof (elim disjE conjE)
  assume j: "jobFile j = (dir, SafeBase (owParsers ow) (rdTarget (fst r)) @ ''.'' @ f)"
    "jobRender ow r j = (if f \<in> {''json'', ''csv''} then legacyText (tpLower (owParsers ow)) r f else formatText ow r f)"
  show ?thesis unfolding j by (rule asked_first [OF assms(1)])
next
  assume j: "jobFile j = (dir, SafeBase (owParsers ow) (rdTarget (fst r)) @ ''_report.'' @ f)" "jobRender ow r j = formatText ow r f"
    and f: "f \<in> {''json'', ''csv''}"
  show ?thesis unfolding j by (rule asked_full [OF assms(1) f])
qed

lemma report_jobs_asked:
  assumes "f \<in> set reportFormats"
  shows "askedFor ow dir formats reportFormats r (jobFile (reportJob (SafeBase (owParsers ow) (rdTarget (fst r))) f))
    (jobRender ow r (reportJob (SafeBase (owParsers ow) (rdTarget (fst r))) f))"
proof -
  have "jobRender ow r (reportJob b f) = formatText ow r (if f = ''cli'' then ''txt'' else f)" for b
    by (simp add: jobRender_def reportJob_def formatText_Render)
  then show ?thesis unfolding job_report using asked_report [OF assms refl] by simp
qed

text \<open>All the steps keep to the plan; without an error all jobs have been tried, and the summary is there.\<close>

lemma outputs_inv:
  assumes "WriteOutputs ow dir formats reportFormats r disk = (err, st)"
  defines "base \<equiv> SafeBase (owParsers ow) (rdTarget (fst r))" and "plan \<equiv> askedFor ow dir formats reportFormats r"
  shows "outInv ow plan disk st \<and> (err = None \<longrightarrow> osFailures st = []
    \<and> jobKey ` set (concat (map (formatJobs dir base) formats)) \<union> (\<lambda>f. jobKey (reportJob base f)) ` set reportFormats \<subseteq> set (osSeen st)
    \<and> (reportFormats \<noteq> [] \<longrightarrow> stored ow plan (osDisk st) (dir, base @ ''_summary.json'')))"
proof -
  define st0 where "st0 = \<lparr>osSeen = [], osDisk = disk, osTrace = [], osFailures = [], osPrinted = [], osStep = 0\<rparr>"
  define st1 where "st1 = fold (putFile ow r) (concat (map (formatJobs dir base) formats)) st0"
  define st2 where "st2 = fold (reportFormat ow r base) reportFormats st1"
  define st3 where "st3 = (if reportFormats \<noteq> [] then writeSummary ow r dir base st2 else st2)"
  have inv0: "outInv ow plan disk st0" by (simp add: outInv_def st0_def wholeChange_refl)
  have jobs: "\<forall>j \<in> set (concat (map (formatJobs dir base) formats)). plan (jobFile j) (jobRender ow r j)"
    using format_jobs_asked unfolding plan_def base_def by auto
  note inv1 = asked.fold_put_inv [OF inv0 [unfolded plan_def] jobs [unfolded plan_def], folded plan_def st1_def]
  have reports: "\<forall>f \<in> set reportFormats. plan (jobFile (reportJob base f)) (jobRender ow r (reportJob base f))"
    using report_jobs_asked unfolding plan_def base_def by blast
  note inv2 = asked.fold_format_inv [OF conjunct1 [OF inv1, unfolded plan_def] reports [unfolded plan_def], folded plan_def st2_def]
  have inv3: "outInv ow plan disk st3 \<and> osSeen st3 = osSeen st2
      \<and> (reportFormats \<noteq> [] \<longrightarrow> osFailures st3 = [] \<longrightarrow> stored ow plan (osDisk st3) (dir, base @ ''_summary.json''))"
  proof (cases "reportFormats = []")
    case False
    from asked.storeFile_inv [OF refl conjunct1 [OF inv2, unfolded plan_def] asked_summary [OF False], folded plan_def base_def]
    show ?thesis using False by (simp add: st3_def writeSummary_def)
  qed (use inv2 in \<open>simp add: st3_def\<close>)
  consider "st = st0" "err \<noteq> None" | "st = st3" "err = (if osFailures st3 = [] then None else Some (osFailures st3))"
    using assms(1) unfolding WriteOutputs_def Let_def base_def [symmetric] st0_def [symmetric] st1_def [symmetric] st2_def [symmetric] st3_def [symmetric]
    by (auto split: if_splits)
  then show ?thesis
  proof cases
    case 1
    then show ?thesis using inv0 by blast
  next
    case 2
    have ok: "err = None \<Longrightarrow> osFailures st3 = []" using 2(2) by (simp split: if_splits)
    have seen: "jobKey ` set (concat (map (formatJobs dir base) formats)) \<union> (\<lambda>f. jobKey (reportJob base f)) ` set reportFormats \<subseteq> set (osSeen st3)"
      unfolding conjunct1 [OF conjunct2 [OF inv3]]
    proof (rule Un_least)
      have "set (osSeen st1) \<subseteq> set (osSeen st2)" by (rule order_trans [OF Un_upper2 conjunct2 [OF inv2]])
      moreover have "jobKey ` set (concat (map (formatJobs dir base) formats)) \<subseteq> set (osSeen st1)"
        by (rule order_trans [OF Un_upper1 conjunct2 [OF inv1]])
      ultimately show "jobKey ` set (concat (map (formatJobs dir base) formats)) \<subseteq> set (osSeen st2)" by (rule order_trans [rotated])
      show "(\<lambda>f. jobKey (reportJob base f)) ` set reportFormats \<subseteq> set (osSeen st2)"
        by (rule order_trans [OF Un_upper1 conjunct2 [OF inv2]])
    qed
    show ?thesis unfolding 2(1)
      by (intro conjI impI conjunct1 [OF inv3] ok seen conjunct2 [OF conjunct2 [OF inv3], rule_format])
  qed
qed

lemma outputs_stored:
  assumes "WriteOutputs ow dir formats reportFormats r disk = (None, st)" and "askedFor ow dir formats reportFormats r q c"
  shows "stored ow (askedFor ow dir formats reportFormats r) (osDisk st) q"
proof -
  let ?base = "SafeBase (owParsers ow) (rdTarget (fst r))" and ?plan = "askedFor ow dir formats reportFormats r"
  note inv = outputs_inv [OF assms(1)]
  have plain: "plainName (?base @ x)" for x
    using SafeBase_bytes [of "owParsers ow" "rdTarget (fst r)"] by (cases ?base) (auto simp: plainName_def)
  have here: "stored ow ?plan (osDisk st) (jobFile j)" if "jobKey j \<in> set (osSeen st)" "plainName (ojName j)" for j
    using that inv unfolding outInv_def by (fastforce simp: jobKey_def jobFile_def)
  have tried: "stored ow ?plan (osDisk st) (jobFile j)" if "f \<in> set formats" "j \<in> set (formatJobs dir ?base f)" for f j
  proof (rule here)
    have "j \<in> set (concat (map (formatJobs dir ?base) formats))" using that by auto
    then show "jobKey j \<in> set (osSeen st)" using inv by blast
    show "plainName (ojName j)" using that(2) plain [of "[]"] plain by (auto simp: formatJobs_def split: if_splits)
  qed
  from assms(2) show ?thesis
  proof (cases rule: asked_cases)
    case (first f)
    obtain j where j: "j \<in> set (formatJobs dir ?base f)" "jobFile j = (dir, ?base @ ''.'' @ f)" using job_first by blast
    show ?thesis using tried [OF first(1) j(1)] unfolding j(2) first(2) .
  next
    case (full f)
    obtain j where j: "j \<in> set (formatJobs dir ?base f)" "jobFile j = (dir, ?base @ ''_report.'' @ f)" using job_full [OF full(2)] by blast
    show ?thesis using tried [OF full(1) j(1)] unfolding j(2) full(3) .
  next
    case (report f)
    have "jobKey (reportJob ?base f) \<in> set (osSeen st)" using inv report(1) by blast
    moreover have "plainName (ojName (reportJob ?base f))" using plain by (simp add: reportJob_def)
    ultimately have "stored ow ?plan (osDisk st) (jobFile (reportJob ?base f))" by (rule here)
    then show ?thesis unfolding job_report report(2) .
  next
    case summary
    then show ?thesis using inv by blast
  qed
qed

text \<open>C37: reports are replaced as a whole, and each file holds what its name says: in every state of the disk while the outputs of an
  investigation are written, and so after a crash at any point and whatever fails, every path that is not a temporary file
  is as it was before or is one that was asked for and holds the complete content for its name (the text of the report in the
  format of the name, the compatibility projection, or the summary), and nothing but regular files was replaced; and when
  no error is returned, every file that was asked for could be rendered and is there with that content.\<close>

theorem outputs_whole:
  assumes "WriteOutputs ow dir formats reportFormats r disk = (err, st)"
  shows "(\<forall>d \<in> set (osDisk st # osTrace st). \<forall>p. temporaryPath p \<or> d p = disk p
        \<or> disk p \<noteq> Some OtherNode \<and> (\<exists>raw. (\<exists>n at. oeAbs (owEnv ow n) at = Some (fst p)
            \<and> askedFor ow dir formats reportFormats r (at, snd p) (Inr raw)) \<and> d p = Some (RegularFile raw)))
    \<and> (err = None \<longrightarrow> (\<forall>at name content. askedFor ow dir formats reportFormats r (at, name) content \<longrightarrow>
          (\<exists>raw n path. content = Inr raw \<and> oeAbs (owEnv ow n) at = Some path \<and> osDisk st (path, name) = Some (RegularFile raw))))"
proof -
  let ?plan = "askedFor ow dir formats reportFormats r"
  have "\<exists>raw n path. content = Inr raw \<and> oeAbs (owEnv ow n) at = Some path \<and> osDisk st (path, name) = Some (RegularFile raw)"
    if "err = None" "?plan (at, name) content" for at name content
    using outputs_stored [OF assms [unfolded that(1)] that(2)] asked.one_content [OF that(2)] unfolding stored_def fst_conv snd_conv by blast
  moreover have "\<forall>d \<in> set (osDisk st # osTrace st). wholeChange (plannedAt ow ?plan) disk d"
    using outputs_inv [OF assms] unfolding outInv_def by blast
  ultimately show ?thesis unfolding wholeChange_def plannedAt_def by simp
qed

definition plainOutWorld :: outWorld where
  "plainOutWorld = \<lparr>owParsers = plainParsers,
     owRenderers = \<lparr>rrIndent = (\<lambda>j. jsonText j), rrZip = (\<lambda>_. Inl []),
       rrPDF = \<lparr>pwGlyph = (\<lambda>_. True), pwPage = (\<lambda>_. 1), pwError = (\<lambda>_. False), pwFile = (\<lambda>_ _. Inl [])\<rparr>\<rparr>,
     owEnv = (\<lambda>_. \<lparr>oeAbs = Some, oeDirectory = (\<lambda>_. True), oeTemp = ''A'', oeFails = (\<lambda>_. False), oeWritten = 0\<rparr>),
     owPrintFails = (\<lambda>_. False), owDuration = (\<lambda>_. ''0s'')\<rparr>"

theorem outputs_whole_witness:
  "osDisk (snd (WriteOutputs plainOutWorld ''out'' [''csv''] [] (demoReport, None) (\<lambda>_. None))) (''out'', ''alice.csv'')
      = Some (RegularFile (csvText [LegacyCSVHeader]))
    \<and> osDisk (snd (WriteOutputs plainOutWorld ''out'' [''csv''] [] (demoReport, None) (\<lambda>_. None))) (''out'', ''alice_report.csv'')
      = Some (RegularFile (csvText [CSVHeader, csvMetadata (demoReport, None)]))"
proof -
  let ?r = "(demoReport, None) :: reportDocument \<times> Analysis option"
  let ?o = "WriteOutputs plainOutWorld ''out'' [''csv''] [] ?r (\<lambda>_. None)"
  have base: "SafeBase (owParsers plainOutWorld) (rdTarget demoReport) = ''alice''"
    using plain_base by (simp add: plainOutWorld_def demoReport_def)
  have "length (csvText [CSVHeader, csvMetadata ?r]) \<le> 10000" "length (csvText [LegacyCSVHeader]) \<le> 1000" by code_simp+
  then have full: "Render u rr ?r ''csv'' = Inr (csvText [CSVHeader, csvMetadata ?r])"
    and legacy: "RenderLegacy u ?r ''csv'' = Inr (csvText [LegacyCSVHeader])"
    and short: "length (csvText [CSVHeader, csvMetadata ?r]) \<le> MaxOutputBytes" "length (csvText [LegacyCSVHeader]) \<le> MaxOutputBytes" for u rr
    by (simp_all add: RenderLegacy_def Render_def renderCSV_def boundedOutput_def csvRows_def MaxOutputBytes_def MaxResults_def demoReport_def)
  have csv: "jobRender plainOutWorld ?r \<lparr>ojDir = d, ojName = n, ojFormat = ''csv'', ojLegacy = l\<rparr>
      = Inr (if l then csvText [LegacyCSVHeader] else csvText [CSVHeader, csvMetadata ?r])" for d n l
    by (simp add: jobRender_def full legacy)
  have env: "owEnv plainOutWorld n = \<lparr>oeAbs = Some, oeDirectory = (\<lambda>_. True), oeTemp = ''A'', oeFails = (\<lambda>_. False), oeWritten = 0\<rparr>" for n
    by (simp add: plainOutWorld_def)
  have "fst ?o = None"
    using short
    by (simp add: WriteOutputs_def Let_def base formatJobs_def putFile_def csv storeFile_def writeReportFile_def replaceFile_def
      fileNameOK_def ValidFormat_def Formats_def env pathDepth_def split: prod.split sum.split)
  then have o: "?o = (None, snd ?o)" by (simp add: prod_eq_iff)
  have "askedFor plainOutWorld ''out'' [''csv''] [] ?r (''out'', ''alice.csv'') (Inr (csvText [LegacyCSVHeader]))"
      "askedFor plainOutWorld ''out'' [''csv''] [] ?r (''out'', ''alice_report.csv'') (Inr (csvText [CSVHeader, csvMetadata ?r]))"
    using asked_first [of "''csv''" "[''csv'']" plainOutWorld "''out''" "[]" ?r] asked_full [of "''csv''" "[''csv'']" plainOutWorld "''out''" "[]" ?r]
    by (simp_all add: base formatText_Render legacyText_Render full legacy)
  with outputs_whole [OF o, THEN conjunct2, THEN mp, OF refl] show ?thesis by (fastforce simp: env)
qed

end
