(* ===== verification/Spec2Isabelle.thy ===== *)
theory Spec2Isabelle
  imports PwActivationInv BitcoinAddr Websites ParallelSearch BitcoinLookup MonitorSnapshotInv MonitorStoreInv
    MonitorEngine ReportModelInv AnalysisInv HttpApiInv CliConfigInv HibpInv ProvidersInv ReportMarkupInv ReportOutputInv
begin

text \<open>
  A verification library for the search agent of this repository (module \<open>agentsearch\<close>, Go).  The program collects
  evidence about a target (user name, e-mail, domain, IP, Bitcoin address or transaction, password) from sources, reports
  it, watches it over time, and can let a model interpret it.  The library models the packages under \<open>src/internal/\<close>.

  \<^bold>\<open>Prelude.\<close> \<open>GoBase\<close> (buffers, fallible steps as \<open>error + 'a\<close>, big-endian integers, hexadecimal, binary search),
  \<open>GoStrings\<close> (\<open>strings\<close>, \<open>strconv\<close>), \<open>GoSort\<close> (\<open>sort.Slice\<close>: on a strict total order every sort agrees),
  \<open>Sha256\<close> (executable), \<open>Json\<close> (UTF-8, \<open>json.Marshal\<close>, RFC 3339) and \<open>Machine\<close>: locales for step relations
  with an invariant, with progress and with termination, which the components interpret.

  \<^bold>\<open>The offline password database\<close> (\<open>passworddb\<close>).  \<open>PwFormat\<close> is the file format (\<open>format.go\<close>, \<open>errors.go\<close>),
  \<open>PwReader\<close> lookup and scrub (\<open>reader.go\<close>), \<open>PwImport\<close> the build from a corpus (\<open>import.go\<close>) with its loop
  invariant in \<open>PwImportInv\<close>.  \<open>PwStore\<close> relates the files to a list of records and refines \<open>Lookup\<close> to a lookup in
  it.  \<open>PwActivation\<close>, \<open>PwActivationInv\<close>: the two activation slots, leases and pruning (\<open>activation.go\<close>,
  \<open>locks.go\<close>) over a file store in which any write may be torn.

  \<^bold>\<open>Data.\<close> \<open>Security\<close>: redaction with its regular expressions, and secret handles as references into a store.
  \<open>Models\<close>, \<open>ResultJson\<close>: targets, results, provenance and their JSON.  \<open>BitcoinAddr\<close>: Base58Check, Bech32 and
  Bech32m validation.

  \<^bold>\<open>Sources.\<close> \<open>Sources\<close>: the contract of a source, the registry and the sequential dispatch (\<open>manager.go\<close>); a
  search of a source is a script of rows and calls.  \<open>ParallelSearch\<close>: the overlapping dispatch (\<open>orchestration.go\<close>),
  goroutines and channels as a step relation.  \<open>Detector\<close>, \<open>WorkerPool\<close>, \<open>RateLimit\<close>, \<open>Websites\<close>: the website
  source with its scoring, its worker pool and its host limiter.  \<open>BitcoinTx\<close>, \<open>BitcoinClient\<close>, \<open>BitcoinHistory\<close>,
  \<open>BitcoinLookup\<close>: the Bitcoin sources, from bounded HTTP reads over the parser to the rows.  \<open>Diagnostics\<close>: what is
  logged about a search.

  \<^bold>\<open>Monitoring\<close> (\<open>monitor\<close>).  \<open>MonitorSnapshot\<close>: projection of rows, differences, merging of baselines;
  \<open>MonitorStore\<close>: logs and baselines on disk, every system call may fail; \<open>MonitorBaseline\<close>: opening, loading and
  saving; \<open>MonitorEngine\<close>: watch list and cycles.  The \<open>Inv\<close> theories have their invariants.

  \<^bold>\<open>Reports and analysis.\<close> \<open>ReportModel\<close>, \<open>ReportModelInv\<close>: the canonical report (\<open>report/model.go\<close>).
  \<open>AnalysisInput\<close>, \<open>AnalysisParse\<close>, \<open>AnalysisInv\<close>: the bounded input of the optional analysis, the strict reading of
  an answer, and the service (\<open>analysis\<close>).  \<open>ReportAttach\<close>: the analysis attached to a report.  \<open>ReportText\<close>: the view
  that all readable formats share, visible text and wrapping (\<open>report/render.go\<close>); \<open>ReportMarkup\<close>: HTML, DOCX and the lines of
  a PDF (\<open>report/documents.go\<close>); \<open>ReportOutput\<close>: CSV, the choice of a format, file names, the replacement of files and the
  summary (\<open>report/output.go\<close>, \<open>report.go\<close>).  Their \<open>Inv\<close> theories show that the text that is written has no control
  character and no embedding, override or isolate of the writing direction (the marks U+200E, U+200F and U+061C pass), that the
  HTML carries no injected markup, that CSV and DOCX can be read back, that an analysis only adds lines to a PDF, and that each
  file on disk changes only to the whole content that belongs to its name (the locale \<open>file_plan\<close>).

  \<^bold>\<open>The HTTP service\<close> (\<open>httpapi\<close>).  \<open>HttpRequest\<close>: the strict body decoder, the targets a request may name
  (\<open>app/search_service.go\<close>) and the escapes of a password against a reference on UTF-16 units.  \<open>HttpApi\<close>: routing,
  authorization, admission, the search with its collector, the classification of failures and the reply (\<open>handler.go\<close>);
  \<open>HttpApiInv\<close>: who reaches a search and what a reply may say.

  \<^bold>\<open>Sources over web services.\<close> \<open>HttpExchange\<close>, \<open>ApiSource\<close>: replies of \<open>net/http\<close>, the world of one lookup, and two
  contracts as locales, \<open>keyed_source\<close> (rows without the key) and \<open>single_row\<close> (one row, an error exactly when it says so).
  \<open>ProviderClients\<close>: which endpoints and keys the constructors accept (\<open>client_endpoint\<close>).  \<open>Sha1\<close>, \<open>Hibp\<close>, \<open>HibpInv\<close>:
  the password sources, online by ranges and offline over the database, which agree on one corpus, and the breaches of an
  address.  \<open>Ipinfo\<close>, \<open>SecurityTrails\<close>, \<open>BitcoinLabels\<close>, \<open>ProvidersInv\<close>: the other providers; the pacing of
  SecurityTrails refines the host limiter.

  \<^bold>\<open>The command line and the configuration\<close> (\<open>config\<close>).  \<open>GoFlag\<close>: the \<open>flag\<close> package as far as it is used;
  \<open>CliConfig\<close>, \<open>CliConfigInv\<close>: \<open>ParseArgs\<close> with its modes, of which every given flag belongs to the one that is chosen, the
  settings of services and of the server.

  \<^bold>\<open>Conventions.\<close> Strings are byte lists; maps are association lists in the order in which Go happens to visit them, so
  that a statement over every list is a statement over every order; integers keep their width where it matters (words in the
  database, amounts and scores), and are \<open>int\<close> or \<open>nat\<close> elsewhere.  What is outside the repository is an argument:
  the decoders of \<open>encoding/json\<close> and YAML (\<open>parse\<close>, \<open>decode\<close>), Unicode lower-casing (\<open>uni\<close>), clocks, random
  bytes, contexts (the error at each check), the network (the responses) and the file system (which calls fail).  Recursion
  is structural or has a termination proof; no fuel is used except the step counts of the scripts, which are total.

  \<^bold>\<open>Not modelled.\<close> The transport (TLS, proxies, \<open>network\<close>), the container, font and page layout of documents,
  platform files, the loaders of site files, the append-only writers of \<open>storage\<close>, the HTTP provider of the analysis, the
  command-line programs and the composition of the providers from settings: input and output over libraries.  Loss of
  unsynced data, mutexes and panics are modelled only where a theory says so.
\<close>

end
